(* ===== verification/Djinn_Prelude.thy ===== *)
theory Djinn_Prelude
  imports Main "HOL-Library.Word" "HOL-Library.Monad_Syntax"
begin

text \<open>
  Shared vocabulary of the development: the machine integer types of the C++ sources, the
  C-locale character classes of \<^verbatim>\<open><cctype>\<close>, decimal printing (\<^verbatim>\<open>std::to_string\<close>),
  \<^verbatim>\<open>std::vector::resize\<close>, and the collections of rewrite rules the component theories extend.
  Nothing here models a particular file; it models what the language and its standard library
  provide to all of them.
\<close>

named_theorems lex_simps \<open>unfolding rules of the lexer's single steps\<close>
named_theorems vm_simps \<open>unfolding rules of the compile-time virtual machine\<close>
named_theorems own_simps \<open>unfolding rules of the ownership tracker\<close>
named_theorems sym_simps \<open>unfolding rules of the symbol tables\<close>

type_synonym u32 = "32 word"
type_synonym u64 = "64 word"
type_synonym i64 = "64 word"

section \<open>Character classes\<close>

text \<open>
  A \<^verbatim>\<open>std::string\<close> is a list of bytes. The classes are those of the C locale: bytes above 127
  are in none of them.
\<close>

definition nul :: char where
  "nul = CHR 0x00"

definition isdigit :: "char \<Rightarrow> bool" where
  "isdigit c \<longleftrightarrow> 48 \<le> (of_char c :: nat) \<and> (of_char c :: nat) \<le> 57"

definition isupper :: "char \<Rightarrow> bool" where
  "isupper c \<longleftrightarrow> 65 \<le> (of_char c :: nat) \<and> (of_char c :: nat) \<le> 90"

definition islower :: "char \<Rightarrow> bool" where
  "islower c \<longleftrightarrow> 97 \<le> (of_char c :: nat) \<and> (of_char c :: nat) \<le> 122"

definition isalpha :: "char \<Rightarrow> bool" where
  "isalpha c \<longleftrightarrow> isupper c \<or> islower c"

definition isalnum :: "char \<Rightarrow> bool" where
  "isalnum c \<longleftrightarrow> isalpha c \<or> isdigit c"

definition isxdigit :: "char \<Rightarrow> bool" where
  "isxdigit c \<longleftrightarrow> isdigit c \<or> (65 \<le> (of_char c :: nat) \<and> (of_char c :: nat) \<le> 70)
     \<or> (97 \<le> (of_char c :: nat) \<and> (of_char c :: nat) \<le> 102)"

lemmas char_class_defs = isdigit_def isupper_def islower_def isalpha_def isalnum_def isxdigit_def

lemma char_class_nul [simp]:
  "\<not> isdigit nul" "\<not> isalpha nul" "\<not> isalnum nul" "\<not> isxdigit nul"
  by (simp_all add: char_class_defs nul_def)

lemma isalnum_cases: "isalnum c \<Longrightarrow> isdigit c \<or> isalpha c"
  by (auto simp: isalnum_def)

lemma isdigit_not_alpha: "isdigit c \<Longrightarrow> \<not> isalpha c"
  by (simp add: char_class_defs)

section \<open>Decimal numbers\<close>

text \<open>\<^verbatim>\<open>std::to_string\<close> on an unsigned number, and the value of a digit string.\<close>

definition digit_char :: "nat \<Rightarrow> char" where
  "digit_char d = char_of (48 + d mod 10)"

definition digit_val :: "char \<Rightarrow> nat" where
  "digit_val c = of_char c - 48"

fun to_string :: "nat \<Rightarrow> string" where
  "to_string n = (if n < 10 then [digit_char n] else to_string (n div 10) @ [digit_char n])"

declare to_string.simps [simp del]

definition decimal_value :: "string \<Rightarrow> nat" where
  "decimal_value cs = foldl (\<lambda>acc c. acc * 10 + digit_val c) 0 cs"

lemma of_char_digit: "(of_char (digit_char d) :: nat) = 48 + d mod 10"
proof -
  have "d mod 10 < 10" by simp
  then have "48 + d mod 10 < 256" by linarith
  then show ?thesis by (simp add: digit_char_def of_char_of)
qed

lemma isdigit_digit_char [simp]: "isdigit (digit_char d)"
proof -
  have "d mod 10 < 10" by simp
  then show ?thesis unfolding isdigit_def of_char_digit by linarith
qed

lemma digit_val_char [simp]: "digit_val (digit_char d) = d mod 10"
  by (simp add: digit_val_def of_char_digit)

lemma to_string_nonempty [simp]: "to_string n \<noteq> []"
  by (subst to_string.simps) simp

lemma to_string_digits: "c \<in> set (to_string n) \<Longrightarrow> isdigit c"
proof (induction n rule: to_string.induct)
  case (1 n)
  then show ?case
    by (cases "n < 10") (auto simp: to_string.simps [of n])
qed

lemma to_string_all_digits [simp]: "list_all isdigit (to_string n)"
  by (simp add: list_all_iff to_string_digits)

lemma decimal_value_append:
  "decimal_value (xs @ [c]) = decimal_value xs * 10 + digit_val c"
  by (simp add: decimal_value_def)

lemma decimal_value_to_string [simp]: "decimal_value (to_string n) = n"
proof (induction n rule: to_string.induct)
  case (1 n)
  show ?case
  proof (cases "n < 10")
    case True
    then show ?thesis by (simp add: to_string.simps [of n] decimal_value_def)
  next
    case False
    with 1 show ?thesis
      by (simp add: to_string.simps [of n] decimal_value_append)
  qed
qed

lemma to_string_inj: "to_string m = to_string n \<Longrightarrow> m = n"
  by (metis decimal_value_to_string)

section \<open>Vectors\<close>

text \<open>\<^verbatim>\<open>v.resize(n, x)\<close>: truncate, or extend with copies of \<^verbatim>\<open>x\<close>.\<close>

definition resize :: "nat \<Rightarrow> 'a \<Rightarrow> 'a list \<Rightarrow> 'a list" where
  "resize n x xs = take n xs @ replicate (n - length xs) x"

lemma length_resize [simp]: "length (resize n x xs) = n"
  by (simp add: resize_def)

lemma nth_resize: "i < n \<Longrightarrow> resize n x xs ! i = (if i < length xs then xs ! i else x)"
  by (auto simp: resize_def nth_append)

lemma resize_ge: "length xs \<le> n \<Longrightarrow> resize n x xs = xs @ replicate (n - length xs) x"
  by (simp add: resize_def)

text \<open>\<^verbatim>\<open>static_cast<uint32_t>(n)\<close> on a size, where the model keeps the number as a natural.\<close>

definition cast_u32 :: "nat \<Rightarrow> nat" where
  "cast_u32 n = n mod 4294967296"

lemma cast_u32_small [simp]: "n < 4294967296 \<Longrightarrow> cast_u32 n = n"
  by (simp add: cast_u32_def)

lemma cast_u32_less [simp]: "cast_u32 n < 4294967296"
  by (simp add: cast_u32_def)

section \<open>Invariants of transition systems\<close>

text \<open>
  The interface every invariant argument of the development uses: a start state, a step relation
  and a predicate that holds at the start and that each step keeps. It then holds in every state
  that can be reached.
\<close>

locale invariant_argument =
  fixes start :: 's and step :: "'s \<Rightarrow> 's \<Rightarrow> bool" and Inv :: "'s \<Rightarrow> bool"
  assumes inv_start: "Inv start"
    and inv_step: "Inv s \<Longrightarrow> step s s' \<Longrightarrow> Inv s'"
begin

lemma inv_steps: "step\<^sup>*\<^sup>* s s' \<Longrightarrow> Inv s \<Longrightarrow> Inv s'"
  by (induction rule: rtranclp_induct) (auto intro: inv_step)

lemma inv_reachable: "step\<^sup>*\<^sup>* start s \<Longrightarrow> Inv s"
  using inv_steps inv_start by blast

end

end
