(* ===== verification/Tokens.thy ===== *)
theory Tokens
  imports Djinn_Prelude
begin

text \<open>
  The tokens of the language: \<^verbatim>\<open>lexer/TokenType.h\<close>, \<^verbatim>\<open>lexer/Token.h\<close> and the keyword table
  of \<^verbatim>\<open>lexer/Lexer.cpp\<close>. \<^verbatim>\<open>enum class TokenType\<close> has 112 enumerators in commented groups;
  the model has one enumeration per group and a sum of the groups, and every enumerator gets its
  name back as an abbreviation with a \<^verbatim>\<open>T_\<close> in front (some of them are words of the logic).
\<close>

text \<open>The two enumerators before the first group.\<close>

datatype basic_token =
      K_UNKNOWN | K_END_OF_FILE

text \<open>Declaration keywords.\<close>

datatype decl_keyword =
      K_EXTERN | K_RETURN | K_STRUCT | K_NAMESPACE | K_IMPORT | K_MUT

text \<open>Control flow.\<close>

datatype flow_keyword =
      K_IF | K_ELSE | K_FOR | K_WHILE | K_DO | K_SWITCH | K_CASE | K_DEFAULT | K_BREAK
    | K_CONTINUE | K_INTERFACE | K_PUBLIC | K_PRIVATE | K_STATIC | K_UNSAFE | K_THIS

text \<open>Value types.\<close>

datatype type_keyword =
      K_INT | K_UINT | K_VOID | K_FLOAT | K_STRING | K_AUTO | K_FALSE | K_TRUE

text \<open>Identifiers and literals.\<close>

datatype literal_token =
      K_IDENTIFIER | K_STRING_LITERAL | K_INTEGER_LITERAL | K_FLOAT_LITERAL

text \<open>Delimiters.\<close>

datatype delimiter =
      K_LPAREN | K_RPAREN | K_LBRACE | K_RBRACE | K_LBRACKET | K_RBRACKET | K_SEMICOLON
    | K_COMMA

text \<open>Arithmetic, comparison, logical and bitwise operators.\<close>

datatype operator_token =
      K_PLUS | K_MINUS | K_PLUS_PLUS | K_MINUS_MINUS | K_STAR | K_SLASH | K_PERCENT
    | K_EQUAL_EQUAL | K_BANG_EQUAL | K_LESS | K_LESS_EQUAL | K_GREATER | K_GREATER_EQUAL
    | K_BANG | K_AND_AND | K_OR_OR | K_AMPERSAND | K_PIPE | K_CARET | K_TILDE | K_LESS_LESS
    | K_GREATER_GREATER

text \<open>Assignment.\<close>

datatype assign_token =
      K_EQUAL | K_ARROW | K_THIN_ARROW | K_PLUS_EQUAL | K_MINUS_EQUAL | K_STAR_EQUAL
    | K_SLASH_EQUAL | K_PERCENT_EQUAL | K_AMPERSAND_EQUAL | K_PIPE_EQUAL | K_CARET_EQUAL
    | K_LESS_LESS_EQUAL | K_GREATER_GREATER_EQUAL

text \<open>Colons, dots and the at sign.\<close>

datatype path_token =
      K_COLON | K_COLON_COLON | K_DOT | K_DOT_DOT | K_DOT_DOT_EQUAL | K_DOT_DOT_DOT | K_AT

text \<open>Special types, overloading, compile time, macros, pattern matching.\<close>

datatype special_keyword =
      K_ENUM | K_NEW | K_IMPL | K_WHERE | K_IN | K_ASYNC | K_AWAIT | K_YIELD | K_SPAWN
    | K_OPERATOR | K_CONST_EXPR | K_CONST_EVAL | K_CONST | K_MACRO | K_IS

text \<open>Null handling, error handling, contracts.\<close>

datatype null_error_token =
      K_NULL_KW | K_QUESTION | K_QUESTION_DOT | K_QUESTION_QUESTION
    | K_QUESTION_QUESTION_EQUAL | K_BANG_DOT | K_THROW | K_THROWS | K_TRY | K_REQUIRE
    | K_ENSURE

datatype token_type =
      Tok_basic basic_token | Tok_decl decl_keyword | Tok_flow flow_keyword
    | Tok_vtype type_keyword | Tok_lit literal_token | Tok_delim delimiter
    | Tok_oper operator_token | Tok_assign assign_token | Tok_path path_token
    | Tok_special special_keyword | Tok_nullerr null_error_token

abbreviation "T_UNKNOWN \<equiv> Tok_basic K_UNKNOWN"
abbreviation "T_END_OF_FILE \<equiv> Tok_basic K_END_OF_FILE"
abbreviation "T_EXTERN \<equiv> Tok_decl K_EXTERN"
abbreviation "T_RETURN \<equiv> Tok_decl K_RETURN"
abbreviation "T_STRUCT \<equiv> Tok_decl K_STRUCT"
abbreviation "T_NAMESPACE \<equiv> Tok_decl K_NAMESPACE"
abbreviation "T_IMPORT \<equiv> Tok_decl K_IMPORT"
abbreviation "T_MUT \<equiv> Tok_decl K_MUT"
abbreviation "T_IF \<equiv> Tok_flow K_IF"
abbreviation "T_ELSE \<equiv> Tok_flow K_ELSE"
abbreviation "T_FOR \<equiv> Tok_flow K_FOR"
abbreviation "T_WHILE \<equiv> Tok_flow K_WHILE"
abbreviation "T_DO \<equiv> Tok_flow K_DO"
abbreviation "T_SWITCH \<equiv> Tok_flow K_SWITCH"
abbreviation "T_CASE \<equiv> Tok_flow K_CASE"
abbreviation "T_DEFAULT \<equiv> Tok_flow K_DEFAULT"
abbreviation "T_BREAK \<equiv> Tok_flow K_BREAK"
abbreviation "T_CONTINUE \<equiv> Tok_flow K_CONTINUE"
abbreviation "T_INTERFACE \<equiv> Tok_flow K_INTERFACE"
abbreviation "T_PUBLIC \<equiv> Tok_flow K_PUBLIC"
abbreviation "T_PRIVATE \<equiv> Tok_flow K_PRIVATE"
abbreviation "T_STATIC \<equiv> Tok_flow K_STATIC"
abbreviation "T_UNSAFE \<equiv> Tok_flow K_UNSAFE"
abbreviation "T_THIS \<equiv> Tok_flow K_THIS"
abbreviation "T_INT \<equiv> Tok_vtype K_INT"
abbreviation "T_UINT \<equiv> Tok_vtype K_UINT"
abbreviation "T_VOID \<equiv> Tok_vtype K_VOID"
abbreviation "T_FLOAT \<equiv> Tok_vtype K_FLOAT"
abbreviation "T_STRING \<equiv> Tok_vtype K_STRING"
abbreviation "T_AUTO \<equiv> Tok_vtype K_AUTO"
abbreviation "T_FALSE \<equiv> Tok_vtype K_FALSE"
abbreviation "T_TRUE \<equiv> Tok_vtype K_TRUE"
abbreviation "T_IDENTIFIER \<equiv> Tok_lit K_IDENTIFIER"
abbreviation "T_STRING_LITERAL \<equiv> Tok_lit K_STRING_LITERAL"
abbreviation "T_INTEGER_LITERAL \<equiv> Tok_lit K_INTEGER_LITERAL"
abbreviation "T_FLOAT_LITERAL \<equiv> Tok_lit K_FLOAT_LITERAL"
abbreviation "T_LPAREN \<equiv> Tok_delim K_LPAREN"
abbreviation "T_RPAREN \<equiv> Tok_delim K_RPAREN"
abbreviation "T_LBRACE \<equiv> Tok_delim K_LBRACE"
abbreviation "T_RBRACE \<equiv> Tok_delim K_RBRACE"
abbreviation "T_LBRACKET \<equiv> Tok_delim K_LBRACKET"
abbreviation "T_RBRACKET \<equiv> Tok_delim K_RBRACKET"
abbreviation "T_SEMICOLON \<equiv> Tok_delim K_SEMICOLON"
abbreviation "T_COMMA \<equiv> Tok_delim K_COMMA"
abbreviation "T_PLUS \<equiv> Tok_oper K_PLUS"
abbreviation "T_MINUS \<equiv> Tok_oper K_MINUS"
abbreviation "T_PLUS_PLUS \<equiv> Tok_oper K_PLUS_PLUS"
abbreviation "T_MINUS_MINUS \<equiv> Tok_oper K_MINUS_MINUS"
abbreviation "T_STAR \<equiv> Tok_oper K_STAR"
abbreviation "T_SLASH \<equiv> Tok_oper K_SLASH"
abbreviation "T_PERCENT \<equiv> Tok_oper K_PERCENT"
abbreviation "T_EQUAL_EQUAL \<equiv> Tok_oper K_EQUAL_EQUAL"
abbreviation "T_BANG_EQUAL \<equiv> Tok_oper K_BANG_EQUAL"
abbreviation "T_LESS \<equiv> Tok_oper K_LESS"
abbreviation "T_LESS_EQUAL \<equiv> Tok_oper K_LESS_EQUAL"
abbreviation "T_GREATER \<equiv> Tok_oper K_GREATER"
abbreviation "T_GREATER_EQUAL \<equiv> Tok_oper K_GREATER_EQUAL"
abbreviation "T_BANG \<equiv> Tok_oper K_BANG"
abbreviation "T_AND_AND \<equiv> Tok_oper K_AND_AND"
abbreviation "T_OR_OR \<equiv> Tok_oper K_OR_OR"
abbreviation "T_AMPERSAND \<equiv> Tok_oper K_AMPERSAND"
abbreviation "T_PIPE \<equiv> Tok_oper K_PIPE"
abbreviation "T_CARET \<equiv> Tok_oper K_CARET"
abbreviation "T_TILDE \<equiv> Tok_oper K_TILDE"
abbreviation "T_LESS_LESS \<equiv> Tok_oper K_LESS_LESS"
abbreviation "T_GREATER_GREATER \<equiv> Tok_oper K_GREATER_GREATER"
abbreviation "T_EQUAL \<equiv> Tok_assign K_EQUAL"
abbreviation "T_ARROW \<equiv> Tok_assign K_ARROW"
abbreviation "T_THIN_ARROW \<equiv> Tok_assign K_THIN_ARROW"
abbreviation "T_PLUS_EQUAL \<equiv> Tok_assign K_PLUS_EQUAL"
abbreviation "T_MINUS_EQUAL \<equiv> Tok_assign K_MINUS_EQUAL"
abbreviation "T_STAR_EQUAL \<equiv> Tok_assign K_STAR_EQUAL"
abbreviation "T_SLASH_EQUAL \<equiv> Tok_assign K_SLASH_EQUAL"
abbreviation "T_PERCENT_EQUAL \<equiv> Tok_assign K_PERCENT_EQUAL"
abbreviation "T_AMPERSAND_EQUAL \<equiv> Tok_assign K_AMPERSAND_EQUAL"
abbreviation "T_PIPE_EQUAL \<equiv> Tok_assign K_PIPE_EQUAL"
abbreviation "T_CARET_EQUAL \<equiv> Tok_assign K_CARET_EQUAL"
abbreviation "T_LESS_LESS_EQUAL \<equiv> Tok_assign K_LESS_LESS_EQUAL"
abbreviation "T_GREATER_GREATER_EQUAL \<equiv> Tok_assign K_GREATER_GREATER_EQUAL"
abbreviation "T_COLON \<equiv> Tok_path K_COLON"
abbreviation "T_COLON_COLON \<equiv> Tok_path K_COLON_COLON"
abbreviation "T_DOT \<equiv> Tok_path K_DOT"
abbreviation "T_DOT_DOT \<equiv> Tok_path K_DOT_DOT"
abbreviation "T_DOT_DOT_EQUAL \<equiv> Tok_path K_DOT_DOT_EQUAL"
abbreviation "T_DOT_DOT_DOT \<equiv> Tok_path K_DOT_DOT_DOT"
abbreviation "T_AT \<equiv> Tok_path K_AT"
abbreviation "T_ENUM \<equiv> Tok_special K_ENUM"
abbreviation "T_NEW \<equiv> Tok_special K_NEW"
abbreviation "T_IMPL \<equiv> Tok_special K_IMPL"
abbreviation "T_WHERE \<equiv> Tok_special K_WHERE"
abbreviation "T_IN \<equiv> Tok_special K_IN"
abbreviation "T_ASYNC \<equiv> Tok_special K_ASYNC"
abbreviation "T_AWAIT \<equiv> Tok_special K_AWAIT"
abbreviation "T_YIELD \<equiv> Tok_special K_YIELD"
abbreviation "T_SPAWN \<equiv> Tok_special K_SPAWN"
abbreviation "T_OPERATOR \<equiv> Tok_special K_OPERATOR"
abbreviation "T_CONST_EXPR \<equiv> Tok_special K_CONST_EXPR"
abbreviation "T_CONST_EVAL \<equiv> Tok_special K_CONST_EVAL"
abbreviation "T_CONST \<equiv> Tok_special K_CONST"
abbreviation "T_MACRO \<equiv> Tok_special K_MACRO"
abbreviation "T_IS \<equiv> Tok_special K_IS"
abbreviation "T_NULL_KW \<equiv> Tok_nullerr K_NULL_KW"
abbreviation "T_QUESTION \<equiv> Tok_nullerr K_QUESTION"
abbreviation "T_QUESTION_DOT \<equiv> Tok_nullerr K_QUESTION_DOT"
abbreviation "T_QUESTION_QUESTION \<equiv> Tok_nullerr K_QUESTION_QUESTION"
abbreviation "T_QUESTION_QUESTION_EQUAL \<equiv> Tok_nullerr K_QUESTION_QUESTION_EQUAL"
abbreviation "T_BANG_DOT \<equiv> Tok_nullerr K_BANG_DOT"
abbreviation "T_THROW \<equiv> Tok_nullerr K_THROW"
abbreviation "T_THROWS \<equiv> Tok_nullerr K_THROWS"
abbreviation "T_TRY \<equiv> Tok_nullerr K_TRY"
abbreviation "T_REQUIRE \<equiv> Tok_nullerr K_REQUIRE"
abbreviation "T_ENSURE \<equiv> Tok_nullerr K_ENSURE"

text \<open>\<^verbatim>\<open>struct Position\<close> and \<^verbatim>\<open>struct Token\<close>; lines, columns and indices are \<^verbatim>\<open>uint32_t\<close>.\<close>

record position =
  p_fileId :: string
  p_line :: u32
  p_column :: u32
  p_index :: u32

record token =
  t_position :: position
  t_type :: token_type
  t_value :: string

text \<open>The static table \<^verbatim>\<open>keywords\<close>, in the order it is written.\<close>

definition keyword_table :: "(string \<times> token_type) list" where
  "keyword_table = [
     (''void'', T_VOID),
     (''return'', T_RETURN),
     (''auto'', T_AUTO),
     (''var'', T_AUTO),
     (''extern'', T_EXTERN),
     (''struct'', T_STRUCT),
     (''namespace'', T_NAMESPACE),
     (''import'', T_IMPORT),
     (''mut'', T_MUT),
     (''if'', T_IF),
     (''else'', T_ELSE),
     (''for'', T_FOR),
     (''while'', T_WHILE),
     (''do'', T_DO),
     (''switch'', T_SWITCH),
     (''case'', T_CASE),
     (''default'', T_DEFAULT),
     (''break'', T_BREAK),
     (''continue'', T_CONTINUE),
     (''interface'', T_INTERFACE),
     (''public'', T_PUBLIC),
     (''private'', T_PRIVATE),
     (''static'', T_STATIC),
     (''unsafe'', T_UNSAFE),
     (''this'', T_THIS),
     (''enum'', T_ENUM),
     (''union'', T_ENUM),
     (''new'', T_NEW),
     (''impl'', T_IMPL),
     (''where'', T_WHERE),
     (''async'', T_ASYNC),
     (''await'', T_AWAIT),
     (''yield'', T_YIELD),
     (''spawn'', T_SPAWN),
     (''in'', T_IN),
     (''true'', T_TRUE),
     (''false'', T_FALSE),
     (''operator'', T_OPERATOR),
     (''const'', T_CONST),
     (''constexpr'', T_CONST_EXPR),
     (''consteval'', T_CONST_EVAL),
     (''macro'', T_MACRO),
     (''is'', T_IS),
     (''null'', T_NULL_KW),
     (''throw'', T_THROW),
     (''throws'', T_THROWS),
     (''try'', T_TRY),
     (''require'', T_REQUIRE),
     (''ensure'', T_ENSURE)]"

lemma distinct_keyword_table: "distinct (map fst keyword_table)"
  by (simp add: keyword_table_def)

text \<open>Every keyword is spelled with letters only, so the scanner of identifiers reads it whole.\<close>

lemma keywords_alpha: "(w, t) \<in> set keyword_table \<Longrightarrow> w \<noteq> [] \<and> list_all isalpha w"
  by (auto simp: keyword_table_def char_class_defs)

end
