(* ===== verification/Lexer.thy ===== *)
theory Lexer
  imports Tokens
begin

text \<open>
  The scanner, \<^verbatim>\<open>lexer/Lexer.h\<close> and \<^verbatim>\<open>lexer/Lexer.cpp\<close>. The object's fields are the record
  \<open>lexer\<close>; every member function is a function of the record that returns the updated one.
  The loops of the source become recursive functions whose measure is the distance to the end
  of the source. The one exception the scanner throws (\<^verbatim>\<open>invalid exponent\<close>) is the left side
  of a sum. \<^verbatim>\<open>uint32_t\<close> counters are 32-bit words, so they wrap as in the code.
\<close>

section \<open>State and primitive moves\<close>

record lexer =
  source :: string
  fileId :: string
  pos :: nat
  line :: u32
  column :: u32

datatype lex_error = InvalidExponent

definition Lexer :: "string \<Rightarrow> string \<Rightarrow> lexer" where
  "Lexer src file = \<lparr>source = src, fileId = file, pos = 0, line = 1, column = 1\<rparr>"

definition peek :: "lexer \<Rightarrow> char" where
  "peek lx = (if pos lx \<ge> length (source lx) then nul else source lx ! pos lx)"

definition peekNext :: "lexer \<Rightarrow> char" where
  "peekNext lx = (if pos lx + 1 \<ge> length (source lx) then nul else source lx ! (pos lx + 1))"

definition advance :: "lexer \<Rightarrow> lexer" where
  "advance lx =
     (let c = peek lx; lx = lx\<lparr>pos := pos lx + 1\<rparr>
      in if c = CHR 0x0A then lx\<lparr>line := line lx + 1, column := 1\<rparr>
         else lx\<lparr>column := column lx + 1\<rparr>)"

definition advance_char :: "lexer \<Rightarrow> char \<times> lexer" where
  "advance_char lx = (peek lx, advance lx)"

text \<open>The test \<^verbatim>\<open>pos + k < source.size() && source[pos + k] == c\<close>.\<close>

definition looking_at :: "lexer \<Rightarrow> nat \<Rightarrow> char \<Rightarrow> bool" where
  "looking_at lx k c \<longleftrightarrow> pos lx + k < length (source lx) \<and> source lx ! (pos lx + k) = c"

lemma advance_simps [simp]:
  "pos (advance lx) = Suc (pos lx)"
  "source (advance lx) = source lx"
  "fileId (advance lx) = fileId lx"
  by (simp_all add: advance_def Let_def)

lemma peek_nul_at_end: "length (source lx) \<le> pos lx \<Longrightarrow> peek lx = nul"
  by (simp add: peek_def)

lemma peek_not_nul: "peek lx \<noteq> nul \<Longrightarrow> pos lx < length (source lx)"
  by (auto simp: peek_def split: if_splits)

section \<open>Loops that consume characters\<close>

text \<open>
  \<^verbatim>\<open>while (P(peek())) value += advance();\<close> The classes \<^verbatim>\<open>P\<close> the scanner uses never hold of the
  NUL that \<^verbatim>\<open>peek\<close> gives past the end, so testing the position as well changes nothing
  (lemma \<open>read_while_guard\<close>) and makes the loop total for every class.
\<close>

function read_while :: "(char \<Rightarrow> bool) \<Rightarrow> lexer \<Rightarrow> string \<Rightarrow> lexer \<times> string" where
  "read_while P lx value =
     (if pos lx < length (source lx) \<and> P (peek lx)
      then read_while P (advance lx) (value @ [peek lx])
      else (lx, value))"
  by pat_completeness auto
termination
  by (relation "measure (\<lambda>(P, lx, value). length (source lx) - pos lx)") auto

declare read_while.simps [simp del]

lemma read_while_guard:
  "\<not> P nul \<Longrightarrow> (pos lx < length (source lx) \<and> P (peek lx)) = P (peek lx)"
  using peek_not_nul by (metis)

text \<open>\<^verbatim>\<open>skip_whitespace\<close>: blanks and \<^verbatim>\<open>//\<close> comments, which end at a newline or at a NUL.\<close>

definition is_space :: "char \<Rightarrow> bool" where
  "is_space c \<longleftrightarrow> c = CHR '' '' \<or> c = CHR 0x09 \<or> c = CHR 0x0A \<or> c = CHR 0x0D"

definition in_comment :: "char \<Rightarrow> bool" where
  "in_comment c \<longleftrightarrow> c \<noteq> CHR 0x0A \<and> c \<noteq> nul"

lemma read_while_pos: "pos lx \<le> pos (fst (read_while P lx v))"
proof (induction P lx v rule: read_while.induct)
  case (1 P lx v)
  then show ?case by (subst read_while.simps) auto
qed

lemma read_while_source [simp]: "source (fst (read_while P lx v)) = source lx"
proof (induction P lx v rule: read_while.induct)
  case (1 P lx v)
  then show ?case by (subst read_while.simps) auto
qed

lemma read_while_fileId [simp]: "fileId (fst (read_while P lx v)) = fileId lx"
proof (induction P lx v rule: read_while.induct)
  case (1 P lx v)
  then show ?case by (subst read_while.simps) auto
qed

lemma read_while_progress:
  "pos lx < length (source lx) \<Longrightarrow> P (peek lx) \<Longrightarrow> pos lx < pos (fst (read_while P lx v))"
  using read_while_pos [of "advance lx" P "v @ [peek lx]"]
  by (subst read_while.simps) auto

function skip_whitespace :: "lexer \<Rightarrow> lexer" where
  "skip_whitespace lx =
     (if pos lx < length (source lx) then
        (if is_space (peek lx) then skip_whitespace (advance lx)
         else if peek lx = CHR ''/'' \<and> looking_at lx 1 (CHR ''/'')
         then skip_whitespace (fst (read_while in_comment lx []))
         else lx)
      else lx)"
  by pat_completeness auto
termination
proof (relation "measure (\<lambda>lx. length (source lx) - pos lx)", goal_cases)
  case (3 lx)
  have "in_comment (peek lx)" using 3 by (simp add: in_comment_def nul_def)
  then have "pos lx < pos (fst (read_while in_comment lx []))"
    using 3 by (simp add: read_while_progress)
  then show ?case using 3 by simp
qed auto

declare skip_whitespace.simps [simp del]

section \<open>Tokens with text: strings, numbers, identifiers\<close>

text \<open>
  The two overloads of \<^verbatim>\<open>make_token\<close>: the first stamps the current position, the second a
  saved one, and puts the length of the text into the index.
\<close>

definition make_token :: "lexer \<Rightarrow> token_type \<Rightarrow> string \<Rightarrow> token" where
  "make_token lx ty value =
     \<lparr>t_position = \<lparr>p_fileId = fileId lx, p_line = line lx, p_column = column lx,
                    p_index = of_nat (pos lx)\<rparr>,
      t_type = ty, t_value = value\<rparr>"

definition make_token_at :: "lexer \<Rightarrow> token_type \<Rightarrow> string \<Rightarrow> u32 \<Rightarrow> u32 \<Rightarrow> token" where
  "make_token_at lx ty value startLine startColumn =
     \<lparr>t_position = \<lparr>p_fileId = fileId lx, p_line = startLine, p_column = startColumn,
                    p_index = of_nat (length value)\<rparr>,
      t_type = ty, t_value = value\<rparr>"

definition dquote :: char where
  "dquote = CHR 0x22"

definition backslash :: char where
  "backslash = CHR 0x5C"

text \<open>The body of a block string: up to three double quotes in a row, or the end of the source.\<close>

function read_block :: "lexer \<Rightarrow> string \<Rightarrow> lexer \<times> string" where
  "read_block lx value =
     (if pos lx < length (source lx) then
        (if peek lx = dquote \<and> looking_at lx 1 dquote \<and> looking_at lx 2 dquote
         then (advance (advance (advance lx)), value)
         else read_block (advance lx) (value @ [peek lx]))
      else (lx, value))"
  by pat_completeness auto
termination
  by (relation "measure (\<lambda>(lx, value). length (source lx) - pos lx)") auto

declare read_block.simps [simp del]

text \<open>The switch over the character after a backslash.\<close>

definition unescape :: "char \<Rightarrow> char" where
  "unescape c =
     (if c = CHR ''n'' then CHR 0x0A
      else if c = CHR ''t'' then CHR 0x09
      else if c = backslash then backslash
      else if c = dquote then dquote
      else c)"

text \<open>
  The loop over an ordinary string. A backslash at the very end of the source consumes one
  position past it and appends the NUL \<^verbatim>\<open>peek\<close> gives there, as in the code.
\<close>

function read_chars :: "lexer \<Rightarrow> string \<Rightarrow> lexer \<times> string" where
  "read_chars lx value =
     (if peek lx \<noteq> dquote \<and> peek lx \<noteq> nul then
        (if peek lx = backslash
         then let (escaped, lx') = advance_char (advance lx)
              in read_chars lx' (value @ [unescape escaped])
         else read_chars (advance lx) (value @ [peek lx]))
      else (lx, value))"
  by pat_completeness auto
termination
proof (relation "measure (\<lambda>(lx, value). length (source lx) - pos lx)", goal_cases)
  case (2 lx v x escaped lx')
  then show ?case using peek_not_nul [of lx] by (auto simp: advance_char_def)
next
  case (3 lx v)
  then show ?case using peek_not_nul [of lx] by auto
qed auto

declare read_chars.simps [simp del]

definition read_string :: "lexer \<Rightarrow> token \<times> lexer" where
  "read_string lx =
     (let startLine = line lx; startColumn = column lx in
      if looking_at lx 1 dquote \<and> looking_at lx 2 dquote then
        (let (lx', value) = read_block (advance (advance (advance lx))) []
         in (make_token_at lx' T_STRING_LITERAL value startLine startColumn, lx'))
      else
        (let (lx', value) = read_chars (advance lx) [];
             lx'' = (if peek lx' = dquote then advance lx' else lx')
         in (make_token_at lx'' T_STRING_LITERAL value startLine startColumn, lx'')))"

text \<open>The slices of a number.\<close>

definition num_sep :: "char \<Rightarrow> bool" where
  "num_sep c \<longleftrightarrow> c = CHR ''_'' \<or> c = CHR 0x27"

definition hex_slice :: "char \<Rightarrow> bool" where
  "hex_slice c \<longleftrightarrow> isxdigit c \<or> num_sep c"

definition bin_slice :: "char \<Rightarrow> bool" where
  "bin_slice c \<longleftrightarrow> c = CHR ''0'' \<or> c = CHR ''1'' \<or> num_sep c"

definition dec_slice :: "char \<Rightarrow> bool" where
  "dec_slice c \<longleftrightarrow> isdigit c \<or> num_sep c"

definition is_suffix :: "bool \<Rightarrow> char \<Rightarrow> bool" where
  "is_suffix allowCHexDigit c \<longleftrightarrow>
     c = CHR ''u'' \<or> c = CHR ''i'' \<or> c = CHR ''w'' \<or> c = CHR ''t'' \<or> c = CHR ''s''
     \<or> (allowCHexDigit \<and> c = CHR ''c'')"

definition readSuffix :: "bool \<Rightarrow> lexer \<Rightarrow> string \<Rightarrow> lexer \<times> string" where
  "readSuffix allowCHexDigit lx value =
     (if is_suffix allowCHexDigit (peek lx) then (advance lx, value @ [peek lx]) else (lx, value))"

text \<open>The fraction and the exponent of a decimal literal.\<close>

definition read_fraction :: "lexer \<Rightarrow> string \<Rightarrow> bool \<times> lexer \<times> string" where
  "read_fraction lx value =
     (if peek lx = CHR ''.'' \<and> isdigit (peekNext lx)
      then (True, read_while dec_slice (advance lx) (value @ [peek lx]))
      else (False, lx, value))"

definition is_exp_mark :: "char \<Rightarrow> bool" where
  "is_exp_mark c \<longleftrightarrow> c = CHR ''e'' \<or> c = CHR ''E''"

definition is_sign :: "char \<Rightarrow> bool" where
  "is_sign c \<longleftrightarrow> c = CHR ''+'' \<or> c = CHR ''-''"

definition read_exponent :: "bool \<Rightarrow> lexer \<Rightarrow> string \<Rightarrow> lex_error + bool \<times> lexer \<times> string" where
  "read_exponent isFloat lx value =
     (if is_exp_mark (peek lx) then
        (let (lx1, value1) = (advance lx, value @ [peek lx]);
             (lx2, value2) = (if is_sign (peek lx1)
                              then (advance lx1, value1 @ [peek lx1]) else (lx1, value1))
         in if \<not> isdigit (peek lx2) then Inl InvalidExponent
            else Inr (True, read_while isdigit lx2 value2))
      else Inr (isFloat, lx, value))"

definition read_decimal :: "lexer \<Rightarrow> u32 \<Rightarrow> u32 \<Rightarrow> lex_error + token \<times> lexer" where
  "read_decimal lx startLine startColumn =
     (let (lx1, value1) = read_while dec_slice lx [];
          (isFloat, lx2, value2) = read_fraction lx1 value1
      in case read_exponent isFloat lx2 value2 of
           Inl e \<Rightarrow> Inl e
         | Inr (isFloat', lx3, value3) \<Rightarrow>
             if isFloat'
             then Inr (make_token_at lx3 T_FLOAT_LITERAL value3 startLine startColumn, lx3)
             else let (lx4, value4) = readSuffix True lx3 value3
                  in Inr (make_token_at lx4 T_INTEGER_LITERAL value4 startLine startColumn, lx4))"

definition read_prefixed ::
    "(char \<Rightarrow> bool) \<Rightarrow> bool \<Rightarrow> lexer \<Rightarrow> u32 \<Rightarrow> u32 \<Rightarrow> token \<times> lexer" where
  "read_prefixed digits allowC lx startLine startColumn =
     (let value = [peek lx, peek (advance lx)];
          (lx1, value1) = read_while digits (advance (advance lx)) value;
          (lx2, value2) = readSuffix allowC lx1 value1
      in (make_token_at lx2 T_INTEGER_LITERAL value2 startLine startColumn, lx2))"

definition read_number :: "lexer \<Rightarrow> lex_error + token \<times> lexer" where
  "read_number lx =
     (let startLine = line lx; startColumn = column lx in
      if peek lx = CHR ''0'' \<and> (peekNext lx = CHR ''x'' \<or> peekNext lx = CHR ''X'')
      then Inr (read_prefixed hex_slice False lx startLine startColumn)
      else if peek lx = CHR ''0'' \<and> (peekNext lx = CHR ''b'' \<or> peekNext lx = CHR ''B'')
      then Inr (read_prefixed bin_slice True lx startLine startColumn)
      else read_decimal lx startLine startColumn)"

definition ident_char :: "char \<Rightarrow> bool" where
  "ident_char c \<longleftrightarrow> isalnum c \<or> c = CHR ''_''"

definition classify_word :: "string \<Rightarrow> token_type" where
  "classify_word w = (case map_of keyword_table w of Some ty \<Rightarrow> ty | None \<Rightarrow> T_IDENTIFIER)"

definition read_identifier :: "lexer \<Rightarrow> token \<times> lexer" where
  "read_identifier lx =
     (let startLine = line lx; startColumn = column lx;
          (lx1, value) = read_while ident_char lx []
      in (make_token_at lx1 (classify_word value) value startLine startColumn, lx1))"

section \<open>Operators and delimiters\<close>

text \<open>
  Each \<^verbatim>\<open>case\<close> of the switch in \<^verbatim>\<open>tokenize\<close> pushes a token stamped with the position at the
  time of the push and advances over its characters. \<^verbatim>\<open>emit1\<close>, \<^verbatim>\<open>emit2\<close> and \<^verbatim>\<open>emit3\<close> are the
  common shape (push, then one, two or three \<^verbatim>\<open>advance()\<close>).
\<close>

definition emit1 :: "lexer \<Rightarrow> token_type \<Rightarrow> string \<Rightarrow> token \<times> lexer" where
  "emit1 lx ty s = (make_token lx ty s, advance lx)"

definition emit2 :: "lexer \<Rightarrow> token_type \<Rightarrow> string \<Rightarrow> token \<times> lexer" where
  "emit2 lx ty s = (make_token lx ty s, advance (advance lx))"

definition emit3 :: "lexer \<Rightarrow> token_type \<Rightarrow> string \<Rightarrow> token \<times> lexer" where
  "emit3 lx ty s = (make_token lx ty s, advance (advance (advance lx)))"

definition lex_colon :: "lexer \<Rightarrow> token \<times> lexer" where
  "lex_colon lx =
     (if peekNext lx = CHR '':'' then emit2 lx T_COLON_COLON ''::'' else emit1 lx T_COLON '':'')"

definition lex_dot :: "lexer \<Rightarrow> token \<times> lexer" where
  "lex_dot lx =
     (if looking_at lx 1 (CHR ''.'') \<and> looking_at lx 2 (CHR ''.'')
      then emit3 lx T_DOT_DOT_DOT ''...''
      else if looking_at lx 1 (CHR ''.'') \<and> looking_at lx 2 (CHR ''='')
      then emit3 lx T_DOT_DOT_EQUAL ''..=''
      else if peekNext lx = CHR ''.'' then emit2 lx T_DOT_DOT ''..''
      else emit1 lx T_DOT ''.'')"

definition lex_plus :: "lexer \<Rightarrow> token \<times> lexer" where
  "lex_plus lx =
     (if peekNext lx = CHR ''='' then emit2 lx T_PLUS_EQUAL ''+=''
      else if peekNext lx = CHR ''+'' then emit2 lx T_PLUS_PLUS ''++''
      else emit1 lx T_PLUS ''+'')"

definition lex_minus :: "lexer \<Rightarrow> token \<times> lexer" where
  "lex_minus lx =
     (if peekNext lx = CHR ''>'' then emit2 lx T_THIN_ARROW ''->''
      else if peekNext lx = CHR ''='' then emit2 lx T_MINUS_EQUAL ''-=''
      else if peekNext lx = CHR ''-'' then emit2 lx T_MINUS_MINUS ''--''
      else emit1 lx T_MINUS ''-'')"

definition lex_star :: "lexer \<Rightarrow> token \<times> lexer" where
  "lex_star lx =
     (if peekNext lx = CHR ''='' then emit2 lx T_STAR_EQUAL ''*='' else emit1 lx T_STAR ''*'')"

definition lex_slash :: "lexer \<Rightarrow> token \<times> lexer" where
  "lex_slash lx =
     (if peekNext lx = CHR ''='' then emit2 lx T_SLASH_EQUAL ''/='' else emit1 lx T_SLASH ''/'')"

definition lex_percent :: "lexer \<Rightarrow> token \<times> lexer" where
  "lex_percent lx =
     (if peekNext lx = CHR ''='' then emit2 lx T_PERCENT_EQUAL ''%=''
      else emit1 lx T_PERCENT ''%'')"

definition lex_equal :: "lexer \<Rightarrow> token \<times> lexer" where
  "lex_equal lx =
     (if peekNext lx = CHR ''='' then emit2 lx T_EQUAL_EQUAL ''==''
      else if peekNext lx = CHR ''>'' then emit2 lx T_ARROW ''=>''
      else emit1 lx T_EQUAL ''='')"

definition lex_bang :: "lexer \<Rightarrow> token \<times> lexer" where
  "lex_bang lx =
     (if peekNext lx = CHR ''='' then emit2 lx T_BANG_EQUAL ''!=''
      else if peekNext lx = CHR ''.'' then emit2 lx T_BANG_DOT ''!.''
      else emit1 lx T_BANG ''!'')"

text \<open>
  \<^verbatim>\<open>??\<close>, \<^verbatim>\<open><<\<close> and \<^verbatim>\<open>>>\<close> advance over two characters before they push, so that they can look
  for a third one; their tokens carry the position after the two.
\<close>

definition lex_question :: "lexer \<Rightarrow> token \<times> lexer" where
  "lex_question lx =
     (if peekNext lx = CHR ''?'' then
        (let lx2 = advance (advance lx)
         in if peek lx2 = CHR ''='' then emit1 lx2 T_QUESTION_QUESTION_EQUAL ''??=''
            else (make_token lx2 T_QUESTION_QUESTION ''??'', lx2))
      else if peekNext lx = CHR ''.'' then emit2 lx T_QUESTION_DOT ''?.''
      else emit1 lx T_QUESTION ''?'')"

definition lex_less :: "lexer \<Rightarrow> token \<times> lexer" where
  "lex_less lx =
     (if peekNext lx = CHR ''='' then emit2 lx T_LESS_EQUAL ''<=''
      else if peekNext lx = CHR ''<'' then
        (let lx2 = advance (advance lx)
         in if peek lx2 = CHR ''='' then emit1 lx2 T_LESS_LESS_EQUAL ''<<=''
            else (make_token lx2 T_LESS_LESS ''<<'', lx2))
      else emit1 lx T_LESS ''<'')"

definition lex_greater :: "lexer \<Rightarrow> token \<times> lexer" where
  "lex_greater lx =
     (if peekNext lx = CHR ''='' then emit2 lx T_GREATER_EQUAL ''>=''
      else if peekNext lx = CHR ''>'' then
        (let lx2 = advance (advance lx)
         in if peek lx2 = CHR ''='' then emit1 lx2 T_GREATER_GREATER_EQUAL ''>>=''
            else (make_token lx2 T_GREATER_GREATER ''>>'', lx2))
      else emit1 lx T_GREATER ''>'')"

definition lex_amp :: "lexer \<Rightarrow> token \<times> lexer" where
  "lex_amp lx =
     (if peekNext lx = CHR ''&'' then emit2 lx T_AND_AND ''&&''
      else if peekNext lx = CHR ''='' then emit2 lx T_AMPERSAND_EQUAL ''&=''
      else emit1 lx T_AMPERSAND ''&'')"

definition lex_pipe :: "lexer \<Rightarrow> token \<times> lexer" where
  "lex_pipe lx =
     (if peekNext lx = CHR ''|'' then emit2 lx T_OR_OR ''||''
      else if peekNext lx = CHR ''='' then emit2 lx T_PIPE_EQUAL ''|=''
      else emit1 lx T_PIPE ''|'')"

definition lex_caret :: "lexer \<Rightarrow> token \<times> lexer" where
  "lex_caret lx =
     (if peekNext lx = CHR ''='' then emit2 lx T_CARET_EQUAL ''^='' else emit1 lx T_CARET ''^'')"

text \<open>The switch itself.\<close>

definition lex_symbol :: "lexer \<Rightarrow> token \<times> lexer" where
  "lex_symbol lx =
     (let c = peek lx in
      if c = CHR ''('' then emit1 lx T_LPAREN ''(''
      else if c = CHR '')'' then emit1 lx T_RPAREN '')''
      else if c = CHR ''{'' then emit1 lx T_LBRACE ''{''
      else if c = CHR ''}'' then emit1 lx T_RBRACE ''}''
      else if c = CHR ''['' then emit1 lx T_LBRACKET ''[''
      else if c = CHR '']'' then emit1 lx T_RBRACKET '']''
      else if c = CHR '';'' then emit1 lx T_SEMICOLON '';''
      else if c = CHR '','' then emit1 lx T_COMMA '',''
      else if c = CHR '':'' then lex_colon lx
      else if c = CHR ''.'' then lex_dot lx
      else if c = CHR ''+'' then lex_plus lx
      else if c = CHR ''-'' then lex_minus lx
      else if c = CHR ''*'' then lex_star lx
      else if c = CHR ''/'' then lex_slash lx
      else if c = CHR ''@'' then emit1 lx T_AT ''@''
      else if c = CHR ''%'' then lex_percent lx
      else if c = CHR ''='' then lex_equal lx
      else if c = CHR ''!'' then lex_bang lx
      else if c = CHR ''?'' then lex_question lx
      else if c = CHR ''<'' then lex_less lx
      else if c = CHR ''>'' then lex_greater lx
      else if c = CHR ''&'' then lex_amp lx
      else if c = CHR ''|'' then lex_pipe lx
      else if c = CHR ''^'' then lex_caret lx
      else if c = CHR ''~'' then emit1 lx T_TILDE ''~''
      else emit1 lx T_UNKNOWN [c])"

section \<open>The main loop\<close>

text \<open>One token, at a position that is not blank: the if-chain inside \<^verbatim>\<open>tokenize\<close>.\<close>

definition next_token :: "lexer \<Rightarrow> lex_error + token \<times> lexer" where
  "next_token lx =
     (let c = peek lx in
      if c = dquote then Inr (read_string lx)
      else if isdigit c then read_number lx
      else if isalpha c \<or> c = CHR ''_'' then Inr (read_identifier lx)
      else Inr (lex_symbol lx))"

lemmas lex_symbol_defs = lex_symbol_def lex_colon_def lex_dot_def lex_plus_def lex_minus_def
  lex_star_def lex_slash_def lex_percent_def lex_equal_def lex_bang_def lex_question_def
  lex_less_def lex_greater_def lex_amp_def lex_pipe_def lex_caret_def
  emit1_def emit2_def emit3_def


section \<open>Every operation is a number of advances\<close>

text \<open>
  The frame condition of the whole component: the only thing any of its operations does to the
  state is \<^verbatim>\<open>advance()\<close>, some number of times.
\<close>

definition moves :: "lexer \<Rightarrow> lexer \<Rightarrow> bool" where
  "moves lx lx' \<longleftrightarrow> (\<exists>n. lx' = (advance ^^ n) lx)"

lemma moves_refl [simp, intro]: "moves lx lx"
  unfolding moves_def by (rule exI [of _ 0]) simp

lemma moves_trans: "moves lx lx' \<Longrightarrow> moves lx' lx'' \<Longrightarrow> moves lx lx''"
  unfolding moves_def by (metis add.commute comp_apply funpow_add)

lemma moves_advance1: "moves lx (advance lx)"
  unfolding moves_def by (rule exI [of _ 1]) simp

lemma moves_advance: "moves lx lx' \<Longrightarrow> moves lx (advance lx')"
  by (rule moves_trans [OF _ moves_advance1])

lemma moves_from_advance: "moves (advance lx) lx' \<Longrightarrow> moves lx lx'"
  by (rule moves_trans [OF moves_advance1])

lemma advance_pow [simp]:
  "pos ((advance ^^ n) lx) = pos lx + n"
  "source ((advance ^^ n) lx) = source lx"
  "fileId ((advance ^^ n) lx) = fileId lx"
  by (induction n) simp_all

lemma moves_frame:
  assumes "moves lx lx'"
  shows "source lx' = source lx" and "fileId lx' = fileId lx" and "pos lx \<le> pos lx'"
  using assms by (auto simp: moves_def)

lemma moves_read_while: "moves lx (fst (read_while P lx v))"
proof (induction P lx v rule: read_while.induct)
  case (1 P lx v)
  then show ?case by (subst read_while.simps) (auto intro: moves_from_advance)
qed

lemma moves_read_while_eq: "read_while P lx v = (lx', v') \<Longrightarrow> moves lx lx'"
  using moves_read_while [of lx P v] by simp

lemma moves_skip_whitespace: "moves lx (skip_whitespace lx)"
proof (induction lx rule: skip_whitespace.induct)
  case (1 lx)
  then show ?case
    by (subst skip_whitespace.simps)
      (auto intro: moves_from_advance moves_trans [OF moves_read_while])
qed

lemma moves_read_block: "moves lx (fst (read_block lx v))"
proof (induction lx v rule: read_block.induct)
  case (1 lx v)
  then show ?case
    by (subst read_block.simps) (auto intro: moves_from_advance moves_advance moves_advance1)
qed

lemma moves_read_chars: "moves lx (fst (read_chars lx v))"
proof (induction lx v rule: read_chars.induct)
  case (1 lx v)
  have "moves lx (fst (read_chars lx v))" if "peek lx = backslash"
    using 1(1) [OF _ that, of "advance_char (advance lx)"] that
    by (subst read_chars.simps)
      (auto simp: advance_char_def intro: moves_from_advance [OF moves_from_advance])
  moreover have "moves lx (fst (read_chars lx v))" if "peek lx \<noteq> backslash"
    using 1(2) that by (subst read_chars.simps) (auto intro: moves_from_advance)
  ultimately show ?case by blast
qed

lemma moves_read_string:
  "read_string lx = (t, lx') \<Longrightarrow> moves (advance lx) lx'"
  using moves_read_block [of "advance (advance (advance lx))" "[]"]
    moves_read_chars [of "advance lx" "[]"]
  by (auto simp: read_string_def Let_def split: prod.splits if_splits
      intro: moves_from_advance moves_advance)

lemma moves_readSuffix: "readSuffix b lx v = (lx', v') \<Longrightarrow> moves lx lx'"
  by (auto simp: readSuffix_def intro: moves_advance1 split: if_splits)

lemma moves_read_fraction: "read_fraction lx v = (b, lx', v') \<Longrightarrow> moves lx lx'"
  by (auto simp: read_fraction_def split: if_splits
      intro: moves_from_advance moves_read_while_eq)

lemma moves_read_exponent: "read_exponent b lx v = Inr (b', lx', v') \<Longrightarrow> moves lx lx'"
  by (auto simp: read_exponent_def Let_def split: if_splits
      intro: moves_from_advance moves_read_while_eq)

lemma moves_read_prefixed: "read_prefixed P b lx l c = (t, lx') \<Longrightarrow> moves (advance lx) lx'"
  by (auto simp: read_prefixed_def Let_def split: prod.splits
      intro: moves_trans [OF moves_from_advance [OF moves_read_while_eq] moves_readSuffix])

lemma read_while_first:
  assumes "pos lx < length (source lx)" "P (peek lx)" "read_while P lx v = (lx', v')"
  shows "moves (advance lx) lx'"
  using assms by (subst (asm) read_while.simps) (auto intro: moves_read_while_eq)

lemma moves_read_decimal:
  assumes "isdigit (peek lx)" "read_decimal lx l c = Inr (t, lx')"
  shows "moves (advance lx) lx'"
proof -
  obtain lx1 v1 where 1: "read_while dec_slice lx [] = (lx1, v1)" by fastforce
  obtain b lx2 v2 where 2: "read_fraction lx1 v1 = (b, lx2, v2)" by (rule prod_cases3)
  have "peek lx \<noteq> nul" using assms(1) by auto
  then have "moves (advance lx) lx1"
    using read_while_first [OF peek_not_nul _ 1] assms(1) by (simp add: dec_slice_def)
  moreover have "moves lx1 lx2" by (rule moves_read_fraction [OF 2])
  moreover have "moves lx2 lx'"
    using assms(2) 1 2
    by (auto simp: read_decimal_def Let_def split: sum.splits prod.splits if_splits
        intro: moves_read_exponent moves_trans [OF moves_read_exponent moves_readSuffix])
  ultimately show ?thesis by (blast intro: moves_trans)
qed

lemma moves_read_number:
  assumes "isdigit (peek lx)" "read_number lx = Inr (t, lx')"
  shows "moves (advance lx) lx'"
  using assms
  by (auto simp: read_number_def Let_def split: if_splits
      intro: moves_read_prefixed moves_read_decimal)

lemma moves_read_identifier:
  assumes "ident_char (peek lx)" "read_identifier lx = (t, lx')"
  shows "moves (advance lx) lx'"
proof -
  have "peek lx \<noteq> nul" using assms(1) by (auto simp: ident_char_def nul_def char_class_defs)
  then show ?thesis
    using assms read_while_first [OF peek_not_nul, of lx ident_char "[]"]
    by (auto simp: read_identifier_def Let_def split: prod.splits)
qed

lemma moves_lex_symbol: "lex_symbol lx = (t, lx') \<Longrightarrow> moves (advance lx) lx'"
proof -
  have a: "moves (advance lx) (advance lx)" "moves (advance lx) (advance (advance lx))"
    "moves (advance lx) (advance (advance (advance lx)))"
    by (auto intro: moves_advance)
  assume "lex_symbol lx = (t, lx')"
  then have "lx' \<in> {advance lx, advance (advance lx), advance (advance (advance lx))}"
    unfolding lex_symbol_defs Let_def by (auto split: if_split_asm)
  then show ?thesis using a by auto
qed

lemma moves_next_token:
  "next_token lx = Inr (t, lx') \<Longrightarrow> moves (advance lx) lx'"
  by (auto simp: next_token_def Let_def ident_char_def isalnum_def split: if_splits
      intro: moves_read_string moves_read_number moves_read_identifier moves_lex_symbol)

lemma next_token_progress: "next_token lx = Inr (t, lx') \<Longrightarrow> pos lx < pos lx'"
  using moves_frame(3) [OF moves_next_token] by fastforce

lemma next_token_source: "next_token lx = Inr (t, lx') \<Longrightarrow> source lx' = source lx"
  using moves_frame(1) [OF moves_next_token] by fastforce

section \<open>tokenize\<close>

function tokenize_loop :: "lexer \<Rightarrow> token list \<Rightarrow> lex_error + token list \<times> lexer" where
  "tokenize_loop lx tokens =
     (if pos lx < length (source lx) then
        (let lx1 = skip_whitespace lx in
         if length (source lx1) \<le> pos lx1 then Inr (tokens, lx1)
         else (case next_token lx1 of
                 Inl e \<Rightarrow> Inl e
               | Inr (tok, lx2) \<Rightarrow> tokenize_loop lx2 (tokens @ [tok])))
      else Inr (tokens, lx))"
  by pat_completeness auto
termination
proof (relation "measure (\<lambda>(lx, tokens). length (source lx) - pos lx)", goal_cases)
  case (2 lx tokens lx1 r tok lx2)
  have "pos lx \<le> pos lx1" "source lx1 = source lx"
    using moves_frame [OF moves_skip_whitespace] 2 by auto
  moreover have "pos lx1 < pos lx2" "source lx2 = source lx1"
    using 2 by (auto intro: next_token_progress next_token_source)
  ultimately show ?case using 2 by auto
qed auto

declare tokenize_loop.simps [simp del]

definition tokenize :: "lexer \<Rightarrow> lex_error + token list" where
  "tokenize lx =
     (case tokenize_loop lx [] of
        Inl e \<Rightarrow> Inl e
      | Inr (tokens, lx') \<Rightarrow> Inr (tokens @ [make_token lx' T_END_OF_FILE []]))"

end
