(* ===== verification/Lexer_Correct.thy ===== *)
theory Lexer_Correct
  imports Lexer
begin

text \<open>
  What the scanner guarantees: it always stops with an end-of-file token last, it fails only on
  an exponent without digits, every token carries the position where it was pushed, and
  scanning a text written from lexemes separated by blanks gives back exactly those lexemes.
\<close>

section \<open>The unread input\<close>

definition rest :: "lexer \<Rightarrow> string" where
  "rest lx = drop (pos lx) (source lx)"

lemma rest_pow: "rest ((advance ^^ n) lx) = drop n (rest lx)"
  by (simp add: rest_def add.commute)

lemma rest_advance [lex_simps]: "rest (advance lx) = tl (rest lx)"
  by (simp add: rest_def drop_Suc tl_drop)

lemma pos_less_rest: "pos lx < length (source lx) \<longleftrightarrow> rest lx \<noteq> []"
  by (auto simp: rest_def)

lemma peek_rest [lex_simps]: "peek lx = (case rest lx of [] \<Rightarrow> nul | c # _ \<Rightarrow> c)"
proof (cases "pos lx < length (source lx)")
  case True
  then show ?thesis by (simp add: peek_def rest_def Cons_nth_drop_Suc [symmetric])
next
  case False
  then show ?thesis by (simp add: peek_def rest_def)
qed

lemma peekNext_rest [lex_simps]:
  "peekNext lx = (case rest lx of [] \<Rightarrow> nul | [_] \<Rightarrow> nul | _ # d # _ \<Rightarrow> d)"
proof (cases "rest lx")
  case Nil
  then show ?thesis by (simp add: peekNext_def rest_def)
next
  case (Cons c cs)
  then have "cs = drop (Suc (pos lx)) (source lx)"
    by (metis drop_Suc list.sel(3) rest_def tl_drop)
  then show ?thesis
    using Cons nth_via_drop [of "Suc (pos lx)" "source lx"]
    by (cases cs) (auto simp: peekNext_def dest: sym)
qed

lemma looking_at_rest [lex_simps]:
  "looking_at lx k c \<longleftrightarrow> k < length (rest lx) \<and> rest lx ! k = c"
  by (auto simp: looking_at_def rest_def less_diff_conv add.commute)

text \<open>A loop over a class reads exactly the maximal prefix of the class.\<close>

lemma read_while_run:
  assumes "rest lx = xs @ ys" "list_all P xs" "ys = [] \<or> \<not> P (hd ys)"
  shows "read_while P lx v = ((advance ^^ length xs) lx, v @ xs)"
  using assms
proof (induction xs arbitrary: lx v)
  case Nil
  then have "\<not> (pos lx < length (source lx) \<and> P (peek lx))"
    by (cases ys) (auto simp: pos_less_rest peek_rest)
  then show ?case by (subst read_while.simps) (simp only: if_False, simp)
next
  case (Cons x xs)
  have "peek lx = x" "pos lx < length (source lx)" "P x"
    using Cons.prems by (simp_all add: pos_less_rest peek_rest)
  moreover have "read_while P (advance lx) (v @ [x]) =
      ((advance ^^ length xs) (advance lx), (v @ [x]) @ xs)"
    using Cons.prems by (intro Cons.IH) (simp_all add: rest_advance)
  ultimately show ?case by (subst read_while.simps) (simp add: funpow_swap1)
qed

section \<open>End of file, and no other token says so\<close>

lemma classify_word_cases: "classify_word w = T_IDENTIFIER \<or> classify_word w \<in> snd ` set keyword_table"
  by (force simp: classify_word_def split: option.splits dest: map_of_SomeD)

lemma classify_word_not_eof [simp]:
  "classify_word w \<noteq> T_END_OF_FILE" "classify_word w \<noteq> T_QUESTION_QUESTION"
  "classify_word w \<noteq> T_QUESTION_QUESTION_EQUAL" "classify_word w \<noteq> T_LESS_LESS"
  "classify_word w \<noteq> T_LESS_LESS_EQUAL" "classify_word w \<noteq> T_GREATER_GREATER"
  "classify_word w \<noteq> T_GREATER_GREATER_EQUAL"
  using classify_word_cases [of w] by (auto simp: keyword_table_def)

lemmas classify_word_not_eof' [simp] = classify_word_not_eof [THEN not_sym]

lemma lex_symbol_not_eof: "lex_symbol lx = (t, lx') \<Longrightarrow> t_type t \<noteq> T_END_OF_FILE"
  unfolding lex_symbol_defs Let_def by (auto simp: make_token_def split: if_split_asm)

lemma read_number_type:
  "read_number lx = Inr (t, lx') \<Longrightarrow> t_type t \<in> {T_INTEGER_LITERAL, T_FLOAT_LITERAL}"
  by (auto simp: read_number_def read_prefixed_def read_decimal_def make_token_at_def Let_def
      split: if_splits prod.splits sum.splits)

lemma read_string_type: "read_string lx = (t, lx') \<Longrightarrow> t_type t = T_STRING_LITERAL"
  by (auto simp: read_string_def make_token_at_def Let_def split: if_splits prod.splits)

lemma read_identifier_type:
  "read_identifier lx = (t, lx') \<Longrightarrow> t_type t = classify_word (t_value t)"
  by (auto simp: read_identifier_def make_token_at_def Let_def split: prod.splits)

lemma next_token_not_eof: "next_token lx = Inr (t, lx') \<Longrightarrow> t_type t \<noteq> T_END_OF_FILE"
  by (auto simp: next_token_def Let_def read_string_type read_identifier_type
      dest: lex_symbol_not_eof read_number_type split: if_splits)

section \<open>An invariant rule for the main loop\<close>

text \<open>
  The interface between the main loop and the token readers: they only advance, and a property
  of the tokens they make holds of every token the loop collects. The locale proves it once;
  the interpretations below supply the property.
\<close>

locale token_property =
  fixes start :: lexer and good :: "token \<Rightarrow> bool"
  assumes good_next: "moves start lx \<Longrightarrow> pos lx < length (source lx) \<Longrightarrow>
    next_token lx = Inr (t, lx') \<Longrightarrow> good t"
begin

lemma loop_good:
  "tokenize_loop lx tokens = Inr (ts, lx') \<Longrightarrow> moves start lx \<Longrightarrow> \<forall>t \<in> set tokens. good t
    \<Longrightarrow> (\<forall>t \<in> set ts. good t) \<and> moves start lx'"
proof (induction lx tokens rule: tokenize_loop.induct)
  case (1 lx tokens)
  let ?lx1 = "skip_whitespace lx"
  have m1: "moves start ?lx1" by (rule moves_trans [OF 1(3) moves_skip_whitespace])
  show ?case
  proof (cases "pos lx < length (source lx) \<and> pos ?lx1 < length (source ?lx1)")
    case False
    then show ?thesis using 1(2,3,4) m1
      by (subst (asm) tokenize_loop.simps) (auto simp: Let_def split: if_splits)
  next
    case True
    then obtain tok lx2 where nt: "next_token ?lx1 = Inr (tok, lx2)"
      and rec: "tokenize_loop lx2 (tokens @ [tok]) = Inr (ts, lx')"
      using 1(2) by (subst (asm) tokenize_loop.simps)
        (auto simp: Let_def split: sum.splits prod.splits)
    have m2: "moves start lx2"
      using m1 nt by (blast intro: moves_trans moves_from_advance moves_next_token)
    have g: "\<forall>t \<in> set (tokens @ [tok]). good t"
      using 1(4) good_next [OF m1 _ nt] True by simp
    have p: "pos lx < length (source lx)" "\<not> length (source ?lx1) \<le> pos ?lx1"
      using True by simp_all
    show ?thesis
      by (rule 1(1) [OF p(1) refl p(2) nt refl rec m2 g])
  qed
qed

lemma tokenize_good:
  assumes "tokenize start = Inr ts"
  shows "\<exists>us lx'. ts = us @ [make_token lx' T_END_OF_FILE []] \<and> (\<forall>t \<in> set us. good t)
    \<and> moves start lx'"
  using assms loop_good [of start "[]"]
  by (auto simp: tokenize_def split: sum.splits)

end


interpretation eof: token_property "Lexer src fid" "\<lambda>t. t_type t \<noteq> T_END_OF_FILE" for src fid
  by unfold_locales (rule next_token_not_eof)

text \<open>On every input on which the scanner does not fail, the result is a list of tokens none
  of which is an end-of-file token, followed by exactly one end-of-file token with empty text.\<close>

theorem tokenize_eof_last:
  assumes "tokenize (Lexer src fid) = Inr ts"
  shows "\<exists>us t. ts = us @ [t] \<and> t_type t = T_END_OF_FILE \<and> t_value t = []
    \<and> (\<forall>u \<in> set us. t_type u \<noteq> T_END_OF_FILE)"
  using eof.tokenize_good [OF assms] by (auto simp: make_token_def)

section \<open>The only failure\<close>

definition starts_exponent :: "string \<Rightarrow> bool" where
  "starts_exponent cs =
     (case cs of [] \<Rightarrow> False
      | c # ds \<Rightarrow> if is_sign c then (case ds of [] \<Rightarrow> False | d # _ \<Rightarrow> isdigit d) else isdigit c)"

lemma read_exponent_fails:
  assumes "read_exponent b lx v = Inl e"
  shows "\<exists>c cs. rest lx = c # cs \<and> is_exp_mark c \<and> \<not> starts_exponent cs"
proof (cases "rest lx")
  case Nil
  then show ?thesis using assms by (auto simp: read_exponent_def peek_rest is_exp_mark_def nul_def)
next
  case (Cons c cs)
  then show ?thesis using assms
    by (cases cs) (auto simp: read_exponent_def peek_rest rest_advance starts_exponent_def
        Let_def is_sign_def nul_def split: if_splits list.splits)
qed

lemma next_token_fails:
  assumes "next_token lx = Inl e"
  shows "\<exists>lx'. moves lx lx' \<and> (\<exists>c cs. rest lx' = c # cs \<and> is_exp_mark c \<and> \<not> starts_exponent cs)"
proof -
  have "read_decimal lx (line lx) (column lx) = Inl e"
    using assms by (auto simp: next_token_def read_number_def Let_def split: if_splits)
  then obtain lx1 v1 b lx2 v2 where "read_while dec_slice lx [] = (lx1, v1)"
    and "read_fraction lx1 v1 = (b, lx2, v2)" and "read_exponent b lx2 v2 = Inl e"
    by (auto simp: read_decimal_def Let_def split: prod.splits sum.splits if_splits)
  then show ?thesis
    by (meson moves_read_while_eq moves_read_fraction moves_trans read_exponent_fails)
qed

lemma loop_fails:
  "tokenize_loop lx tokens = Inl e \<Longrightarrow> \<exists>lx'. moves lx lx' \<and> next_token lx' = Inl e"
proof (induction lx tokens rule: tokenize_loop.induct)
  case (1 lx tokens)
  let ?lx1 = "skip_whitespace lx"
  have p: "pos lx < length (source lx)" "\<not> length (source ?lx1) \<le> pos ?lx1"
    using 1(2) by (subst (asm) tokenize_loop.simps, simp add: Let_def split: if_splits)+
  show ?case
  proof (cases "next_token ?lx1")
    case (Inl e')
    then have "e' = e" using 1(2) p by (subst (asm) tokenize_loop.simps) (simp add: Let_def)
    then show ?thesis using Inl moves_skip_whitespace by blast
  next
    case (Inr r)
    then obtain tok lx2 where nt: "next_token ?lx1 = Inr (tok, lx2)" by (cases r) auto
    then have "tokenize_loop lx2 (tokens @ [tok]) = Inl e"
      using 1(2) p by (subst (asm) tokenize_loop.simps) (simp add: Let_def)
    then obtain lx' where "moves lx2 lx'" "next_token lx' = Inl e"
      using 1(1) [OF p(1) refl p(2) nt refl] by blast
    moreover have "moves lx lx2"
      using nt by (blast intro: moves_trans moves_from_advance moves_next_token moves_skip_whitespace)
    ultimately show ?thesis by (blast intro: moves_trans)
  qed
qed

lemma rest_split: "moves (Lexer src fid) lx \<Longrightarrow> \<exists>pre. src = pre @ rest lx \<or> rest lx = []"
  by (metis append_take_drop_id rest_def moves_frame(1) lexer.select_convs(1) Lexer_def)

text \<open>The scanner is total and fails in one way only: if tokenize raises, the source contains
  an exponent mark e or E that no exponent follows (an optional sign and then a digit). In
  particular no unknown character and no unterminated string makes it fail.\<close>

theorem tokenize_fails_only_on_exponent:
  assumes "tokenize (Lexer src fid) = Inl e"
  shows "e = InvalidExponent
    \<and> (\<exists>pre c post. src = pre @ c # post \<and> is_exp_mark c \<and> \<not> starts_exponent post)"
proof -
  have "tokenize_loop (Lexer src fid) [] = Inl e"
    using assms by (auto simp: tokenize_def split: sum.splits prod.splits)
  then obtain lx c cs where "moves (Lexer src fid) lx" "rest lx = c # cs"
    "is_exp_mark c" "\<not> starts_exponent cs"
    using loop_fails next_token_fails by (meson moves_trans)
  then show ?thesis
    using rest_split [of src fid lx] by (cases e) auto
qed

lemma tokenize_invalid_exponent: "tokenize (Lexer ''1e'' fid) = Inl InvalidExponent"
  by code_simp

theorem tokenize_fails_only_on_exponent_witness:
  "\<exists>pre c post. ''1e'' = pre @ c # post \<and> is_exp_mark c \<and> \<not> starts_exponent post"
  using tokenize_fails_only_on_exponent [OF tokenize_invalid_exponent] by blast

section \<open>Positions\<close>

definition line_at :: "string \<Rightarrow> nat \<Rightarrow> u32" where
  "line_at src n = of_nat (Suc (count_list (take n src) (CHR 0x0A)))"

definition column_at :: "string \<Rightarrow> nat \<Rightarrow> u32" where
  "column_at src n = of_nat (Suc (length (takeWhile (\<lambda>c. c \<noteq> CHR 0x0A) (rev (take n src)))))"

lemma advance_line_column:
  "line (advance lx) = (if peek lx = CHR 0x0A then line lx + 1 else line lx)"
  "column (advance lx) = (if peek lx = CHR 0x0A then 1 else column lx + 1)"
  by (simp_all add: advance_def Let_def)

lemma position_invariant:
  assumes "n \<le> length src"
  shows "line ((advance ^^ n) (Lexer src fid)) = line_at src n
    \<and> column ((advance ^^ n) (Lexer src fid)) = column_at src n"
  using assms
proof (induction n)
  case 0
  then show ?case by (simp add: line_at_def column_at_def Lexer_def)
next
  case (Suc n)
  then have "peek ((advance ^^ n) (Lexer src fid)) = src ! n"
    by (simp add: peek_def Lexer_def)
  moreover have "take (Suc n) src = take n src @ [src ! n]"
    using Suc.prems by (simp add: take_Suc_conv_app_nth)
  ultimately show ?case
    using Suc by (simp add: advance_line_column line_at_def column_at_def)
qed

definition late_shift :: "token \<Rightarrow> nat" where
  "late_shift t = (if t_type t \<in> {T_QUESTION_QUESTION, T_QUESTION_QUESTION_EQUAL, T_LESS_LESS,
      T_LESS_LESS_EQUAL, T_GREATER_GREATER, T_GREATER_GREATER_EQUAL} then 2 else 0)"

definition stamped :: "lexer \<Rightarrow> token \<Rightarrow> bool" where
  "stamped lx t \<longleftrightarrow>
     p_line (t_position t) = line ((advance ^^ late_shift t) lx)
     \<and> p_column (t_position t) = column ((advance ^^ late_shift t) lx)
     \<and> p_fileId (t_position t) = fileId lx
     \<and> pos lx + late_shift t \<le> length (source lx)"

definition symbol_placed :: "lexer \<Rightarrow> token \<Rightarrow> bool" where
  "symbol_placed lx t \<longleftrightarrow>
     (t_position t = t_position (make_token lx T_UNKNOWN []) \<and> late_shift t = 0)
     \<or> (t_position t = t_position (make_token (advance (advance lx)) T_UNKNOWN [])
        \<and> late_shift t = 2 \<and> peekNext lx \<noteq> nul)"

lemma symbol_placed_emit:
  "late_shift (make_token lx ty s) = 0 \<Longrightarrow> symbol_placed lx (fst (emit1 lx ty s))"
  "late_shift (make_token lx ty s) = 0 \<Longrightarrow> symbol_placed lx (fst (emit2 lx ty s))"
  "late_shift (make_token lx ty s) = 0 \<Longrightarrow> symbol_placed lx (fst (emit3 lx ty s))"
  by (simp_all add: symbol_placed_def emit1_def emit2_def emit3_def make_token_def)

lemma symbol_placed_late:
  assumes "late_shift (make_token (advance (advance lx)) ty s) = 2" "peekNext lx \<noteq> nul"
  shows "symbol_placed lx (fst (emit1 (advance (advance lx)) ty s))"
    "symbol_placed lx (make_token (advance (advance lx)) ty s)"
  using assms by (simp_all add: symbol_placed_def emit1_def make_token_def)

lemma late_shift_make_token:
  "late_shift (make_token lx ty s) =
     (if ty \<in> {T_QUESTION_QUESTION, T_QUESTION_QUESTION_EQUAL, T_LESS_LESS,
      T_LESS_LESS_EQUAL, T_GREATER_GREATER, T_GREATER_GREATER_EQUAL} then 2 else 0)"
  by (simp add: late_shift_def make_token_def)

lemma lex_late_place:
  "symbol_placed lx (fst (lex_question lx))"
  "symbol_placed lx (fst (lex_less lx))"
  "symbol_placed lx (fst (lex_greater lx))"
  by (simp_all add: lex_question_def lex_less_def lex_greater_def Let_def nul_def
      symbol_placed_emit symbol_placed_late late_shift_make_token)

lemma lex_prompt_place:
  "symbol_placed lx (fst (lex_colon lx))" "symbol_placed lx (fst (lex_dot lx))"
  "symbol_placed lx (fst (lex_plus lx))" "symbol_placed lx (fst (lex_minus lx))"
  "symbol_placed lx (fst (lex_star lx))" "symbol_placed lx (fst (lex_slash lx))"
  "symbol_placed lx (fst (lex_percent lx))" "symbol_placed lx (fst (lex_equal lx))"
  "symbol_placed lx (fst (lex_bang lx))" "symbol_placed lx (fst (lex_amp lx))"
  "symbol_placed lx (fst (lex_pipe lx))" "symbol_placed lx (fst (lex_caret lx))"
  by (simp_all add: lex_colon_def lex_dot_def lex_plus_def lex_minus_def lex_star_def
      lex_slash_def lex_percent_def lex_equal_def lex_bang_def lex_amp_def lex_pipe_def
      lex_caret_def symbol_placed_emit late_shift_make_token)

lemma lex_symbol_place: "symbol_placed lx (fst (lex_symbol lx))"
  by (simp add: lex_symbol_def Let_def lex_late_place lex_prompt_place symbol_placed_emit
      late_shift_make_token)

lemma stamped_symbol:
  assumes "pos lx < length (source lx)" "lex_symbol lx = (t, lx')"
  shows "stamped lx t"
proof -
  have "Suc (Suc (pos lx)) \<le> length (source lx)" if "peekNext lx \<noteq> nul"
    using that by (auto simp: peekNext_def split: if_splits)
  then show ?thesis
    using lex_symbol_place [of lx] assms
    by (auto simp: symbol_placed_def stamped_def make_token_def numeral_2_eq_2)
qed

lemma stampedI:
  assumes "late_shift t = 0" "pos lx < length (source lx)"
    and "p_line (t_position t) = line lx \<and> p_column (t_position t) = column lx
      \<and> p_fileId (t_position t) = fileId lx"
  shows "stamped lx t"
  using assms by (simp add: stamped_def)

lemma read_string_place:
  assumes "read_string lx = (t, lx')"
  shows "late_shift t = 0" and "p_line (t_position t) = line lx \<and> p_column (t_position t) = column lx
      \<and> p_fileId (t_position t) = fileId lx"
  using assms read_string_type [OF assms] moves_frame(2) [OF moves_read_string [OF assms]]
  by (auto simp: late_shift_def read_string_def make_token_at_def Let_def
      split: prod.splits if_splits)

lemma read_number_place:
  assumes "read_number lx = Inr (t, lx')" "isdigit (peek lx)"
  shows "late_shift t = 0" and "p_line (t_position t) = line lx \<and> p_column (t_position t) = column lx
      \<and> p_fileId (t_position t) = fileId lx"
  using assms(1) read_number_type [OF assms(1)] moves_frame(2) [OF moves_read_number [OF assms(2,1)]]
  by (auto simp: late_shift_def read_number_def read_prefixed_def read_decimal_def make_token_at_def
      Let_def split: prod.splits if_splits sum.splits)

lemma read_identifier_place:
  assumes "read_identifier lx = (t, lx')"
  shows "late_shift t = 0" and "p_line (t_position t) = line lx \<and> p_column (t_position t) = column lx
      \<and> p_fileId (t_position t) = fileId lx"
proof -
  show "late_shift t = 0"
    using read_identifier_type [OF assms] by (simp add: late_shift_def)
  show "p_line (t_position t) = line lx \<and> p_column (t_position t) = column lx
      \<and> p_fileId (t_position t) = fileId lx"
    using assms
    by (auto simp: read_identifier_def make_token_at_def Let_def split: prod.splits
        dest: moves_frame(2) [OF moves_read_while_eq])
qed

lemma stamped_next_token:
  assumes "pos lx < length (source lx)" "next_token lx = Inr (t, lx')"
  shows "stamped lx t"
proof -
  have "stamped lx t" if "read_string lx = (t, lx')"
    by (rule stampedI [OF read_string_place(1) [OF that] assms(1) read_string_place(2) [OF that]])
  moreover have "stamped lx t" if "read_number lx = Inr (t, lx')" "isdigit (peek lx)"
    by (rule stampedI [OF read_number_place(1) [OF that] assms(1) read_number_place(2) [OF that]])
  moreover have "stamped lx t" if "read_identifier lx = (t, lx')"
    by (rule stampedI [OF read_identifier_place(1) [OF that] assms(1)
          read_identifier_place(2) [OF that]])
  ultimately show ?thesis
    using assms stamped_symbol [OF assms(1)]
    by (auto simp: next_token_def Let_def split: if_splits)
qed

interpretation placed: token_property "Lexer src fid"
  "\<lambda>t. \<exists>n < length src. (\<exists>lx'. next_token ((advance ^^ n) (Lexer src fid)) = Inr (t, lx'))
     \<and> stamped ((advance ^^ n) (Lexer src fid)) t" for src fid
  by unfold_locales (force simp: moves_def Lexer_def dest: stamped_next_token)

text \<open>C33: Every token before the end-of-file token is the one the scanner reads at some offset n
  inside the source, and it carries the file name and the line and column of offset n computed
  from the text alone (newlines before n, characters since the last one). The tokens ??, ??=,
  <<, <<=, >> and >>= carry those of offset n + 2 instead: the code stamps them after two
  advances.\<close>

theorem tokenize_positions:
  assumes "tokenize (Lexer src fid) = Inr ts" and "t \<in> set (butlast ts)"
  shows "\<exists>n. n + late_shift t \<le> length src
    \<and> (\<exists>lx'. next_token ((advance ^^ n) (Lexer src fid)) = Inr (t, lx'))
    \<and> p_line (t_position t) = line_at src (n + late_shift t)
    \<and> p_column (t_position t) = column_at src (n + late_shift t)
    \<and> p_fileId (t_position t) = fid"
proof -
  let ?lx = "\<lambda>n. (advance ^^ n) (Lexer src fid)"
  obtain us lx' where us: "ts = us @ [make_token lx' T_END_OF_FILE []]"
    and good: "\<forall>t \<in> set us. \<exists>n < length src. (\<exists>lx'. next_token (?lx n) = Inr (t, lx'))
      \<and> stamped (?lx n) t"
    using placed.tokenize_good [OF assms(1)] by blast
  have "t \<in> set us" using us assms(2) by simp
  then obtain n where n: "\<exists>lx'. next_token (?lx n) = Inr (t, lx')" "stamped (?lx n) t"
    using good by blast
  then have le: "n + late_shift t \<le> length src"
    and eq: "p_line (t_position t) = line (?lx (n + late_shift t))"
      "p_column (t_position t) = column (?lx (n + late_shift t))"
      "p_fileId (t_position t) = fid"
    by (auto simp: stamped_def Lexer_def add.commute [of n] funpow_add)
  then show ?thesis
    using n(1) position_invariant [OF le, of fid] by auto
qed

definition token_on_line_1 :: "u32 \<Rightarrow> u32 \<Rightarrow> token_type \<Rightarrow> string \<Rightarrow> token" where
  "token_on_line_1 col i ty v =
     \<lparr>t_position = \<lparr>p_fileId = ''f'', p_line = 1, p_column = col, p_index = i\<rparr>,
      t_type = ty, t_value = v\<rparr>"

lemma tokenize_shift_sample:
  "tokenize (Lexer ''a<<b'' ''f'') = Inr
     [token_on_line_1 1 1 T_IDENTIFIER ''a'', token_on_line_1 4 3 T_LESS_LESS ''<<'',
      token_on_line_1 4 1 T_IDENTIFIER ''b'', token_on_line_1 5 4 T_END_OF_FILE []]"
  by code_simp

theorem tokenize_positions_witness:
  "\<exists>n. n + late_shift (token_on_line_1 4 3 T_LESS_LESS ''<<'') \<le> 4
     \<and> 4 = column_at ''a<<b'' (n + late_shift (token_on_line_1 4 3 T_LESS_LESS ''<<''))"
proof -
  have "token_on_line_1 4 3 T_LESS_LESS ''<<'' \<in> set (butlast
     [token_on_line_1 1 1 T_IDENTIFIER ''a'', token_on_line_1 4 3 T_LESS_LESS ''<<'',
      token_on_line_1 4 1 T_IDENTIFIER ''b'', token_on_line_1 5 4 T_END_OF_FILE []])"
    by simp
  from tokenize_positions [OF tokenize_shift_sample this]
  show ?thesis by (force simp: token_on_line_1_def)
qed

text \<open>A shift operator is reported two columns to the right of where it is written: in a<<b
  the operator begins in column 2 and its token says column 4, the column of the operand after
  it.\<close>

theorem shift_token_misplaced:
  "\<exists>t. (\<exists>ts. tokenize (Lexer ''a<<b'' ''f'') = Inr ts \<and> t \<in> set ts) \<and> t_type t = T_LESS_LESS
     \<and> column_at ''a<<b'' 1 = 2 \<and> p_column (t_position t) = 4"
  by (rule exI [of _ "token_on_line_1 4 3 T_LESS_LESS ''<<''"])
    (simp add: tokenize_shift_sample, simp add: token_on_line_1_def column_at_def)

section \<open>Lexemes separated by blanks\<close>

text \<open>
  A text to scan: words, decimal and hexadecimal numbers, string literals and symbols. The
  spelling of the symbols is the scanner's own switch, stated as a table.
\<close>

definition symbol_table :: "(string \<times> token_type) list" where
  "symbol_table = [
     (''('', T_LPAREN), ('')'', T_RPAREN), (''{'', T_LBRACE), (''}'', T_RBRACE),
     (''['', T_LBRACKET), ('']'', T_RBRACKET), ('';'', T_SEMICOLON), ('','', T_COMMA),
     (''::'', T_COLON_COLON), ('':'', T_COLON), (''...'', T_DOT_DOT_DOT),
     (''..='', T_DOT_DOT_EQUAL), (''..'', T_DOT_DOT), (''.'', T_DOT),
     (''+='', T_PLUS_EQUAL), (''++'', T_PLUS_PLUS), (''+'', T_PLUS),
     (''->'', T_THIN_ARROW), (''-='', T_MINUS_EQUAL), (''--'', T_MINUS_MINUS), (''-'', T_MINUS),
     (''*='', T_STAR_EQUAL), (''*'', T_STAR), (''/='', T_SLASH_EQUAL), (''/'', T_SLASH),
     (''@'', T_AT), (''%='', T_PERCENT_EQUAL), (''%'', T_PERCENT),
     (''=='', T_EQUAL_EQUAL), (''=>'', T_ARROW), (''='', T_EQUAL),
     (''!='', T_BANG_EQUAL), (''!.'', T_BANG_DOT), (''!'', T_BANG),
     (''??='', T_QUESTION_QUESTION_EQUAL), (''??'', T_QUESTION_QUESTION),
     (''?.'', T_QUESTION_DOT), (''?'', T_QUESTION),
     (''<='', T_LESS_EQUAL), (''<<='', T_LESS_LESS_EQUAL), (''<<'', T_LESS_LESS), (''<'', T_LESS),
     (''>='', T_GREATER_EQUAL), (''>>='', T_GREATER_GREATER_EQUAL),
     (''>>'', T_GREATER_GREATER), (''>'', T_GREATER),
     (''&&'', T_AND_AND), (''&='', T_AMPERSAND_EQUAL), (''&'', T_AMPERSAND),
     (''||'', T_OR_OR), (''|='', T_PIPE_EQUAL), (''|'', T_PIPE),
     (''^='', T_CARET_EQUAL), (''^'', T_CARET), (''~'', T_TILDE)]"

datatype lexeme =
    Word string
  | Decimal string "char option"
  | Hexadecimal string
  | Quoted string
  | Symbol string token_type

text \<open>The escapes a string literal is written with, the inverse of the scanner's switch.\<close>

definition escape_char :: "char \<Rightarrow> string" where
  "escape_char c =
     (if c = CHR 0x0A then [backslash, CHR ''n'']
      else if c = CHR 0x09 then [backslash, CHR ''t'']
      else if c = backslash then [backslash, backslash]
      else if c = dquote then [backslash, dquote]
      else [c])"

fun lexeme_text :: "lexeme \<Rightarrow> string" where
  "lexeme_text (Word w) = w"
| "lexeme_text (Decimal ds suffix) = ds @ (case suffix of None \<Rightarrow> [] | Some c \<Rightarrow> [c])"
| "lexeme_text (Hexadecimal ds) = CHR ''0'' # CHR ''x'' # ds"
| "lexeme_text (Quoted s) = dquote # concat (map escape_char s) @ [dquote]"
| "lexeme_text (Symbol s ty) = s"

fun lexeme_value :: "lexeme \<Rightarrow> string" where
  "lexeme_value (Quoted s) = s"
| "lexeme_value l = lexeme_text l"

fun lexeme_type :: "lexeme \<Rightarrow> token_type" where
  "lexeme_type (Word w) = classify_word w"
| "lexeme_type (Decimal ds suffix) = T_INTEGER_LITERAL"
| "lexeme_type (Hexadecimal ds) = T_INTEGER_LITERAL"
| "lexeme_type (Quoted s) = T_STRING_LITERAL"
| "lexeme_type (Symbol s ty) = ty"

fun lexeme_ok :: "lexeme \<Rightarrow> bool" where
  "lexeme_ok (Word w) \<longleftrightarrow>
     w \<noteq> [] \<and> (isalpha (hd w) \<or> hd w = CHR ''_'') \<and> list_all ident_char w"
| "lexeme_ok (Decimal ds suffix) \<longleftrightarrow>
     ds \<noteq> [] \<and> list_all isdigit ds \<and> (case suffix of None \<Rightarrow> True | Some c \<Rightarrow> is_suffix True c)"
| "lexeme_ok (Hexadecimal ds) \<longleftrightarrow> list_all isxdigit ds"
| "lexeme_ok (Quoted s) \<longleftrightarrow> nul \<notin> set s"
| "lexeme_ok (Symbol s ty) \<longleftrightarrow> (s, ty) \<in> set symbol_table"

definition scans_to :: "lexer \<Rightarrow> nat \<Rightarrow> token_type \<Rightarrow> string \<Rightarrow> bool" where
  "scans_to lx n ty v \<longleftrightarrow>
     (\<exists>t. next_token lx = Inr (t, (advance ^^ n) lx) \<and> t_type t = ty \<and> t_value t = v)"

lemma next_token_symbol:
  "\<not> isdigit (peek lx) \<Longrightarrow> \<not> isalpha (peek lx) \<Longrightarrow> peek lx \<noteq> CHR ''_'' \<Longrightarrow> peek lx \<noteq> dquote
    \<Longrightarrow> next_token lx = Inr (lex_symbol lx)"
  by (simp add: next_token_def Let_def)

lemma scans_to_symbol:
  assumes "rest lx = s @ w # cs" "s \<noteq> []"
    and "\<not> isdigit (hd s)" "\<not> isalpha (hd s)" "hd s \<noteq> CHR ''_''" "hd s \<noteq> dquote"
    and "snd (lex_symbol lx) = (advance ^^ length s) lx"
      "t_type (fst (lex_symbol lx)) = ty" "t_value (fst (lex_symbol lx)) = s"
  shows "scans_to lx (length s) ty s"
proof -
  have "peek lx = hd s" using assms(1,2) by (cases s) (simp_all add: peek_rest)
  then show ?thesis
    using assms by (cases "lex_symbol lx") (simp add: scans_to_def next_token_symbol)
qed

lemma scan_symbol:
  assumes "(s, ty) \<in> set symbol_table" "rest lx = s @ w # cs" "is_space w"
  shows "scans_to lx (length s) ty s"
proof (rule scans_to_symbol [OF assms(2)])
  have w: "w \<noteq> CHR ''=''" "w \<noteq> CHR '':''" "w \<noteq> CHR ''.''" "w \<noteq> CHR ''+''" "w \<noteq> CHR ''-''"
    "w \<noteq> CHR ''>''" "w \<noteq> CHR ''<''" "w \<noteq> CHR ''&''" "w \<noteq> CHR ''|''" "w \<noteq> CHR ''?''"
    using assms(3) by (auto simp: is_space_def)
  have "\<forall>(s, ty) \<in> set symbol_table. s \<noteq> [] \<and> \<not> isdigit (hd s) \<and> \<not> isalpha (hd s)
      \<and> hd s \<noteq> CHR ''_'' \<and> hd s \<noteq> dquote"
    by (simp add: symbol_table_def char_class_defs dquote_def)
  then show "s \<noteq> []" "\<not> isdigit (hd s)" "\<not> isalpha (hd s)" "hd s \<noteq> CHR ''_''" "hd s \<noteq> dquote"
    using assms(1) by auto
  have "snd (lex_symbol lx) = (advance ^^ length s) lx \<and> t_type (fst (lex_symbol lx)) = ty
      \<and> t_value (fst (lex_symbol lx)) = s"
    using assms(1,2) w unfolding symbol_table_def
    by (simp only: list.set insert_iff empty_iff prod.inject)
      (elim disjE conjE FalseE; simp add: lex_symbol_defs lex_simps make_token_def Let_def numeral_2_eq_2
        numeral_3_eq_3)
  then show "snd (lex_symbol lx) = (advance ^^ length s) lx"
    "t_type (fst (lex_symbol lx)) = ty" "t_value (fst (lex_symbol lx)) = s"
    by simp_all
qed

lemma scan_word:
  assumes "lexeme_ok (Word s)" "rest lx = s @ w # cs" "is_space w"
  shows "scans_to lx (length s) (classify_word s) s"
proof -
  obtain c s' where s: "s = c # s'" using assms(1) by (cases s) auto
  have "\<not> ident_char w" using assms(3) by (auto simp: is_space_def ident_char_def char_class_defs)
  then have "read_while ident_char lx [] = ((advance ^^ length s) lx, [] @ s)"
    using assms by (intro read_while_run) auto
  moreover have "peek lx = c" "isalpha c \<or> c = CHR ''_''"
    using assms(1,2) s by (simp_all add: peek_rest)
  moreover have "c \<noteq> dquote" "\<not> isdigit c"
    using \<open>isalpha c \<or> c = CHR ''_''\<close> by (auto simp: char_class_defs dquote_def)
  ultimately show ?thesis
    by (auto simp: scans_to_def next_token_def read_identifier_def make_token_at_def Let_def)
qed

lemma dec_slice_not:
  "is_space w \<Longrightarrow> \<not> dec_slice w" "is_suffix b c \<Longrightarrow> \<not> dec_slice c"
  "is_space w \<Longrightarrow> \<not> hex_slice w" "is_space w \<Longrightarrow> \<not> is_suffix b w"
  "is_space w \<Longrightarrow> w \<noteq> CHR ''.'' \<and> \<not> is_exp_mark w"
  "is_suffix b c \<Longrightarrow> c \<noteq> CHR ''.'' \<and> \<not> is_exp_mark c"
  by (auto simp: is_space_def is_suffix_def dec_slice_def hex_slice_def num_sep_def is_exp_mark_def
      char_class_defs)

lemma scan_decimal:
  assumes "lexeme_ok (Decimal ds suffix)" "rest lx = lexeme_text (Decimal ds suffix) @ w # cs"
    "is_space w"
  shows "scans_to lx (length (lexeme_text (Decimal ds suffix))) T_INTEGER_LITERAL
    (lexeme_text (Decimal ds suffix))"
proof -
  obtain d ds' where ds: "ds = d # ds'" "isdigit d" using assms(1) by (cases ds) auto
  define ys where "ys = (case suffix of None \<Rightarrow> [] | Some c \<Rightarrow> [c]) @ w # cs"
  have r: "rest lx = ds @ ys" using assms(2) by (simp add: ys_def)
  have ys: "ys \<noteq> []" "\<not> dec_slice (hd ys)" "hd ys \<noteq> CHR ''.''" "\<not> is_exp_mark (hd ys)"
    using assms(1,3) by (auto simp: ys_def dec_slice_not split: option.splits dest: dec_slice_not(6))
  have "list_all dec_slice ds" using assms(1) by (auto simp: list_all_iff dec_slice_def)
  then have rw: "read_while dec_slice lx [] = ((advance ^^ length ds) lx, [] @ ds)"
    using ys r by (intro read_while_run) auto
  have pk: "peek ((advance ^^ length ds) lx) = hd ys"
    using ys(1) r by (cases ys) (simp_all add: peek_rest rest_pow)
  have "peekNext lx \<noteq> CHR ''x'' \<and> peekNext lx \<noteq> CHR ''X'' \<and> peekNext lx \<noteq> CHR ''b''
      \<and> peekNext lx \<noteq> CHR ''B''"
  proof (cases ds')
    case Nil
    then have "peekNext lx = hd ys" using r ds(1) ys(1) by (cases ys) (simp_all add: peekNext_rest)
    then show ?thesis using assms(1,3)
      by (auto simp: ys_def is_space_def is_suffix_def split: option.splits)
  next
    case (Cons e es)
    then have "peekNext lx = e" "isdigit e" using r ds(1) assms(1) by (simp_all add: peekNext_rest)
    then show ?thesis by (auto simp: isdigit_def)
  qed
  moreover have "peek lx = d" using r ds by (simp add: peek_rest)
  moreover have "d \<noteq> dquote" using ds(2) by (auto simp: isdigit_def dquote_def)
  ultimately have "next_token lx = read_decimal lx (line lx) (column lx)"
    using ds(2) by (auto simp: next_token_def read_number_def Let_def)
  moreover have "hd ys = (case suffix of None \<Rightarrow> w | Some c \<Rightarrow> c)"
    by (simp add: ys_def split: option.splits)
  ultimately show ?thesis
    using rw pk ys assms(1,3)
    by (auto simp: scans_to_def read_decimal_def read_fraction_def read_exponent_def readSuffix_def
        make_token_at_def Let_def dec_slice_not split: option.splits)
qed

lemma scan_hexadecimal:
  assumes "lexeme_ok (Hexadecimal ds)" "rest lx = lexeme_text (Hexadecimal ds) @ w # cs"
    "is_space w"
  shows "scans_to lx (length (lexeme_text (Hexadecimal ds))) T_INTEGER_LITERAL
    (lexeme_text (Hexadecimal ds))"
proof -
  let ?lx2 = "advance (advance lx)"
  have "list_all hex_slice ds" using assms(1) by (auto simp: list_all_iff hex_slice_def)
  then have "read_while hex_slice ?lx2 [CHR ''0'', CHR ''x''] =
      ((advance ^^ length ds) ?lx2, [CHR ''0'', CHR ''x''] @ ds)"
    using assms(2,3) by (intro read_while_run) (auto simp: rest_advance dec_slice_not)
  moreover have "peek lx = CHR ''0''" "peekNext lx = CHR ''x''" "peek (advance lx) = CHR ''x''"
    using assms(2) by (simp_all add: lex_simps)
  moreover have "peek ((advance ^^ length ds) ?lx2) = w"
    using assms(2) by (simp add: peek_rest rest_pow rest_advance)
  moreover have "isdigit (CHR ''0'')" "CHR ''0'' \<noteq> dquote" by (simp_all add: isdigit_def dquote_def)
  ultimately show ?thesis
    using assms(3)
    by (simp add: scans_to_def next_token_def read_number_def read_prefixed_def readSuffix_def
        make_token_at_def Let_def dec_slice_not funpow_swap1)
qed

lemma read_chars_escaped:
  assumes "nul \<notin> set s" "rest lx = concat (map escape_char s) @ dquote # cs"
  shows "read_chars lx v = ((advance ^^ length (concat (map escape_char s))) lx, v @ s)"
  using assms
proof (induction s arbitrary: lx v)
  case Nil
  then have "peek lx = dquote" by (simp add: peek_rest)
  then show ?case by (subst read_chars.simps) simp
next
  case (Cons c s)
  have ne: "dquote \<noteq> backslash" "dquote \<noteq> nul" "backslash \<noteq> nul" "CHR 0x0A \<noteq> dquote"
    "CHR ''n'' \<noteq> backslash" "CHR ''t'' \<noteq> backslash" "CHR 0x0A \<noteq> nul" "CHR 0x09 \<noteq> dquote"
    by (simp_all add: dquote_def backslash_def nul_def)
  show ?case
  proof (cases "\<exists>e. escape_char c = [backslash, e] \<and> unescape e = c")
    case True
    then obtain e where e: "escape_char c = [backslash, e]" "unescape e = c" by blast
    have "peek lx = backslash" "peek (advance lx) = e"
      using Cons.prems(2) e by (simp_all add: lex_simps)
    moreover have "read_chars (advance (advance lx)) (v @ [c]) =
      ((advance ^^ length (concat (map escape_char s))) (advance (advance lx)), (v @ [c]) @ s)"
      using Cons.prems e by (intro Cons.IH) (simp_all add: rest_advance)
    ultimately show ?thesis
      using ne e by (subst read_chars.simps) (simp add: advance_char_def funpow_swap1)
  next
    case False
    then have c: "escape_char c = [c]" "c \<noteq> dquote" "c \<noteq> backslash"
      by (auto simp: escape_char_def unescape_def ne split: if_splits)
        (simp_all add: backslash_def dquote_def)
    have "peek lx = c" "c \<noteq> nul" using Cons.prems c by (auto simp: lex_simps)
    moreover have "read_chars (advance lx) (v @ [c]) =
      ((advance ^^ length (concat (map escape_char s))) (advance lx), (v @ [c]) @ s)"
      using Cons.prems c by (intro Cons.IH) (simp_all add: rest_advance)
    ultimately show ?thesis
      using c by (subst read_chars.simps) (simp add: funpow_swap1)
  qed
qed

lemma scan_quoted:
  assumes "lexeme_ok (Quoted s)" "rest lx = lexeme_text (Quoted s) @ w # cs" "is_space w"
  shows "scans_to lx (length (lexeme_text (Quoted s))) T_STRING_LITERAL s"
proof -
  let ?e = "concat (map escape_char s)"
  have r: "rest lx = dquote # ?e @ dquote # w # cs" using assms(2) by simp
  have "w \<noteq> dquote" using assms(3) by (auto simp: is_space_def dquote_def)
  have "escape_char c \<noteq> [] \<and> hd (escape_char c) \<noteq> dquote" for c
    by (simp add: escape_char_def dquote_def backslash_def)
  then have "?e = [] \<or> hd ?e \<noteq> dquote" by (cases s) (simp_all add: hd_append)
  then have "(looking_at lx 1 dquote \<and> looking_at lx 2 dquote) = False"
    using r \<open>w \<noteq> dquote\<close> by (cases ?e) (auto simp: looking_at_rest)
  moreover have "read_chars (advance lx) [] = ((advance ^^ length ?e) (advance lx), [] @ s)"
    using assms(1) r by (intro read_chars_escaped [where cs = "w # cs"]) (simp_all add: rest_advance)
  moreover have "peek lx = dquote" using r by (simp add: peek_rest)
  moreover have "peek ((advance ^^ length ?e) (advance lx)) = dquote"
    using r by (simp add: peek_rest rest_pow rest_advance)
  ultimately show ?thesis
    by (auto simp: scans_to_def next_token_def read_string_def make_token_at_def Let_def funpow_swap1)
qed

lemma scan_lexeme:
  assumes "lexeme_ok l" "rest lx = lexeme_text l @ w # cs" "is_space w"
  shows "scans_to lx (length (lexeme_text l)) (lexeme_type l) (lexeme_value l)"
  using assms
  by (cases l) (auto intro: scan_symbol scan_hexadecimal [simplified] scan_quoted [simplified]
      scan_decimal [simplified] scan_word)

lemma skip_blanks:
  assumes "rest lx = ws @ ys" "list_all is_space ws"
    and "ys = [] \<or> \<not> is_space (hd ys) \<and> take 2 ys \<noteq> ''//''"
  shows "skip_whitespace lx = (advance ^^ length ws) lx"
  using assms
proof (induction ws arbitrary: lx)
  case Nil
  show ?case
  proof (cases ys)
    case Nil
    with Nil.prems show ?thesis
      by (subst skip_whitespace.simps) (simp add: pos_less_rest)
  next
    case (Cons c cs)
    then have "\<not> (peek lx = CHR ''/'' \<and> looking_at lx 1 (CHR ''/''))"
      using Nil.prems by (cases cs) (auto simp: lex_simps)
    with Cons Nil.prems show ?thesis
      by (subst skip_whitespace.simps) (auto simp: peek_rest)
  qed
next
  case (Cons w ws)
  then have "skip_whitespace lx = skip_whitespace (advance lx)"
    by (subst skip_whitespace.simps) (simp add: pos_less_rest peek_rest)
  also have "\<dots> = (advance ^^ length ws) (advance lx)"
    using Cons.prems by (intro Cons.IH) (simp_all add: rest_advance)
  finally show ?case by (simp add: funpow_swap1)
qed

lemma lexeme_start:
  assumes "lexeme_ok l" "is_space w"
  shows "lexeme_text l \<noteq> []" "\<not> is_space (hd (lexeme_text l @ w # cs))"
    "take 2 (lexeme_text l @ w # cs) \<noteq> ''//''"
proof -
  have sym: "\<forall>(s, ty) \<in> set symbol_table. s \<noteq> [] \<and> \<not> is_space (hd s) \<and>
      (hd s = CHR ''/'' \<longrightarrow> tl s = [] \<or> hd (tl s) \<noteq> CHR ''/'')"
    by (simp add: symbol_table_def is_space_def)
  have "lexeme_text l \<noteq> [] \<and> \<not> is_space (hd (lexeme_text l)) \<and> (hd (lexeme_text l) = CHR ''/'' \<longrightarrow>
      tl (lexeme_text l) = [] \<or> hd (tl (lexeme_text l)) \<noteq> CHR ''/'')"
  proof (cases l)
    case (Symbol s ty)
    then show ?thesis using sym assms(1) by auto
  next
    case (Decimal ds suffix)
    then show ?thesis using assms(1)
      by (cases ds) (auto simp: is_space_def isdigit_def)
  qed (use assms(1) in \<open>auto simp: is_space_def char_class_defs dquote_def\<close>)
  moreover have "w \<noteq> CHR ''/''" using assms(2) by (auto simp: is_space_def)
  ultimately show "lexeme_text l \<noteq> []" "\<not> is_space (hd (lexeme_text l @ w # cs))"
    "take 2 (lexeme_text l @ w # cs) \<noteq> ''//''"
    by (cases "lexeme_text l"; cases "tl (lexeme_text l)"; auto)+
qed

definition written :: "(lexeme \<times> string) list \<Rightarrow> string" where
  "written ls = concat (map (\<lambda>(l, ws). lexeme_text l @ ws) ls)"

lemma written_simps [simp]:
  "written [] = []" "written ((l, ws) # ls) = lexeme_text l @ ws @ written ls"
  by (simp_all add: written_def)

definition well_written :: "(lexeme \<times> string) list \<Rightarrow> bool" where
  "well_written ls \<longleftrightarrow> (\<forall>(l, ws) \<in> set ls. lexeme_ok l \<and> ws \<noteq> [] \<and> list_all is_space ws)"

lemma loop_lexemes:
  assumes "well_written ls" "rest lx = ws0 @ written ls" "list_all is_space ws0"
  shows "\<exists>ts lx'. tokenize_loop lx tokens = Inr (tokens @ ts, lx')
    \<and> map (\<lambda>t. (t_type t, t_value t)) ts = map (\<lambda>(l, ws). (lexeme_type l, lexeme_value l)) ls"
  using assms
proof (induction ls arbitrary: lx ws0 tokens)
  case Nil
  then have "skip_whitespace lx = (advance ^^ length ws0) lx"
    using skip_blanks [of lx ws0 "[]"] by simp
  moreover have "rest ((advance ^^ length ws0) lx) = []" using Nil by (simp add: rest_pow)
  ultimately have "\<exists>lx'. tokenize_loop lx tokens = Inr (tokens, lx')"
    by (subst tokenize_loop.simps) (auto simp: Let_def rest_def)
  then show ?case by force
next
  case (Cons lw ls)
  obtain l ws where lw: "lw = (l, ws)" by (cases lw)
  obtain w ws' where ws: "ws = w # ws'" "is_space w"
    using Cons.prems(1) lw by (cases ws) (auto simp: well_written_def)
  have ok: "lexeme_ok l" using Cons.prems(1) lw by (simp add: well_written_def)
  let ?lx1 = "(advance ^^ length ws0) lx"
  let ?lx2 = "(advance ^^ length (lexeme_text l)) ?lx1"
  have r: "rest lx = ws0 @ lexeme_text l @ w # ws' @ written ls" using Cons.prems(2) lw ws by simp
  have skip: "skip_whitespace lx = ?lx1"
    by (rule skip_blanks [OF r Cons.prems(3)]) (use lexeme_start [OF ok ws(2)] in simp)
  have r1: "rest ?lx1 = lexeme_text l @ w # ws' @ written ls" using r by (simp add: rest_pow)
  obtain t where t: "next_token ?lx1 = Inr (t, ?lx2)" "t_type t = lexeme_type l"
    "t_value t = lexeme_value l"
    using scan_lexeme [OF ok r1 ws(2)] by (auto simp: scans_to_def)
  have "rest ?lx2 = ws @ written ls"
    by (simp only: rest_pow) (simp add: r ws)
  moreover have "well_written ls" "list_all is_space ws"
    using Cons.prems(1) lw by (auto simp: well_written_def)
  ultimately obtain ts lx' where IH: "tokenize_loop ?lx2 (tokens @ [t]) = Inr ((tokens @ [t]) @ ts, lx')"
    "map (\<lambda>t. (t_type t, t_value t)) ts = map (\<lambda>(l, ws). (lexeme_type l, lexeme_value l)) ls"
    using Cons.IH by blast
  have "pos lx < length (source lx)" "pos ?lx1 < length (source ?lx1)"
    using r r1 unfolding pos_less_rest by auto
  then have "tokenize_loop lx tokens = tokenize_loop ?lx2 (tokens @ [t])"
    using skip t(1) by (subst tokenize_loop.simps) (simp add: Let_def)
  then show ?case using IH t lw by (intro exI [of _ "t # ts"] exI [of _ lx']) simp
qed

lemma tokenize_written:
  assumes "well_written ls" "list_all is_space ws0"
  shows "\<exists>ts. tokenize (Lexer (ws0 @ written ls) fid) = Inr ts
    \<and> map (\<lambda>t. (t_type t, t_value t)) ts =
        map (\<lambda>(l, ws). (lexeme_type l, lexeme_value l)) ls @ [(T_END_OF_FILE, [])]"
proof -
  have "rest (Lexer (ws0 @ written ls) fid) = ws0 @ written ls" by (simp add: rest_def Lexer_def)
  then obtain ts lx' where "tokenize_loop (Lexer (ws0 @ written ls) fid) [] = Inr ([] @ ts, lx')"
    "map (\<lambda>t. (t_type t, t_value t)) ts = map (\<lambda>(l, ws). (lexeme_type l, lexeme_value l)) ls"
    using loop_lexemes [OF assms(1) _ assms(2)] by blast
  then show ?thesis by (simp add: tokenize_def make_token_def)
qed

text \<open>C10: Scanning inverts writing, for five kinds of lexemes. A text made of words, decimal integers (digits
  and at most one letter of a type suffix), hexadecimal integers with 0x, string literals on one line with
  their escapes, and every operator of the language, each followed by at least one blank, scans to
  exactly those lexemes with their token types and their texts (the escapes of a string decoded),
  and the end-of-file token. Floats, exponents, binary numbers, digit separators and block strings
  are not among the lexemes.\<close>

theorem tokenize_roundtrip:
  assumes "well_written ls" "list_all is_space ws0"
  shows "\<exists>ts. tokenize (Lexer (ws0 @ written ls) fid) = Inr ts
    \<and> map (\<lambda>t. (t_type t, t_value t)) ts =
        map (\<lambda>(l, ws). (lexeme_type l, lexeme_value l)) ls @ [(T_END_OF_FILE, [])]"
  by (rule tokenize_written [OF assms])

definition sample_lexemes :: "(lexeme \<times> string) list" where
  "sample_lexemes = [(Word ''return'', '' ''), (Word ''x1'', '' ''), (Symbol ''<<='' T_LESS_LESS_EQUAL, '' ''),
     (Decimal ''42'' (Some (CHR ''u'')), '' ''), (Symbol ''/'' T_SLASH, '' ''),
     (Hexadecimal ''fF'', '' ''), (Quoted ''a b'', '' ''), (Symbol '';'' T_SEMICOLON, [CHR 0x0A])]"

lemma sample_lexemes_ok: "well_written sample_lexemes"
  by (simp add: well_written_def sample_lexemes_def is_space_def symbol_table_def char_class_defs
      ident_char_def is_suffix_def nul_def)

theorem tokenize_roundtrip_witness:
  "\<exists>ts. tokenize (Lexer ('' '' @ written sample_lexemes) ''m'') = Inr ts
    \<and> map t_type ts = [T_RETURN, T_IDENTIFIER, T_LESS_LESS_EQUAL, T_INTEGER_LITERAL, T_SLASH,
        T_INTEGER_LITERAL, T_STRING_LITERAL, T_SEMICOLON, T_END_OF_FILE]"
proof -
  have cl: "classify_word ''return'' = T_RETURN" "classify_word ''x1'' = T_IDENTIFIER"
    by code_simp+
  obtain ts where ts: "tokenize (Lexer ('' '' @ written sample_lexemes) ''m'') = Inr ts"
    "map (\<lambda>t. (t_type t, t_value t)) ts =
        map (\<lambda>(l, ws). (lexeme_type l, lexeme_value l)) sample_lexemes @ [(T_END_OF_FILE, [])]"
    using tokenize_roundtrip [OF sample_lexemes_ok, of "'' ''" "''m''"]
    by (auto simp: is_space_def)
  have "map t_type ts = map fst (map (\<lambda>t. (t_type t, t_value t)) ts)" by (simp add: comp_def)
  also have "\<dots> = [T_RETURN, T_IDENTIFIER, T_LESS_LESS_EQUAL, T_INTEGER_LITERAL, T_SLASH,
        T_INTEGER_LITERAL, T_STRING_LITERAL, T_SEMICOLON, T_END_OF_FILE]"
    unfolding ts(2) by (simp add: sample_lexemes_def cl)
  finally show ?thesis using ts(1) by (intro exI [of _ ts] conjI)
qed

lemma tokenize_sample: "\<exists>ts. tokenize (Lexer ''a+1'' ''m'') = Inr ts"
proof -
  have "(case tokenize (Lexer ''a+1'' ''m'') of Inl e \<Rightarrow> False | Inr ts \<Rightarrow> True)" by code_simp
  then show ?thesis by (simp split: sum.splits)
qed

theorem tokenize_eof_last_witness:
  "\<exists>us t. tokenize (Lexer ''a+1'' ''m'') = Inr (us @ [t]) \<and> t_type t = T_END_OF_FILE
    \<and> (\<forall>u \<in> set us. t_type u \<noteq> T_END_OF_FILE)"
  using tokenize_sample tokenize_eof_last [of "''a+1''" "''m''"] by force

end
