(* ===== verification/Token_Strings.thy ===== *)
theory Token_Strings
  imports Lexer_Correct "HOL-Library.Sublist"
begin

text \<open>
  The printed forms of the token types, the three switches at the head of
  \<^verbatim>\<open>parser/ast/Expression.h\<close>: \<^verbatim>\<open>tokenTypeToString\<close> names the operator overloads and the
  nodes of the tree, the two human forms go into diagnostics. Each switch is a table and the
  lookup with the switch's default. The theorems tie the printed form to the scanner: an
  operator's printed form scans to that operator.
\<close>

definition token_string_table :: "(token_type \<times> string) list" where
  "token_string_table = [
     (T_PLUS, ''+''),
     (T_MINUS, ''-''),
     (T_PLUS_PLUS, ''++''),
     (T_MINUS_MINUS, ''--''),
     (T_STAR, ''*''),
     (T_SLASH, ''/''),
     (T_PERCENT, ''%''),
     (T_EQUAL_EQUAL, ''==''),
     (T_BANG_EQUAL, ''!=''),
     (T_LESS, ''<''),
     (T_LESS_EQUAL, ''<=''),
     (T_GREATER, ''>''),
     (T_GREATER_EQUAL, ''>=''),
     (T_BANG, ''!''),
     (T_AND_AND, ''&&''),
     (T_OR_OR, ''||''),
     (T_AMPERSAND, ''&''),
     (T_PIPE, ''|''),
     (T_CARET, ''^''),
     (T_TILDE, ''~''),
     (T_LESS_LESS, ''<<''),
     (T_GREATER_GREATER, ''>>''),
     (T_EQUAL, ''=''),
     (T_PLUS_EQUAL, ''+=''),
     (T_MINUS_EQUAL, ''-=''),
     (T_STAR_EQUAL, ''*=''),
     (T_SLASH_EQUAL, ''/=''),
     (T_PERCENT_EQUAL, ''%=''),
     (T_AMPERSAND_EQUAL, ''&=''),
     (T_PIPE_EQUAL, ''|=''),
     (T_CARET_EQUAL, ''^=''),
     (T_LESS_LESS_EQUAL, ''<<=''),
     (T_GREATER_GREATER_EQUAL, ''>>=''),
     (T_ARROW, ''=>''),
     (T_THIN_ARROW, ''->''),
     (T_DOT, ''.''),
     (T_DOT_DOT, ''..''),
     (T_DOT_DOT_EQUAL, ''..=''),
     (T_DOT_DOT_DOT, ''...''),
     (T_COLON, '':''),
     (T_COLON_COLON, ''::''),
     (T_LPAREN, ''(''),
     (T_RPAREN, '')''),
     (T_LBRACE, ''{''),
     (T_RBRACE, ''}''),
     (T_LBRACKET, ''[''),
     (T_RBRACKET, '']''),
     (T_SEMICOLON, '';''),
     (T_COMMA, '',''),
     (T_AT, ''@''),
     (T_IF, ''if''),
     (T_ELSE, ''else''),
     (T_FOR, ''for''),
     (T_WHILE, ''while''),
     (T_DO, ''do''),
     (T_SWITCH, ''switch''),
     (T_CASE, ''case''),
     (T_DEFAULT, ''default''),
     (T_BREAK, ''break''),
     (T_CONTINUE, ''continue''),
     (T_RETURN, ''return''),
     (T_STRUCT, ''struct''),
     (T_ENUM, ''enum''),
     (T_INTERFACE, ''interface''),
     (T_NAMESPACE, ''namespace''),
     (T_IMPORT, ''import''),
     (T_EXTERN, ''extern''),
     (T_MUT, ''mut''),
     (T_PUBLIC, ''public''),
     (T_PRIVATE, ''private''),
     (T_STATIC, ''static''),
     (T_UNSAFE, ''unsafe''),
     (T_THIS, ''this''),
     (T_NEW, ''new''),
     (T_IMPL, ''impl''),
     (T_WHERE, ''where''),
     (T_ASYNC, ''async''),
     (T_AWAIT, ''await''),
     (T_IN, ''in''),
     (T_YIELD, ''yield''),
     (T_SPAWN, ''spawn''),
     (T_OPERATOR, ''operator''),
     (T_CONST_EXPR, ''constexpr''),
     (T_CONST_EVAL, ''consteval''),
     (T_CONST, ''const''),
     (T_INT, ''int''),
     (T_UINT, ''uint''),
     (T_VOID, ''void''),
     (T_FLOAT, ''float''),
     (T_STRING, ''string''),
     (T_AUTO, ''auto''),
     (T_TRUE, ''true''),
     (T_FALSE, ''false''),
     (T_IDENTIFIER, ''identifier''),
     (T_STRING_LITERAL, ''string_literal''),
     (T_INTEGER_LITERAL, ''integer_literal''),
     (T_FLOAT_LITERAL, ''float_literal''),
     (T_IS, ''is''),
     (T_THROW, ''throw''),
     (T_THROWS, ''throws''),
     (T_TRY, ''try''),
     (T_REQUIRE, ''require''),
     (T_ENSURE, ''ensure''),
     (T_END_OF_FILE, ''EOF'')]"

definition tokenTypeToString :: "token_type \<Rightarrow> string" where
  "tokenTypeToString ty = (case map_of token_string_table ty of None \<Rightarrow> ''?'' | Some s \<Rightarrow> s)"

definition operator_human_table :: "(token_type \<times> string) list" where
  "operator_human_table = [
     (T_PLUS, ''+ (Addition)''),
     (T_MINUS, ''- (Subtraction)''),
     (T_STAR, ''* (Multiplication)''),
     (T_SLASH, ''/ (Division)''),
     (T_PERCENT, ''% (Modulo)''),
     (T_EQUAL_EQUAL, ''== (Equality)''),
     (T_BANG_EQUAL, ''!= (Inequality)''),
     (T_LESS, ''< (Less Than)''),
     (T_LESS_EQUAL, ''<= (Less Than or Equal)''),
     (T_GREATER, ''> (Greater Than)''),
     (T_GREATER_EQUAL, ''>= (Greater Than or Equal)''),
     (T_AMPERSAND, ''& (Bitwise AND)''),
     (T_PIPE, ''| (Bitwise OR)''),
     (T_CARET, ''^ (Bitwise XOR)''),
     (T_LESS_LESS, ''<< (Left Shift)''),
     (T_GREATER_GREATER, ''>> (Right Shift)''),
     (T_AND_AND, ''&& (Logical AND)''),
     (T_OR_OR, ''|| (Logical OR)'')]"

definition operatorTypeToHumanString :: "token_type \<Rightarrow> string" where
  "operatorTypeToHumanString ty =
     (case map_of operator_human_table ty of None \<Rightarrow> ''invalid'' | Some s \<Rightarrow> s)"

definition token_human_table :: "(token_type \<times> string) list" where
  "token_human_table = [
     (T_PLUS, ''Plus(+)''),
     (T_MINUS, ''Minus(-)''),
     (T_PLUS_PLUS, ''Increment(++)''),
     (T_MINUS_MINUS, ''Decrement(--)''),
     (T_STAR, ''Star(*)''),
     (T_SLASH, ''Slash(/)''),
     (T_PERCENT, ''Modulo(%)''),
     (T_EQUAL_EQUAL, ''Equal(==)''),
     (T_BANG_EQUAL, ''NotEqual(!=)''),
     (T_LESS, ''LessThan(<)''),
     (T_LESS_EQUAL, ''LessOrEqual(<=)''),
     (T_GREATER, ''GreaterThan(>)''),
     (T_GREATER_EQUAL, ''GreaterOrEqual(>=)''),
     (T_BANG, ''Not(!)''),
     (T_AND_AND, ''LogicalAnd(&&)''),
     (T_OR_OR, ''LogicalOr(||)''),
     (T_AMPERSAND, ''BitwiseAnd(&)''),
     (T_PIPE, ''BitwiseOr(|)''),
     (T_CARET, ''BitwiseXor(^)''),
     (T_TILDE, ''BitwiseNot(~)''),
     (T_LESS_LESS, ''LeftShift(<<)''),
     (T_GREATER_GREATER, ''RightShift(>>)''),
     (T_EQUAL, ''Assign(=)''),
     (T_PLUS_EQUAL, ''PlusAssign(+=)''),
     (T_MINUS_EQUAL, ''MinusAssign(-=)''),
     (T_STAR_EQUAL, ''StarAssign(*=)''),
     (T_SLASH_EQUAL, ''SlashAssign(/=)''),
     (T_PERCENT_EQUAL, ''ModuloAssign(%=)''),
     (T_AMPERSAND_EQUAL, ''AndAssign(&=)''),
     (T_PIPE_EQUAL, ''OrAssign(|=)''),
     (T_CARET_EQUAL, ''XorAssign(^=)''),
     (T_LESS_LESS_EQUAL, ''LeftShiftAssign(<<=)''),
     (T_GREATER_GREATER_EQUAL, ''RightShiftAssign(>>=)''),
     (T_ARROW, ''Arrow(=>)''),
     (T_THIN_ARROW, ''ThinArrow(->)''),
     (T_DOT, ''Dot(.)''),
     (T_DOT_DOT, ''Range(..)''),
     (T_DOT_DOT_EQUAL, ''RangeInclusive(..=)''),
     (T_DOT_DOT_DOT, ''Variadics(...)''),
     (T_COLON, ''Colon(:)''),
     (T_COLON_COLON, ''Scope(::)'')]"

definition tokenTypeToHumanString :: "token_type \<Rightarrow> string" where
  "tokenTypeToHumanString ty =
     (case map_of token_human_table ty of None \<Rightarrow> tokenTypeToString ty | Some s \<Rightarrow> s)"

lemma printed_symbols:
  "list_all (\<lambda>(s, ty). tokenTypeToString ty = s \<or> tokenTypeToString ty = ''?'') symbol_table"
  by code_simp

lemma keywords_distinct: "distinct (map fst keyword_table)"
  by (simp add: keyword_table_def)

lemma classify_keyword: "(w, ty) \<in> set keyword_table \<Longrightarrow> classify_word w = ty"
  by (simp add: classify_word_def map_of_is_SomeI [OF keywords_distinct])

lemma keyword_words: "(w, ty) \<in> set keyword_table \<Longrightarrow> lexeme_ok (Word w)"
proof -
  have "\<forall>(w, ty) \<in> set keyword_table. lexeme_ok (Word w)"
    by (simp add: keyword_table_def ident_char_def char_class_defs)
  then show "(w, ty) \<in> set keyword_table \<Longrightarrow> lexeme_ok (Word w)" by auto
qed

lemma printed_keywords_table:
  "list_all (\<lambda>(w, ty). tokenTypeToString ty = w \<or> tokenTypeToString ty = ''?''
     \<or> (w, ty) = (''var'', T_AUTO) \<or> (w, ty) = (''union'', T_ENUM)) keyword_table"
  by code_simp

lemma printed_keywords:
  assumes "(w, ty) \<in> set keyword_table" "tokenTypeToString ty \<noteq> ''?''"
  shows "(tokenTypeToString ty, ty) \<in> set keyword_table"
proof -
  have "(''auto'', T_AUTO) \<in> set keyword_table" "(''enum'', T_ENUM) \<in> set keyword_table"
    by (simp_all add: keyword_table_def)
  moreover have "tokenTypeToString T_AUTO = ''auto''" "tokenTypeToString T_ENUM = ''enum''"
    by (simp_all add: tokenTypeToString_def token_string_table_def)
  moreover have "tokenTypeToString ty = w \<or> tokenTypeToString ty = ''?''
     \<or> (w, ty) = (''var'', T_AUTO) \<or> (w, ty) = (''union'', T_ENUM)"
    using printed_keywords_table assms(1) by (auto simp: list_all_iff)
  ultimately show ?thesis using assms by auto
qed

lemma scan_one:
  assumes "lexeme_ok l" "lexeme_text l = s" "lexeme_type l = ty"
  shows "\<exists>t e. tokenize (Lexer (s @ '' '') fid) = Inr [t, e] \<and> t_type t = ty \<and> t_type e = T_END_OF_FILE"
proof -
  have "well_written [(l, '' '')]" using assms(1) by (simp add: well_written_def is_space_def)
  then obtain ts where "tokenize (Lexer (s @ '' '') fid) = Inr ts"
    "map (\<lambda>t. (t_type t, t_value t)) ts = [(ty, lexeme_value l), (T_END_OF_FILE, [])]"
    using tokenize_written [of "[(l, '' '')]" "[]" fid] assms by auto
  then show ?thesis by auto
qed

text \<open>The printed form of an operator or a keyword scans back to it: for every token type the
  scanner's switch or its keyword table can produce and tokenTypeToString names, the text
  tokenTypeToString gives, followed by a blank, scans to a single token of that type.\<close>

theorem printed_token_scans:
  assumes "ty \<in> snd ` set symbol_table \<or> ty \<in> snd ` set keyword_table"
    and "tokenTypeToString ty \<noteq> ''?''"
  shows "\<exists>t e. tokenize (Lexer (tokenTypeToString ty @ '' '') fid) = Inr [t, e]
    \<and> t_type t = ty \<and> t_type e = T_END_OF_FILE"
  using assms(1)
proof
  assume "ty \<in> snd ` set symbol_table"
  then have "lexeme_ok (Symbol (tokenTypeToString ty) ty)" using printed_symbols assms(2) by (force simp: list_all_iff)
  then show ?thesis by (rule scan_one) simp_all
next
  assume "ty \<in> snd ` set keyword_table"
  then have "lexeme_ok (Word (tokenTypeToString ty))" "classify_word (tokenTypeToString ty) = ty"
    using printed_keywords [OF _ assms(2)] keyword_words classify_keyword by force+
  then show ?thesis by (intro scan_one [of "Word (tokenTypeToString ty)"]) simp_all
qed

theorem printed_token_scans_witness:
  "\<exists>t e. tokenize (Lexer ''>>= '' ''m'') = Inr [t, e] \<and> t_type t = T_GREATER_GREATER_EQUAL
    \<and> t_type e = T_END_OF_FILE"
proof -
  have "tokenTypeToString T_GREATER_GREATER_EQUAL = ''>>=''" by code_simp
  moreover have "T_GREATER_GREATER_EQUAL \<in> snd ` set symbol_table" by (simp add: symbol_table_def)
  ultimately show ?thesis
    using printed_token_scans [of T_GREATER_GREATER_EQUAL "''m''"] by simp
qed

text \<open>The two human forms agree with the printed form: they name the operator and spell it.\<close>

fun starts_with :: "string \<Rightarrow> string \<Rightarrow> bool" where
  "starts_with [] ys \<longleftrightarrow> True"
| "starts_with (x # xs) [] \<longleftrightarrow> False"
| "starts_with (x # xs) (y # ys) \<longleftrightarrow> x = y \<and> starts_with xs ys"

lemma starts_with_prefix: "starts_with xs ys \<longleftrightarrow> prefix xs ys"
  by (induction xs ys rule: starts_with.induct) auto

lemma human_forms_spell:
  "list_all (\<lambda>(ty, s). starts_with (rev (''('' @ tokenTypeToString ty @ '')'')) (rev s)) token_human_table"
  "list_all (\<lambda>(ty, s). starts_with (tokenTypeToString ty @ '' ('') s) operator_human_table"
  by code_simp+

text \<open>The diagnostics spell operators as the language does: whenever one of the human forms
  names a token type, it carries the printed form of that type, at the start for an operator
  (followed by its name in parentheses) and in parentheses at the end for a token.\<close>

theorem human_forms_agree:
  "(operatorTypeToHumanString ty = ''invalid'' \<or>
      prefix (tokenTypeToString ty @ '' ('') (operatorTypeToHumanString ty))
   \<and> (tokenTypeToHumanString ty = tokenTypeToString ty \<or>
      suffix (''('' @ tokenTypeToString ty @ '')'') (tokenTypeToHumanString ty))"
  using human_forms_spell
  by (auto simp: starts_with_prefix suffix_to_prefix operatorTypeToHumanString_def tokenTypeToHumanString_def list_all_iff
      split: option.splits dest!: map_of_SomeD)

end
