(* ===== verification/Types.thy ===== *)
theory Types
  imports Tokens
begin

text \<open>
  The types of the language, \<^verbatim>\<open>parser/ast/Type.h\<close>, and the substitution of generic
  parameters, \<^verbatim>\<open>parser/ast/Generic.h\<close>. A \<^verbatim>\<open>Type\<close> is a tree: the scalar fields are a record,
  the element type (an owning pointer that may be null) an option and the generic arguments a
  list. Source locations, which no operation here reads, are left out. \<^verbatim>\<open>size_t\<close> sizes are
  naturals; \<^verbatim>\<open>std::stol\<close> raises past the range of a 64-bit \<^verbatim>\<open>long\<close>, and the target is a
  64-bit one (\<^verbatim>\<open>sizeof(void*)\<close> is 8).
\<close>

section \<open>Overflow modes and integer type names\<close>

datatype overflow_mode = OM_None | OM_Wrapped | OM_Trapped | OM_Checked | OM_Saturating

definition overflow_mode_suffix :: "overflow_mode \<Rightarrow> string" where
  "overflow_mode_suffix mode =
     (case mode of OM_Wrapped \<Rightarrow> ''w'' | OM_Trapped \<Rightarrow> ''t'' | OM_Checked \<Rightarrow> ''c''
      | OM_Saturating \<Rightarrow> ''s'' | OM_None \<Rightarrow> [])"

definition native_int_bits :: nat where
  "native_int_bits = 64"

record integer_type_name =
  itn_bits :: nat
  itn_sign :: bool
  itn_mode :: overflow_mode
  itn_native :: bool
  itn_nonZero :: bool

definition modeFromChar :: "char \<Rightarrow> overflow_mode option" where
  "modeFromChar c =
     (if c = CHR ''w'' then Some OM_Wrapped
      else if c = CHR ''t'' then Some OM_Trapped
      else if c = CHR ''c'' then Some OM_Checked
      else if c = CHR ''s'' then Some OM_Saturating
      else None)"

text \<open>The loop that strips at most two suffix characters from the back of the digits.\<close>

fun strip_suffixes :: "nat \<Rightarrow> string \<Rightarrow> overflow_mode \<Rightarrow> bool \<Rightarrow> string \<times> overflow_mode \<times> bool" where
  "strip_suffixes 0 digits mode nonZero = (digits, mode, nonZero)"
| "strip_suffixes (Suc k) digits mode nonZero =
     (if digits = [] then (digits, mode, nonZero)
      else if last digits = CHR ''n'' \<and> \<not> nonZero
      then strip_suffixes k (butlast digits) mode True
      else (case modeFromChar (last digits) of
              Some m \<Rightarrow> if mode = OM_None then strip_suffixes k (butlast digits) m nonZero
                        else (digits, mode, nonZero)
            | None \<Rightarrow> (digits, mode, nonZero)))"

datatype type_error = StolOutOfRange | InvalidFloatSize

definition stol_digits :: "string \<Rightarrow> type_error + nat" where
  "stol_digits digits =
     (if decimal_value digits \<le> 9223372036854775807 then Inr (decimal_value digits)
      else Inl StolOutOfRange)"

definition parse_integer_type_name :: "string \<Rightarrow> type_error + integer_type_name option" where
  "parse_integer_type_name name =
     (if name = ''nint'' then
        Inr (Some \<lparr>itn_bits = native_int_bits, itn_sign = True, itn_mode = OM_None,
                   itn_native = True, itn_nonZero = False\<rparr>)
      else if length name = 5 \<and> take 4 name = ''nint'' \<and> modeFromChar (name ! 4) \<noteq> None then
        Inr (Some \<lparr>itn_bits = native_int_bits, itn_sign = True,
                   itn_mode = the (modeFromChar (name ! 4)), itn_native = True, itn_nonZero = False\<rparr>)
      else if name = ''isize'' then
        Inr (Some \<lparr>itn_bits = 32, itn_sign = True, itn_mode = OM_None,
                   itn_native = False, itn_nonZero = False\<rparr>)
      else if name = ''usize'' then
        Inr (Some \<lparr>itn_bits = 32, itn_sign = False, itn_mode = OM_None,
                   itn_native = False, itn_nonZero = False\<rparr>)
      else if length name < 2 then Inr None
      else if hd name \<noteq> CHR ''i'' \<and> hd name \<noteq> CHR ''u'' then Inr None
      else (let (digits, mode, nonZero) = strip_suffixes 2 (tl name) OM_None False in
            if digits = [] \<or> \<not> list_all isdigit digits then Inr None
            else (case stol_digits digits of
                    Inl e \<Rightarrow> Inl e
                  | Inr bits \<Rightarrow>
                      Inr (Some \<lparr>itn_bits = bits, itn_sign = (hd name = CHR ''i''), itn_mode = mode,
                                 itn_native = False, itn_nonZero = nonZero\<rparr>))))"

section \<open>Types\<close>

datatype type_kind = TK_INTEGER | TK_VOID | TK_F16 | TK_F32 | TK_F64 | TK_F128 | TK_STRUCT
  | TK_AUTO | TK_ARRAY | TK_POINTER

record type_attrs =
  ty_size :: nat
  ty_kind :: type_kind
  ty_sign :: bool
  nullable :: bool
  readOnly :: bool
  isTransparent :: bool
  native :: bool
  overflowMode :: overflow_mode
  nonZero :: bool
  structName :: string

datatype type_t = Type (attrs: type_attrs) (elementType: "type_t option") (genericArgs: "type_t list")

abbreviation "kind t \<equiv> ty_kind (attrs t)"

text \<open>The constructors and the factory functions.\<close>

definition new_attrs :: "type_kind \<Rightarrow> nat \<Rightarrow> bool \<Rightarrow> type_attrs" where
  "new_attrs k sz sg =
     \<lparr>ty_size = sz, ty_kind = k, ty_sign = sg, nullable = False, readOnly = False,
      isTransparent = False, native = False, overflowMode = OM_None, nonZero = False,
      structName = []\<rparr>"

definition new_type :: "type_kind \<Rightarrow> nat \<Rightarrow> bool \<Rightarrow> type_t" where
  "new_type k sz sg = Type (new_attrs k sz sg) None []"

definition struct_type :: "string \<Rightarrow> type_t" where
  "struct_type name = Type ((new_attrs TK_STRUCT 0 False)\<lparr>structName := name\<rparr>) None []"

definition generic_struct_type :: "string \<Rightarrow> type_t list \<Rightarrow> type_t" where
  "generic_struct_type name args = Type ((new_attrs TK_STRUCT 0 False)\<lparr>structName := name\<rparr>) None args"

definition hasGenericArgs :: "type_t \<Rightarrow> bool" where
  "hasGenericArgs t = (genericArgs t \<noteq> [])"

definition auto_type :: type_t where
  "auto_type = new_type TK_AUTO 0 False"

definition floating :: "nat \<Rightarrow> type_error + type_t" where
  "floating sz =
     (if sz = 16 then Inr (new_type TK_F16 16 True)
      else if sz = 32 then Inr (new_type TK_F32 32 True)
      else if sz = 64 then Inr (new_type TK_F64 64 True)
      else if sz = 128 then Inr (new_type TK_F128 128 True)
      else Inl InvalidFloatSize)"

definition voided :: type_t where
  "voided = new_type TK_VOID 0 False"

definition array_type :: "type_t \<Rightarrow> type_t" where
  "array_type elemType = Type (new_attrs TK_ARRAY 0 False) (Some elemType) []"

definition pointer_type :: "type_t \<Rightarrow> type_t" where
  "pointer_type pointeeType = Type (new_attrs TK_POINTER 0 False) (Some pointeeType) []"

definition integer_type :: "nat \<Rightarrow> bool \<Rightarrow> overflow_mode \<Rightarrow> type_t" where
  "integer_type bits sg mode = Type ((new_attrs TK_INTEGER bits sg)\<lparr>overflowMode := mode\<rparr>) None []"

definition native_integer :: type_t where
  "native_integer = Type ((new_attrs TK_INTEGER native_int_bits True)\<lparr>native := True\<rparr>) None []"

definition native_floating :: "nat \<Rightarrow> type_error + type_t" where
  "native_floating sz =
     (case floating sz of
        Inl e \<Rightarrow> Inl e
      | Inr t \<Rightarrow> Inr (Type ((attrs t)\<lparr>native := True\<rparr>) (elementType t) (genericArgs t)))"

text \<open>
  The copy constructor (copy assignment copies the same fields): all but \<^verbatim>\<open>readOnly\<close>, which
  falls back to its initial value.
\<close>

primrec copy_type :: "type_t \<Rightarrow> type_t" where
  "copy_type (Type a el args) =
     Type (a\<lparr>readOnly := False\<rparr>) (map_option copy_type el) (map copy_type args)"

text \<open>\<^verbatim>\<open>operator==\<close>; the arguments of two generic types are compared element by element.\<close>

fun type_eq :: "type_t \<Rightarrow> type_t \<Rightarrow> bool" and types_eq :: "type_t list \<Rightarrow> type_t list \<Rightarrow> bool" where
  "type_eq (Type a el args) (Type b el' args') \<longleftrightarrow>
     ty_size a = ty_size b \<and> ty_kind a = ty_kind b \<and> ty_sign a = ty_sign b
     \<and> nullable a = nullable b \<and> readOnly a = readOnly b \<and> nonZero a = nonZero b
     \<and> structName a = structName b
     \<and> (case (el, el') of
          (Some x, Some y) \<Rightarrow> type_eq x y
        | (None, None) \<Rightarrow> True
        | _ \<Rightarrow> False)
     \<and> types_eq args args'"
| "types_eq [] [] \<longleftrightarrow> True"
| "types_eq (x # xs) (y # ys) \<longleftrightarrow> type_eq x y \<and> types_eq xs ys"
| "types_eq [] (y # ys) \<longleftrightarrow> False"
| "types_eq (x # xs) [] \<longleftrightarrow> False"

section \<open>Text\<close>

definition kindToString :: "type_kind \<Rightarrow> string" where
  "kindToString k =
     (case k of TK_INTEGER \<Rightarrow> ''INTEGER'' | TK_VOID \<Rightarrow> ''VOID'' | TK_F16 \<Rightarrow> ''F16''
      | TK_F32 \<Rightarrow> ''F32'' | TK_F64 \<Rightarrow> ''F64'' | TK_F128 \<Rightarrow> ''F128'' | TK_STRUCT \<Rightarrow> ''STRUCT''
      | TK_AUTO \<Rightarrow> ''AUTO'' | TK_ARRAY \<Rightarrow> ''ARRAY'' | TK_POINTER \<Rightarrow> ''POINTER'')"

fun separated :: "string \<Rightarrow> string list \<Rightarrow> string" where
  "separated s [] = []"
| "separated s [x] = x"
| "separated s (x # y # ys) = x @ s @ separated s (y # ys)"

primrec toHumanString :: "type_t \<Rightarrow> string" where
  "toHumanString (Type a el args) =
     (case ty_kind a of
        TK_INTEGER \<Rightarrow>
          if native a then ''nint''
          else (if ty_sign a then ''i'' else ''u'') @ to_string (ty_size a)
               @ (if nonZero a then ''n'' else []) @ overflow_mode_suffix (overflowMode a)
      | TK_F16 \<Rightarrow> ''f16''
      | TK_F32 \<Rightarrow> if native a then ''nfloat'' else ''f32''
      | TK_F64 \<Rightarrow> if native a then ''ndouble'' else ''f64''
      | TK_F128 \<Rightarrow> ''f128''
      | TK_VOID \<Rightarrow> ''void''
      | TK_AUTO \<Rightarrow> ''auto''
      | TK_POINTER \<Rightarrow> (case map_option toHumanString el of Some s \<Rightarrow> s | None \<Rightarrow> ''void'') @ ''*''
      | TK_ARRAY \<Rightarrow> (case map_option toHumanString el of Some s \<Rightarrow> s | None \<Rightarrow> ''void'') @ ''[]''
      | TK_STRUCT \<Rightarrow>
          structName a @
          (if args = [] then [] else ''<'' @ separated '', '' (map toHumanString args) @ ''>''))"

text \<open>\<^verbatim>\<open>print\<close> with indentation 0, which is how every node prints its types.\<close>

primrec print_type :: "type_t \<Rightarrow> string" where
  "print_type (Type a el args) =
     ''Type('' @ kindToString (ty_kind a) @
     (if ty_kind a = TK_STRUCT \<and> structName a \<noteq> [] then
        ''<'' @ structName a @
        (if args = [] then [] else ''<'' @ separated '', '' (map print_type args) @ ''>'') @ ''>''
      else if (ty_kind a = TK_ARRAY \<or> ty_kind a = TK_POINTER) \<and> el \<noteq> None then
        ''<'' @ (case map_option print_type el of Some s \<Rightarrow> s | None \<Rightarrow> []) @ ''>''
      else if 0 < ty_size a then '', '' @ to_string (ty_size a)
      else []) @
     (if 0 < ty_size a then '', '' @ (if ty_sign a then ''signed'' else ''unsigned'') else []) @ '')''"

definition fromToken :: "string \<Rightarrow> type_error + type_t" where
  "fromToken value =
     (case parse_integer_type_name value of
        Inl e \<Rightarrow> Inl e
      | Inr (Some n) \<Rightarrow>
          (let t = (if itn_native n then native_integer else new_type TK_INTEGER (itn_bits n) (itn_sign n))
           in Inr (Type ((attrs t)\<lparr>overflowMode := itn_mode n, nonZero := itn_nonZero n\<rparr>)
                     (elementType t) (genericArgs t)))
      | Inr None \<Rightarrow>
          if value = ''nfloat'' then native_floating 32
          else if value = ''ndouble'' then native_floating 64
          else if value = ''f16'' then Inr (new_type TK_F16 16 True)
          else if value = ''f32'' then Inr (new_type TK_F32 32 True)
          else if value = ''f64'' then Inr (new_type TK_F64 64 True)
          else if value = ''f128'' then Inr (new_type TK_F128 128 True)
          else if value = ''void'' then Inr (new_type TK_VOID 0 False)
          else if value = ''auto'' \<or> value = ''var'' then Inr (new_type TK_AUTO 0 False)
          else Inr (new_type TK_VOID 0 False))"

section \<open>Generic parameters\<close>

record generic_param =
  gp_name :: string
  gp_constraints :: "string list"
  gp_default :: "type_t option"

definition find_param :: "generic_param list \<Rightarrow> string \<Rightarrow> generic_param option" where
  "find_param ps name = find (\<lambda>p. gp_name p = name) ps"

type_synonym substitutions = "string \<rightharpoonup> type_t"

text \<open>\<^verbatim>\<open>substitutions[param] = type\<close> copies the type.\<close>

definition bind_param :: "substitutions \<Rightarrow> string \<Rightarrow> type_t \<Rightarrow> substitutions" where
  "bind_param ctx param t = ctx(param \<mapsto> copy_type t)"

definition resolve :: "substitutions \<Rightarrow> string \<Rightarrow> type_t option" where
  "resolve ctx param = ctx param"

text \<open>
  \<^verbatim>\<open>substitute\<close>: the result starts as a copy of the type, whose children are then replaced.
\<close>

primrec substitute :: "substitutions \<Rightarrow> type_t \<Rightarrow> type_t" where
  "substitute ctx (Type a el args) =
     (case if ty_kind a = TK_STRUCT then resolve ctx (structName a) else None of
        Some t \<Rightarrow> copy_type t
      | None \<Rightarrow> Type (a\<lparr>readOnly := False\<rparr>) (map_option (substitute ctx) el) (map (substitute ctx) args))"

fun create_from :: "nat \<Rightarrow> generic_param list \<Rightarrow> type_t list \<Rightarrow> substitutions \<Rightarrow> substitutions" where
  "create_from i [] args ctx = ctx"
| "create_from i (p # ps) args ctx =
     create_from (Suc i) ps args
       (if i < length args then bind_param ctx (gp_name p) (args ! i)
        else (case gp_default p of Some t \<Rightarrow> bind_param ctx (gp_name p) t | None \<Rightarrow> ctx))"

definition create_context :: "generic_param list \<Rightarrow> type_t list \<Rightarrow> substitutions" where
  "create_context ps args = create_from 0 ps args Map.empty"

end
