(* ===== verification/Types_Correct.thy ===== *)
theory Types_Correct
  imports Types
begin

text \<open>
  Laws of the types: equality compares everything but three marks (the transparency of an
  alias, the native width, the overflow mode) and is an equivalence, copying keeps a type exactly when nothing in it is read-only, a built-in type
  printed for a human reads back as an equal type, and substitution of generic parameters.
\<close>

section \<open>Equality and copies\<close>

lemma types_eq_all2: "types_eq xs ys \<longleftrightarrow> list_all2 type_eq xs ys"
  by (induction xs ys rule: list_induct2') auto

lemma type_eq_iff:
  "type_eq (Type a el args) (Type b el' args') \<longleftrightarrow>
     ty_size a = ty_size b \<and> ty_kind a = ty_kind b \<and> ty_sign a = ty_sign b
     \<and> nullable a = nullable b \<and> readOnly a = readOnly b \<and> nonZero a = nonZero b
     \<and> structName a = structName b
     \<and> rel_option type_eq el el' \<and> list_all2 type_eq args args'"
  by (auto simp: types_eq_all2 split: option.splits)

declare type_eq.simps [simp del]

lemma type_eq_refl [simp]: "type_eq t t"
proof (induction t)
  case (Type a el args)
  then show ?case
    by (cases el) (auto simp: type_eq_iff list_all2_conv_all_nth)
qed

lemma type_eq_sym: "type_eq s t \<Longrightarrow> type_eq t s"
proof (induction s arbitrary: t)
  case (Type a el args)
  obtain b el' args' where t: "t = Type b el' args'" by (cases t)
  show ?case
    using Type unfolding t type_eq_iff
    by (cases el; cases el') (auto simp: list_all2_conv_all_nth)
qed

lemma type_eq_trans: "type_eq s t \<Longrightarrow> type_eq t u \<Longrightarrow> type_eq s u"
proof (induction s arbitrary: t u)
  case (Type a el args)
  obtain b el' args' c el'' args'' where t: "t = Type b el' args'" "u = Type c el'' args''"
    by (cases t; cases u)
  have st: "type_eq (Type a el args) (Type b el' args')" "type_eq (Type b el' args') (Type c el'' args'')"
    using Type.prems t by simp_all
  have "rel_option type_eq el el''"
  proof -
    have "rel_option type_eq el el'" "rel_option type_eq el' el''" using st by (simp_all add: type_eq_iff)
    then show ?thesis
    proof (cases el)
      case (Some x)
      then obtain y z where "el' = Some y" "el'' = Some z" "type_eq x y" "type_eq y z"
        using \<open>rel_option type_eq el el'\<close> \<open>rel_option type_eq el' el''\<close>
        by (auto simp: option_rel_Some1)
      then show ?thesis using Type.IH(1) [of x y z] Some by simp
    qed (use \<open>rel_option type_eq el el'\<close> \<open>rel_option type_eq el' el''\<close> in auto)
  qed
  moreover have "list_all2 type_eq args args''"
  proof -
    have "length args = length args''" "\<forall>i < length args. type_eq (args ! i) (args' ! i)"
      "\<forall>i < length args. type_eq (args' ! i) (args'' ! i)"
      using st by (simp_all add: type_eq_iff list_all2_conv_all_nth)
    then show ?thesis unfolding list_all2_conv_all_nth
      by (blast intro: Type.IH(2) nth_mem)
  qed
  ultimately show ?case using st unfolding t type_eq_iff by simp
qed

text \<open>Equality of types is an equivalence relation at every depth of element types and arguments.\<close>

theorem type_eq_equivalence: "equivp type_eq"
  by (intro equivpI reflpI sympI transpI) (auto intro: type_eq_sym type_eq_trans)

text \<open>A type without the three marks that equality does not compare, at any depth.\<close>

primrec unmarked :: "type_t \<Rightarrow> type_t" where
  "unmarked (Type a el args) =
     Type (a\<lparr>isTransparent := False, native := False, overflowMode := OM_None\<rparr>)
       (map_option unmarked el) (map unmarked args)"

lemma attrs_unmarked:
  "(a :: type_attrs)\<lparr>isTransparent := False, native := False, overflowMode := OM_None\<rparr>
     = b\<lparr>isTransparent := False, native := False, overflowMode := OM_None\<rparr>
   \<longleftrightarrow> ty_size a = ty_size b \<and> ty_kind a = ty_kind b \<and> ty_sign a = ty_sign b
     \<and> nullable a = nullable b \<and> readOnly a = readOnly b \<and> nonZero a = nonZero b
     \<and> structName a = structName b"
  by (cases a; cases b) auto

lemma type_eq_unmarked: "type_eq s t \<longleftrightarrow> unmarked s = unmarked t"
proof (induction s arbitrary: t)
  case (Type a el args)
  obtain b el' args' where t: "t = Type b el' args'" by (cases t)
  have "rel_option type_eq el el' \<longleftrightarrow> map_option unmarked el = map_option unmarked el'"
    using Type.IH(1) by (cases el; cases el') auto
  moreover have "list_all2 type_eq args args' \<longleftrightarrow> map unmarked args = map unmarked args'"
    using Type.IH(2) by (auto simp: list_all2_conv_all_nth list_eq_iff_nth_eq)
  ultimately show ?case
    unfolding t type_eq_iff unmarked.simps type_t.inject attrs_unmarked by blast
qed

text \<open>The types with no read-only mark at any depth.\<close>

primrec no_readOnly :: "type_t \<Rightarrow> bool" where
  "no_readOnly (Type a el args) \<longleftrightarrow>
     \<not> readOnly a \<and> pred_option id (map_option no_readOnly el) \<and> list_all id (map no_readOnly args)"

text \<open>A copy of a type equals the type exactly when nothing in it is read-only: the copy
  constructor and the copy assignment drop the readOnly mark, which equality compares.\<close>

lemma copy_type_eq: "type_eq (copy_type t) t \<longleftrightarrow> no_readOnly t"
proof (induction t)
  case (Type a el args)
  then show ?case
    by (cases el)
      (auto simp: type_eq_iff list_all_iff list.rel_map list_all2_same)
qed

text \<open>C34: Two types are equal exactly when they are the same at every depth of element types and generic
  arguments but for three marks, the transparency of an alias, the native width and the overflow
  mode, which equality does not compare. So a copy of a type equals the type exactly when nothing in
  it is read-only, because copying drops that mark and equality compares it.\<close>

theorem type_eq_exact:
  "(type_eq s t \<longleftrightarrow> unmarked s = unmarked t) \<and> (type_eq (copy_type t) t \<longleftrightarrow> no_readOnly t)"
  by (simp add: type_eq_unmarked [of s t] copy_type_eq)

section \<open>Reading a printed type back\<close>

lemma last_to_string [simp]: "isdigit (last (to_string n))"
  by (meson last_in_set to_string_digits to_string_nonempty)

lemma isdigit_no_suffix: "isdigit c \<Longrightarrow> c \<noteq> CHR ''n'' \<and> modeFromChar c = None"
  by (auto simp: isdigit_def modeFromChar_def)

lemma modeFromChar_suffix:
  "overflow_mode_suffix m = [] \<and> m = OM_None \<or>
   (\<exists>c. overflow_mode_suffix m = [c] \<and> modeFromChar c = Some m \<and> c \<noteq> CHR ''n'')"
  by (cases m) (auto simp: overflow_mode_suffix_def modeFromChar_def)

lemma modeFromChar_n: "modeFromChar (CHR ''n'') = None"
  by (simp add: modeFromChar_def)

lemma strip_digits:
  "strip_suffixes k (to_string n) mode nz = (to_string n, mode, nz)"
  using isdigit_no_suffix [OF last_to_string, of n] by (cases k) auto

lemma strip_step:
  "strip_suffixes (Suc k) (xs @ ''n'') mode False = strip_suffixes k xs mode True"
  "modeFromChar c = Some m \<Longrightarrow> c \<noteq> CHR ''n'' \<Longrightarrow>
     strip_suffixes (Suc k) (xs @ [c]) OM_None nz = strip_suffixes k xs m nz"
  by simp_all

lemma strip_printed:
  "strip_suffixes 2 (to_string n @ (if nz then ''n'' else []) @ overflow_mode_suffix m) OM_None False
     = (to_string n, m, nz)"
proof (cases "overflow_mode_suffix m = []")
  case True
  then have "m = OM_None" using modeFromChar_suffix [of m] by auto
  with True show ?thesis
    by (cases nz) (simp_all only: numeral_2_eq_2 strip_step strip_digits if_True if_False append_Nil2 append_Nil)
next
  case False
  then obtain c where c: "overflow_mode_suffix m = [c]" "modeFromChar c = Some m" "c \<noteq> CHR ''n''"
    using modeFromChar_suffix [of m] by auto
  have "strip_suffixes (Suc (Suc 0)) ((to_string n @ (if nz then ''n'' else [])) @ [c]) OM_None False
      = strip_suffixes (Suc 0) (to_string n @ (if nz then ''n'' else [])) m False"
    by (rule strip_step(2) [OF c(2,3)])
  also have "\<dots> = (to_string n, m, nz)"
    by (cases nz) (simp_all only: strip_step strip_digits if_True if_False append_Nil2)
  finally show ?thesis by (simp only: numeral_2_eq_2 c(1) append_assoc)
qed

lemma hd_to_string_digit: "isdigit (hd (to_string n))"
  by (meson hd_in_set to_string_digits to_string_nonempty)

lemma parse_printed:
  assumes "n \<le> 9223372036854775807"
  shows "parse_integer_type_name
      ((if sg then ''i'' else ''u'') @ to_string n @ (if nz then ''n'' else []) @ overflow_mode_suffix m)
    = Inr (Some \<lparr>itn_bits = n, itn_sign = sg, itn_mode = m, itn_native = False, itn_nonZero = nz\<rparr>)"
proof -
  obtain d ds where d: "to_string n = d # ds" "isdigit d"
    by (metis hd_to_string_digit list.sel(1) neq_Nil_conv to_string_nonempty)
  then have "d \<noteq> CHR ''s''" by (auto simp: isdigit_def)
  then show ?thesis
    using assms strip_printed [of n nz m] d to_string_all_digits [of n] decimal_value_to_string [of n]
    by (cases sg) (simp_all add: parse_integer_type_name_def stol_digits_def Let_def)
qed

text \<open>The built-in types, those \<^verbatim>\<open>fromToken\<close> makes.\<close>

definition builtin_type :: "type_t \<Rightarrow> bool" where
  "builtin_type t \<longleftrightarrow> (\<exists>v. fromToken v = Inr t)"

lemma parse_facts':
  "case parse_integer_type_name v of Inr (Some n) \<Rightarrow>
     (itn_native n \<longrightarrow> \<not> itn_nonZero n) \<and> (\<not> itn_native n \<longrightarrow> itn_bits n \<le> 9223372036854775807)
   | _ \<Rightarrow> True"
  by (simp add: parse_integer_type_name_def stol_digits_def Let_def split: prod.split)

lemma parse_facts:
  "parse_integer_type_name v = Inr (Some n) \<Longrightarrow>
    (itn_native n \<longrightarrow> \<not> itn_nonZero n) \<and> (\<not> itn_native n \<longrightarrow> itn_bits n \<le> 9223372036854775807)"
  using parse_facts' [of v] by simp

lemma fromToken_names:
  "fromToken ''f16'' = Inr (new_type TK_F16 16 True)" "fromToken ''f32'' = Inr (new_type TK_F32 32 True)"
  "fromToken ''f64'' = Inr (new_type TK_F64 64 True)" "fromToken ''f128'' = Inr (new_type TK_F128 128 True)"
  "fromToken ''void'' = Inr (new_type TK_VOID 0 False)" "fromToken ''auto'' = Inr (new_type TK_AUTO 0 False)"
  "fromToken ''nfloat'' = Inr (Type ((new_attrs TK_F32 32 True)\<lparr>native := True\<rparr>) None [])"
  "fromToken ''ndouble'' = Inr (Type ((new_attrs TK_F64 64 True)\<lparr>native := True\<rparr>) None [])"
  "fromToken ''nint'' = Inr (Type ((new_attrs TK_INTEGER 64 True)\<lparr>native := True\<rparr>) None [])"
  by code_simp+

lemma fromToken_cases:
  assumes "fromToken v = Inr t"
  shows "(\<exists>n sg m nz. n \<le> 9223372036854775807 \<and>
            t = Type ((new_attrs TK_INTEGER n sg)\<lparr>overflowMode := m, nonZero := nz\<rparr>) None [])
    \<or> (\<exists>m. t = Type ((new_attrs TK_INTEGER 64 True)\<lparr>native := True, overflowMode := m\<rparr>) None [])
    \<or> t \<in> {new_type TK_F16 16 True, new_type TK_F32 32 True, new_type TK_F64 64 True,
           new_type TK_F128 128 True, new_type TK_VOID 0 False, new_type TK_AUTO 0 False}
    \<or> (\<exists>k sz. (k, sz) \<in> {(TK_F32, 32), (TK_F64, 64)} \<and>
        t = Type ((new_attrs k sz True)\<lparr>native := True\<rparr>) None [])"
proof (cases "parse_integer_type_name v")
  case (Inl e)
  then show ?thesis using assms by (simp add: fromToken_def)
next
  case (Inr r)
  show ?thesis
  proof (cases r)
    case None
    then show ?thesis using assms Inr
      by (auto simp: fromToken_def native_floating_def floating_def new_type_def split: if_splits)
  next
    case (Some n)
    note n = parse_facts [OF Inr [unfolded Some]]
    have "t = Type ((new_attrs TK_INTEGER (itn_bits n) (itn_sign n))
        \<lparr>overflowMode := itn_mode n, nonZero := itn_nonZero n\<rparr>) None []" if "\<not> itn_native n"
      using assms Inr Some that by (simp add: fromToken_def new_type_def Let_def)
    moreover have "t = Type ((new_attrs TK_INTEGER 64 True)\<lparr>native := True, overflowMode := itn_mode n\<rparr>) None []"
      if "itn_native n"
      using assms Inr Some that n
      by (simp add: fromToken_def native_integer_def native_int_bits_def new_attrs_def Let_def)
    ultimately show ?thesis using n by (cases "itn_native n") metis+
  qed
qed

text \<open>What the human form of a type made from a token keeps: all but the overflow mode of a native
  integer.\<close>

definition printed_part :: "type_t \<Rightarrow> type_t" where
  "printed_part t =
     (if kind t = TK_INTEGER \<and> native (attrs t) then Type ((attrs t)\<lparr>overflowMode := OM_None\<rparr>) None [] else t)"

text \<open>C28: A type that was made from a token, that is an integer, float, void or automatic type, prints
  in a form that reads back. If reading a token gives the type t, then reading the human form of t
  gives t itself, except that a native integer comes back without its overflow mode, which its
  human form does not show; in either case the result equals t in the sense of the code, whose
  equality ignores the mode. (Array, pointer and struct types are not made from tokens and not
  covered.)\<close>

theorem fromToken_toHumanString:
  assumes "fromToken v = Inr t"
  shows "fromToken (toHumanString t) = Inr (printed_part t) \<and> type_eq (printed_part t) t"
  using fromToken_cases [OF assms]
proof (elim disjE)
  assume "\<exists>n sg m nz. n \<le> 9223372036854775807 \<and>
     t = Type ((new_attrs TK_INTEGER n sg)\<lparr>overflowMode := m, nonZero := nz\<rparr>) None []"
  then obtain n sg m nz where n: "n \<le> 9223372036854775807"
    and t: "t = Type ((new_attrs TK_INTEGER n sg)\<lparr>overflowMode := m, nonZero := nz\<rparr>) None []" by blast
  have "fromToken (toHumanString t) = Inr t"
    using parse_printed [OF n, of sg nz m]
    by (simp add: fromToken_def t new_attrs_def new_type_def)
  then show ?thesis by (simp add: printed_part_def t new_attrs_def)
next
  assume "\<exists>m. t = Type ((new_attrs TK_INTEGER 64 True)\<lparr>native := True, overflowMode := m\<rparr>) None []"
  then obtain m where t: "t = Type ((new_attrs TK_INTEGER 64 True)\<lparr>native := True, overflowMode := m\<rparr>) None []"
    by blast
  have "toHumanString t = ''nint''" by (simp add: t new_attrs_def)
  then show ?thesis by (simp add: fromToken_names t type_eq_iff printed_part_def new_attrs_def)
next
  assume "t \<in> {new_type TK_F16 16 True, new_type TK_F32 32 True, new_type TK_F64 64 True,
           new_type TK_F128 128 True, new_type TK_VOID 0 False, new_type TK_AUTO 0 False}"
  then have "fromToken (toHumanString t) = Inr t"
    unfolding insert_iff empty_iff
    by (elim disjE FalseE) (simp_all add: new_type_def new_attrs_def fromToken_names
        [unfolded new_type_def new_attrs_def, simplified])
  moreover have "printed_part t = t"
    using \<open>t \<in> _\<close> by (auto simp: printed_part_def new_type_def new_attrs_def)
  ultimately show ?thesis by simp
next
  assume "\<exists>k sz. (k, sz) \<in> {(TK_F32, 32), (TK_F64, 64)} \<and>
        t = Type ((new_attrs k sz True)\<lparr>native := True\<rparr>) None []"
  then have "fromToken (toHumanString t) = Inr t"
    by (auto simp: new_attrs_def fromToken_names [unfolded new_type_def new_attrs_def, simplified])
  moreover have "printed_part t = t"
    using \<open>\<exists>k sz. (k, sz) \<in> _ \<and> _\<close> by (auto simp: printed_part_def new_attrs_def)
  ultimately show ?thesis by simp
qed

lemma fromToken_sample: "fromToken ''u16tn'' = Inr (Type ((new_attrs TK_INTEGER 16 False)
    \<lparr>overflowMode := OM_Trapped, nonZero := True\<rparr>) None [])"
  by (simp add: fromToken_def parse_integer_type_name_def numeral_2_eq_2 modeFromChar_def isdigit_def
      stol_digits_def decimal_value_def digit_val_def new_type_def new_attrs_def)

theorem fromToken_toHumanString_witness:
  "\<exists>t. fromToken ''u16tn'' = Inr t \<and> fromToken (toHumanString t) = Inr t"
  using fromToken_toHumanString [OF fromToken_sample] fromToken_sample by (simp add: printed_part_def new_attrs_def)

text \<open>A user type whose name is an i or a u followed by a number past the range of a long
  makes the reader raise, where it means to answer that the name is not an integer type.\<close>

theorem huge_integer_name_raises:
  "parse_integer_type_name ''i9223372036854775808'' = Inl StolOutOfRange"
  by (simp add: parse_integer_type_name_def numeral_2_eq_2 modeFromChar_def isdigit_def
      stol_digits_def decimal_value_def digit_val_def)

section \<open>Substitution\<close>

text \<open>The struct names a type mentions, which is where a generic parameter can stand.\<close>

primrec mentions :: "type_t \<Rightarrow> string set" where
  "mentions (Type a el args) =
     (if ty_kind a = TK_STRUCT then {structName a} else {})
     \<union> (case map_option mentions el of Some s \<Rightarrow> s | None \<Rightarrow> {}) \<union> \<Union> (set (map mentions args))"

lemma copy_copy [simp]: "copy_type (copy_type t) = copy_type t"
  by (induction t) (simp add: option.map_comp comp_def cong: option.map_cong_simp)

lemma mentions_copy [simp]: "mentions (copy_type t) = mentions t"
  by (induction t) (simp add: option.map_comp comp_def cong: option.map_cong_simp)

lemma substitute_fresh:
  "mentions t \<inter> dom ctx = {} \<Longrightarrow> substitute ctx t = copy_type t"
proof (induction t)
  case (Type a el args)
  have n: "(if ty_kind a = TK_STRUCT then resolve ctx (structName a) else None) = None"
    using Type.prems by (auto simp: resolve_def)
  have "map_option (substitute ctx) el = map_option copy_type el"
    using Type.IH(1) Type.prems by (cases el) auto
  moreover have "map (substitute ctx) args = map copy_type args"
    using Type.IH(2) Type.prems by (auto intro!: map_cong)
  ultimately show ?case by (simp only: substitute.simps n option.case copy_type.simps)
qed

lemma substitute_param:
  "ty_kind a = TK_STRUCT \<Longrightarrow> ctx (structName a) = Some u \<Longrightarrow> substitute ctx (Type a el args) = copy_type u"
  by (simp add: resolve_def)

lemma substitute_other:
  "ty_kind a \<noteq> TK_STRUCT \<or> ctx (structName a) = None \<Longrightarrow> substitute ctx (Type a el args) =
     Type (a\<lparr>readOnly := False\<rparr>) (map_option (substitute ctx) el) (map (substitute ctx) args)"
  by (auto simp: resolve_def)

definition closed_context :: "substitutions \<Rightarrow> bool" where
  "closed_context ctx \<longleftrightarrow> (\<forall>u \<in> ran ctx. mentions u \<inter> dom ctx = {})"

lemma substitute_mentions:
  assumes "closed_context ctx"
  shows "mentions (substitute ctx t) \<inter> dom ctx = {}"
proof (induction t)
  case (Type a el args)
  show ?case
  proof (cases "ty_kind a = TK_STRUCT \<and> ctx (structName a) \<noteq> None")
    case True
    then obtain u where u: "ctx (structName a) = Some u" by blast
    then have "u \<in> ran ctx" by (rule ranI)
    then show ?thesis
      using assms True u by (simp add: substitute_param closed_context_def del: substitute.simps)
  next
    case False
    then have "substitute ctx (Type a el args) =
        Type (a\<lparr>readOnly := False\<rparr>) (map_option (substitute ctx) el) (map (substitute ctx) args)"
      by (intro substitute_other) blast
    moreover have "(if ty_kind a = TK_STRUCT then {structName a} else {}) \<inter> dom ctx = {}"
      using False by auto
    moreover have "(case map_option mentions (map_option (substitute ctx) el) of Some s \<Rightarrow> s | None \<Rightarrow> {})
        \<inter> dom ctx = {}"
      using Type.IH(1) by (cases el) simp_all
    moreover have "\<Union> (set (map mentions (map (substitute ctx) args))) \<inter> dom ctx = {}"
    proof -
      have "\<forall>x \<in> set args. mentions (substitute ctx x) \<inter> dom ctx = {}" using Type.IH(2) by blast
      then show ?thesis by (simp only: set_map) blast
    qed
    ultimately show ?thesis by (simp only: mentions.simps) auto
  qed
qed

text \<open>Substituting generic parameters leaves none of them behind, and doing it again changes
  nothing, provided the types bound to the parameters mention no parameter themselves.\<close>

theorem substitute_complete:
  assumes "closed_context ctx"
  shows "mentions (substitute ctx t) \<inter> dom ctx = {}
    \<and> substitute ctx (substitute ctx t) = copy_type (substitute ctx t)"
  using substitute_mentions [OF assms] substitute_fresh by blast

theorem substitute_complete_witness:
  "mentions (substitute (Map.empty(''T'' \<mapsto> struct_type ''Node'')) (array_type (struct_type ''T'')))
     \<inter> {''T''} = {}"
proof -
  have "closed_context (Map.empty(''T'' \<mapsto> struct_type ''Node''))"
    by (simp add: closed_context_def struct_type_def new_attrs_def)
  then show ?thesis
    using substitute_complete [of "Map.empty(''T'' \<mapsto> struct_type ''Node'')" "array_type (struct_type ''T'')"]
    by simp
qed

definition param_binding :: "generic_param list \<Rightarrow> type_t list \<Rightarrow> nat \<Rightarrow> type_t option" where
  "param_binding ps args i =
     map_option copy_type (if i < length args then Some (args ! i) else gp_default (ps ! i))"

lemma create_from_other:
  "p \<notin> gp_name ` set ps \<Longrightarrow> create_from k ps args ctx p = ctx p"
  by (induction ps arbitrary: k ctx) (auto simp: bind_param_def split: option.splits)

lemma create_from_param:
  assumes "distinct (map gp_name ps)" "i < length ps" "\<forall>p \<in> set ps. ctx (gp_name p) = None"
  shows "create_from k ps args ctx (gp_name (ps ! i)) =
    map_option copy_type (if k + i < length args then Some (args ! (k + i)) else gp_default (ps ! i))"
  using assms
proof (induction ps arbitrary: i k ctx)
  case Nil
  then show ?case by simp
next
  case (Cons p ps)
  let ?ctx = "if k < length args then bind_param ctx (gp_name p) (args ! k)
        else (case gp_default p of Some t \<Rightarrow> bind_param ctx (gp_name p) t | None \<Rightarrow> ctx)"
  show ?case
  proof (cases i)
    case 0
    have "create_from (Suc k) ps args ?ctx (gp_name p) = ?ctx (gp_name p)"
      using Cons.prems(1) by (intro create_from_other) simp
    then show ?thesis using 0 Cons.prems(3)
      by (simp add: bind_param_def split: option.splits)
  next
    case (Suc j)
    have "\<forall>q \<in> set ps. gp_name q \<noteq> gp_name p" using Cons.prems(1) by (auto simp: image_iff)
    then have "\<forall>q \<in> set ps. ?ctx (gp_name q) = None"
      using Cons.prems(3) by (auto simp: bind_param_def split: option.splits)
    then show ?thesis
      using Cons.IH [of j ?ctx "Suc k"] Cons.prems Suc by simp
  qed
qed

text \<open>Instantiating a generic binds every parameter to a copy of its positional argument, a
  parameter past the arguments to a copy of its default, and nothing else.\<close>

theorem create_context_binds:
  assumes "distinct (map gp_name ps)"
  shows "\<forall>name. create_context ps args name =
    (case find (\<lambda>i. gp_name (ps ! i) = name) [0..<length ps] of
       None \<Rightarrow> None | Some i \<Rightarrow> param_binding ps args i)"
proof
  fix name
  show "create_context ps args name =
    (case find (\<lambda>i. gp_name (ps ! i) = name) [0..<length ps] of
       None \<Rightarrow> None | Some i \<Rightarrow> param_binding ps args i)"
  proof (cases "find (\<lambda>i. gp_name (ps ! i) = name) [0..<length ps]")
    case None
    then have "name \<notin> gp_name ` set ps" by (auto simp: find_None_iff in_set_conv_nth)
    then show ?thesis using None by (simp add: create_context_def create_from_other)
  next
    case (Some i)
    then have "i < length ps" "gp_name (ps ! i) = name" by (auto simp: find_Some_iff)
    then show ?thesis
      using Some create_from_param [OF assms, of i Map.empty 0 args]
      by (simp add: create_context_def param_binding_def)
  qed
qed

theorem create_context_binds_witness:
  "create_context [\<lparr>gp_name = ''K'', gp_constraints = [], gp_default = None\<rparr>,
      \<lparr>gp_name = ''V'', gp_constraints = [], gp_default = Some voided\<rparr>] [auto_type] ''V'' = Some voided"
  using create_context_binds [of "[\<lparr>gp_name = ''K'', gp_constraints = [], gp_default = None\<rparr>,
      \<lparr>gp_name = ''V'', gp_constraints = [], gp_default = Some voided\<rparr>]" "[auto_type]"]
  by (simp add: param_binding_def voided_def new_type_def new_attrs_def)

end
