(* ===== verification/Mangler.thy ===== *)
theory Mangler
  imports Types_Correct
begin

text \<open>
  Symbol names, \<^verbatim>\<open>generator/Mangler.h\<close>. The mangled name of a function carries the length of
  its name, the name and one code per parameter type; the theorems say that the codes can be
  told apart, so that two functions share a symbol only if they agree in name and parameter
  types, and that demangling recovers the name.
\<close>

section \<open>Mangling\<close>

definition int_code :: "bool \<Rightarrow> nat \<Rightarrow> string" where
  "int_code sg sz =
     (if sg then
        (if sz = 8 then ''a'' else if sz = 16 then ''s'' else if sz = 32 then ''i''
         else if sz = 64 then ''l'' else if sz = 128 then ''n'' else ''i'')
      else
        (if sz = 8 then ''h'' else if sz = 16 then ''t'' else if sz = 32 then ''j''
         else if sz = 64 then ''m'' else if sz = 128 then ''o'' else ''j''))"

primrec mangle_type :: "type_t \<Rightarrow> string" where
  "mangle_type (Type a el args) =
     (case ty_kind a of
        TK_VOID \<Rightarrow> ''v''
      | TK_INTEGER \<Rightarrow> (if nonZero a then ''N'' else []) @ int_code (ty_sign a) (ty_size a)
      | TK_F16 \<Rightarrow> ''Dh''
      | TK_F32 \<Rightarrow> ''f''
      | TK_F64 \<Rightarrow> ''d''
      | TK_F128 \<Rightarrow> ''g''
      | TK_POINTER \<Rightarrow> ''P'' @ (case map_option mangle_type el of Some s \<Rightarrow> s | None \<Rightarrow> ''v'')
      | TK_ARRAY \<Rightarrow> ''A'' @ (case map_option mangle_type el of Some s \<Rightarrow> s | None \<Rightarrow> ''v'')
      | TK_STRUCT \<Rightarrow> to_string (length (structName a)) @ structName a
      | TK_AUTO \<Rightarrow> ''?'')"

definition mangle_types :: "type_t list \<Rightarrow> string" where
  "mangle_types ps = concat (map mangle_type ps)"

definition mangle_name :: "string \<Rightarrow> string" where
  "mangle_name name = to_string (length name) @ name"

definition mangle_function :: "string \<Rightarrow> string" where
  "mangle_function name = ''_Z'' @ mangle_name name"

definition mangle_function_params :: "string \<Rightarrow> type_t list \<Rightarrow> string" where
  "mangle_function_params name params = ''_Z'' @ mangle_name name @ mangle_types params"

definition mangle_method :: "string \<Rightarrow> string \<Rightarrow> string" where
  "mangle_method sname mname = ''_ZN'' @ mangle_name sname @ mangle_name mname @ ''E''"

definition mangle_method_params :: "string \<Rightarrow> string \<Rightarrow> type_t list \<Rightarrow> string" where
  "mangle_method_params sname mname params =
     ''_ZN'' @ mangle_name sname @ mangle_name mname @ ''E'' @ mangle_types params"

definition mangle_generic_struct :: "string \<Rightarrow> type_t list \<Rightarrow> string" where
  "mangle_generic_struct name typeArgs = ''_ZN'' @ mangle_name name @ ''I'' @ mangle_types typeArgs @ ''E''"

definition mangle_generic_enum :: "string \<Rightarrow> type_t list \<Rightarrow> string" where
  "mangle_generic_enum name typeArgs = ''_ZE'' @ mangle_name name @ ''I'' @ mangle_types typeArgs @ ''E''"

definition mangle_generic_method :: "string \<Rightarrow> type_t list \<Rightarrow> string \<Rightarrow> type_t list \<Rightarrow> string" where
  "mangle_generic_method sname typeArgs mname params =
     ''_ZN'' @ mangle_name sname @ ''I'' @ mangle_types typeArgs @ ''E'' @ mangle_name mname @ ''E''
     @ mangle_types params"

section \<open>Demangling\<close>

text \<open>
  The loops of \<^verbatim>\<open>demangle\<close> walk an index over the string; here they walk the rest of it. The
  length accumulates in a \<^verbatim>\<open>size_t\<close>.
\<close>

definition length_value :: "string \<Rightarrow> nat" where
  "length_value ds = decimal_value ds mod 18446744073709551616"

function demangle_nested :: "string \<Rightarrow> string \<Rightarrow> string" where
  "demangle_nested cs result =
     (if cs = [] \<or> hd cs = CHR ''E'' then result
      else if isdigit (hd cs) then
        (let len = length_value (takeWhile isdigit cs); r = dropWhile isdigit cs
         in demangle_nested (drop len r) ((if result = [] then [] else result @ ''::'') @ take len r))
      else if hd cs = CHR ''I'' then
        demangle_nested (tl (dropWhile (\<lambda>c. c \<noteq> CHR ''E'') (tl cs))) (result @ ''<'' @ ''...>'')
      else demangle_nested (tl cs) result)"
  by pat_completeness auto
termination
proof (relation "measure (\<lambda>(cs, result). length cs)", goal_cases)
  case (2 cs result len r)
  then have "length r < length cs"
    by (cases cs) (auto intro: le_less_trans [OF length_dropWhile_le])
  then show ?case by auto
next
  case (3 cs result)
  then show ?case
    using le_trans [OF diff_le_self length_dropWhile_le]
    by (cases cs) (auto intro!: le_imp_less_Suc)
qed auto

declare demangle_nested.simps [simp del]

definition demangle :: "string \<Rightarrow> string" where
  "demangle mangled =
     (if take 2 mangled \<noteq> ''_Z'' then mangled
      else (let cs = drop 2 mangled;
                result =
                  (if cs \<noteq> [] \<and> hd cs = CHR ''N'' then demangle_nested (tl cs) []
                   else if cs \<noteq> [] \<and> isdigit (hd cs)
                   then take (length_value (takeWhile isdigit cs)) (dropWhile isdigit cs)
                   else [])
            in if result = [] then mangled else result))"

section \<open>Names\<close>

text \<open>What the scanner accepts as an identifier never starts with a digit.\<close>

definition symbol_name :: "string \<Rightarrow> bool" where
  "symbol_name s \<longleftrightarrow> s \<noteq> [] \<and> \<not> isdigit (hd s) \<and> length s < 18446744073709551616"

lemma mangle_name_split:
  assumes "symbol_name s"
  shows "takeWhile isdigit (mangle_name s @ xs) = to_string (length s)"
    and "dropWhile isdigit (mangle_name s @ xs) = s @ xs"
proof -
  have d: "\<forall>c \<in> set (to_string (length s)). isdigit c" by (blast intro: to_string_digits)
  show "takeWhile isdigit (mangle_name s @ xs) = to_string (length s)"
    using assms d by (cases s) (simp_all add: mangle_name_def symbol_name_def takeWhile_append2)
  show "dropWhile isdigit (mangle_name s @ xs) = s @ xs"
    using assms d by (cases s) (simp_all add: mangle_name_def symbol_name_def dropWhile_append2)
qed

lemma length_value_length: "symbol_name s \<Longrightarrow> length_value (to_string (length s)) = length s"
  by (simp add: length_value_def symbol_name_def)

lemma mangle_name_inj:
  assumes "symbol_name s" "symbol_name s'" "mangle_name s @ x = mangle_name s' @ y"
  shows "s = s' \<and> x = y"
proof -
  have "to_string (length s) = to_string (length s')" "s @ x = s' @ y"
    using mangle_name_split [OF assms(1), of x] mangle_name_split [OF assms(2), of y] assms(3)
    by simp_all
  then show ?thesis using to_string_inj by fastforce
qed

lemma mangle_name_hd: "mangle_name s \<noteq> []" "isdigit (hd (mangle_name s @ xs))"
  by (simp_all add: mangle_name_def hd_append hd_to_string_digit)

lemma demangle_nested_name:
  assumes "symbol_name s"
  shows "demangle_nested (mangle_name s @ xs) result =
    demangle_nested xs ((if result = [] then [] else result @ ''::'') @ s)"
proof -
  have "hd (mangle_name s @ xs) \<noteq> CHR ''E''"
    using mangle_name_hd(2) [of s xs] by (auto simp: isdigit_def)
  then show ?thesis
    using mangle_name_hd(1) [of s] mangle_name_hd(2) [of s xs] assms
    by (subst demangle_nested.simps)
      (simp add: mangle_name_split [OF assms] length_value_length Let_def)
qed

lemma demangle_nested_end: "demangle_nested (CHR ''E'' # xs) result = result"
  by (subst demangle_nested.simps) simp

lemma demangle_nested_generic:
  "CHR ''E'' \<notin> set as \<Longrightarrow> demangle_nested (CHR ''I'' # as @ CHR ''E'' # xs) result =
     demangle_nested xs (result @ ''<...>'')"
proof -
  assume "CHR ''E'' \<notin> set as"
  then have "dropWhile (\<lambda>c. c \<noteq> CHR ''E'') (as @ CHR ''E'' # xs) = CHR ''E'' # xs"
    by (subst dropWhile_append2) auto
  then show ?thesis by (subst demangle_nested.simps) (simp add: isdigit_def)
qed

lemma demangle_nested_prefix:
  "demangle (''_ZN'' @ cs) = (let r = demangle_nested cs [] in if r = [] then ''_ZN'' @ cs else r)"
  by (simp add: demangle_def Let_def)

text \<open>C26: Demangling a mangled function gives its name back, and demangling a mangled method gives
  struct::method, with or without parameter types after them.\<close>

theorem demangle_mangle:
  assumes "symbol_name s" "symbol_name m"
  shows "demangle (mangle_function s) = s \<and> demangle (mangle_function_params s ps) = s
    \<and> demangle (mangle_method s m) = s @ ''::'' @ m
    \<and> demangle (mangle_method_params s m ps) = s @ ''::'' @ m"
proof -
  have f: "demangle (''_Z'' @ mangle_name s @ xs) = s" for xs
  proof -
    have "hd (mangle_name s @ xs) \<noteq> CHR ''N''"
      using mangle_name_hd(2) [of s xs] by (auto simp: isdigit_def)
    moreover have "s \<noteq> []" using assms(1) by (simp add: symbol_name_def)
    ultimately show ?thesis
      using mangle_name_hd(1) [of s] mangle_name_hd(2) [of s xs]
      by (simp add: demangle_def Let_def mangle_name_split [OF assms(1)] length_value_length [OF assms(1)])
  qed
  have g: "demangle (''_ZN'' @ mangle_name s @ mangle_name m @ CHR ''E'' # xs) = s @ ''::'' @ m" for xs
    unfolding demangle_nested_prefix using assms
    by (simp add: demangle_nested_name demangle_nested_end symbol_name_def)
  show ?thesis
    using f [of "[]"] f g [of "[]"] g
    by (simp add: mangle_function_def mangle_function_params_def mangle_method_def mangle_method_params_def)
qed

theorem demangle_mangle_witness:
  "demangle (mangle_method_params ''List'' ''push'' [integer_type 32 True OM_None]) = ''List::push''"
  using demangle_mangle [of "''List''" "''push''" "[integer_type 32 True OM_None]"]
  by (simp add: symbol_name_def isdigit_def)

text \<open>A generic method demangles to Struct<...>::method as long as no type argument's code
  contains the letter E; with a struct argument whose name contains an E the text in between
  is taken for more name parts.\<close>

theorem demangle_generic_method:
  assumes "symbol_name s" "symbol_name m" "CHR ''E'' \<notin> set (mangle_types args)"
  shows "demangle (mangle_generic_method s args m ps) = s @ ''<...>::'' @ m"
proof -
  have "mangle_generic_method s args m ps = ''_ZN'' @ mangle_name s @ CHR ''I'' # mangle_types args
      @ CHR ''E'' # mangle_name m @ CHR ''E'' # mangle_types ps"
    by (simp add: mangle_generic_method_def)
  then show ?thesis
    unfolding demangle_nested_prefix using assms
    by (simp add: demangle_nested_prefix [simplified] demangle_nested_name demangle_nested_generic
        demangle_nested_end Let_def)
qed

theorem demangle_generic_method_witness:
  "demangle (mangle_generic_method ''Map'' [integer_type 8 True OM_None] ''get'' []) = ''Map<...>::get''"
  using demangle_generic_method [of "''Map''" "''get''" "[integer_type 8 True OM_None]" "[]"]
  by (simp add: symbol_name_def isdigit_def mangle_types_def integer_type_def new_attrs_def int_code_def)

section \<open>The codes can be told apart\<close>

text \<open>
  What a code records of a type. On the plain types (built-in types of the standard widths,
  pointers, arrays and structs without generic arguments, with none of the nullable and
  read-only marks) it is what \<^verbatim>\<open>Type::operator==\<close> compares.
\<close>

datatype type_key = Key_Void | Key_Int bool nat bool | Key_F16 | Key_F32 | Key_F64 | Key_F128
  | Key_Pointer type_key | Key_Array type_key | Key_Struct string | Key_Auto

primrec key_of :: "type_t \<Rightarrow> type_key" where
  "key_of (Type a el args) =
     (case ty_kind a of
        TK_VOID \<Rightarrow> Key_Void
      | TK_INTEGER \<Rightarrow> Key_Int (nonZero a) (ty_size a) (ty_sign a)
      | TK_F16 \<Rightarrow> Key_F16 | TK_F32 \<Rightarrow> Key_F32 | TK_F64 \<Rightarrow> Key_F64 | TK_F128 \<Rightarrow> Key_F128
      | TK_POINTER \<Rightarrow> Key_Pointer (case map_option key_of el of Some k \<Rightarrow> k | None \<Rightarrow> Key_Void)
      | TK_ARRAY \<Rightarrow> Key_Array (case map_option key_of el of Some k \<Rightarrow> k | None \<Rightarrow> Key_Void)
      | TK_STRUCT \<Rightarrow> Key_Struct (structName a)
      | TK_AUTO \<Rightarrow> Key_Auto)"

definition standard_width :: "nat \<Rightarrow> bool" where
  "standard_width n \<longleftrightarrow> n = 8 \<or> n = 16 \<or> n = 32 \<or> n = 64 \<or> n = 128"

fun key_text :: "type_key \<Rightarrow> string" where
  "key_text Key_Void = ''v''"
| "key_text (Key_Int nz sz sg) = (if nz then ''N'' else []) @ int_code sg sz"
| "key_text Key_F16 = ''Dh''"
| "key_text Key_F32 = ''f''"
| "key_text Key_F64 = ''d''"
| "key_text Key_F128 = ''g''"
| "key_text (Key_Pointer k) = CHR ''P'' # key_text k"
| "key_text (Key_Array k) = CHR ''A'' # key_text k"
| "key_text (Key_Struct s) = mangle_name s"
| "key_text Key_Auto = ''?''"

fun key_ok :: "type_key \<Rightarrow> bool" where
  "key_ok (Key_Int nz sz sg) \<longleftrightarrow> standard_width sz"
| "key_ok (Key_Pointer k) \<longleftrightarrow> key_ok k"
| "key_ok (Key_Array k) \<longleftrightarrow> key_ok k"
| "key_ok (Key_Struct s) \<longleftrightarrow> symbol_name s"
| "key_ok _ \<longleftrightarrow> True"

lemma mangle_type_key: "mangle_type t = key_text (key_of t)"
proof (induction t)
  case (Type a el args)
  then show ?case
    by (cases el) (auto simp: mangle_name_def split: type_kind.split)
qed

lemma int_code_inj:
  "standard_width n \<Longrightarrow> standard_width n' \<Longrightarrow> int_code sg n @ x = int_code sg' n' @ y
    \<Longrightarrow> n = n' \<and> sg = sg' \<and> x = y"
  by (cases sg; cases sg') (auto simp: standard_width_def int_code_def)

lemma int_code_hd:
  "int_code sg n \<noteq> []" "hd (int_code sg n) \<in> set ''asilnhtjmo''"
  by (simp_all add: int_code_def)

text \<open>The first character of a code says which constructor it is of.\<close>

definition key_class :: "char \<Rightarrow> nat" where
  "key_class c =
     (if c = CHR ''v'' then 0 else if c \<in> set ''asilnhtjmo'' then 1 else if c = CHR ''N'' then 2
      else if c = CHR ''D'' then 3 else if c = CHR ''f'' then 4 else if c = CHR ''d'' then 5
      else if c = CHR ''g'' then 6 else if c = CHR ''P'' then 7 else if c = CHR ''A'' then 8
      else if isdigit c then 9 else 10)"

fun key_tag :: "type_key \<Rightarrow> nat" where
  "key_tag Key_Void = 0"
| "key_tag (Key_Int nz sz sg) = (if nz then 2 else 1)"
| "key_tag Key_F16 = 3"
| "key_tag Key_F32 = 4"
| "key_tag Key_F64 = 5"
| "key_tag Key_F128 = 6"
| "key_tag (Key_Pointer k) = 7"
| "key_tag (Key_Array k) = 8"
| "key_tag (Key_Struct s) = 9"
| "key_tag Key_Auto = 10"

lemma key_class_digit: "isdigit c \<Longrightarrow> key_class c = 9"
proof -
  assume c: "isdigit c"
  have "list_all (\<lambda>d. \<not> isdigit d) ''vasilnhtjmoNDfdgPA''" by (simp add: isdigit_def)
  then have "c \<notin> set ''vasilnhtjmoNDfdgPA''" using c unfolding list_all_iff by blast
  then show ?thesis using c by (simp add: key_class_def)
qed

lemma key_class_text: "key_text k \<noteq> []" "key_class (hd (key_text k @ x)) = key_tag k"
proof -
  show "key_text k \<noteq> []"
    by (cases k) (simp_all add: int_code_hd mangle_name_hd)
  have i: "key_class (hd (int_code sg n @ x)) = 1" for sg n
    by (simp add: int_code_def key_class_def)
  have m: "key_class (hd (mangle_name s @ x)) = 9" for s
    by (rule key_class_digit [OF mangle_name_hd(2)])
  have "key_class (CHR ''v'') = 0" "key_class (CHR ''N'') = 2" "key_class (CHR ''D'') = 3"
    "key_class (CHR ''f'') = 4" "key_class (CHR ''d'') = 5" "key_class (CHR ''g'') = 6"
    "key_class (CHR ''P'') = 7" "key_class (CHR ''A'') = 8" "key_class (CHR ''?'') = 10"
    by (simp_all add: key_class_def isdigit_def)
  then show "key_class (hd (key_text k @ x)) = key_tag k"
    using i m by (cases k) simp_all
qed

lemma key_tag_eq: "key_text k @ x = key_text k' @ y \<Longrightarrow> key_tag k' = key_tag k"
  using key_class_text(2) [of k x] key_class_text(2) [of k' y] by simp

lemma key_text_inj:
  "key_ok k \<Longrightarrow> key_ok k' \<Longrightarrow> key_text k @ x = key_text k' @ y \<Longrightarrow> k = k' \<and> x = y"
proof (induction k arbitrary: k')
  case (Key_Int nz sz sg)
  obtain nz' sz' sg' where k': "k' = Key_Int nz' sz' sg'" "nz = nz'"
    using key_tag_eq [OF Key_Int(3)] by (cases k') (auto split: if_splits)
  have "int_code sg sz @ x = int_code sg' sz' @ y" using Key_Int k' by (cases nz) auto
  then show ?case using int_code_inj [of sz sz' sg x sg' y] Key_Int(1,2) k' by simp
next
  case (Key_Struct s)
  obtain s' where k': "k' = Key_Struct s'"
    using key_tag_eq [OF Key_Struct(3)] by (cases k') (auto split: if_splits)
  then show ?case using mangle_name_inj [of s s' x y] Key_Struct by simp
next
  case (Key_Pointer k)
  obtain j where "k' = Key_Pointer j"
    using key_tag_eq [OF Key_Pointer(4)] by (cases k') (auto split: if_splits)
  then show ?case using Key_Pointer by auto
next
  case (Key_Array k)
  obtain j where "k' = Key_Array j"
    using key_tag_eq [OF Key_Array(4)] by (cases k') (auto split: if_splits)
  then show ?case using Key_Array by auto
next
  case Key_Void
  then show ?case using key_tag_eq [OF Key_Void(3)] by (cases k') (auto split: if_splits)
next
  case Key_F16
  then show ?case using key_tag_eq [OF Key_F16(3)] by (cases k') (auto split: if_splits)
next
  case Key_F32
  then show ?case using key_tag_eq [OF Key_F32(3)] by (cases k') (auto split: if_splits)
next
  case Key_F64
  then show ?case using key_tag_eq [OF Key_F64(3)] by (cases k') (auto split: if_splits)
next
  case Key_F128
  then show ?case using key_tag_eq [OF Key_F128(3)] by (cases k') (auto split: if_splits)
next
  case Key_Auto
  then show ?case using key_tag_eq [OF Key_Auto(3)] by (cases k') (auto split: if_splits)
qed

lemma key_texts_inj:
  "list_all key_ok ks \<Longrightarrow> list_all key_ok ks' \<Longrightarrow>
    concat (map key_text ks) = concat (map key_text ks') \<Longrightarrow> ks = ks'"
proof (induction ks arbitrary: ks')
  case Nil
  then show ?case using key_class_text(1) by (cases ks') auto
next
  case (Cons k ks)
  then obtain j js where ks': "ks' = j # js" using key_class_text(1) [of k] by (cases ks') auto
  then have "k = j \<and> concat (map key_text ks) = concat (map key_text js)"
    using Cons.prems by (intro key_text_inj) simp_all
  then show ?case using Cons ks' by simp
qed

text \<open>The plain types, by the attributes their factory functions give them.\<close>

primrec plain_type :: "type_t \<Rightarrow> bool" where
  "plain_type (Type a el args) \<longleftrightarrow>
     args = [] \<and> \<not> nullable a \<and> \<not> readOnly a \<and>
     (case ty_kind a of
        TK_INTEGER \<Rightarrow> standard_width (ty_size a) \<and> structName a = [] \<and> el = None
      | TK_VOID \<Rightarrow> ty_size a = 0 \<and> \<not> ty_sign a \<and> \<not> nonZero a \<and> structName a = [] \<and> el = None
      | TK_F16 \<Rightarrow> ty_size a = 16 \<and> ty_sign a \<and> \<not> nonZero a \<and> structName a = [] \<and> el = None
      | TK_F32 \<Rightarrow> ty_size a = 32 \<and> ty_sign a \<and> \<not> nonZero a \<and> structName a = [] \<and> el = None
      | TK_F64 \<Rightarrow> ty_size a = 64 \<and> ty_sign a \<and> \<not> nonZero a \<and> structName a = [] \<and> el = None
      | TK_F128 \<Rightarrow> ty_size a = 128 \<and> ty_sign a \<and> \<not> nonZero a \<and> structName a = [] \<and> el = None
      | TK_STRUCT \<Rightarrow> ty_size a = 0 \<and> \<not> ty_sign a \<and> \<not> nonZero a \<and> symbol_name (structName a) \<and> el = None
      | TK_AUTO \<Rightarrow> False
      | _ \<Rightarrow> ty_size a = 0 \<and> \<not> ty_sign a \<and> \<not> nonZero a \<and> structName a = []
             \<and> (case map_option plain_type el of Some b \<Rightarrow> b | None \<Rightarrow> False))"

lemma plain_key_ok: "plain_type t \<Longrightarrow> key_ok (key_of t)"
proof (induction t)
  case (Type a el args)
  then show ?case by (cases el; cases "ty_kind a") auto
qed

lemma plain_key_eq: "plain_type s \<Longrightarrow> plain_type t \<Longrightarrow> key_of s = key_of t \<longleftrightarrow> type_eq s t"
proof (induction s arbitrary: t)
  case (Type a el args)
  obtain b el' args' where t: "t = Type b el' args'" by (cases t)
  show ?case
    using Type.prems Type.IH(1)
    by (cases "ty_kind a"; cases "ty_kind b")
      (auto simp: t type_eq_iff symbol_name_def split: option.splits)
qed

lemma plain_keys_eq:
  "list_all plain_type ps \<Longrightarrow> list_all plain_type qs \<Longrightarrow>
    map key_of ps = map key_of qs \<longleftrightarrow> list_all2 type_eq ps qs"
proof (induction ps arbitrary: qs)
  case Nil
  then show ?case by (cases qs) auto
next
  case (Cons p ps)
  then show ?case by (cases qs) (auto simp: plain_key_eq)
qed

text \<open>C27: No two overloads collide when their parameter types are plain: for functions whose names are not empty and
  do not start with a digit, and whose parameters are integers of 8, 16, 32, 64 or 128 bits, floats, void,
  structs without generic arguments, or pointers and arrays of such types, neither nullable nor read-only,
  the mangled symbols are equal exactly when the names are equal and the parameter lists agree
  type by type under the equality of types. (Generic arguments are not part of a mangled name, as
  mangle_ignores_generic_args shows, and are excluded here.)\<close>

theorem mangle_function_injective:
  assumes "symbol_name m" "symbol_name n" "list_all plain_type ps" "list_all plain_type qs"
  shows "mangle_function_params m ps = mangle_function_params n qs
    \<longleftrightarrow> m = n \<and> list_all2 type_eq ps qs"
proof -
  have e: "mangle_types ts = concat (map key_text (map key_of ts))" for ts
    by (simp add: mangle_types_def comp_def mangle_type_key [abs_def])
  have "list_all key_ok (map key_of ps)" "list_all key_ok (map key_of qs)"
    using assms(3,4) plain_key_ok by (auto simp: list_all_iff)
  then have "mangle_function_params m ps = mangle_function_params n qs \<longleftrightarrow> m = n \<and> map key_of ps = map key_of qs"
    unfolding mangle_function_params_def e
    using mangle_name_inj [OF assms(1,2)] key_texts_inj by (auto simp del: map_map)
  then show ?thesis using plain_keys_eq [OF assms(3,4)] by simp
qed

theorem mangle_function_injective_witness:
  "mangle_function_params ''f'' [pointer_type (integer_type 8 True OM_None)]
    \<noteq> mangle_function_params ''f'' [pointer_type (integer_type 8 False OM_None)]"
  using mangle_function_injective [of "''f''" "''f''" "[pointer_type (integer_type 8 True OM_None)]"
      "[pointer_type (integer_type 8 False OM_None)]"]
  by (simp add: symbol_name_def isdigit_def pointer_type_def integer_type_def new_attrs_def
      standard_width_def type_eq_iff)

text \<open>Generic arguments are not part of a parameter's code: two overloads that differ only in
  the generic arguments of a struct parameter get one symbol although their types differ.\<close>

theorem mangle_ignores_generic_args:
  "mangle_function_params f [generic_struct_type s [integer_type 32 True OM_None]]
     = mangle_function_params f [generic_struct_type s [integer_type 8 False OM_None]]
   \<and> \<not> type_eq (generic_struct_type s [integer_type 32 True OM_None])
        (generic_struct_type s [integer_type 8 False OM_None])"
  by (simp add: mangle_function_params_def mangle_types_def generic_struct_type_def integer_type_def
      new_attrs_def type_eq_iff)

end
