(* ===== verification/Doubles.thy ===== *)
theory Doubles
  imports Djinn_Prelude
begin

text \<open>
  The \<^verbatim>\<open>double\<close> of the C++ target, IEEE 754 binary64 with round to nearest, ties to even: the
  operations the constant evaluator uses of it. A finite number is a sign, a mantissa below
  \<open>2 ^ 53\<close> and an exponent; every operation computes the exact rational result and rounds it
  once. All numbers are integers, so that the operations evaluate.
\<close>

datatype double = NaN | Inf bool | Fin bool int int

definition dzero :: "bool \<Rightarrow> double" where
  "dzero s = Fin s 0 (- 1074)"

function bit_length :: "int \<Rightarrow> int" where
  "bit_length n = (if n \<le> 0 then 0 else 1 + bit_length (n div 2))"
  by pat_completeness auto
termination
  by (relation "measure nat") auto

declare bit_length.simps [simp del]

text \<open>The fraction \<open>n / d\<close> divided by \<open>2 ^ e\<close>, as a fraction.\<close>

definition scaled :: "int \<Rightarrow> int \<Rightarrow> int \<Rightarrow> int \<times> int" where
  "scaled n d e = (if 0 \<le> e then (n, d * 2 ^ nat e) else (n * 2 ^ nat (- e), d))"

definition half_even :: "int \<Rightarrow> int \<Rightarrow> int" where
  "half_even n d =
     (let q = n div d; r = n mod d
      in if 2 * r < d \<or> (2 * r = d \<and> even q) then q else q + 1)"

definition two53 :: int where
  "two53 = 9007199254740992"

definition round_ratio :: "bool \<Rightarrow> int \<Rightarrow> int \<Rightarrow> double" where
  "round_ratio s n d =
     (if n = 0 then dzero s
      else (let e0 = max (- 1074) (bit_length n - bit_length d - 53);
                (n0, d0) = scaled n d e0;
                e1 = (if two53 \<le> n0 div d0 then e0 + 1 else e0);
                (n1, d1) = scaled n d e1;
                q = half_even n1 d1;
                (m, e) = (if q = two53 then (two53 div 2, e1 + 1) else (q, e1))
            in if 971 < e then Inf s else Fin s m e))"

definition round_scaled :: "bool \<Rightarrow> int \<Rightarrow> int \<Rightarrow> double" where
  "round_scaled s m e =
     (if 0 \<le> e then round_ratio s (m * 2 ^ nat e) 1 else round_ratio s m (2 ^ nat (- e)))"

definition with_sign :: "bool \<Rightarrow> int \<Rightarrow> int" where
  "with_sign s m = (if s then - m else m)"

definition double_of_int :: "int \<Rightarrow> double" where
  "double_of_int i = round_ratio (i < 0) \<bar>i\<bar> 1"

fun dneg :: "double \<Rightarrow> double" where
  "dneg NaN = NaN"
| "dneg (Inf s) = Inf (\<not> s)"
| "dneg (Fin s m e) = Fin (\<not> s) m e"

fun dadd :: "double \<Rightarrow> double \<Rightarrow> double" where
  "dadd (Fin s m e) (Fin s' m' e') =
     (let k = min e e';
          i = with_sign s m * 2 ^ nat (e - k) + with_sign s' m' * 2 ^ nat (e' - k)
      in if i = 0 then dzero (s \<and> s') else round_scaled (i < 0) \<bar>i\<bar> k)"
| "dadd (Inf s) (Inf s') = (if s = s' then Inf s else NaN)"
| "dadd NaN y = NaN"
| "dadd x NaN = NaN"
| "dadd (Inf s) y = Inf s"
| "dadd x (Inf s) = Inf s"

definition dsub :: "double \<Rightarrow> double \<Rightarrow> double" where
  "dsub x y = dadd x (dneg y)"

fun dmul :: "double \<Rightarrow> double \<Rightarrow> double" where
  "dmul (Fin s m e) (Fin s' m' e') = round_scaled (s \<noteq> s') (m * m') (e + e')"
| "dmul (Inf s) (Inf s') = Inf (s \<noteq> s')"
| "dmul NaN y = NaN"
| "dmul x NaN = NaN"
| "dmul (Inf s) (Fin s' m e) = (if m = 0 then NaN else Inf (s \<noteq> s'))"
| "dmul (Fin s m e) (Inf s') = (if m = 0 then NaN else Inf (s \<noteq> s'))"

fun ddiv :: "double \<Rightarrow> double \<Rightarrow> double" where
  "ddiv (Fin s m e) (Fin s' m' e') =
     (if m' = 0 then (if m = 0 then NaN else Inf (s \<noteq> s'))
      else (let (n, d) = scaled m m' (e' - e) in round_ratio (s \<noteq> s') n d))"
| "ddiv (Inf s) (Inf s') = NaN"
| "ddiv NaN y = NaN"
| "ddiv x NaN = NaN"
| "ddiv (Inf s) (Fin s' m e) = Inf (s \<noteq> s')"
| "ddiv (Fin s m e) (Inf s') = dzero (s \<noteq> s')"

fun deq :: "double \<Rightarrow> double \<Rightarrow> bool" where
  "deq (Fin s m e) (Fin s' m' e') \<longleftrightarrow>
     (let k = min e e' in with_sign s m * 2 ^ nat (e - k) = with_sign s' m' * 2 ^ nat (e' - k))"
| "deq (Inf s) (Inf s') \<longleftrightarrow> s = s'"
| "deq _ _ \<longleftrightarrow> False"

fun dless :: "double \<Rightarrow> double \<Rightarrow> bool" where
  "dless (Fin s m e) (Fin s' m' e') \<longleftrightarrow>
     (let k = min e e' in with_sign s m * 2 ^ nat (e - k) < with_sign s' m' * 2 ^ nat (e' - k))"
| "dless (Inf s) (Inf s') \<longleftrightarrow> s \<and> \<not> s'"
| "dless (Inf s) (Fin s' m e) \<longleftrightarrow> s"
| "dless (Fin s m e) (Inf s') \<longleftrightarrow> \<not> s'"
| "dless _ _ \<longleftrightarrow> False"

definition dle :: "double \<Rightarrow> double \<Rightarrow> bool" where
  "dle x y \<longleftrightarrow> dless x y \<or> deq x y"

definition dnonzero :: "double \<Rightarrow> bool" where
  "dnonzero x \<longleftrightarrow> \<not> deq x (dzero False)"

text \<open>
  \<^verbatim>\<open>static_cast<int64_t>\<close> of a double truncates towards zero; outside the range of the target
  it is undefined, the value \<^const>\<open>None\<close>.
\<close>

fun truncate_double :: "double \<Rightarrow> int option" where
  "truncate_double (Fin s m e) = Some (with_sign s (if 0 \<le> e then m * 2 ^ nat e else m div 2 ^ nat (- e)))"
| "truncate_double _ = None"

definition double_to_i64 :: "double \<Rightarrow> i64 option" where
  "double_to_i64 x =
     (case truncate_double x of
        Some i \<Rightarrow> if - 9223372036854775808 \<le> i \<and> i \<le> 9223372036854775807 then Some (word_of_int i) else None
      | None \<Rightarrow> None)"

section \<open>Decimal texts\<close>

text \<open>
  \<^verbatim>\<open>std::stod\<close> on a decimal text: the longest prefix that is a number, with an optional sign,
  fraction and exponent; what follows it is ignored. It raises \<^verbatim>\<open>invalid_argument\<close> when there is
  no number and \<^verbatim>\<open>out_of_range\<close> when the number overflows or, as the C library reports it,
  underflows inexactly.
\<close>

datatype conversion_error = InvalidArgument | OutOfRange

definition int_value :: "string \<Rightarrow> int" where
  "int_value cs = foldl (\<lambda>acc c. acc * 10 + (of_char c - 48)) 0 cs"

definition skip_spaces :: "string \<Rightarrow> string" where
  "skip_spaces = dropWhile (\<lambda>c. c = CHR '' '' \<or> (9 \<le> (of_char c :: int) \<and> (of_char c :: int) \<le> 13))"

definition split_sign :: "string \<Rightarrow> bool \<times> string" where
  "split_sign cs =
     (case cs of [] \<Rightarrow> (False, [])
      | c # ds \<Rightarrow> if c = CHR ''-'' then (True, ds) else if c = CHR ''+'' then (False, ds) else (False, cs))"

definition split_exponent :: "string \<Rightarrow> int" where
  "split_exponent cs =
     (case cs of [] \<Rightarrow> 0
      | c # ds \<Rightarrow>
          if c = CHR ''e'' \<or> c = CHR ''E'' then
            (let (neg, ds') = split_sign ds in with_sign neg (int_value (takeWhile isdigit ds')))
          else 0)"

definition stod :: "string \<Rightarrow> conversion_error + double" where
  "stod text =
     (let (neg, cs) = split_sign (skip_spaces text);
          whole = takeWhile isdigit cs;
          cs1 = dropWhile isdigit cs;
          fraction = (case cs1 of c # ds \<Rightarrow> if c = CHR ''.'' then takeWhile isdigit ds else [] | [] \<Rightarrow> []);
          cs2 = (case cs1 of c # ds \<Rightarrow> if c = CHR ''.'' then dropWhile isdigit ds else cs1 | [] \<Rightarrow> [])
      in if whole = [] \<and> fraction = [] then Inl InvalidArgument
         else (let m = int_value (whole @ fraction);
                   e10 = split_exponent cs2 - int (length fraction);
                   (n, d) = (if 0 \<le> e10 then (m * 10 ^ nat e10, 1) else (m, 10 ^ nat (- e10)))
               in case round_ratio neg n d of
                    Fin s q e \<Rightarrow>
                      if q < two53 div 2 \<and> (let (n', d') = scaled n d e in n' mod d' \<noteq> 0)
                      then Inl OutOfRange else Inr (Fin s q e)
                  | r \<Rightarrow> Inl OutOfRange))"

end
