(* ===== verification/Const_Value.thy ===== *)
theory Const_Value
  imports Doubles Types "HOL-Library.Signed_Division"
begin

text \<open>
  The values of compile-time evaluation, \<^verbatim>\<open>evaluator/ConstValue.h\<close>, and the integer helpers at
  the head of \<^verbatim>\<open>evaluator/ConstEvaluator.cpp\<close>. \<^verbatim>\<open>int64_t\<close> and \<^verbatim>\<open>uint64_t\<close> are 64-bit words, read
  signed by \<open>sint\<close> and \<open><s\<close> or unsigned by \<open>uint\<close> and \<open><\<close>. Unsigned arithmetic wraps; a signed sum,
  difference or product that leaves the 64-bit range is undefined in C++, whatever the comment at
  \<^verbatim>\<open>fitInt\<close> expects of it, and is \<^const>\<open>None\<close> here. Bit widths are naturals.
\<close>

unbundle bit_operations_syntax

section \<open>Signed 64-bit arithmetic\<close>

definition fits64 :: "int \<Rightarrow> bool" where
  "fits64 z \<longleftrightarrow> - 9223372036854775808 \<le> z \<and> z < 9223372036854775808"

definition signed_add64 :: "i64 \<Rightarrow> i64 \<Rightarrow> i64 option" where
  "signed_add64 a b = (if fits64 (sint a + sint b) then Some (a + b) else None)"

definition signed_sub64 :: "i64 \<Rightarrow> i64 \<Rightarrow> i64 option" where
  "signed_sub64 a b = (if fits64 (sint a - sint b) then Some (a - b) else None)"

definition signed_mul64 :: "i64 \<Rightarrow> i64 \<Rightarrow> i64 option" where
  "signed_mul64 a b = (if fits64 (sint a * sint b) then Some (a * b) else None)"

section \<open>128-bit integers\<close>

record int128 =
  i_high :: i64
  i_low :: u64

definition Int128_of_i64 :: "i64 \<Rightarrow> int128" where
  "Int128_of_i64 val = \<lparr>i_high = (if val <s 0 then - 1 else 0), i_low = val\<rparr>"

definition Int128_fromUnsigned :: "u64 \<Rightarrow> int128" where
  "Int128_fromUnsigned val = \<lparr>i_high = 0, i_low = val\<rparr>"

definition Int128_isZero :: "int128 \<Rightarrow> bool" where
  "Int128_isZero x \<longleftrightarrow> i_high x = 0 \<and> i_low x = 0"

definition Int128_toInt64 :: "int128 \<Rightarrow> i64" where
  "Int128_toInt64 x = i_low x"

definition Int128_add :: "int128 \<Rightarrow> int128 \<Rightarrow> int128 option" where
  "Int128_add x r =
     do {
       let lo = i_low x + i_low r;
       s \<leftarrow> signed_add64 (i_high x) (i_high r);
       hi \<leftarrow> signed_add64 s (if lo < i_low x then 1 else 0);
       Some \<lparr>i_high = hi, i_low = lo\<rparr>
     }"

definition Int128_sub :: "int128 \<Rightarrow> int128 \<Rightarrow> int128 option" where
  "Int128_sub x r =
     do {
       let lo = i_low x - i_low r;
       d \<leftarrow> signed_sub64 (i_high x) (i_high r);
       hi \<leftarrow> signed_sub64 d (if i_low x < i_low r then 1 else 0);
       Some \<lparr>i_high = hi, i_low = lo\<rparr>
     }"

definition Int128_neg :: "int128 \<Rightarrow> int128 option" where
  "Int128_neg x =
     do {
       let lo = NOT (i_low x) + 1;
       hi \<leftarrow> signed_add64 (NOT (i_high x)) (if lo = 0 then 1 else 0);
       Some \<lparr>i_high = hi, i_low = lo\<rparr>
     }"

definition Int128_eq :: "int128 \<Rightarrow> int128 \<Rightarrow> bool" where
  "Int128_eq x r \<longleftrightarrow> i_high x = i_high r \<and> i_low x = i_low r"

definition Int128_less :: "int128 \<Rightarrow> int128 \<Rightarrow> bool" where
  "Int128_less x r \<longleftrightarrow>
     (if i_high x \<noteq> i_high r then i_high x <s i_high r else i_low x < i_low r)"

definition Int128_le :: "int128 \<Rightarrow> int128 \<Rightarrow> bool" where
  "Int128_le x r \<longleftrightarrow> \<not> Int128_less r x"

section \<open>Constant values\<close>

datatype cv_kind = CV_Integer | CV_Integer128 | CV_Float | CV_Bool | CV_Void | CV_Thrown | CV_Error

record const_value =
  cv_kind :: cv_kind
  intVal :: i64
  int128Val :: int128
  floatVal :: double
  boolVal :: bool
  errorName :: string
  bitWidth :: nat
  isSigned :: bool

definition cv_error :: const_value where
  "cv_error =
     \<lparr>cv_kind = CV_Error, intVal = 0, int128Val = \<lparr>i_high = 0, i_low = 0\<rparr>, floatVal = dzero False,
      boolVal = False, errorName = [], bitWidth = 32, isSigned = True\<rparr>"

definition makeInt :: "i64 \<Rightarrow> nat \<Rightarrow> bool \<Rightarrow> const_value" where
  "makeInt val bits sg =
     cv_error\<lparr>cv_kind := CV_Integer, intVal := val, bitWidth := bits, isSigned := sg\<rparr>"

definition makeInt128 :: "int128 \<Rightarrow> bool \<Rightarrow> const_value" where
  "makeInt128 val sg =
     cv_error\<lparr>cv_kind := CV_Integer128, int128Val := val, bitWidth := 128, isSigned := sg\<rparr>"

definition makeFloat :: "double \<Rightarrow> nat \<Rightarrow> const_value" where
  "makeFloat val bits = cv_error\<lparr>cv_kind := CV_Float, floatVal := val, bitWidth := bits\<rparr>"

definition makeBool :: "bool \<Rightarrow> const_value" where
  "makeBool val = cv_error\<lparr>cv_kind := CV_Bool, boolVal := val, bitWidth := 1\<rparr>"

definition makeVoid :: const_value where
  "makeVoid = cv_error\<lparr>cv_kind := CV_Void\<rparr>"

definition cv_thrown :: "string \<Rightarrow> const_value" where
  "cv_thrown name = cv_error\<lparr>cv_kind := CV_Thrown, errorName := name\<rparr>"

definition isError :: "const_value \<Rightarrow> bool" where
  "isError v \<longleftrightarrow> cv_kind v = CV_Error"

definition isThrown :: "const_value \<Rightarrow> bool" where
  "isThrown v \<longleftrightarrow> cv_kind v = CV_Thrown"

definition isNumeric :: "const_value \<Rightarrow> bool" where
  "isNumeric v \<longleftrightarrow> cv_kind v = CV_Integer \<or> cv_kind v = CV_Integer128 \<or> cv_kind v = CV_Float"

definition isInteger :: "const_value \<Rightarrow> bool" where
  "isInteger v \<longleftrightarrow> cv_kind v = CV_Integer \<or> cv_kind v = CV_Integer128"

text \<open>\<^verbatim>\<open>toInt\<close> is undefined (\<^const>\<open>None\<close>) on a float outside the range of \<^verbatim>\<open>int64_t\<close>.\<close>

definition toInt :: "const_value \<Rightarrow> i64 option" where
  "toInt v =
     (case cv_kind v of
        CV_Integer \<Rightarrow> Some (intVal v)
      | CV_Integer128 \<Rightarrow> Some (Int128_toInt64 (int128Val v))
      | CV_Float \<Rightarrow> double_to_i64 (floatVal v)
      | CV_Bool \<Rightarrow> Some (if boolVal v then 1 else 0)
      | _ \<Rightarrow> Some 0)"

definition toInt128 :: "const_value \<Rightarrow> int128 option" where
  "toInt128 v =
     (case cv_kind v of
        CV_Integer \<Rightarrow> Some (Int128_of_i64 (intVal v))
      | CV_Integer128 \<Rightarrow> Some (int128Val v)
      | CV_Float \<Rightarrow> map_option Int128_of_i64 (double_to_i64 (floatVal v))
      | CV_Bool \<Rightarrow> Some (Int128_of_i64 (if boolVal v then 1 else 0))
      | _ \<Rightarrow> Some \<lparr>i_high = 0, i_low = 0\<rparr>)"

definition toFloat :: "const_value \<Rightarrow> double" where
  "toFloat v =
     (case cv_kind v of
        CV_Integer \<Rightarrow> double_of_int (sint (intVal v))
      | CV_Integer128 \<Rightarrow>
          dadd (dmul (double_of_int (sint (i_high (int128Val v)))) (double_of_int 18446744073709551616))
               (double_of_int (uint (i_low (int128Val v))))
      | CV_Float \<Rightarrow> floatVal v
      | CV_Bool \<Rightarrow> (if boolVal v then double_of_int 1 else dzero False)
      | _ \<Rightarrow> dzero False)"

definition toBool :: "const_value \<Rightarrow> bool" where
  "toBool v =
     (case cv_kind v of
        CV_Integer \<Rightarrow> intVal v \<noteq> 0
      | CV_Integer128 \<Rightarrow> \<not> Int128_isZero (int128Val v)
      | CV_Float \<Rightarrow> dnonzero (floatVal v)
      | CV_Bool \<Rightarrow> boolVal v
      | _ \<Rightarrow> False)"

lemma make_simps [simp]:
  "cv_kind (makeInt a b s) = CV_Integer" "intVal (makeInt a b s) = a"
  "bitWidth (makeInt a b s) = b" "isSigned (makeInt a b s) = s"
  "cv_kind (makeInt128 x s) = CV_Integer128" "int128Val (makeInt128 x s) = x"
  "bitWidth (makeInt128 x s) = 128" "isSigned (makeInt128 x s) = s"
  "cv_kind (makeFloat d b) = CV_Float" "floatVal (makeFloat d b) = d" "bitWidth (makeFloat d b) = b"
  "cv_kind (makeBool c) = CV_Bool" "boolVal (makeBool c) = c" "bitWidth (makeBool c) = 1"
  "cv_kind cv_error = CV_Error" "cv_kind makeVoid = CV_Void" "cv_kind (cv_thrown n) = CV_Thrown"
  "errorName (cv_thrown n) = n"
  by (simp_all add: makeInt_def makeInt128_def makeFloat_def makeBool_def makeVoid_def cv_thrown_def cv_error_def)

lemma toInt_make [simp]:
  "toInt (makeInt a b s) = Some a" "toInt (makeBool c) = Some (if c then 1 else 0)"
  "toInt (makeInt128 x s) = Some (i_low x)" "toInt cv_error = Some 0"
  by (simp_all add: toInt_def Int128_toInt64_def)

lemma toInt_total: "cv_kind v \<noteq> CV_Float \<Longrightarrow> \<exists>a. toInt v = Some a"
  by (cases "cv_kind v") (simp_all add: toInt_def)

section \<open>Ranges and overflow\<close>

definition INT64_MIN :: i64 where
  "INT64_MIN = 0x8000000000000000"

definition INT64_MAX :: i64 where
  "INT64_MAX = 0x7FFFFFFFFFFFFFFF"

record int_limits =
  lim_min :: i64
  lim_max :: i64
  lim_umax :: u64

definition limitsFor :: "nat \<Rightarrow> bool \<Rightarrow> int_limits" where
  "limitsFor bits sg =
     (if 64 \<le> bits then \<lparr>lim_min = INT64_MIN, lim_max = INT64_MAX, lim_umax = - 1\<rparr>
      else (let m = push_bit bits 1 - 1 :: u64
            in \<lparr>lim_min = (if sg then NOT (drop_bit 1 m) else 0),
                lim_max = (if sg then drop_bit 1 m else m), lim_umax = m\<rparr>))"

definition addOverflows64 :: "i64 \<Rightarrow> i64 \<Rightarrow> bool" where
  "addOverflows64 a b \<longleftrightarrow>
     (0 <s b \<and> INT64_MAX - b <s a) \<or> (b <s 0 \<and> a <s INT64_MIN - b)"

definition subOverflows64 :: "i64 \<Rightarrow> i64 \<Rightarrow> bool" where
  "subOverflows64 a b \<longleftrightarrow>
     (b <s 0 \<and> INT64_MAX + b <s a) \<or> (0 <s b \<and> a <s INT64_MIN + b)"

text \<open>Division of \<^verbatim>\<open>int64_t\<close> truncates towards zero; the remainder has the sign of the dividend.\<close>

definition div64 :: "i64 \<Rightarrow> i64 \<Rightarrow> i64" where
  "div64 a b = word_of_int (sint a sdiv sint b)"

definition mod64 :: "i64 \<Rightarrow> i64 \<Rightarrow> i64" where
  "mod64 a b = word_of_int (sint a smod sint b)"

text \<open>The overflow test of multiplication multiplies first: a product outside the range is undefined
  there already.\<close>

definition mulOverflows64 :: "i64 \<Rightarrow> i64 \<Rightarrow> bool option" where
  "mulOverflows64 a b =
     (if a = 0 \<or> b = 0 then Some False
      else if a = INT64_MIN \<or> b = INT64_MIN then Some True
      else do {
        r \<leftarrow> signed_mul64 a b;
        Some (div64 r b \<noteq> a)
      })"

definition fitInt :: "i64 \<Rightarrow> bool \<Rightarrow> bool \<Rightarrow> nat \<Rightarrow> bool \<Rightarrow> overflow_mode \<Rightarrow> const_value" where
  "fitInt raw overflowHint negative bits sg mode =
     (let lim = limitsFor bits sg;
          out = (if overflowHint then True
                 else if sg then raw <s lim_min lim \<or> lim_max lim <s raw
                 else lim_umax lim < raw)
      in if out \<and> mode \<noteq> OM_None \<and> mode \<noteq> OM_Wrapped then
           (if mode = OM_Trapped \<or> mode = OM_Checked then cv_error
            else makeInt (if negative then lim_min lim else lim_max lim) bits sg)
         else
           (let m = push_bit bits 1 - 1 :: u64;
                u = raw AND m;
                raw' = (if bits < 64
                        then (if sg \<and> u AND push_bit (bits - 1) 1 \<noteq> 0 then u OR NOT m else u)
                        else raw)
            in makeInt raw' bits sg))"

section \<open>The integer operators of the machine\<close>

text \<open>
  The bodies of the arithmetic instructions, from the popped operands to the pushed value:
  \<^const>\<open>None\<close> is undefined behaviour, and \<open>Abort\<close> the value with which the machine stops at once
  instead of pushing.
\<close>

datatype op_result = Push const_value | Abort const_value

definition widths :: "const_value \<Rightarrow> const_value \<Rightarrow> nat" where
  "widths l r = max (bitWidth l) (bitWidth r)"

definition signs :: "const_value \<Rightarrow> const_value \<Rightarrow> bool" where
  "signs l r \<longleftrightarrow> isSigned l \<and> isSigned r"

definition any_float :: "const_value \<Rightarrow> const_value \<Rightarrow> bool" where
  "any_float l r \<longleftrightarrow> cv_kind l = CV_Float \<or> cv_kind r = CV_Float"

definition add_values :: "overflow_mode \<Rightarrow> const_value \<Rightarrow> const_value \<Rightarrow> op_result option" where
  "add_values mode l r =
     (if any_float l r then Some (Push (makeFloat (dadd (toFloat l) (toFloat r)) 64))
      else do {
        a \<leftarrow> toInt l;
        b \<leftarrow> toInt r;
        raw \<leftarrow> signed_add64 a b;
        Some (Push (fitInt raw (addOverflows64 a b) (a <s 0 \<and> b <s 0) (widths l r) (signs l r) mode))
      })"

definition sub_values :: "overflow_mode \<Rightarrow> const_value \<Rightarrow> const_value \<Rightarrow> op_result option" where
  "sub_values mode l r =
     (if any_float l r then Some (Push (makeFloat (dsub (toFloat l) (toFloat r)) 64))
      else do {
        a \<leftarrow> toInt l;
        b \<leftarrow> toInt r;
        raw \<leftarrow> signed_sub64 a b;
        Some (Push (fitInt raw (subOverflows64 a b) (a <s 0 \<and> 0 <s b) (widths l r) (signs l r) mode))
      })"

definition mul_values :: "overflow_mode \<Rightarrow> const_value \<Rightarrow> const_value \<Rightarrow> op_result option" where
  "mul_values mode l r =
     (if any_float l r then Some (Push (makeFloat (dmul (toFloat l) (toFloat r)) 64))
      else do {
        a \<leftarrow> toInt l;
        b \<leftarrow> toInt r;
        ovf \<leftarrow> mulOverflows64 a b;
        raw \<leftarrow> signed_mul64 a b;
        Some (Push (fitInt raw ovf ((a <s 0) \<noteq> (b <s 0)) (widths l r) (signs l r) mode))
      })"

definition div_values :: "overflow_mode \<Rightarrow> const_value \<Rightarrow> const_value \<Rightarrow> op_result option" where
  "div_values mode l r =
     (if any_float l r then
        (if deq (toFloat r) (dzero False) then Some (Abort cv_error)
         else Some (Push (makeFloat (ddiv (toFloat l) (toFloat r)) 64)))
      else do {
        a \<leftarrow> toInt l;
        b \<leftarrow> toInt r;
        if b = 0 then Some (Abort cv_error)
        else if a = INT64_MIN \<and> b = - 1 \<and> (mode = OM_Trapped \<or> mode = OM_Checked) then Some (Abort cv_error)
        else if a = INT64_MIN \<and> b = - 1 \<and> mode = OM_Saturating
        then Some (Push (makeInt INT64_MAX (widths l r) (signs l r)))
        else (let q = (if a = INT64_MIN \<and> b = - 1 then INT64_MIN else div64 a b)
              in Some (Push (fitInt q False False (widths l r) (signs l r) mode)))
      })"

definition mod_values :: "overflow_mode \<Rightarrow> const_value \<Rightarrow> const_value \<Rightarrow> op_result option" where
  "mod_values mode l r =
     do {
       a \<leftarrow> toInt l;
       ri \<leftarrow> toInt r;
       if ri = 0 then Some (Abort cv_error)
       else (let m = (if a = INT64_MIN \<and> ri = - 1 then 0 else mod64 a ri)
             in Some (Push (fitInt m False False (widths l r) (signs l r) mode)))
     }"

definition neg_value :: "overflow_mode \<Rightarrow> const_value \<Rightarrow> op_result option" where
  "neg_value mode v =
     (if cv_kind v = CV_Float then Some (Push (makeFloat (dneg (floatVal v)) (bitWidth v)))
      else do {
        x \<leftarrow> toInt v;
        let ovf = x = INT64_MIN \<or> (bitWidth v < 64 \<and> x = lim_min (limitsFor (bitWidth v) (isSigned v)));
            raw = (if x = INT64_MIN then INT64_MIN else - x);
            fitted = fitInt raw ovf False (bitWidth v) (isSigned v) mode
        in if isError fitted then Some (Abort fitted) else Some (Push fitted)
      })"

end
