(* ===== verification/Bytecode.thy ===== *)
theory Bytecode
  imports Const_Value "HOL-Library.AList"
begin

text \<open>
  Bytecode of the compile-time evaluator, \<^verbatim>\<open>evaluator/ConstEvaluator.h\<close>: the part of the syntax
  tree it accepts, the instructions, and the state of \<^verbatim>\<open>class BytecodeCompiler\<close> with its helpers.
  32-bit indices are naturals, with the conversion to \<^verbatim>\<open>uint32_t\<close> written out where the code
  converts. An \<^verbatim>\<open>unordered_map\<close> is a map, or an association list where the code iterates over it:
  the order of the list stands for the iteration order, which the theorems leave arbitrary.
\<close>

section \<open>Syntax\<close>

text \<open>
  The expressions and statements the evaluator distinguishes; every other node class is
  \<open>OtherExpression\<close> or \<open>OtherStatement\<close>. Branches and bodies the parser may leave null are options.
\<close>

datatype expr =
    IntegerLiteral string
  | FloatLiteral string
  | BooleanLiteral string
  | Identifier string
  | FieldAccess expr string
  | BinaryExpression token_type expr expr overflow_mode
  | UnaryExpression token_type expr overflow_mode
  | CastExpression expr type_t
  | FunctionCall string "expr list"
  | VariableInit string expr
  | Assignment string expr
  | OtherExpression

datatype stmt =
    ReturnStatement "expr option"
  | ThrowStatement "expr option"
  | IfStatement expr "stmt list option" "stmt list option"
  | WhileStatement expr "stmt list option"
  | ForStatement "expr option" "expr option" "expr option" "stmt list option"
  | Block "stmt list"
  | ExpressionStatement expr
  | OtherStatement

section \<open>Instructions\<close>

datatype opcode =
    PUSH_INT | PUSH_INT128 | PUSH_FLOAT | PUSH_BOOL | POP
  | ADD_INT | SUB_INT | MUL_INT | DIV_INT | MOD_INT | NEG_INT
  | ADD_FLOAT | SUB_FLOAT | MUL_FLOAT | DIV_FLOAT | NEG_FLOAT
  | CMP_EQ_INT | CMP_NE_INT | CMP_LT_INT | CMP_LE_INT | CMP_GT_INT | CMP_GE_INT
  | CMP_EQ_FLOAT | CMP_NE_FLOAT | CMP_LT_FLOAT | CMP_LE_FLOAT | CMP_GT_FLOAT | CMP_GE_FLOAT
  | SHL_INT | SHR_INT | AND_INT | OR_INT | XOR_INT | NOT_INT
  | LOGIC_AND | LOGIC_OR | LOGIC_NOT
  | INT_TO_FLOAT | FLOAT_TO_INT | BOOL_TO_INT | INT_TO_BOOL
  | CAST_INT | CAST_FLOAT
  | STORE_LOCAL | LOAD_LOCAL
  | JMP | JMP_IF_FALSE | JMP_IF_TRUE
  | CALL | RET | THROW | HALT

record instruction =
  i_op :: opcode
  i_operand :: nat

definition Instruction :: "opcode \<Rightarrow> nat \<Rightarrow> instruction" where
  "Instruction opc n = \<lparr>i_op = opc, i_operand = n\<rparr>"

lemma Instruction_simps [simp]: "i_op (Instruction opc n) = opc" "i_operand (Instruction opc n) = n"
  by (simp_all add: Instruction_def)

record compiled_function =
  cf_name :: string
  numParams :: nat
  numLocals :: nat
  codeStart :: nat

definition InvalidCodeStart :: nat where
  "InvalidCodeStart = 0xFFFFFFFF"

record const_function =
  paramNames :: "string list"
  fn_body :: "stmt list option"

text \<open>\<^verbatim>\<open>static_cast<uint32_t>(mode)\<close> and back.\<close>

definition mode_code :: "overflow_mode \<Rightarrow> nat" where
  "mode_code mode =
     (case mode of OM_None \<Rightarrow> 0 | OM_Wrapped \<Rightarrow> 1 | OM_Trapped \<Rightarrow> 2 | OM_Checked \<Rightarrow> 3 | OM_Saturating \<Rightarrow> 4)"

definition mode_of :: "nat \<Rightarrow> overflow_mode" where
  "mode_of n =
     (if n = 0 then OM_None else if n = 1 then OM_Wrapped else if n = 2 then OM_Trapped
      else if n = 3 then OM_Checked else OM_Saturating)"

lemma mode_of_code [simp]: "mode_of (mode_code m) = m"
  by (cases m) (simp_all add: mode_of_def mode_code_def)

section \<open>State of the compiler\<close>

record cstate =
  instructions :: "instruction list"
  intPool :: "i64 list"
  int128Pool :: "int128 list"
  floatPool :: "double list"
  stringPool :: "string list"
  functionTable :: "compiled_function list"
  constants :: "string \<rightharpoonup> const_value"
  functionIndex :: "string \<rightharpoonup> nat"
  pendingFunctions :: "(string \<times> const_function) list"
  localSlots :: "string \<rightharpoonup> nat"
  nextLocalSlot :: nat
  hadError :: bool

definition new_compiler :: cstate where
  "new_compiler =
     \<lparr>instructions = [], intPool = [], int128Pool = [], floatPool = [], stringPool = [],
      functionTable = [], constants = Map.empty, functionIndex = Map.empty, pendingFunctions = [],
      localSlots = Map.empty, nextLocalSlot = 0, hadError = False\<rparr>"

definition fail :: "cstate \<Rightarrow> cstate" where
  "fail st = st\<lparr>hadError := True\<rparr>"

definition emit :: "opcode \<Rightarrow> nat \<Rightarrow> cstate \<Rightarrow> cstate" where
  "emit opc operand st = st\<lparr>instructions := instructions st @ [Instruction opc operand]\<rparr>"

text \<open>The scan of a pool for an equal constant.\<close>

fun index_where :: "('a \<Rightarrow> bool) \<Rightarrow> 'a list \<Rightarrow> nat option" where
  "index_where P [] = None"
| "index_where P (x # xs) = (if P x then Some 0 else map_option Suc (index_where P xs))"

definition addIntConstant :: "i64 \<Rightarrow> cstate \<Rightarrow> nat \<times> cstate" where
  "addIntConstant val st =
     (case index_where (\<lambda>x. x = val) (intPool st) of
        Some i \<Rightarrow> (i, st)
      | None \<Rightarrow> (cast_u32 (length (intPool st)), st\<lparr>intPool := intPool st @ [val]\<rparr>))"

definition addInt128Constant :: "int128 \<Rightarrow> cstate \<Rightarrow> nat \<times> cstate" where
  "addInt128Constant val st =
     (case index_where (\<lambda>x. Int128_eq x val) (int128Pool st) of
        Some i \<Rightarrow> (i, st)
      | None \<Rightarrow> (cast_u32 (length (int128Pool st)), st\<lparr>int128Pool := int128Pool st @ [val]\<rparr>))"

definition addFloatConstant :: "double \<Rightarrow> cstate \<Rightarrow> nat \<times> cstate" where
  "addFloatConstant val st =
     (case index_where (\<lambda>x. deq x val) (floatPool st) of
        Some i \<Rightarrow> (i, st)
      | None \<Rightarrow> (cast_u32 (length (floatPool st)), st\<lparr>floatPool := floatPool st @ [val]\<rparr>))"

definition addStringConstant :: "string \<Rightarrow> cstate \<Rightarrow> nat \<times> cstate" where
  "addStringConstant val st =
     (case index_where (\<lambda>x. x = val) (stringPool st) of
        Some i \<Rightarrow> (i, st)
      | None \<Rightarrow> (cast_u32 (length (stringPool st)), st\<lparr>stringPool := stringPool st @ [val]\<rparr>))"

definition getOrCreateLocal :: "string \<Rightarrow> cstate \<Rightarrow> nat \<times> cstate" where
  "getOrCreateLocal name st =
     (case localSlots st name of
        Some slot \<Rightarrow> (slot, st)
      | None \<Rightarrow>
          (nextLocalSlot st,
           st\<lparr>nextLocalSlot := cast_u32 (nextLocalSlot st + 1),
              localSlots := (localSlots st)(name \<mapsto> nextLocalSlot st)\<rparr>))"

definition emitJump :: "opcode \<Rightarrow> cstate \<Rightarrow> nat \<times> cstate" where
  "emitJump opc st = (cast_u32 (length (instructions st)), emit opc 0xFFFFFFFF st)"

definition patchJump :: "nat \<Rightarrow> cstate \<Rightarrow> cstate" where
  "patchJump instrIndex st =
     st\<lparr>instructions := (instructions st)
          [instrIndex := (instructions st ! instrIndex)\<lparr>i_operand := cast_u32 (length (instructions st))\<rparr>]\<rparr>"

text \<open>Push instructions with their constant, a shape every literal shares.\<close>

definition emit_int :: "i64 \<Rightarrow> cstate \<Rightarrow> cstate" where
  "emit_int val st = (let (i, st) = addIntConstant val st in emit PUSH_INT i st)"

definition emit_int128 :: "int128 \<Rightarrow> cstate \<Rightarrow> cstate" where
  "emit_int128 val st = (let (i, st) = addInt128Constant val st in emit PUSH_INT128 i st)"

definition emit_float :: "double \<Rightarrow> cstate \<Rightarrow> cstate" where
  "emit_float val st = (let (i, st) = addFloatConstant val st in emit PUSH_FLOAT i st)"

section \<open>Number texts\<close>

text \<open>
  \<^verbatim>\<open>std::stoll\<close> and \<^verbatim>\<open>std::stoull\<close> in a given base: blanks, an optional sign, in base 16 an optional
  \<^verbatim>\<open>0x\<close>, then the longest run of digits; what follows is ignored.
\<close>

definition digit_in :: "int \<Rightarrow> char \<Rightarrow> int option" where
  "digit_in radix c =
     (let d = (if isdigit c then of_char c - 48
               else if islower c then of_char c - 87
               else if isupper c then of_char c - 55
               else 99)
      in if d < radix then Some d else None)"

definition strip_0x :: "int \<Rightarrow> string \<Rightarrow> string" where
  "strip_0x radix cs =
     (if radix = 16 \<and> 2 < length cs \<and> cs ! 0 = CHR ''0'' \<and> (cs ! 1 = CHR ''x'' \<or> cs ! 1 = CHR ''X'')
         \<and> digit_in 16 (cs ! 2) \<noteq> None
      then drop 2 cs else cs)"

definition parse_radix :: "int \<Rightarrow> string \<Rightarrow> (bool \<times> int) option" where
  "parse_radix radix text =
     (let (neg, cs) = split_sign (skip_spaces text);
          ds = takeWhile (\<lambda>c. digit_in radix c \<noteq> None) (strip_0x radix cs)
      in if ds = [] then None
         else Some (neg, foldl (\<lambda>acc c. acc * radix + the (digit_in radix c)) 0 ds))"

definition stoll :: "int \<Rightarrow> string \<Rightarrow> conversion_error + i64" where
  "stoll radix text =
     (case parse_radix radix text of
        None \<Rightarrow> Inl InvalidArgument
      | Some (neg, n) \<Rightarrow>
          (let v = with_sign neg n
           in if - 9223372036854775808 \<le> v \<and> v \<le> 9223372036854775807 then Inr (word_of_int v)
              else Inl OutOfRange))"

definition stoull :: "int \<Rightarrow> string \<Rightarrow> conversion_error + u64" where
  "stoull radix text =
     (case parse_radix radix text of
        None \<Rightarrow> Inl InvalidArgument
      | Some (neg, n) \<Rightarrow>
          (if n \<le> 18446744073709551615 then Inr (word_of_int (with_sign neg n)) else Inl OutOfRange))"

end
