(* ===== verification/Bytecode_Compiler.thy ===== *)
theory Bytecode_Compiler
  imports Bytecode
begin

text \<open>
  \<^verbatim>\<open>class BytecodeCompiler\<close> of \<^verbatim>\<open>evaluator/ConstEvaluator.cpp\<close>, one definition per member function.
  A compile function maps a state to a state, or to \<^const>\<open>None\<close> where the C++ call does not return:
  an exception of \<^verbatim>\<open>std::stoll\<close>, \<^verbatim>\<open>std::stoull\<close> or \<^verbatim>\<open>std::stod\<close> that no handler here catches, or a
  conversion of a double that is out of the range of \<^verbatim>\<open>int64_t\<close>. Errors the compiler reports are
  the flag \<open>hadError\<close> of the state. \<^verbatim>\<open>std::pow(10.0, x)\<close> comes from the C mathematics library and is
  the parameter \<open>pw\<close>.
\<close>

section \<open>Literals and identifiers\<close>

definition clean_digits :: "string \<Rightarrow> string" where
  "clean_digits cs = filter (\<lambda>c. c \<noteq> CHR ''_'' \<and> c \<noteq> CHR 0x27) cs"

definition strip_unsigned :: "string \<Rightarrow> string" where
  "strip_unsigned cs =
     (if cs \<noteq> [] \<and> (last cs = CHR ''u'' \<or> last cs = CHR ''U'') then butlast cs else cs)"

definition split_radix :: "string \<Rightarrow> int \<times> string" where
  "split_radix cs =
     (if 2 < length cs \<and> cs ! 0 = CHR ''0'' then
        (if cs ! 1 = CHR ''x'' \<or> cs ! 1 = CHR ''X'' then (16, drop 2 cs)
         else if cs ! 1 = CHR ''b'' \<or> cs ! 1 = CHR ''B'' then (2, drop 2 cs)
         else (10, cs))
      else (10, cs))"

definition is_e :: "char \<Rightarrow> bool" where
  "is_e c \<longleftrightarrow> c = CHR ''e'' \<or> c = CHR ''E''"

definition compile_scientific :: "(double \<Rightarrow> double) \<Rightarrow> string \<Rightarrow> cstate \<Rightarrow> cstate option" where
  "compile_scientific pw cleaned st =
     (case (stod (takeWhile (\<lambda>c. \<not> is_e c) cleaned), stod (tl (dropWhile (\<lambda>c. \<not> is_e c) cleaned))) of
        (Inr base, Inr ex) \<Rightarrow>
          (case double_to_i64 (dmul base (pw ex)) of
             Some v \<Rightarrow> Some (emit_int v st)
           | None \<Rightarrow> None)
      | _ \<Rightarrow> None)"

text \<open>The handler of \<^verbatim>\<open>std::out_of_range\<close>: a hexadecimal literal is split into two halves.\<close>

definition compile_wide :: "int \<Rightarrow> string \<Rightarrow> cstate \<Rightarrow> cstate option" where
  "compile_wide radix cleaned st =
     (if radix = 16 then
        (if length cleaned \<le> 16 then
           (case stoull 16 cleaned of
              Inr low \<Rightarrow> Some (emit_int128 \<lparr>i_high = 0, i_low = low\<rparr> st)
            | Inl _ \<Rightarrow> None)
         else
           (let lowStr = drop (length cleaned - 16) cleaned;
                highStr = take (length cleaned - 16) cleaned
            in case (stoull 16 lowStr, stoull 16 highStr) of
                 (Inr low, Inr high) \<Rightarrow> Some (emit_int128 \<lparr>i_high = high, i_low = low\<rparr> st)
               | _ \<Rightarrow> None))
      else Some (fail st))"

definition compileIntegerLiteral :: "(double \<Rightarrow> double) \<Rightarrow> string \<Rightarrow> cstate \<Rightarrow> cstate option" where
  "compileIntegerLiteral pw value st =
     (let (radix, cleaned) = split_radix (strip_unsigned (clean_digits value)) in
      if radix = 10 \<and> list_ex is_e cleaned then compile_scientific pw cleaned st
      else (case stoll radix cleaned of
              Inr val \<Rightarrow> Some (emit_int val st)
            | Inl InvalidArgument \<Rightarrow> None
            | Inl OutOfRange \<Rightarrow> compile_wide radix cleaned st))"

definition compileFloatLiteral :: "string \<Rightarrow> cstate \<Rightarrow> cstate option" where
  "compileFloatLiteral value st =
     (case stod value of
        Inr val \<Rightarrow> Some (emit_float val st)
      | Inl OutOfRange \<Rightarrow> Some (fail st)
      | Inl InvalidArgument \<Rightarrow> None)"

definition compileBooleanLiteral :: "string \<Rightarrow> cstate \<Rightarrow> cstate" where
  "compileBooleanLiteral value st = emit PUSH_BOOL (if value = ''true'' then 1 else 0) st"

definition emit_constant :: "const_value \<Rightarrow> cstate \<Rightarrow> cstate" where
  "emit_constant val st =
     (case cv_kind val of
        CV_Integer \<Rightarrow> emit_int (intVal val) st
      | CV_Integer128 \<Rightarrow> emit_int128 (int128Val val) st
      | CV_Float \<Rightarrow> emit_float (floatVal val) st
      | CV_Bool \<Rightarrow> emit PUSH_BOOL (if boolVal val then 1 else 0) st
      | _ \<Rightarrow> fail st)"

definition compileIdentifier :: "string \<Rightarrow> cstate \<Rightarrow> cstate" where
  "compileIdentifier name st =
     (case localSlots st name of
        Some slot \<Rightarrow> emit LOAD_LOCAL slot st
      | None \<Rightarrow>
          (case constants st name of
             Some val \<Rightarrow> emit_constant val st
           | None \<Rightarrow> fail st))"

section \<open>Operators\<close>

text \<open>The two switches over the operator token: opcode, and whether it carries the mode.\<close>

definition binary_opcode :: "token_type \<Rightarrow> (opcode \<times> bool) option" where
  "binary_opcode opr =
     (if opr = T_PLUS then Some (ADD_INT, True)
      else if opr = T_MINUS then Some (SUB_INT, True)
      else if opr = T_STAR then Some (MUL_INT, True)
      else if opr = T_SLASH then Some (DIV_INT, True)
      else if opr = T_PERCENT then Some (MOD_INT, True)
      else if opr = T_EQUAL_EQUAL then Some (CMP_EQ_INT, False)
      else if opr = T_BANG_EQUAL then Some (CMP_NE_INT, False)
      else if opr = T_LESS then Some (CMP_LT_INT, False)
      else if opr = T_LESS_EQUAL then Some (CMP_LE_INT, False)
      else if opr = T_GREATER then Some (CMP_GT_INT, False)
      else if opr = T_GREATER_EQUAL then Some (CMP_GE_INT, False)
      else if opr = T_LESS_LESS then Some (SHL_INT, False)
      else if opr = T_GREATER_GREATER then Some (SHR_INT, False)
      else if opr = T_AMPERSAND then Some (AND_INT, False)
      else if opr = T_PIPE then Some (OR_INT, False)
      else if opr = T_CARET then Some (XOR_INT, False)
      else if opr = T_AND_AND then Some (LOGIC_AND, False)
      else if opr = T_OR_OR then Some (LOGIC_OR, False)
      else None)"

definition emit_binary :: "token_type \<Rightarrow> overflow_mode \<Rightarrow> cstate \<Rightarrow> cstate" where
  "emit_binary opr mode st =
     (case binary_opcode opr of
        Some (opc, moded) \<Rightarrow> emit opc (if moded then mode_code mode else 0) st
      | None \<Rightarrow> fail st)"

definition emit_unary :: "token_type \<Rightarrow> overflow_mode \<Rightarrow> cstate \<Rightarrow> cstate" where
  "emit_unary opr mode st =
     (if opr = T_MINUS then emit NEG_INT (mode_code mode) st
      else if opr = T_BANG then emit LOGIC_NOT 0 st
      else if opr = T_TILDE then emit NOT_INT 0 st
      else fail st)"

definition emit_cast :: "type_t \<Rightarrow> cstate \<Rightarrow> cstate" where
  "emit_cast target st =
     (if kind target = TK_INTEGER then
        emit CAST_INT
          (cast_u32 (ty_size (attrs target)) OR (if ty_sign (attrs target) then 65536 else 0)) st
      else if kind target = TK_F32 \<or> kind target = TK_F64 then
        emit CAST_FLOAT (if kind target = TK_F32 then 32 else 64) st
      else fail st)"

section \<open>Expressions\<close>

fun compileExpression :: "(double \<Rightarrow> double) \<Rightarrow> expr \<Rightarrow> cstate \<Rightarrow> cstate option"
  and compileArguments :: "(double \<Rightarrow> double) \<Rightarrow> expr list \<Rightarrow> cstate \<Rightarrow> cstate option" where
  "compileExpression pw (IntegerLiteral v) st =
     (if hadError st then Some st else compileIntegerLiteral pw v st)"
| "compileExpression pw (FloatLiteral v) st =
     (if hadError st then Some st else compileFloatLiteral v st)"
| "compileExpression pw (BooleanLiteral v) st =
     (if hadError st then Some st else Some (compileBooleanLiteral v st))"
| "compileExpression pw (Identifier name) st =
     (if hadError st then Some st else Some (compileIdentifier name st))"
| "compileExpression pw (FieldAccess obj field) st =
     (if hadError st then Some st
      else (case obj of
              Identifier name \<Rightarrow> Some (compileIdentifier (name @ ''.'' @ field) st)
            | _ \<Rightarrow> Some (fail st)))"
| "compileExpression pw (BinaryExpression opr l r mode) st =
     (if hadError st then Some st
      else do {
        st \<leftarrow> compileExpression pw l st;
        if hadError st then Some st
        else do {
          st \<leftarrow> compileExpression pw r st;
          if hadError st then Some st else Some (emit_binary opr mode st)
        }
      })"
| "compileExpression pw (UnaryExpression opr e mode) st =
     (if hadError st then Some st
      else do {
        st \<leftarrow> compileExpression pw e st;
        if hadError st then Some st else Some (emit_unary opr mode st)
      })"
| "compileExpression pw (CastExpression e target) st =
     (if hadError st then Some st
      else do {
        st \<leftarrow> compileExpression pw e st;
        if hadError st then Some st else Some (emit_cast target st)
      })"
| "compileExpression pw (FunctionCall name args) st =
     (if hadError st then Some st
      else if (name = ''likely'' \<or> name = ''unlikely'') \<and> length args = 1
      then compileArguments pw args st
      else (case functionIndex st name of
              None \<Rightarrow> Some (fail st)
            | Some i \<Rightarrow> do {
                st \<leftarrow> compileArguments pw args st;
                if hadError st then Some st else Some (emit CALL i st)
              }))"
| "compileExpression pw (VariableInit name e) st =
     (if hadError st then Some st
      else do {
        st \<leftarrow> compileExpression pw e st;
        if hadError st then Some st
        else (let (slot, st) = getOrCreateLocal name st in Some (emit STORE_LOCAL slot st))
      })"
| "compileExpression pw (Assignment name e) st =
     (if hadError st then Some st
      else do {
        st \<leftarrow> compileExpression pw e st;
        if hadError st then Some st
        else (case localSlots st name of
                None \<Rightarrow> Some (fail st)
              | Some slot \<Rightarrow> Some (emit STORE_LOCAL slot st))
      })"
| "compileExpression pw OtherExpression st =
     (if hadError st then Some st else Some (fail st))"
| "compileArguments pw [] st = Some st"
| "compileArguments pw (e # es) st =
     do {
       st \<leftarrow> compileExpression pw e st;
       if hadError st then Some st else compileArguments pw es st
     }"

definition compile_opt :: "(double \<Rightarrow> double) \<Rightarrow> expr option \<Rightarrow> cstate \<Rightarrow> cstate option" where
  "compile_opt pw e st = (case e of None \<Rightarrow> Some st | Some e \<Rightarrow> compileExpression pw e st)"

section \<open>Statements\<close>

definition compileReturnStatement :: "(double \<Rightarrow> double) \<Rightarrow> expr option \<Rightarrow> cstate \<Rightarrow> cstate option" where
  "compileReturnStatement pw value st =
     do {
       st \<leftarrow> (case value of Some e \<Rightarrow> compileExpression pw e st | None \<Rightarrow> Some (emit_int 0 st));
       Some (emit RET 0 st)
     }"

definition thrown_name :: "expr option \<Rightarrow> string" where
  "thrown_name e =
     (case e of Some (FunctionCall name args) \<Rightarrow> name | Some (Identifier name) \<Rightarrow> name | _ \<Rightarrow> [])"

definition compileThrowStatement :: "expr option \<Rightarrow> cstate \<Rightarrow> cstate" where
  "compileThrowStatement e st =
     (let (i, st) = addStringConstant (thrown_name e) st in emit THROW i st)"

definition compileExpressionStatement :: "(double \<Rightarrow> double) \<Rightarrow> expr \<Rightarrow> cstate \<Rightarrow> cstate option" where
  "compileExpressionStatement pw e st =
     do {
       st \<leftarrow> compileExpression pw e st;
       if hadError st then Some st
       else (case e of VariableInit _ _ \<Rightarrow> Some st | Assignment _ _ \<Rightarrow> Some st | _ \<Rightarrow> Some (emit POP 0 st))
     }"

fun compileStatement :: "(double \<Rightarrow> double) \<Rightarrow> stmt \<Rightarrow> cstate \<Rightarrow> cstate option"
  and compileBlock :: "(double \<Rightarrow> double) \<Rightarrow> stmt list \<Rightarrow> cstate \<Rightarrow> cstate option" where
  "compileStatement pw (ReturnStatement value) st =
     (if hadError st then Some st else compileReturnStatement pw value st)"
| "compileStatement pw (ThrowStatement e) st =
     (if hadError st then Some st else Some (compileThrowStatement e st))"
| "compileStatement pw (IfStatement cond thenBranch elseBranch) st =
     (if hadError st then Some st
      else do {
        st \<leftarrow> compileExpression pw cond st;
        if hadError st then Some st
        else (let (jumpToElse, st) = emitJump JMP_IF_FALSE st in do {
          st \<leftarrow> (case thenBranch of Some b \<Rightarrow> compileBlock pw b st | None \<Rightarrow> Some st);
          (case elseBranch of
             Some b \<Rightarrow>
               (let (jumpToEnd, st) = emitJump JMP st; st = patchJump jumpToElse st in do {
                  st \<leftarrow> compileBlock pw b st;
                  Some (patchJump jumpToEnd st)
                })
           | None \<Rightarrow> Some (patchJump jumpToElse st))
        })
      })"
| "compileStatement pw (WhileStatement cond body) st =
     (if hadError st then Some st
      else (let loopStart = cast_u32 (length (instructions st)) in do {
        st \<leftarrow> compileExpression pw cond st;
        if hadError st then Some st
        else (let (jumpToEnd, st) = emitJump JMP_IF_FALSE st in do {
          st \<leftarrow> (case body of Some b \<Rightarrow> compileBlock pw b st | None \<Rightarrow> Some st);
          Some (patchJump jumpToEnd (emit JMP loopStart st))
        })
      }))"
| "compileStatement pw (ForStatement initializer cond postfix body) st =
     (if hadError st then Some st
      else do {
        st \<leftarrow> compile_opt pw initializer st;
        let loopStart = cast_u32 (length (instructions st)) in do {
          st \<leftarrow> compile_opt pw cond st;
          if cond \<noteq> None \<and> hadError st then Some st
          else (let (jumpToEnd, st) = (if cond \<noteq> None then emitJump JMP_IF_FALSE st else (0, st)) in do {
            st \<leftarrow> (case body of Some b \<Rightarrow> compileBlock pw b st | None \<Rightarrow> Some st);
            st \<leftarrow> compile_opt pw postfix st;
            let st = emit JMP loopStart st
            in Some (if cond \<noteq> None then patchJump jumpToEnd st else st)
          })
        }
      })"
| "compileStatement pw (Block ss) st =
     (if hadError st then Some st else compileBlock pw ss st)"
| "compileStatement pw (ExpressionStatement e) st =
     (if hadError st then Some st else compileExpressionStatement pw e st)"
| "compileStatement pw OtherStatement st =
     (if hadError st then Some st else Some (fail st))"
| "compileBlock pw [] st = Some st"
| "compileBlock pw (s # ss) st =
     do {
       st \<leftarrow> compileStatement pw s st;
       if hadError st then Some st else compileBlock pw ss st
     }"

section \<open>Entry points\<close>

definition compile :: "(double \<Rightarrow> double) \<Rightarrow> expr \<Rightarrow> cstate \<Rightarrow> (bool \<times> cstate) option" where
  "compile pw e st =
     do {
       st \<leftarrow> compileExpression pw e
         (st\<lparr>instructions := [], intPool := [], int128Pool := [], floatPool := [], stringPool := [],
             localSlots := Map.empty, nextLocalSlot := 0, hadError := False\<rparr>);
       let st = (if hadError st then st else emit HALT 0 st)
       in Some (\<not> hadError st, st)
     }"

definition defineConstant :: "string \<Rightarrow> const_value \<Rightarrow> cstate \<Rightarrow> cstate" where
  "defineConstant name value st = st\<lparr>constants := (constants st)(name \<mapsto> value)\<rparr>"

record function_declaration =
  fd_parameters :: "string list"
  fd_body :: "stmt list option"

definition registerFunction :: "string \<Rightarrow> string list \<Rightarrow> stmt list \<Rightarrow> cstate \<Rightarrow> nat \<times> cstate" where
  "registerFunction name params body st =
     (case functionIndex st name of
        Some i \<Rightarrow> (i, st)
      | None \<Rightarrow>
          (let idx = cast_u32 (length (functionTable st)) in
           (idx, st\<lparr>functionIndex := (functionIndex st)(name \<mapsto> idx),
                    functionTable := functionTable st @
                      [\<lparr>cf_name = name, numParams = cast_u32 (length params), numLocals = 0, codeStart = 0\<rparr>],
                    pendingFunctions := AList.update name \<lparr>paramNames = params, fn_body = Some body\<rparr>
                      (pendingFunctions st)\<rparr>)))"

definition registerDeclaration :: "string \<Rightarrow> function_declaration \<Rightarrow> cstate \<Rightarrow> nat \<times> cstate" where
  "registerDeclaration name func st =
     (case fd_body func of
        Some body \<Rightarrow> registerFunction name (fd_parameters func) body st
      | None \<Rightarrow>
          (case functionIndex st name of
             Some i \<Rightarrow> (i, st)
           | None \<Rightarrow>
               (let idx = cast_u32 (length (functionTable st)) in
                (idx, st\<lparr>functionIndex := (functionIndex st)(name \<mapsto> idx),
                         functionTable := functionTable st @
                           [\<lparr>cf_name = name, numParams = cast_u32 (length (fd_parameters func)),
                             numLocals = 0, codeStart = InvalidCodeStart\<rparr>]\<rparr>))))"

definition set_function :: "nat \<Rightarrow> (compiled_function \<Rightarrow> compiled_function) \<Rightarrow> cstate \<Rightarrow> cstate" where
  "set_function i f st =
     st\<lparr>functionTable := (functionTable st)[i := f (functionTable st ! i)]\<rparr>"

text \<open>The part of \<^verbatim>\<open>compileFunction\<close> that has a body to compile.\<close>

definition compile_body ::
  "(double \<Rightarrow> double) \<Rightarrow> nat \<Rightarrow> string list \<Rightarrow> stmt list \<Rightarrow> cstate \<Rightarrow> (bool \<times> cstate) option" where
  "compile_body pw funcIdx params body st =
     (let savedLocals = localSlots st;
          savedNextSlot = nextLocalSlot st;
          st1 = st\<lparr>hadError := False, localSlots := Map.empty, nextLocalSlot := 0\<rparr>;
          st2 = set_function funcIdx
                  (\<lambda>f. f\<lparr>codeStart := cast_u32 (length (instructions st1))\<rparr>) st1;
          st3 = fold (\<lambda>p st. snd (getOrCreateLocal p st)) params st2
      in do {
        st4 \<leftarrow> compileBlock pw body st3;
        let st5 = emit RET 0 (emit_int 0 st4);
            st6 = set_function funcIdx (\<lambda>f. f\<lparr>numLocals := nextLocalSlot st5\<rparr>) st5;
            st7 = st6\<lparr>localSlots := savedLocals, nextLocalSlot := savedNextSlot\<rparr>
        in if hadError st7
           then Some (False, set_function funcIdx (\<lambda>f. f\<lparr>codeStart := InvalidCodeStart\<rparr>) st7)
           else Some (True, st7)
      })"

definition compileFunction :: "(double \<Rightarrow> double) \<Rightarrow> string \<Rightarrow> cstate \<Rightarrow> (bool \<times> cstate) option" where
  "compileFunction pw name st =
     (case functionIndex st name of
        None \<Rightarrow> Some (False, fail st)
      | Some funcIdx \<Rightarrow>
          (case Option.bind (map_of (pendingFunctions st) name)
                  (\<lambda>pending. map_option (\<lambda>body. (paramNames pending, body)) (fn_body pending)) of
             Some (params, body) \<Rightarrow> compile_body pw funcIdx params body st
           | None \<Rightarrow>
               Some (False, fail (set_function funcIdx (\<lambda>f. f\<lparr>codeStart := InvalidCodeStart\<rparr>) st))))"

fun compile_functions :: "(double \<Rightarrow> double) \<Rightarrow> string list \<Rightarrow> bool \<Rightarrow> cstate \<Rightarrow> (bool \<times> cstate) option" where
  "compile_functions pw [] ok st = Some (ok, st)"
| "compile_functions pw (name # names) ok st =
     do {
       (b, st) \<leftarrow> compileFunction pw name st;
       compile_functions pw names (ok \<and> b) st
     }"

definition compileAllFunctions :: "(double \<Rightarrow> double) \<Rightarrow> cstate \<Rightarrow> (bool \<times> cstate) option" where
  "compileAllFunctions pw st = compile_functions pw (map fst (pendingFunctions st)) True st"

fun push_arguments :: "const_value list \<Rightarrow> cstate \<Rightarrow> bool \<times> cstate" where
  "push_arguments [] st = (True, st)"
| "push_arguments (v # vs) st =
     (if cv_kind v \<in> {CV_Integer, CV_Integer128, CV_Float, CV_Bool}
      then push_arguments vs (emit_constant v st) else (False, st))"

definition compileCallDriver :: "string \<Rightarrow> const_value list \<Rightarrow> cstate \<Rightarrow> bool \<times> cstate" where
  "compileCallDriver name args st =
     (case functionIndex st name of
        None \<Rightarrow> (False, st)
      | Some i \<Rightarrow>
          (let (ok, st) = push_arguments args st
           in if ok then (True, emit HALT 0 (emit CALL i st)) else (False, st)))"

end
