(* ===== verification/Const_VM.thy ===== *)
theory Const_VM
  imports Bytecode
begin

text \<open>
  \<^verbatim>\<open>class ConstVM\<close> of \<^verbatim>\<open>evaluator/ConstEvaluator.cpp\<close>: the value stack, the locals and the call
  frames of the machine, one definition per group of cases of the instruction switch, and the
  loop of \<^verbatim>\<open>execute\<close>. The back of a C++ vector that is used as a stack is the head of a list. An
  instruction ends in one of four ways: the machine goes on, \<^verbatim>\<open>execute\<close> returns a value, an
  exception leaves \<^verbatim>\<open>execute\<close>, or the C++ has no defined behaviour (an index outside a pool, a
  conversion or a shift out of range). \<^verbatim>\<open>_heap\<close>, which no instruction uses, is left out.
\<close>

section \<open>State\<close>

record vm_config =
  maxStackSize :: nat
  maxLocals :: nat
  maxCallDepth :: nat
  maxIterations :: nat
  maxHeapSize :: nat
  initialHeapSize :: nat

definition default_config :: vm_config where
  "default_config =
     \<lparr>maxStackSize = 1024, maxLocals = 4096, maxCallDepth = 512, maxIterations = 1000000,
      maxHeapSize = 65536, initialHeapSize = 256\<rparr>"

record call_frame =
  returnIP :: nat
  localsBase :: nat
  fr_numLocals :: nat

record vm =
  stack :: "const_value list"
  locals :: "const_value list"
  callFrames :: "call_frame list"
  currentLocalsBase :: nat
  ip :: nat
  iterations :: nat

record program =
  p_code :: "instruction list"
  p_intPool :: "i64 list"
  p_int128Pool :: "int128 list"
  p_floatPool :: "double list"
  p_stringPool :: "string list"
  p_functions :: "compiled_function list"

datatype vm_result = Next vm | Returned const_value | Raised string | Undefined

definition stack_overflow :: string where
  "stack_overflow = ''consteval VM: stack overflow''"

definition stack_underflow :: string where
  "stack_underflow = ''consteval VM: stack underflow''"

definition push :: "vm_config \<Rightarrow> const_value \<Rightarrow> vm \<Rightarrow> vm_result" where
  "push cfg val m =
     (if maxStackSize cfg \<le> length (stack m) then Raised stack_overflow
      else Next (m\<lparr>stack := val # stack m\<rparr>))"

definition pop :: "vm \<Rightarrow> (const_value \<times> vm) option" where
  "pop m = (case stack m of [] \<Rightarrow> None | v # st \<Rightarrow> Some (v, m\<lparr>stack := st\<rparr>))"

text \<open>The \<^verbatim>\<open>ip++\<close> after an instruction that ends with \<^verbatim>\<open>break\<close>.\<close>

definition bump :: "vm_result \<Rightarrow> vm_result" where
  "bump r = (case r of Next m \<Rightarrow> Next (m\<lparr>ip := ip m + 1\<rparr>) | _ \<Rightarrow> r)"

definition finish :: "vm_config \<Rightarrow> op_result option \<Rightarrow> vm \<Rightarrow> vm_result" where
  "finish cfg r m =
     (case r of
        None \<Rightarrow> Undefined
      | Some (Abort v) \<Rightarrow> Returned v
      | Some (Push v) \<Rightarrow> bump (push cfg v m))"

definition binary_op ::
  "vm_config \<Rightarrow> (const_value \<Rightarrow> const_value \<Rightarrow> op_result option) \<Rightarrow> vm \<Rightarrow> vm_result" where
  "binary_op cfg f m =
     (case pop m of
        None \<Rightarrow> Raised stack_underflow
      | Some (r, m) \<Rightarrow>
          (case pop m of
             None \<Rightarrow> Raised stack_underflow
           | Some (l, m) \<Rightarrow> finish cfg (f l r) m))"

definition unary_op :: "vm_config \<Rightarrow> (const_value \<Rightarrow> op_result option) \<Rightarrow> vm \<Rightarrow> vm_result" where
  "unary_op cfg f m =
     (case pop m of
        None \<Rightarrow> Raised stack_underflow
      | Some (v, m) \<Rightarrow> finish cfg (f v) m)"

section \<open>Instructions\<close>

text \<open>Constants.\<close>

definition int_constant :: "i64 \<Rightarrow> const_value" where
  "int_constant v =
     makeInt v (if - 2147483648 \<le> sint v \<and> sint v \<le> 2147483647 then 32 else 64) True"

definition push_pool :: "vm_config \<Rightarrow> ('a \<Rightarrow> const_value) \<Rightarrow> 'a list \<Rightarrow> nat \<Rightarrow> vm \<Rightarrow> vm_result" where
  "push_pool cfg f pool i m =
     (if i < length pool then bump (push cfg (f (pool ! i)) m) else Undefined)"

text \<open>Comparisons, bitwise and logical operators, conversions, from operands to result.\<close>

definition cmp_int :: "(int \<Rightarrow> int \<Rightarrow> bool) \<Rightarrow> const_value \<Rightarrow> const_value \<Rightarrow> op_result option" where
  "cmp_int cmp l r = do { a \<leftarrow> toInt l; b \<leftarrow> toInt r; Some (Push (makeBool (cmp (sint a) (sint b)))) }"

definition cmp_float :: "(double \<Rightarrow> double \<Rightarrow> bool) \<Rightarrow> const_value \<Rightarrow> const_value \<Rightarrow> op_result option" where
  "cmp_float cmp l r = Some (Push (makeBool (cmp (toFloat l) (toFloat r))))"

definition float_op :: "(double \<Rightarrow> double \<Rightarrow> double) \<Rightarrow> const_value \<Rightarrow> const_value \<Rightarrow> op_result option" where
  "float_op f l r = Some (Push (makeFloat (f (toFloat l) (toFloat r)) 64))"

definition div_float :: "const_value \<Rightarrow> const_value \<Rightarrow> op_result option" where
  "div_float l r =
     (if deq (toFloat r) (dzero False) then Some (Abort cv_error)
      else Some (Push (makeFloat (ddiv (toFloat l) (toFloat r)) 64)))"

definition bit_int :: "(i64 \<Rightarrow> i64 \<Rightarrow> i64) \<Rightarrow> const_value \<Rightarrow> const_value \<Rightarrow> op_result option" where
  "bit_int f l r = do { a \<leftarrow> toInt l; b \<leftarrow> toInt r; Some (Push (makeInt (f a b) 32 True)) }"

definition shift_int :: "(nat \<Rightarrow> i64 \<Rightarrow> i64) \<Rightarrow> const_value \<Rightarrow> const_value \<Rightarrow> op_result option" where
  "shift_int f l r =
     do {
       a \<leftarrow> toInt l;
       b \<leftarrow> toInt r;
       if 0 \<le> sint b \<and> sint b < 64 then Some (Push (makeInt (f (nat (sint b)) a) 32 True)) else None
     }"

definition not_int :: "const_value \<Rightarrow> op_result option" where
  "not_int v = do { a \<leftarrow> toInt v; Some (Push (makeInt (NOT a) 32 True)) }"

definition logic :: "(bool \<Rightarrow> bool \<Rightarrow> bool) \<Rightarrow> const_value \<Rightarrow> const_value \<Rightarrow> op_result option" where
  "logic f l r = Some (Push (makeBool (f (toBool l) (toBool r))))"

definition cast_int :: "nat \<Rightarrow> const_value \<Rightarrow> op_result option" where
  "cast_int operand v =
     do { a \<leftarrow> toInt v; Some (Push (makeInt a (operand mod 65536) (odd (operand div 65536)))) }"

text \<open>Locals. The absolute slot is a \<^verbatim>\<open>uint32_t\<close> sum.\<close>

definition zero_local :: const_value where
  "zero_local = makeInt 0 32 True"

definition store_local :: "vm_config \<Rightarrow> nat \<Rightarrow> vm \<Rightarrow> vm_result" where
  "store_local cfg operand m =
     (case pop m of
        None \<Rightarrow> Raised stack_underflow
      | Some (val, m) \<Rightarrow>
          (let absSlot = cast_u32 (currentLocalsBase m + operand) in
           if maxLocals cfg \<le> absSlot then Returned cv_error
           else (let ls = (if length (locals m) \<le> absSlot
                           then resize (cast_u32 (absSlot + 64)) zero_local (locals m) else locals m)
                 in if absSlot < length ls then bump (Next (m\<lparr>locals := ls[absSlot := val]\<rparr>))
                    else Undefined)))"

definition load_local :: "vm_config \<Rightarrow> nat \<Rightarrow> vm \<Rightarrow> vm_result" where
  "load_local cfg operand m =
     (let absSlot = cast_u32 (currentLocalsBase m + operand) in
      if length (locals m) \<le> absSlot then Returned cv_error
      else bump (push cfg (locals m ! absSlot) m))"

text \<open>Jumps.\<close>

definition jump_if :: "bool \<Rightarrow> nat \<Rightarrow> vm \<Rightarrow> vm_result" where
  "jump_if sense target m =
     (case pop m of
        None \<Rightarrow> Raised stack_underflow
      | Some (cond, m) \<Rightarrow>
          if toBool cond = sense then Next (m\<lparr>ip := target\<rparr>) else bump (Next m))"

text \<open>
  Calls. The loop that pops the arguments counts a C++ \<^verbatim>\<open>int\<close> down from the number of parameters;
  a parameter slot outside the locals would be written out of bounds.
\<close>

fun pop_args :: "nat \<Rightarrow> nat \<Rightarrow> vm \<Rightarrow> vm_result" where
  "pop_args base 0 m = Next m"
| "pop_args base (Suc i) m =
     (case pop m of
        None \<Rightarrow> Raised stack_underflow
      | Some (v, m) \<Rightarrow>
          if base + i < length (locals m)
          then pop_args base i (m\<lparr>locals := (locals m)[base + i := v]\<rparr>) else Undefined)"

definition call_function :: "vm_config \<Rightarrow> program \<Rightarrow> nat \<Rightarrow> vm \<Rightarrow> vm_result" where
  "call_function cfg prog operand m =
     (if length (p_functions prog) \<le> operand then Returned cv_error
      else (let func = p_functions prog ! operand in
            if codeStart func = InvalidCodeStart then Returned cv_error
            else if maxCallDepth cfg \<le> length (callFrames m) then Returned cv_error
            else (let frame = \<lparr>returnIP = cast_u32 (ip m + 1), localsBase = currentLocalsBase m,
                               fr_numLocals = numLocals func\<rparr>;
                      base = cast_u32 (length (locals m));
                      m1 = m\<lparr>callFrames := frame # callFrames m, currentLocalsBase := base,
                             locals := resize (cast_u32 (base + numLocals func)) zero_local (locals m)\<rparr>;
                      n = (if numParams func < 2147483648 then numParams func else 0)
                  in case pop_args base n m1 of
                       Next m2 \<Rightarrow> Next (m2\<lparr>ip := codeStart func\<rparr>)
                     | r \<Rightarrow> r)))"

text \<open>Return. The slots \<^verbatim>\<open>resize\<close> adds are default values, whose kind is the error.\<close>

definition return_function :: "vm_config \<Rightarrow> vm \<Rightarrow> vm_result" where
  "return_function cfg m =
     (case pop m of
        None \<Rightarrow> Raised stack_underflow
      | Some (retVal, m) \<Rightarrow>
          (case callFrames m of
             [] \<Rightarrow> Returned retVal
           | frame # frames \<Rightarrow>
               (let m1 = m\<lparr>callFrames := frames,
                           locals := resize (cast_u32 (localsBase frame + fr_numLocals frame)) cv_error (locals m),
                           currentLocalsBase := localsBase frame\<rparr>
                in case push cfg retVal m1 of
                     Next m2 \<Rightarrow> Next (m2\<lparr>ip := returnIP frame\<rparr>)
                   | r \<Rightarrow> r)))"

definition halt :: "vm \<Rightarrow> vm_result" where
  "halt m = (case stack m of [] \<Rightarrow> Returned makeVoid | v # st \<Rightarrow> Returned v)"

definition throw_error :: "program \<Rightarrow> nat \<Rightarrow> vm_result" where
  "throw_error prog operand =
     Returned (cv_thrown (if operand < length (p_stringPool prog) then p_stringPool prog ! operand else []))"

section \<open>The switch and the loop\<close>

definition exec_instr :: "vm_config \<Rightarrow> program \<Rightarrow> instruction \<Rightarrow> vm \<Rightarrow> vm_result" where
  "exec_instr cfg prog instr m =
     (let n = i_operand instr in
      case i_op instr of
        PUSH_INT \<Rightarrow> push_pool cfg int_constant (p_intPool prog) n m
      | PUSH_INT128 \<Rightarrow> push_pool cfg (\<lambda>x. makeInt128 x True) (p_int128Pool prog) n m
      | PUSH_FLOAT \<Rightarrow> push_pool cfg (\<lambda>x. makeFloat x 64) (p_floatPool prog) n m
      | PUSH_BOOL \<Rightarrow> bump (push cfg (makeBool (n \<noteq> 0)) m)
      | POP \<Rightarrow> (case pop m of None \<Rightarrow> Raised stack_underflow | Some (v, m) \<Rightarrow> bump (Next m))
      | ADD_INT \<Rightarrow> binary_op cfg (add_values (mode_of n)) m
      | SUB_INT \<Rightarrow> binary_op cfg (sub_values (mode_of n)) m
      | MUL_INT \<Rightarrow> binary_op cfg (mul_values (mode_of n)) m
      | DIV_INT \<Rightarrow> binary_op cfg (div_values (mode_of n)) m
      | MOD_INT \<Rightarrow> binary_op cfg (mod_values (mode_of n)) m
      | NEG_INT \<Rightarrow> unary_op cfg (neg_value (mode_of n)) m
      | ADD_FLOAT \<Rightarrow> binary_op cfg (float_op dadd) m
      | SUB_FLOAT \<Rightarrow> binary_op cfg (float_op dsub) m
      | MUL_FLOAT \<Rightarrow> binary_op cfg (float_op dmul) m
      | DIV_FLOAT \<Rightarrow> binary_op cfg div_float m
      | NEG_FLOAT \<Rightarrow> unary_op cfg (\<lambda>v. Some (Push (makeFloat (dneg (toFloat v)) (bitWidth v)))) m
      | CMP_EQ_INT \<Rightarrow> binary_op cfg (cmp_int (=)) m
      | CMP_NE_INT \<Rightarrow> binary_op cfg (cmp_int (\<noteq>)) m
      | CMP_LT_INT \<Rightarrow> binary_op cfg (cmp_int (<)) m
      | CMP_LE_INT \<Rightarrow> binary_op cfg (cmp_int (\<le>)) m
      | CMP_GT_INT \<Rightarrow> binary_op cfg (cmp_int (>)) m
      | CMP_GE_INT \<Rightarrow> binary_op cfg (cmp_int (\<ge>)) m
      | CMP_EQ_FLOAT \<Rightarrow> binary_op cfg (cmp_float deq) m
      | CMP_NE_FLOAT \<Rightarrow> binary_op cfg (cmp_float (\<lambda>x y. \<not> deq x y)) m
      | CMP_LT_FLOAT \<Rightarrow> binary_op cfg (cmp_float dless) m
      | CMP_LE_FLOAT \<Rightarrow> binary_op cfg (cmp_float dle) m
      | CMP_GT_FLOAT \<Rightarrow> binary_op cfg (cmp_float (\<lambda>x y. dless y x)) m
      | CMP_GE_FLOAT \<Rightarrow> binary_op cfg (cmp_float (\<lambda>x y. dle y x)) m
      | SHL_INT \<Rightarrow> binary_op cfg (shift_int push_bit) m
      | SHR_INT \<Rightarrow> binary_op cfg (shift_int signed_drop_bit) m
      | AND_INT \<Rightarrow> binary_op cfg (bit_int (AND)) m
      | OR_INT \<Rightarrow> binary_op cfg (bit_int (OR)) m
      | XOR_INT \<Rightarrow> binary_op cfg (bit_int (XOR)) m
      | NOT_INT \<Rightarrow> unary_op cfg not_int m
      | LOGIC_AND \<Rightarrow> binary_op cfg (logic (\<and>)) m
      | LOGIC_OR \<Rightarrow> binary_op cfg (logic (\<or>)) m
      | LOGIC_NOT \<Rightarrow> unary_op cfg (\<lambda>v. Some (Push (makeBool (\<not> toBool v)))) m
      | INT_TO_FLOAT \<Rightarrow> unary_op cfg (\<lambda>v. Some (Push (makeFloat (double_of_int (sint (intVal v))) 64))) m
      | FLOAT_TO_INT \<Rightarrow>
          unary_op cfg (\<lambda>v. map_option (\<lambda>a. Push (makeInt a 32 True)) (double_to_i64 (floatVal v))) m
      | BOOL_TO_INT \<Rightarrow> unary_op cfg (\<lambda>v. Some (Push (makeInt (if boolVal v then 1 else 0) 32 True))) m
      | INT_TO_BOOL \<Rightarrow> unary_op cfg (\<lambda>v. Some (Push (makeBool (intVal v \<noteq> 0)))) m
      | CAST_INT \<Rightarrow> unary_op cfg (cast_int n) m
      | CAST_FLOAT \<Rightarrow> unary_op cfg (\<lambda>v. Some (Push (makeFloat (toFloat v) n))) m
      | STORE_LOCAL \<Rightarrow> store_local cfg n m
      | LOAD_LOCAL \<Rightarrow> load_local cfg n m
      | JMP \<Rightarrow> Next (m\<lparr>ip := n\<rparr>)
      | JMP_IF_FALSE \<Rightarrow> jump_if False n m
      | JMP_IF_TRUE \<Rightarrow> jump_if True n m
      | CALL \<Rightarrow> call_function cfg prog n m
      | RET \<Rightarrow> return_function cfg m
      | THROW \<Rightarrow> throw_error prog n
      | HALT \<Rightarrow> halt m)"

text \<open>One round of the loop: the iteration count is a \<^verbatim>\<open>uint32_t\<close> that is incremented first.\<close>

definition loop_step :: "vm_config \<Rightarrow> program \<Rightarrow> vm \<Rightarrow> vm_result" where
  "loop_step cfg prog m =
     (if ip m < length (p_code prog) then
        (let m = m\<lparr>iterations := cast_u32 (iterations m + 1)\<rparr> in
         if maxIterations cfg < iterations m then Returned cv_error
         else exec_instr cfg prog (p_code prog ! ip m) m)
      else if stack m \<noteq> [] then Returned (hd (stack m))
      else Returned cv_error)"

partial_function (option) run :: "vm_config \<Rightarrow> program \<Rightarrow> vm \<Rightarrow> vm_result option" where
  "run cfg prog m =
     (case loop_step cfg prog m of
        Next m' \<Rightarrow> run cfg prog m'
      | r \<Rightarrow> Some r)"

declare run.simps [code]

definition initial_vm :: "vm_config \<Rightarrow> vm" where
  "initial_vm cfg =
     \<lparr>stack = [], locals = replicate (min (initialHeapSize cfg) (maxLocals cfg)) zero_local,
      callFrames = [], currentLocalsBase = 0, ip = 0, iterations = 0\<rparr>"

definition execute :: "vm_config \<Rightarrow> program \<Rightarrow> vm_result option" where
  "execute cfg prog = run cfg prog (initial_vm cfg)"

end
