(* ===== verification/VM_Correct.thy ===== *)
theory VM_Correct
  imports Const_VM
begin

text \<open>
  What the machine guarantees whatever code it is given: every run ends, within the configured
  number of iterations, and the value stack and the call stack never grow past their limits.
\<close>

section \<open>What an instruction keeps\<close>

text \<open>
  Every instruction leaves the iteration count alone, and the sizes of the two stacks within
  their limits.
\<close>

definition within_limits :: "vm_config \<Rightarrow> vm \<Rightarrow> bool" where
  "within_limits cfg m \<longleftrightarrow>
     length (stack m) \<le> maxStackSize cfg \<and> length (callFrames m) \<le> maxCallDepth cfg"

definition tame :: "vm_config \<Rightarrow> vm \<Rightarrow> vm_result \<Rightarrow> bool" where
  "tame cfg m r \<longleftrightarrow>
     (\<forall>m'. r = Next m' \<longrightarrow> iterations m' = iterations m \<and> within_limits cfg m')"

lemma tame_simps [simp]:
  "tame cfg m (Returned v)" "tame cfg m (Raised e)" "tame cfg m Undefined"
  "tame cfg m (Next m') \<longleftrightarrow> iterations m' = iterations m \<and> within_limits cfg m'"
  by (simp_all add: tame_def)

lemma within_limits_frame [simp]:
  "within_limits cfg (m\<lparr>ip := i\<rparr>) = within_limits cfg m"
  "within_limits cfg (m\<lparr>locals := l\<rparr>) = within_limits cfg m"
  "within_limits cfg (m\<lparr>currentLocalsBase := b\<rparr>) = within_limits cfg m"
  "within_limits cfg (m\<lparr>iterations := k\<rparr>) = within_limits cfg m"
  by (simp_all add: within_limits_def)

lemma tame_bump [simp]: "tame cfg m (bump r) = tame cfg m r"
  by (cases r) (simp_all add: bump_def)

lemma tame_push: "within_limits cfg m \<Longrightarrow> tame cfg m (push cfg v m)"
  by (simp add: push_def within_limits_def)

lemma pop_within:
  assumes "pop m = Some (v, m')" "within_limits cfg m"
  shows "within_limits cfg m'" "iterations m' = iterations m" "callFrames m' = callFrames m"
    "length (stack m) = Suc (length (stack m'))"
  using assms by (auto simp: pop_def within_limits_def split: list.splits)

lemma tame_same: "iterations m' = iterations m \<Longrightarrow> tame cfg m' r \<Longrightarrow> tame cfg m r"
  by (simp add: tame_def)

lemma tame_finish: "within_limits cfg m \<Longrightarrow> tame cfg m (finish cfg r m)"
  by (auto simp: finish_def tame_push split: option.split op_result.split)

lemma tame_unary: "within_limits cfg m \<Longrightarrow> tame cfg m (unary_op cfg f m)"
  by (auto simp: unary_op_def split: option.split
      intro: tame_same [OF _ tame_finish] dest: pop_within)

lemma tame_binary: "within_limits cfg m \<Longrightarrow> tame cfg m (binary_op cfg f m)"
proof -
  assume w: "within_limits cfg m"
  have "tame cfg m (finish cfg (f l r) m2)" if "pop m = Some (r, m1)" "pop m1 = Some (l, m2)" for l r m1 m2
    using pop_within [OF that(1) w] pop_within [OF that(2)] by (intro tame_same [OF _ tame_finish]) simp_all
  then show ?thesis by (simp add: binary_op_def split: option.split)
qed

lemma tame_push_pool: "within_limits cfg m \<Longrightarrow> tame cfg m (push_pool cfg f pool i m)"
  by (simp add: push_pool_def tame_push)

lemma tame_pop: "within_limits cfg m \<Longrightarrow>
    tame cfg m (case pop m of None \<Rightarrow> Raised stack_underflow | Some (v, m) \<Rightarrow> bump (Next m))"
  by (auto split: option.split dest: pop_within)

lemma tame_store: "within_limits cfg m \<Longrightarrow> tame cfg m (store_local cfg n m)"
  by (auto simp: store_local_def Let_def split: option.split dest: pop_within)

lemma tame_load: "within_limits cfg m \<Longrightarrow> tame cfg m (load_local cfg n m)"
  by (simp add: load_local_def Let_def tame_push)

lemma tame_jump_if: "within_limits cfg m \<Longrightarrow> tame cfg m (jump_if b n m)"
  by (auto simp: jump_if_def split: option.split dest: pop_within)

lemma tame_pop_args: "within_limits cfg m \<Longrightarrow> tame cfg m (pop_args base n m)"
proof (induction n arbitrary: m)
  case (Suc n)
  show ?case
  proof (cases "pop m")
    case (Some r)
    then obtain v m' where r: "pop m = Some (v, m')" by (cases r) auto
    note p = pop_within [OF r Suc.prems]
    have "tame cfg (m'\<lparr>locals := (locals m')[base + n := v]\<rparr>)
        (pop_args base n (m'\<lparr>locals := (locals m')[base + n := v]\<rparr>))"
      by (rule Suc.IH) (simp add: p)
    then show ?thesis using r p by (auto intro: tame_same [rotated])
  qed simp
qed simp

lemma tame_call: "within_limits cfg m \<Longrightarrow> tame cfg m (call_function cfg prog n m)"
proof -
  assume w: "within_limits cfg m"
  define m1 where "m1 f = m\<lparr>callFrames := f # callFrames m,
      currentLocalsBase := cast_u32 (length (locals m)),
      locals := resize (cast_u32 (cast_u32 (length (locals m)) + numLocals (p_functions prog ! n)))
        zero_local (locals m)\<rparr>" for f
  have "tame cfg m (case pop_args b k (m1 f) of Next m2 \<Rightarrow> Next (m2\<lparr>ip := c\<rparr>) | r \<Rightarrow> r)"
    if "length (callFrames m) < maxCallDepth cfg" for b k f c
  proof -
    have "within_limits cfg (m1 f)" using w that by (simp add: m1_def within_limits_def)
    then have "tame cfg m (pop_args b k (m1 f))"
      by (intro tame_same [OF _ tame_pop_args]) (simp_all add: m1_def)
    then show ?thesis by (cases "pop_args b k (m1 f)") simp_all
  qed
  then show ?thesis by (simp add: call_function_def Let_def m1_def)
qed

lemma tame_return: "within_limits cfg m \<Longrightarrow> tame cfg m (return_function cfg m)"
proof (cases "pop m")
  case (Some r)
  assume w: "within_limits cfg m"
  obtain v m' where r: "pop m = Some (v, m')" using Some by (cases r) auto
  note p = pop_within [OF r w]
  show ?thesis
  proof (cases "callFrames m'")
    case (Cons f fs)
    let ?m1 = "m'\<lparr>callFrames := fs, locals := resize (cast_u32 (localsBase f + fr_numLocals f)) cv_error (locals m'),
        currentLocalsBase := localsBase f\<rparr>"
    have "within_limits cfg ?m1" using p(1) Cons by (simp add: within_limits_def)
    then have "tame cfg m (push cfg v ?m1)" by (intro tame_same [OF _ tame_push]) (simp_all add: p)
    then show ?thesis using r Cons
      by (cases "push cfg v ?m1") (simp_all add: return_function_def Let_def)
  qed (simp add: return_function_def r)
qed (simp add: return_function_def)

lemma tame_exec: "within_limits cfg m \<Longrightarrow> tame cfg m (exec_instr cfg prog instr m)"
  by (cases "i_op instr")
    (simp_all add: exec_instr_def Let_def tame_push tame_push_pool tame_binary tame_unary tame_pop
      tame_store tame_load tame_jump_if tame_call tame_return halt_def throw_error_def split: list.split)

section \<open>Runs\<close>

lemma loop_step_Next:
  assumes "loop_step cfg prog m = Next m'" "within_limits cfg m"
  shows "within_limits cfg m' \<and> iterations m' = cast_u32 (iterations m + 1)
    \<and> iterations m' \<le> maxIterations cfg"
proof -
  let ?m = "m\<lparr>iterations := cast_u32 (iterations m + 1)\<rparr>"
  have "exec_instr cfg prog (p_code prog ! ip m) ?m = Next m'" "iterations ?m \<le> maxIterations cfg"
    using assms(1) by (auto simp: loop_step_def Let_def split: if_splits)
  moreover have "tame cfg ?m (exec_instr cfg prog (p_code prog ! ip m) ?m)"
    by (rule tame_exec) (simp add: assms(2))
  ultimately show ?thesis by simp
qed

text \<open>The states a run goes through.\<close>

inductive reaches :: "vm_config \<Rightarrow> program \<Rightarrow> vm \<Rightarrow> vm \<Rightarrow> bool" for cfg prog where
  reaches_refl: "reaches cfg prog m m"
| reaches_step: "reaches cfg prog m m' \<Longrightarrow> loop_step cfg prog m' = Next m'' \<Longrightarrow> reaches cfg prog m m''"

text \<open>The states a run goes through are those of the transition system of \<^verbatim>\<open>execute\<close>'s loop.\<close>

definition vm_step :: "vm_config \<Rightarrow> program \<Rightarrow> vm \<Rightarrow> vm \<Rightarrow> bool" where
  "vm_step cfg prog m m' \<longleftrightarrow> loop_step cfg prog m = Next m'"

lemma reaches_steps: "reaches cfg prog m m' \<Longrightarrow> (vm_step cfg prog)\<^sup>*\<^sup>* m m'"
  by (induction rule: reaches.induct) (auto simp: vm_step_def intro: rtranclp.rtrancl_into_rtrancl)

lemma within_limits_initial: "within_limits cfg (initial_vm cfg)"
  by (simp add: within_limits_def initial_vm_def)

interpretation limits: invariant_argument "initial_vm cfg" "vm_step cfg prog" "within_limits cfg" for cfg prog
  by unfold_locales (use within_limits_initial loop_step_Next in \<open>auto simp: vm_step_def\<close>)

text \<open>C4: In every state of every run, whatever the code, the value stack holds at most the
  configured number of values and at most the configured number of calls are active.\<close>

theorem vm_stays_within_limits:
  assumes "reaches cfg prog (initial_vm cfg) m"
  shows "length (stack m) \<le> maxStackSize cfg \<and> length (callFrames m) \<le> maxCallDepth cfg"
  using limits.inv_reachable [OF reaches_steps [OF assms]] by (simp add: within_limits_def)

theorem vm_stays_within_limits_witness:
  "length (stack (initial_vm default_config)) \<le> 1024"
  using vm_stays_within_limits [OF reaches_refl, of default_config] by (simp add: default_config_def)

lemma run_total:
  assumes "maxIterations cfg < 4294967295" "within_limits cfg m" "iterations m \<le> maxIterations cfg"
  shows "\<exists>r. run cfg prog m = Some r"
  using assms(2,3)
proof (induction "maxIterations cfg - iterations m" arbitrary: m rule: less_induct)
  case less
  show ?case
  proof (cases "loop_step cfg prog m")
    case (Next m')
    have n: "within_limits cfg m'" "iterations m' = iterations m + 1" "iterations m' \<le> maxIterations cfg"
      using loop_step_Next [OF Next less.prems(1)] less.prems(2) assms(1) by simp_all
    then have "\<exists>r. run cfg prog m' = Some r" using less.prems(2) by (intro less.hyps) simp_all
    then show ?thesis using Next by (subst run.simps) simp
  qed (subst run.simps, simp)+
qed

text \<open>C3: Every evaluation ends: with an iteration limit below the largest 32-bit number, execute
  returns a value, raises or reaches undefined behaviour for every program, looping ones
  included. It never runs forever.\<close>

theorem execute_terminates:
  assumes "maxIterations cfg < 4294967295"
  shows "\<exists>r. execute cfg prog = Some r"
  unfolding execute_def
  by (rule run_total [OF assms within_limits_initial]) (simp add: initial_vm_def)

theorem execute_terminates_witness:
  "\<exists>r. execute default_config
    \<lparr>p_code = [Instruction JMP 0], p_intPool = [], p_int128Pool = [], p_floatPool = [],
     p_stringPool = [], p_functions = []\<rparr> = Some r"
  by (rule execute_terminates) (simp add: default_config_def)

end
