(* ===== verification/Compiler_Correct.thy ===== *)
theory Compiler_Correct
  imports Bytecode_Compiler VM_Correct "HOL-Library.Sublist"
begin

text \<open>
  The compiler against a reference evaluator that walks the tree. For every expression without
  calls, assignments and float literals, the machine, started on the compiled code with any
  contents of its stack and locals, pushes the value of the reference evaluator, or stops
  exactly where it stops. The theorem holds at every place of a larger program.
\<close>

section \<open>The reference evaluator\<close>

text \<open>What the operators mean.\<close>

definition operator_meaning ::
  "token_type \<Rightarrow> overflow_mode \<Rightarrow> (const_value \<Rightarrow> const_value \<Rightarrow> op_result option) option" where
  "operator_meaning opr mode =
     map_of [
       (T_PLUS, add_values mode), (T_MINUS, sub_values mode), (T_STAR, mul_values mode),
       (T_SLASH, div_values mode), (T_PERCENT, mod_values mode),
       (T_EQUAL_EQUAL, cmp_int (=)), (T_BANG_EQUAL, cmp_int (\<noteq>)), (T_LESS, cmp_int (<)),
       (T_LESS_EQUAL, cmp_int (\<le>)), (T_GREATER, cmp_int (>)), (T_GREATER_EQUAL, cmp_int (\<ge>)),
       (T_LESS_LESS, shift_int push_bit), (T_GREATER_GREATER, shift_int signed_drop_bit),
       (T_AMPERSAND, bit_int (AND)), (T_PIPE, bit_int (OR)), (T_CARET, bit_int (XOR)),
       (T_AND_AND, logic (\<and>)), (T_OR_OR, logic (\<or>))] opr"

definition unary_meaning :: "token_type \<Rightarrow> overflow_mode \<Rightarrow> (const_value \<Rightarrow> op_result option) option" where
  "unary_meaning opr mode =
     map_of [
       (T_MINUS, neg_value mode), (T_BANG, \<lambda>v. Some (Push (makeBool (\<not> toBool v)))), (T_TILDE, not_int)] opr"

definition cast_meaning :: "type_t \<Rightarrow> (const_value \<Rightarrow> op_result option) option" where
  "cast_meaning t =
     (if kind t = TK_INTEGER then
        Some (\<lambda>v. do { a \<leftarrow> toInt v;
                       Some (Push (makeInt a (ty_size (attrs t)) (ty_sign (attrs t)))) })
      else if kind t = TK_F32 then Some (\<lambda>v. Some (Push (makeFloat (toFloat v) 32)))
      else if kind t = TK_F64 then Some (\<lambda>v. Some (Push (makeFloat (toFloat v) 64)))
      else None)"

text \<open>The constant a name or a literal stands for, as the machine rebuilds it.\<close>

definition rebuilt :: "const_value \<Rightarrow> const_value" where
  "rebuilt v =
     (case cv_kind v of
        CV_Integer \<Rightarrow> int_constant (intVal v)
      | CV_Integer128 \<Rightarrow> makeInt128 (int128Val v) True
      | CV_Bool \<Rightarrow> makeBool (boolVal v)
      | _ \<Rightarrow> v)"

definition read_wide :: "string \<Rightarrow> const_value option" where
  "read_wide ds =
     (case (stoull 16 (drop (length ds - 16) ds), if length ds \<le> 16 then Inr 0 else stoull 16 (take (length ds - 16) ds)) of
        (Inr low, Inr high) \<Rightarrow> Some (makeInt128 \<lparr>i_high = high, i_low = low\<rparr> True)
      | _ \<Rightarrow> None)"

definition read_integer :: "string \<Rightarrow> const_value option" where
  "read_integer text =
     (let (radix, ds) = split_radix (strip_unsigned (clean_digits text)) in
      if radix = 10 \<and> list_ex is_e ds then None
      else (case stoll radix ds of
              Inr v \<Rightarrow> Some (int_constant v)
            | Inl OutOfRange \<Rightarrow> if radix = 16 then read_wide ds else None
            | Inl InvalidArgument \<Rightarrow> None))"

text \<open>The expressions the theorem covers.\<close>

fun pure_expr :: "expr \<Rightarrow> bool" where
  "pure_expr (IntegerLiteral text) \<longleftrightarrow> read_integer text \<noteq> None"
| "pure_expr (BooleanLiteral text) \<longleftrightarrow> True"
| "pure_expr (Identifier name) \<longleftrightarrow> True"
| "pure_expr (FieldAccess obj field) \<longleftrightarrow> True"
| "pure_expr (BinaryExpression opr l r mode) \<longleftrightarrow> pure_expr l \<and> pure_expr r"
| "pure_expr (UnaryExpression opr e mode) \<longleftrightarrow> pure_expr e"
| "pure_expr (CastExpression e t) \<longleftrightarrow> pure_expr e \<and> ty_size (attrs t) < 65536"
| "pure_expr _ \<longleftrightarrow> False"

text \<open>Running an operation on evaluated operands: an operand that stops, stops the whole.\<close>

definition then_value ::
  "op_result option \<Rightarrow> (const_value \<Rightarrow> op_result option) \<Rightarrow> op_result option" where
  "then_value r f = (case r of Some (Push v) \<Rightarrow> f v | _ \<Rightarrow> r)"

fun eval_expr :: "(string \<rightharpoonup> const_value) \<Rightarrow> expr \<Rightarrow> op_result option" where
  "eval_expr env (IntegerLiteral text) = map_option Push (read_integer text)"
| "eval_expr env (BooleanLiteral text) = Some (Push (makeBool (text = ''true'')))"
| "eval_expr env (Identifier name) = map_option Push (env name)"
| "eval_expr env (FieldAccess obj field) =
     (case obj of Identifier name \<Rightarrow> map_option Push (env (name @ ''.'' @ field)) | _ \<Rightarrow> None)"
| "eval_expr env (BinaryExpression opr l r mode) =
     then_value (eval_expr env l) (\<lambda>a. then_value (eval_expr env r) (\<lambda>b.
       case operator_meaning opr mode of Some f \<Rightarrow> f a b | None \<Rightarrow> None))"
| "eval_expr env (UnaryExpression opr e mode) =
     then_value (eval_expr env e) (\<lambda>a. case unary_meaning opr mode of Some f \<Rightarrow> f a | None \<Rightarrow> None)"
| "eval_expr env (CastExpression e t) =
     then_value (eval_expr env e) (\<lambda>a. case cast_meaning t of Some f \<Rightarrow> f a | None \<Rightarrow> None)"
| "eval_expr env _ = None"

text \<open>How many stack slots an expression needs.\<close>

fun need :: "expr \<Rightarrow> nat" where
  "need (BinaryExpression opr l r mode) = max (need l) (Suc (need r))"
| "need (UnaryExpression opr e mode) = need e"
| "need (CastExpression e t) = need e"
| "need _ = 1"

section \<open>What compiling an expression adds\<close>

definition grows :: "cstate \<Rightarrow> cstate \<Rightarrow> bool" where
  "grows st st' \<longleftrightarrow>
     localSlots st' = localSlots st \<and> constants st' = constants st
     \<and> prefix (instructions st) (instructions st') \<and> prefix (intPool st) (intPool st')
     \<and> prefix (int128Pool st) (int128Pool st')"

lemma grows_refl [simp]: "grows st st"
  by (simp add: grows_def)

lemma grows_trans: "grows st st' \<Longrightarrow> grows st' st'' \<Longrightarrow> grows st st''"
  by (auto simp: grows_def intro: prefix_order.trans)

lemma grows_emit [simp]: "grows st (emit opc n st)"
  by (simp add: grows_def emit_def)

lemma grows_add:
  "addIntConstant v st = (i, st') \<Longrightarrow> grows st st'"
  "addInt128Constant w st = (i, st') \<Longrightarrow> grows st st'"
  by (auto simp: addIntConstant_def addInt128Constant_def grows_def split: option.splits)

lemma index_where_Some: "index_where P xs = Some i \<Longrightarrow> i < length xs \<and> P (xs ! i)"
  by (induction xs arbitrary: i) (auto split: if_splits)

definition pools_small :: "cstate \<Rightarrow> bool" where
  "pools_small st \<longleftrightarrow> length (intPool st) < 4294967296 \<and> length (int128Pool st) < 4294967296"

lemma addIntConstant_spec:
  assumes "addIntConstant v st = (i, st')" "pools_small st"
  shows "i < length (intPool st') \<and> intPool st' ! i = v \<and> instructions st' = instructions st
    \<and> hadError st' = hadError st"
  using assms by (auto simp: addIntConstant_def pools_small_def split: option.splits dest: index_where_Some)

lemma addInt128Constant_spec:
  assumes "addInt128Constant v st = (i, st')" "pools_small st"
  shows "i < length (int128Pool st') \<and> int128Pool st' ! i = v \<and> instructions st' = instructions st
    \<and> hadError st' = hadError st"
  using assms
  by (auto simp: addInt128Constant_def pools_small_def Int128_eq_def split: option.splits dest!: index_where_Some)

section \<open>Code in a program\<close>

text \<open>The state's code and pools are the beginning of a program's.\<close>

definition part_of :: "cstate \<Rightarrow> program \<Rightarrow> bool" where
  "part_of st prog \<longleftrightarrow>
     prefix (instructions st) (p_code prog) \<and> prefix (intPool st) (p_intPool prog)
     \<and> prefix (int128Pool st) (p_int128Pool prog)"

lemma part_of_grows: "grows st st' \<Longrightarrow> part_of st' prog \<Longrightarrow> part_of st prog"
  by (auto simp: grows_def part_of_def intro: prefix_order.trans)

lemma prefix_nth: "prefix xs ys \<Longrightarrow> i < length xs \<Longrightarrow> i < length ys \<and> ys ! i = xs ! i"
  by (auto simp: prefix_def nth_append)

lemma part_of_last:
  assumes "part_of (emit opc n st) prog"
  shows "length (instructions st) < length (p_code prog)"
    "p_code prog ! length (instructions st) = Instruction opc n"
  using assms prefix_nth [of "instructions st @ [Instruction opc n]" "p_code prog" "length (instructions st)"]
  by (auto simp: part_of_def emit_def)

text \<open>The environment of the reference evaluator: locals first, then constants.\<close>

definition slots_ok :: "cstate \<Rightarrow> vm \<Rightarrow> bool" where
  "slots_ok st m \<longleftrightarrow>
     (\<forall>name slot. localSlots st name = Some slot \<longrightarrow>
        currentLocalsBase m + slot < length (locals m) \<and> currentLocalsBase m + slot < 4294967296)"

definition env_of :: "cstate \<Rightarrow> vm \<Rightarrow> string \<rightharpoonup> const_value" where
  "env_of st m name =
     (case localSlots st name of
        Some slot \<Rightarrow> Some (locals m ! (currentLocalsBase m + slot))
      | None \<Rightarrow> map_option rebuilt (constants st name))"

text \<open>
  A run that delivers a result: it reaches the state with the value pushed after the given
  number of instructions, or it comes to a round that stops with the value, or that is undefined.
\<close>

definition advanced :: "const_value \<Rightarrow> nat \<Rightarrow> vm \<Rightarrow> vm" where
  "advanced v k m = m\<lparr>stack := v # stack m, ip := ip m + k, iterations := iterations m + k\<rparr>"

definition delivers :: "vm_config \<Rightarrow> program \<Rightarrow> vm \<Rightarrow> nat \<Rightarrow> op_result option \<Rightarrow> bool" where
  "delivers cfg prog m k r \<longleftrightarrow>
     (case r of
        Some (Push v) \<Rightarrow> reaches cfg prog m (advanced v k m)
      | Some (Abort v) \<Rightarrow> (\<exists>m'. reaches cfg prog m m' \<and> loop_step cfg prog m' = Returned v)
      | None \<Rightarrow> (\<exists>m'. reaches cfg prog m m' \<and> loop_step cfg prog m' = Undefined))"

lemma reaches_trans: "reaches cfg prog m' m'' \<Longrightarrow> reaches cfg prog m m' \<Longrightarrow> reaches cfg prog m m''"
  by (induction rule: reaches.induct) (auto intro: reaches.intros)

lemma loop_step_exec:
  assumes "ip m < length (p_code prog)" "iterations m < maxIterations cfg" "maxIterations cfg < 4294967296"
  shows "loop_step cfg prog m =
    exec_instr cfg prog (p_code prog ! ip m) (m\<lparr>iterations := iterations m + 1\<rparr>)"
  using assms by (simp add: loop_step_def Let_def)

lemma delivers_push:
  assumes "ip m < length (p_code prog)" "iterations m < maxIterations cfg" "maxIterations cfg < 4294967296"
    and "length (stack m) < maxStackSize cfg"
    and "exec_instr cfg prog (p_code prog ! ip m) (m\<lparr>iterations := iterations m + 1\<rparr>)
      = bump (push cfg v (m\<lparr>iterations := iterations m + 1\<rparr>))"
  shows "delivers cfg prog m 1 (Some (Push v))"
proof -
  have "loop_step cfg prog m = Next (advanced v 1 m)"
    using assms by (simp add: loop_step_exec bump_def push_def advanced_def)
  then show ?thesis unfolding delivers_def by (auto intro: reaches.intros)
qed

lemma advanced_simps [simp]:
  "stack (advanced v k m) = v # stack m" "ip (advanced v k m) = ip m + k"
  "iterations (advanced v k m) = iterations m + k" "locals (advanced v k m) = locals m"
  "currentLocalsBase (advanced v k m) = currentLocalsBase m"
  by (simp_all add: advanced_def)

lemma delivers_unary:
  assumes "delivers cfg prog m k r"
    and "\<And>v. r = Some (Push v) \<Longrightarrow> ip m + k < length (p_code prog) \<and> iterations m + k < maxIterations cfg
      \<and> maxIterations cfg < 4294967296 \<and> length (stack m) < maxStackSize cfg
      \<and> (\<forall>m'. exec_instr cfg prog (p_code prog ! (ip m + k)) m' = unary_op cfg f m')"
  shows "delivers cfg prog m (Suc k) (then_value r f)"
proof (cases "\<exists>v. r = Some (Push v)")
  case True
  then obtain v where r: "r = Some (Push v)" by blast
  have a: "reaches cfg prog m (advanced v k m)" using assms(1) r by (simp add: delivers_def)
  have "loop_step cfg prog (advanced v k m) = unary_op cfg f ((advanced v k m)\<lparr>iterations := iterations m + k + 1\<rparr>)"
    using assms(2) [OF r] by (subst loop_step_exec) simp_all
  also have "\<dots> = finish cfg (f v) (m\<lparr>ip := ip m + k, iterations := iterations m + k + 1\<rparr>)"
    by (simp add: unary_op_def pop_def advanced_def)
  finally have l: "loop_step cfg prog (advanced v k m) = \<dots>" .
  show ?thesis
  proof (cases "f v")
    case None
    then show ?thesis using a l r by (auto simp: delivers_def then_value_def finish_def)
  next
    case (Some x)
    show ?thesis
    proof (cases x)
      case (Push y)
      then have "loop_step cfg prog (advanced v k m) = Next (advanced y (Suc k) m)"
        using l Some assms(2) [OF r] by (simp add: finish_def bump_def push_def advanced_def)
      then show ?thesis using a r Some Push
        by (auto simp: delivers_def then_value_def intro: reaches.intros)
    next
      case (Abort y)
      then show ?thesis using a l r Some by (auto simp: delivers_def then_value_def finish_def)
    qed
  qed
next
  case False
  then have "then_value r f = r" by (auto simp: then_value_def split: option.splits op_result.splits)
  moreover have "delivers cfg prog m (Suc k) r = delivers cfg prog m k r"
    using False by (auto simp: delivers_def split: option.splits op_result.splits)
  ultimately show ?thesis using assms(1) by simp
qed

lemma delivers_binary:
  assumes "delivers cfg prog m k1 r1"
    and "\<And>v. r1 = Some (Push v) \<Longrightarrow> delivers cfg prog (advanced v k1 m) k2 r2"
    and "\<And>v w. r1 = Some (Push v) \<Longrightarrow> r2 = Some (Push w) \<Longrightarrow>
      ip m + k1 + k2 < length (p_code prog) \<and> iterations m + k1 + k2 < maxIterations cfg
      \<and> maxIterations cfg < 4294967296 \<and> length (stack m) < maxStackSize cfg
      \<and> (\<forall>m'. exec_instr cfg prog (p_code prog ! (ip m + k1 + k2)) m' = binary_op cfg f m')"
  shows "delivers cfg prog m (k1 + k2 + 1) (then_value r1 (\<lambda>a. then_value r2 (f a)))"
proof (cases "\<exists>v. r1 = Some (Push v)")
  case True
  then obtain v where r1: "r1 = Some (Push v)" by blast
  have a: "reaches cfg prog m (advanced v k1 m)" using assms(1) r1 by (simp add: delivers_def)
  note d2 = assms(2) [OF r1]
  show ?thesis
  proof (cases "\<exists>w. r2 = Some (Push w)")
    case True
    then obtain w where r2: "r2 = Some (Push w)" by blast
    let ?m2 = "advanced w k2 (advanced v k1 m)"
    have b: "reaches cfg prog m ?m2"
      using d2 r2 a by (auto simp: delivers_def intro: reaches_trans)
    note c = assms(3) [OF r1 r2]
    have "loop_step cfg prog ?m2 = binary_op cfg f (?m2\<lparr>iterations := iterations ?m2 + 1\<rparr>)"
      using c by (subst loop_step_exec) simp_all
    also have "\<dots> = finish cfg (f v w) (m\<lparr>ip := ip m + k1 + k2, iterations := iterations m + k1 + k2 + 1\<rparr>)"
      by (simp add: binary_op_def pop_def advanced_def)
    finally have l: "loop_step cfg prog ?m2 = \<dots>" .
    show ?thesis
    proof (cases "f v w")
      case None
      then show ?thesis using b l r1 r2 by (auto simp: delivers_def then_value_def finish_def)
    next
      case (Some x)
      show ?thesis
      proof (cases x)
        case (Push y)
        then have "loop_step cfg prog ?m2 = Next (advanced y (k1 + k2 + 1) m)"
          using l Some c by (simp add: finish_def bump_def push_def advanced_def algebra_simps)
        then show ?thesis using b r1 r2 Some Push
          by (auto simp: delivers_def then_value_def intro: reaches.intros)
      next
        case (Abort y)
        then show ?thesis using b l r1 r2 Some by (auto simp: delivers_def then_value_def finish_def)
      qed
    qed
  next
    case False
    then have "then_value r2 g = r2" for g
      by (auto simp: then_value_def split: option.splits op_result.splits)
    then have "then_value r1 (\<lambda>a. then_value r2 (f a)) = r2" using r1 by (simp add: then_value_def)
    then show ?thesis
      using d2 a False by (auto simp: delivers_def split: option.splits op_result.splits intro: reaches_trans)
  qed
next
  case False
  then have "then_value r1 g = r1" for g by (auto simp: then_value_def split: option.splits op_result.splits)
  then show ?thesis
    using assms(1) False by (auto simp: delivers_def split: option.splits op_result.splits)
qed

section \<open>Leaves\<close>

lemma emit_int_code:
  assumes "pools_small st" "part_of (emit_int v st) prog"
  shows "length (instructions st) < length (p_code prog)"
    "exec_instr cfg prog (p_code prog ! length (instructions st)) m = bump (push cfg (int_constant v) m)"
proof -
  obtain i st' where a: "addIntConstant v st = (i, st')" by fastforce
  note s = addIntConstant_spec [OF a assms(1)]
  have p: "part_of (emit PUSH_INT i st') prog" using assms(2) a by (simp add: emit_int_def)
  then have "prefix (intPool st') (p_intPool prog)" by (simp add: part_of_def emit_def)
  then have "i < length (p_intPool prog) \<and> p_intPool prog ! i = v" using s prefix_nth by blast
  then show "length (instructions st) < length (p_code prog)"
    "exec_instr cfg prog (p_code prog ! length (instructions st)) m = bump (push cfg (int_constant v) m)"
    using part_of_last [OF p] s by (simp_all add: exec_instr_def push_pool_def)
qed

lemma emit_int128_code:
  assumes "pools_small st" "part_of (emit_int128 v st) prog"
  shows "length (instructions st) < length (p_code prog)"
    "exec_instr cfg prog (p_code prog ! length (instructions st)) m = bump (push cfg (makeInt128 v True) m)"
proof -
  obtain i st' where a: "addInt128Constant v st = (i, st')" by fastforce
  note s = addInt128Constant_spec [OF a assms(1)]
  have p: "part_of (emit PUSH_INT128 i st') prog" using assms(2) a by (simp add: emit_int128_def)
  then have "prefix (int128Pool st') (p_int128Pool prog)" by (simp add: part_of_def emit_def)
  then have "i < length (p_int128Pool prog) \<and> p_int128Pool prog ! i = v" using s prefix_nth by blast
  then show "length (instructions st) < length (p_code prog)"
    "exec_instr cfg prog (p_code prog ! length (instructions st)) m = bump (push cfg (makeInt128 v True) m)"
    using part_of_last [OF p] s by (simp_all add: exec_instr_def push_pool_def)
qed

lemma emit_int_shape:
  "grows st (emit_int v st)" "length (instructions (emit_int v st)) = Suc (length (instructions st))"
  "hadError (emit_int v st) = hadError st"
  "grows st (emit_int128 w st)" "length (instructions (emit_int128 w st)) = Suc (length (instructions st))"
  "hadError (emit_int128 w st) = hadError st"
proof -
  have "instructions (snd (addIntConstant v st)) = instructions st \<and> hadError (snd (addIntConstant v st)) = hadError st"
    "instructions (snd (addInt128Constant w st)) = instructions st \<and> hadError (snd (addInt128Constant w st)) = hadError st"
    by (simp_all add: addIntConstant_def addInt128Constant_def split: option.split)
  then show "grows st (emit_int v st)" "length (instructions (emit_int v st)) = Suc (length (instructions st))"
    "hadError (emit_int v st) = hadError st"
    "grows st (emit_int128 w st)" "length (instructions (emit_int128 w st)) = Suc (length (instructions st))"
    "hadError (emit_int128 w st) = hadError st"
    by (auto simp: emit_int_def emit_int128_def emit_def split: prod.splits
        intro: grows_trans [OF grows_add(1) grows_emit, unfolded emit_def]
          grows_trans [OF grows_add(2) grows_emit, unfolded emit_def])
qed

lemma compile_integer_literal:
  assumes "read_integer text = Some v"
  shows "(\<exists>x. v = int_constant x \<and> compileIntegerLiteral pw text st = Some (emit_int x st))
    \<or> (\<exists>x. v = makeInt128 x True \<and> compileIntegerLiteral pw text st = Some (emit_int128 x st))"
proof -
  obtain radix ds where sr: "split_radix (strip_unsigned (clean_digits text)) = (radix, ds)" by fastforce
  have w: "\<exists>x. v = makeInt128 x True \<and> compile_wide 16 ds st = Some (emit_int128 x st)"
    if "read_wide ds = Some v"
    using that by (cases "length ds \<le> 16") (auto simp: read_wide_def compile_wide_def Let_def split: sum.splits)
  show ?thesis
    using assms w
    by (auto simp: read_integer_def compileIntegerLiteral_def sr split: sum.splits conversion_error.splits if_splits)
qed

lemma cast_operand:
  assumes "n < 65536"
  shows "(n OR (if sg then 65536 else 0)) mod 65536 = (n :: nat)"
    "odd ((n OR (if sg then 65536 else 0)) div 65536) = sg"
proof -
  have t: "take_bit 16 n = n" "drop_bit 16 n = 0"
    using assms by (simp_all add: take_bit_nat_eq_self drop_bit_eq_div)
  have "take_bit 16 (n OR (if sg then 65536 else 0)) = n"
    using t by (simp add: take_bit_or)
  then show "(n OR (if sg then 65536 else 0)) mod 65536 = n" by (simp add: take_bit_eq_mod)
  have "drop_bit 16 (n OR (if sg then 65536 else 0)) = (if sg then 1 else 0)"
    using t by (simp add: drop_bit_or)
  then show "odd ((n OR (if sg then 65536 else 0)) div 65536) = sg" by (simp add: drop_bit_eq_div)
qed

lemma exec_binary:
  "exec_instr cfg prog (Instruction ADD_INT n) m = binary_op cfg (add_values (mode_of n)) m"
  "exec_instr cfg prog (Instruction SUB_INT n) m = binary_op cfg (sub_values (mode_of n)) m"
  "exec_instr cfg prog (Instruction MUL_INT n) m = binary_op cfg (mul_values (mode_of n)) m"
  "exec_instr cfg prog (Instruction DIV_INT n) m = binary_op cfg (div_values (mode_of n)) m"
  "exec_instr cfg prog (Instruction MOD_INT n) m = binary_op cfg (mod_values (mode_of n)) m"
  "exec_instr cfg prog (Instruction CMP_EQ_INT n) m = binary_op cfg (cmp_int (=)) m"
  "exec_instr cfg prog (Instruction CMP_NE_INT n) m = binary_op cfg (cmp_int (\<noteq>)) m"
  "exec_instr cfg prog (Instruction CMP_LT_INT n) m = binary_op cfg (cmp_int (<)) m"
  "exec_instr cfg prog (Instruction CMP_LE_INT n) m = binary_op cfg (cmp_int (\<le>)) m"
  "exec_instr cfg prog (Instruction CMP_GT_INT n) m = binary_op cfg (cmp_int (>)) m"
  "exec_instr cfg prog (Instruction CMP_GE_INT n) m = binary_op cfg (cmp_int (\<ge>)) m"
  "exec_instr cfg prog (Instruction SHL_INT n) m = binary_op cfg (shift_int push_bit) m"
  "exec_instr cfg prog (Instruction SHR_INT n) m = binary_op cfg (shift_int signed_drop_bit) m"
  "exec_instr cfg prog (Instruction AND_INT n) m = binary_op cfg (bit_int (AND)) m"
  "exec_instr cfg prog (Instruction OR_INT n) m = binary_op cfg (bit_int (OR)) m"
  "exec_instr cfg prog (Instruction XOR_INT n) m = binary_op cfg (bit_int (XOR)) m"
  "exec_instr cfg prog (Instruction LOGIC_AND n) m = binary_op cfg (logic (\<and>)) m"
  "exec_instr cfg prog (Instruction LOGIC_OR n) m = binary_op cfg (logic (\<or>)) m"
  by (simp_all add: exec_instr_def)

lemma binary_code:
  assumes "binary_opcode opr = Some (opc, moded)"
  shows "\<exists>f. operator_meaning opr mode = Some f \<and> (\<forall>cfg prog m.
    exec_instr cfg prog (Instruction opc (if moded then mode_code mode else 0)) m = binary_op cfg f m)"
  using assms unfolding binary_opcode_def
  by (simp only: split: if_split_asm)
    (auto simp: operator_meaning_def exec_binary)

lemma emit_binary_code:
  assumes "\<not> hadError (emit_binary opr mode st)"
  shows "\<exists>opc n f. emit_binary opr mode st = emit opc n st \<and> operator_meaning opr mode = Some f
    \<and> (\<forall>cfg prog m. exec_instr cfg prog (Instruction opc n) m = binary_op cfg f m)"
proof -
  obtain opc moded where b: "binary_opcode opr = Some (opc, moded)"
    using assms by (auto simp: emit_binary_def fail_def split: option.splits)
  obtain f where f: "operator_meaning opr mode = Some f" "\<forall>cfg prog m.
    exec_instr cfg prog (Instruction opc (if moded then mode_code mode else 0)) m = binary_op cfg f m"
    using binary_code [OF b, of mode] by blast
  have "emit_binary opr mode st = emit opc (if moded then mode_code mode else 0) st"
    by (simp add: emit_binary_def b)
  with f show ?thesis by blast
qed

lemma emit_unary_code:
  assumes "\<not> hadError (emit_unary opr mode st)"
  shows "\<exists>opc n f. emit_unary opr mode st = emit opc n st \<and> unary_meaning opr mode = Some f
    \<and> (\<forall>cfg prog m. exec_instr cfg prog (Instruction opc n) m = unary_op cfg f m)"
proof -
  have "opr = T_MINUS \<or> opr = T_BANG \<or> opr = T_TILDE"
    using assms by (auto simp: emit_unary_def fail_def split: if_splits)
  moreover have "exec_instr cfg prog (Instruction NEG_INT (mode_code mode)) m = unary_op cfg (neg_value mode) m"
    "exec_instr cfg prog (Instruction LOGIC_NOT 0) m = unary_op cfg (\<lambda>v. Some (Push (makeBool (\<not> toBool v)))) m"
    "exec_instr cfg prog (Instruction NOT_INT 0) m = unary_op cfg not_int m" for cfg prog m
    by (simp_all add: exec_instr_def)
  ultimately show ?thesis by (elim disjE) (auto simp: emit_unary_def unary_meaning_def)
qed

lemma emit_cast_code:
  assumes "\<not> hadError (emit_cast t st)" "ty_size (attrs t) < 65536"
  shows "\<exists>opc n f. emit_cast t st = emit opc n st \<and> cast_meaning t = Some f
    \<and> (\<forall>cfg prog m. exec_instr cfg prog (Instruction opc n) m = unary_op cfg f m)"
proof -
  let ?n = "ty_size (attrs t) OR (if ty_sign (attrs t) then 65536 else 0)"
  have x: "exec_instr cfg prog (Instruction CAST_INT n) m = unary_op cfg (cast_int n) m"
    "exec_instr cfg prog (Instruction CAST_FLOAT n) m
      = unary_op cfg (\<lambda>v. Some (Push (makeFloat (toFloat v) n))) m" for cfg prog n m
    by (simp_all add: exec_instr_def)
  have c: "cast_int ?n = (\<lambda>v. do { a \<leftarrow> toInt v; Some (Push (makeInt a (ty_size (attrs t)) (ty_sign (attrs t)))) })"
    using cast_operand [OF assms(2)] by (simp add: cast_int_def fun_eq_iff)
  consider "kind t = TK_INTEGER" | "kind t = TK_F32" | "kind t = TK_F64"
    using assms by (auto simp: emit_cast_def fail_def split: if_splits)
  then show ?thesis
  proof cases
    case 1
    then have "emit_cast t st = emit CAST_INT ?n st" "cast_meaning t = Some (cast_int ?n)"
      using assms(2) by (simp_all add: emit_cast_def cast_meaning_def c)
    then show ?thesis using x(1) by blast
  next
    case 2
    then have "emit_cast t st = emit CAST_FLOAT 32 st"
      "cast_meaning t = Some (\<lambda>v. Some (Push (makeFloat (toFloat v) 32)))"
      by (simp_all add: emit_cast_def cast_meaning_def)
    then show ?thesis using x(2) by blast
  next
    case 3
    then have "emit_cast t st = emit CAST_FLOAT 64 st"
      "cast_meaning t = Some (\<lambda>v. Some (Push (makeFloat (toFloat v) 64)))"
      by (simp_all add: emit_cast_def cast_meaning_def)
    then show ?thesis using x(2) by blast
  qed
qed

section \<open>Compiler correctness for expressions\<close>

definition no_float_constants :: "cstate \<Rightarrow> bool" where
  "no_float_constants st \<longleftrightarrow> (\<forall>name v. constants st name = Some v \<longrightarrow> cv_kind v \<noteq> CV_Float)"

text \<open>
  The machine stands before the code of the expression, with room on the stack and enough
  iterations left, and its locals hold the variables.
\<close>

definition ready :: "vm_config \<Rightarrow> program \<Rightarrow> vm \<Rightarrow> cstate \<Rightarrow> cstate \<Rightarrow> expr \<Rightarrow> bool" where
  "ready cfg prog m st st' e \<longleftrightarrow>
     part_of st' prog \<and> pools_small st' \<and> no_float_constants st \<and> slots_ok st m
     \<and> ip m = length (instructions st)
     \<and> iterations m + length (instructions st') \<le> maxIterations cfg + length (instructions st)
     \<and> maxIterations cfg < 4294967296 \<and> length (stack m) + need e \<le> maxStackSize cfg"

definition runs_as :: "expr \<Rightarrow> cstate \<Rightarrow> cstate \<Rightarrow> bool" where
  "runs_as e st st' \<longleftrightarrow>
     grows st st' \<and> (\<forall>cfg prog m. ready cfg prog m st st' e \<longrightarrow>
       delivers cfg prog m (length (instructions st') - length (instructions st)) (eval_expr (env_of st m) e))"

lemma need_pos: "1 \<le> need e"
  by (induction e) auto

lemma pools_small_grows: "grows st st' \<Longrightarrow> pools_small st' \<Longrightarrow> pools_small st"
  by (auto simp: grows_def pools_small_def dest!: prefix_length_le)

lemma leaf_runs:
  assumes "grows st st'" "length (instructions st') = Suc (length (instructions st))"
    and "\<And>cfg prog m. ready cfg prog m st st' e \<Longrightarrow> \<exists>v. eval_expr (env_of st m) e = Some (Push v)
      \<and> length (instructions st) < length (p_code prog)
      \<and> exec_instr cfg prog (p_code prog ! length (instructions st)) (m\<lparr>iterations := iterations m + 1\<rparr>)
          = bump (push cfg v (m\<lparr>iterations := iterations m + 1\<rparr>))"
  shows "runs_as e st st'"
  unfolding runs_as_def
proof (intro conjI allI impI)
  fix cfg prog m assume r: "ready cfg prog m st st' e"
  from assms(3) [OF r] obtain v where v: "eval_expr (env_of st m) e = Some (Push v)"
    "length (instructions st) < length (p_code prog)"
    "exec_instr cfg prog (p_code prog ! length (instructions st)) (m\<lparr>iterations := iterations m + 1\<rparr>)
          = bump (push cfg v (m\<lparr>iterations := iterations m + 1\<rparr>))" by blast
  show "delivers cfg prog m (length (instructions st') - length (instructions st)) (eval_expr (env_of st m) e)"
    using r v assms(2) need_pos [of e] delivers_push [of m prog cfg v]
    by (simp add: ready_def)
qed (rule assms(1))

lemma constant_runs:
  assumes "cv_kind v \<noteq> CV_Float" "\<not> hadError (emit_constant v st)"
  shows "grows st (emit_constant v st)"
    "length (instructions (emit_constant v st)) = Suc (length (instructions st))"
    "pools_small st \<Longrightarrow> part_of (emit_constant v st) prog \<Longrightarrow>
       length (instructions st) < length (p_code prog) \<and>
       exec_instr cfg prog (p_code prog ! length (instructions st)) m = bump (push cfg (rebuilt v) m)"
proof -
  have b: "exec_instr cfg prog (Instruction PUSH_BOOL (if b then 1 else 0)) m = bump (push cfg (makeBool b) m)"
    for b by (simp add: exec_instr_def)
  have i: "length (instructions st) < length (p_code prog) \<and>
      p_code prog ! length (instructions st) = Instruction opc n" if "part_of (emit opc n st) prog" for opc n
    using part_of_last [OF that] by simp
  have c: "(\<exists>x. emit_constant v st = emit_int x st \<and> rebuilt v = int_constant x)
      \<or> (\<exists>x. emit_constant v st = emit_int128 x st \<and> rebuilt v = makeInt128 x True)
      \<or> emit_constant v st = emit PUSH_BOOL (if boolVal v then 1 else 0) st \<and> rebuilt v = makeBool (boolVal v)"
    using assms by (cases "cv_kind v") (auto simp: emit_constant_def rebuilt_def fail_def)
  from c show "grows st (emit_constant v st)"
    by (elim disjE exE conjE) (simp_all only: emit_int_shape grows_emit)
  from c show "length (instructions (emit_constant v st)) = Suc (length (instructions st))"
    by (elim disjE exE conjE) (simp_all add: emit_int_shape emit_def)
  assume s: "pools_small st" and p: "part_of (emit_constant v st) prog"
  from c show "length (instructions st) < length (p_code prog) \<and>
      exec_instr cfg prog (p_code prog ! length (instructions st)) m = bump (push cfg (rebuilt v) m)"
  proof (elim disjE exE conjE)
    fix x assume "emit_constant v st = emit_int x st" "rebuilt v = int_constant x"
    then show ?thesis using emit_int_code [OF s, of x prog] p by simp
  next
    fix x assume "emit_constant v st = emit_int128 x st" "rebuilt v = makeInt128 x True"
    then show ?thesis using emit_int128_code [OF s, of x prog] p by simp
  next
    assume "emit_constant v st = emit PUSH_BOOL (if boolVal v then 1 else 0) st" "rebuilt v = makeBool (boolVal v)"
    then show ?thesis using i [of PUSH_BOOL "if boolVal v then 1 else 0"] b p by simp
  qed
qed

lemma identifier_runs:
  assumes "\<not> hadError (compileIdentifier name st)"
    and "\<And>m. eval_expr (env_of st m) e = map_option Push (env_of st m name)"
    and "no_float_constants st"
  shows "runs_as e st (compileIdentifier name st)"
proof (cases "localSlots st name")
  case (Some slot)
  then have c: "compileIdentifier name st = emit LOAD_LOCAL slot st" by (simp add: compileIdentifier_def)
  show ?thesis
    unfolding c
  proof (rule leaf_runs)
    fix cfg prog m assume "ready cfg prog m st (emit LOAD_LOCAL slot st) e"
    then have "part_of (emit LOAD_LOCAL slot st) prog" "slots_ok st m" by (simp_all add: ready_def)
    moreover from this(2) have slot: "currentLocalsBase m + slot < length (locals m)"
      "currentLocalsBase m + slot < 4294967296" using Some by (auto simp: slots_ok_def)
    ultimately show "\<exists>v. eval_expr (env_of st m) e = Some (Push v)
      \<and> length (instructions st) < length (p_code prog)
      \<and> exec_instr cfg prog (p_code prog ! length (instructions st)) (m\<lparr>iterations := iterations m + 1\<rparr>)
          = bump (push cfg v (m\<lparr>iterations := iterations m + 1\<rparr>))"
      using Some part_of_last [of LOAD_LOCAL slot st prog] slot
      by (simp add: assms(2) env_of_def exec_instr_def load_local_def Let_def)
  qed (simp_all add: emit_def grows_def)
next
  case None
  then obtain v where v: "constants st name = Some v" "compileIdentifier name st = emit_constant v st"
    using assms(1) by (auto simp: compileIdentifier_def fail_def split: option.splits)
  have k: "cv_kind v \<noteq> CV_Float" using assms(3) v(1) by (simp add: no_float_constants_def)
  have e: "\<not> hadError (emit_constant v st)" using assms(1) v(2) by simp
  note c = constant_runs [OF k e]
  show ?thesis
    unfolding v(2)
  proof (rule leaf_runs [OF c(1,2)])
    fix cfg prog m assume "ready cfg prog m st (emit_constant v st) e"
    then have "part_of (emit_constant v st) prog" "pools_small st"
      using pools_small_grows [OF c(1)] by (simp_all add: ready_def)
    then show "\<exists>v. eval_expr (env_of st m) e = Some (Push v)
      \<and> length (instructions st) < length (p_code prog)
      \<and> exec_instr cfg prog (p_code prog ! length (instructions st)) (m\<lparr>iterations := iterations m + 1\<rparr>)
          = bump (push cfg v (m\<lparr>iterations := iterations m + 1\<rparr>))"
      using c(3) None v(1) by (simp add: assms(2) env_of_def)
  qed
qed

lemma ready_part:
  assumes "ready cfg prog m st st' e" "grows st st1" "grows st1 st'"
  shows "part_of st1 prog" "pools_small st1" "length (instructions st1) \<le> length (instructions st')"
  using assms part_of_grows pools_small_grows
  by (auto simp: ready_def grows_def dest: prefix_length_le)

lemma unary_runs:
  assumes "runs_as e st st1" "st' = emit opc n st1"
    and "\<And>cfg prog m. exec_instr cfg prog (Instruction opc n) m = unary_op cfg f m"
    and "\<And>env. eval_expr env e' = then_value (eval_expr env e) f" "need e' = need e"
  shows "runs_as e' st st'"
  unfolding runs_as_def
proof (intro conjI allI impI)
  have g: "grows st st1" "grows st1 st'" using assms(1,2) by (simp_all add: runs_as_def)
  then show "grows st st'" by (rule grows_trans)
  fix cfg prog m assume r: "ready cfg prog m st st' e'"
  let ?k = "length (instructions st1) - length (instructions st)"
  have l: "length (instructions st) \<le> length (instructions st1)"
    using g(1) by (auto simp: grows_def dest: prefix_length_le)
  have l': "length (instructions st') = Suc (length (instructions st1))" by (simp add: assms(2) emit_def)
  have "ready cfg prog m st st1 e"
    using r ready_part [OF r g] l' assms(5) by (simp add: ready_def)
  then have d: "delivers cfg prog m ?k (eval_expr (env_of st m) e)"
    using assms(1) by (simp add: runs_as_def)
  have p: "part_of (emit opc n st1) prog" using r by (simp add: ready_def assms(2))
  have it: "iterations m + length (instructions st') \<le> maxIterations cfg + length (instructions st)"
    using r by (simp add: ready_def)
  have "iterations m + ?k < maxIterations cfg" using it l l' by linarith
  then have "delivers cfg prog m (Suc ?k) (then_value (eval_expr (env_of st m) e) f)"
    using r l l' part_of_last [OF p] need_pos [of e] assms(3,5)
    by (intro delivers_unary [OF d]) (simp add: ready_def)
  then show "delivers cfg prog m (length (instructions st') - length (instructions st)) (eval_expr (env_of st m) e')"
    using l l' by (simp add: assms(4) Suc_diff_le)
qed

lemma env_of_advanced:
  "grows st st1 \<Longrightarrow> env_of st1 (advanced v k m) = env_of st m"
  "grows st st1 \<Longrightarrow> slots_ok st1 (advanced v k m) = slots_ok st m"
  by (auto simp: env_of_def slots_ok_def grows_def fun_eq_iff split: option.splits)

lemma binary_runs:
  assumes "runs_as l st st1" "runs_as r st1 st2" "st' = emit opc n st2"
    and "\<And>cfg prog m. exec_instr cfg prog (Instruction opc n) m = binary_op cfg f m"
    and "\<And>env. eval_expr env e' = then_value (eval_expr env l) (\<lambda>a. then_value (eval_expr env r) (f a))"
    and "need e' = max (need l) (Suc (need r))"
  shows "runs_as e' st st'"
  unfolding runs_as_def
proof (intro conjI allI impI)
  have g: "grows st st1" "grows st1 st2" "grows st2 st'"
    using assms(1,2,3) by (simp_all add: runs_as_def)
  then show "grows st st'" by (blast intro: grows_trans)
  fix cfg prog m assume rd: "ready cfg prog m st st' e'"
  let ?k1 = "length (instructions st1) - length (instructions st)"
  let ?k2 = "length (instructions st2) - length (instructions st1)"
  have le: "length (instructions st) \<le> length (instructions st1)"
    "length (instructions st1) \<le> length (instructions st2)"
    using g(1,2) by (auto simp: grows_def dest: prefix_length_le)
  have le': "length (instructions st') = Suc (length (instructions st2))" by (simp add: assms(3) emit_def)
  have it: "iterations m + length (instructions st') \<le> maxIterations cfg + length (instructions st)"
    "length (stack m) + need e' \<le> maxStackSize cfg" using rd by (simp_all add: ready_def)
  have nd: "length (stack m) + need l \<le> maxStackSize cfg" "length (stack m) + Suc (need r) \<le> maxStackSize cfg"
    using it(2) unfolding assms(6) by linarith+
  have rl: "ready cfg prog m st st1 l"
    using nd it(1) rd ready_part [OF rd g(1) grows_trans [OF g(2,3)]] le le' assms(6) by (simp add: ready_def)
  then have d1: "delivers cfg prog m ?k1 (eval_expr (env_of st m) l)"
    using assms(1) by (simp add: runs_as_def)
  have d2: "delivers cfg prog (advanced v ?k1 m) ?k2 (eval_expr (env_of st m) r)" for v
  proof -
    have "no_float_constants st1" using rd g(1) by (simp add: ready_def no_float_constants_def grows_def)
    moreover have "iterations m + ?k1 + length (instructions st2) \<le> maxIterations cfg + length (instructions st1)"
      using it(1) le le' by linarith
    ultimately have "ready cfg prog (advanced v ?k1 m) st1 st2 r"
      using nd rd ready_part [OF rd grows_trans [OF g(1,2)] g(3)] le le' assms(6) env_of_advanced(2) [OF g(1)]
      by (simp add: ready_def)
    then show ?thesis using assms(2) env_of_advanced(1) [OF g(1)] unfolding runs_as_def by metis
  qed
  have p: "part_of (emit opc n st2) prog" using rd by (simp add: ready_def assms(3))
  have "iterations m + ?k1 + ?k2 < maxIterations cfg" using it(1) le le' by linarith
  then have "delivers cfg prog m (?k1 + ?k2 + 1)
      (then_value (eval_expr (env_of st m) l) (\<lambda>a. then_value (eval_expr (env_of st m) r) (f a)))"
    using rd le le' part_of_last [OF p] need_pos [of l] nd assms(4)
    by (intro delivers_binary [OF d1 d2]) (simp add: ready_def)
  moreover have "?k1 + ?k2 + 1 = length (instructions st') - length (instructions st)"
    using le le' by simp
  ultimately show "delivers cfg prog m (length (instructions st') - length (instructions st))
      (eval_expr (env_of st m) e')"
    by (simp only: assms(5))
qed

lemma no_float_grows: "grows st st' \<Longrightarrow> no_float_constants st' = no_float_constants st"
  by (simp add: grows_def no_float_constants_def)

lemma bool_runs: "runs_as (BooleanLiteral text) st (compileBooleanLiteral text st)"
proof (rule leaf_runs)
  fix cfg prog m assume "ready cfg prog m st (compileBooleanLiteral text st) (BooleanLiteral text)"
  then have p: "part_of (emit PUSH_BOOL (if text = ''true'' then 1 else 0) st) prog"
    by (simp add: ready_def compileBooleanLiteral_def)
  show "\<exists>v. eval_expr (env_of st m) (BooleanLiteral text) = Some (Push v)
      \<and> length (instructions st) < length (p_code prog)
      \<and> exec_instr cfg prog (p_code prog ! length (instructions st)) (m\<lparr>iterations := iterations m + 1\<rparr>)
          = bump (push cfg v (m\<lparr>iterations := iterations m + 1\<rparr>))"
    using part_of_last [OF p] by (simp add: exec_instr_def)
qed (simp_all add: compileBooleanLiteral_def, simp add: emit_def)

lemma integer_runs:
  assumes "read_integer text = Some v" "compileIntegerLiteral pw text st = Some st'"
  shows "runs_as (IntegerLiteral text) st st' \<and> hadError st' = hadError st"
  using compile_integer_literal [OF assms(1), of pw st]
proof (elim disjE exE conjE)
  fix x assume x: "v = int_constant x" "compileIntegerLiteral pw text st = Some (emit_int x st)"
  then have st': "st' = emit_int x st" using assms(2) by simp
  have "runs_as (IntegerLiteral text) st st'"
    unfolding st'
  proof (rule leaf_runs [OF emit_int_shape(1,2)])
    fix cfg prog m assume "ready cfg prog m st (emit_int x st) (IntegerLiteral text)"
    then have "pools_small st" "part_of (emit_int x st) prog"
      using pools_small_grows [OF emit_int_shape(1)] by (auto simp: ready_def)
    then show "\<exists>v. eval_expr (env_of st m) (IntegerLiteral text) = Some (Push v)
      \<and> length (instructions st) < length (p_code prog)
      \<and> exec_instr cfg prog (p_code prog ! length (instructions st)) (m\<lparr>iterations := iterations m + 1\<rparr>)
          = bump (push cfg v (m\<lparr>iterations := iterations m + 1\<rparr>))"
      using emit_int_code x(1) assms(1) by simp
  qed
  then show ?thesis by (simp add: st' emit_int_shape)
next
  fix x assume x: "v = makeInt128 x True" "compileIntegerLiteral pw text st = Some (emit_int128 x st)"
  then have st': "st' = emit_int128 x st" using assms(2) by simp
  have "runs_as (IntegerLiteral text) st st'"
    unfolding st'
  proof (rule leaf_runs [OF emit_int_shape(4,5)])
    fix cfg prog m assume "ready cfg prog m st (emit_int128 x st) (IntegerLiteral text)"
    then have "pools_small st" "part_of (emit_int128 x st) prog"
      using pools_small_grows [OF emit_int_shape(4)] by (auto simp: ready_def)
    then show "\<exists>v. eval_expr (env_of st m) (IntegerLiteral text) = Some (Push v)
      \<and> length (instructions st) < length (p_code prog)
      \<and> exec_instr cfg prog (p_code prog ! length (instructions st)) (m\<lparr>iterations := iterations m + 1\<rparr>)
          = bump (push cfg v (m\<lparr>iterations := iterations m + 1\<rparr>))"
      using emit_int128_code x(1) assms(1) by simp
  qed
  then show ?thesis by (simp add: st' emit_int_shape)
qed

lemma compile_runs:
  "pure_expr e \<Longrightarrow> no_float_constants st \<Longrightarrow> compileExpression pw e st = Some st' \<Longrightarrow> \<not> hadError st' \<Longrightarrow>
    runs_as e st st' \<and> \<not> hadError st"
proof (induction e arbitrary: st st')
  case (IntegerLiteral lit)
  then show ?case using integer_runs by (auto split: if_splits)
next
  case (BooleanLiteral lit)
  then show ?case using bool_runs by (auto split: if_splits)
next
  case (Identifier name)
  then show ?case using identifier_runs [of name st "Identifier name"] by (auto split: if_splits)
next
  case (FieldAccess obj field)
  have ok: "\<not> hadError st" using FieldAccess.prems by (auto split: if_splits)
  then obtain name where obj: "obj = Identifier name"
    using FieldAccess.prems by (cases obj) (auto simp: fail_def)
  then have st': "st' = compileIdentifier (name @ ''.'' @ field) st" using FieldAccess.prems ok by simp
  have "runs_as (FieldAccess obj field) st (compileIdentifier (name @ ''.'' @ field) st)"
    using FieldAccess.prems st' obj by (intro identifier_runs) simp_all
  then show ?case using st' ok by simp
next
  case (BinaryExpression opr l r mode)
  have ok: "\<not> hadError st" using BinaryExpression.prems by (auto split: if_splits)
  obtain st1 where c1: "compileExpression pw l st = Some st1" "\<not> hadError st1"
    using BinaryExpression.prems ok by (auto split: if_splits Option.bind_splits)
  obtain st2 where c2: "compileExpression pw r st1 = Some st2" "\<not> hadError st2"
    and st': "st' = emit_binary opr mode st2"
    using BinaryExpression.prems ok c1 by (auto split: if_splits Option.bind_splits)
  have r1: "runs_as l st st1" using BinaryExpression.IH(1) BinaryExpression.prems c1 by simp
  then have "no_float_constants st1" using BinaryExpression.prems(2) no_float_grows by (auto simp: runs_as_def)
  then have r2: "runs_as r st1 st2" using BinaryExpression.IH(2) BinaryExpression.prems c2 by simp
  obtain opc n f where b: "emit_binary opr mode st2 = emit opc n st2" "operator_meaning opr mode = Some f"
    "\<And>cfg prog m. exec_instr cfg prog (Instruction opc n) m = binary_op cfg f m"
    using emit_binary_code [of opr mode st2] BinaryExpression.prems(4) st' by blast
  have "runs_as (BinaryExpression opr l r mode) st st'"
    by (rule binary_runs [OF r1 r2 _ b(3)]) (simp_all add: st' b)
  then show ?case using ok by simp
next
  case (UnaryExpression opr e mode)
  have ok: "\<not> hadError st" using UnaryExpression.prems by (auto split: if_splits)
  obtain st1 where c1: "compileExpression pw e st = Some st1" "\<not> hadError st1"
    and st': "st' = emit_unary opr mode st1"
    using UnaryExpression.prems ok by (auto split: if_splits Option.bind_splits)
  have r1: "runs_as e st st1" using UnaryExpression c1 by simp
  obtain opc n f where b: "emit_unary opr mode st1 = emit opc n st1" "unary_meaning opr mode = Some f"
    "\<And>cfg prog m. exec_instr cfg prog (Instruction opc n) m = unary_op cfg f m"
    using emit_unary_code [of opr mode st1] UnaryExpression.prems(4) st' by blast
  have "runs_as (UnaryExpression opr e mode) st st'"
    by (rule unary_runs [OF r1 _ b(3)]) (simp_all add: st' b)
  then show ?case using ok by simp
next
  case (CastExpression e t)
  have ok: "\<not> hadError st" using CastExpression.prems by (auto split: if_splits)
  obtain st1 where c1: "compileExpression pw e st = Some st1" "\<not> hadError st1"
    and st': "st' = emit_cast t st1"
    using CastExpression.prems ok by (auto split: if_splits Option.bind_splits)
  have r1: "runs_as e st st1" using CastExpression c1 by simp
  obtain opc n f where b: "emit_cast t st1 = emit opc n st1" "cast_meaning t = Some f"
    "\<And>cfg prog m. exec_instr cfg prog (Instruction opc n) m = unary_op cfg f m"
    using emit_cast_code [of t st1] CastExpression.prems st' by (auto simp del: ex_simps)
  have "runs_as (CastExpression e t) st st'"
    by (rule unary_runs [OF r1 _ b(3)]) (simp_all add: st' b)
  then show ?case using ok by simp
qed simp_all

text \<open>C2: The compiler is correct for expressions. Wherever the code of an expression without calls,
  assignments and float literals stands in a program, the machine that comes to it with room on
  its stack and iterations left computes what the reference evaluator computes: it pushes the
  value and stands behind the code, with the rest of its state unchanged; or it stops with the
  value (a division by zero) or with the undefined operation where the evaluator does.\<close>

theorem compile_expression_correct:
  assumes "pure_expr e" "compileExpression pw e st = Some st'" "\<not> hadError st'"
    and "ready cfg prog m st st' e"
  shows "delivers cfg prog m (length (instructions st') - length (instructions st))
    (eval_expr (env_of st m) e)"
  using compile_runs [OF assms(1) _ assms(2,3)] assms(4) by (auto simp: runs_as_def ready_def)

definition sample_expr :: expr where
  "sample_expr = BinaryExpression T_LESS (BinaryExpression T_PLUS (Identifier ''x'') (IntegerLiteral ''2'') OM_Trapped)
     (UnaryExpression T_MINUS (IntegerLiteral ''0x10'') OM_None) OM_None"

definition sample_state :: cstate where
  "sample_state = new_compiler\<lparr>localSlots := Map.empty(''x'' \<mapsto> 0), nextLocalSlot := 1\<rparr>"

definition sample_compiled :: cstate where
  "sample_compiled = sample_state\<lparr>
     instructions := [Instruction LOAD_LOCAL 0, Instruction PUSH_INT 0, Instruction ADD_INT 2,
       Instruction PUSH_INT 1, Instruction NEG_INT 0, Instruction CMP_LT_INT 0],
     intPool := [2, 16]\<rparr>"

definition sample_program :: program where
  "sample_program = \<lparr>p_code = instructions sample_compiled @ [Instruction HALT 0], p_intPool = [2, 16],
     p_int128Pool = [], p_floatPool = [], p_stringPool = [], p_functions = []\<rparr>"

lemma sample_literals:
  "compileIntegerLiteral pw ''2'' st = Some (emit_int 2 st)"
  "compileIntegerLiteral pw ''0x10'' st = Some (emit_int 16 st)"
proof -
  have "split_radix (strip_unsigned (clean_digits ''2'')) = (10, ''2'')" "stoll 10 ''2'' = Inr 2"
    "split_radix (strip_unsigned (clean_digits ''0x10'')) = (16, ''10'')" "stoll 16 ''10'' = Inr 16"
    by code_simp+
  then show "compileIntegerLiteral pw ''2'' st = Some (emit_int 2 st)"
    "compileIntegerLiteral pw ''0x10'' st = Some (emit_int 16 st)"
    by (simp_all add: compileIntegerLiteral_def is_e_def)
qed

lemma sample_compiles: "compileExpression pw sample_expr sample_state = Some sample_compiled"
  by (simp add: sample_expr_def sample_state_def sample_compiled_def new_compiler_def sample_literals
      compileIdentifier_def emit_int_def addIntConstant_def emit_def emit_binary_def emit_unary_def
      binary_opcode_def mode_code_def)

theorem compile_expression_correct_witness:
  "delivers default_config sample_program (initial_vm default_config) 6
    (eval_expr (env_of sample_state (initial_vm default_config)) sample_expr)"
proof -
  have "read_integer ''2'' \<noteq> None" "read_integer ''0x10'' \<noteq> None" by code_simp+
  then have p: "pure_expr sample_expr" by (simp add: sample_expr_def)
  have e: "\<not> hadError sample_compiled"
    by (simp add: sample_compiled_def sample_state_def new_compiler_def)
  have "ready default_config sample_program (initial_vm default_config) sample_state sample_compiled sample_expr"
    by (simp add: ready_def part_of_def pools_small_def no_float_constants_def slots_ok_def sample_program_def
        sample_compiled_def sample_state_def new_compiler_def initial_vm_def default_config_def sample_expr_def)
  from compile_expression_correct [OF p sample_compiles [of id] e this]
  have "delivers default_config sample_program (initial_vm default_config)
    (length (instructions sample_compiled) - length (instructions sample_state))
    (eval_expr (env_of sample_state (initial_vm default_config)) sample_expr)" .
  moreover have "length (instructions sample_compiled) - length (instructions sample_state) = 6"
    by (simp add: sample_compiled_def sample_state_def new_compiler_def)
  ultimately show ?thesis by (simp only:)
qed

end
