(* ===== verification/Evaluator.thy ===== *)
theory Evaluator
  imports Compiler_Correct
begin

text \<open>
  \<^verbatim>\<open>class ConstEvaluator\<close> of \<^verbatim>\<open>evaluator/ConstEvaluator.cpp\<close>, the interface the rest of the compiler
  calls: a table of named constants and a table of functions, and an evaluation that fills a
  fresh bytecode compiler with both, compiles, and runs the machine. The tables are hash maps;
  here each is an association list, whose order stands for the order of iteration.
\<close>

section \<open>State and operations\<close>

record evaluator =
  ev_config :: vm_config
  ev_constants :: "(string \<times> const_value) list"
  ev_functions :: "(string \<times> const_function) list"

definition new_evaluator :: "vm_config \<Rightarrow> evaluator" where
  "new_evaluator cfg = \<lparr>ev_config = cfg, ev_constants = [], ev_functions = []\<rparr>"

definition sync_function :: "string \<times> const_function \<Rightarrow> cstate \<Rightarrow> cstate" where
  "sync_function = (\<lambda>(name, func) st.
     case fn_body func of
       Some body \<Rightarrow> snd (registerFunction name (paramNames func) body st)
     | None \<Rightarrow> st)"

definition syncToCompiler :: "evaluator \<Rightarrow> cstate \<Rightarrow> cstate" where
  "syncToCompiler ev st =
     fold sync_function (ev_functions ev)
       (fold (\<lambda>(name, val) st. defineConstant name val st) (ev_constants ev) st)"

text \<open>The vectors the compiler hands to the machine.\<close>

definition program_of :: "cstate \<Rightarrow> program" where
  "program_of st =
     \<lparr>p_code = instructions st, p_intPool = intPool st, p_int128Pool = int128Pool st,
      p_floatPool = floatPool st, p_stringPool = stringPool st, p_functions = functionTable st\<rparr>"

definition conversion_failure :: string where
  "conversion_failure = ''std::sto*''"

text \<open>
  What both evaluations share: after a successful driver the functions are compiled, whatever
  the outcome, and the code is run. A compile step that does not return is an exception here.
\<close>

definition finish_evaluation ::
  "(double \<Rightarrow> double) \<Rightarrow> vm_config \<Rightarrow> bool \<times> cstate \<Rightarrow> vm_result option" where
  "finish_evaluation pw cfg = (\<lambda>(ok, st).
     if \<not> ok then Some (Returned cv_error)
     else (case compileAllFunctions pw st of
             None \<Rightarrow> Some (Raised conversion_failure)
           | Some (_, st) \<Rightarrow> execute cfg (program_of st)))"

definition evaluate :: "(double \<Rightarrow> double) \<Rightarrow> expr \<Rightarrow> evaluator \<Rightarrow> vm_result option" where
  "evaluate pw e ev =
     (case compile pw e (syncToCompiler ev new_compiler) of
        None \<Rightarrow> Some (Raised conversion_failure)
      | Some res \<Rightarrow> finish_evaluation pw (ev_config ev) res)"

definition evaluateFunction ::
  "(double \<Rightarrow> double) \<Rightarrow> string \<Rightarrow> const_value list \<Rightarrow> evaluator \<Rightarrow> vm_result option" where
  "evaluateFunction pw name args ev =
     (case Option.bind (map_of (ev_functions ev) name) fn_body of
        None \<Rightarrow> Some (Returned cv_error)
      | Some _ \<Rightarrow>
          finish_evaluation pw (ev_config ev) (compileCallDriver name args (syncToCompiler ev new_compiler)))"

definition define_constant :: "string \<Rightarrow> const_value \<Rightarrow> evaluator \<Rightarrow> evaluator" where
  "define_constant name val ev = ev\<lparr>ev_constants := AList.update name val (ev_constants ev)\<rparr>"

definition removeConstant :: "string \<Rightarrow> evaluator \<Rightarrow> evaluator" where
  "removeConstant name ev = ev\<lparr>ev_constants := AList.delete name (ev_constants ev)\<rparr>"

definition defineFunction :: "string \<Rightarrow> string list \<Rightarrow> stmt list \<Rightarrow> evaluator \<Rightarrow> evaluator" where
  "defineFunction name params body ev =
     ev\<lparr>ev_functions := AList.update name \<lparr>paramNames = params, fn_body = Some body\<rparr> (ev_functions ev)\<rparr>"

definition define_declaration :: "string \<Rightarrow> function_declaration \<Rightarrow> evaluator \<Rightarrow> evaluator" where
  "define_declaration name func ev =
     (case fd_body func of
        None \<Rightarrow> ev
      | Some body \<Rightarrow> defineFunction name (fd_parameters func) body ev)"

definition hasFunction :: "string \<Rightarrow> evaluator \<Rightarrow> bool" where
  "hasFunction name ev \<longleftrightarrow>
     (case map_of (ev_functions ev) name of None \<Rightarrow> False | Some f \<Rightarrow> fn_body f \<noteq> None)"

definition lookupConstant :: "string \<Rightarrow> evaluator \<Rightarrow> const_value option" where
  "lookupConstant name ev = map_of (ev_constants ev) name"

section \<open>The tables\<close>

text \<open>
  The interface of a table of named entries: what a lookup gives after a definition and after a
  removal. A temporary binding that is removed again leaves no trace.
\<close>

locale name_table =
  fixes put :: "string \<Rightarrow> 'v \<Rightarrow> 's \<Rightarrow> 's"
    and remove :: "string \<Rightarrow> 's \<Rightarrow> 's"
    and get :: "string \<Rightarrow> 's \<Rightarrow> 'v option"
  assumes get_put: "get k (put k' v s) = (if k = k' then Some v else get k s)"
    and get_remove: "get k (remove k' s) = (if k = k' then None else get k s)"
begin

lemma temporary_binding: "get k s = None \<Longrightarrow> get j (remove k (put k v s)) = get j s"
  by (simp add: get_put get_remove)

lemma rebinding: "get k s = Some w \<Longrightarrow> get j (put k w (put k v s)) = get j s"
  by (simp add: get_put)

lemma get_fold_put:
  "distinct (map fst kvs) \<Longrightarrow>
    get k (fold (\<lambda>(k, v). put k v) kvs s) = (case map_of kvs k of Some v \<Rightarrow> Some v | None \<Rightarrow> get k s)"
proof (induction kvs arbitrary: s)
  case (Cons kv kvs)
  then show ?case
    by (cases kv) (force simp: get_put map_of_eq_None_iff split: option.splits)
qed simp

end

lemma map_of_delete [simp]: "map_of (AList.delete k xs) k' = (if k' = k then None else map_of xs k')"
  by (simp add: AList.delete_conv')

interpretation constant_table: name_table define_constant removeConstant lookupConstant
  by unfold_locales (simp_all add: define_constant_def removeConstant_def lookupConstant_def AList.update_conv')

text \<open>The compiler's own table of constants, which has no removal.\<close>

interpretation compiler_constants: name_table defineConstant
    "\<lambda>k st. st\<lparr>constants := (constants st)(k := None)\<rparr>" "\<lambda>k st. constants st k"
  by unfold_locales (simp_all add: defineConstant_def)

text \<open>Constants behave as a table: a lookup returns the last value defined for that name,
  other names are untouched, a removed name is unknown, and a temporary binding of an unknown
  name, removed again, leaves every lookup as it was.\<close>

theorem constant_table_laws:
  "lookupConstant k (define_constant k' v ev) = (if k = k' then Some v else lookupConstant k ev)
   \<and> lookupConstant k (removeConstant k' ev) = (if k = k' then None else lookupConstant k ev)
   \<and> (lookupConstant k' ev = None \<longrightarrow>
       lookupConstant k (removeConstant k' (define_constant k' v ev)) = lookupConstant k ev)"
  using constant_table.get_put constant_table.get_remove constant_table.temporary_binding by metis

theorem constant_table_laws_witness:
  "lookupConstant ''a'' (removeConstant ''N'' (define_constant ''N'' (makeBool True) (new_evaluator default_config)))
     = lookupConstant ''a'' (new_evaluator default_config)"
  using constant_table_laws [of "''a''" "''N''" "makeBool True" "new_evaluator default_config"]
  by (simp add: new_evaluator_def lookupConstant_def)

text \<open>Registered functions, and what a declaration without a body does.\<close>

lemma hasFunction_define:
  "hasFunction k (defineFunction k' ps b ev) \<longleftrightarrow> k = k' \<or> hasFunction k ev"
  by (simp add: hasFunction_def defineFunction_def AList.update_conv')

lemma hasFunction_declaration:
  "hasFunction k (define_declaration k' func ev) \<longleftrightarrow> k = k' \<and> fd_body func \<noteq> None \<or> hasFunction k ev"
  by (auto simp: define_declaration_def hasFunction_define split: option.split)

text \<open>A call of a function that is not registered is an error value, and only a declaration
  that has a body registers a function.\<close>

theorem unknown_function_errs:
  "(\<not> hasFunction k ev \<longrightarrow> evaluateFunction pw k args ev = Some (Returned cv_error))
   \<and> (hasFunction k (define_declaration k' func ev) \<longleftrightarrow> k = k' \<and> fd_body func \<noteq> None \<or> hasFunction k ev)"
proof
  show "\<not> hasFunction k ev \<longrightarrow> evaluateFunction pw k args ev = Some (Returned cv_error)"
    by (auto simp: evaluateFunction_def hasFunction_def split: option.splits Option.bind_splits)
qed (rule hasFunction_declaration)

theorem unknown_function_errs_witness:
  "evaluateFunction id ''f'' [] (new_evaluator default_config) = Some (Returned cv_error)"
  using unknown_function_errs [of "''f''" "new_evaluator default_config"]
  by (simp add: hasFunction_def new_evaluator_def)

section \<open>Compiling more code keeps the code there is\<close>

text \<open>
  Compiling appends, and a jump is patched only where it was emitted; so as long as the code
  stays below the range of its 32-bit indices, what was compiled before is still there.
\<close>

definition keeps :: "cstate \<Rightarrow> cstate \<Rightarrow> bool" where
  "keeps st st' \<longleftrightarrow>
     length (instructions st) \<le> length (instructions st')
     \<and> prefix (intPool st) (intPool st') \<and> prefix (int128Pool st) (int128Pool st')
     \<and> (length (instructions st') < 4294967296 \<longrightarrow> prefix (instructions st) (instructions st'))"

lemma keeps_refl [simp]: "keeps st st"
  by (simp add: keeps_def)

lemma keeps_trans [trans]: "keeps st st' \<Longrightarrow> keeps st' st'' \<Longrightarrow> keeps st st''"
  by (auto simp: keeps_def intro: prefix_order.trans)

lemma keeps_emit [simp]: "keeps st (emit opc n st)"
  by (simp add: keeps_def emit_def)

lemma keeps_fail [simp]: "keeps st (fail st)"
  by (simp add: keeps_def fail_def)

lemma keeps_emit_right: "keeps st st' \<Longrightarrow> keeps st (emit opc n st')"
  using keeps_emit keeps_trans by blast

lemma keeps_pool [simp]:
  "keeps st (snd (addIntConstant v st))" "keeps st (snd (addInt128Constant w st))"
  "keeps st (snd (addFloatConstant d st))" "keeps st (snd (addStringConstant s st))"
  "keeps st (snd (getOrCreateLocal name st))"
  by (simp_all add: keeps_def addIntConstant_def addInt128Constant_def addFloatConstant_def
      addStringConstant_def getOrCreateLocal_def split: option.split)

lemma keeps_emit_pool [simp]:
  "keeps st (emit_int v st)" "keeps st (emit_int128 w st)" "keeps st (emit_float d st)"
  using keeps_pool(1) [of st v] keeps_pool(2) [of st w] keeps_pool(3) [of st d]
  by (simp_all add: emit_int_def emit_int128_def emit_float_def split_beta keeps_emit_right)

lemma keeps_update:
  "keeps st st' \<Longrightarrow> keeps st (st'\<lparr>hadError := b\<rparr>)" "keeps st st' \<Longrightarrow> keeps st (st'\<lparr>localSlots := ls\<rparr>)"
  "keeps st st' \<Longrightarrow> keeps st (st'\<lparr>nextLocalSlot := n\<rparr>)" "keeps st st' \<Longrightarrow> keeps st (set_function i f st')"
  by (simp_all add: keeps_def set_function_def)

lemma keeps_length: "keeps st st' \<Longrightarrow> length (instructions st) \<le> length (instructions st')"
  by (simp add: keeps_def)

lemma keeps_patch:
  assumes "keeps st s2" "length (instructions st) \<le> n" "n < length (instructions s2)"
  shows "keeps st (patchJump (cast_u32 n) s2)"
  using assms by (auto simp: keeps_def patchJump_def prefix_def list_update_append)

lemma patchJump_length [simp]: "length (instructions (patchJump i st)) = length (instructions st)"
  by (simp add: patchJump_def)

lemma emit_length [simp]: "length (instructions (emit opc n st)) = Suc (length (instructions st))"
  by (simp add: emit_def)

lemma keeps_leaf:
  "compileIntegerLiteral pw s st = Some st' \<Longrightarrow> keeps st st'"
  "compileFloatLiteral s st = Some st' \<Longrightarrow> keeps st st'"
  by (auto simp: compileIntegerLiteral_def compile_scientific_def compile_wide_def compileFloatLiteral_def Let_def
      split: prod.splits if_splits option.splits sum.splits conversion_error.splits)

lemma keeps_operators [simp]:
  "keeps st (compileBooleanLiteral s st)" "keeps st (emit_constant v st)" "keeps st (compileIdentifier name st)"
  "keeps st (emit_binary opr mode st)" "keeps st (emit_unary opr mode st)" "keeps st (emit_cast t st)"
  by (auto simp: compileBooleanLiteral_def emit_constant_def compileIdentifier_def emit_binary_def
      emit_unary_def emit_cast_def split: cv_kind.splits option.splits)

lemma keeps_store:
  "keeps st st' \<Longrightarrow> getOrCreateLocal name st' = (i, st'') \<Longrightarrow> keeps st (emit STORE_LOCAL n st'')"
  using keeps_emit_right keeps_pool(5) keeps_trans by (metis snd_conv)

lemma keeps_expression:
  "compileExpression pw e st = Some st' \<Longrightarrow> keeps st st'"
  "compileArguments pw es st = Some st' \<Longrightarrow> keeps st st'"
proof (induction pw e st and pw es st arbitrary: st' and st' rule: compileExpression_compileArguments.induct)
  case (5 pw obj field st)
  then show ?case by (auto split: if_splits expr.splits)
next
  case (6 pw opr l r mode st)
  then show ?case
    by (auto split: if_splits Option.bind_splits) (metis keeps_trans keeps_operators(4))+
next
  case (10 pw name e st)
  then show ?case
    by (auto split: if_splits Option.bind_splits prod.splits intro: keeps_store)
qed (auto split: if_splits Option.bind_splits option.splits prod.splits
      intro: keeps_leaf keeps_trans keeps_emit_right keeps_operators)

lemma keeps_opt: "compile_opt pw e st = Some st' \<Longrightarrow> keeps st st'"
  by (auto simp: compile_opt_def split: option.splits intro: keeps_expression)

lemma keeps_simple_statement:
  "compileReturnStatement pw v st = Some st' \<Longrightarrow> keeps st st'"
  "compileExpressionStatement pw e st = Some st' \<Longrightarrow> keeps st st'"
  "keeps st (compileThrowStatement v st)"
proof -
  show "compileReturnStatement pw v st = Some st' \<Longrightarrow> keeps st st'"
    by (auto simp: compileReturnStatement_def split: option.splits Option.bind_splits
        intro: keeps_emit_right keeps_expression)
  show "compileExpressionStatement pw e st = Some st' \<Longrightarrow> keeps st st'"
  proof -
    assume a: "compileExpressionStatement pw e st = Some st'"
    then obtain x where x: "compileExpression pw e st = Some x" "st' = x \<or> st' = emit POP 0 x"
      unfolding compileExpressionStatement_def
      by (cases "compileExpression pw e st") (auto split: if_splits expr.splits simp del: compileExpression.simps)
    show ?thesis using keeps_expression(1) [OF x(1)] x(2) keeps_emit_right by blast
  qed
  show "keeps st (compileThrowStatement v st)"
    using keeps_pool(4) [of st "thrown_name v"]
    by (simp add: compileThrowStatement_def split_beta keeps_emit_right)
qed

lemma keeps_emitJump: "keeps st (snd (emitJump opc st))"
  by (simp add: emitJump_def)

lemma keeps_block:
  assumes "\<And>s st st'. s \<in> set ss \<Longrightarrow> compileStatement pw s st = Some st' \<Longrightarrow> keeps st st'"
    and "compileBlock pw ss st = Some st'"
  shows "keeps st st'"
  using assms
proof (induction ss arbitrary: st)
  case (Cons s ss)
  obtain x where x: "compileStatement pw s st = Some x"
    "st' = x \<or> compileBlock pw ss x = Some st'"
    using Cons.prems(2) by (cases "compileStatement pw s st") (auto split: if_splits)
  have "keeps st x" using Cons.prems(1) [OF _ x(1)] by simp
  moreover have "compileBlock pw ss x = Some st' \<Longrightarrow> keeps x st'"
    by (rule Cons.IH) (use Cons.prems(1) in auto)
  ultimately show ?case using x(2) keeps_trans by blast
qed simp

lemma keeps_branch:
  assumes "\<And>ss s st st'. ss \<in> set_option br \<Longrightarrow> s \<in> set ss \<Longrightarrow> compileStatement pw s st = Some st' \<Longrightarrow> keeps st st'"
    and "(case br of None \<Rightarrow> Some st | Some b \<Rightarrow> compileBlock pw b st) = Some st'"
  shows "keeps st st'"
proof (cases br)
  case (Some b)
  show ?thesis by (rule keeps_block [of b pw]) (use assms Some in auto)
qed (use assms in simp)

text \<open>A conditional jump around a piece of code, patched to its end.\<close>

lemma keeps_jump_over:
  assumes "keeps st s1" "keeps (emit opc k s1) s2"
  shows "keeps st (patchJump (cast_u32 (length (instructions s1))) s2)"
  using keeps_length [OF assms(1)] keeps_length [OF assms(2)]
  by (intro keeps_patch keeps_trans [OF assms(1)] keeps_trans [OF keeps_emit assms(2)]) simp_all

lemma keeps_if:
  assumes c: "compileStatement pw (IfStatement cond br1 br2) st = Some st'"
    and b1: "\<And>st st'. (case br1 of None \<Rightarrow> Some st | Some b \<Rightarrow> compileBlock pw b st) = Some st' \<Longrightarrow> keeps st st'"
    and b2: "\<And>st st'. (case br2 of None \<Rightarrow> Some st | Some b \<Rightarrow> compileBlock pw b st) = Some st' \<Longrightarrow> keeps st st'"
  shows "keeps st st'"
proof (cases "hadError st")
  case False
  obtain s1 where s1: "compileExpression pw cond st = Some s1"
    using c False by (cases "compileExpression pw cond st") auto
  have k1: "keeps st s1" using keeps_expression s1 by blast
  show ?thesis
  proof (cases "hadError s1")
    case e: False
    obtain s2 where s2: "(case br1 of None \<Rightarrow> Some (emit JMP_IF_FALSE 0xFFFFFFFF s1)
        | Some b \<Rightarrow> compileBlock pw b (emit JMP_IF_FALSE 0xFFFFFFFF s1)) = Some s2"
      using c s1 False e by (auto simp: emitJump_def split: option.splits Option.bind_splits)
    have k2: "keeps (emit JMP_IF_FALSE 0xFFFFFFFF s1) s2" by (rule b1 [OF s2])
    show ?thesis
    proof (cases br2)
      case None
      then show ?thesis
        using c s1 s2 False e keeps_jump_over [OF k1 k2] by (simp add: emitJump_def)
    next
      case (Some b)
      let ?s3 = "patchJump (cast_u32 (length (instructions s1))) (emit JMP 0xFFFFFFFF s2)"
      obtain s4 where s4: "compileBlock pw b ?s3 = Some s4"
        "st' = patchJump (cast_u32 (length (instructions s2))) s4"
        using c s1 s2 False e Some
        by (auto simp: emitJump_def Let_def split: option.splits Option.bind_splits)
      have "keeps st ?s3" by (rule keeps_jump_over [OF k1 keeps_emit_right [OF k2]])
      moreover have k4: "keeps ?s3 s4" using b2 [of ?s3 s4] s4(1) Some by simp
      ultimately have "keeps st s4" by (rule keeps_trans)
      then show ?thesis
        using keeps_length [OF k4] keeps_length [OF k1] keeps_length [OF k2]
        unfolding s4(2) by (intro keeps_patch) simp_all
    qed
  qed (use c s1 False k1 in simp)
qed (use c in simp)

lemma keeps_while:
  assumes c: "compileStatement pw (WhileStatement cond body) st = Some st'"
    and b: "\<And>st st'. (case body of None \<Rightarrow> Some st | Some b \<Rightarrow> compileBlock pw b st) = Some st' \<Longrightarrow> keeps st st'"
  shows "keeps st st'"
proof (cases "hadError st")
  case False
  obtain s1 where s1: "compileExpression pw cond st = Some s1"
    using c False by (cases "compileExpression pw cond st") auto
  have k1: "keeps st s1" using keeps_expression s1 by blast
  show ?thesis
  proof (cases "hadError s1")
    case e: False
    obtain s2 where s2: "(case body of None \<Rightarrow> Some (emit JMP_IF_FALSE 0xFFFFFFFF s1)
        | Some b \<Rightarrow> compileBlock pw b (emit JMP_IF_FALSE 0xFFFFFFFF s1)) = Some s2"
      using c s1 False e by (auto simp: emitJump_def split: option.splits Option.bind_splits)
    have "keeps (emit JMP_IF_FALSE 0xFFFFFFFF s1) s2" by (rule b [OF s2])
    then show ?thesis
      using c s1 s2 False e keeps_jump_over [OF k1 keeps_emit_right] by (auto simp: emitJump_def)
  qed (use c s1 False k1 in simp)
qed (use c in simp)

lemma keeps_for:
  assumes c: "compileStatement pw (ForStatement ini cond post body) st = Some st'"
    and b: "\<And>st st'. (case body of None \<Rightarrow> Some st | Some b \<Rightarrow> compileBlock pw b st) = Some st' \<Longrightarrow> keeps st st'"
  shows "keeps st st'"
proof (cases "hadError st")
  case False
  obtain s1 where s1: "compile_opt pw ini st = Some s1"
    using c False by (cases "compile_opt pw ini st") auto
  obtain s2 where s2: "compile_opt pw cond s1 = Some s2"
    using c False s1 by (cases "compile_opt pw cond s1") auto
  have k2: "keeps st s2" using keeps_opt s1 s2 keeps_trans by blast
  define s3 where "s3 = (if cond = None then s2 else emit JMP_IF_FALSE 0xFFFFFFFF s2)"
  show ?thesis
  proof (cases "cond \<noteq> None \<and> hadError s2")
    case e: False
    obtain s4 where s4: "(case body of None \<Rightarrow> Some s3 | Some b \<Rightarrow> compileBlock pw b s3) = Some s4"
      using c False s1 s2 e by (auto simp: emitJump_def s3_def split: if_splits option.splits Option.bind_splits)
    obtain s5 where s5: "compile_opt pw post s4 = Some s5"
      using c False s1 s2 e s4 [unfolded s3_def]
      by (cases cond; cases body; cases "compile_opt pw post s4") (auto simp: emitJump_def)
    have k5: "keeps s3 (emit JMP (cast_u32 (length (instructions s1))) s5)"
      using b [OF s4] keeps_opt [OF s5] keeps_trans keeps_emit_right by blast
    have st': "st' = (let s6 = emit JMP (cast_u32 (length (instructions s1))) s5
      in if cond = None then s6 else patchJump (cast_u32 (length (instructions s2))) s6)"
      using c False s1 s2 e s4 [unfolded s3_def] s5 by (cases cond; cases body) (auto simp: emitJump_def Let_def)
    show ?thesis
    proof (cases "cond = None")
      case True
      then show ?thesis using st' k5 k2 keeps_trans s3_def by (auto simp: Let_def)
    next
      case False
      then show ?thesis using st' k5 keeps_jump_over [OF k2] by (auto simp: Let_def s3_def)
    qed
  qed (use c s1 s2 False k2 in simp)
qed (use c in simp)

lemma keeps_statement: "compileStatement pw s st = Some st' \<Longrightarrow> keeps st st'"
proof (induction s arbitrary: st st')
  case (IfStatement cond br1 br2)
  show ?case by (rule keeps_if [OF IfStatement.prems]) (rule keeps_branch, rule IfStatement.IH, assumption+)+
next
  case (WhileStatement cond body)
  show ?case by (rule keeps_while [OF WhileStatement.prems]) (rule keeps_branch, rule WhileStatement.IH, assumption+)
next
  case (ForStatement ini cond post body)
  show ?case by (rule keeps_for [OF ForStatement.prems]) (rule keeps_branch, rule ForStatement.IH, assumption+)
next
  case (Block ss)
  then show ?case using keeps_block [of ss pw st st'] by (auto split: if_splits)
qed (auto split: if_splits intro: keeps_simple_statement)

lemma keeps_locals: "keeps st (fold (\<lambda>p st. snd (getOrCreateLocal p st)) ps st)"
proof (induction ps arbitrary: st)
  case (Cons p ps)
  show ?case using keeps_trans [OF keeps_pool(5) Cons.IH] by simp
qed simp

lemma keeps_body:
  assumes "compile_body pw i ps body st = Some (ok, st')"
  shows "keeps st st'"
proof -
  define st3 where "st3 = fold (\<lambda>p st. snd (getOrCreateLocal p st)) ps
    (set_function i (\<lambda>f. f\<lparr>codeStart := cast_u32 (length (instructions st))\<rparr>)
      (st\<lparr>hadError := False, localSlots := Map.empty, nextLocalSlot := 0\<rparr>))"
  have k3: "keeps st st3"
    unfolding st3_def by (rule keeps_trans [OF _ keeps_locals]) (simp add: keeps_update)
  obtain st4 where st4: "compileBlock pw body st3 = Some st4"
    using assms by (cases "compileBlock pw body st3") (auto simp: compile_body_def st3_def Let_def)
  have "keeps st3 st4" by (rule keeps_block [OF _ st4]) (rule keeps_statement)
  then have "keeps st (emit RET 0 (emit_int 0 st4))"
    by (intro keeps_emit_right keeps_trans [OF keeps_trans [OF k3] keeps_emit_pool(1)])
  then show ?thesis
    using assms st4
    by (auto simp: compile_body_def st3_def [symmetric] Let_def keeps_update split: if_splits)
qed

lemma keeps_function: "compileFunction pw name st = Some (ok, st') \<Longrightarrow> keeps st st'"
  by (auto simp: compileFunction_def keeps_update fail_def split: option.splits intro: keeps_body)

lemma keeps_functions: "compile_functions pw names ok st = Some (ok', st') \<Longrightarrow> keeps st st'"
proof (induction names arbitrary: ok st)
  case (Cons name names)
  then obtain b s where "compileFunction pw name st = Some (b, s)" "compile_functions pw names (ok \<and> b) s = Some (ok', st')"
    by (auto split: Option.bind_splits prod.splits)
  then show ?case using keeps_function Cons.IH keeps_trans by blast
qed simp

section \<open>The whole evaluation\<close>

text \<open>A name has one entry in each table, which every operation keeps.\<close>

definition evaluator_wf :: "evaluator \<Rightarrow> bool" where
  "evaluator_wf ev \<longleftrightarrow> distinct (map fst (ev_constants ev)) \<and> distinct (map fst (ev_functions ev))"

lemma evaluator_wf_operations:
  "evaluator_wf (new_evaluator cfg)"
  "evaluator_wf ev \<Longrightarrow> evaluator_wf (define_constant k v ev)"
  "evaluator_wf ev \<Longrightarrow> evaluator_wf (removeConstant k ev)"
  "evaluator_wf ev \<Longrightarrow> evaluator_wf (defineFunction k ps b ev)"
  "evaluator_wf ev \<Longrightarrow> evaluator_wf (define_declaration k func ev)"
  by (simp_all add: evaluator_wf_def new_evaluator_def define_constant_def removeConstant_def
      defineFunction_def define_declaration_def AList.distinct_update AList.distinct_delete split: option.split)

lemma sync_function_keeps_constants: "constants (sync_function f st) = constants st"
  by (simp add: sync_function_def registerFunction_def Let_def split: prod.split option.split)

lemma sync_functions_keep_constants: "constants (fold sync_function fs st) = constants st"
  by (induction fs arbitrary: st) (simp_all add: sync_function_keeps_constants)

lemma syncToCompiler_constants:
  "evaluator_wf ev \<Longrightarrow> constants (syncToCompiler ev new_compiler) name = lookupConstant name ev"
  using compiler_constants.get_fold_put [of "ev_constants ev" new_compiler name]
  by (simp add: syncToCompiler_def sync_functions_keep_constants evaluator_wf_def lookupConstant_def
      new_compiler_def split: option.split)

lemma run_reaches: "reaches cfg prog m m' \<Longrightarrow> run cfg prog m = run cfg prog m'"
proof (induction rule: reaches.induct)
  case (reaches_step m m' m'')
  then show ?case using run.simps [of cfg prog m'] by simp
qed simp

lemma run_step: "loop_step cfg prog m = r \<Longrightarrow> (\<And>m'. r \<noteq> Next m') \<Longrightarrow> run cfg prog m = Some r"
  by (subst run.simps) (simp split: vm_result.split)

text \<open>How an evaluation ends for each result of the reference evaluator.\<close>

fun outcome :: "op_result option \<Rightarrow> vm_result" where
  "outcome (Some (Push v)) = Returned v"
| "outcome (Some (Abort v)) = Returned v"
| "outcome None = Undefined"

lemma delivers_execute:
  assumes "delivers cfg prog (initial_vm cfg) k r"
    and halt: "k < length (p_code prog)" "p_code prog ! k = Instruction HALT 0"
    and "k < maxIterations cfg" "maxIterations cfg < 4294967296"
  shows "execute cfg prog = Some (outcome r)"
proof -
  consider (push) v where "r = Some (Push v)" | (stop) v where "r = Some (Abort v)" | (undef) "r = None"
    by (cases r) (metis op_result.exhaust)+
  then show ?thesis
  proof cases
    case push
    have "loop_step cfg prog (advanced v k (initial_vm cfg)) = Returned v"
      using assms by (simp add: loop_step_exec exec_instr_def halt_def initial_vm_def)
    then show ?thesis
      using assms(1) push run_reaches run_step by (fastforce simp: delivers_def execute_def)
  next
    case stop
    then show ?thesis using assms(1) run_reaches run_step by (fastforce simp: delivers_def execute_def)
  next
    case undef
    then show ?thesis using assms(1) run_reaches run_step by (fastforce simp: delivers_def execute_def)
  qed
qed

text \<open>The state in which a driver expression is compiled.\<close>

definition cleared :: "cstate \<Rightarrow> cstate" where
  "cleared st = st\<lparr>instructions := [], intPool := [], int128Pool := [], floatPool := [], stringPool := [],
     localSlots := Map.empty, nextLocalSlot := 0, hadError := False\<rparr>"

lemma compile_True:
  assumes "compile pw e st0 = Some (True, st)"
  shows "\<exists>s1. compileExpression pw e (cleared st0) = Some s1 \<and> \<not> hadError s1 \<and> st = emit HALT 0 s1"
proof (cases "compileExpression pw e (cleared st0)")
  case (Some s1)
  then show ?thesis
    using assms unfolding compile_def cleared_def [symmetric] by (cases "hadError s1") (simp_all add: emit_def)
qed (use assms in \<open>simp add: compile_def cleared_def\<close>)

text \<open>C1: Evaluating an expression without calls, assignments and floats computes what the
  reference evaluator computes with the table of constants as its environment, whatever functions
  are registered: their bodies are compiled behind the driver and leave its code alone. It holds
  when the expression compiles, the code fits its 32-bit indices, and the machine's limits leave
  room for the expression.\<close>

theorem evaluate_correct:
  assumes wf: "evaluator_wf ev" and pure: "pure_expr e"
    and floats: "\<And>name v. lookupConstant name ev = Some v \<Longrightarrow> cv_kind v \<noteq> CV_Float"
    and c: "compile pw e (syncToCompiler ev new_compiler) = Some (True, st)"
    and f: "compileAllFunctions pw st = Some (ok, st')"
    and small: "length (instructions st') < 4294967296" "pools_small st'"
    and limits: "length (instructions st) \<le> maxIterations (ev_config ev)"
      "maxIterations (ev_config ev) < 4294967296" "need e \<le> maxStackSize (ev_config ev)"
  shows "evaluate pw e ev =
    Some (outcome (eval_expr (\<lambda>name. map_option rebuilt (lookupConstant name ev)) e))"
proof -
  let ?cfg = "ev_config ev" and ?prog = "program_of st'"
  let ?m = "initial_vm (ev_config ev)"
  define base where "base = cleared (syncToCompiler ev new_compiler)"
  obtain s1 where s1: "compileExpression pw e base = Some s1" "\<not> hadError s1" "st = emit HALT 0 s1"
    using compile_True [OF c] unfolding base_def by blast
  have k: "keeps st st'" using f keeps_functions by (simp add: compileAllFunctions_def)
  have part: "part_of st ?prog" using k small(1) by (simp add: keeps_def part_of_def program_of_def)
  have part1: "part_of s1 ?prog" by (rule part_of_grows [OF _ part]) (simp add: s1(3))
  have pools: "pools_small s1"
    using k small(2) s1(3) by (auto simp: keeps_def pools_small_def emit_def dest!: prefix_length_le)
  have env: "env_of base ?m = (\<lambda>name. map_option rebuilt (lookupConstant name ev))"
    by (simp add: fun_eq_iff env_of_def base_def cleared_def syncToCompiler_constants [OF wf])
  have halt: "length (instructions s1) < length (p_code ?prog)"
    "p_code ?prog ! length (instructions s1) = Instruction HALT 0"
    using part_of_last [of HALT 0 s1 ?prog] part s1(3) by auto
  have "ready ?cfg ?prog ?m base s1 e"
    using part1 pools limits floats s1(3)
    by (auto simp: ready_def no_float_constants_def slots_ok_def base_def cleared_def initial_vm_def emit_def
        syncToCompiler_constants [OF wf])
  then have "delivers ?cfg ?prog ?m (length (instructions s1)) (eval_expr (env_of base ?m) e)"
    using compile_runs [OF pure _ s1(1,2)] floats
    by (auto simp: runs_as_def no_float_constants_def base_def cleared_def syncToCompiler_constants [OF wf])
  then have "execute ?cfg ?prog = Some (outcome (eval_expr (env_of base ?m) e))"
    by (rule delivers_execute [OF _ halt]) (use limits s1(3) in \<open>simp_all add: emit_def\<close>)
  then show ?thesis using c f env by (simp add: evaluate_def finish_evaluation_def)
qed

definition sample_evaluator :: evaluator where
  "sample_evaluator = define_constant ''x'' (makeInt 7 32 True) (new_evaluator default_config)"

definition sample_driver :: cstate where
  "sample_driver = (cleared (syncToCompiler sample_evaluator new_compiler))\<lparr>
     instructions := [Instruction PUSH_INT 0, Instruction PUSH_INT 1, Instruction ADD_INT 2,
       Instruction PUSH_INT 2, Instruction NEG_INT 0, Instruction CMP_LT_INT 0, Instruction HALT 0],
     intPool := [7, 2, 16]\<rparr>"

lemma sample_driver_compiles:
  "compile pw sample_expr (syncToCompiler sample_evaluator new_compiler) = Some (True, sample_driver)"
  by (simp add: compile_def sample_driver_def cleared_def sample_expr_def sample_evaluator_def
      syncToCompiler_def define_constant_def new_evaluator_def defineConstant_def new_compiler_def sample_literals
      compileIdentifier_def emit_constant_def makeInt_def emit_int_def addIntConstant_def emit_def emit_binary_def
      emit_unary_def binary_opcode_def mode_code_def)

lemma sample_value:
  "eval_expr (\<lambda>name. map_option rebuilt (lookupConstant name sample_evaluator)) sample_expr
     = Some (Push (makeBool False))"
proof -
  have r: "read_integer ''2'' = Some (int_constant 2)" "read_integer ''0x10'' = Some (int_constant 16)"
    by code_simp+
  have a: "add_values OM_Trapped (int_constant 7) (int_constant 2) = Some (Push (int_constant 9))"
    by (simp add: add_values_def signed_add64_def fits64_def int_constant_def makeInt_def any_float_def toInt_def fitInt_def limitsFor_def
        addOverflows64_def INT64_MIN_def INT64_MAX_def word_sless_alt widths_def signs_def Let_def)
  have n: "neg_value OM_None (int_constant 16) = Some (Push (int_constant (- 16)))"
    by (simp add: neg_value_def int_constant_def makeInt_def toInt_def fitInt_def limitsFor_def
        INT64_MIN_def isError_def Let_def)
  have c: "cmp_int (<) (int_constant 9) (int_constant (- 16)) = Some (Push (makeBool False))"
    by (simp add: cmp_int_def int_constant_def makeInt_def toInt_def)
  show ?thesis
    by (simp add: sample_expr_def r a n sample_evaluator_def lookupConstant_def define_constant_def
        new_evaluator_def then_value_def operator_meaning_def unary_meaning_def rebuilt_def c)
qed

theorem evaluate_correct_witness:
  "evaluate id sample_expr sample_evaluator = Some (Returned (makeBool False))"
proof -
  have "read_integer ''2'' \<noteq> None" "read_integer ''0x10'' \<noteq> None" by code_simp+
  then have p: "pure_expr sample_expr" by (simp add: sample_expr_def)
  have wf: "evaluator_wf sample_evaluator" by (simp add: sample_evaluator_def evaluator_wf_operations)
  have fl: "cv_kind v \<noteq> CV_Float" if "lookupConstant name sample_evaluator = Some v" for name v
    using that by (auto simp: sample_evaluator_def lookupConstant_def define_constant_def new_evaluator_def
        makeInt_def split: if_splits)
  have f: "compileAllFunctions id sample_driver = Some (True, sample_driver)"
    by (simp add: compileAllFunctions_def sample_driver_def cleared_def sample_evaluator_def syncToCompiler_def
        define_constant_def new_evaluator_def defineConstant_def new_compiler_def)
  have "evaluate id sample_expr sample_evaluator =
    Some (outcome (eval_expr (\<lambda>name. map_option rebuilt (lookupConstant name sample_evaluator)) sample_expr))"
    by (rule evaluate_correct [OF wf p fl sample_driver_compiles f])
      (simp_all add: sample_driver_def pools_small_def cleared_def sample_evaluator_def syncToCompiler_def
        define_constant_def new_evaluator_def defineConstant_def new_compiler_def default_config_def sample_expr_def)
  then show ?thesis by (simp add: sample_value)
qed

end
