(* ===== verification/Const_Value_Correct.thy ===== *)
theory Const_Value_Correct
  imports Const_Value
begin

text \<open>
  The integer arithmetic of the evaluator against mathematical integers: which results are
  undefined in C++, which leave the width, and what each overflow mode makes of those; and the 128-bit
  operations as operations on 128-bit two's complement integers, where C++ defines them.
\<close>

section \<open>Words as integers\<close>

definition fits :: "nat \<Rightarrow> int \<Rightarrow> bool" where
  "fits w z \<longleftrightarrow> - (2 ^ (w - 1)) \<le> z \<and> z < 2 ^ (w - 1)"

lemma fits64_fits [simp]: "fits64 z \<longleftrightarrow> fits 64 z"
  by (simp add: fits64_def fits_def)

lemma fits_sint [simp]: "fits 64 (sint (a :: i64))"
  using sint_ge [of a] sint_lt [of a] by (simp add: fits_def)

lemma fits_mono: "fits v z \<Longrightarrow> v \<le> w \<Longrightarrow> fits w z"
proof -
  assume "fits v z" "v \<le> w"
  then have "(2 :: int) ^ (v - 1) \<le> 2 ^ (w - 1)" by (intro power_increasing) auto
  with \<open>fits v z\<close> show ?thesis unfolding fits_def by linarith
qed

lemma fits_signed_take_bit: "fits w z \<longleftrightarrow> signed_take_bit (w - 1) z = z"
  by (simp add: fits_def signed_take_bit_int_eq_self_iff)

lemma sint_of_int: "sint (word_of_int z :: i64) = signed_take_bit 63 z"
  by (simp add: sint_sbintrunc')

lemma sint_of_int_fits: "fits 64 z \<Longrightarrow> sint (word_of_int z :: i64) = z"
  by (simp add: sint_of_int fits_signed_take_bit)

lemma of_sint [simp]: "word_of_int (sint a) = (a :: i64)"
  by simp

lemma sint_zero [simp]: "sint (a :: i64) = 0 \<longleftrightarrow> a = 0"
  by (metis of_sint of_int_0 sint_0)

lemma sless_of_int: "fits 64 y \<Longrightarrow> fits 64 z \<Longrightarrow> word_of_int y <s (word_of_int z :: i64) \<longleftrightarrow> y < z"
  by (simp add: word_sless_alt sint_of_int_fits)

lemma signed_take_bit_of_int:
  "k < 64 \<Longrightarrow> signed_take_bit k (word_of_int z :: i64) = word_of_int (signed_take_bit k z)"
  by (rule bit_word_eqI) (auto simp: bit_simps min_def)

lemma limits_signed:
  assumes "1 \<le> w" "w \<le> 64"
  shows "lim_min (limitsFor w True) = word_of_int (- (2 ^ (w - 1)))"
    "lim_max (limitsFor w True) = word_of_int (2 ^ (w - 1) - 1)"
proof -
  have m: "drop_bit 1 (push_bit w 1 - 1) = (mask (w - 1) :: u64)" if "w < 64"
  proof -
    have "push_bit w 1 - 1 = (mask w :: u64)" by (simp add: mask_eq_exp_minus_1 push_bit_eq_mult)
    moreover have "drop_bit 1 (mask w) = (mask (w - 1) :: u64)"
      by (rule bit_word_eqI) (use that in \<open>auto simp: bit_simps\<close>)
    ultimately show ?thesis by simp
  qed
  have n: "NOT (mask k) = (word_of_int (- (2 ^ k)) :: u64)" for k
    by (simp add: mask_eq_exp_minus_1 not_eq_complement)
  show "lim_min (limitsFor w True) = word_of_int (- (2 ^ (w - 1)))"
    using m n assms by (cases "w = 64") (simp_all add: limitsFor_def INT64_MIN_def Let_def)
  show "lim_max (limitsFor w True) = word_of_int (2 ^ (w - 1) - 1)"
    using m assms by (cases "w = 64")
      (simp_all add: limitsFor_def INT64_MAX_def Let_def mask_eq_exp_minus_1)
qed

lemma wrap_signed:
  assumes "1 \<le> w" "w < 64"
  shows "(let m = push_bit w 1 - 1; u = raw AND m
          in if u AND push_bit (w - 1) 1 \<noteq> 0 then u OR NOT m else u) = signed_take_bit (w - 1) (raw :: i64)"
proof -
  have m: "push_bit w 1 - 1 = (mask w :: u64)" by (simp add: mask_eq_exp_minus_1 push_bit_eq_mult)
  have b: "(raw AND mask w) AND push_bit (w - 1) 1 \<noteq> 0 \<longleftrightarrow> bit raw (w - 1)"
    using assms and_exp_eq_0_iff_not_bit [of "raw AND mask w" "w - 1"]
    by (simp add: push_bit_eq_mult bit_simps) linarith
  show ?thesis
    unfolding m Let_def b
    using assms by (intro bit_word_eqI, cases w) (auto simp: bit_simps min_def less_Suc_eq)
qed

section \<open>What the modes make of a result\<close>

text \<open>
  The specification: an exact result that fits is kept; otherwise the wrapping modes reduce it
  modulo \<open>2 ^ w\<close> into the signed range, the trapping ones have no value, and saturation takes the
  nearer bound.
\<close>

definition overflow_spec :: "overflow_mode \<Rightarrow> nat \<Rightarrow> int \<Rightarrow> int option" where
  "overflow_spec mode w z =
     (if fits w z then Some z
      else case mode of
          OM_Trapped \<Rightarrow> None
        | OM_Checked \<Rightarrow> None
        | OM_Saturating \<Rightarrow> Some (if z < 0 then - (2 ^ (w - 1)) else 2 ^ (w - 1) - 1)
        | _ \<Rightarrow> Some (signed_take_bit (w - 1) z))"

definition signed_value :: "overflow_mode \<Rightarrow> nat \<Rightarrow> int \<Rightarrow> const_value" where
  "signed_value mode w z =
     (case overflow_spec mode w z of None \<Rightarrow> cv_error | Some y \<Rightarrow> makeInt (word_of_int y) w True)"

lemma fitInt_signed:
  assumes w: "1 \<le> w" "w \<le> 64" and hint: "hint \<longleftrightarrow> \<not> fits 64 z"
    and neg: "\<not> fits w z \<Longrightarrow> negative \<longleftrightarrow> z < 0"
  shows "fitInt (word_of_int z) hint negative w True mode = signed_value mode w z"
proof -
  define raw :: i64 where "raw = word_of_int z"
  have bounds: "fits 64 (- (2 ^ (w - 1)))" "fits 64 (2 ^ (w - 1) - 1)"
  proof -
    have "(2 :: int) ^ (w - 1) \<le> 2 ^ 63" using w by (intro power_increasing) auto
    moreover have "(0 :: int) < 2 ^ (w - 1)" by simp
    ultimately show "fits 64 (- (2 ^ (w - 1)))" "fits 64 (2 ^ (w - 1) - 1)"
      unfolding fits_def by (simp_all del: zero_less_power)
  qed
  have out: "(if hint then True else raw <s lim_min (limitsFor w True) \<or> lim_max (limitsFor w True) <s raw)
      \<longleftrightarrow> \<not> fits w z"
  proof (cases hint)
    case True
    then show ?thesis using hint w fits_mono by auto
  next
    case False
    then have f: "fits 64 z" using hint by simp
    have "raw <s lim_min (limitsFor w True) \<longleftrightarrow> z < - (2 ^ (w - 1))"
      unfolding raw_def limits_signed [OF w] by (rule sless_of_int [OF f bounds(1)])
    moreover have "lim_max (limitsFor w True) <s raw \<longleftrightarrow> 2 ^ (w - 1) - 1 < z"
      unfolding raw_def limits_signed [OF w] by (rule sless_of_int [OF bounds(2) f])
    ultimately show ?thesis using False by (auto simp: fits_def)
  qed
  have wrap: "(let m = push_bit w 1 - 1; u = raw AND m;
      raw' = if w < 64 then if True \<and> u AND push_bit (w - 1) 1 \<noteq> 0 then u OR NOT m else u else raw
      in makeInt raw' w True) = makeInt (word_of_int (signed_take_bit (w - 1) z)) w True"
  proof (cases "w < 64")
    case True
    then show ?thesis
      using wrap_signed [OF w(1) True, of raw] signed_take_bit_of_int [of "w - 1" z]
      by (simp add: raw_def Let_def)
  next
    case False
    then have "w = 64" using w by simp
    moreover have "word_of_int (signed_take_bit 63 z) = raw"
      by (simp add: raw_def flip: sint_of_int)
    ultimately show ?thesis by simp
  qed
  have "fitInt raw hint negative w True mode =
      (if \<not> fits w z \<and> mode \<noteq> OM_None \<and> mode \<noteq> OM_Wrapped then
         (if mode = OM_Trapped \<or> mode = OM_Checked then cv_error
          else makeInt (if negative then lim_min (limitsFor w True) else lim_max (limitsFor w True)) w True)
       else makeInt (word_of_int (signed_take_bit (w - 1) z)) w True)"
    unfolding fitInt_def Let_def if_True out wrap [unfolded Let_def] ..
  then show ?thesis
    using neg w unfolding raw_def
    by (cases "fits w z"; cases mode)
      (simp_all add: signed_value_def overflow_spec_def limits_signed fits_signed_take_bit)
qed

lemma sint_INT64 [simp]: "sint INT64_MIN = - (2 ^ 63)" "sint INT64_MAX = 2 ^ 63 - 1"
  by (simp_all add: INT64_MIN_def INT64_MAX_def)

lemma addOverflows64_iff: "addOverflows64 a b \<longleftrightarrow> \<not> fits 64 (sint a + sint b)"
proof -
  have a: "- (2 ^ 63) \<le> sint a" "sint a < 2 ^ 63" "- (2 ^ 63) \<le> sint b" "sint b < 2 ^ 63"
    using fits_sint [of a] fits_sint [of b] by (simp_all add: fits_def)
  have "0 < sint b \<Longrightarrow> sint (INT64_MAX - b) = 2 ^ 63 - 1 - sint b"
    "sint b < 0 \<Longrightarrow> sint (INT64_MIN - b) = - (2 ^ 63) - sint b"
    using a by (simp_all add: sint_word_ariths signed_take_bit_int_eq_self)
  then show ?thesis
    using a by (auto simp: addOverflows64_def word_sless_alt fits_def)
qed

lemma subOverflows64_iff: "subOverflows64 a b \<longleftrightarrow> \<not> fits 64 (sint a - sint b)"
proof -
  have a: "- (2 ^ 63) \<le> sint a" "sint a < 2 ^ 63" "- (2 ^ 63) \<le> sint b" "sint b < 2 ^ 63"
    using fits_sint [of a] fits_sint [of b] by (simp_all add: fits_def)
  have "sint b < 0 \<Longrightarrow> sint (INT64_MAX + b) = 2 ^ 63 - 1 + sint b"
    "0 < sint b \<Longrightarrow> sint (INT64_MIN + b) = - (2 ^ 63) + sint b"
    using a by (simp_all add: sint_word_ariths signed_take_bit_int_eq_self)
  then show ?thesis
    using a by (auto simp: subOverflows64_def word_sless_alt fits_def)
qed

lemma div64_exact:
  assumes "b \<noteq> 0" "fits 64 (sint a * sint b)"
  shows "div64 (a * b) b = a"
proof -
  have "sint (a * b) = sint a * sint b"
    using assms(2) by (simp add: sint_word_mult fits_signed_take_bit)
  moreover have "(sint a * sint b) sdiv sint b = sint a"
  proof -
    have "sint b \<noteq> 0" using assms(1) by simp
    then show ?thesis
      by (simp add: signed_divide_int_def abs_mult sgn_mult mult_sgn_abs algebra_simps)
        (metis abs_mult_sgn mult.assoc mult.commute sgn_mult_self_eq mult_1 abs_sgn_eq)
  qed
  ultimately show ?thesis by (simp add: div64_def)
qed

lemma mulOverflows64_exact:
  "mulOverflows64 a b =
     (if a = 0 \<or> b = 0 then Some False
      else if a = INT64_MIN \<or> b = INT64_MIN then Some True
      else if fits 64 (sint a * sint b) then Some False else None)"
  using div64_exact [of b a] by (simp add: mulOverflows64_def signed_mul64_def)

lemma fits_mult_min:
  assumes "a = INT64_MIN \<or> b = INT64_MIN" "fits 64 (sint a * sint b)" "a \<noteq> 0" "b \<noteq> 0"
  shows "sint a = 1 \<or> sint b = 1"
proof -
  have *: "k = 1" if "- (2 ^ 63) \<le> k * (- (2 ^ 63))" "k * (- (2 ^ 63)) < (2 ^ 63 :: int)" "k \<noteq> 0" for k :: int
    using that by (auto simp: mult_le_cancel_right)
  from assms show ?thesis
    using * [of "sint a"] * [of "sint b"] by (auto simp: fits_def mult.commute)
qed

text \<open>What multiplication makes of a product that is in the 64-bit range: the overflow test reports
  an overflow for the smallest integer times one, which saturation and wrapping do not notice and
  the trapping modes refuse.\<close>

definition refused_product :: "overflow_mode \<Rightarrow> i64 \<Rightarrow> i64 \<Rightarrow> bool" where
  "refused_product mode a b \<longleftrightarrow> (mode = OM_Trapped \<or> mode = OM_Checked) \<and>
     (a = INT64_MIN \<and> b = 1 \<or> a = 1 \<and> b = INT64_MIN)"

lemma fits_min_width: "fits w (- 9223372036854775808) \<Longrightarrow> w \<le> 64 \<Longrightarrow> w = 64"
proof (rule ccontr)
  assume w: "fits w (- 9223372036854775808)" "w \<le> 64" "w \<noteq> 64"
  then have "(2 :: int) ^ (w - 1) \<le> 2 ^ 62" by (intro power_increasing) auto
  then show False using w(1) by (simp add: fits_def)
qed

lemma fitInt_min_product:
  "fitInt INT64_MIN True True 64 True mode =
     (if mode = OM_Trapped \<or> mode = OM_Checked then cv_error else makeInt INT64_MIN 64 True)"
  by (simp add: fitInt_def limitsFor_def Let_def)

lemma mul_values_min:
  assumes "a = INT64_MIN \<and> b = 1 \<or> a = 1 \<and> b = INT64_MIN"
  shows "mul_values mode (makeInt a 64 True) (makeInt b 64 True) =
     Some (Push (if refused_product mode a b then cv_error else makeInt INT64_MIN 64 True))"
  using assms
  by (elim disjE) (simp_all add: mul_values_def any_float_def mulOverflows64_exact signed_mul64_def fits_def
      widths_def signs_def refused_product_def fitInt_min_product word_sless_alt INT64_MIN_def
      fitInt_min_product [unfolded INT64_MIN_def])

text \<open>C11: For signed operands of one width from 1 to 64 bits that are in range, the evaluator's
  addition, subtraction and multiplication are exactly these. A result outside the 64-bit range is
  undefined behaviour in every mode, because the C++ code forms the 64-bit sum, difference or product
  before it looks at the overflow mode. Otherwise the mathematical result is kept when it fits the
  width, and a result that does not fit is wrapped into the range, clamped to the nearer bound or made
  an error as the mode says; with the one exception that the trapped and checked modes refuse the
  smallest 64-bit integer times one.\<close>

theorem signed_arithmetic:
  assumes "1 \<le> w" "w \<le> 64" "fits w (sint a)" "fits w (sint b)"
  shows "add_values mode (makeInt a w True) (makeInt b w True)
      = (if fits 64 (sint a + sint b) then Some (Push (signed_value mode w (sint a + sint b))) else None)
    \<and> sub_values mode (makeInt a w True) (makeInt b w True)
      = (if fits 64 (sint a - sint b) then Some (Push (signed_value mode w (sint a - sint b))) else None)
    \<and> mul_values mode (makeInt a w True) (makeInt b w True)
      = (if fits 64 (sint a * sint b)
         then Some (Push (if refused_product mode a b then cv_error
                          else signed_value mode w (sint a * sint b)))
         else None)"
proof (intro conjI)
  have k: "a + b = word_of_int (sint a + sint b)" "a - b = word_of_int (sint a - sint b)"
    "a * b = word_of_int (sint a * sint b)" by simp_all
  have ab: "- (2 ^ (w - 1)) \<le> sint a" "sint a < 2 ^ (w - 1)" "- (2 ^ (w - 1)) \<le> sint b"
    "sint b < 2 ^ (w - 1)" using assms(3,4) by (simp_all add: fits_def)
  have s: "a <s 0 \<longleftrightarrow> sint a < 0" "b <s 0 \<longleftrightarrow> sint b < 0" "0 <s b \<longleftrightarrow> 0 < sint b"
    by (simp_all add: word_sless_alt)
  have "fitInt (a + b) (addOverflows64 a b) (a <s 0 \<and> b <s 0) w True mode
      = signed_value mode w (sint a + sint b)"
    unfolding k(1) s using ab assms(1,2)
    by (intro fitInt_signed) (auto simp: addOverflows64_iff fits_def simp del: of_int_add of_int_diff)
  then show "add_values mode (makeInt a w True) (makeInt b w True)
      = (if fits 64 (sint a + sint b) then Some (Push (signed_value mode w (sint a + sint b))) else None)"
    by (simp add: add_values_def any_float_def widths_def signs_def signed_add64_def)
  have "fitInt (a - b) (subOverflows64 a b) (a <s 0 \<and> 0 <s b) w True mode
      = signed_value mode w (sint a - sint b)"
    unfolding k(2) s using ab assms(1,2)
    by (intro fitInt_signed) (auto simp: subOverflows64_iff fits_def simp del: of_int_add of_int_diff)
  then show "sub_values mode (makeInt a w True) (makeInt b w True)
      = (if fits 64 (sint a - sint b) then Some (Push (signed_value mode w (sint a - sint b))) else None)"
    by (simp add: sub_values_def any_float_def widths_def signs_def signed_sub64_def)
  have nz: "sint a \<noteq> 0 \<and> sint b \<noteq> 0" if "\<not> fits w (sint a * sint b)"
    using that by (auto simp: fits_def)
  have neg: "(sint a < 0) \<noteq> (sint b < 0) \<longleftrightarrow> sint a * sint b < 0" if "\<not> fits w (sint a * sint b)"
    using nz [OF that] unfolding mult_less_0_iff by linarith
  have plain: "fitInt (a * b) False ((a <s 0) \<noteq> (b <s 0)) w True mode
      = signed_value mode w (sint a * sint b)" if "fits 64 (sint a * sint b)"
    unfolding k(3) s using that neg assms(1,2) by (intro fitInt_signed) (auto simp del: of_int_mult)
  show "mul_values mode (makeInt a w True) (makeInt b w True)
      = (if fits 64 (sint a * sint b)
         then Some (Push (if refused_product mode a b then cv_error
                          else signed_value mode w (sint a * sint b)))
         else None)"
  proof (cases "fits 64 (sint a * sint b)")
    case False
    then show ?thesis
      by (auto simp: mul_values_def any_float_def mulOverflows64_exact signed_mul64_def)
  next
    case True
    show ?thesis
    proof (cases "(a = INT64_MIN \<or> b = INT64_MIN) \<and> a \<noteq> 0 \<and> b \<noteq> 0")
      case m: True
      then have "sint a = sint (1 :: i64) \<or> sint b = sint (1 :: i64)" using fits_mult_min True by simp
      then have "a = 1 \<or> b = 1" by (metis of_sint)
      then have ab': "a = INT64_MIN \<and> b = 1 \<or> a = 1 \<and> b = INT64_MIN"
        using m by (auto simp: INT64_MIN_def)
      then have "w = 64" using fits_min_width [of w] assms by auto
      moreover have "signed_value mode 64 (sint a * sint b) = makeInt INT64_MIN 64 True"
        using ab' by (auto simp: signed_value_def overflow_spec_def fits_def INT64_MIN_def)
      ultimately show ?thesis using True mul_values_min [OF ab'] by simp
    next
      case m: False
      then have "mulOverflows64 a b = Some False" "\<not> refused_product mode a b"
        using True by (auto simp: mulOverflows64_exact refused_product_def INT64_MIN_def)
      then show ?thesis
        using plain True by (simp add: mul_values_def any_float_def signed_mul64_def widths_def signs_def)
    qed
  qed
qed

theorem signed_arithmetic_witness:
  "add_values OM_Saturating (makeInt 100 8 True) (makeInt 100 8 True) = Some (Push (makeInt 127 8 True))
   \<and> mul_values OM_Wrapped (makeInt 100 8 True) (makeInt 3 8 True) = Some (Push (makeInt 44 8 True))
   \<and> sub_values OM_Checked (makeInt (- 100) 8 True) (makeInt 100 8 True) = Some (Push cv_error)
   \<and> add_values OM_Trapped (makeInt INT64_MAX 64 True) (makeInt 1 64 True) = None"
proof -
  have "signed_take_bit 7 (300 :: int) = 44" by simp
  then show ?thesis
    using signed_arithmetic [of 8 100 100 OM_Saturating] signed_arithmetic [of 8 100 3 OM_Wrapped]
      signed_arithmetic [of 8 "- 100" 100 OM_Checked] signed_arithmetic [of 64 INT64_MAX 1 OM_Trapped]
    by (simp add: fits_def signed_value_def overflow_spec_def refused_product_def)
qed

text \<open>The smallest 64-bit integer times one is reported as an overflow in the trapping modes,
  although the product is the operand itself.\<close>

theorem mul_min_by_one_errs:
  "mul_values OM_Trapped (makeInt INT64_MIN 64 True) (makeInt 1 64 True) = Some (Push cv_error)
   \<and> fits 64 (sint INT64_MIN * sint (1 :: i64))"
  by (simp add: mul_values_min refused_product_def fits_def)

text \<open>A sum that leaves the 64-bit range is formed before the mode is looked at: the trapped
  addition that should give an error is undefined behaviour in C++.\<close>

theorem trapped_add_undefined:
  "add_values OM_Trapped (makeInt INT64_MAX 64 True) (makeInt 1 64 True) = None
   \<and> addOverflows64 INT64_MAX 1"
  by (simp add: add_values_def any_float_def signed_add64_def addOverflows64_iff fits_def)

text \<open>Unsigned saturating subtraction that goes below zero gives the largest value instead of
  zero, because the operation reports the direction of the overflow as positive.\<close>

theorem unsigned_saturating_sub_wraps_up:
  "sub_values OM_Saturating (makeInt 3 8 False) (makeInt 5 8 False) = Some (Push (makeInt 255 8 False))"
  by (simp add: sub_values_def any_float_def subOverflows64_def signed_sub64_def fits_def fitInt_def limitsFor_def
      widths_def signs_def word_sless_alt INT64_MIN_def)

section \<open>128-bit integers\<close>

definition value128 :: "int128 \<Rightarrow> int" where
  "value128 x = sint (i_high x) * 18446744073709551616 + uint (i_low x)"

lemma word64_bounds:
  "0 \<le> uint (a :: u64)" "uint (a :: u64) < 18446744073709551616"
  "- 9223372036854775808 \<le> sint (b :: i64)" "sint (b :: i64) < 9223372036854775808"
  using uint_lt2p [of a] fits_sint [of b] by (simp_all add: fits_def)

lemma value128_bounds:
  "- 170141183460469231731687303715884105728 \<le> value128 x"
  "value128 x < 170141183460469231731687303715884105728"
  using word64_bounds(1,2) [of "i_low x"] word64_bounds(3,4) [of "i_high x"] unfolding value128_def by linarith+

lemma uint_add64:
  "uint (a + b :: u64) = uint a + uint b - (if a + b < a then 1 else 0) * 18446744073709551616"
  using word64_bounds(1,2) [of a] word64_bounds(1,2) [of b]
  by (simp add: word_less_def uint_plus_if')

lemma uint_sub64:
  "uint (a - b :: u64) = uint a - uint b + (if a < b then 1 else 0) * 18446744073709551616"
  using word64_bounds(1,2) [of a] word64_bounds(1,2) [of b]
  by (simp add: word_less_def uint_sub_if')

lemma fits128_split:
  "0 \<le> l \<Longrightarrow> l < 18446744073709551616 \<Longrightarrow> fits 128 (h * 18446744073709551616 + l) \<longleftrightarrow> fits 64 h"
  unfolding fits_def by (simp, linarith)

lemma value128_sum:
  "map_option value128 (do { s \<leftarrow> signed_add64 a b; hi \<leftarrow> signed_add64 s k; Some \<lparr>i_high = hi, i_low = lo\<rparr> })
    = (if fits 64 (sint a + sint b) \<and> fits 64 (sint a + sint b + sint k)
       then Some ((sint a + sint b + sint k) * 18446744073709551616 + uint lo) else None)"
  by (simp add: signed_add64_def value128_def sint_word_add fits_signed_take_bit)

lemma value128_difference:
  "map_option value128 (do { s \<leftarrow> signed_sub64 a b; hi \<leftarrow> signed_sub64 s k; Some \<lparr>i_high = hi, i_low = lo\<rparr> })
    = (if fits 64 (sint a - sint b) \<and> fits 64 (sint a - sint b - sint k)
       then Some ((sint a - sint b - sint k) * 18446744073709551616 + uint lo) else None)"
  by (simp add: signed_sub64_def value128_def sint_word_diff fits_signed_take_bit)

lemma value128_increment:
  "map_option value128 (do { hi \<leftarrow> signed_add64 a k; Some \<lparr>i_high = hi, i_low = lo\<rparr> })
    = (if fits 64 (sint a + sint k) then Some ((sint a + sint k) * 18446744073709551616 + uint lo) else None)"
  by (simp add: signed_add64_def value128_def sint_word_add fits_signed_take_bit)

lemma value128_add:
  "map_option value128 (Int128_add x y) =
     (if fits 64 (sint (i_high x) + sint (i_high y)) \<and> fits 128 (value128 x + value128 y)
      then Some (value128 x + value128 y) else None)"
proof -
  define c :: int where "c = (if i_low x + i_low y < i_low x then 1 else 0)"
  have c: "sint (if i_low x + i_low y < i_low x then 1 else 0 :: i64) = c" by (simp add: c_def)
  have l: "uint (i_low x + i_low y) = uint (i_low x) + uint (i_low y) - c * 18446744073709551616"
    by (simp add: uint_add64 c_def)
  have v: "value128 x + value128 y =
      (sint (i_high x) + sint (i_high y) + c) * 18446744073709551616 + uint (i_low x + i_low y)"
    unfolding value128_def l by (simp add: algebra_simps)
  have f: "fits 128 (value128 x + value128 y) \<longleftrightarrow> fits 64 (sint (i_high x) + sint (i_high y) + c)"
    unfolding v by (rule fits128_split) (rule word64_bounds)+
  show ?thesis
    unfolding f unfolding v Int128_add_def Let_def value128_sum c ..
qed
lemma value128_sub:
  "map_option value128 (Int128_sub x y) =
     (if fits 64 (sint (i_high x) - sint (i_high y)) \<and> fits 128 (value128 x - value128 y)
      then Some (value128 x - value128 y) else None)"
proof -
  define c :: int where "c = (if i_low x < i_low y then 1 else 0)"
  have c: "sint (if i_low x < i_low y then 1 else 0 :: i64) = c" by (simp add: c_def)
  have l: "uint (i_low x - i_low y) = uint (i_low x) - uint (i_low y) + c * 18446744073709551616"
    by (simp add: uint_sub64 c_def)
  have v: "value128 x - value128 y =
      (sint (i_high x) - sint (i_high y) - c) * 18446744073709551616 + uint (i_low x - i_low y)"
    unfolding value128_def l by (simp add: algebra_simps)
  have f: "fits 128 (value128 x - value128 y) \<longleftrightarrow> fits 64 (sint (i_high x) - sint (i_high y) - c)"
    unfolding v by (rule fits128_split) (rule word64_bounds)+
  show ?thesis
    unfolding f unfolding v Int128_sub_def Let_def value128_difference c ..
qed

lemma value128_neg:
  "map_option value128 (Int128_neg x) =
     (if fits 128 (- value128 x) then Some (- value128 x) else None)"
proof -
  define c :: int where "c = (if i_low x = 0 then 1 else 0)"
  have z: "NOT (i_low x) + 1 = - i_low x" by (simp add: not_eq_complement)
  have c: "sint (if - i_low x = 0 then 1 else 0 :: i64) = c" by (simp add: c_def)
  have l: "uint (- i_low x) = (1 - c) * 18446744073709551616 - uint (i_low x)"
    using word64_bounds(1,2) [of "i_low x"]
    by (simp add: c_def uint_word_ariths zmod_zminus1_eq_if unsigned_eq_0_iff)
  have n: "sint (NOT (i_high x)) = - sint (i_high x) - 1"
  proof -
    have "NOT (i_high x) = word_of_int (- sint (i_high x) - 1)" by (simp add: not_eq_complement)
    moreover have "fits 64 (- sint (i_high x) - 1)"
      using fits_sint [of "i_high x"] by (simp add: fits_def)
    ultimately show ?thesis by (simp only: sint_of_int_fits)
  qed
  have v: "- value128 x = (sint (NOT (i_high x)) + c) * 18446744073709551616 + uint (- i_low x)"
    unfolding value128_def l n by (simp add: algebra_simps)
  have f: "fits 128 (- value128 x) \<longleftrightarrow> fits 64 (sint (NOT (i_high x)) + c)"
    unfolding v by (rule fits128_split) (rule word64_bounds)+
  show ?thesis
    unfolding f unfolding v Int128_neg_def Let_def value128_increment z c by simp
qed

lemma value128_less: "Int128_less x y \<longleftrightarrow> value128 x < value128 y"
proof -
  have "i_high x = i_high y \<longleftrightarrow> sint (i_high x) = sint (i_high y)" by (metis of_sint)
  moreover have "sint (i_high x) \<noteq> sint (i_high y) \<Longrightarrow> sint (i_high x) < sint (i_high y) \<longleftrightarrow>
      sint (i_high x) * 18446744073709551616 + uint (i_low x)
      < sint (i_high y) * 18446744073709551616 + uint (i_low y)"
    using word64_bounds(1,2) [of "i_low x"] word64_bounds(1,2) [of "i_low y"] by linarith
  ultimately show ?thesis
    unfolding Int128_less_def word_sless_alt word_less_def value128_def by simp
qed

lemma value128_le: "Int128_le x y \<longleftrightarrow> value128 x \<le> value128 y"
  by (auto simp: Int128_le_def value128_less)

text \<open>C29: The 128-bit operations on high and low halves are the operations on 128-bit two's
  complement integers wherever C++ defines them. A sum or difference is the mathematical one, carry
  or borrow included, and is undefined behaviour exactly when it leaves the signed 128-bit range or
  the signed high halves alone already overflow 64 bits; a negation is exact and undefined only for
  the smallest value; and the two comparisons are the signed orders.\<close>

theorem int128_arithmetic:
  "map_option value128 (Int128_add x y) =
     (if fits 64 (sint (i_high x) + sint (i_high y)) \<and> fits 128 (value128 x + value128 y)
      then Some (value128 x + value128 y) else None)
   \<and> map_option value128 (Int128_sub x y) =
     (if fits 64 (sint (i_high x) - sint (i_high y)) \<and> fits 128 (value128 x - value128 y)
      then Some (value128 x - value128 y) else None)
   \<and> map_option value128 (Int128_neg x) =
     (if value128 x = - (2 ^ 127) then None else Some (- value128 x))
   \<and> (Int128_less x y \<longleftrightarrow> value128 x < value128 y)
   \<and> (Int128_le x y \<longleftrightarrow> value128 x \<le> value128 y)"
proof -
  have "fits 128 (- value128 x) \<longleftrightarrow> value128 x \<noteq> - (2 ^ 127)"
    using value128_bounds [of x] by (auto simp: fits_def)
  then show ?thesis
    by (simp add: value128_add value128_sub value128_neg value128_less value128_le)
qed

end
