(* ===== verification/Diagnostics.thy ===== *)
theory Diagnostics
  imports Djinn_Prelude
begin

text \<open>
  \<^verbatim>\<open>diagnostics/Diagnostic.h\<close> and \<^verbatim>\<open>diagnostics/Diagnostic.cpp\<close>: source locations, diagnostics, and the
  engine that collects them, looks up source lines and renders the report. The sources are a hash
  map that is only ever searched, here a map. Numbers are naturals; the 32-bit differences of
  \<^verbatim>\<open>operator-\<close> wrap. Colours are those of the branch for systems other than Windows.
\<close>

section \<open>Locations and diagnostics\<close>

datatype severity = Sev_Error | Sev_Warning | Sev_Note | Sev_Help

record source_location =
  loc_fileId :: string
  loc_line :: nat
  loc_column :: nat
  loc_length :: nat

definition no_location :: source_location where
  "no_location = \<lparr>loc_fileId = [], loc_line = 0, loc_column = 0, loc_length = 1\<rparr>"

text \<open>
  \<^verbatim>\<open>end - start\<close>: the location that spans both. Locations of two different named files fail an
  assertion.
\<close>

definition minus_u32 :: "nat \<Rightarrow> nat \<Rightarrow> nat" where
  "minus_u32 a b = nat ((int a - int b) mod 4294967296)"

definition location_span :: "source_location \<Rightarrow> source_location \<Rightarrow> source_location option" where
  "location_span stop start =
     (if loc_fileId stop \<noteq> loc_fileId start \<and> loc_fileId stop \<noteq> [] \<and> loc_fileId start \<noteq> [] then None
      else Some \<lparr>loc_fileId = (if loc_fileId stop = [] then loc_fileId start else loc_fileId stop),
                 loc_line = loc_line start, loc_column = loc_column start,
                 loc_length = minus_u32 (cast_u32 (loc_column stop + loc_length stop)) (loc_column start)\<rparr>)"

record diagnostic =
  d_severity :: severity
  d_code :: nat
  d_message :: string
  d_location :: source_location
  d_label :: string
  d_notes :: "string list"
  d_helps :: "string list"

definition new_diagnostic :: "severity \<Rightarrow> nat \<Rightarrow> string \<Rightarrow> source_location \<Rightarrow> diagnostic" where
  "new_diagnostic sev code msg loc =
     \<lparr>d_severity = sev, d_code = code, d_message = msg, d_location = loc, d_label = [], d_notes = [], d_helps = []\<rparr>"

definition withLabel :: "string \<Rightarrow> diagnostic \<Rightarrow> diagnostic" where
  "withLabel l d = d\<lparr>d_label := l\<rparr>"

definition withNote :: "string \<Rightarrow> diagnostic \<Rightarrow> diagnostic" where
  "withNote n d = d\<lparr>d_notes := d_notes d @ [n]\<rparr>"

definition withHelp :: "string \<Rightarrow> diagnostic \<Rightarrow> diagnostic" where
  "withHelp h d = d\<lparr>d_helps := d_helps d @ [h]\<rparr>"

section \<open>The engine\<close>

record source_file =
  sf_source :: string
  sf_lineOffsets :: "nat list"

record diagnostic_engine =
  de_sources :: "string \<rightharpoonup> source_file"
  de_diagnostics :: "diagnostic list"
  total_errors :: nat
  total_warnings :: nat

definition new_engine :: diagnostic_engine where
  "new_engine = \<lparr>de_sources = Map.empty, de_diagnostics = [], total_errors = 0, total_warnings = 0\<rparr>"

definition newline :: char where
  "newline = CHR 0x0A"

definition carriage_return :: char where
  "carriage_return = CHR 0x0D"

fun index_lines :: "nat \<Rightarrow> string \<Rightarrow> nat list" where
  "index_lines i [] = []"
| "index_lines i (c # cs) = (if c = newline then (i + 1) # index_lines (i + 1) cs else index_lines (i + 1) cs)"

definition buildLineIndex :: "string \<Rightarrow> nat list" where
  "buildLineIndex source = 0 # index_lines 0 source"

definition registerSource :: "string \<Rightarrow> string \<Rightarrow> diagnostic_engine \<Rightarrow> diagnostic_engine" where
  "registerSource fileId source de =
     de\<lparr>de_sources := (de_sources de)(fileId \<mapsto> \<lparr>sf_source = source, sf_lineOffsets = buildLineIndex source\<rparr>)\<rparr>"

text \<open>The text between the offsets of a line, without a carriage return at its end.\<close>

definition line_of :: "source_file \<Rightarrow> nat \<Rightarrow> string" where
  "line_of f lineNum =
     (let offsets = sf_lineOffsets f; source = sf_source f in
      if lineNum = 0 \<or> length offsets < lineNum then []
      else (let start = offsets ! (lineNum - 1);
                stop = (if lineNum < length offsets then offsets ! lineNum - 1 else length source);
                stop = (if start < stop \<and> source ! (stop - 1) = carriage_return then stop - 1 else stop)
            in take (stop - start) (drop start source)))"

definition getLine :: "string \<Rightarrow> nat \<Rightarrow> diagnostic_engine \<Rightarrow> string" where
  "getLine fileId lineNum de =
     (case (case de_sources de fileId of Some f \<Rightarrow> Some f | None \<Rightarrow> de_sources de ''main.djinn'') of
        None \<Rightarrow> []
      | Some f \<Rightarrow> line_of f lineNum)"

fun severityString :: "severity \<Rightarrow> string" where
  "severityString Sev_Error = ''error''"
| "severityString Sev_Warning = ''warning''"
| "severityString Sev_Note = ''note''"
| "severityString Sev_Help = ''help''"

fun severityColor :: "severity \<Rightarrow> string" where
  "severityColor Sev_Error = ''1;31''"
| "severityColor Sev_Warning = ''1;33''"
| "severityColor Sev_Note = ''1;36''"
| "severityColor Sev_Help = ''1;32''"

definition colorize :: "string \<Rightarrow> string \<Rightarrow> string" where
  "colorize text code = CHR 0x1B # ''['' @ code @ ''m'' @ text @ CHR 0x1B # ''[0m''"

definition formatCode :: "nat \<Rightarrow> string" where
  "formatCode code = ''E'' @ replicate (4 - length (to_string code)) CHR ''0'' @ to_string code"

definition same_diagnostic :: "diagnostic \<Rightarrow> diagnostic \<Rightarrow> bool" where
  "same_diagnostic a b \<longleftrightarrow>
     d_severity a = d_severity b \<and> d_code a = d_code b \<and> d_message a = d_message b
     \<and> loc_fileId (d_location a) = loc_fileId (d_location b)
     \<and> loc_line (d_location a) = loc_line (d_location b)
     \<and> loc_column (d_location a) = loc_column (d_location b)"

definition emit_diagnostic :: "diagnostic \<Rightarrow> diagnostic_engine \<Rightarrow> diagnostic_engine" where
  "emit_diagnostic d de =
     (if list_ex (\<lambda>e. same_diagnostic e d) (de_diagnostics de) then de
      else (let de = de\<lparr>de_diagnostics := de_diagnostics de @ [d]\<rparr> in
            if d_severity d = Sev_Error then de\<lparr>total_errors := total_errors de + 1\<rparr>
            else if d_severity d = Sev_Warning then de\<lparr>total_warnings := total_warnings de + 1\<rparr>
            else de))"

definition emit_error :: "nat \<Rightarrow> string \<Rightarrow> source_location \<Rightarrow> diagnostic_engine \<Rightarrow> diagnostic_engine" where
  "emit_error code msg loc de = emit_diagnostic (new_diagnostic Sev_Error code msg loc) de"

definition emit_warning :: "nat \<Rightarrow> string \<Rightarrow> source_location \<Rightarrow> diagnostic_engine \<Rightarrow> diagnostic_engine" where
  "emit_warning code msg loc de = emit_diagnostic (new_diagnostic Sev_Warning code msg loc) de"

definition hasErrors :: "diagnostic_engine \<Rightarrow> bool" where
  "hasErrors de \<longleftrightarrow> 0 < total_errors de"

section \<open>The report\<close>

definition blanks :: "nat \<Rightarrow> string" where
  "blanks n = replicate n CHR '' ''"

definition render_place :: "diagnostic \<Rightarrow> diagnostic_engine \<Rightarrow> string" where
  "render_place d de =
     (let loc = d_location d;
          color = severityColor (d_severity d);
          lineNumStr = to_string (loc_line loc);
          padding = blanks (length lineNumStr);
          bar = colorize ''|'' ''1;34'';
          fileInfo = (if loc_fileId loc = [] then [] else loc_fileId loc @ '':'');
          underline = blanks (loc_column loc - 1) @ replicate (max (loc_length loc) 1) CHR ''^''
      in '' '' @ colorize ''-->'' ''1;34'' @ '' '' @ fileInfo @ lineNumStr @ '':'' @ to_string (loc_column loc) @ [newline]
         @ '' '' @ padding @ '' '' @ bar @ [newline]
         @ '' '' @ colorize lineNumStr ''1;34'' @ '' '' @ bar @ '' '' @ getLine (loc_fileId loc) (loc_line loc) de @ [newline]
         @ '' '' @ padding @ '' '' @ bar @ '' '' @ colorize underline color
         @ (if d_label d = [] then [] else '' '' @ colorize (d_label d) color) @ [newline])"

definition renderDiagnostic :: "diagnostic \<Rightarrow> diagnostic_engine \<Rightarrow> string" where
  "renderDiagnostic d de =
     (let color = severityColor (d_severity d); loc = d_location d in
      (if 0 < loc_line loc then render_place d de else [])
      @ colorize (severityString (d_severity d) @ ''['' @ formatCode (d_code d) @ '']'') color
      @ '': '' @ colorize (d_message d) ''1'' @ [newline]
      @ colorize (''line: '' @ to_string (loc_line loc) @ [newline]
                  @ ''column: '' @ to_string (loc_column loc) @ [newline]) color
      @ concat (map (\<lambda>n. '' '' @ colorize ''= note'' ''1;36'' @ '': '' @ n @ [newline]) (d_notes d))
      @ concat (map (\<lambda>h. '' '' @ colorize ''= help'' ''1;32'' @ '': '' @ h @ [newline]) (d_helps d)))"

definition plural :: "nat \<Rightarrow> string" where
  "plural n = (if 1 < n then ''s'' else [])"

definition render :: "diagnostic_engine \<Rightarrow> string" where
  "render de =
     concat (map (\<lambda>d. renderDiagnostic d de @ [newline]) (de_diagnostics de))
     @ (if 0 < total_errors de then
          colorize ''aborting'' ''1;31'' @ '' due to '' @ to_string (total_errors de) @ '' error''
          @ plural (total_errors de)
          @ (if 0 < total_warnings de
             then '' and '' @ to_string (total_warnings de) @ '' warning'' @ plural (total_warnings de) else [])
          @ [newline]
        else if 0 < total_warnings de then
          colorize (to_string (total_warnings de) @ '' warning'' @ plural (total_warnings de) @ '' generated.'') ''1;33''
          @ [newline]
        else [])"

section \<open>Lines\<close>

text \<open>The reference: the source cut at its newlines, one more line than there are newlines.\<close>

fun split_lines :: "string \<Rightarrow> string list" where
  "split_lines [] = [[]]"
| "split_lines (c # cs) =
     (if c = newline then [] # split_lines cs
      else (case split_lines cs of [] \<Rightarrow> [[c]] | l # ls \<Rightarrow> (c # l) # ls))"

definition chomp :: "string \<Rightarrow> string" where
  "chomp l = (if l \<noteq> [] \<and> last l = carriage_return then butlast l else l)"

lemma split_lines_nonempty [simp]: "split_lines cs \<noteq> []"
  by (induction cs) (auto split: list.splits)

lemma index_lines_shift: "index_lines i cs = map ((+) i) (index_lines 0 cs)"
proof (induction cs arbitrary: i)
  case (Cons c cs)
  show ?case using Cons.IH [of "i + 1"] Cons.IH [of 1] by (auto simp: add.commute)
qed simp

lemma length_index_lines: "length (split_lines cs) = Suc (length (index_lines i cs))"
  by (induction cs arbitrary: i) (auto split: list.splits simp: neq_Nil_conv)

lemma buildLineIndex_Cons:
  "buildLineIndex (c # cs) =
     (if c = newline then 0 # map Suc (buildLineIndex cs) else 0 # map Suc (tl (buildLineIndex cs)))"
  using index_lines_shift [of 1 cs] by (simp add: buildLineIndex_def)

text \<open>The slice between two offsets, as the engine takes it.\<close>

definition line_stop :: "string \<Rightarrow> nat \<Rightarrow> nat" where
  "line_stop cs k =
     (if Suc k < length (buildLineIndex cs) then buildLineIndex cs ! Suc k - 1 else length cs)"

lemma line_slice:
  "k < length (split_lines cs) \<Longrightarrow>
    line_stop cs k = buildLineIndex cs ! k + length (split_lines cs ! k)
    \<and> take (length (split_lines cs ! k)) (drop (buildLineIndex cs ! k) cs) = split_lines cs ! k
    \<and> (Suc k < length (buildLineIndex cs) \<longrightarrow> 0 < buildLineIndex cs ! Suc k)
    \<and> buildLineIndex cs ! k + length (split_lines cs ! k) \<le> length cs"
proof (induction cs arbitrary: k)
  case Nil
  then show ?case by (simp add: line_stop_def buildLineIndex_def)
next
  case (Cons c cs)
  obtain l ls where ls: "split_lines cs = l # ls" by (metis neq_Nil_conv split_lines_nonempty)
  obtain os where os: "buildLineIndex cs = 0 # os" "length os = length ls"
    using length_index_lines [of cs 0] ls by (simp add: buildLineIndex_def)
  note IH = Cons.IH [unfolded line_stop_def ls os]
  show ?case
  proof (cases k)
    case 0
    then show ?thesis
      using IH [of 0] ls os by (auto simp: line_stop_def buildLineIndex_Cons split: if_splits)
  next
    case (Suc j)
    show ?thesis
    proof (cases "c = newline")
      case True
      have "(Suc 0 # map Suc os) ! j = Suc ((0 # os) ! j)"
        using nth_map [of j "0 # os" Suc] Cons.prems Suc True ls os by simp
      then show ?thesis
        using True IH [of j] Cons.prems Suc ls os by (auto simp: line_stop_def buildLineIndex_Cons split: if_splits)
    next
      case False
      then show ?thesis
        using IH [of k] Cons.prems Suc ls os by (auto simp: line_stop_def buildLineIndex_Cons split: if_splits)
    qed
  qed
qed

lemma line_of_spec:
  "line_of \<lparr>sf_source = cs, sf_lineOffsets = buildLineIndex cs\<rparr> n =
     (if n = 0 \<or> length (split_lines cs) < n then [] else chomp (split_lines cs ! (n - 1)))"
proof (cases "n = 0 \<or> length (split_lines cs) < n")
  case True
  then show ?thesis
    using length_index_lines [of cs 0] by (auto simp: line_of_def buildLineIndex_def Let_def)
next
  case False
  then obtain k where n: "n = Suc k" and k: "k < length (split_lines cs)" by (cases n) auto
  define l a where "l = split_lines cs ! k" and "a = buildLineIndex cs ! k"
  have stop: "(if Suc k < length (buildLineIndex cs) then buildLineIndex cs ! Suc k - 1 else length cs) = a + length l"
    and sl: "take (length l) (drop a cs) = l" and le: "a + length l \<le> length cs"
    using line_slice [OF k] by (simp_all only: line_stop_def l_def a_def)
  have last: "cs ! (a + length l - 1) = last l" if "l \<noteq> []"
  proof -
    have "last l = take (length l) (drop a cs) ! (length l - 1)" using sl that by (simp add: last_conv_nth)
    also have "\<dots> = cs ! (a + (length l - 1))" using that le by (subst nth_take) auto
    finally show ?thesis using that by (simp add: Suc_leI)
  qed
  have cut: "take (length l - 1) (drop a cs) = butlast l"
    using sl by (metis butlast_conv_take length_take min.cobounded1 min_def take_take nat_le_linear diff_le_self)
  have "\<not> (Suc k = 0 \<or> length (buildLineIndex cs) < Suc k)"
    using length_index_lines [of cs 0] k by (simp add: buildLineIndex_def)
  then have "line_of \<lparr>sf_source = cs, sf_lineOffsets = buildLineIndex cs\<rparr> n =
    (let stop = (if a < a + length l \<and> cs ! (a + length l - 1) = carriage_return then a + length l - 1 else a + length l)
     in take (stop - a) (drop a cs))"
    unfolding n by (simp only: line_of_def Let_def source_file.simps if_False a_def [symmetric] stop diff_Suc_1)
  also have "\<dots> = chomp l"
    using last sl cut by (auto simp: chomp_def)
  finally show ?thesis using False n by (simp add: l_def)
qed

text \<open>The line the engine shows for a location is the line of the source: after a file is
  registered, line number n of it is the n-th piece of the text cut at its newlines, without a
  carriage return at its end, and there is no text for line 0 or past the end. Other files keep
  their lines.\<close>

theorem getLine_registered:
  "getLine f n (registerSource f cs de) =
     (if n = 0 \<or> length (split_lines cs) < n then [] else chomp (split_lines cs ! (n - 1)))
   \<and> (g \<noteq> f \<and> de_sources de g \<noteq> None \<longrightarrow> getLine g n (registerSource f cs de) = getLine g n de)"
  using line_of_spec [of cs n] by (auto simp: getLine_def registerSource_def)

theorem getLine_registered_witness:
  "getLine ''b'' 2 (registerSource ''a'' ''x'' (registerSource ''b'' (''u'' @ [newline] @ ''v'') new_engine)) = ''v''
   \<and> getLine ''b'' 2 (registerSource ''b'' (''u'' @ [newline] @ ''v'') new_engine) = ''v''"
proof -
  let ?de = "registerSource ''b'' (''u'' @ [newline] @ ''v'') new_engine"
  have "getLine ''b'' 2 ?de = ''v''"
    using getLine_registered [of "''b''" 2 "''u'' @ [newline] @ ''v''" new_engine]
    by (simp add: newline_def chomp_def carriage_return_def)
  moreover have "getLine ''b'' 2 (registerSource ''a'' ''x'' ?de) = getLine ''b'' 2 ?de"
    using getLine_registered [of "''a''" 2 "''x''" ?de "''b''"] by (simp add: registerSource_def)
  ultimately show ?thesis by simp
qed

section \<open>Counting\<close>

text \<open>The engine's invariant: no diagnostic twice, and the totals count what is kept.\<close>

definition distinct_diagnostics :: "diagnostic list \<Rightarrow> bool" where
  "distinct_diagnostics ds \<longleftrightarrow>
     sorted_wrt (\<lambda>d e. \<not> same_diagnostic d e) ds"

definition engine_ok :: "diagnostic_engine \<Rightarrow> bool" where
  "engine_ok de \<longleftrightarrow>
     distinct_diagnostics (de_diagnostics de)
     \<and> total_errors de = length (filter (\<lambda>d. d_severity d = Sev_Error) (de_diagnostics de))
     \<and> total_warnings de = length (filter (\<lambda>d. d_severity d = Sev_Warning) (de_diagnostics de))"

lemma distinct_diagnostics_snoc:
  "distinct_diagnostics (ds @ [d]) \<longleftrightarrow> distinct_diagnostics ds \<and> (\<forall>e\<in>set ds. \<not> same_diagnostic e d)"
  by (simp add: distinct_diagnostics_def sorted_wrt_append)

lemma engine_ok_new: "engine_ok new_engine"
  by (simp add: engine_ok_def new_engine_def distinct_diagnostics_def)

lemma engine_ok_emit: "engine_ok de \<Longrightarrow> engine_ok (emit_diagnostic d de)"
  by (auto simp: engine_ok_def emit_diagnostic_def distinct_diagnostics_snoc list_ex_iff Let_def)

lemma emit_diagnostic_present: "\<exists>e\<in>set (de_diagnostics (emit_diagnostic d de)). same_diagnostic e d"
  by (auto simp: emit_diagnostic_def list_ex_iff Let_def same_diagnostic_def)

text \<open>Whatever is emitted, in whatever order, the engine keeps no diagnostic twice, every
  emitted one is present, the totals are the numbers of kept errors and warnings, and the
  compilation counts as failed exactly when an error was emitted.\<close>

theorem engine_counts:
  "let de = fold emit_diagnostic ds new_engine in
     engine_ok de
     \<and> (\<forall>d\<in>set ds. \<exists>e\<in>set (de_diagnostics de). same_diagnostic e d)
     \<and> set (de_diagnostics de) \<subseteq> set ds
     \<and> (hasErrors de \<longleftrightarrow> (\<exists>d\<in>set ds. d_severity d = Sev_Error))"
proof (induction ds rule: rev_induct)
  case Nil
  then show ?case by (simp add: engine_ok_new) (simp add: new_engine_def hasErrors_def)
next
  case (snoc d ds)
  define de where "de = fold emit_diagnostic ds new_engine"
  have keep: "e \<in> set (de_diagnostics de) \<Longrightarrow> e \<in> set (de_diagnostics (emit_diagnostic d de))" for e
    by (simp add: emit_diagnostic_def Let_def)
  have new: "e \<in> set (de_diagnostics (emit_diagnostic d de)) \<Longrightarrow> e \<in> set (de_diagnostics de) \<or> e = d" for e
    by (auto simp: emit_diagnostic_def Let_def split: if_splits)
  have ok: "engine_ok (emit_diagnostic d de)" using snoc by (simp add: de_def Let_def engine_ok_emit)
  have all: "\<forall>x\<in>set (ds @ [d]). \<exists>e\<in>set (de_diagnostics (emit_diagnostic d de)). same_diagnostic e x"
    using snoc keep emit_diagnostic_present [of d de] by (fastforce simp: de_def [symmetric] Let_def)
  have sub: "set (de_diagnostics (emit_diagnostic d de)) \<subseteq> set (ds @ [d])"
    using snoc new by (fastforce simp: de_def [symmetric] Let_def)
  have "hasErrors (emit_diagnostic d de) \<longleftrightarrow> (\<exists>x\<in>set (de_diagnostics (emit_diagnostic d de)). d_severity x = Sev_Error)"
    using ok by (auto simp: engine_ok_def hasErrors_def filter_empty_conv)
  then have "hasErrors (emit_diagnostic d de) \<longleftrightarrow> (\<exists>x\<in>set (ds @ [d]). d_severity x = Sev_Error)"
    using all sub by (auto simp: same_diagnostic_def) (metis+)?
  then show ?case using ok all sub by (simp add: de_def Let_def)
qed

theorem engine_counts_witness:
  "hasErrors (fold emit_diagnostic [new_diagnostic Sev_Error 2001 ''m'' no_location,
      new_diagnostic Sev_Error 2001 ''m'' no_location] new_engine)
   \<and> \<not> hasErrors (fold emit_diagnostic [new_diagnostic Sev_Warning 6001 ''m'' no_location] new_engine)"
  using engine_counts [of "[new_diagnostic Sev_Error 2001 ''m'' no_location, new_diagnostic Sev_Error 2001 ''m'' no_location]"]
    engine_counts [of "[new_diagnostic Sev_Warning 6001 ''m'' no_location]"]
  by (simp add: new_diagnostic_def Let_def)

end
