(* ===== verification/Ownership.thy ===== *)
theory Ownership
  imports Diagnostics Types
begin

text \<open>
  The borrow checker of \<^verbatim>\<open>binder/ownership\<close>: \<^verbatim>\<open>VariableOwnership\<close> of \<^verbatim>\<open>OwnershipState.h\<close>, the
  \<^verbatim>\<open>OwnershipTracker\<close>, and the checks of \<^verbatim>\<open>OwnershipBinder.cpp\<close> that turn a failed check into an
  exception. \<^verbatim>\<open>_variables\<close> and \<^verbatim>\<open>_borrowerToSource\<close> are maps, the stack of scopes has its top at the
  head of a list. \<^verbatim>\<open>getActiveBorrows\<close>, which nothing calls, is left out.
\<close>

section \<open>The state of a variable\<close>

datatype ownership_status = Owned | Moved | PartiallyMoved | Borrowed | MutablyBorrowed

datatype borrow_kind = Shared | Mutable

record active_borrow =
  borrowerName :: string
  borrowKind :: borrow_kind
  b_location :: source_location
  b_scopeDepth :: nat

record variable_ownership =
  vo_name :: string
  status :: ownership_status
  activeBorrows :: "active_borrow list"
  definitionLocation :: source_location
  lastMoveLocation :: source_location
  definitionScopeDepth :: nat
  vo_isCopyType :: bool

definition new_ownership :: "string \<Rightarrow> source_location \<Rightarrow> nat \<Rightarrow> variable_ownership" where
  "new_ownership n loc depth =
     \<lparr>vo_name = n, status = Owned, activeBorrows = [], definitionLocation = loc,
      lastMoveLocation = no_location, definitionScopeDepth = depth, vo_isCopyType = False\<rparr>"

definition isOwned :: "variable_ownership \<Rightarrow> bool" where
  "isOwned v \<longleftrightarrow> status v = Owned"

definition isMoved :: "variable_ownership \<Rightarrow> bool" where
  "isMoved v \<longleftrightarrow> status v = Moved"

definition isBorrowed :: "variable_ownership \<Rightarrow> bool" where
  "isBorrowed v \<longleftrightarrow> status v = Borrowed \<or> status v = MutablyBorrowed"

definition hasMutableBorrow :: "variable_ownership \<Rightarrow> bool" where
  "hasMutableBorrow v \<longleftrightarrow> list_ex (\<lambda>b. borrowKind b = Mutable) (activeBorrows v)"

definition hasAnyBorrow :: "variable_ownership \<Rightarrow> bool" where
  "hasAnyBorrow v \<longleftrightarrow> activeBorrows v \<noteq> []"

definition markMoved :: "source_location \<Rightarrow> variable_ownership \<Rightarrow> variable_ownership" where
  "markMoved loc v = v\<lparr>status := Moved, lastMoveLocation := loc, activeBorrows := []\<rparr>"

definition markBorrowed ::
  "string \<Rightarrow> borrow_kind \<Rightarrow> source_location \<Rightarrow> nat \<Rightarrow> variable_ownership \<Rightarrow> variable_ownership" where
  "markBorrowed borrower knd loc depth v =
     v\<lparr>activeBorrows := activeBorrows v @
          [\<lparr>borrowerName = borrower, borrowKind = knd, b_location = loc, b_scopeDepth = depth\<rparr>],
       status := (if knd = Mutable then MutablyBorrowed else Borrowed)\<rparr>"

definition updateStatusAfterRelease :: "variable_ownership \<Rightarrow> variable_ownership" where
  "updateStatusAfterRelease v =
     (if activeBorrows v = [] then (if status v \<noteq> Moved then v\<lparr>status := Owned\<rparr> else v)
      else if hasMutableBorrow v then v\<lparr>status := MutablyBorrowed\<rparr>
      else v\<lparr>status := Borrowed\<rparr>)"

definition release_borrower :: "string \<Rightarrow> variable_ownership \<Rightarrow> variable_ownership" where
  "release_borrower borrower v =
     updateStatusAfterRelease
       (v\<lparr>activeBorrows := filter (\<lambda>b. borrowerName b \<noteq> borrower) (activeBorrows v)\<rparr>)"

definition releaseBorrowsAtDepth :: "nat \<Rightarrow> variable_ownership \<Rightarrow> variable_ownership" where
  "releaseBorrowsAtDepth depth v =
     updateStatusAfterRelease
       (v\<lparr>activeBorrows := filter (\<lambda>b. \<not> depth \<le> b_scopeDepth b) (activeBorrows v)\<rparr>)"

definition reset_ownership :: "variable_ownership \<Rightarrow> variable_ownership" where
  "reset_ownership v = v\<lparr>status := Owned, activeBorrows := []\<rparr>"

fun ownershipStatusToString :: "ownership_status \<Rightarrow> string" where
  "ownershipStatusToString Owned = ''owned''"
| "ownershipStatusToString Moved = ''moved''"
| "ownershipStatusToString PartiallyMoved = ''partially moved''"
| "ownershipStatusToString Borrowed = ''borrowed''"
| "ownershipStatusToString MutablyBorrowed = ''mutably borrowed''"

fun borrowKindToString :: "borrow_kind \<Rightarrow> string" where
  "borrowKindToString Shared = ''shared''"
| "borrowKindToString Mutable = ''mutable''"

section \<open>The tracker\<close>

record tracker =
  tr_variables :: "string \<rightharpoonup> variable_ownership"
  scopeVariables :: "string list list"
  scopeDepth :: nat
  borrowerToSource :: "string \<rightharpoonup> string"

definition new_tracker :: tracker where
  "new_tracker = \<lparr>tr_variables = Map.empty, scopeVariables = [], scopeDepth = 0, borrowerToSource = Map.empty\<rparr>"

datatype check_result = Check_Ok | Check_Error string source_location "source_location option"

definition update_variable ::
  "string \<Rightarrow> (variable_ownership \<Rightarrow> variable_ownership) \<Rightarrow> tracker \<Rightarrow> tracker" where
  "update_variable n f t = t\<lparr>tr_variables := (tr_variables t)(n := map_option f (tr_variables t n))\<rparr>"

definition own_pushScope :: "tracker \<Rightarrow> tracker" where
  "own_pushScope t =
     t\<lparr>scopeDepth := cast_u32 (scopeDepth t + 1), scopeVariables := [] # scopeVariables t\<rparr>"

definition releaseBorrow :: "string \<Rightarrow> tracker \<Rightarrow> tracker" where
  "releaseBorrow borrower t =
     (case borrowerToSource t borrower of
        None \<Rightarrow> t
      | Some src \<Rightarrow>
          (update_variable src (release_borrower borrower) t)
            \<lparr>borrowerToSource := (borrowerToSource t)(borrower := None)\<rparr>)"

definition own_popScope :: "tracker \<Rightarrow> tracker" where
  "own_popScope t =
     (if scopeDepth t = 0 then t
      else (let t1 = t\<lparr>tr_variables := (\<lambda>n. map_option (releaseBorrowsAtDepth (scopeDepth t)) (tr_variables t n))\<rparr>;
                t2 = (case scopeVariables t1 of
                        [] \<Rightarrow> t1
                      | vs # rest \<Rightarrow> (fold releaseBorrow vs t1)\<lparr>scopeVariables := rest\<rparr>)
            in t2\<lparr>scopeDepth := scopeDepth t2 - 1\<rparr>))"

definition is_copy_type :: "type_t \<Rightarrow> bool" where
  "is_copy_type t \<longleftrightarrow>
     isTransparent (attrs t)
     \<or> kind t \<in> {TK_F16, TK_F32, TK_F64, TK_F128, TK_INTEGER, TK_VOID, TK_POINTER}"

definition own_defineVariable :: "string \<Rightarrow> type_t \<Rightarrow> source_location \<Rightarrow> tracker \<Rightarrow> tracker" where
  "own_defineVariable n ty loc t =
     (let v = (new_ownership n loc (scopeDepth t))\<lparr>vo_isCopyType := is_copy_type ty\<rparr> in
      t\<lparr>tr_variables := (tr_variables t)(n \<mapsto> v),
        scopeVariables := (case scopeVariables t of [] \<Rightarrow> [] | vs # rest \<Rightarrow> (vs @ [n]) # rest)\<rparr>)"

definition undefineVariable :: "string \<Rightarrow> tracker \<Rightarrow> tracker" where
  "undefineVariable n t = t\<lparr>tr_variables := (tr_variables t)(n := None)\<rparr>"

definition quoted :: "string \<Rightarrow> string" where
  "quoted s = CHR 0x27 # s @ [CHR 0x27]"

definition checkUse :: "string \<Rightarrow> source_location \<Rightarrow> tracker \<Rightarrow> check_result" where
  "checkUse n loc t =
     (case tr_variables t n of
        None \<Rightarrow> Check_Ok
      | Some v \<Rightarrow>
          if isMoved v
          then Check_Error (''use of moved value '' @ quoted n) loc (Some (lastMoveLocation v))
          else Check_Ok)"

definition checkMove :: "string \<Rightarrow> source_location \<Rightarrow> tracker \<Rightarrow> check_result" where
  "checkMove n loc t =
     (case tr_variables t n of
        None \<Rightarrow> Check_Ok
      | Some v \<Rightarrow>
          if vo_isCopyType v then Check_Ok
          else if isMoved v
          then Check_Error (''cannot move '' @ quoted n @ '': value has already been moved'') loc
                 (Some (lastMoveLocation v))
          else (case activeBorrows v of
                  b # _ \<Rightarrow>
                    Check_Error (''cannot move '' @ quoted n @ '': value is currently borrowed by ''
                      @ quoted (borrowerName b)) loc (Some (b_location b))
                | [] \<Rightarrow> Check_Ok))"

definition checkBorrow :: "string \<Rightarrow> borrow_kind \<Rightarrow> string \<Rightarrow> source_location \<Rightarrow> tracker \<Rightarrow> check_result" where
  "checkBorrow n knd borrower loc t =
     (case tr_variables t n of
        None \<Rightarrow> Check_Ok
      | Some v \<Rightarrow>
          if isMoved v
          then Check_Error (''cannot borrow '' @ quoted n @ '': value has been moved'') loc (Some (lastMoveLocation v))
          else if knd = Mutable then
            (case activeBorrows v of
               b # _ \<Rightarrow>
                 Check_Error (''cannot borrow '' @ quoted n @ '' as mutable: already ''
                   @ (if borrowKind b = Mutable then ''mutably'' else ''immutably'') @ '' borrowed by ''
                   @ quoted (borrowerName b)) loc (Some (b_location b))
             | [] \<Rightarrow> Check_Ok)
          else
            (case List.find (\<lambda>b. borrowKind b = Mutable) (activeBorrows v) of
               Some b \<Rightarrow>
                 Check_Error (''cannot borrow '' @ quoted n @ '' as immutable: already mutably borrowed by ''
                   @ quoted (borrowerName b)) loc (Some (b_location b))
             | None \<Rightarrow> Check_Ok))"

definition checkAssign :: "string \<Rightarrow> source_location \<Rightarrow> tracker \<Rightarrow> check_result" where
  "checkAssign n loc t =
     (case tr_variables t n of
        None \<Rightarrow> Check_Ok
      | Some v \<Rightarrow>
          (case activeBorrows v of
             b # _ \<Rightarrow>
               Check_Error (''cannot assign to '' @ quoted n @ '': value is currently borrowed by ''
                 @ quoted (borrowerName b)) loc (Some (b_location b))
           | [] \<Rightarrow> Check_Ok))"

definition doMove :: "string \<Rightarrow> source_location \<Rightarrow> tracker \<Rightarrow> tracker" where
  "doMove n loc t = update_variable n (\<lambda>v. if vo_isCopyType v then v else markMoved loc v) t"

definition doBorrow :: "string \<Rightarrow> borrow_kind \<Rightarrow> string \<Rightarrow> source_location \<Rightarrow> tracker \<Rightarrow> tracker" where
  "doBorrow n knd borrower loc t =
     (if tr_variables t n = None then t
      else (update_variable n (markBorrowed borrower knd loc (scopeDepth t)) t)
             \<lparr>borrowerToSource := (borrowerToSource t)(borrower \<mapsto> n)\<rparr>)"

definition reinitialize :: "string \<Rightarrow> tracker \<Rightarrow> tracker" where
  "reinitialize n t = update_variable n reset_ownership t"

definition isVariableTracked :: "string \<Rightarrow> tracker \<Rightarrow> bool" where
  "isVariableTracked n t \<longleftrightarrow> tr_variables t n \<noteq> None"

definition getStatus :: "string \<Rightarrow> tracker \<Rightarrow> ownership_status option" where
  "getStatus n t = map_option status (tr_variables t n)"

fun join_borrows :: "active_borrow list \<Rightarrow> string" where
  "join_borrows [] = []"
| "join_borrows [b] = borrowKindToString (borrowKind b) @ '' by '' @ quoted (borrowerName b)"
| "join_borrows (b # bs) =
     borrowKindToString (borrowKind b) @ '' by '' @ quoted (borrowerName b) @ '', '' @ join_borrows bs"

definition getOwnershipDiagnostic :: "string \<Rightarrow> tracker \<Rightarrow> string" where
  "getOwnershipDiagnostic n t =
     (case tr_variables t n of
        None \<Rightarrow> ''variable '' @ quoted n @ '' is not tracked''
      | Some v \<Rightarrow>
          ''variable '' @ quoted n @ '' is '' @ ownershipStatusToString (status v)
          @ (if activeBorrows v = [] then []
             else '' with '' @ to_string (length (activeBorrows v)) @ '' active borrow(s): ''
                  @ join_borrows (activeBorrows v))
          @ (if isMoved v \<and> 0 < loc_line (lastMoveLocation v)
             then '' (moved at line '' @ to_string (loc_line (lastMoveLocation v)) @ '')'' else []))"

section \<open>The checks of the binder\<close>

text \<open>
  A failed check is emitted and thrown as a \<^verbatim>\<open>CompileError\<close>; the line of the related location is
  added to the message. Every error of the tracker has a related location.
\<close>

datatype compile_error = Compile_Error nat string source_location

definition USE_AFTER_MOVE :: nat where "USE_AFTER_MOVE = 5001"
definition MOVE_ERROR :: nat where "MOVE_ERROR = 5002"
definition BORROW_CONFLICT :: nat where "BORROW_CONFLICT = 5003"
definition MUTABLE_BORROW_CONFLICT :: nat where "MUTABLE_BORROW_CONFLICT = 5004"
definition ASSIGN_TO_BORROWED :: nat where "ASSIGN_TO_BORROWED = 5005"

definition raise_check :: "nat \<Rightarrow> string \<Rightarrow> source_location \<Rightarrow> check_result \<Rightarrow> compile_error + unit" where
  "raise_check code remark loc r =
     (case r of
        Check_Ok \<Rightarrow> Inr ()
      | Check_Error msg _ (Some rel) \<Rightarrow>
          Inl (Compile_Error code (msg @ '' ('' @ remark @ to_string (loc_line rel) @ '')'') loc)
      | Check_Error msg _ None \<Rightarrow> Inl (Compile_Error code msg loc))"

definition checkVariableUse :: "string \<Rightarrow> source_location \<Rightarrow> tracker \<Rightarrow> compile_error + unit" where
  "checkVariableUse n loc t = raise_check USE_AFTER_MOVE ''moved at line '' loc (checkUse n loc t)"

definition checkVariableMove :: "string \<Rightarrow> source_location \<Rightarrow> tracker \<Rightarrow> compile_error + unit" where
  "checkVariableMove n loc t = raise_check MOVE_ERROR ''at line '' loc (checkMove n loc t)"

definition checkVariableBorrow ::
  "string \<Rightarrow> borrow_kind \<Rightarrow> string \<Rightarrow> source_location \<Rightarrow> tracker \<Rightarrow> compile_error + unit" where
  "checkVariableBorrow n knd borrower loc t =
     raise_check (if knd = Mutable then MUTABLE_BORROW_CONFLICT else BORROW_CONFLICT)
       ''borrowed at line '' loc (checkBorrow n knd borrower loc t)"

definition checkVariableAssignment :: "string \<Rightarrow> source_location \<Rightarrow> tracker \<Rightarrow> compile_error + unit" where
  "checkVariableAssignment n loc t =
     raise_check ASSIGN_TO_BORROWED ''borrowed at line '' loc (checkAssign n loc t)"

text \<open>
  \<^verbatim>\<open>trackVariableDefinition\<close>: a variable of a transparent struct counts as copyable. The argument
  tells whether a name is a struct of the global scope with a base type.
\<close>

definition set_transparent :: "type_t \<Rightarrow> type_t" where
  "set_transparent t = Type ((attrs t)\<lparr>isTransparent := True\<rparr>) (elementType t) (genericArgs t)"

definition trackVariableDefinition ::
  "(string \<Rightarrow> bool) \<Rightarrow> string \<Rightarrow> type_t \<Rightarrow> source_location \<Rightarrow> tracker \<Rightarrow> tracker" where
  "trackVariableDefinition transparent n ty loc t =
     (let resolvedType = copy_type ty in
      own_defineVariable n
        (if kind ty = TK_STRUCT \<and> \<not> isTransparent (attrs ty) \<and> transparent (structName (attrs ty))
         then set_transparent resolvedType else resolvedType) loc t)"

end
