(* ===== verification/Ownership_Correct.thy ===== *)
theory Ownership_Correct
  imports Ownership
begin

text \<open>
  What the borrow checker guarantees. The state of one variable refines an abstract place that is
  free, gone, lent to readers or lent to one writer: the checks decide as the rules of the place
  say, and the operations follow its transitions. Every sequence of checked operations keeps the
  tracker well formed, and leaving a scope ends the borrows made in it.
\<close>

section \<open>Places\<close>

datatype place = Free | Gone | Lent "string list" | Lent_Mutably string

fun may_use :: "place \<Rightarrow> bool" where
  "may_use Gone \<longleftrightarrow> False"
| "may_use _ \<longleftrightarrow> True"

fun may_move :: "place \<Rightarrow> bool" where
  "may_move Free \<longleftrightarrow> True"
| "may_move _ \<longleftrightarrow> False"

fun may_borrow :: "borrow_kind \<Rightarrow> place \<Rightarrow> bool" where
  "may_borrow _ Free \<longleftrightarrow> True"
| "may_borrow Shared (Lent _) \<longleftrightarrow> True"
| "may_borrow _ _ \<longleftrightarrow> False"

fun may_assign :: "place \<Rightarrow> bool" where
  "may_assign Free \<longleftrightarrow> True"
| "may_assign Gone \<longleftrightarrow> True"
| "may_assign _ \<longleftrightarrow> False"

fun lend :: "borrow_kind \<Rightarrow> string \<Rightarrow> place \<Rightarrow> place" where
  "lend Mutable b Free = Lent_Mutably b"
| "lend Shared b Free = Lent [b]"
| "lend Shared b (Lent bs) = Lent (bs @ [b])"
| "lend _ _ p = p"

text \<open>Giving back: the borrower's loans end, and a place nobody holds is free again.\<close>

fun give_back :: "string \<Rightarrow> place \<Rightarrow> place" where
  "give_back b (Lent bs) = (if filter (\<lambda>x. x \<noteq> b) bs = [] then Free else Lent (filter (\<lambda>x. x \<noteq> b) bs))"
| "give_back b (Lent_Mutably x) = (if x = b then Free else Lent_Mutably x)"
| "give_back b p = p"

definition place_of :: "variable_ownership \<Rightarrow> place" where
  "place_of v =
     (if isMoved v then Gone
      else case activeBorrows v of
             [] \<Rightarrow> Free
           | b # bs \<Rightarrow> if hasMutableBorrow v then Lent_Mutably (borrowerName b)
                        else Lent (map borrowerName (b # bs)))"

section \<open>The invariant\<close>

text \<open>The status agrees with the borrows, and a mutable borrow is the only one.\<close>

definition var_ok :: "variable_ownership \<Rightarrow> bool" where
  "var_ok v \<longleftrightarrow>
     (if activeBorrows v = [] then status v = Owned \<or> status v = Moved
      else status v = (if hasMutableBorrow v then MutablyBorrowed else Borrowed))
     \<and> (hasMutableBorrow v \<longrightarrow> length (activeBorrows v) = 1)"

lemmas own_defs = isMoved_def isOwned_def isBorrowed_def hasMutableBorrow_def hasAnyBorrow_def
declare own_defs [own_simps] var_ok_def [own_simps] place_of_def [own_simps]

lemma var_ok_new: "var_ok (new_ownership n loc d)" "var_ok ((new_ownership n loc d)\<lparr>vo_isCopyType := c\<rparr>)"
  by (simp_all add: own_simps new_ownership_def)

lemma var_ok_moved: "var_ok (markMoved loc v)"
  by (simp add: own_simps markMoved_def)

lemma var_ok_reset: "var_ok (reset_ownership v)"
  by (simp add: own_simps reset_ownership_def)

text \<open>Dropping some of the borrows and adjusting the status keeps the invariant.\<close>

lemma var_ok_release:
  assumes "var_ok v"
  shows "var_ok (updateStatusAfterRelease (v\<lparr>activeBorrows := filter P (activeBorrows v)\<rparr>))"
proof -
  have one: "length (filter P (activeBorrows v)) = 1"
    if "list_ex (\<lambda>b. borrowKind b = Mutable) (filter P (activeBorrows v))"
  proof -
    from that have "list_ex (\<lambda>b. borrowKind b = Mutable) (activeBorrows v)" by (auto simp: list_ex_iff)
    then have "length (activeBorrows v) = 1" using assms by (simp add: own_simps)
    then have "length (filter P (activeBorrows v)) \<le> 1" using length_filter_le by metis
    moreover have "filter P (activeBorrows v) \<noteq> []" using that by auto
    ultimately show ?thesis by (cases "filter P (activeBorrows v)") auto
  qed
  show ?thesis using one assms by (auto simp: own_simps updateStatusAfterRelease_def)
qed

lemma var_ok_borrowed:
  assumes "var_ok v" "may_borrow knd (place_of v)"
  shows "var_ok (markBorrowed b knd loc d v)"
  using assms by (cases knd; cases "activeBorrows v") (auto simp: own_simps markBorrowed_def split: if_splits)

text \<open>Refinement of the places.\<close>

lemma place_markMoved: "place_of (markMoved loc v) = Gone"
  by (simp add: own_simps markMoved_def)

lemma place_reset: "place_of (reset_ownership v) = Free"
  by (simp add: own_simps reset_ownership_def)

lemma place_markBorrowed:
  assumes "var_ok v" "may_borrow knd (place_of v)"
  shows "place_of (markBorrowed b knd loc d v) = lend knd b (place_of v)"
  using assms by (cases knd; cases "activeBorrows v") (auto simp: own_simps markBorrowed_def split: if_splits)

lemma place_release:
  assumes "var_ok v"
  shows "place_of (release_borrower b v) = give_back b (place_of v)"
proof (cases "activeBorrows v")
  case Nil
  then show ?thesis using assms by (auto simp: own_simps release_borrower_def updateStatusAfterRelease_def)
next
  case (Cons x xs)
  show ?thesis
  proof (cases "hasMutableBorrow v")
    case True
    then have "xs = []" using assms Cons by (simp add: own_simps)
    then show ?thesis using True assms Cons
      by (auto simp: own_simps release_borrower_def updateStatusAfterRelease_def)
  next
    case False
    have m: "filter (\<lambda>x. x \<noteq> b) (map borrowerName ys) = map borrowerName (filter (\<lambda>y. borrowerName y \<noteq> b) ys)" for ys
      by (simp add: filter_map comp_def)
    have "\<not> list_ex (\<lambda>y. borrowKind y = Mutable) (filter (\<lambda>y. borrowerName y \<noteq> b) (activeBorrows v))"
      using False by (auto simp: own_simps list_ex_iff)
    then show ?thesis using False assms Cons m [of "activeBorrows v"]
      by (auto simp: own_simps release_borrower_def updateStatusAfterRelease_def split: list.splits if_splits)
  qed
qed

section \<open>Sequences of checked operations\<close>

text \<open>The steps the binder takes: an operation runs only after its check succeeded.\<close>

inductive own_step :: "tracker \<Rightarrow> tracker \<Rightarrow> bool" where
  step_push: "scopeDepth t + 1 < 4294967296 \<Longrightarrow> own_step t (own_pushScope t)"
| step_pop: "own_step t (own_popScope t)"
| step_define: "own_step t (own_defineVariable n ty loc t)"
| step_undefine: "own_step t (undefineVariable n t)"
| step_move: "checkMove n loc t = Check_Ok \<Longrightarrow> own_step t (doMove n loc t)"
| step_borrow: "checkBorrow n knd b loc t = Check_Ok \<Longrightarrow> own_step t (doBorrow n knd b loc t)"
| step_assign: "own_step t (reinitialize n t)"
| step_release: "own_step t (releaseBorrow b t)"

definition tracker_ok :: "tracker \<Rightarrow> bool" where
  "tracker_ok t \<longleftrightarrow>
     length (scopeVariables t) = scopeDepth t
     \<and> (\<forall>n v. tr_variables t n = Some v \<longrightarrow>
          var_ok v \<and> (\<forall>b\<in>set (activeBorrows v). b_scopeDepth b \<le> scopeDepth t))"

text \<open>The checks read off the place.\<close>

lemma checkUse_place:
  "tr_variables t n = Some v \<Longrightarrow> (checkUse n loc t = Check_Ok \<longleftrightarrow> may_use (place_of v))"
  by (auto simp: own_simps checkUse_def split: list.splits)

lemma checkMove_place:
  "tr_variables t n = Some v \<Longrightarrow>
    (checkMove n loc t = Check_Ok \<longleftrightarrow> vo_isCopyType v \<or> may_move (place_of v))"
  by (auto simp: own_simps checkMove_def split: list.splits)

lemma checkBorrow_place:
  "tr_variables t n = Some v \<Longrightarrow>
    (checkBorrow n knd b loc t = Check_Ok \<longleftrightarrow> may_borrow knd (place_of v))"
  by (cases knd)
    (auto simp: own_simps checkBorrow_def find_None_iff find_Some_iff list_ex_iff split: list.splits option.splits)

lemma checkAssign_place:
  "tr_variables t n = Some v \<Longrightarrow> var_ok v \<Longrightarrow>
    (checkAssign n loc t = Check_Ok \<longleftrightarrow> may_assign (place_of v))"
  by (auto simp: own_simps checkAssign_def split: list.splits if_splits)

text \<open>Each operation keeps the invariant.\<close>

lemma tracker_ok_update:
  assumes "tracker_ok t"
    and "\<And>v. tr_variables t n = Some v \<Longrightarrow> var_ok v \<Longrightarrow> var_ok (f v)"
    and "\<And>v b. tr_variables t n = Some v \<Longrightarrow> b \<in> set (activeBorrows (f v)) \<Longrightarrow>
      b \<in> set (activeBorrows v) \<or> b_scopeDepth b \<le> scopeDepth t"
  shows "tracker_ok (update_variable n f t)"
  using assms by (auto simp: tracker_ok_def update_variable_def split: if_splits) blast+

lemma release_borrows_subset:
  "set (activeBorrows (release_borrower b v)) \<subseteq> set (activeBorrows v)"
  by (auto simp: release_borrower_def updateStatusAfterRelease_def)

lemma tracker_ok_release: "tracker_ok t \<Longrightarrow> tracker_ok (releaseBorrow b t)"
proof (cases "borrowerToSource t b")
  case (Some src)
  assume ok: "tracker_ok t"
  have "tracker_ok (update_variable src (release_borrower b) t)"
    using ok by (rule tracker_ok_update) (use release_borrows_subset in \<open>auto simp: release_borrower_def var_ok_release\<close>)
  then show ?thesis using Some by (simp add: releaseBorrow_def tracker_ok_def)
qed (simp add: releaseBorrow_def)

lemma tracker_ok_release_all: "tracker_ok t \<Longrightarrow> tracker_ok (fold releaseBorrow vs t)"
  by (induction vs arbitrary: t) (simp_all add: tracker_ok_release)

lemma release_depth [simp]: "scopeDepth (releaseBorrow b t) = scopeDepth t"
    "scopeVariables (releaseBorrow b t) = scopeVariables t"
  by (simp_all add: releaseBorrow_def update_variable_def split: option.split)

lemma release_all_depth [simp]: "scopeDepth (fold releaseBorrow vs t) = scopeDepth t"
    "scopeVariables (fold releaseBorrow vs t) = scopeVariables t"
  by (induction vs arbitrary: t) simp_all

lemma release_borrows: "tr_variables (releaseBorrow b t) n = Some v \<Longrightarrow>
    \<exists>w. tr_variables t n = Some w \<and> set (activeBorrows v) \<subseteq> set (activeBorrows w)"
  using release_borrows_subset by (fastforce simp: releaseBorrow_def update_variable_def split: option.splits if_splits)

lemma release_all_borrows: "tr_variables (fold releaseBorrow vs t) n = Some v \<Longrightarrow>
    \<exists>w. tr_variables t n = Some w \<and> set (activeBorrows v) \<subseteq> set (activeBorrows w)"
proof (induction vs arbitrary: t)
  case (Cons b vs)
  then obtain w where "tr_variables (releaseBorrow b t) n = Some w" "set (activeBorrows v) \<subseteq> set (activeBorrows w)"
    by auto
  then show ?case using release_borrows by fastforce
qed auto

lemma depth_borrows: "b \<in> set (activeBorrows (releaseBorrowsAtDepth d v)) \<Longrightarrow>
    b \<in> set (activeBorrows v) \<and> b_scopeDepth b < d"
  by (auto simp: releaseBorrowsAtDepth_def updateStatusAfterRelease_def split: if_splits)

definition depth_released :: "tracker \<Rightarrow> tracker" where
  "depth_released t =
     t\<lparr>tr_variables := (\<lambda>n. map_option (releaseBorrowsAtDepth (scopeDepth t)) (tr_variables t n))\<rparr>"

lemma popScope_unfold:
  assumes "tracker_ok t" "scopeDepth t \<noteq> 0"
  obtains vs rest where "scopeVariables t = vs # rest"
    "own_popScope t = (fold releaseBorrow vs (depth_released t))
       \<lparr>scopeVariables := rest, scopeDepth := scopeDepth t - 1\<rparr>"
proof -
  from assms obtain vs rest where s: "scopeVariables t = vs # rest"
    by (cases "scopeVariables t") (auto simp: tracker_ok_def)
  have "own_popScope t = (fold releaseBorrow vs (depth_released t))
       \<lparr>scopeVariables := rest, scopeDepth := scopeDepth t - 1\<rparr>"
    using assms(2) s by (simp add: own_popScope_def depth_released_def [symmetric] Let_def) (simp add: depth_released_def)
  then show ?thesis using s that by blast
qed

lemma depth_released_ok: "tracker_ok t \<Longrightarrow> tracker_ok (depth_released t)"
  by (auto simp: tracker_ok_def depth_released_def releaseBorrowsAtDepth_def var_ok_release
      dest!: depth_borrows [unfolded releaseBorrowsAtDepth_def])

lemma popScope_borrows:
  assumes "tracker_ok t" "scopeDepth t \<noteq> 0" "tr_variables (own_popScope t) n = Some v" "b \<in> set (activeBorrows v)"
  shows "b_scopeDepth b < scopeDepth t"
proof -
  obtain vs rest where p: "own_popScope t = (fold releaseBorrow vs (depth_released t))
       \<lparr>scopeVariables := rest, scopeDepth := scopeDepth t - 1\<rparr>"
    using popScope_unfold assms(1,2) by blast
  with assms(3) obtain w where "tr_variables (depth_released t) n = Some w" "set (activeBorrows v) \<subseteq> set (activeBorrows w)"
    using release_all_borrows by fastforce
  then show ?thesis using assms(4) depth_borrows by (fastforce simp: depth_released_def)
qed

lemma tracker_ok_pop: "tracker_ok t \<Longrightarrow> tracker_ok (own_popScope t)"
proof (cases "scopeDepth t = 0")
  case False
  assume ok: "tracker_ok t"
  obtain vs rest where p: "scopeVariables t = vs # rest" "own_popScope t = (fold releaseBorrow vs (depth_released t))
       \<lparr>scopeVariables := rest, scopeDepth := scopeDepth t - 1\<rparr>"
    using popScope_unfold ok False by blast
  have "tracker_ok (fold releaseBorrow vs (depth_released t))"
    using ok by (intro tracker_ok_release_all depth_released_ok)
  then show ?thesis
    using popScope_borrows [OF ok False] p ok by (fastforce simp: tracker_ok_def)
qed (simp add: own_popScope_def)

lemma tracker_ok_new: "tracker_ok new_tracker"
  by (simp add: tracker_ok_def new_tracker_def)

lemma tracker_ok_define: "tracker_ok t \<Longrightarrow> tracker_ok (own_defineVariable n ty loc t)"
  by (auto simp: tracker_ok_def own_defineVariable_def Let_def var_ok_new split: if_splits list.splits)
    (simp_all add: new_ownership_def)

lemma tracker_ok_borrow:
  assumes "tracker_ok t" "checkBorrow n knd b loc t = Check_Ok"
  shows "tracker_ok (doBorrow n knd b loc t)"
proof (cases "tr_variables t n")
  case (Some v)
  have "tracker_ok (update_variable n (markBorrowed b knd loc (scopeDepth t)) t)"
    using assms(1)
  proof (rule tracker_ok_update)
    fix v assume v: "tr_variables t n = Some v" "var_ok v"
    then show "var_ok (markBorrowed b knd loc (scopeDepth t) v)"
      using assms(2) by (simp add: var_ok_borrowed checkBorrow_place)
  qed (auto simp: markBorrowed_def)
  then show ?thesis using Some by (simp add: doBorrow_def tracker_ok_def)
qed (use assms in \<open>simp add: doBorrow_def\<close>)

lemma own_step_ok: "own_step t t' \<Longrightarrow> tracker_ok t \<Longrightarrow> tracker_ok t'"
proof (induction rule: own_step.induct)
  case (step_push t)
  then show ?case by (auto simp: tracker_ok_def own_pushScope_def) (metis le_SucI)
next
  case (step_undefine t n)
  then show ?case by (simp add: tracker_ok_def undefineVariable_def)
next
  case (step_move n loc t)
  have "var_ok (if vo_isCopyType v then v else markMoved loc v)" if "var_ok v" for v
    using that var_ok_moved by simp
  then show ?case unfolding doMove_def
    by (intro tracker_ok_update [OF step_move.prems]) (auto simp: markMoved_def split: if_splits)
next
  case (step_assign t n)
  then show ?case unfolding reinitialize_def
    by (rule tracker_ok_update) (simp_all add: var_ok_reset, simp add: reset_ownership_def)
qed (simp_all add: tracker_ok_pop tracker_ok_define tracker_ok_borrow tracker_ok_release)

interpretation ownership: invariant_argument new_tracker own_step tracker_ok
  by unfold_locales (use tracker_ok_new own_step_ok in blast)+

text \<open>C7: Aliasing or mutation, never both. After any sequence of checked operations, a variable
  that is mutably borrowed has exactly one borrow, a moved variable has none, and the recorded
  status is the one its borrows call for; no borrow belongs to a scope that was left.\<close>

theorem ownership_discipline:
  assumes "own_step\<^sup>*\<^sup>* new_tracker t" "tr_variables t n = Some v"
  shows "(hasMutableBorrow v \<longrightarrow> length (activeBorrows v) = 1)
    \<and> (isMoved v \<longrightarrow> activeBorrows v = [])
    \<and> (getStatus n t = Some MutablyBorrowed \<longleftrightarrow> hasMutableBorrow v)
    \<and> (getStatus n t = Some Borrowed \<longleftrightarrow> hasAnyBorrow v \<and> \<not> hasMutableBorrow v)
    \<and> (\<forall>b\<in>set (activeBorrows v). b_scopeDepth b \<le> scopeDepth t)"
proof -
  have "tracker_ok t" using assms(1) by (rule ownership.inv_reachable)
  then have "var_ok v" "\<forall>b\<in>set (activeBorrows v). b_scopeDepth b \<le> scopeDepth t"
    using assms(2) by (auto simp: tracker_ok_def)
  then show ?thesis using assms(2) by (auto simp: own_simps getStatus_def split: if_splits)
qed

definition sample_tracker :: tracker where
  "sample_tracker = own_defineVariable ''x'' (struct_type ''S'') no_location new_tracker"

definition sample_borrowed :: tracker where
  "sample_borrowed = doBorrow ''x'' Mutable ''r'' no_location sample_tracker"

lemma sample_borrow_check: "checkBorrow ''x'' Mutable ''r'' no_location sample_tracker = Check_Ok"
  by (simp add: checkBorrow_def sample_tracker_def own_defineVariable_def Let_def new_ownership_def isMoved_def)

lemma sample_reachable: "own_step\<^sup>*\<^sup>* new_tracker sample_tracker" "own_step\<^sup>*\<^sup>* new_tracker sample_borrowed"
proof -
  show s: "own_step\<^sup>*\<^sup>* new_tracker sample_tracker" unfolding sample_tracker_def by (blast intro: step_define)
  show "own_step\<^sup>*\<^sup>* new_tracker sample_borrowed"
    using s step_borrow [OF sample_borrow_check] unfolding sample_borrowed_def by simp
qed

theorem ownership_discipline_witness:
  "\<exists>v. tr_variables sample_borrowed ''x'' = Some v \<and> hasMutableBorrow v \<and> length (activeBorrows v) = 1"
proof -
  obtain v where v: "tr_variables sample_borrowed ''x'' = Some v" "hasMutableBorrow v"
    by (simp add: sample_borrowed_def sample_tracker_def own_defineVariable_def doBorrow_def update_variable_def
        Let_def hasMutableBorrow_def markBorrowed_def)
  then show ?thesis using ownership_discipline [OF sample_reachable(2) v(1)] by blast
qed

text \<open>C8: The borrow checker implements the rules of the abstract place: for every tracked variable
  of a well-formed tracker, each check succeeds exactly when the place allows the operation (a
  value of a copyable type may always be copied out), and each operation whose check succeeded
  takes the place where the rules say.\<close>

theorem ownership_refines_places:
  assumes "tracker_ok t" "tr_variables t n = Some v"
  shows "(checkUse n loc t = Check_Ok \<longleftrightarrow> may_use (place_of v))
    \<and> (checkMove n loc t = Check_Ok \<longleftrightarrow> vo_isCopyType v \<or> may_move (place_of v))
    \<and> (checkBorrow n knd b loc t = Check_Ok \<longleftrightarrow> may_borrow knd (place_of v))
    \<and> (checkAssign n loc t = Check_Ok \<longleftrightarrow> may_assign (place_of v))
    \<and> map_option place_of (tr_variables (doMove n loc t) n) = Some (if vo_isCopyType v then place_of v else Gone)
    \<and> map_option place_of (tr_variables (reinitialize n t) n) = Some Free
    \<and> (checkBorrow n knd b loc t = Check_Ok \<longrightarrow>
        map_option place_of (tr_variables (doBorrow n knd b loc t) n) = Some (lend knd b (place_of v)))
    \<and> (borrowerToSource t b = Some n \<longrightarrow>
        map_option place_of (tr_variables (releaseBorrow b t) n) = Some (give_back b (place_of v)))"
proof -
  have ok: "var_ok v" using assms by (simp add: tracker_ok_def)
  have "checkBorrow n knd b loc t = Check_Ok \<longrightarrow>
      map_option place_of (tr_variables (doBorrow n knd b loc t) n) = Some (lend knd b (place_of v))"
    using assms(2) place_markBorrowed [OF ok] checkBorrow_place [OF assms(2)]
    by (simp add: doBorrow_def update_variable_def)
  then show ?thesis
    using assms(2) checkUse_place checkMove_place checkBorrow_place checkAssign_place [OF assms(2) ok] place_release [OF ok]
    by (simp add: doMove_def reinitialize_def releaseBorrow_def update_variable_def place_markMoved place_reset)
qed

theorem ownership_refines_places_witness:
  "\<exists>v. tr_variables sample_borrowed ''x'' = Some v \<and> place_of v = Lent_Mutably ''r''
    \<and> checkMove ''x'' no_location sample_borrowed \<noteq> Check_Ok
    \<and> map_option place_of (tr_variables (releaseBorrow ''r'' sample_borrowed) ''x'') = Some Free"
proof -
  obtain v where v: "tr_variables sample_borrowed ''x'' = Some v" "place_of v = Lent_Mutably ''r''"
    "\<not> vo_isCopyType v" "borrowerToSource sample_borrowed ''r'' = Some ''x''"
    by (simp add: sample_borrowed_def sample_tracker_def own_defineVariable_def doBorrow_def update_variable_def
        Let_def markBorrowed_def new_ownership_def own_simps is_copy_type_def struct_type_def new_type_def new_attrs_def)
  have "tracker_ok sample_borrowed" using sample_reachable(2) by (rule ownership.inv_reachable)
  from ownership_refines_places [OF this v(1), of no_location Shared "''r''"] v show ?thesis by auto
qed

section \<open>Leaving a scope\<close>

lemma release_moved:
  "var_ok v \<Longrightarrow> isMoved (updateStatusAfterRelease (v\<lparr>activeBorrows := filter P (activeBorrows v)\<rparr>)) = isMoved v"
  by (auto simp: own_simps updateStatusAfterRelease_def split: if_splits)

lemma release_all_moved:
  assumes "tracker_ok t" "tr_variables (fold releaseBorrow vs t) n = Some v"
  shows "\<exists>w. tr_variables t n = Some w \<and> isMoved v = isMoved w"
  using assms
proof (induction vs arbitrary: t)
  case (Cons b vs)
  obtain w where w: "tr_variables (releaseBorrow b t) n = Some w" "isMoved v = isMoved w"
    using Cons.IH [of "releaseBorrow b t"] Cons.prems tracker_ok_release by auto
  show ?case
  proof (cases "borrowerToSource t b = Some n")
    case True
    then obtain u where u: "tr_variables t n = Some u" "w = release_borrower b u"
      using w(1) by (auto simp: releaseBorrow_def update_variable_def)
    then have "var_ok u" using Cons.prems by (simp add: tracker_ok_def)
    then show ?thesis using u w(2) release_moved by (auto simp: release_borrower_def)
  next
    case False
    then show ?thesis using w by (auto simp: releaseBorrow_def update_variable_def split: option.splits if_splits)
  qed
qed auto

text \<open>Leaving a scope ends every borrow made in it, and nothing else: no borrow of the left scope
  remains anywhere, what was moved stays moved and nothing else becomes moved, and a variable
  that was borrowed only inside the scope is free again.\<close>

theorem scope_exit_ends_borrows:
  assumes "tracker_ok t" "scopeDepth t \<noteq> 0" "tr_variables (own_popScope t) n = Some v"
  shows "scopeDepth (own_popScope t) = scopeDepth t - 1
    \<and> (\<forall>b\<in>set (activeBorrows v). b_scopeDepth b < scopeDepth t)
    \<and> (\<exists>w. tr_variables t n = Some w \<and> (isMoved v \<longleftrightarrow> isMoved w)
        \<and> set (activeBorrows v) \<subseteq> set (activeBorrows w)
        \<and> (\<not> isMoved w \<and> (\<forall>b\<in>set (activeBorrows w). scopeDepth t \<le> b_scopeDepth b) \<longrightarrow> place_of v = Free))"
proof -
  obtain vs rest where p: "own_popScope t = (fold releaseBorrow vs (depth_released t))
       \<lparr>scopeVariables := rest, scopeDepth := scopeDepth t - 1\<rparr>"
    using popScope_unfold assms(1,2) by blast
  let ?r = "fold releaseBorrow vs (depth_released t)"
  have v: "tr_variables ?r n = Some v" using assms(3) p by simp
  obtain u where u: "tr_variables (depth_released t) n = Some u" "isMoved v = isMoved u"
    "set (activeBorrows v) \<subseteq> set (activeBorrows u)"
    using release_all_moved [OF depth_released_ok [OF assms(1)] v] release_all_borrows [OF v] by auto
  obtain w where w: "tr_variables t n = Some w" "u = releaseBorrowsAtDepth (scopeDepth t) w"
    using u(1) by (auto simp: depth_released_def)
  have ok: "var_ok w" using assms(1) w(1) by (simp add: tracker_ok_def)
  have moved: "isMoved u = isMoved w" using w(2) release_moved [OF ok] by (simp add: releaseBorrowsAtDepth_def)
  have sub: "set (activeBorrows v) \<subseteq> set (activeBorrows w)"
    using u(3) w(2) depth_borrows by blast
  have free: "place_of v = Free"
    if "\<not> isMoved w" "\<forall>b\<in>set (activeBorrows w). scopeDepth t \<le> b_scopeDepth b"
  proof -
    have "activeBorrows v = []"
      using that(2) sub popScope_borrows [OF assms] by (metis in_mono leD list.set_intros(1) neq_Nil_conv)
    then show ?thesis using that(1) moved u(2) by (simp add: place_of_def)
  qed
  show ?thesis using p popScope_borrows [OF assms] w(1) u(2) moved sub free by auto
qed

definition sample_inner :: tracker where
  "sample_inner = doBorrow ''x'' Mutable ''r'' no_location (own_pushScope sample_tracker)"

theorem scope_exit_ends_borrows_witness:
  "\<exists>v w. tr_variables sample_inner ''x'' = Some w \<and> place_of w = Lent_Mutably ''r''
    \<and> tr_variables (own_popScope sample_inner) ''x'' = Some v \<and> place_of v = Free"
proof -
  let ?in = "own_pushScope sample_tracker"
  have "own_step\<^sup>*\<^sup>* new_tracker ?in"
    using sample_reachable(1) step_push [of sample_tracker]
    by (simp add: sample_tracker_def own_defineVariable_def new_tracker_def Let_def)
  moreover have "checkBorrow ''x'' Mutable ''r'' no_location ?in = Check_Ok"
    using sample_borrow_check by (simp add: checkBorrow_def own_pushScope_def)
  ultimately have "own_step\<^sup>*\<^sup>* new_tracker sample_inner"
    using step_borrow unfolding sample_inner_def by (meson rtranclp.rtrancl_into_rtrancl)
  then have ok: "tracker_ok sample_inner" by (rule ownership.inv_reachable)
  obtain w where w: "tr_variables sample_inner ''x'' = Some w" "place_of w = Lent_Mutably ''r''" "\<not> isMoved w"
    "\<forall>b\<in>set (activeBorrows w). scopeDepth sample_inner \<le> b_scopeDepth b" "scopeDepth sample_inner \<noteq> 0"
    by (simp add: sample_inner_def sample_tracker_def own_pushScope_def own_defineVariable_def doBorrow_def
        update_variable_def Let_def markBorrowed_def new_ownership_def own_simps new_tracker_def)
  obtain v where v: "tr_variables (own_popScope sample_inner) ''x'' = Some v"
    by (simp add: sample_inner_def sample_tracker_def own_pushScope_def own_defineVariable_def doBorrow_def
        update_variable_def Let_def new_tracker_def own_popScope_def)
  show ?thesis using scope_exit_ends_borrows [OF ok w(5) v] w v by auto
qed

section \<open>Shadowing\<close>

text \<open>A shadowing declaration makes the checker forget a move. A variable that was moved can
  be used again without an error after an inner scope that declares a variable of the same name:
  the tracker keeps one entry per name and the inner declaration overwrites the outer one.\<close>

theorem shadowing_forgets_move:
  "let moved = doMove ''x'' loc (own_defineVariable ''x'' (struct_type ''S'') loc new_tracker)
   in checkUse ''x'' loc' moved \<noteq> Check_Ok
      \<and> checkUse ''x'' loc' (own_popScope (own_defineVariable ''x'' ty loc (own_pushScope moved))) = Check_Ok"
  by (simp add: checkUse_def doMove_def own_pushScope_def own_popScope_def own_defineVariable_def
      update_variable_def new_tracker_def new_ownership_def Let_def own_simps markMoved_def is_copy_type_def
      struct_type_def new_type_def new_attrs_def releaseBorrowsAtDepth_def updateStatusAfterRelease_def releaseBorrow_def)

end
