(* ===== verification/Symbols.thy ===== *)
theory Symbols
  imports Diagnostics Types Doubles
begin

text \<open>
  \<^verbatim>\<open>binder/Symbol.h\<close>: what the binder records of each name. The subclasses of \<^verbatim>\<open>Symbol\<close> that hold
  members are the variants of \<open>symbol_detail\<close>; a \<^verbatim>\<open>dynamic_pointer_cast\<close> is a match on it. Syntax
  trees a symbol points to (bodies, initialisers, contracts) are only present or absent here.
\<close>

section \<open>Attributes and generic parameters\<close>

record generic_param_info =
  gp_name :: string
  gp_constraints :: "string list"

datatype attribute_value = AV_Int i64 | AV_Double double | AV_String string | AV_Bool bool

record attribute_arg =
  aa_name :: "string option"
  aa_value :: attribute_value

record attribute_symbol =
  at_name :: string
  at_args :: "attribute_arg list"

definition attr_hasArgs :: "attribute_symbol \<Rightarrow> bool" where
  "attr_hasArgs a \<longleftrightarrow> at_args a \<noteq> []"

definition attr_getInt :: "nat \<Rightarrow> attribute_symbol \<Rightarrow> i64 option" where
  "attr_getInt i a =
     (if length (at_args a) \<le> i then None
      else case aa_value (at_args a ! i) of AV_Int v \<Rightarrow> Some v | _ \<Rightarrow> None)"

definition attr_getString :: "nat \<Rightarrow> attribute_symbol \<Rightarrow> string option" where
  "attr_getString i a =
     (if length (at_args a) \<le> i then None
      else case aa_value (at_args a ! i) of AV_String v \<Rightarrow> Some v | _ \<Rightarrow> None)"

text \<open>The first argument of that name whose value has the wanted type.\<close>

fun first_named :: "(attribute_value \<Rightarrow> 'a option) \<Rightarrow> string \<Rightarrow> attribute_arg list \<Rightarrow> 'a option" where
  "first_named f n [] = None"
| "first_named f n (x # xs) =
     (if aa_name x = Some n then (case f (aa_value x) of Some v \<Rightarrow> Some v | None \<Rightarrow> first_named f n xs)
      else first_named f n xs)"

definition attr_getNamedInt :: "string \<Rightarrow> attribute_symbol \<Rightarrow> i64 option" where
  "attr_getNamedInt n a = first_named (\<lambda>v. case v of AV_Int i \<Rightarrow> Some i | _ \<Rightarrow> None) n (at_args a)"

definition attr_getNamedString :: "string \<Rightarrow> attribute_symbol \<Rightarrow> string option" where
  "attr_getNamedString n a = first_named (\<lambda>v. case v of AV_String s \<Rightarrow> Some s | _ \<Rightarrow> None) n (at_args a)"

definition has_attribute :: "string \<Rightarrow> attribute_symbol list \<Rightarrow> bool" where
  "has_attribute n as \<longleftrightarrow> list_ex (\<lambda>a. at_name a = n) as"

definition get_attribute :: "string \<Rightarrow> attribute_symbol list \<Rightarrow> attribute_symbol option" where
  "get_attribute n as = List.find (\<lambda>a. at_name a = n) as"

section \<open>Symbols\<close>

datatype symbol_kind =
    SK_Variable | SK_Parameter | SK_Function | SK_ExternFunction | SK_Struct | SK_Interface
  | SK_Method | SK_StructField | SK_Field | SK_GenericParam | SK_Enum | SK_EnumConstruction
  | SK_InstrisicCall | SK_FunctionCall | SK_IntegerLiteral | SK_FloatLiteral | SK_StringLiteral
  | SK_BinaryExpression | SK_UnaryExpression

record function_info =
  fi_returnType :: type_t
  fi_paramTypes :: "type_t list"
  fi_paramNames :: "string list"
  fi_paramMutable :: "bool list"
  fi_paramAttributes :: "attribute_symbol list list"
  fi_isVariadic :: bool
  fi_isAsync :: bool
  fi_hasBody :: bool
  fi_constEval :: bool
  fi_constExpr :: bool
  fi_throwsAny :: bool
  fi_throwsTypes :: "type_t list"

definition new_function_info :: "type_t \<Rightarrow> function_info" where
  "new_function_info ret =
     \<lparr>fi_returnType = ret, fi_paramTypes = [], fi_paramNames = [], fi_paramMutable = [], fi_paramAttributes = [],
      fi_isVariadic = False, fi_isAsync = False, fi_hasBody = False, fi_constEval = False, fi_constExpr = False,
      fi_throwsAny = False, fi_throwsTypes = []\<rparr>"

definition fn_addParameter ::
  "string \<Rightarrow> type_t \<Rightarrow> bool \<Rightarrow> attribute_symbol list \<Rightarrow> function_info \<Rightarrow> function_info" where
  "fn_addParameter n t mut as f =
     f\<lparr>fi_paramNames := fi_paramNames f @ [n], fi_paramTypes := fi_paramTypes f @ [copy_type t],
       fi_paramMutable := fi_paramMutable f @ [mut], fi_paramAttributes := fi_paramAttributes f @ [as]\<rparr>"

definition fn_arity :: "function_info \<Rightarrow> nat" where
  "fn_arity f = length (fi_paramTypes f)"

definition fn_isThrowing :: "function_info \<Rightarrow> bool" where
  "fn_isThrowing f \<longleftrightarrow> fi_throwsAny f \<or> fi_throwsTypes f \<noteq> []"

text \<open>Parameters the caller writes: those without the \<^verbatim>\<open>Location\<close> attribute.\<close>

definition fn_callerArity :: "function_info \<Rightarrow> nat" where
  "fn_callerArity f = length (filter (\<lambda>as. \<not> has_attribute ''Location'' as) (fi_paramAttributes f))"

definition fn_paramHasAttribute :: "nat \<Rightarrow> string \<Rightarrow> function_info \<Rightarrow> bool" where
  "fn_paramHasAttribute i n f \<longleftrightarrow>
     i < length (fi_paramAttributes f) \<and> has_attribute n (fi_paramAttributes f ! i)"

record field_symbol =
  fs_name :: string
  fs_type :: type_t
  fs_location :: source_location
  fs_isMutable :: bool
  fs_isConstant :: bool
  fs_hasInitializer :: bool

record method_symbol =
  ms_name :: string
  ms_returnType :: type_t
  ms_paramTypes :: "type_t list"
  ms_paramNames :: "string list"
  ms_paramAttributes :: "attribute_symbol list list"
  ms_genericParams :: "generic_param_info list"
  ms_variadicName :: string
  ms_isAbstract :: bool
  ms_isStatic :: bool
  ms_isConstructor :: bool
  ms_isAsync :: bool
  ms_isOperator :: bool
  ms_operatorCanonicalName :: string
  ms_structName :: string
  ms_attributes :: "attribute_symbol list"
  ms_throwsAny :: bool
  ms_throwsTypes :: "type_t list"
  ms_hasBlock :: bool
  ms_hasExpressionBody :: bool

definition new_method :: "string \<Rightarrow> type_t \<Rightarrow> method_symbol" where
  "new_method n ret =
     \<lparr>ms_name = n, ms_returnType = ret, ms_paramTypes = [], ms_paramNames = [], ms_paramAttributes = [],
      ms_genericParams = [], ms_variadicName = [], ms_isAbstract = False, ms_isStatic = False,
      ms_isConstructor = False, ms_isAsync = False, ms_isOperator = False, ms_operatorCanonicalName = [],
      ms_structName = [], ms_attributes = [], ms_throwsAny = False, ms_throwsTypes = [], ms_hasBlock = False,
      ms_hasExpressionBody = False\<rparr>"

definition ms_addParameter :: "string \<Rightarrow> type_t \<Rightarrow> attribute_symbol list \<Rightarrow> method_symbol \<Rightarrow> method_symbol" where
  "ms_addParameter n t as m =
     m\<lparr>ms_paramNames := ms_paramNames m @ [n], ms_paramTypes := ms_paramTypes m @ [copy_type t],
       ms_paramAttributes := ms_paramAttributes m @ [as]\<rparr>"

definition ms_isVariadic :: "method_symbol \<Rightarrow> bool" where
  "ms_isVariadic m \<longleftrightarrow> 0 < length (ms_variadicName m)"

definition ms_hasBody :: "method_symbol \<Rightarrow> bool" where
  "ms_hasBody m \<longleftrightarrow> ms_hasBlock m \<or> ms_hasExpressionBody m"

definition ms_arity :: "method_symbol \<Rightarrow> nat" where
  "ms_arity m = length (ms_paramTypes m)"

definition ms_isThrowing :: "method_symbol \<Rightarrow> bool" where
  "ms_isThrowing m \<longleftrightarrow> ms_throwsAny m \<or> ms_throwsTypes m \<noteq> []"

definition ms_callerArity :: "method_symbol \<Rightarrow> nat" where
  "ms_callerArity m = length (filter (\<lambda>as. \<not> has_attribute ''Location'' as) (ms_paramAttributes m))"

definition ms_paramHasAttribute :: "nat \<Rightarrow> string \<Rightarrow> method_symbol \<Rightarrow> bool" where
  "ms_paramHasAttribute i n m \<longleftrightarrow>
     i < length (ms_paramAttributes m) \<and> has_attribute n (ms_paramAttributes m ! i)"

record property_symbol =
  ps_name :: string
  ps_type :: type_t
  ps_location :: source_location
  ps_hasGetter :: bool
  ps_hasSetter :: bool
  ps_getterImplemented :: bool
  ps_setterImplemented :: bool

text \<open>An accessor without a body and without an expression is automatic.\<close>

definition isAutoProperty :: "property_symbol \<Rightarrow> bool" where
  "isAutoProperty p \<longleftrightarrow>
     ps_hasGetter p \<and> \<not> ps_getterImplemented p \<or> ps_hasSetter p \<and> \<not> ps_setterImplemented p"

definition backingFieldName :: "property_symbol \<Rightarrow> string" where
  "backingFieldName p = ''_'' @ ps_name p"

section \<open>Structs, interfaces, enums\<close>

record struct_info =
  st_fields :: "field_symbol list"
  st_methods :: "method_symbol list"
  st_properties :: "property_symbol list"
  st_genericParams :: "generic_param_info list"
  st_implements :: "string list"
  st_attributes :: "attribute_symbol list"
  st_baseType :: "type_t option"
  st_isErrorType :: bool
  st_errorTag :: int
  st_errorBase :: string

definition new_struct :: struct_info where
  "new_struct =
     \<lparr>st_fields = [], st_methods = [], st_properties = [], st_genericParams = [], st_implements = [],
      st_attributes = [], st_baseType = None, st_isErrorType = False, st_errorTag = - 1, st_errorBase = []\<rparr>"

definition st_isGeneric :: "struct_info \<Rightarrow> bool" where
  "st_isGeneric s \<longleftrightarrow> st_genericParams s \<noteq> []"

definition st_isTransparent :: "struct_info \<Rightarrow> bool" where
  "st_isTransparent s \<longleftrightarrow>
     (case st_baseType s of None \<Rightarrow> False | Some b \<Rightarrow> st_fields s = [] \<and> kind b \<noteq> TK_STRUCT)"

definition st_hasBaseType :: "struct_info \<Rightarrow> bool" where
  "st_hasBaseType s \<longleftrightarrow> st_baseType s \<noteq> None"

definition st_findField :: "string \<Rightarrow> struct_info \<Rightarrow> field_symbol option" where
  "st_findField n s = List.find (\<lambda>f. fs_name f = n) (st_fields s)"

definition st_addField ::
  "string \<Rightarrow> type_t \<Rightarrow> bool \<Rightarrow> bool \<Rightarrow> bool \<Rightarrow> source_location \<Rightarrow> struct_info \<Rightarrow> struct_info" where
  "st_addField n t mut const init loc s =
     s\<lparr>st_fields := st_fields s @
          [\<lparr>fs_name = n, fs_type = copy_type t, fs_location = loc, fs_isMutable = mut, fs_isConstant = const,
            fs_hasInitializer = init\<rparr>]\<rparr>"

definition st_addMethod :: "method_symbol \<Rightarrow> struct_info \<Rightarrow> struct_info" where
  "st_addMethod m s = s\<lparr>st_methods := st_methods s @ [m]\<rparr>"

definition st_addGenericParam :: "string \<Rightarrow> string list \<Rightarrow> struct_info \<Rightarrow> struct_info" where
  "st_addGenericParam n cs s =
     s\<lparr>st_genericParams := st_genericParams s @ [\<lparr>gp_name = n, gp_constraints = cs\<rparr>]\<rparr>"

definition st_addImplements :: "string \<Rightarrow> struct_info \<Rightarrow> struct_info" where
  "st_addImplements n s = s\<lparr>st_implements := st_implements s @ [n]\<rparr>"

definition st_hasConstraint :: "string \<Rightarrow> struct_info \<Rightarrow> bool" where
  "st_hasConstraint c s \<longleftrightarrow> c \<in> set (st_implements s)"

definition st_hasField :: "string \<Rightarrow> struct_info \<Rightarrow> bool" where
  "st_hasField n s \<longleftrightarrow> list_ex (\<lambda>f. fs_name f = n) (st_fields s)"

definition st_addProperty ::
  "string \<Rightarrow> type_t \<Rightarrow> bool \<Rightarrow> bool \<Rightarrow> source_location \<Rightarrow> struct_info \<Rightarrow> struct_info" where
  "st_addProperty n t getter setter loc s =
     s\<lparr>st_properties := st_properties s @
          [\<lparr>ps_name = n, ps_type = copy_type t, ps_location = loc, ps_hasGetter = getter, ps_hasSetter = setter,
            ps_getterImplemented = False, ps_setterImplemented = False\<rparr>]\<rparr>"

definition st_hasProperty :: "string \<Rightarrow> struct_info \<Rightarrow> bool" where
  "st_hasProperty n s \<longleftrightarrow> list_ex (\<lambda>p. ps_name p = n) (st_properties s)"

definition st_getPropertyType :: "string \<Rightarrow> struct_info \<Rightarrow> type_t option" where
  "st_getPropertyType n s = map_option ps_type (List.find (\<lambda>p. ps_name p = n) (st_properties s))"

definition st_hasMember :: "string \<Rightarrow> struct_info \<Rightarrow> bool" where
  "st_hasMember n s \<longleftrightarrow> st_hasField n s \<or> st_hasProperty n s"

definition st_getFieldType :: "string \<Rightarrow> struct_info \<Rightarrow> type_t option" where
  "st_getFieldType n s = map_option fs_type (List.find (\<lambda>f. fs_name f = n) (st_fields s))"

definition st_getMemberType :: "string \<Rightarrow> struct_info \<Rightarrow> type_t option" where
  "st_getMemberType n s =
     (case st_getFieldType n s of Some t \<Rightarrow> Some t | None \<Rightarrow> st_getPropertyType n s)"

definition st_hasMethod :: "string \<Rightarrow> struct_info \<Rightarrow> bool" where
  "st_hasMethod n s \<longleftrightarrow> list_ex (\<lambda>m. ms_name m = n) (st_methods s)"

definition st_getMethod :: "string \<Rightarrow> struct_info \<Rightarrow> method_symbol option" where
  "st_getMethod n s = List.find (\<lambda>m. ms_name m = n) (st_methods s)"

fun index_from :: "nat \<Rightarrow> ('a \<Rightarrow> bool) \<Rightarrow> 'a list \<Rightarrow> int" where
  "index_from i P [] = - 1"
| "index_from i P (x # xs) = (if P x then int i else index_from (i + 1) P xs)"

definition st_getFieldIndex :: "string \<Rightarrow> struct_info \<Rightarrow> int" where
  "st_getFieldIndex n s = index_from 0 (\<lambda>f. fs_name f = n) (st_fields s)"

record interface_info =
  if_methods :: "method_symbol list"
  if_genericParams :: "generic_param_info list"

definition if_isGeneric :: "interface_info \<Rightarrow> bool" where
  "if_isGeneric s \<longleftrightarrow> if_genericParams s \<noteq> []"

definition if_addMethod :: "method_symbol \<Rightarrow> interface_info \<Rightarrow> interface_info" where
  "if_addMethod m s = s\<lparr>if_methods := if_methods s @ [m]\<rparr>"

definition if_hasMethod :: "string \<Rightarrow> interface_info \<Rightarrow> bool" where
  "if_hasMethod n s \<longleftrightarrow> list_ex (\<lambda>m. ms_name m = n) (if_methods s)"

definition if_getMethod :: "string \<Rightarrow> interface_info \<Rightarrow> method_symbol option" where
  "if_getMethod n s = List.find (\<lambda>m. ms_name m = n) (if_methods s)"

record enum_variant =
  ev_name :: string
  ev_associatedTypes :: "type_t list"
  ev_tag :: nat

record enum_info =
  en_variants :: "enum_variant list"
  en_fields :: "(string \<times> type_t) list"
  en_isUnion :: bool
  en_genericParams :: "generic_param_info list"

definition new_enum :: enum_info where
  "new_enum = \<lparr>en_variants = [], en_fields = [], en_isUnion = False, en_genericParams = []\<rparr>"

definition en_isGeneric :: "enum_info \<Rightarrow> bool" where
  "en_isGeneric e \<longleftrightarrow> en_genericParams e \<noteq> []"

definition addVariant :: "string \<Rightarrow> type_t list \<Rightarrow> enum_info \<Rightarrow> enum_info" where
  "addVariant n ts e =
     e\<lparr>en_variants := en_variants e @
          [\<lparr>ev_name = n, ev_associatedTypes = map copy_type ts, ev_tag = cast_u32 (length (en_variants e))\<rparr>]\<rparr>"

definition hasVariant :: "string \<Rightarrow> enum_info \<Rightarrow> bool" where
  "hasVariant n e \<longleftrightarrow> list_ex (\<lambda>v. ev_name v = n) (en_variants e)"

definition getVariant :: "string \<Rightarrow> enum_info \<Rightarrow> enum_variant option" where
  "getVariant n e = List.find (\<lambda>v. ev_name v = n) (en_variants e)"

definition UINT_MAX :: nat where
  "UINT_MAX = 4294967295"

definition getVariantTag :: "string \<Rightarrow> enum_info \<Rightarrow> nat" where
  "getVariantTag n e = (case getVariant n e of Some v \<Rightarrow> ev_tag v | None \<Rightarrow> UINT_MAX)"

datatype symbol_detail =
    Plain | Function_Detail function_info | Extern_Detail function_info string | Struct_Detail struct_info
  | Interface_Detail interface_info | Method_Detail method_symbol | Enum_Detail enum_info

record symbol =
  sy_kind :: symbol_kind
  sy_name :: string
  sy_type :: type_t
  sy_location :: source_location
  isInitialized :: bool
  isUsed :: bool
  sy_isMutable :: bool
  isFromLibrary :: bool
  sy_detail :: symbol_detail

definition new_symbol :: "symbol_kind \<Rightarrow> string \<Rightarrow> type_t \<Rightarrow> source_location \<Rightarrow> bool \<Rightarrow> symbol_detail \<Rightarrow> symbol" where
  "new_symbol k n t loc mut d =
     \<lparr>sy_kind = k, sy_name = n, sy_type = t, sy_location = loc, isInitialized = False, isUsed = False,
      sy_isMutable = mut, isFromLibrary = False, sy_detail = d\<rparr>"

definition isVariable :: "symbol \<Rightarrow> bool" where "isVariable s \<longleftrightarrow> sy_kind s = SK_Variable"
definition isParameter :: "symbol \<Rightarrow> bool" where "isParameter s \<longleftrightarrow> sy_kind s = SK_Parameter"
definition isFunction :: "symbol \<Rightarrow> bool" where
  "isFunction s \<longleftrightarrow> sy_kind s = SK_Function \<or> sy_kind s = SK_ExternFunction"
definition isStruct :: "symbol \<Rightarrow> bool" where "isStruct s \<longleftrightarrow> sy_kind s = SK_Struct"
definition isInterface :: "symbol \<Rightarrow> bool" where "isInterface s \<longleftrightarrow> sy_kind s = SK_Interface"
definition isMethod :: "symbol \<Rightarrow> bool" where "isMethod s \<longleftrightarrow> sy_kind s = SK_Method"
definition isEnum :: "symbol \<Rightarrow> bool" where "isEnum s \<longleftrightarrow> sy_kind s = SK_Enum"

fun symbolKindToString :: "symbol_kind \<Rightarrow> string" where
  "symbolKindToString SK_Variable = ''variable''"
| "symbolKindToString SK_Parameter = ''parameter''"
| "symbolKindToString SK_Function = ''function''"
| "symbolKindToString SK_ExternFunction = ''extern function''"
| "symbolKindToString SK_Struct = ''struct''"
| "symbolKindToString SK_Interface = ''interface''"
| "symbolKindToString SK_Method = ''method''"
| "symbolKindToString SK_Field = ''field''"
| "symbolKindToString SK_GenericParam = ''generic parameter''"
| "symbolKindToString SK_Enum = ''enum''"
| "symbolKindToString _ = ''unknown''"

section \<open>Members\<close>

lemma find_Some_prop: "List.find P xs = Some x \<Longrightarrow> P x \<and> x \<in> set xs"
  by (auto simp: find_Some_iff)

lemma find_exists: "(\<exists>x. List.find P xs = Some x) \<longleftrightarrow> list_ex P xs"
  by (induction xs) auto

lemma index_from_spec:
  "index_from i P xs = (if list_ex P xs then int (i + length (takeWhile (\<lambda>x. \<not> P x) xs)) else - 1)"
  by (induction xs arbitrary: i) auto

lemma find_takeWhile: "list_ex P xs \<Longrightarrow> List.find P xs = Some (xs ! length (takeWhile (\<lambda>x. \<not> P x) xs))
    \<and> length (takeWhile (\<lambda>x. \<not> P x) xs) < length xs"
  by (induction xs) auto

text \<open>The views of a struct's fields agree: a name is a field exactly when it has an index, a
  type and an entry, the index is within the fields, and the entry and the type are those of the
  field at that index.\<close>

theorem struct_field_views_agree:
  "(st_hasField n s \<longleftrightarrow> st_getFieldIndex n s \<noteq> - 1)
   \<and> (st_hasField n s \<longleftrightarrow> st_findField n s \<noteq> None)
   \<and> (st_hasField n s \<longrightarrow>
       0 \<le> st_getFieldIndex n s \<and> nat (st_getFieldIndex n s) < length (st_fields s)
       \<and> st_findField n s = Some (st_fields s ! nat (st_getFieldIndex n s))
       \<and> st_getFieldType n s = Some (fs_type (st_fields s ! nat (st_getFieldIndex n s)))
       \<and> st_getMemberType n s = st_getFieldType n s)"
  using find_takeWhile [of "\<lambda>f. fs_name f = n" "st_fields s"] find_exists [of "\<lambda>f. fs_name f = n" "st_fields s"]
  by (auto simp: st_hasField_def st_getFieldIndex_def st_findField_def st_getFieldType_def st_getMemberType_def
      index_from_spec)

theorem struct_field_views_agree_witness:
  "st_findField ''b'' (st_addField ''b'' voided False False False no_location
       (st_addField ''a'' voided True False False no_location new_struct))
     = Some (st_fields (st_addField ''b'' voided False False False no_location
       (st_addField ''a'' voided True False False no_location new_struct)) ! 1)"
  using struct_field_views_agree [of "''b''" "st_addField ''b'' voided False False False no_location
       (st_addField ''a'' voided True False False no_location new_struct)"]
  by (simp add: st_hasField_def st_getFieldIndex_def st_addField_def new_struct_def)

text \<open>The tags of an enum built by adding variants.\<close>

definition build_enum :: "(string \<times> type_t list) list \<Rightarrow> enum_info" where
  "build_enum vs = fold (\<lambda>(n, ts). addVariant n ts) vs new_enum"

lemma build_enum_snoc: "build_enum (vs @ [(n, ts)]) = addVariant n ts (build_enum vs)"
  by (simp add: build_enum_def)

lemma build_enum_variants:
  "length vs \<le> 4294967296 \<Longrightarrow>
    length (en_variants (build_enum vs)) = length vs
    \<and> (\<forall>i<length vs. en_variants (build_enum vs) ! i =
         \<lparr>ev_name = fst (vs ! i), ev_associatedTypes = map copy_type (snd (vs ! i)), ev_tag = i\<rparr>)"
proof (induction vs rule: rev_induct)
  case (snoc v vs)
  obtain n ts where v: "v = (n, ts)" by force
  show ?case using snoc by (auto simp: v build_enum_snoc addVariant_def nth_append less_Suc_eq)
qed (simp add: build_enum_def new_enum_def)

text \<open>The discriminant of an enum variant is its position, so different variants of an enum
  with distinct names have different discriminants, none of them the value that stands for an
  unknown variant; every other name gives that value.\<close>

theorem variant_tags_distinct:
  assumes "distinct (map fst vs)" "length vs \<le> 4294967295"
  shows "(\<forall>i<length vs. getVariantTag (fst (vs ! i)) (build_enum vs) = i \<and> i \<noteq> UINT_MAX)
    \<and> (\<forall>n. n \<notin> set (map fst vs) \<longrightarrow> getVariantTag n (build_enum vs) = UINT_MAX)"
proof -
  let ?e = "build_enum vs"
  have len: "length (en_variants ?e) = length vs"
    and at: "\<And>i. i < length vs \<Longrightarrow> en_variants ?e ! i =
      \<lparr>ev_name = fst (vs ! i), ev_associatedTypes = map copy_type (snd (vs ! i)), ev_tag = i\<rparr>"
    using build_enum_variants [of vs] assms(2) by auto
  have names: "map ev_name (en_variants ?e) = map fst vs"
    using len at by (auto intro: nth_equalityI)
  have "getVariantTag (fst (vs ! i)) ?e = i" if i: "i < length vs" for i
  proof -
    have "List.find (\<lambda>v. ev_name v = fst (vs ! i)) (en_variants ?e) = Some (en_variants ?e ! i)"
      unfolding find_Some_iff using i len at assms(1) by (auto simp: distinct_conv_nth intro!: exI [of _ i])
    then show ?thesis using at i by (simp add: getVariantTag_def getVariant_def)
  qed
  moreover have "getVariantTag n ?e = UINT_MAX" if "n \<notin> set (map fst vs)" for n
  proof -
    have "n \<notin> ev_name ` set (en_variants ?e)" using that names by (metis list.set_map)
    then have "List.find (\<lambda>v. ev_name v = n) (en_variants ?e) = None" by (auto simp: find_None_iff)
    then show ?thesis by (simp add: getVariantTag_def getVariant_def)
  qed
  ultimately show ?thesis using assms(2) by (auto simp: UINT_MAX_def)
qed

theorem variant_tags_distinct_witness:
  "getVariantTag ''Err'' (build_enum [(''Ok'', []), (''Err'', [])]) = 1
   \<and> getVariantTag ''None'' (build_enum [(''Ok'', []), (''Err'', [])]) = UINT_MAX"
proof -
  let ?vs = "[(''Ok'', []), (''Err'', [])] :: (string \<times> type_t list) list"
  have d: "distinct (map fst ?vs)" "length ?vs \<le> 4294967295" by simp_all
  have "getVariantTag (fst (?vs ! 1)) (build_enum ?vs) = 1"
    using variant_tags_distinct [OF d] by (metis One_nat_def length_Cons lessI list.size(3))
  moreover have "''None'' \<notin> set (map fst ?vs)" by simp
  then have "getVariantTag ''None'' (build_enum ?vs) = UINT_MAX"
    using variant_tags_distinct [OF d] by blast
  ultimately show ?thesis by simp
qed

end
