(* ===== verification/Symbol_Table.thy ===== *)
theory Symbol_Table
  imports Symbols "HOL-Library.Sublist"
begin

text \<open>
  \<^verbatim>\<open>binder/SymbolTable.h\<close>. Symbols are shared objects that several keys may point to, so they live
  in a store and a table maps keys to addresses. A table and its chain of parents is a list of
  scopes, the table itself first, the global scope last. A lookup that walks the keys in
  definition order calls \<^verbatim>\<open>_symbols.at\<close>, whose exception is the outer \<^const>\<open>None\<close> of its result.
\<close>

section \<open>State\<close>

record scope =
  sc_symbols :: "string \<rightharpoonup> nat"
  sc_order :: "string list"

definition new_scope :: scope where
  "new_scope = \<lparr>sc_symbols = Map.empty, sc_order = []\<rparr>"

record symtab =
  store :: "symbol list"
  scopes :: "scope list"

definition new_symtab :: symtab where
  "new_symtab = \<lparr>store = [], scopes = [new_scope]\<rparr>"

text \<open>\<^verbatim>\<open>std::make_shared\<close>: a new object, its address and the store with it.\<close>

definition make_shared :: "symbol \<Rightarrow> symtab \<Rightarrow> nat \<times> symtab" where
  "make_shared s st = (length (store st), st\<lparr>store := store st @ [s]\<rparr>)"

definition table_depth :: "symtab \<Rightarrow> nat" where
  "table_depth st = length (scopes st) - 1"

definition isGlobalScope :: "symtab \<Rightarrow> bool" where
  "isGlobalScope st \<longleftrightarrow> length (scopes st) = 1"

section \<open>Definitions\<close>

definition insertSymbol :: "string \<Rightarrow> nat \<Rightarrow> scope \<Rightarrow> scope" where
  "insertSymbol key a s =
     s\<lparr>sc_order := sc_order s @ [key],
       sc_symbols := (case sc_symbols s key of Some _ \<Rightarrow> sc_symbols s | None \<Rightarrow> (sc_symbols s)(key \<mapsto> a))\<rparr>"

definition define_key :: "string \<Rightarrow> nat \<Rightarrow> symtab \<Rightarrow> bool \<times> symtab" where
  "define_key key a st =
     (case scopes st of
        [] \<Rightarrow> (False, st)
      | s # ss \<Rightarrow>
          if sc_symbols s key \<noteq> None then (False, st)
          else (True, st\<lparr>scopes := insertSymbol key a s # ss\<rparr>))"

definition define_symbol :: "nat \<Rightarrow> symtab \<Rightarrow> bool \<times> symtab" where
  "define_symbol a st = define_key (sy_name (store st ! a)) a st"

definition defineAlias :: "string \<Rightarrow> nat \<Rightarrow> symtab \<Rightarrow> bool \<times> symtab" where
  "defineAlias alias a st = define_key alias a st"

definition defineVariable ::
  "string \<Rightarrow> type_t \<Rightarrow> bool \<Rightarrow> source_location \<Rightarrow> symtab \<Rightarrow> nat option \<times> symtab" where
  "defineVariable n t mut loc st =
     (case scopes st of
        [] \<Rightarrow> (None, st)
      | s # ss \<Rightarrow>
          if sc_symbols s n \<noteq> None then (None, st)
          else (let (a, st) = make_shared (new_symbol SK_Variable n t loc mut Plain) st
                in (Some a, snd (define_key n a st))))"

definition defineParameter :: "string \<Rightarrow> type_t \<Rightarrow> bool \<Rightarrow> source_location \<Rightarrow> symtab \<Rightarrow> bool \<times> symtab" where
  "defineParameter n t mut loc st =
     (let (a, st) = make_shared (new_symbol SK_Parameter n t loc mut Plain) st in define_symbol a st)"

definition interface_key :: "string \<Rightarrow> string" where
  "interface_key n = ''interface:'' @ n"

definition defineInterface :: "nat \<Rightarrow> symtab \<Rightarrow> bool \<times> symtab" where
  "defineInterface a st = define_key (interface_key (sy_name (store st ! a))) a st"

definition defineInterfaceAlias :: "string \<Rightarrow> nat \<Rightarrow> symtab \<Rightarrow> bool \<times> symtab" where
  "defineInterfaceAlias alias a st = define_key (interface_key alias) a st"

section \<open>Lookups\<close>

fun lookup_chain :: "string \<Rightarrow> scope list \<Rightarrow> nat option" where
  "lookup_chain n [] = None"
| "lookup_chain n (s # ss) = (case sc_symbols s n of Some a \<Rightarrow> Some a | None \<Rightarrow> lookup_chain n ss)"

definition lookup :: "string \<Rightarrow> symtab \<Rightarrow> nat option" where
  "lookup n st = lookup_chain n (scopes st)"

definition lookupLocal :: "string \<Rightarrow> symtab \<Rightarrow> nat option" where
  "lookupLocal n st = (case scopes st of [] \<Rightarrow> None | s # ss \<Rightarrow> sc_symbols s n)"

definition keep_if :: "(symbol \<Rightarrow> bool) \<Rightarrow> symtab \<Rightarrow> nat option \<Rightarrow> nat option" where
  "keep_if P st r = (case r of Some a \<Rightarrow> if P (store st ! a) then Some a else None | None \<Rightarrow> None)"

definition lookupVariable :: "string \<Rightarrow> symtab \<Rightarrow> nat option" where
  "lookupVariable n st = keep_if (\<lambda>s. isVariable s \<or> isParameter s) st (lookup n st)"

text \<open>The downcasts: an object of another class gives a null pointer.\<close>

definition is_function_object :: "symbol \<Rightarrow> bool" where
  "is_function_object s \<longleftrightarrow>
     (case sy_detail s of
        Function_Detail _ \<Rightarrow> sy_kind s \<noteq> SK_ExternFunction
      | Extern_Detail _ _ \<Rightarrow> True
      | _ \<Rightarrow> False)"

definition is_struct_object :: "symbol \<Rightarrow> bool" where
  "is_struct_object s \<longleftrightarrow> (case sy_detail s of Struct_Detail _ \<Rightarrow> True | _ \<Rightarrow> False)"

definition is_enum_object :: "symbol \<Rightarrow> bool" where
  "is_enum_object s \<longleftrightarrow> (case sy_detail s of Enum_Detail _ \<Rightarrow> True | _ \<Rightarrow> False)"

definition is_interface_object :: "symbol \<Rightarrow> bool" where
  "is_interface_object s \<longleftrightarrow> (case sy_detail s of Interface_Detail _ \<Rightarrow> True | _ \<Rightarrow> False)"

definition lookupFunction :: "string \<Rightarrow> symtab \<Rightarrow> nat option" where
  "lookupFunction n st = keep_if is_function_object st (keep_if isFunction st (lookup n st))"

text \<open>The first key in definition order that ends with the suffix and whose symbol satisfies a test.\<close>

fun find_suffix :: "(symbol \<Rightarrow> bool) \<Rightarrow> string \<Rightarrow> symbol list \<Rightarrow> scope \<Rightarrow> string list \<Rightarrow> nat option option" where
  "find_suffix P suf mem s [] = Some None"
| "find_suffix P suf mem s (k # ks) =
     (case sc_symbols s k of
        None \<Rightarrow> None
      | Some a \<Rightarrow> if P (mem ! a) \<and> suffix suf k then Some (Some a) else find_suffix P suf mem s ks)"

text \<open>
  \<^verbatim>\<open>lookupStruct\<close> and \<^verbatim>\<open>lookupEnum\<close> have one shape: the plain lookup if it gives the right kind, then
  a qualified key of this scope, then the same from the parent.
\<close>

fun lookup_qualified ::
  "(symbol \<Rightarrow> bool) \<Rightarrow> (symbol \<Rightarrow> bool) \<Rightarrow> string \<Rightarrow> symbol list \<Rightarrow> scope list \<Rightarrow> nat option option" where
  "lookup_qualified P obj n mem [] = Some None"
| "lookup_qualified P obj n mem (s # ss) =
     (let found = (\<lambda>a. Some (if obj (mem ! a) then Some a else None));
          fallback = (case find_suffix P (''::'' @ n) mem s (sc_order s) of
                        None \<Rightarrow> None
                      | Some (Some a) \<Rightarrow> found a
                      | Some None \<Rightarrow> lookup_qualified P obj n mem ss)
      in case lookup_chain n (s # ss) of
           Some a \<Rightarrow> if P (mem ! a) then found a else fallback
         | None \<Rightarrow> fallback)"

definition lookupStruct :: "string \<Rightarrow> symtab \<Rightarrow> nat option option" where
  "lookupStruct n st = lookup_qualified isStruct is_struct_object n (store st) (scopes st)"

definition lookupEnum :: "string \<Rightarrow> symtab \<Rightarrow> nat option option" where
  "lookupEnum n st = lookup_qualified isEnum is_enum_object n (store st) (scopes st)"

fun lookup_interface :: "string \<Rightarrow> symbol list \<Rightarrow> scope list \<Rightarrow> nat option" where
  "lookup_interface n mem [] = None"
| "lookup_interface n mem (s # ss) =
     (case sc_symbols s (interface_key n) of
        Some a \<Rightarrow>
          if isInterface (mem ! a) then (if is_interface_object (mem ! a) then Some a else None)
          else lookup_interface n mem ss
      | None \<Rightarrow> lookup_interface n mem ss)"

definition lookupInterface :: "string \<Rightarrow> symtab \<Rightarrow> nat option" where
  "lookupInterface n st = lookup_interface n (store st) (scopes st)"

definition isDefined :: "string \<Rightarrow> symtab \<Rightarrow> bool" where
  "isDefined n st \<longleftrightarrow> lookup n st \<noteq> None"

definition getQualifiedName :: "string \<Rightarrow> symtab \<Rightarrow> string" where
  "getQualifiedName n st = (case lookup n st of Some a \<Rightarrow> sy_name (store st ! a) | None \<Rightarrow> n)"

definition isDefinedLocally :: "string \<Rightarrow> symtab \<Rightarrow> bool" where
  "isDefinedLocally n st \<longleftrightarrow> lookupLocal n st \<noteq> None"

definition markUsed :: "string \<Rightarrow> symtab \<Rightarrow> symtab" where
  "markUsed n st =
     (case lookup n st of
        Some a \<Rightarrow> st\<lparr>store := (store st)[a := (store st ! a)\<lparr>isUsed := True\<rparr>]\<rparr>
      | None \<Rightarrow> st)"

section \<open>Enumerations\<close>

fun addresses :: "scope \<Rightarrow> string list \<Rightarrow> nat list option" where
  "addresses s [] = Some []"
| "addresses s (k # ks) = do { a \<leftarrow> sc_symbols s k; as \<leftarrow> addresses s ks; Some (a # as) }"

definition orderedSymbols :: "symtab \<Rightarrow> nat list option" where
  "orderedSymbols st = (case scopes st of [] \<Rightarrow> Some [] | s # ss \<Rightarrow> addresses s (sc_order s))"

definition select_symbols :: "(symbol \<Rightarrow> bool) \<Rightarrow> symtab \<Rightarrow> nat list option" where
  "select_symbols P st = map_option (filter (\<lambda>a. P (store st ! a))) (orderedSymbols st)"

definition getUnusedSymbols :: "symtab \<Rightarrow> nat list option" where
  "getUnusedSymbols st = select_symbols (\<lambda>s. \<not> isUsed s \<and> (isVariable s \<or> isParameter s)) st"

definition get_all_interfaces :: "symtab \<Rightarrow> nat list option" where
  "get_all_interfaces st = select_symbols isInterface st"

definition get_all_functions :: "symtab \<Rightarrow> nat list option" where
  "get_all_functions st = select_symbols (\<lambda>s. sy_kind s = SK_Function) st"

text \<open>\<^verbatim>\<open>seen.insert(p).second\<close>: the first occurrence of each object.\<close>

fun first_occurrences :: "nat list \<Rightarrow> nat list \<Rightarrow> nat list" where
  "first_occurrences seen [] = []"
| "first_occurrences seen (a # as) =
     (if a \<in> set seen then first_occurrences seen as else a # first_occurrences (a # seen) as)"

definition get_all_extern_functions :: "symtab \<Rightarrow> nat list option" where
  "get_all_extern_functions st =
     map_option (first_occurrences []) (select_symbols (\<lambda>s. sy_kind s = SK_ExternFunction) st)"

definition is_error_struct :: "symbol \<Rightarrow> bool" where
  "is_error_struct s \<longleftrightarrow> (case sy_detail s of Struct_Detail d \<Rightarrow> st_isErrorType d | _ \<Rightarrow> False)"

definition get_all_structs :: "symtab \<Rightarrow> nat list option" where
  "get_all_structs st =
     map_option (first_occurrences []) (select_symbols (\<lambda>s. isStruct s \<and> \<not> is_error_struct s) st)"

definition get_all_enums :: "symtab \<Rightarrow> nat list option" where
  "get_all_enums st = select_symbols isEnum st"

definition get_all_variables :: "symtab \<Rightarrow> nat list option" where
  "get_all_variables st = select_symbols isVariable st"

section \<open>Scopes\<close>

definition createChildScope :: "symtab \<Rightarrow> symtab" where
  "createChildScope st = st\<lparr>scopes := new_scope # scopes st\<rparr>"

text \<open>\<^verbatim>\<open>Binder::popScope\<close>: back to the parent, if there is one.\<close>

definition leaveScope :: "symtab \<Rightarrow> symtab" where
  "leaveScope st = (case scopes st of s # s' # ss \<Rightarrow> st\<lparr>scopes := s' # ss\<rparr> | _ \<Rightarrow> st)"

text \<open>
  \<^verbatim>\<open>addConstExpr\<close> and \<^verbatim>\<open>addStaticVar\<close>: an entry replaces the one of its name and keeps that one's
  place in the order.
\<close>

record 'e ordered_table =
  ot_entries :: "string \<rightharpoonup> 'e"
  ot_order :: "string list"

definition add_entry :: "string \<Rightarrow> 'e \<Rightarrow> 'e ordered_table \<Rightarrow> 'e ordered_table" where
  "add_entry n e t =
     \<lparr>ot_entries = (ot_entries t)(n \<mapsto> e),
      ot_order = (if ot_entries t n = None then ot_order t @ [n] else ot_order t)\<rparr>"

section \<open>Methods\<close>

text \<open>
  \<^verbatim>\<open>lookupMethod\<close>: a method symbol in the table is returned whatever its name; otherwise the first
  method of that name in the structs of the scope, then in the parent.
\<close>

datatype method_ref = Table_Symbol nat | Struct_Method method_symbol

fun method_in :: "string \<Rightarrow> symbol list \<Rightarrow> nat list \<Rightarrow> method_ref option" where
  "method_in n mem [] = None"
| "method_in n mem (a # as) =
     (if isMethod (mem ! a) then Some (Table_Symbol a)
      else case (isStruct (mem ! a), sy_detail (mem ! a)) of
             (True, Struct_Detail d) \<Rightarrow>
               (case st_getMethod n d of Some m \<Rightarrow> Some (Struct_Method m) | None \<Rightarrow> method_in n mem as)
           | _ \<Rightarrow> method_in n mem as)"

fun lookup_method :: "string \<Rightarrow> symbol list \<Rightarrow> scope list \<Rightarrow> method_ref option option" where
  "lookup_method n mem [] = Some None"
| "lookup_method n mem (s # ss) =
     do {
       as \<leftarrow> addresses s (sc_order s);
       case method_in n mem as of Some m \<Rightarrow> Some (Some m) | None \<Rightarrow> lookup_method n mem ss
     }"

definition lookupMethod :: "string \<Rightarrow> symtab \<Rightarrow> method_ref option option" where
  "lookupMethod n st = lookup_method n (store st) (scopes st)"

end
