(* ===== verification/Symbol_Table_Correct.thy ===== *)
theory Symbol_Table_Correct
  imports Symbol_Table
begin

text \<open>
  The symbol table implements nested scopes: its keys and their order agree, so that no
  enumeration or lookup throws; what each lookup answers is stated of the scopes and their keys; and
  leaving a scope restores every lookup.
\<close>

section \<open>Scoped environments\<close>

text \<open>
  The interface of an environment with nested scopes, over which the binder's clients reason:
  entering a scope changes no lookup, a binding is found until its scope is left, and leaving a
  scope forgets exactly the bindings made in it.
\<close>

locale scoped_environment =
  fixes enter :: "'s \<Rightarrow> 's" and leave :: "'s \<Rightarrow> 's"
    and put :: "string \<Rightarrow> 'v \<Rightarrow> 's \<Rightarrow> 's"
    and get :: "string \<Rightarrow> 's \<Rightarrow> 'v option"
    and local_get :: "string \<Rightarrow> 's \<Rightarrow> 'v option"
    and nested :: "'s \<Rightarrow> bool" and inner :: "'s \<Rightarrow> bool"
  assumes get_enter: "nested s \<Longrightarrow> get k (enter s) = get k s"
    and local_enter: "local_get k (enter s) = None"
    and get_local: "local_get k s = Some v \<Longrightarrow> get k s = Some v"
    and get_put: "nested s \<Longrightarrow> get k (put j v s) =
      (if k = j \<and> local_get j s = None then Some v else get k s)"
    and leave_enter: "nested s \<Longrightarrow> get k (leave (enter s)) = get k s"
    and leave_put: "inner s \<Longrightarrow> get k (leave (put j v s)) = get k (leave s)"
    and inner_enter: "nested s \<Longrightarrow> inner (enter s)"
    and inner_put: "inner s \<Longrightarrow> inner (put j v s)"
    and inner_nested: "inner s \<Longrightarrow> nested s"
begin

lemma leave_puts: "inner s \<Longrightarrow> get k (leave (fold (\<lambda>(j, v). put j v) kvs s)) = get k (leave s)"
proof (induction kvs arbitrary: s)
  case (Cons kv kvs)
  obtain j v where kv: "kv = (j, v)" by force
  show ?case using Cons.IH [of "put j v s"] Cons.prems by (simp add: kv leave_put inner_put)
qed simp

lemma scope_restores:
  "nested s \<Longrightarrow> get k (leave (fold (\<lambda>(j, v). put j v) kvs (enter s))) = get k s"
  by (simp add: leave_puts leave_enter inner_enter)

lemma innermost_wins: "nested s \<Longrightarrow> get k (put k v (enter s)) = Some v"
  by (simp add: get_put local_enter inner_enter inner_nested)

end

definition put_symbol :: "string \<Rightarrow> nat \<Rightarrow> symtab \<Rightarrow> symtab" where
  "put_symbol k a st = snd (define_key k a st)"

definition has_scope :: "symtab \<Rightarrow> bool" where
  "has_scope st \<longleftrightarrow> scopes st \<noteq> []"

definition in_child_scope :: "symtab \<Rightarrow> bool" where
  "in_child_scope st \<longleftrightarrow> 2 \<le> length (scopes st)"

lemma lookup_insert: "sc_symbols s j = None \<Longrightarrow> sc_symbols (insertSymbol j a s) = (sc_symbols s)(j \<mapsto> a)"
  by (simp add: insertSymbol_def)

lemma put_symbol_unfold:
  "put_symbol k a st =
     (case scopes st of [] \<Rightarrow> st
      | s # ss \<Rightarrow> if sc_symbols s k \<noteq> None then st else st\<lparr>scopes := insertSymbol k a s # ss\<rparr>)"
  by (simp add: put_symbol_def define_key_def split: list.split)

interpretation symbols: scoped_environment createChildScope leaveScope put_symbol lookup lookupLocal has_scope in_child_scope
proof
  fix s :: symtab and k j :: string and v :: nat
  show "has_scope s \<Longrightarrow> lookup k (createChildScope s) = lookup k s"
    by (simp add: lookup_def createChildScope_def new_scope_def)
  show "lookupLocal k (createChildScope s) = None"
    by (simp add: lookupLocal_def createChildScope_def new_scope_def)
  show "lookupLocal k s = Some v \<Longrightarrow> lookup k s = Some v"
    by (simp add: lookupLocal_def lookup_def split: list.splits)
  show "has_scope s \<Longrightarrow> lookup k (put_symbol j v s) =
      (if k = j \<and> lookupLocal j s = None then Some v else lookup k s)"
    by (auto simp: has_scope_def lookup_def lookupLocal_def put_symbol_unfold lookup_insert split: list.split option.split)
  show "has_scope s \<Longrightarrow> lookup k (leaveScope (createChildScope s)) = lookup k s"
    by (cases "scopes s") (simp_all add: has_scope_def lookup_def leaveScope_def createChildScope_def)
  show "in_child_scope s \<Longrightarrow> lookup k (leaveScope (put_symbol j v s)) = lookup k (leaveScope s)"
    by (auto simp: in_child_scope_def lookup_def leaveScope_def put_symbol_unfold split: list.split)
  show "has_scope s \<Longrightarrow> in_child_scope (createChildScope s)"
    by (cases "scopes s") (simp_all add: has_scope_def in_child_scope_def createChildScope_def)
  show "in_child_scope s \<Longrightarrow> in_child_scope (put_symbol j v s)"
    by (auto simp: in_child_scope_def put_symbol_unfold split: list.split)
  show "in_child_scope s \<Longrightarrow> has_scope s"
    by (auto simp: in_child_scope_def has_scope_def)
qed

section \<open>Well-formed tables\<close>

text \<open>
  The keys in definition order are distinct and are the keys of the map, and every key points to
  an object of the store.
\<close>

definition scope_ok :: "nat \<Rightarrow> scope \<Rightarrow> bool" where
  "scope_ok n s \<longleftrightarrow>
     distinct (sc_order s) \<and> set (sc_order s) = dom (sc_symbols s)
     \<and> (\<forall>a\<in>ran (sc_symbols s). a < n)"

definition table_ok :: "symtab \<Rightarrow> bool" where
  "table_ok st \<longleftrightarrow> scopes st \<noteq> [] \<and> (\<forall>s\<in>set (scopes st). scope_ok (length (store st)) s)"

lemma scope_ok_new: "scope_ok n new_scope"
  by (simp add: scope_ok_def new_scope_def)

lemma scope_ok_mono: "scope_ok n s \<Longrightarrow> n \<le> m \<Longrightarrow> scope_ok m s"
  by (auto simp: scope_ok_def)

lemma scope_ok_insert:
  assumes "scope_ok n s" "sc_symbols s k = None" "a < n"
  shows "scope_ok n (insertSymbol k a s)"
proof -
  have "k \<notin> set (sc_order s)" using assms(1,2) by (auto simp: scope_ok_def)
  then show ?thesis using assms by (auto simp: scope_ok_def insertSymbol_def ran_def split: if_splits)
qed

lemma table_ok_new: "table_ok new_symtab"
  by (simp add: table_ok_def new_symtab_def scope_ok_new)

lemma table_ok_define_key: "table_ok st \<Longrightarrow> a < length (store st) \<Longrightarrow> table_ok (snd (define_key k a st))"
  by (auto simp: table_ok_def define_key_def scope_ok_insert split: list.split)

lemma table_ok_make_shared: "table_ok st \<Longrightarrow> table_ok (snd (make_shared s st))"
  by (auto simp: table_ok_def make_shared_def intro: scope_ok_mono)

lemma table_ok_markUsed: "table_ok st \<Longrightarrow> table_ok (markUsed n st)"
  by (simp add: table_ok_def markUsed_def split: option.split)

lemma table_ok_scopes: "table_ok st \<Longrightarrow> table_ok (createChildScope st)" "table_ok st \<Longrightarrow> table_ok (leaveScope st)"
  by (auto simp: table_ok_def createChildScope_def leaveScope_def scope_ok_new split: list.split)

text \<open>The operations of the table as steps.\<close>

inductive table_step :: "symtab \<Rightarrow> symtab \<Rightarrow> bool" where
  table_new: "table_step st (snd (make_shared s st))"
| table_define: "a < length (store st) \<Longrightarrow> table_step st (snd (define_symbol a st))"
| table_alias: "a < length (store st) \<Longrightarrow> table_step st (snd (defineAlias k a st))"
| table_variable: "table_step st (snd (defineVariable n t mut loc st))"
| table_parameter: "table_step st (snd (defineParameter n t mut loc st))"
| table_interface: "a < length (store st) \<Longrightarrow> table_step st (snd (defineInterface a st))"
| table_interface_alias: "a < length (store st) \<Longrightarrow> table_step st (snd (defineInterfaceAlias k a st))"
| table_used: "table_step st (markUsed n st)"
| table_enter: "table_step st (createChildScope st)"
| table_leave: "table_step st (leaveScope st)"

lemma table_ok_defineVariable: "table_ok st \<Longrightarrow> table_ok (snd (defineVariable n t mut loc st))"
  using table_ok_make_shared [of st "new_symbol SK_Variable n t loc mut Plain"]
  by (auto simp: defineVariable_def make_shared_def Let_def split: list.split intro!: table_ok_define_key)

lemma table_ok_defineParameter: "table_ok st \<Longrightarrow> table_ok (snd (defineParameter n t mut loc st))"
  using table_ok_make_shared [of st "new_symbol SK_Parameter n t loc mut Plain"]
  by (auto simp: defineParameter_def define_symbol_def make_shared_def Let_def intro!: table_ok_define_key)

lemma table_step_ok: "table_step st st' \<Longrightarrow> table_ok st \<Longrightarrow> table_ok st'"
  by (induction rule: table_step.induct)
    (simp_all add: table_ok_make_shared table_ok_define_key table_ok_defineVariable table_ok_defineParameter
      table_ok_markUsed table_ok_scopes define_symbol_def defineAlias_def defineInterface_def defineInterfaceAlias_def)

interpretation tables: invariant_argument new_symtab table_step table_ok
  by unfold_locales (use table_ok_new table_step_ok in blast)+

section \<open>No lookup throws\<close>

lemma addresses_ok: "set ks \<subseteq> dom (sc_symbols s) \<Longrightarrow> addresses s ks = Some (map (the \<circ> sc_symbols s) ks)"
  by (induction ks) auto

lemma scope_address: "scope_ok n s \<Longrightarrow> sc_symbols s k = Some a \<Longrightarrow> a < n"
  by (auto simp: scope_ok_def ran_def)

lemma find_suffix_ok:
  "scope_ok n s \<Longrightarrow> set ks \<subseteq> dom (sc_symbols s) \<Longrightarrow>
    \<exists>r. find_suffix P suf mem s ks = Some r \<and> (\<forall>a. r = Some a \<longrightarrow> a < n \<and> P (mem ! a))"
proof (induction ks)
  case (Cons k ks)
  then obtain a where "sc_symbols s k = Some a" by auto
  then show ?case using Cons scope_address by auto
qed simp

lemma lookup_chain_address:
  "\<forall>s\<in>set ss. scope_ok n s \<Longrightarrow> lookup_chain k ss = Some a \<Longrightarrow> a < n"
  by (induction ss) (auto split: option.splits dest: scope_address)

lemma lookup_qualified_ok:
  "\<forall>s\<in>set ss. scope_ok n s \<Longrightarrow>
    \<exists>r. lookup_qualified P obj k mem ss = Some r \<and> (\<forall>a. r = Some a \<longrightarrow> a < n \<and> P (mem ! a) \<and> obj (mem ! a))"
proof (induction ss)
  case (Cons s ss)
  have s: "scope_ok n s" using Cons.prems by simp
  then obtain r where r: "find_suffix P (''::'' @ k) mem s (sc_order s) = Some r"
    "\<forall>a. r = Some a \<longrightarrow> a < n \<and> P (mem ! a)"
    using find_suffix_ok [OF s, of "sc_order s" P "''::'' @ k" mem] by (auto simp: scope_ok_def)
  obtain q where q: "lookup_qualified P obj k mem ss = Some q"
    "\<forall>a. q = Some a \<longrightarrow> a < n \<and> P (mem ! a) \<and> obj (mem ! a)"
    using Cons by auto
  have "lookup_chain k (s # ss) = Some a \<Longrightarrow> a < n" for a
    using lookup_chain_address [OF Cons.prems] .
  then show ?case
    using r q by (cases r; cases "lookup_chain k (s # ss)") (auto simp: Let_def simp del: lookup_chain.simps)
qed simp

lemma lookup_method_ok: "\<forall>s\<in>set ss. scope_ok n s \<Longrightarrow> \<exists>r. lookup_method k mem ss = Some r"
proof (induction ss)
  case (Cons s ss)
  then have "addresses s (sc_order s) = Some (map (the \<circ> sc_symbols s) (sc_order s))"
    by (intro addresses_ok) (auto simp: scope_ok_def)
  then show ?case using Cons by (auto split: option.split)
qed simp

lemma ordered_ok: "table_ok st \<Longrightarrow> scopes st = s # ss \<Longrightarrow>
    orderedSymbols st = Some (map (the \<circ> sc_symbols s) (sc_order s))"
  by (simp add: orderedSymbols_def, rule addresses_ok) (auto simp: table_ok_def scope_ok_def)

section \<open>What the lookups find\<close>

text \<open>The specification: the scopes that have a name, innermost first; the objects some key of any scope
  points to, under the name itself or a qualified name that ends with it; and the objects of any scope.\<close>

definition nearest :: "string \<Rightarrow> symtab \<Rightarrow> nat option" where
  "nearest n st = (case filter (\<lambda>s. n \<in> dom (sc_symbols s)) (scopes st) of [] \<Rightarrow> None | s # _ \<Rightarrow> sc_symbols s n)"

definition denoted :: "string \<Rightarrow> (symbol \<Rightarrow> bool) \<Rightarrow> symbol list \<Rightarrow> scope list \<Rightarrow> nat set" where
  "denoted n P mem ss = {a. \<exists>s \<in> set ss. \<exists>k. sc_symbols s k = Some a \<and> (k = n \<or> suffix (''::'' @ n) k) \<and> P (mem ! a)}"

text \<open>What a lookup of a struct or enum may answer: the nearest object of the name if it is of the kind,
  and otherwise one that the name denotes. Nothing is found only when the name denotes none, or when
  one it denotes is of the kind but not of the class that goes with it.\<close>

definition qualified_answer ::
  "(symbol \<Rightarrow> bool) \<Rightarrow> (symbol \<Rightarrow> bool) \<Rightarrow> string \<Rightarrow> symtab \<Rightarrow> nat option \<Rightarrow> bool" where
  "qualified_answer P obj n st r \<longleftrightarrow>
     (case nearest n st of
        Some a \<Rightarrow> if P (store st ! a) then r = (if obj (store st ! a) then Some a else None) else True
      | None \<Rightarrow> True)
     \<and> (case r of
          Some a \<Rightarrow> a < length (store st) \<and> a \<in> denoted n P (store st) (scopes st) \<and> obj (store st ! a)
        | None \<Rightarrow> denoted n P (store st) (scopes st) = {}
            \<or> (\<exists>a \<in> denoted n P (store st) (scopes st). \<not> obj (store st ! a)))"

definition interface_scope :: "string \<Rightarrow> symtab \<Rightarrow> scope \<Rightarrow> bool" where
  "interface_scope n st s \<longleftrightarrow>
     (case sc_symbols s (''interface:'' @ n) of Some a \<Rightarrow> isInterface (store st ! a) | None \<Rightarrow> False)"

definition method_here :: "string \<Rightarrow> symbol \<Rightarrow> bool" where
  "method_here n s \<longleftrightarrow> isMethod s
     \<or> isStruct s \<and> (case sy_detail s of Struct_Detail d \<Rightarrow> st_getMethod n d \<noteq> None | _ \<Rightarrow> False)"

lemma nearest_Nil [simp]: "scopes st = [] \<Longrightarrow> nearest n st = None"
  by (simp add: nearest_def)

lemma lookup_chain_nearest:
  "lookup_chain n ss = (case filter (\<lambda>s. n \<in> dom (sc_symbols s)) ss of [] \<Rightarrow> None | s # _ \<Rightarrow> sc_symbols s n)"
  by (induction ss) (auto split: option.split)

lemma lookup_nearest: "lookup n st = nearest n st"
  by (simp add: lookup_def nearest_def lookup_chain_nearest)

lemma lookup_chain_denoted: "lookup_chain n ss = Some a \<Longrightarrow> P (mem ! a) \<Longrightarrow> a \<in> denoted n P mem ss"
  by (induction ss) (auto simp: denoted_def split: option.splits)

lemma denoted_Cons:
  "denoted n P mem (s # ss) =
     {a. \<exists>k. sc_symbols s k = Some a \<and> (k = n \<or> suffix (''::'' @ n) k) \<and> P (mem ! a)} \<union> denoted n P mem ss"
  by (auto simp: denoted_def)

lemma find_suffix_exact:
  assumes "find_suffix P suf mem s ks = Some r"
  shows "case r of Some a \<Rightarrow> \<exists>k \<in> set ks. sc_symbols s k = Some a \<and> P (mem ! a) \<and> suffix suf k
     | None \<Rightarrow> \<forall>k \<in> set ks. \<forall>a. sc_symbols s k = Some a \<longrightarrow> suffix suf k \<longrightarrow> \<not> P (mem ! a)"
  using assms
proof (induction ks)
  case (Cons k ks)
  obtain a where a: "sc_symbols s k = Some a"
    using Cons.prems by (auto split: option.splits)
  then show ?case using Cons by (cases "P (mem ! a) \<and> suffix suf k") (auto split: option.splits)
qed auto

text \<open>The part of the answer that the walk over the scopes keeps.\<close>

lemma lookup_qualified_exact:
  "\<forall>s\<in>set ss. scope_ok n s \<Longrightarrow> lookup_qualified P obj k mem ss = Some r \<Longrightarrow>
    (case r of
       Some a \<Rightarrow> a \<in> denoted k P mem ss \<and> obj (mem ! a)
     | None \<Rightarrow> denoted k P mem ss = {} \<or> (\<exists>a \<in> denoted k P mem ss. \<not> obj (mem ! a)))"
proof (induction ss arbitrary: r)
  case Nil
  then show ?case by (auto simp: denoted_def)
next
  case (Cons s ss)
  have s: "scope_ok n s" and ks: "set (sc_order s) = dom (sc_symbols s)"
    using Cons.prems by (simp_all add: scope_ok_def)
  obtain q where q: "find_suffix P (''::'' @ k) mem s (sc_order s) = Some q"
    using find_suffix_ok [OF s, of "sc_order s" P "''::'' @ k" mem] ks by auto
  note f = find_suffix_exact [OF q]
  show ?case
  proof (cases "\<exists>a. lookup_chain k (s # ss) = Some a \<and> P (mem ! a)")
    case True
    then obtain a where a: "lookup_chain k (s # ss) = Some a" "P (mem ! a)" by blast
    then have "a \<in> denoted k P mem (s # ss)" by (rule lookup_chain_denoted)
    moreover have "r = (if obj (mem ! a) then Some a else None)"
      using Cons.prems(2) a by (simp add: Let_def del: lookup_chain.simps split: if_splits)
    ultimately show ?thesis by auto
  next
    case no: False
    then have fb: "Some r = (case q of Some a \<Rightarrow> Some (if obj (mem ! a) then Some a else None)
        | None \<Rightarrow> lookup_qualified P obj k mem ss)"
      using Cons.prems(2) q
      by (cases "lookup_chain k (s # ss)") (auto simp: Let_def simp del: lookup_chain.simps split: option.splits)
    have own: "sc_symbols s k = Some a \<Longrightarrow> \<not> P (mem ! a)" for a
      using no by auto
    show ?thesis
    proof (cases q)
      case (Some a)
      then obtain j where "sc_symbols s j = Some a" "P (mem ! a)" "suffix (''::'' @ k) j"
        using f by auto
      then have "a \<in> denoted k P mem (s # ss)" by (auto simp: denoted_def)
      then show ?thesis using fb Some by (auto split: if_splits)
    next
      case None
      then have "denoted k P mem (s # ss) = denoted k P mem ss"
        using f own ks by (auto simp: denoted_Cons)
      then show ?thesis using Cons.IH [of r] Cons.prems(1) fb None
        by (simp only:) (simp split: option.split)
    qed
  qed
qed

lemma lookup_qualified_nearest:
  "lookup_chain k ss = Some a \<Longrightarrow> P (mem ! a) \<Longrightarrow>
    lookup_qualified P obj k mem ss = Some (if obj (mem ! a) then Some a else None)"
  by (cases ss) (auto simp: Let_def simp del: lookup_chain.simps(2))

lemma lookup_qualified_answer:
  assumes "\<forall>s\<in>set (scopes st). scope_ok (length (store st)) s"
  shows "\<exists>r. lookup_qualified P obj n (store st) (scopes st) = Some r \<and> qualified_answer P obj n st r"
proof -
  obtain r where r: "lookup_qualified P obj n (store st) (scopes st) = Some r"
    "\<forall>a. r = Some a \<longrightarrow> a < length (store st)"
    using lookup_qualified_ok [OF assms] by blast
  have "nearest n st = lookup_chain n (scopes st)" by (simp add: lookup_chain_nearest nearest_def)
  then have "case nearest n st of
      Some a \<Rightarrow> if P (store st ! a) then r = (if obj (store st ! a) then Some a else None) else True
    | None \<Rightarrow> True"
    using r(1) lookup_qualified_nearest [of n "scopes st" _ P "store st" obj] by (auto split: option.split)
  then show ?thesis
    using r lookup_qualified_exact [OF assms r(1)] by (auto simp: qualified_answer_def split: option.splits)
qed

lemma lookup_interface_exact:
  "lookup_interface n (store st) ss =
    (case filter (interface_scope n st) ss of
       [] \<Rightarrow> None
     | s # _ \<Rightarrow> keep_if is_interface_object st (sc_symbols s (''interface:'' @ n)))"
  by (induction ss) (auto simp: interface_scope_def interface_key_def keep_if_def split: option.splits)

lemma method_in_None: "method_in n mem as = None \<longleftrightarrow> (\<forall>a \<in> set as. \<not> method_here n (mem ! a))"
  by (induction as) (auto simp: method_here_def split: bool.splits symbol_detail.splits option.splits)

lemma lookup_method_None:
  "\<forall>s\<in>set ss. scope_ok l s \<Longrightarrow> lookup_method n mem ss = Some None \<longleftrightarrow>
     (\<forall>s \<in> set ss. \<forall>a \<in> ran (sc_symbols s). \<not> method_here n (mem ! a))"
proof (induction ss)
  case (Cons s ss)
  have s: "set (sc_order s) = dom (sc_symbols s)" using Cons.prems by (simp add: scope_ok_def)
  then have a: "addresses s (sc_order s) = Some (map (the \<circ> sc_symbols s) (sc_order s))"
    by (intro addresses_ok) simp
  have "set (map (the \<circ> sc_symbols s) (sc_order s)) = ran (sc_symbols s)"
    using s by (force simp: ran_def)
  then show ?case
    using Cons a method_in_None [of n mem "map (the \<circ> sc_symbols s) (sc_order s)"]
    by (auto split: option.splits)
qed simp



section \<open>Nested scopes\<close>

text \<open>C23: Names are lexically scoped. A new scope sees every outer name; a definition in the
  current scope succeeds exactly when the scope has no such name yet, is then what the name means,
  and leaves all other names alone; and whatever is defined in an inner scope, leaving it makes
  every name mean what it meant before.\<close>

theorem lexical_scoping:
  assumes "scopes st \<noteq> []"
  shows "lookup k (createChildScope st) = lookup k st
    \<and> (fst (define_key j a st) \<longleftrightarrow> \<not> isDefinedLocally j st)
    \<and> lookup k (snd (define_key j a st)) =
        (if k = j \<and> \<not> isDefinedLocally j st then Some a else lookup k st)
    \<and> lookup k (leaveScope (fold (\<lambda>(j, v). put_symbol j v) kvs (createChildScope st))) = lookup k st"
proof -
  have h: "has_scope st" using assms by (simp add: has_scope_def)
  have "fst (define_key j a st) \<longleftrightarrow> \<not> isDefinedLocally j st"
    using assms by (auto simp: define_key_def isDefinedLocally_def lookupLocal_def split: list.split)
  then show ?thesis
    using symbols.get_enter [OF h, of k] symbols.get_put [OF h, of k j a] symbols.scope_restores [OF h, of k kvs]
    by (simp add: put_symbol_def isDefinedLocally_def)
qed

theorem lexical_scoping_witness:
  "lookup ''x'' (leaveScope (put_symbol ''x'' 1 (createChildScope (put_symbol ''x'' 0 new_symtab)))) = Some 0"
  using lexical_scoping [of "put_symbol ''x'' 0 new_symtab" "''x''" "''x''" 0 "[(''x'', 1)]"]
  by (simp add: put_symbol_unfold new_symtab_def new_scope_def insertSymbol_def lookup_def)

section \<open>Unused names\<close>

text \<open>The unused-name report is exact: it lists, in definition order, the variables and
  parameters of the current scope whose object was never marked, and marking a name marks the
  object, so that every alias of it counts as used.\<close>

theorem unused_symbols_exact:
  assumes "table_ok st"
  shows "\<exists>as bs. orderedSymbols st = Some as \<and> getUnusedSymbols st = Some bs
    \<and> bs = filter (\<lambda>a. \<not> isUsed (store st ! a) \<and> (isVariable (store st ! a) \<or> isParameter (store st ! a))) as
    \<and> (\<forall>n a. lookup n st = Some a \<longrightarrow>
        getUnusedSymbols (markUsed n st) = Some (filter (\<lambda>b. b \<noteq> a) bs))"
proof -
  obtain s ss where s: "scopes st = s # ss" using assms by (cases "scopes st") (auto simp: table_ok_def)
  define as where "as = map (the \<circ> sc_symbols s) (sc_order s)"
  have o: "orderedSymbols st = Some as" using ordered_ok [OF assms s] by (simp add: as_def)
  have lt: "b < length (store st)" if "b \<in> set as" for b
    using that assms s by (auto simp: as_def table_ok_def scope_ok_def ran_def)
  have "getUnusedSymbols (markUsed n st) = Some (filter (\<lambda>b. b \<noteq> a)
      (filter (\<lambda>a. \<not> isUsed (store st ! a) \<and> (isVariable (store st ! a) \<or> isParameter (store st ! a))) as))"
    if "lookup n st = Some a" for n a
  proof -
    have "orderedSymbols (markUsed n st) = Some as"
      using o that by (simp add: markUsed_def orderedSymbols_def)
    moreover have "store (markUsed n st) ! b = (if b = a then (store st ! a)\<lparr>isUsed := True\<rparr> else store st ! b)"
      if "b \<in> set as" for b
      using lt [OF that] \<open>lookup n st = Some a\<close> by (simp add: markUsed_def nth_list_update)
    ultimately show ?thesis
      by (auto simp: getUnusedSymbols_def select_symbols_def isVariable_def isParameter_def intro!: filter_cong
          split: if_splits)
  qed
  then show ?thesis using o by (auto simp: getUnusedSymbols_def select_symbols_def)
qed

theorem unused_symbols_exact_witness:
  "getUnusedSymbols (markUsed ''x'' (snd (defineVariable ''x'' voided True no_location new_symtab))) = Some []"
proof -
  let ?st = "snd (defineVariable ''x'' voided True no_location new_symtab)"
  have ok: "table_ok ?st" by (simp add: table_ok_defineVariable table_ok_new)
  have l: "lookup ''x'' ?st = Some 0" "orderedSymbols ?st = Some [0]"
    by (simp_all add: defineVariable_def new_symtab_def new_scope_def make_shared_def define_key_def
        insertSymbol_def lookup_def orderedSymbols_def)
  obtain as bs where b: "orderedSymbols ?st = Some as"
    "bs = filter (\<lambda>a. \<not> isUsed (store ?st ! a) \<and> (isVariable (store ?st ! a) \<or> isParameter (store ?st ! a))) as"
    "\<forall>n a. lookup n ?st = Some a \<longrightarrow> getUnusedSymbols (markUsed n ?st) = Some (filter (\<lambda>b. b \<noteq> a) bs)"
    using unused_symbols_exact [OF ok] by blast
  have "set bs \<subseteq> {0}" using b(1,2) l(2) by auto
  then have "filter (\<lambda>b. b \<noteq> 0) bs = []" by (auto simp: filter_empty_conv)
  then show ?thesis using b(3) l(1) by simp
qed

end
