(* ===== verification/Ast.thy ===== *)
theory Ast
  imports Tokens Types Diagnostics
begin

text \<open>
  The syntax trees of \<^verbatim>\<open>parser/ast/Expression.h\<close> and \<^verbatim>\<open>parser/ast/Statement.h\<close>, one constructor per
  class with the fields the parser fills in. A class whose constructor is given a location keeps it
  as its last field; the others take theirs from a name they hold, which \<open>location_of\<close> computes.
  The fields the binder fills in for the generator are left out.
\<close>

record ident =
  token_name :: string
  id_location :: source_location

datatype field_access_kind = FA_Normal | FA_NullConditional | FA_NullForgiving

datatype compile_time_kind = CT_None | CT_ConstExpr | CT_ConstEval

datatype expression =
    E_VariableDeclaration type_t ident bool
  | E_Assignment ident expression
  | E_VariableInit type_t ident expression bool
  | E_StringLiteral string source_location
  | E_IntegerLiteral string bool overflow_mode source_location
  | E_FloatLiteral string source_location
  | E_BooleanLiteral string source_location
  | E_NullLiteral source_location
  | E_Identifier ident
  | E_FieldAccess expression ident field_access_kind
  | E_FieldAssignment expression ident expression
  | E_FunctionCall ident "expression list" "expression option" "type_t list" bool
  | E_Unary token_type expression source_location
  | E_Postfix token_type expression source_location
  | E_Binary expression token_type expression source_location
  | E_BraceInitializer "(ident option \<times> expression) list" string source_location
  | E_IndexAccess expression expression source_location
  | E_IndexAssignment expression expression expression source_location
  | E_Switch expression "switch_arm list" source_location
  | E_VariadicForward
  | E_ArrayLiteral "expression list" "type_t option" bool source_location
  | E_FixedArray type_t expression source_location
  | E_New expression
  | E_Await expression source_location
  | E_Ternary expression expression expression source_location
  | E_Try expression "expression option" source_location
  | E_Cast type_t expression source_location
  | E_Is expression type_t "string option" source_location
  | E_Macro "(string \<times> expression) list" expression
and switch_arm = Switch_Arm ident "ident option" "expression option" "statement list option"
and statement =
    S_Expression expression
  | S_Return "expression option"
  | S_Block "statement list" bool
  | S_If compile_time_kind expression "statement list" "statement list option" source_location
  | S_For "expression option" "expression option" "expression option" "statement list"
  | S_RangeFor type_t ident expression expression "statement list" bool bool
  | S_While expression "statement list"
  | S_DoWhile "statement list" expression
  | S_Break
  | S_Continue
  | S_Yield "expression option" source_location
  | S_Spawn expression
  | S_Throw "expression option" source_location
  | S_Switch expression "(expression option \<times> statement list) list"

text \<open>
  The constructors of \<^verbatim>\<open>VariableDeclaration\<close>, \<^verbatim>\<open>Assignment\<close> and \<^verbatim>\<open>VariableInit\<close> read the location of a
  parameter they have moved from: its numbers are still there, its file name is empty.
\<close>

definition moved_location :: "ident \<Rightarrow> source_location" where
  "moved_location i = (id_location i)\<lparr>loc_fileId := []\<rparr>"

fun location_of :: "expression \<Rightarrow> source_location" where
  "location_of (E_VariableDeclaration t i mu) = moved_location i"
| "location_of (E_Assignment i e) = moved_location i"
| "location_of (E_VariableInit t i e mu) = moved_location i"
| "location_of (E_StringLiteral v l) = l"
| "location_of (E_IntegerLiteral v sg m l) = l"
| "location_of (E_FloatLiteral v l) = l"
| "location_of (E_BooleanLiteral v l) = l"
| "location_of (E_NullLiteral l) = l"
| "location_of (E_Identifier i) = id_location i"
| "location_of (E_FieldAccess e i k) = id_location i"
| "location_of (E_FieldAssignment e i v) = id_location i"
| "location_of (E_FunctionCall i args rcv targs fwd) = id_location i"
| "location_of (E_Unary opr e l) = l"
| "location_of (E_Postfix opr e l) = l"
| "location_of (E_Binary a opr b l) = l"
| "location_of (E_BraceInitializer els n l) = l"
| "location_of (E_IndexAccess e i l) = l"
| "location_of (E_IndexAssignment e i v l) = l"
| "location_of (E_Switch e arms l) = l"
| "location_of E_VariadicForward = no_location"
| "location_of (E_ArrayLiteral es t h l) = l"
| "location_of (E_FixedArray t e l) = l"
| "location_of (E_New e) = location_of e"
| "location_of (E_Await e l) = l"
| "location_of (E_Ternary c a b l) = l"
| "location_of (E_Try e f l) = l"
| "location_of (E_Cast t e l) = l"
| "location_of (E_Is e t n l) = l"
| "location_of (E_Macro ls e) = no_location"

text \<open>
  The literal an expression is, directly or behind a minus sign, and whether it is behind one.
\<close>

fun literal_of :: "expression \<Rightarrow> (string \<times> overflow_mode \<times> bool) option" where
  "literal_of (E_IntegerLiteral v sg m l) = Some (v, m, False)"
| "literal_of (E_Unary opr e l) =
     (if opr = T_MINUS then (case e of E_IntegerLiteral v sg m l \<Rightarrow> Some (v, m, True) | _ \<Rightarrow> None) else None)"
| "literal_of _ = None"

definition without_separators :: "string \<Rightarrow> string" where
  "without_separators cs = filter (\<lambda>c. c \<noteq> CHR ''_'' \<and> c \<noteq> CHR 0x27) cs"

definition is_zero_literal :: "expression \<Rightarrow> bool" where
  "is_zero_literal e =
     (case literal_of e of
        None \<Rightarrow> False
      | Some (v, _, _) \<Rightarrow>
          (let ds = without_separators v;
               ds = (if 2 < length ds \<and> ds ! 0 = CHR ''0'' \<and> ds ! 1 \<in> {CHR ''x'', CHR ''X'', CHR ''b'', CHR ''B''}
                     then drop 2 ds else ds)
           in ds \<noteq> [] \<and> list_all (\<lambda>c. c = CHR ''0'') ds))"

end
