(* ===== verification/Type_Resolver.thy ===== *)
theory Type_Resolver
  imports Symbol_Table Ast Ownership
begin

text \<open>
  \<^verbatim>\<open>binder/types/TypeResolver.cpp\<close>: which types exist, what type an expression has, and whether an
  expression may be assigned to a type. The binder state these functions read is the symbol table
  and the name of the struct being bound. A lookup that throws counts as finding nothing here; in
  a table the operations build no lookup throws.
\<close>

section \<open>Context\<close>

record bind_ctx =
  bc_table :: symtab
  bc_structName :: string
  bc_stdLib :: bool

definition global_table :: "bind_ctx \<Rightarrow> symtab" where
  "global_table c = (bc_table c)\<lparr>scopes := [last (scopes (bc_table c))]\<rparr>"

definition struct_named :: "string \<Rightarrow> symtab \<Rightarrow> (string \<times> struct_info) option" where
  "struct_named n st =
     (case lookupStruct n st of
        Some (Some a) \<Rightarrow>
          (case sy_detail (store st ! a) of
             Struct_Detail d \<Rightarrow> Some (sy_name (store st ! a), d)
           | _ \<Rightarrow> None)
      | _ \<Rightarrow> None)"

definition enum_named :: "string \<Rightarrow> symtab \<Rightarrow> (string \<times> enum_info) option" where
  "enum_named n st =
     (case lookupEnum n st of
        Some (Some a) \<Rightarrow>
          (case sy_detail (store st ! a) of
             Enum_Detail d \<Rightarrow> Some (sy_name (store st ! a), d)
           | _ \<Rightarrow> None)
      | _ \<Rightarrow> None)"

definition function_named :: "string \<Rightarrow> symtab \<Rightarrow> (symbol \<times> function_info) option" where
  "function_named n st =
     (case lookupFunction n st of
        Some a \<Rightarrow>
          (case sy_detail (store st ! a) of
             Function_Detail f \<Rightarrow> Some (store st ! a, f)
           | Extern_Detail f _ \<Rightarrow> Some (store st ! a, f)
           | _ \<Rightarrow> None)
      | None \<Rightarrow> None)"

section \<open>Which types exist\<close>

definition is_owner_param :: "bind_ctx \<Rightarrow> string \<Rightarrow> bool" where
  "is_owner_param c n \<longleftrightarrow>
     bc_structName c \<noteq> [] \<and>
     (case struct_named (bc_structName c) (global_table c) of
        Some (_, d) \<Rightarrow> list_ex (\<lambda>p. gp_name p = n) (st_genericParams d)
      | None \<Rightarrow> False)"

text \<open>
  \<^verbatim>\<open>isTypeDefined\<close> also rewrites the names of structs and enums inside the type to their qualified
  names; the second component is the type it leaves.
\<close>

primrec isTypeDefined :: "bind_ctx \<Rightarrow> type_t \<Rightarrow> bool \<times> type_t" where
  "isTypeDefined c (Type a el args) =
     (case ty_kind a of
        TK_STRUCT \<Rightarrow>
          if is_owner_param c (structName a) then (True, Type a el args)
          else if lookupInterface (structName a) (global_table c) \<noteq> None then (True, Type a el args)
          else (case struct_named (structName a) (global_table c) of
                  Some (n, _) \<Rightarrow>
                    (True, Type (a\<lparr>structName := n\<rparr>) el (map (snd \<circ> isTypeDefined c) args))
                | None \<Rightarrow>
                    (case enum_named (structName a) (global_table c) of
                       Some (n, _) \<Rightarrow>
                         (True, Type (a\<lparr>structName := n\<rparr>) el (map (snd \<circ> isTypeDefined c) args))
                     | None \<Rightarrow> (False, Type a el args)))
      | TK_ARRAY \<Rightarrow>
          (case map_option (isTypeDefined c) el of
             Some (b, e) \<Rightarrow> (b, Type a (Some e) args)
           | None \<Rightarrow> (False, Type a el args))
      | TK_POINTER \<Rightarrow>
          (case map_option (isTypeDefined c) el of
             Some (b, e) \<Rightarrow> (b, Type a (Some e) args)
           | None \<Rightarrow> (False, Type a el args))
      | _ \<Rightarrow> (True, Type a el args))"

definition resolveType :: "bind_ctx \<Rightarrow> type_t \<Rightarrow> type_t option" where
  "resolveType c t =
     (let (ok, t') = isTypeDefined c t in
      if ok then Some (copy_type t')
      else map_option (\<lambda>a. copy_type (sy_type (store (bc_table c) ! a)))
             (lookup (structName (attrs t')) (bc_table c)))"

definition is_generic_type :: "type_t \<Rightarrow> generic_param list \<Rightarrow> bool" where
  "is_generic_type t params \<longleftrightarrow> params \<noteq> [] \<and> find_param params (structName (attrs t)) \<noteq> None"

section \<open>The type of an expression\<close>

definition set_attrs :: "(type_attrs \<Rightarrow> type_attrs) \<Rightarrow> type_t \<Rightarrow> type_t" where
  "set_attrs f t = Type (f (attrs t)) (elementType t) (genericArgs t)"

fun inferExpressionType :: "bind_ctx \<Rightarrow> expression \<Rightarrow> type_t option" where
  "inferExpressionType c (E_IntegerLiteral v sg m l) = Some (integer_type 32 sg OM_None)"
| "inferExpressionType c (E_FloatLiteral v l) = Some (new_type TK_F64 64 True)"
| "inferExpressionType c (E_StringLiteral v l) = Some (struct_type ''str'')"
| "inferExpressionType c (E_NullLiteral l) =
     Some (set_attrs (\<lambda>a. a\<lparr>nullable := True\<rparr>) (pointer_type (new_type TK_VOID 0 False)))"
| "inferExpressionType c (E_Identifier i) =
     map_option (\<lambda>a. copy_type (sy_type (store (bc_table c) ! a))) (lookupVariable (token_name i) (bc_table c))"
| "inferExpressionType c (E_Unary opr e l) =
     map_option (\<lambda>t. if opr = T_MINUS \<and> kind t = TK_INTEGER then set_attrs (\<lambda>a. a\<lparr>ty_sign := True\<rparr>) t else t)
       (inferExpressionType c e)"
| "inferExpressionType c (E_Binary a opr b l) =
     map_option (\<lambda>t. if kind t = TK_INTEGER then set_attrs (\<lambda>a. a\<lparr>nonZero := False\<rparr>) t else t)
       (inferExpressionType c a)"
| "inferExpressionType c (E_FunctionCall i args rcv targs fwd) =
     map_option (\<lambda>(s, f). copy_type (sy_type s)) (function_named (token_name i) (global_table c))"
| "inferExpressionType c (E_FieldAccess obj fld k) =
     (case inferExpressionType c obj of
        None \<Rightarrow> None
      | Some t \<Rightarrow>
          (let n = (if kind t = TK_STRUCT then structName (attrs t)
                    else if kind t = TK_POINTER
                    then (case elementType t of Some e \<Rightarrow> structName (attrs e) | None \<Rightarrow> [])
                    else [])
           in if n = [] then None
              else case struct_named n (bc_table c) of
                     Some (_, d) \<Rightarrow> map_option (\<lambda>f. copy_type (fs_type f)) (st_findField (token_name fld) d)
                   | None \<Rightarrow> None))"
| "inferExpressionType c _ = None"

section \<open>Literals against integer types\<close>

datatype magnitude = Not_Digits | Too_Big | Magnitude nat

definition UINT64_MAX :: nat where
  "UINT64_MAX = 18446744073709551615"

definition digit_of :: "char \<Rightarrow> int" where
  "digit_of ch =
     (let k = (of_char ch :: int) in
      if 48 \<le> k \<and> k \<le> 57 then k - 48
      else if 97 \<le> k \<and> k \<le> 102 then k - 97 + 10
      else if 65 \<le> k \<and> k \<le> 70 then k - 65 + 10
      else - 1)"

fun read_magnitude :: "nat \<Rightarrow> nat \<Rightarrow> string \<Rightarrow> magnitude" where
  "read_magnitude radix m [] = Magnitude m"
| "read_magnitude radix m (ch # cs) =
     (let d = digit_of ch in
      if d < 0 \<or> int radix \<le> d then Not_Digits
      else if (UINT64_MAX - nat d) div radix < m then Too_Big
      else read_magnitude radix (m * radix + nat d) cs)"

definition split_literal :: "string \<Rightarrow> nat \<times> string" where
  "split_literal v =
     (let cs = without_separators v in
      if 2 < length cs \<and> cs ! 0 = CHR ''0'' \<and> (cs ! 1 = CHR ''x'' \<or> cs ! 1 = CHR ''X'') then (16, drop 2 cs)
      else if 2 < length cs \<and> cs ! 0 = CHR ''0'' \<and> (cs ! 1 = CHR ''b'' \<or> cs ! 1 = CHR ''B'') then (2, drop 2 cs)
      else (10, cs))"

definition literal_magnitude :: "string \<Rightarrow> magnitude" where
  "literal_magnitude v = (let (radix, ds) = split_literal v in read_magnitude radix 0 ds)"

text \<open>
  The largest magnitude of a type of at most 64 bits; a shift by 64 or more places, which a width
  of 0 asks for, is undefined.
\<close>

definition literal_limit :: "nat \<Rightarrow> bool \<Rightarrow> bool \<Rightarrow> nat option" where
  "literal_limit bits sg negated =
     (if sg then
        (if \<not> negated \<and> bits = 64 then Some 9223372036854775807
         else if bits = 0 then None
         else if negated then Some (2 ^ (bits - 1)) else Some (2 ^ (bits - 1) - 1))
      else (if bits = 64 then Some UINT64_MAX else Some (2 ^ bits - 1)))"

datatype check_outcome = Accepted "string list" | Rejected compile_error | Check_Undefined

definition TYPE_MISMATCH :: nat where
  "TYPE_MISMATCH = 3005"

definition reject :: "source_location \<Rightarrow> string \<Rightarrow> check_outcome" where
  "reject loc msg = Rejected (Compile_Error TYPE_MISMATCH msg loc)"

text \<open>One check after the other; the first that does not accept decides.\<close>

definition and_then :: "check_outcome \<Rightarrow> check_outcome \<Rightarrow> check_outcome" where
  "and_then r s =
     (case r of
        Accepted ws \<Rightarrow> (case s of Accepted ws' \<Rightarrow> Accepted (ws @ ws') | _ \<Rightarrow> s)
      | _ \<Rightarrow> r)"

definition check_literal_range :: "type_t \<Rightarrow> expression \<Rightarrow> source_location \<Rightarrow> check_outcome" where
  "check_literal_range expected e loc =
     (let a = attrs expected in
      if ty_kind a = TK_INTEGER \<and> ty_size a \<le> 64 then
        (case literal_of e of
           None \<Rightarrow> Accepted []
         | Some (v, lmode, negated) \<Rightarrow>
             if negated \<and> \<not> ty_sign a then Accepted []
             else (case literal_magnitude v of
                     Not_Digits \<Rightarrow> Accepted []
                   | mag \<Rightarrow>
                       (case literal_limit (ty_size a) (ty_sign a) negated of
                          None \<Rightarrow> Check_Undefined
                        | Some limit \<Rightarrow>
                            if (case mag of Magnitude m \<Rightarrow> limit < m | _ \<Rightarrow> True) then
                              (let mode = (if overflowMode a \<noteq> OM_None then overflowMode a else lmode) in
                               if mode = OM_Trapped \<or> mode = OM_Checked
                               then reject loc (''integer literal '' @ (if negated then ''-'' else []) @ v
                                      @ '' overflows '' @ quoted (toHumanString expected))
                               else Accepted [])
                            else Accepted [])))
      else Accepted [])"

section \<open>Assigning an expression to a type\<close>

definition check_nonzero_literal :: "type_t \<Rightarrow> expression \<Rightarrow> source_location \<Rightarrow> check_outcome" where
  "check_nonzero_literal expected e loc =
     (if kind expected = TK_INTEGER \<and> nonZero (attrs expected) \<and> is_zero_literal e
      then reject loc (''integer literal 0 is not assignable to non-zero type '' @ quoted (toHumanString expected))
      else Accepted [])"

text \<open>The dash of the message is the UTF-8 encoding of U+2014.\<close>

definition is_null_literal :: "expression \<Rightarrow> bool" where
  "is_null_literal e = (case e of E_NullLiteral l \<Rightarrow> True | _ \<Rightarrow> False)"

definition check_null :: "type_t \<Rightarrow> source_location \<Rightarrow> check_outcome" where
  "check_null expected loc =
     (if nullable (attrs expected) then Accepted []
      else reject loc (''cannot assign '' @ quoted ''null'' @ '' to non-nullable type ''
             @ [CHR 0xE2, CHR 0x80, CHR 0x94] @ '' use '' @ [CHR 0x27]
             @ (if kind expected = TK_STRUCT then structName (attrs expected) else ''T'')
             @ ''?'' @ [CHR 0x27] @ '' to allow null''))"

definition check_async_call :: "bind_ctx \<Rightarrow> expression \<Rightarrow> source_location \<Rightarrow> check_outcome" where
  "check_async_call c e loc =
     (case e of
        E_FunctionCall i args rcv targs fwd \<Rightarrow>
          (case function_named (token_name i) (global_table c) of
             Some (s, f) \<Rightarrow>
               if fi_isAsync f
               then reject loc (''cannot assign result of async function '' @ quoted (token_name i)
                      @ '' without '' @ quoted ''await'')
               else Accepted []
           | None \<Rightarrow> Accepted [])
      | _ \<Rightarrow> Accepted [])"

definition resolve_transparent :: "bind_ctx \<Rightarrow> type_t \<Rightarrow> type_t" where
  "resolve_transparent c t =
     (if kind t = TK_STRUCT then
        (case struct_named (structName (attrs t)) (global_table c) of
           Some (_, d) \<Rightarrow>
             (case st_baseType d of Some b \<Rightarrow> if st_isTransparent d then b else t | None \<Rightarrow> t)
         | None \<Rightarrow> t)
      else t)"

definition is_negation :: "expression \<Rightarrow> bool" where
  "is_negation e = (case e of E_Unary opr _ _ \<Rightarrow> opr = T_MINUS | _ \<Rightarrow> False)"

definition check_nonzero_source :: "type_t \<Rightarrow> type_t \<Rightarrow> expression \<Rightarrow> source_location \<Rightarrow> check_outcome" where
  "check_nonzero_source expected inferred e loc =
     (if nonZero (attrs expected) \<and> \<not> nonZero (attrs inferred) \<and> literal_of e = None
      then reject loc (''cannot implicitly convert '' @ quoted (toHumanString inferred)
             @ '' to non-zero type '' @ quoted (toHumanString expected) @ ''; use an explicit cast'')
      else Accepted [])"

definition check_signs :: "bool \<Rightarrow> type_t \<Rightarrow> type_t \<Rightarrow> expression \<Rightarrow> source_location \<Rightarrow> check_outcome" where
  "check_signs stdLib expected inferred e loc =
     (if \<not> ty_sign (attrs expected) \<and> ty_sign (attrs inferred) then
        (if is_negation e then reject loc ''cannot assign negative value to unsigned type'' else Accepted [])
      else if ty_sign (attrs expected) \<and> \<not> ty_sign (attrs inferred) then
        Accepted (if stdLib then [] else [''implicit conversion from unsigned to signed integer''])
      else Accepted [])"

definition is_floating :: "type_t \<Rightarrow> bool" where
  "is_floating t \<longleftrightarrow> kind t \<in> {TK_F16, TK_F32, TK_F64, TK_F128}"

definition canonicalName :: "bind_ctx \<Rightarrow> string \<Rightarrow> string" where
  "canonicalName c n = (case struct_named n (global_table c) of Some (m, _) \<Rightarrow> m | None \<Rightarrow> n)"

definition elements_compatible :: "bind_ctx \<Rightarrow> type_t \<Rightarrow> type_t \<Rightarrow> bool" where
  "elements_compatible c x y =
     (if kind x = TK_VOID \<or> kind y = TK_VOID then True
      else if kind x \<noteq> kind y then False
      else if kind x = TK_INTEGER \<and>
              (ty_size (attrs x) \<noteq> ty_size (attrs y) \<or> ty_sign (attrs x) \<noteq> ty_sign (attrs y)
               \<or> nonZero (attrs x) \<noteq> nonZero (attrs y)) then False
      else if kind x = TK_STRUCT then canonicalName c (structName (attrs x)) = canonicalName c (structName (attrs y))
      else True)"

definition is_reference :: "type_t \<Rightarrow> bool" where
  "is_reference t \<longleftrightarrow> kind t = TK_POINTER \<or> kind t = TK_ARRAY"

definition check_elements :: "bind_ctx \<Rightarrow> type_t \<Rightarrow> type_t \<Rightarrow> source_location \<Rightarrow> check_outcome" where
  "check_elements c expected inferred loc =
     (if is_reference expected \<and> is_reference inferred then
        (case (elementType expected, elementType inferred) of
           (Some x, Some y) \<Rightarrow>
             if elements_compatible c x y then Accepted []
             else reject loc (''incompatible pointer types: cannot assign '' @ quoted (toHumanString inferred)
                    @ '' to '' @ quoted (toHumanString expected))
         | _ \<Rightarrow> Accepted [])
      else Accepted [])"

definition check_inferred :: "bind_ctx \<Rightarrow> type_t \<Rightarrow> expression \<Rightarrow> source_location \<Rightarrow> check_outcome" where
  "check_inferred c expected e loc =
     (case inferExpressionType c e of
        None \<Rightarrow> Accepted []
      | Some inferred \<Rightarrow>
          (let expected = resolve_transparent c expected in
           and_then
             (if kind expected = TK_INTEGER \<and> kind inferred = TK_INTEGER
              then and_then (check_nonzero_source expected inferred e loc)
                     (check_signs (bc_stdLib c) expected inferred e loc)
              else Accepted [])
          (and_then
             (if kind expected = TK_INTEGER \<and> is_floating inferred
              then reject loc ''cannot implicitly convert floating-point to integer; use explicit cast''
              else Accepted [])
             (check_elements c expected inferred loc))))"

definition checkTypeCompatibility :: "bind_ctx \<Rightarrow> type_t \<Rightarrow> expression \<Rightarrow> source_location \<Rightarrow> check_outcome" where
  "checkTypeCompatibility c expected e loc =
     and_then (check_nonzero_literal expected e loc)
       (if is_null_literal e then check_null expected loc
        else and_then (check_async_call c e loc)
            (and_then (check_literal_range expected e loc)
               (check_inferred c expected e loc)))"

end
