(* ===== verification/Type_Resolver_Correct.thy ===== *)
theory Type_Resolver_Correct
  imports Type_Resolver
begin

text \<open>
  The literal checks of \<^verbatim>\<open>checkTypeCompatibility\<close> against the numbers the literals stand for: the
  64-bit reader agrees with the unbounded value of the digits; exactly which literals are rejected, for
  every width and overflow mode; and a literal that is accepted for a trapped or checked integer type
  of at most 64 bits is in the range of that type, and not zero if the type is non-zero.
\<close>

section \<open>The reader of digits\<close>

definition is_radix_digit :: "nat \<Rightarrow> char \<Rightarrow> bool" where
  "is_radix_digit radix ch \<longleftrightarrow> 0 \<le> digit_of ch \<and> digit_of ch < int radix"

definition digits_value :: "nat \<Rightarrow> nat \<Rightarrow> string \<Rightarrow> nat" where
  "digits_value radix m ds = foldl (\<lambda>m ch. m * radix + nat (digit_of ch)) m ds"

lemma digits_value_simps [simp]:
  "digits_value radix m [] = m"
  "digits_value radix m (ch # cs) = digits_value radix (m * radix + nat (digit_of ch)) cs"
  by (simp_all add: digits_value_def)

lemma digits_value_ge: "0 < radix \<Longrightarrow> m \<le> digits_value radix m ds"
proof (induction ds arbitrary: m)
  case (Cons ch cs)
  have "m \<le> m * radix + nat (digit_of ch)"
    using \<open>0 < radix\<close> by (simp add: trans_le_add1)
  with Cons show ?case by (fastforce intro: le_trans)
qed simp

lemma magnitude_guard:
  assumes "0 < radix" "d \<le> (u :: nat)"
  shows "(u - d) div radix < m \<longleftrightarrow> u < m * radix + d"
  using assms by (auto simp: div_less_iff_less_mult)

lemma read_magnitude_value:
  assumes "0 < radix" "radix \<le> 16" "list_all (is_radix_digit radix) ds" "m \<le> UINT64_MAX"
  shows "read_magnitude radix m ds =
     (if digits_value radix m ds \<le> UINT64_MAX then Magnitude (digits_value radix m ds) else Too_Big)"
  using assms(3,4)
proof (induction ds arbitrary: m)
  case (Cons ch cs)
  define d where "d = nat (digit_of ch)"
  have d: "\<not> (digit_of ch < 0 \<or> int radix \<le> digit_of ch)" "d \<le> UINT64_MAX"
    using Cons.prems assms by (auto simp: is_radix_digit_def d_def UINT64_MAX_def)
  have guard: "(UINT64_MAX - d) div radix < m \<longleftrightarrow> UINT64_MAX < m * radix + d"
    using magnitude_guard assms(1) d(2) by blast
  show ?case
  proof (cases "UINT64_MAX < m * radix + d")
    case True
    then have "UINT64_MAX < digits_value radix m (ch # cs)"
      using digits_value_ge [OF assms(1), of "m * radix + d" cs] by (simp add: d_def)
    with True guard d show ?thesis by (simp add: Let_def d_def)
  next
    case False
    with Cons guard d show ?thesis by (simp add: Let_def d_def)
  qed
qed simp

definition literal_value :: "string \<Rightarrow> nat" where
  "literal_value v = (let (radix, ds) = split_literal v in digits_value radix 0 ds)"

definition well_formed_literal :: "string \<Rightarrow> bool" where
  "well_formed_literal v \<longleftrightarrow> (let (radix, ds) = split_literal v in ds \<noteq> [] \<and> list_all (is_radix_digit radix) ds)"

lemma split_literal_radix: "split_literal v = (radix, ds) \<Longrightarrow> radix = 16 \<or> radix = 2 \<or> radix = 10"
  by (auto simp: split_literal_def Let_def split: if_splits)

lemma literal_magnitude_value:
  assumes "well_formed_literal v"
  shows "literal_magnitude v =
     (if literal_value v \<le> UINT64_MAX then Magnitude (literal_value v) else Too_Big)"
proof -
  obtain radix ds where s: "split_literal v = (radix, ds)" by force
  moreover have "0 < radix" "radix \<le> 16" using split_literal_radix [OF s] by auto
  ultimately show ?thesis
    using assms read_magnitude_value [of radix ds 0]
    by (simp add: literal_magnitude_def literal_value_def well_formed_literal_def)
qed

section \<open>Ranges\<close>

definition in_type_range :: "type_t \<Rightarrow> int \<Rightarrow> bool" where
  "in_type_range t n \<longleftrightarrow>
     (if ty_sign (attrs t)
      then - (2 ^ (ty_size (attrs t) - 1)) \<le> n \<and> n < 2 ^ (ty_size (attrs t) - 1)
      else 0 \<le> n \<and> n < 2 ^ ty_size (attrs t))"

definition signed_literal :: "bool \<Rightarrow> string \<Rightarrow> int" where
  "signed_literal negated v = (if negated then - int (literal_value v) else int (literal_value v))"

lemma nat_le_pow_minus: "(m :: nat) \<le> 2 ^ k - 1 \<longleftrightarrow> int m < 2 ^ k"
proof -
  have "m \<le> 2 ^ k - 1 \<longleftrightarrow> m < 2 ^ k" by (simp add: Suc_le_eq [symmetric] le_diff_conv2 Suc_leI)
  then show ?thesis by (metis of_nat_less_iff of_nat_numeral of_nat_power)
qed

lemma nat_le_pow: "(m :: nat) \<le> 2 ^ k \<longleftrightarrow> - (2 ^ k) \<le> - int m"
proof -
  have "m \<le> 2 ^ k \<longleftrightarrow> int m \<le> 2 ^ k" by (metis of_nat_le_iff of_nat_numeral of_nat_power)
  then show ?thesis by simp
qed

lemma neg_pow_le_nat: "- ((2::int) ^ k) \<le> int m"
  by (rule order_trans [of _ 0]) simp_all

lemma neg_nat_less_pow: "- int m < (2::int) ^ k"
  by (rule order_le_less_trans [of _ 0]) simp_all

lemma literal_limit_exact:
  assumes "0 < ty_size (attrs t)" "ty_size (attrs t) \<le> 64" "\<not> (negated \<and> \<not> ty_sign (attrs t))"
  shows "\<exists>limit. literal_limit (ty_size (attrs t)) (ty_sign (attrs t)) negated = Some limit
     \<and> limit \<le> UINT64_MAX \<and> (literal_value v \<le> limit \<longleftrightarrow> in_type_range t (signed_literal negated v))"
proof -
  define bits where "bits = ty_size (attrs t)"
  define limit where "limit = (if ty_sign (attrs t) then (if negated then 2 ^ (bits - 1) else 2 ^ (bits - 1) - 1)
                               else 2 ^ bits - 1 :: nat)"
  have "literal_limit bits (ty_sign (attrs t)) negated = Some limit"
    using assms by (auto simp: literal_limit_def limit_def bits_def UINT64_MAX_def)
  moreover have "limit \<le> UINT64_MAX"
  proof -
    have "(2::nat) ^ (bits - 1) \<le> 2 ^ 63" "(2::nat) ^ bits \<le> 2 ^ 64"
      using assms unfolding bits_def by (intro power_increasing; linarith)+
    then show ?thesis by (auto simp: limit_def UINT64_MAX_def)
  qed
  moreover have "literal_value v \<le> limit \<longleftrightarrow> in_type_range t (signed_literal negated v)"
    using assms(3) nat_le_pow_minus [of "literal_value v"] nat_le_pow [of "literal_value v" "bits - 1"]
    by (auto simp: limit_def in_type_range_def signed_literal_def bits_def neg_pow_le_nat neg_nat_less_pow)
  ultimately show ?thesis unfolding bits_def by blast
qed

section \<open>Accepted literals\<close>

definition rejecting_mode :: "type_t \<Rightarrow> overflow_mode \<Rightarrow> bool" where
  "rejecting_mode t lmode \<longleftrightarrow>
     (if overflowMode (attrs t) \<noteq> OM_None then overflowMode (attrs t) else lmode) \<in> {OM_Trapped, OM_Checked}"

lemma check_literal_range_exact:
  assumes "kind t = TK_INTEGER" "0 < ty_size (attrs t)" "ty_size (attrs t) \<le> 64"
    and "literal_of e = Some (v, lmode, negated)" "\<not> (negated \<and> \<not> ty_sign (attrs t))"
    and "well_formed_literal v" "rejecting_mode t lmode"
  shows "check_literal_range t e loc =
     (if in_type_range t (signed_literal negated v) then Accepted []
      else reject loc (''integer literal '' @ (if negated then ''-'' else []) @ v
             @ '' overflows '' @ quoted (toHumanString t)))"
proof -
  obtain limit where limit: "literal_limit (ty_size (attrs t)) (ty_sign (attrs t)) negated = Some limit"
    "limit \<le> UINT64_MAX" "literal_value v \<le> limit \<longleftrightarrow> in_type_range t (signed_literal negated v)"
    using literal_limit_exact [OF assms(2,3,5)] by blast
  have "ty_kind (attrs t) = TK_INTEGER" using assms(1) by (cases t) simp
  then show ?thesis
    using assms(2-7) limit literal_magnitude_value [OF assms(6)]
    by (auto simp: check_literal_range_def rejecting_mode_def Let_def)
qed

lemma foldl_zero_digits:
  assumes "0 < radix" "list_all (is_radix_digit radix) ds"
  shows "digits_value radix m ds = 0 \<longleftrightarrow> m = 0 \<and> list_all (\<lambda>ch. ch = CHR ''0'') ds"
  using assms(2)
proof (induction ds arbitrary: m)
  case (Cons ch cs)
  have "nat (digit_of ch) = 0 \<longleftrightarrow> ch = CHR ''0''"
  proof -
    have "digit_of ch = 0 \<longleftrightarrow> (of_char ch :: int) = of_char (CHR ''0'')"
      by (auto simp: digit_of_def Let_def split: if_splits)
    then have "digit_of ch = 0 \<longleftrightarrow> ch = CHR ''0''" by (simp only: of_char_eq_iff)
    with Cons.prems show ?thesis by (auto simp: is_radix_digit_def)
  qed
  with Cons assms(1) show ?case by auto
qed simp

text \<open>A well-formed literal is the zero literal exactly when it stands for the number zero.\<close>

lemma is_zero_literal_iff:
  assumes "literal_of e = Some (v, lmode, negated)" "well_formed_literal v"
  shows "is_zero_literal e \<longleftrightarrow> literal_value v = 0"
proof -
  obtain radix ds where s: "split_literal v = (radix, ds)" by force
  have "0 < radix" using split_literal_radix [OF s] by auto
  with assms s have "literal_value v = 0 \<longleftrightarrow> ds \<noteq> [] \<and> list_all (\<lambda>ch. ch = CHR ''0'') ds"
    by (simp add: literal_value_def well_formed_literal_def foldl_zero_digits)
  moreover have "is_zero_literal e \<longleftrightarrow> ds \<noteq> [] \<and> list_all (\<lambda>ch. ch = CHR ''0'') ds"
    using assms(1) s unfolding is_zero_literal_def split_literal_def Let_def
    by (auto split: if_splits)
  ultimately show ?thesis by blast
qed

lemma and_then_accepted:
  "and_then r s = Accepted ws \<longleftrightarrow> (\<exists>us vs. r = Accepted us \<and> s = Accepted vs \<and> ws = us @ vs)"
  by (cases r; cases s) (auto simp: and_then_def)

text \<open>C25: the literal check is exact. For a target of an integer type of one bit or more and a literal of
  decimal, hexadecimal or binary digits, however many, with or without a minus sign in front, the
  check rejects the literal, with a type mismatch at the location of the assignment that names the
  literal and the type, exactly when the type has at most 64 bits, its overflow mode (or, where it has
  none, the mode of the literal) is trapped or checked, the number the literal stands for is not a
  value of the type, and the literal is not a negated one for an unsigned type. Everything else is
  accepted here: in particular no literal is too large for a trapped type of more than 64 bits, and no
  negated literal is refused by this check for an unsigned type.
\<close>

theorem literal_range_exact:
  assumes "kind t = TK_INTEGER" "0 < ty_size (attrs t)"
    and "literal_of e = Some (v, lmode, negated)" "well_formed_literal v"
  shows "check_literal_range t e loc =
     (if ty_size (attrs t) \<le> 64 \<and> rejecting_mode t lmode \<and> \<not> (negated \<and> \<not> ty_sign (attrs t))
         \<and> \<not> in_type_range t (signed_literal negated v)
      then Rejected (Compile_Error TYPE_MISMATCH (''integer literal '' @ (if negated then ''-'' else []) @ v
             @ '' overflows '' @ quoted (toHumanString t)) loc)
      else Accepted [])"
proof (cases "ty_size (attrs t) \<le> 64 \<and> \<not> (negated \<and> \<not> ty_sign (attrs t))")
  case False
  then show ?thesis using assms(3) by (auto simp: check_literal_range_def Let_def)
next
  case True
  show ?thesis
  proof (cases "rejecting_mode t lmode")
    case mode: True
    show ?thesis
      using check_literal_range_exact [OF assms(1,2) _ assms(3) _ assms(4) mode] True mode by (simp add: reject_def)
  next
    case False
    moreover obtain limit where "literal_limit (ty_size (attrs t)) (ty_sign (attrs t)) negated = Some limit"
      using literal_limit_exact [OF assms(2)] True by blast
    ultimately show ?thesis
      using True assms(3) by (auto simp: check_literal_range_def rejecting_mode_def Let_def split: magnitude.split)
  qed
qed

theorem literal_range_exact_witness:
  "\<exists>msg. check_literal_range (integer_type 8 True OM_Trapped)
      (E_Unary T_MINUS (E_IntegerLiteral ''129'' True OM_None no_location) no_location) no_location
      = Rejected (Compile_Error TYPE_MISMATCH msg no_location)"
proof -
  have "\<not> in_type_range (integer_type 8 True OM_Trapped) (signed_literal True ''129'')"
    by (simp add: in_type_range_def signed_literal_def literal_value_def split_literal_def
        without_separators_def digit_of_def integer_type_def new_attrs_def)
  then show ?thesis
    using literal_range_exact [of "integer_type 8 True OM_Trapped" "E_Unary T_MINUS (E_IntegerLiteral ''129'' True OM_None no_location) no_location"
        "''129''" OM_None True no_location]
    by (auto simp: integer_type_def new_attrs_def well_formed_literal_def split_literal_def
        without_separators_def is_radix_digit_def digit_of_def rejecting_mode_def)
qed

text \<open>What an accepted literal is. Where the whole check of an assignment accepts a well-formed
  literal for an integer type of 1 to 64 bits that traps or checks overflow, the number is a value
  of the type, an unsigned type never gets a negated literal, and a non-zero type never gets zero.\<close>

theorem accepted_literal_sound:
  assumes "checkTypeCompatibility c t e loc = Accepted ws"
    and "kind t = TK_INTEGER" "0 < ty_size (attrs t)" "ty_size (attrs t) \<le> 64"
    and "literal_of e = Some (v, lmode, negated)" "well_formed_literal v" "rejecting_mode t lmode"
  shows "in_type_range t (signed_literal negated v) \<and> (negated \<longrightarrow> ty_sign (attrs t))
     \<and> (nonZero (attrs t) \<longrightarrow> signed_literal negated v \<noteq> 0)"
proof -
  have e: "\<not> is_null_literal e" using assms(5) by (auto simp: is_null_literal_def split: expression.splits)
  have nz: "check_nonzero_literal t e loc = Accepted []"
    and range: "\<exists>us. check_literal_range t e loc = Accepted us"
    and inf: "\<exists>us. check_inferred c t e loc = Accepted us"
    using assms(1) e unfolding checkTypeCompatibility_def
    by (auto simp: and_then_accepted check_nonzero_literal_def reject_def split: if_splits)
  have "negated \<longrightarrow> ty_sign (attrs t)"
  proof
    assume "negated"
    then obtain sg l l' where "e = E_Unary T_MINUS (E_IntegerLiteral v sg lmode l) l'"
      using assms(5) by (cases e) (auto split: if_splits expression.splits)
    then show "ty_sign (attrs t)"
      using inf assms(2)
      by (auto simp: check_inferred_def resolve_transparent_def and_then_accepted check_signs_def
          is_negation_def reject_def set_attrs_def integer_type_def new_attrs_def Let_def split: if_splits)
  qed
  moreover from this have "in_type_range t (signed_literal negated v)"
    using range check_literal_range_exact [OF assms(2-5) _ assms(6,7), of loc]
    by (auto simp: reject_def split: if_splits)
  moreover have "nonZero (attrs t) \<longrightarrow> signed_literal negated v \<noteq> 0"
    using nz assms(2) is_zero_literal_iff [OF assms(5,6)]
    by (auto simp: check_nonzero_literal_def reject_def signed_literal_def split: if_splits)
  ultimately show ?thesis by blast
qed

definition example_context :: bind_ctx where
  "example_context = \<lparr>bc_table = new_symtab, bc_structName = [], bc_stdLib = False\<rparr>"

theorem accepted_literal_sound_witness:
  "in_type_range (integer_type 8 False OM_Checked) (signed_literal False ''0xF_F'')"
  by (rule accepted_literal_sound [where c = example_context and loc = no_location and ws = "[]"
        and e = "E_IntegerLiteral ''0xF_F'' False OM_None no_location" and lmode = OM_None, THEN conjunct1])
    (simp_all add: integer_type_def new_attrs_def well_formed_literal_def split_literal_def
      without_separators_def is_radix_digit_def digit_of_def rejecting_mode_def
      checkTypeCompatibility_def is_null_literal_def check_nonzero_literal_def and_then_def check_async_call_def
      check_literal_range_def literal_magnitude_def literal_limit_def UINT64_MAX_def
      check_inferred_def resolve_transparent_def check_nonzero_source_def check_signs_def
      is_floating_def check_elements_def is_reference_def Let_def)

end
