(* ===== verification/Parser_State.thy ===== *)
theory Parser_State
  imports Token_Strings Lexer Types Ownership Ast Doubles
begin

text \<open>
  The token stream of \<^verbatim>\<open>class Parser\<close> (\<^verbatim>\<open>parser/Parser.cpp\<close>), its scopes (\<^verbatim>\<open>parser/ast/Scope.h\<close>) and
  the macros it knows. A parse function maps a state to an outcome. \<open>P_Error\<close> is an error that has
  been emitted and is thrown as a \<^verbatim>\<open>CompileError\<close>, with the state the parser is left in; \<open>P_Raise\<close> is an
  exception no parse function catches; \<open>P_Abort\<close> is a failed assertion; \<open>P_Undefined\<close> is an access
  outside the token vector; \<open>P_Fuel\<close> is the recursion bound of the model, which has no counterpart in
  the code. Warnings, which are emitted without stopping, are kept in the state, and so are the values
  the coming calls of \<^verbatim>\<open>rand\<close> give.
\<close>

section \<open>Scopes\<close>

record parse_scope =
  sc_structs :: "string \<rightharpoonup> type_t"
  sc_variables :: "string \<rightharpoonup> type_t"

definition new_parse_scope :: parse_scope where
  "new_parse_scope = \<lparr>sc_structs = Map.empty, sc_variables = Map.empty\<rparr>"

text \<open>A scope with its parents, innermost first.\<close>

type_synonym parse_scopes = "parse_scope list"

definition define_variable :: "string \<Rightarrow> type_t \<Rightarrow> parse_scopes \<Rightarrow> parse_scopes" where
  "define_variable n t scs = (hd scs)\<lparr>sc_variables := (sc_variables (hd scs))(n \<mapsto> copy_type t)\<rparr> # tl scs"

definition define_struct :: "string \<Rightarrow> type_t \<Rightarrow> parse_scopes \<Rightarrow> parse_scopes" where
  "define_struct n t scs = (hd scs)\<lparr>sc_structs := (sc_structs (hd scs))(n \<mapsto> copy_type t)\<rparr> # tl scs"

fun lookup_variable :: "string \<Rightarrow> parse_scopes \<Rightarrow> type_t option" where
  "lookup_variable n [] = None"
| "lookup_variable n (s # ps) =
     (case sc_variables s n of Some t \<Rightarrow> Some t | None \<Rightarrow> lookup_variable n ps)"

fun lookup_struct :: "string \<Rightarrow> parse_scopes \<Rightarrow> type_t option" where
  "lookup_struct n [] = None"
| "lookup_struct n (s # ps) =
     (case sc_structs s n of Some t \<Rightarrow> Some t | None \<Rightarrow> lookup_struct n ps)"

definition has_variable_in_current_scope :: "string \<Rightarrow> parse_scopes \<Rightarrow> bool" where
  "has_variable_in_current_scope n scs \<longleftrightarrow> sc_variables (hd scs) n \<noteq> None"

definition has_struct_in_current_scope :: "string \<Rightarrow> parse_scopes \<Rightarrow> bool" where
  "has_struct_in_current_scope n scs \<longleftrightarrow> sc_structs (hd scs) n \<noteq> None"

fun has_struct_declared :: "string \<Rightarrow> parse_scopes \<Rightarrow> bool" where
  "has_struct_declared n [] \<longleftrightarrow> False"
| "has_struct_declared n (s # ps) \<longleftrightarrow> sc_structs s n \<noteq> None \<or> has_struct_declared n ps"

section \<open>Macros\<close>

datatype macro_fragment_type =
    MF_EXPRESSION | MF_IDENTIFIER | MF_LITERAL | MF_TYPE | MF_BLOCK | MF_LITERAL_TOKEN

record macro_parameter =
  mp_fragment :: macro_fragment_type
  mp_name :: ident
  mp_isLocal :: bool
  mp_literal :: string

record macro_rule =
  mr_parameters :: "macro_parameter list"
  mr_body :: "token list"
  mr_location :: source_location
  mr_isVoid :: bool

record macro_declaration =
  md_name :: ident
  md_rules :: "macro_rule list"
  md_location :: source_location

record macro_expansion =
  mx_name :: string
  mx_args :: string
  mx_text :: string
  mx_line :: nat

section \<open>States and outcomes\<close>

record parser_state =
  ps_tokens :: "token list"
  ps_current :: nat
  pendingGreater :: nat
  ps_scopes :: parse_scopes
  ps_macros :: "string \<rightharpoonup> macro_declaration"
  macroExpansions :: "macro_expansion list"
  macroExpansionCounter :: nat
  destructureCounter :: nat
  anonRangeCounter :: nat
  ps_random :: "nat \<Rightarrow> nat"
  ps_warnings :: "diagnostic list"

definition new_parser :: "token list \<Rightarrow> parser_state" where
  "new_parser toks =
     \<lparr>ps_tokens = toks, ps_current = 0, pendingGreater = 0, ps_scopes = [new_parse_scope],
      ps_macros = Map.empty, macroExpansions = [], macroExpansionCounter = 0, destructureCounter = 0,
      anonRangeCounter = 0, ps_random = (\<lambda>i. i), ps_warnings = []\<rparr>"

text \<open>What leaves a parse function besides a \<^verbatim>\<open>CompileError\<close>: the exceptions of the type names, of the
  scanner and of \<^verbatim>\<open>std::stoll\<close> and \<^verbatim>\<open>std::stod\<close>, and of the places that throw a \<^verbatim>\<open>std::runtime_error\<close>.\<close>

datatype escape =
  Esc_Type type_error | Esc_Lex lex_error | Esc_Conversion conversion_error | Esc_Runtime string

datatype 'a outcome =
    P_Ok 'a parser_state
  | P_Error compile_error parser_state
  | P_Raise escape
  | P_Abort
  | P_Undefined
  | P_Fuel

type_synonym 'a parser = "parser_state \<Rightarrow> 'a outcome"

definition ret :: "'a \<Rightarrow> 'a parser" where
  "ret x st = P_Ok x st"

definition pbind :: "'a parser \<Rightarrow> ('a \<Rightarrow> 'b parser) \<Rightarrow> 'b parser" where
  "pbind p f st =
     (case p st of
        P_Ok x st' \<Rightarrow> f x st'
      | P_Error e st' \<Rightarrow> P_Error e st'
      | P_Raise e \<Rightarrow> P_Raise e
      | P_Abort \<Rightarrow> P_Abort
      | P_Undefined \<Rightarrow> P_Undefined
      | P_Fuel \<Rightarrow> P_Fuel)"

definition p_if :: "bool parser \<Rightarrow> 'a parser \<Rightarrow> 'a parser \<Rightarrow> 'a parser" where
  "p_if c p q = pbind c (\<lambda>b. if b then p else q)"

text \<open>The bound of a loop that consumes a token in each round.\<close>

definition with_rounds :: "(nat \<Rightarrow> 'a parser) \<Rightarrow> 'a parser" where
  "with_rounds f st = f (Suc (length (ps_tokens st))) st"

definition parser_error :: "nat \<Rightarrow> string \<Rightarrow> source_location \<Rightarrow> 'a parser" where
  "parser_error code msg loc st = P_Error (Compile_Error code msg loc) st"

definition lift_raise :: "type_error + 'a \<Rightarrow> 'a parser" where
  "lift_raise r st = (case r of Inl e \<Rightarrow> P_Raise (Esc_Type e) | Inr x \<Rightarrow> P_Ok x st)"

definition runtime_error :: "string \<Rightarrow> 'a parser" where
  "runtime_error msg st = P_Raise (Esc_Runtime msg)"

definition UNEXPECTED_TOKEN :: nat where "UNEXPECTED_TOKEN = 2001"
definition EXPECTED_EXPRESSION :: nat where "EXPECTED_EXPRESSION = 2002"
definition MACRO_POSSIBLE_SIDE_EFFECT :: nat where "MACRO_POSSIBLE_SIDE_EFFECT = 6001"
definition INVALID_TYPE :: nat where "INVALID_TYPE = 4001"

definition at_position :: "position \<Rightarrow> nat \<Rightarrow> source_location" where
  "at_position p len =
     \<lparr>loc_fileId = p_fileId p, loc_line = unat (p_line p), loc_column = unat (p_column p),
      loc_length = cast_u32 len\<rparr>"

abbreviation token_location :: "token \<Rightarrow> source_location" where
  "token_location t \<equiv> at_position (t_position t) (length (t_value t))"

definition registerKnownType :: "string \<Rightarrow> unit parser" where
  "registerKnownType n st = P_Ok () (st\<lparr>ps_scopes := define_struct n (struct_type n) (ps_scopes st)\<rparr>)"

definition p_pushScope :: "unit parser" where
  "p_pushScope st = P_Ok () (st\<lparr>ps_scopes := new_parse_scope # ps_scopes st\<rparr>)"

definition p_popScope :: "unit parser" where
  "p_popScope st =
     (if tl (ps_scopes st) = []
      then parser_error UNEXPECTED_TOKEN ''tentativa de sair do escopo global'' no_location st
      else P_Ok () (st\<lparr>ps_scopes := tl (ps_scopes st)\<rparr>))"

section \<open>Tokens\<close>

definition p_peek :: "token parser" where
  "p_peek st =
     (if ps_current st < length (ps_tokens st) then P_Ok (ps_tokens st ! ps_current st) st else P_Undefined)"

definition p_previous :: "token parser" where
  "p_previous st =
     (if 0 < ps_current st \<and> ps_current st \<le> length (ps_tokens st)
      then P_Ok (ps_tokens st ! (ps_current st - 1)) st else P_Undefined)"

definition p_isAtEnd :: "bool parser" where
  "p_isAtEnd = pbind p_peek (\<lambda>t. ret (t_type t = T_END_OF_FILE))"

definition p_step :: "unit parser" where
  "p_step st = P_Ok () (st\<lparr>ps_current := ps_current st + 1\<rparr>)"

definition p_advance :: "token parser" where
  "p_advance = pbind p_isAtEnd (\<lambda>e. pbind (if e then ret () else p_step) (\<lambda>_. p_previous))"

definition p_check :: "token_type \<Rightarrow> bool parser" where
  "p_check ty st =
     (if ty = T_GREATER \<and> 0 < pendingGreater st then P_Ok True st
      else pbind p_isAtEnd (\<lambda>e. if e then ret False else pbind p_peek (\<lambda>t. ret (t_type t = ty))) st)"

definition p_take_pending :: "unit parser" where
  "p_take_pending st = P_Ok () (st\<lparr>pendingGreater := pendingGreater st - 1\<rparr>)"

definition p_match :: "token_type \<Rightarrow> bool parser" where
  "p_match ty st =
     (if ty = T_GREATER \<and> 0 < pendingGreater st then pbind p_take_pending (\<lambda>_. ret True) st
      else pbind (p_check ty) (\<lambda>b. if b then pbind p_advance (\<lambda>_. ret True) else ret False) st)"

fun p_check_any :: "token_type list \<Rightarrow> bool parser" where
  "p_check_any [] st = P_Ok False st"
| "p_check_any (ty # tys) st = pbind (p_check ty) (\<lambda>b. if b then ret True else p_check_any tys) st"

text \<open>The error of a failed \<^verbatim>\<open>expect\<close>, placed behind the previous token.\<close>

definition p_unexpected :: "string \<Rightarrow> token parser" where
  "p_unexpected msg =
     pbind p_previous (\<lambda>prev. pbind p_peek (\<lambda>t.
       parser_error UNEXPECTED_TOKEN (msg @ '', recieved '' @ quoted (tokenTypeToHumanString (t_type t)))
         \<lparr>loc_fileId = p_fileId (t_position prev), loc_line = unat (p_line (t_position prev)),
          loc_column = cast_u32 (unat (p_column (t_position prev)) + length (t_value prev)),
          loc_length = 1\<rparr>))"

definition p_split_greater :: "token parser" where
  "p_split_greater st = p_advance (st\<lparr>pendingGreater := pendingGreater st + 1\<rparr>)"

definition p_expect :: "string \<Rightarrow> token_type \<Rightarrow> token parser" where
  "p_expect msg ty st =
     (if ty = T_GREATER \<and> 0 < pendingGreater st then pbind p_take_pending (\<lambda>_. p_previous) st
      else pbind (p_check ty) (\<lambda>b.
        if b then p_advance
        else pbind (if ty = T_GREATER then p_check T_GREATER_GREATER else ret False) (\<lambda>gg.
          if gg then p_split_greater else p_unexpected msg)) st)"

fun p_expect_any :: "string \<Rightarrow> token_type list \<Rightarrow> token parser" where
  "p_expect_any msg [] st = p_unexpected msg st"
| "p_expect_any msg (ty # tys) st =
     pbind (p_check ty) (\<lambda>b. if b then p_advance else p_expect_any msg tys) st"

section \<open>Positions and locations\<close>

definition p_mark :: "nat parser" where
  "p_mark st = P_Ok (ps_current st) st"

definition p_reset :: "nat \<Rightarrow> unit parser" where
  "p_reset n st = P_Ok () (st\<lparr>ps_current := n\<rparr>)"

text \<open>Whether there is a token behind the current one and it has one of the types.\<close>

definition p_next_is :: "token_type list \<Rightarrow> bool parser" where
  "p_next_is tys st =
     P_Ok (ps_current st + 1 < length (ps_tokens st)
           \<and> t_type (ps_tokens st ! (ps_current st + 1)) \<in> set tys) st"

fun p_match_any :: "token_type list \<Rightarrow> bool parser" where
  "p_match_any [] = ret False"
| "p_match_any (ty # tys) = p_if (p_match ty) (ret True) (p_match_any tys)"

definition p_define :: "string \<Rightarrow> type_t \<Rightarrow> unit parser" where
  "p_define n t st = P_Ok () (st\<lparr>ps_scopes := define_variable n t (ps_scopes st)\<rparr>)"

definition p_is_variable :: "string \<Rightarrow> bool parser" where
  "p_is_variable n st = P_Ok (lookup_variable n (ps_scopes st) \<noteq> None) st"

definition p_is_struct :: "string \<Rightarrow> bool parser" where
  "p_is_struct n st = P_Ok (has_struct_declared n (ps_scopes st)) st"

definition here :: "source_location parser" where
  "here = pbind p_peek (\<lambda>t. ret (token_location t))"

definition behind :: "source_location parser" where
  "behind = pbind p_previous (\<lambda>t. ret (token_location t))"

definition spanned :: "source_location \<Rightarrow> source_location \<Rightarrow> source_location parser" where
  "spanned stop start st = (case location_span stop start of Some l \<Rightarrow> P_Ok l st | None \<Rightarrow> P_Abort)"

text \<open>\<^verbatim>\<open>makeSourceIdentifier\<close>: an empty name fails the assertion of the constructor.\<close>

definition named_ident :: "string \<Rightarrow> source_location \<Rightarrow> ident parser" where
  "named_ident n loc st = (if n = [] then P_Abort else P_Ok \<lparr>token_name = n, id_location = loc\<rparr> st)"

definition makeSourceIdentifier :: "token \<Rightarrow> ident parser" where
  "makeSourceIdentifier t = named_ident (t_value t) (token_location t)"

end
