(* ===== verification/Parser_Types.thy ===== *)
theory Parser_Types
  imports Parser_State
begin

text \<open>
  Types in the parser (\<^verbatim>\<open>parser/Parser.cpp\<close>): which words are types, \<^verbatim>\<open>parse_type\<close>, error recovery,
  and the declarations that consist of names and types only. Every loop consumes a token in each
  round, so a fuel of one more than the number of tokens is never used up.
\<close>

section \<open>Words that are types\<close>

definition string_to_type_kind :: "string list" where
  "string_to_type_kind = [''f16'', ''f32'', ''f64'', ''f128'', ''void'', ''auto'', ''var'', ''struct'']"

definition is_int_name :: "string \<Rightarrow> type_error + bool" where
  "is_int_name v = (case parse_integer_type_name v of Inl e \<Rightarrow> Inl e | Inr n \<Rightarrow> Inr (n \<noteq> None))"

definition isPrimitiveType :: "string \<Rightarrow> type_error + bool" where
  "isPrimitiveType v =
     (if v = ''void'' \<or> v = ''auto'' \<or> v = ''var'' then Inr True
      else if v = ''nfloat'' \<or> v = ''ndouble'' then Inr True
      else if starts_with ''nint'' v then is_int_name v
      else if starts_with ''f'' v \<and> v \<in> set string_to_type_kind then Inr True
      else if (starts_with ''i'' v \<or> starts_with ''u'' v) \<and> 1 < length v then is_int_name v
      else Inr False)"

definition is_int_suffix :: "char \<Rightarrow> bool" where
  "is_int_suffix c \<longleftrightarrow> c \<in> set ''wtcsn''"

definition isFloatWithIntSuffix :: "string \<Rightarrow> bool" where
  "isFloatWithIntSuffix v \<longleftrightarrow>
     starts_with ''f'' v \<and> 3 < length v \<and> is_int_suffix (last v) \<and> butlast v \<in> set string_to_type_kind"

definition isType_token :: "token \<Rightarrow> parse_scopes \<Rightarrow> type_error + bool" where
  "isType_token t scs =
     (let v = t_value t in
      if t_type t = T_AUTO \<or> t_type t = T_VOID then Inr True
      else if t_type t \<noteq> T_IDENTIFIER then Inr False
      else if v = ''ptr'' then Inr True
      else if v = ''nfloat'' \<or> v = ''ndouble'' then Inr True
      else if starts_with ''nint'' v then is_int_name v
      else if starts_with ''f'' v then Inr (v \<in> set string_to_type_kind \<or> isFloatWithIntSuffix v)
      else if starts_with ''i'' v \<or> starts_with ''u'' v then is_int_name v
      else if has_struct_declared v scs then Inr True
      else Inr (v = ''void'' \<or> v = ''auto'' \<or> v = ''var''))"

definition isType :: "bool parser" where
  "isType = pbind p_peek (\<lambda>t st. lift_raise (isType_token t (ps_scopes st)) st)"

section \<open>Recovery\<close>

definition is_declaration_start :: "token_type \<Rightarrow> bool" where
  "is_declaration_start ty \<longleftrightarrow>
     ty = T_IMPORT \<or> ty = T_EXTERN \<or> ty = T_NAMESPACE \<or> ty = T_ENUM \<or> ty = T_INTERFACE
     \<or> ty = T_STRUCT \<or> ty = T_LBRACKET"

fun synchronize_loop :: "nat \<Rightarrow> unit parser" where
  "synchronize_loop 0 = (\<lambda>st. P_Fuel)"
| "synchronize_loop (Suc k) =
     pbind p_isAtEnd (\<lambda>e. if e then ret ()
       else pbind p_peek (\<lambda>t. if is_declaration_start (t_type t) then ret ()
         else pbind isType (\<lambda>b. if b then ret ()
           else pbind p_advance (\<lambda>_. synchronize_loop k))))"

definition synchronize :: "unit parser" where
  "synchronize st = synchronize_loop (Suc (length (ps_tokens st))) st"

section \<open>Types\<close>

text \<open>The messages are UTF-8.\<close>

definition after_word :: string where
  "after_word = ''ap'' @ [CHR 0xC3, CHR 0xB3] @ ''s''"

definition expected_bracket :: string where
  "expected_bracket = ''Expected '' @ quoted '']'' @ '' after '' @ quoted ''[''"

definition expected_pointee_close :: string where
  "expected_pointee_close = ''Esperado '' @ quoted ''>'' @ '' '' @ after_word @ '' o tipo de ptr<T>''"

definition expected_args_close :: string where
  "expected_args_close =
     ''Esperado '' @ quoted ''>'' @ '' '' @ after_word @ '' argumentos gen'' @ [CHR 0xC3, CHR 0xA9] @ ''ricos''"

definition named_integer :: "integer_type_name \<Rightarrow> type_t" where
  "named_integer n =
     (let t = (if itn_native n then native_integer else integer_type (itn_bits n) (itn_sign n) OM_None)
      in Type ((attrs t)\<lparr>overflowMode := itn_mode n, nonZero := itn_nonZero n\<rparr>) (elementType t) (genericArgs t))"

definition float_of_name :: "string \<Rightarrow> type_error + type_t" where
  "float_of_name v = (case stol_digits (tl v) of Inl e \<Rightarrow> Inl e | Inr bits \<Rightarrow> floating bits)"

text \<open>The type a word stands for; the argument is what follows the word \<^verbatim>\<open>ptr\<close>.\<close>

definition base_of_word :: "type_t parser \<Rightarrow> token \<Rightarrow> type_t parser" where
  "base_of_word ptr t =
     (let v = t_value t in
      if v = ''nfloat'' then lift_raise (native_floating 32)
      else if v = ''ndouble'' then lift_raise (native_floating 64)
      else if starts_with ''f'' v \<and> v \<in> set string_to_type_kind then lift_raise (float_of_name v)
      else if starts_with ''f'' v \<and> 3 < length v \<and> is_int_suffix (last v) \<and> butlast v \<in> set string_to_type_kind
      then parser_error INVALID_TYPE (''suffix '' @ quoted [last v] @ '' is only valid on integer types'')
             (at_position (t_position t) (length v))
      else pbind (lift_raise (parse_integer_type_name v)) (\<lambda>n.
        case n of
          Some i \<Rightarrow> ret (named_integer i)
        | None \<Rightarrow>
            if t_type t = T_IDENTIFIER \<and> v = ''ptr'' then ptr
            else if v = ''void'' \<or> t_type t = T_VOID then ret voided
            else if v = ''auto'' \<or> v = ''var'' \<or> t_type t = T_AUTO then ret auto_type
            else ret (struct_type v)))"

fun parse_stars :: "nat \<Rightarrow> type_t \<Rightarrow> type_t parser" where
  "parse_stars 0 t = (\<lambda>st. P_Fuel)"
| "parse_stars (Suc k) t = pbind (p_match T_STAR) (\<lambda>b. if b then parse_stars k (pointer_type t) else ret t)"

definition with_args :: "type_t list \<Rightarrow> type_t \<Rightarrow> type_t" where
  "with_args args t = Type (attrs t) (elementType t) args"

definition with_nullable :: "type_t \<Rightarrow> type_t" where
  "with_nullable t = Type ((attrs t)\<lparr>nullable := True\<rparr>) (elementType t) (genericArgs t)"

definition parse_suffixes :: "nat \<Rightarrow> type_t \<Rightarrow> type_t parser" where
  "parse_suffixes k t =
     pbind (parse_stars k t) (\<lambda>t.
     pbind (pbind (p_match T_LBRACKET) (\<lambda>b.
              if b then pbind (p_expect expected_bracket T_RBRACKET)
                          (\<lambda>_. ret (array_type t))
              else ret t)) (\<lambda>t.
     pbind (p_match T_QUESTION) (\<lambda>b. ret (if b then with_nullable t else t))))"

text \<open>What may follow \<^verbatim>\<open>ptr\<close>, and the generic arguments of a struct; both call the parser of types.\<close>

definition parse_pointee :: "type_t parser \<Rightarrow> type_t parser" where
  "parse_pointee p =
     pbind (p_match T_LESS) (\<lambda>b.
       if b then pbind p (\<lambda>t. pbind (p_expect expected_pointee_close T_GREATER) (\<lambda>_. ret (pointer_type t)))
       else ret (pointer_type voided))"

definition parse_arguments :: "type_t list parser \<Rightarrow> type_t \<Rightarrow> type_t parser" where
  "parse_arguments p t =
     (if kind t = TK_STRUCT
      then pbind (p_match T_LESS) (\<lambda>b.
             if b then pbind p (\<lambda>args. pbind (p_expect expected_args_close T_GREATER) (\<lambda>_. ret (with_args args t)))
             else ret t)
      else ret t)"

fun parse_type_rec :: "nat \<Rightarrow> type_t parser" and parse_type_args :: "nat \<Rightarrow> type_t list \<Rightarrow> type_t list parser" where
  "parse_type_rec 0 = (\<lambda>st. P_Fuel)"
| "parse_type_rec (Suc k) =
     pbind (p_expect_any ''Expected a type'' [T_IDENTIFIER, T_VOID, T_AUTO]) (\<lambda>w.
     pbind (base_of_word (parse_pointee (parse_type_rec k)) w) (\<lambda>t.
     pbind (parse_arguments (parse_type_args k []) t) (\<lambda>t.
     parse_suffixes k t)))"
| "parse_type_args 0 args = (\<lambda>st. P_Fuel)"
| "parse_type_args (Suc k) args =
     pbind (parse_type_rec k) (\<lambda>t.
     pbind (p_match T_COMMA) (\<lambda>b. if b then parse_type_args k (args @ [t]) else ret (args @ [t])))"

definition parse_type :: "type_t parser" where
  "parse_type st = parse_type_rec (Suc (length (ps_tokens st))) st"

end
