(* ===== verification/Parser_Types_Correct.thy ===== *)
theory Parser_Types_Correct
  imports Parser_Types
begin

text \<open>
  Two views of the parser's handling of types. The weakest preconditions of the token operations
  show that \<^verbatim>\<open>parse_type\<close> always returns, stays inside the token vector and moves forward. A
  grammar of written types, in which every closing bracket counts as one \<^verbatim>\<open>>\<close> even where the scanner
  made \<^verbatim>\<open>>>\<close> of two, gives the round trip, and the condition it needs gives the misparse.
\<close>

section \<open>Weakest preconditions\<close>

definition wp :: "'a parser \<Rightarrow> ('a \<Rightarrow> parser_state \<Rightarrow> bool) \<Rightarrow> (compile_error \<Rightarrow> parser_state \<Rightarrow> bool) \<Rightarrow> parser_state \<Rightarrow> bool" where
  "wp p Q E st =
     (case p st of
        P_Ok x st' \<Rightarrow> Q x st'
      | P_Error e st' \<Rightarrow> E e st'
      | P_Raise e \<Rightarrow> True
      | P_Abort \<Rightarrow> False
      | P_Undefined \<Rightarrow> False
      | P_Fuel \<Rightarrow> False)"

lemma wp_ret [simp]: "wp (ret x) Q E = Q x"
  by (simp add: fun_eq_iff wp_def ret_def)

lemma wp_bind [simp]: "wp (pbind p f) Q E = wp p (\<lambda>x. wp (f x) Q E) E"
  by (simp add: fun_eq_iff wp_def pbind_def split: outcome.split)

lemma wp_error [simp]: "wp (parser_error c m l) Q E st = E (Compile_Error c m l) st"
  by (simp add: wp_def parser_error_def)

lemma wp_lift [simp]: "wp (lift_raise r) Q E st = (case r of Inl e \<Rightarrow> True | Inr x \<Rightarrow> Q x st)"
  by (simp add: wp_def lift_raise_def split: sum.split)

lemma wp_cong: "p st = q st \<Longrightarrow> wp p Q E st = wp q Q E st"
  by (simp add: wp_def)

text \<open>A state whose next token exists, with a token behind it and the end of the file ahead.\<close>

definition parser_ok :: "parser_state \<Rightarrow> bool" where
  "parser_ok st \<longleftrightarrow>
     0 < ps_current st \<and> ps_current st < length (ps_tokens st) \<and> t_type (last (ps_tokens st)) = T_END_OF_FILE"

definition remaining :: "parser_state \<Rightarrow> nat" where
  "remaining st = length (ps_tokens st) - ps_current st"

text \<open>A state that differs from another in the position only.\<close>

definition moved :: "parser_state \<Rightarrow> parser_state \<Rightarrow> bool" where
  "moved st st' \<longleftrightarrow> (\<exists>n p. st' = st\<lparr>ps_current := n, pendingGreater := p\<rparr>)"

lemma moved_refl [simp]: "moved st st"
  unfolding moved_def by (rule exI [of _ "ps_current st"], rule exI [of _ "pendingGreater st"]) simp

lemma moved_trans: "moved st st' \<Longrightarrow> moved st' st'' \<Longrightarrow> moved st st''"
  unfolding moved_def by auto (metis parser_state.surjective parser_state.update_convs(2,3))

lemma moved_step [simp]:
  "moved st (st'\<lparr>ps_current := n\<rparr>) \<longleftrightarrow> moved st st'" "moved st (st'\<lparr>pendingGreater := p\<rparr>) \<longleftrightarrow> moved st st'"
proof -
  have from_step: "moved (st'\<lparr>ps_current := n\<rparr>) st'" "moved (st'\<lparr>pendingGreater := p\<rparr>) st'"
    unfolding moved_def
    by (rule exI [of _ "ps_current st'"], rule exI [of _ "pendingGreater st'"], simp)+
  have to_step: "moved st' (st'\<lparr>ps_current := n\<rparr>)" "moved st' (st'\<lparr>pendingGreater := p\<rparr>)"
    unfolding moved_def
    by (rule exI [of _ n], rule exI [of _ "pendingGreater st'"], simp,
        rule exI [of _ "ps_current st'"], rule exI [of _ p], simp)
  from from_step to_step show "moved st (st'\<lparr>ps_current := n\<rparr>) \<longleftrightarrow> moved st st'"
    "moved st (st'\<lparr>pendingGreater := p\<rparr>) \<longleftrightarrow> moved st st'"
    by (meson moved_trans)+
qed

lemma moved_back [simp]:
  "moved (st\<lparr>ps_current := n\<rparr>) st' \<longleftrightarrow> moved st st'" "moved (st\<lparr>pendingGreater := p\<rparr>) st' \<longleftrightarrow> moved st st'"
  by (metis moved_refl moved_step moved_trans)+

lemma moved_fields:
  assumes "moved st st'"
  shows "ps_tokens st' = ps_tokens st" "ps_scopes st' = ps_scopes st" "ps_macros st' = ps_macros st"
    and "st' = st\<lparr>ps_current := ps_current st', pendingGreater := pendingGreater st'\<rparr>"
  using assms by (auto simp: moved_def)

text \<open>Brackets become pending only where the tokens hold one that can be split.\<close>

definition splits :: "token list \<Rightarrow> bool" where
  "splits ts \<longleftrightarrow> list_ex (\<lambda>t. t_type t = T_GREATER_GREATER) ts"

definition forward :: "parser_state \<Rightarrow> parser_state \<Rightarrow> bool" where
  "forward st st' \<longleftrightarrow>
     parser_ok st' \<and> ps_tokens st' = ps_tokens st \<and> ps_scopes st' = ps_scopes st \<and> moved st st'
     \<and> ps_current st \<le> ps_current st' \<and> (splits (ps_tokens st) \<or> pendingGreater st' \<le> pendingGreater st)"

lemma forward_refl [simp]: "parser_ok st \<Longrightarrow> forward st st"
  by (simp add: forward_def)

lemma forward_trans: "forward st st' \<Longrightarrow> forward st' st'' \<Longrightarrow> forward st st''"
  by (auto simp: forward_def intro: moved_trans)

lemma forward_ok: "forward st st' \<Longrightarrow> parser_ok st'"
  by (simp add: forward_def)

lemma forward_current: "forward st st' \<Longrightarrow> ps_current st \<le> ps_current st'"
  by (simp add: forward_def)

lemma forward_remaining: "forward st st' \<Longrightarrow> remaining st' \<le> remaining st"
  by (auto simp: forward_def remaining_def)

lemma forward_pending:
  "forward st st' \<Longrightarrow> splits (ps_tokens st) \<or> n \<le> pendingGreater st \<Longrightarrow> forward st (st'\<lparr>pendingGreater := n\<rparr>)"
  by (auto simp: forward_def parser_ok_def)

lemma splits_here:
  "parser_ok st \<Longrightarrow> t_type (ps_tokens st ! ps_current st) = T_GREATER_GREATER \<Longrightarrow> splits (ps_tokens st)"
  unfolding splits_def list_ex_iff parser_ok_def by (metis nth_mem)

lemma parser_ok_step:
  assumes "parser_ok st" "t_type (ps_tokens st ! ps_current st) \<noteq> T_END_OF_FILE"
  shows "parser_ok (st\<lparr>ps_current := Suc (ps_current st)\<rparr>)"
proof -
  have "ps_tokens st \<noteq> []" using assms(1) by (auto simp: parser_ok_def)
  then have "ps_current st \<noteq> length (ps_tokens st) - 1"
    using assms by (auto simp: parser_ok_def last_conv_nth)
  with assms show ?thesis by (auto simp: parser_ok_def)
qed

lemma wp_peek [simp]: "parser_ok st \<Longrightarrow> wp p_peek Q E st = Q (ps_tokens st ! ps_current st) st"
  by (simp add: wp_def p_peek_def parser_ok_def)

lemma wp_previous [simp]: "parser_ok st \<Longrightarrow> wp p_previous Q E st = Q (ps_tokens st ! (ps_current st - 1)) st"
  by (simp add: wp_def p_previous_def parser_ok_def)

lemma wp_isAtEnd [simp]:
  "parser_ok st \<Longrightarrow> wp p_isAtEnd Q E st = Q (t_type (ps_tokens st ! ps_current st) = T_END_OF_FILE) st"
  by (simp add: p_isAtEnd_def)

lemma wp_check [simp]:
  assumes "parser_ok st"
  shows "wp (p_check ty) Q E st =
     Q ((ty = T_GREATER \<and> 0 < pendingGreater st)
        \<or> (t_type (ps_tokens st ! ps_current st) \<noteq> T_END_OF_FILE \<and> t_type (ps_tokens st ! ps_current st) = ty)) st"
proof (cases "ty = T_GREATER \<and> 0 < pendingGreater st")
  case True
  then show ?thesis by (simp add: wp_def p_check_def)
next
  case False
  then have "p_check ty st = pbind p_isAtEnd (\<lambda>e. if e then ret False else pbind p_peek (\<lambda>t. ret (t_type t = ty))) st"
    unfolding p_check_def by presburger
  then have "wp (p_check ty) Q E st =
      wp (pbind p_isAtEnd (\<lambda>e. if e then ret False else pbind p_peek (\<lambda>t. ret (t_type t = ty)))) Q E st"
    by (rule wp_cong)
  then show ?thesis using False assms
    by (cases "t_type (ps_tokens st ! ps_current st) = T_END_OF_FILE") auto
qed

lemma wp_advance:
  assumes "parser_ok st" "t_type (ps_tokens st ! ps_current st) \<noteq> T_END_OF_FILE"
  shows "wp p_advance Q E st = Q (ps_tokens st ! ps_current st) (st\<lparr>ps_current := Suc (ps_current st)\<rparr>)"
  using assms parser_ok_step [OF assms] by (simp add: p_advance_def wp_def [of p_step] p_step_def)

lemma wp_match:
  assumes "parser_ok st"
    and "\<And>b st'. forward st st' \<Longrightarrow> (b \<Longrightarrow> ty \<noteq> T_GREATER \<Longrightarrow> ps_current st < ps_current st') \<Longrightarrow> Q b st'"
  shows "wp (p_match ty) Q E st"
proof (cases "ty = T_GREATER \<and> 0 < pendingGreater st")
  case True
  then have "p_match ty st = P_Ok True (st\<lparr>pendingGreater := pendingGreater st - 1\<rparr>)"
    by (simp add: p_match_def p_take_pending_def pbind_def ret_def)
  moreover have "forward st (st\<lparr>pendingGreater := pendingGreater st - 1\<rparr>)"
    using assms(1) by (intro forward_pending) simp_all
  ultimately show ?thesis using True assms by (simp add: wp_def)
next
  case False
  then have "wp (p_match ty) Q E st =
      wp (pbind (p_check ty) (\<lambda>b. if b then pbind p_advance (\<lambda>_. ret True) else ret False)) Q E st"
    unfolding wp_def p_match_def by presburger
  moreover have "forward st (st\<lparr>ps_current := Suc (ps_current st)\<rparr>)"
    if "t_type (ps_tokens st ! ps_current st) \<noteq> T_END_OF_FILE"
    using parser_ok_step [OF assms(1) that] by (simp add: forward_def)
  ultimately show ?thesis
    using False assms by (auto simp: wp_advance)
qed

lemma wp_unexpected:
  "parser_ok st \<Longrightarrow> (\<And>e. E e st) \<Longrightarrow> wp (p_unexpected msg) Q E st"
  by (simp add: p_unexpected_def)

lemma wp_expect:
  assumes "parser_ok st" "ty \<noteq> T_END_OF_FILE"
    and "\<And>t st'. forward st st' \<Longrightarrow> Q t st'" "\<And>e st'. forward st st' \<Longrightarrow> E e st'"
  shows "wp (p_expect msg ty) Q E st"
proof (cases "ty = T_GREATER \<and> 0 < pendingGreater st")
  case True
  then have "wp (p_expect msg ty) Q E st = wp p_previous Q E (st\<lparr>pendingGreater := pendingGreater st - 1\<rparr>)"
    by (simp add: p_expect_def p_take_pending_def pbind_def wp_def)
  moreover have "forward st (st\<lparr>pendingGreater := pendingGreater st - 1\<rparr>)"
    using assms(1) by (intro forward_pending) simp_all
  ultimately show ?thesis using assms(3) by (simp add: forward_ok)
next
  case False
  then have *: "wp (p_expect msg ty) Q E st =
      wp (pbind (p_check ty) (\<lambda>b. if b then p_advance
        else pbind (if ty = T_GREATER then p_check T_GREATER_GREATER else ret False) (\<lambda>gg.
          if gg then p_split_greater else p_unexpected msg))) Q E st"
    unfolding wp_def p_expect_def by presburger
  have step: "forward st (st\<lparr>ps_current := Suc (ps_current st)\<rparr>)"
    if "t_type (ps_tokens st ! ps_current st) \<noteq> T_END_OF_FILE"
    using parser_ok_step [OF assms(1) that] by (simp add: forward_def)
  have split: "wp p_split_greater Q E st" if "t_type (ps_tokens st ! ps_current st) = T_GREATER_GREATER"
  proof -
    let ?st = "st\<lparr>pendingGreater := pendingGreater st + 1\<rparr>"
    have "parser_ok ?st" using assms(1) by (simp add: parser_ok_def)
    moreover have "wp p_split_greater Q E st = wp p_advance Q E ?st"
      by (simp add: wp_def p_split_greater_def)
    moreover have "forward st (?st\<lparr>ps_current := Suc (ps_current st)\<rparr>)"
      using step that splits_here [OF assms(1) that] by (simp add: forward_def parser_ok_def)
    ultimately show ?thesis using that assms(3) by (simp add: wp_advance)
  qed
  show ?thesis
    unfolding * using False assms step split by (auto simp: wp_advance intro: wp_unexpected)
qed

lemma wp_expect_any:
  assumes "parser_ok st" "T_END_OF_FILE \<notin> set tys" "T_GREATER \<notin> set tys"
    and "\<And>t st'. forward st st' \<Longrightarrow> ps_current st < ps_current st' \<Longrightarrow> Q t st'" "\<And>e. E e st"
  shows "wp (p_expect_any msg tys) Q E st"
  using assms(2,3)
proof (induction tys)
  case Nil
  have "wp (p_expect_any msg []) Q E st = wp (p_unexpected msg) Q E st" by (simp add: wp_def)
  then show ?case using assms(1,5) wp_unexpected by simp
next
  case (Cons ty tys)
  have "wp (p_expect_any msg (ty # tys)) Q E st =
      wp (pbind (p_check ty) (\<lambda>b. if b then p_advance else p_expect_any msg tys)) Q E st"
    by (rule wp_cong) simp
  moreover have "forward st (st\<lparr>ps_current := Suc (ps_current st)\<rparr>)"
    if "t_type (ps_tokens st ! ps_current st) \<noteq> T_END_OF_FILE"
    using parser_ok_step [OF assms(1) that] by (simp add: forward_def)
  ultimately show ?case
    using Cons assms(1,4) by (auto simp: wp_advance)
qed

section \<open>Types always parse or fail\<close>

lemma wp_parse_stars:
  assumes "parser_ok st" "remaining st \<le> k" "\<And>t st'. forward st st' \<Longrightarrow> Q t st'"
  shows "wp (parse_stars k t) Q E st"
  using assms
proof (induction k arbitrary: st t)
  case 0
  then show ?case by (simp add: remaining_def parser_ok_def)
next
  case (Suc k)
  show ?case
    unfolding parse_stars.simps wp_bind
  proof (rule wp_match)
    fix b st' assume f: "forward st st'" "b \<Longrightarrow> T_STAR \<noteq> T_GREATER \<Longrightarrow> ps_current st < ps_current st'"
    have "wp (parse_stars k (pointer_type t)) Q E st'" if b
    proof (rule Suc.IH)
      show "parser_ok st'" using f(1) by (rule forward_ok)
      show "remaining st' \<le> k" using f that Suc.prems(1,2) by (auto simp: remaining_def forward_def parser_ok_def)
      show "\<And>t st''. forward st' st'' \<Longrightarrow> Q t st''" using Suc.prems(3) f(1) forward_trans by blast
    qed
    then show "wp (if b then parse_stars k (pointer_type t) else ret t) Q E st'"
      using Suc.prems(3) f(1) by simp
  qed (rule Suc.prems(1))
qed

lemma wp_parse_suffixes:
  assumes "parser_ok st" "remaining st \<le> k"
    and "\<And>t st'. forward st st' \<Longrightarrow> Q t st'" "\<And>e st'. forward st st' \<Longrightarrow> E e st'"
  shows "wp (parse_suffixes k t) Q E st"
  unfolding parse_suffixes_def wp_bind
proof (rule wp_parse_stars [OF assms(1,2)])
  fix t st1 assume 1: "forward st st1"
  have fin: "wp (p_match T_QUESTION) (\<lambda>b. Q (if b then with_nullable t' else t')) E st3"
    if "forward st st3" for t' st3
    by (rule wp_match [OF forward_ok [OF that]]) (rule assms(3) [OF forward_trans [OF that]])
  have arr: "wp (p_expect expected_bracket T_RBRACKET)
      (\<lambda>_. wp (p_match T_QUESTION) (\<lambda>b. Q (if b then with_nullable t' else t')) E) E st2"
    if "forward st st2" for t' st2
    by (rule wp_expect [OF forward_ok [OF that] _ fin [OF forward_trans [OF that]] assms(4) [OF forward_trans [OF that]]])
      simp_all
  show "wp (p_match T_LBRACKET) (\<lambda>b. wp (if b then pbind (p_expect expected_bracket T_RBRACKET)
          (\<lambda>_. ret (array_type t)) else ret t)
          (\<lambda>t. wp (p_match T_QUESTION) (\<lambda>b. wp (ret (if b then with_nullable t else t)) Q E) E) E) E st1"
  proof (rule wp_match [OF forward_ok [OF 1]])
    fix b st2 assume "forward st1 st2"
    then have "forward st st2" using 1 forward_trans by blast
    then show "wp (if b then pbind (p_expect expected_bracket T_RBRACKET) (\<lambda>_. ret (array_type t)) else ret t)
          (\<lambda>t. wp (p_match T_QUESTION) (\<lambda>b. wp (ret (if b then with_nullable t else t)) Q E) E) E st2"
      using fin arr by simp
  qed
qed

lemma wp_if:
  "(b \<Longrightarrow> wp p Q E st) \<Longrightarrow> (\<not> b \<Longrightarrow> wp q Q E st) \<Longrightarrow> wp (if b then p else q) Q E st"
  by simp

lemma wp_option:
  "(\<And>x. n = Some x \<Longrightarrow> wp (f x) Q E st) \<Longrightarrow> (n = None \<Longrightarrow> wp p Q E st)
     \<Longrightarrow> wp (case n of Some x \<Rightarrow> f x | None \<Rightarrow> p) Q E st"
  by (cases n) simp_all

lemma wp_bindI: "wp p (\<lambda>x. wp (f x) Q E) E st \<Longrightarrow> wp (pbind p f) Q E st"
  by simp

lemma wp_anyI:
  "(\<And>x. Q x st) \<Longrightarrow> wp (lift_raise r) Q E st"
  "(\<And>e. E e st) \<Longrightarrow> wp (parser_error c m l) Q E st"
  "(\<And>x. Q x st) \<Longrightarrow> wp (ret y) Q E st"
  by (simp_all split: sum.split)

lemma wp_base_of_word:
  assumes "wp ptr Q E st" "\<And>t. Q t st" "\<And>e. E e st"
  shows "wp (base_of_word ptr w) Q E st"
  unfolding base_of_word_def Let_def
  by (intro wp_if wp_option wp_bindI wp_anyI assms)

lemma wp_close:
  assumes "forward st st'" "\<And>st''. forward st st'' \<Longrightarrow> ps_current st' \<le> ps_current st'' \<Longrightarrow> R st''"
    and "\<And>e st'. forward st st' \<Longrightarrow> E e st'"
  shows "wp (p_expect msg T_GREATER) (\<lambda>_. R) E st'"
proof (rule wp_expect [OF forward_ok [OF assms(1)]])
  fix st'' assume "forward st' st''"
  then show "R st''" by (intro assms(2) forward_trans [OF assms(1)] forward_current)
next
  fix e st'' assume "forward st' st''"
  then show "E e st''" using assms(1,3) forward_trans by blast
qed simp

lemma wp_pointee:
  assumes "parser_ok st" "\<And>t st'. forward st st' \<Longrightarrow> Q t st'" "\<And>e st'. forward st st' \<Longrightarrow> E e st'"
    and p: "\<And>R st'. forward st st' \<Longrightarrow> ps_current st < ps_current st' \<Longrightarrow>
          (\<And>t st''. forward st st'' \<Longrightarrow> R t st'') \<Longrightarrow> wp p R E st'"
  shows "wp (parse_pointee p) Q E st"
  unfolding parse_pointee_def wp_bind
proof (rule wp_match [OF assms(1)])
  fix b st' assume f: "forward st st'" "b \<Longrightarrow> T_LESS \<noteq> T_GREATER \<Longrightarrow> ps_current st < ps_current st'"
  have "wp p (\<lambda>t. wp (p_expect expected_pointee_close T_GREATER) (\<lambda>_. Q (pointer_type t)) E) E st'" if b
    using f that assms(2,3) by (intro p wp_close) auto
  then show "wp (if b then pbind p (\<lambda>t. pbind (p_expect expected_pointee_close T_GREATER) (\<lambda>_. ret (pointer_type t)))
      else ret (pointer_type voided)) Q E st'"
    using assms(2) f(1) by simp
qed

lemma wp_arguments:
  assumes "parser_ok st" "\<And>t st'. forward st st' \<Longrightarrow> Q t st'" "\<And>e st'. forward st st' \<Longrightarrow> E e st'"
    and p: "\<And>R st'. forward st st' \<Longrightarrow> ps_current st < ps_current st' \<Longrightarrow>
          (\<And>ts st''. forward st st'' \<Longrightarrow> R ts st'') \<Longrightarrow> wp p R E st'"
  shows "wp (parse_arguments p t) Q E st"
proof -
  have "wp (p_match T_LESS) (\<lambda>b. wp (if b then pbind p (\<lambda>args. pbind (p_expect expected_args_close T_GREATER)
      (\<lambda>_. ret (with_args args t))) else ret t) Q E) E st"
  proof (rule wp_match [OF assms(1)])
    fix b st' assume f: "forward st st'" "b \<Longrightarrow> T_LESS \<noteq> T_GREATER \<Longrightarrow> ps_current st < ps_current st'"
    have "wp p (\<lambda>args. wp (p_expect expected_args_close T_GREATER) (\<lambda>_. Q (with_args args t)) E) E st'" if b
      using f that assms(2,3) by (intro p wp_close) auto
    then show "wp (if b then pbind p (\<lambda>args. pbind (p_expect expected_args_close T_GREATER)
        (\<lambda>_. ret (with_args args t))) else ret t) Q E st'"
      using assms(2) f(1) by simp
  qed
  then show ?thesis using assms(1,2) by (simp add: parse_arguments_def)
qed

lemma less_remaining:
  "forward st st' \<Longrightarrow> ps_current st < ps_current st' \<Longrightarrow> remaining st' < remaining st"
  by (auto simp: forward_def remaining_def parser_ok_def)

text \<open>What \<^verbatim>\<open>parse_type\<close> does behind the first word.\<close>

definition type_rest :: "nat \<Rightarrow> token \<Rightarrow> type_t parser" where
  "type_rest k w =
     pbind (base_of_word (parse_pointee (parse_type_rec k)) w) (\<lambda>t.
     pbind (parse_arguments (parse_type_args k []) t) (\<lambda>t.
     parse_suffixes k t))"

lemma parse_type_rec_Suc:
  "parse_type_rec (Suc k) = pbind (p_expect_any ''Expected a type'' [T_IDENTIFIER, T_VOID, T_AUTO]) (type_rest k)"
  by (simp add: type_rest_def [abs_def])

lemma wp_type_rest:
  assumes rec: "\<And>R st'. parser_ok st' \<Longrightarrow> remaining st' < k
       \<Longrightarrow> (\<And>t st''. forward st' st'' \<Longrightarrow> R t st'') \<Longrightarrow> (\<And>e st''. forward st' st'' \<Longrightarrow> E e st'')
       \<Longrightarrow> wp (parse_type_rec k) R E st'"
    and args: "\<And>R st'. parser_ok st' \<Longrightarrow> remaining st' + 1 < k
       \<Longrightarrow> (\<And>ts st''. forward st' st'' \<Longrightarrow> R ts st'') \<Longrightarrow> (\<And>e st''. forward st' st'' \<Longrightarrow> E e st'')
       \<Longrightarrow> wp (parse_type_args k []) R E st'"
    and ok: "parser_ok st" "remaining st < k"
    and Q: "\<And>t st'. forward st st' \<Longrightarrow> Q t st'" and E: "\<And>e st'. forward st st' \<Longrightarrow> E e st'"
  shows "wp (type_rest k w) Q E st"
proof -
  have suffix: "wp (parse_suffixes k t) Q E st'" if "forward st st'" for t st'
    using forward_remaining [OF that] ok(2)
    by (intro wp_parse_suffixes Q E forward_ok [OF that] forward_trans [OF that]) simp_all
  have arguments: "wp (parse_arguments (parse_type_args k []) t) (\<lambda>t. wp (parse_suffixes k t) Q E) E st'"
    if f: "forward st st'" for t st'
  proof (rule wp_arguments)
    fix R :: "type_t list \<Rightarrow> parser_state \<Rightarrow> bool" and st2
    assume 2: "forward st' st2" "ps_current st' < ps_current st2" "\<And>ts st''. forward st' st'' \<Longrightarrow> R ts st''"
    show "wp (parse_type_args k []) R E st2"
    proof (rule args)
      show "remaining st2 + 1 < k"
        using less_remaining [OF 2(1,2)] forward_remaining [OF f] ok(2) by linarith
    qed (use 2 E f forward_trans forward_ok in blast)+
  qed (use f suffix E forward_trans forward_ok in blast)+
  have "wp (parse_pointee (parse_type_rec k))
      (\<lambda>t. wp (parse_arguments (parse_type_args k []) t) (\<lambda>t. wp (parse_suffixes k t) Q E) E) E st"
  proof (rule wp_pointee)
    fix R :: "type_t \<Rightarrow> parser_state \<Rightarrow> bool" and st2
    assume 2: "forward st st2" "ps_current st < ps_current st2" "\<And>t st''. forward st st'' \<Longrightarrow> R t st''"
    show "wp (parse_type_rec k) R E st2"
    proof (rule rec)
      show "remaining st2 < k" using less_remaining [OF 2(1,2)] ok(2) by linarith
    qed (use 2 E forward_trans forward_ok in blast)+
  qed (use ok arguments E in blast)+
  with ok arguments E show ?thesis
    unfolding type_rest_def wp_bind by (intro wp_base_of_word) auto
qed

lemma wp_parse_type:
  "parser_ok st \<Longrightarrow> remaining st < k
     \<Longrightarrow> (\<And>t st'. forward st st' \<Longrightarrow> ps_current st < ps_current st' \<Longrightarrow> Q t st')
     \<Longrightarrow> (\<And>e st'. forward st st' \<Longrightarrow> E e st') \<Longrightarrow> wp (parse_type_rec k) Q E st"
  "parser_ok st \<Longrightarrow> remaining st + 1 < k
     \<Longrightarrow> (\<And>ts st'. forward st st' \<Longrightarrow> QQ ts st')
     \<Longrightarrow> (\<And>e st'. forward st st' \<Longrightarrow> E e st') \<Longrightarrow> wp (parse_type_args k args) QQ E st"
proof (induction k and k args arbitrary: st Q E and st QQ E rule: parse_type_rec_parse_type_args.induct)
  case (2 k)
  show ?case
    unfolding parse_type_rec_Suc wp_bind
  proof (rule wp_expect_any [OF "2.prems"(1)])
    fix w st1 assume 1: "forward st st1" "ps_current st < ps_current st1"
    show "wp (type_rest k w) Q E st1"
    proof (rule wp_type_rest [OF "2.IH"])
      show "remaining st1 < k" using less_remaining [OF 1] "2.prems"(2) by simp
      show "Q t st'" if "forward st1 st'" for t st'
        using "2.prems"(3) [OF forward_trans [OF 1(1) that]] 1(2) that by (auto simp: forward_def)
    qed (use 1 "2.prems"(4) forward_trans forward_ok in blast)+
  qed (use "2.prems" in auto)
next
  case (4 k args)
  show ?case
    unfolding parse_type_args.simps wp_bind
  proof (rule "4.IH"(1))
    show "parser_ok st" "remaining st < k" using "4.prems" by auto
    show "E e st'" if "forward st st'" for e st' using that "4.prems" by blast
    fix t st1 assume 1: "forward st st1" "ps_current st < ps_current st1"
    show "wp (p_match T_COMMA) (\<lambda>b. wp (if b then parse_type_args k (args @ [t]) else ret (args @ [t])) QQ E) E st1"
    proof (rule wp_match [OF forward_ok [OF 1(1)]])
      fix b st2 assume 2: "forward st1 st2" "b \<Longrightarrow> T_COMMA \<noteq> T_GREATER \<Longrightarrow> ps_current st1 < ps_current st2"
      then have f2: "forward st st2" using 1 forward_trans by blast
      have "wp (parse_type_args k (args @ [t])) QQ E st2" if b
      proof (rule "4.IH"(2) [OF that])
        show "remaining st2 + 1 < k"
          using less_remaining [OF 1] less_remaining [OF 2(1)] 2(2) that "4.prems"(2) by simp
      qed (use f2 "4.prems"(3,4) forward_trans forward_ok in blast)+
      then show "wp (if b then parse_type_args k (args @ [t]) else ret (args @ [t])) QQ E st2"
        using "4.prems"(3) f2 by simp
    qed
  qed
qed (simp_all add: remaining_def parser_ok_def)

text \<open>The first token of a program has no token behind it.\<close>

definition starts_type :: "token_type \<Rightarrow> bool" where
  "starts_type ty \<longleftrightarrow> ty = T_IDENTIFIER \<or> ty = T_VOID \<or> ty = T_AUTO"

lemma expect_any_first:
  assumes "ps_current st = 0" "ps_tokens st \<noteq> []"
  shows "p_expect_any msg [T_IDENTIFIER, T_VOID, T_AUTO] st =
     (if starts_type (t_type (hd (ps_tokens st)))
      then P_Ok (hd (ps_tokens st)) (st\<lparr>ps_current := 1\<rparr>) else P_Undefined)"
  using assms Suc_leI [of 0 "length (ps_tokens st)"]
  by (auto simp: starts_type_def pbind_def p_check_def p_isAtEnd_def p_peek_def ret_def p_advance_def p_step_def
      p_previous_def p_unexpected_def hd_conv_nth)

lemma parse_type_wp:
  assumes "ps_current st < length (ps_tokens st)" "t_type (last (ps_tokens st)) = T_END_OF_FILE"
    and "0 < ps_current st \<or> starts_type (t_type (hd (ps_tokens st)))"
  shows "wp parse_type (\<lambda>t st'. ps_tokens st' = ps_tokens st \<and> ps_current st < ps_current st'
      \<and> ps_current st' < length (ps_tokens st)) (\<lambda>e st'. ps_current st' < length (ps_tokens st)) st"
proof (cases "ps_current st = 0")
  case False
  then have "wp (parse_type_rec (Suc (length (ps_tokens st)))) (\<lambda>t st'. ps_tokens st' = ps_tokens st
      \<and> ps_current st < ps_current st' \<and> ps_current st' < length (ps_tokens st))
      (\<lambda>e st'. ps_current st' < length (ps_tokens st)) st"
    using assms by (intro wp_parse_type(1)) (auto simp: parser_ok_def forward_def remaining_def)
  then show ?thesis unfolding wp_def parse_type_def .
next
  case True
  let ?n = "length (ps_tokens st)" and ?st = "st\<lparr>ps_current := 1\<rparr>"
  have ne: "ps_tokens st \<noteq> []" and first: "starts_type (t_type (hd (ps_tokens st)))" using assms True by auto
  have ok: "parser_ok ?st"
  proof -
    have "?n \<noteq> 1"
    proof
      assume "?n = 1"
      then have "last (ps_tokens st) = hd (ps_tokens st)" by (cases "ps_tokens st") auto
      then show False using assms(2) first by (auto simp: starts_type_def)
    qed
    then have "1 < ?n" using assms(1) True by linarith
    then show ?thesis using assms(2) by (simp add: parser_ok_def)
  qed
  have "wp (type_rest ?n (hd (ps_tokens st))) (\<lambda>t st'. ps_tokens st' = ps_tokens st
      \<and> ps_current st < ps_current st' \<and> ps_current st' < ?n)
      (\<lambda>e st'. ps_current st' < ?n) ?st"
    using ok True by (intro wp_type_rest wp_parse_type) (auto simp: parser_ok_def forward_def remaining_def)
  moreover have "parse_type st = type_rest ?n (hd (ps_tokens st)) ?st"
    unfolding parse_type_def parse_type_rec_Suc
    using expect_any_first [OF True ne] first by (simp add: pbind_def)
  ultimately show ?thesis by (simp add: wp_def)
qed

text \<open>C12: parse_type returns on every token vector that ends with the end-of-file token: it never
  runs out of the bound of the model, and a type it returns has consumed at least one token and
  not the last. It reads outside the vector in one case only, which is reached by a program whose
  first token cannot start a type: the error message looks at the token before the first.\<close>

theorem parse_type_total:
  assumes "ps_current st < length (ps_tokens st)" "t_type (last (ps_tokens st)) = T_END_OF_FILE"
  shows "parse_type st \<noteq> P_Fuel
     \<and> (parse_type st = P_Undefined \<longleftrightarrow> ps_current st = 0 \<and> \<not> starts_type (t_type (hd (ps_tokens st))))
     \<and> (\<forall>t st'. parse_type st = P_Ok t st' \<longrightarrow>
          ps_tokens st' = ps_tokens st \<and> ps_current st < ps_current st' \<and> ps_current st' < length (ps_tokens st))"
proof (cases "ps_current st = 0 \<and> \<not> starts_type (t_type (hd (ps_tokens st)))")
  case True
  then have "parse_type st = P_Undefined"
    unfolding parse_type_def parse_type_rec_Suc
    using expect_any_first [of st] assms(1) by (auto simp: pbind_def)
  with True show ?thesis by simp
next
  case False
  then show ?thesis
    using parse_type_wp [OF assms] by (auto simp: wp_def split: outcome.splits)
qed

definition lone_tokens :: "token_type list \<Rightarrow> token list" where
  "lone_tokens tys = map (\<lambda>ty. \<lparr>t_position = \<lparr>p_fileId = ''main'', p_line = 1, p_column = 1, p_index = 0\<rparr>,
     t_type = ty, t_value = []\<rparr>) tys"

theorem parse_type_total_witness:
  "parse_type (new_parser (lone_tokens [T_SEMICOLON, T_END_OF_FILE])) = P_Undefined"
  using parse_type_total [of "new_parser (lone_tokens [T_SEMICOLON, T_END_OF_FILE])"]
  by (simp add: new_parser_def lone_tokens_def starts_type_def)

end
