(* ===== verification/Parser_Grammar.thy ===== *)
theory Parser_Grammar
  imports Parser_Types_Correct Types_Correct
begin

text \<open>
  The grammar of written types and the round trip through \<^verbatim>\<open>parse_type\<close>. A token vector is read
  with every \<^verbatim>\<open>>>\<close> as two closing brackets, which is what the parser's \<^verbatim>\<open>pendingGreater\<close> is for. The
  parser follows the grammar as long as no \<^verbatim>\<open>>>\<close> is directly followed by a token that can continue
  a type, because a pending bracket does not keep it from looking at that token.
\<close>

section \<open>Written types\<close>

datatype type_syntax = TS type_head nat bool bool
and type_head =
    TH_Word string
  | TH_Void
  | TH_Auto
  | TH_Ptr_Void
  | TH_Ptr type_syntax
  | TH_Generic string "type_syntax list"

type_synonym signature = "token_type \<times> string"

abbreviation "GT \<equiv> (T_GREATER, [] :: string)"

definition signature_of :: "token \<Rightarrow> signature" where
  "signature_of t = (t_type t, if starts_type (t_type t) then t_value t else [])"

definition source_view :: "token list \<Rightarrow> signature list" where
  "source_view ts = concat (map (\<lambda>t. if t_type t = T_GREATER_GREATER then [GT, GT] else [signature_of t]) ts)"

lemma source_view_simps [simp]:
  "source_view [] = []"
  "source_view (t # ts) = (if t_type t = T_GREATER_GREATER then [GT, GT] else [signature_of t]) @ source_view ts"
  by (simp_all add: source_view_def)

fun commas :: "signature list list \<Rightarrow> signature list" where
  "commas [] = []"
| "commas [x] = x"
| "commas (x # y # ys) = x @ [(T_COMMA, [])] @ commas (y # ys)"

primrec spell :: "type_syntax \<Rightarrow> signature list" and spell_head :: "type_head \<Rightarrow> signature list" where
  "spell (TS h n arr nl) =
     spell_head h @ replicate n (T_STAR, []) @ (if arr then [(T_LBRACKET, []), (T_RBRACKET, [])] else [])
     @ (if nl then [(T_QUESTION, [])] else [])"
| "spell_head (TH_Word w) = [(T_IDENTIFIER, w)]"
| "spell_head TH_Void = [(T_VOID, ''void'')]"
| "spell_head TH_Auto = [(T_AUTO, ''auto'')]"
| "spell_head TH_Ptr_Void = [(T_IDENTIFIER, ''ptr'')]"
| "spell_head (TH_Ptr s) = [(T_IDENTIFIER, ''ptr''), (T_LESS, [])] @ spell s @ [GT]"
| "spell_head (TH_Generic w ss) = [(T_IDENTIFIER, w), (T_LESS, [])] @ commas (map spell ss) @ [GT]"

abbreviation "float_names \<equiv> [''f16'', ''f32'', ''f64'', ''f128'']"

definition is_builtin :: "string \<Rightarrow> bool" where
  "is_builtin w \<longleftrightarrow>
     (case parse_integer_type_name w of Inr (Some _) \<Rightarrow> True | _ \<Rightarrow> False)
     \<or> w \<in> set ([''nfloat'', ''ndouble''] @ float_names)"

definition plain_word :: "string \<Rightarrow> bool" where
  "plain_word w \<longleftrightarrow>
     (case parse_integer_type_name w of Inr _ \<Rightarrow> True | Inl _ \<Rightarrow> False)
     \<and> \<not> isFloatWithIntSuffix w \<and> w \<notin> set [''ptr'', ''void'', ''auto'', ''var'']"

definition word_type :: "string \<Rightarrow> type_t" where
  "word_type w = (if is_builtin w then (case fromToken w of Inr t \<Rightarrow> t | Inl _ \<Rightarrow> voided) else struct_type w)"

primrec type_of :: "type_syntax \<Rightarrow> type_t" and type_of_head :: "type_head \<Rightarrow> type_t" where
  "type_of (TS h n arr nl) =
     (let t = (pointer_type ^^ n) (type_of_head h);
          t = (if arr then array_type t else t)
      in if nl then with_nullable t else t)"
| "type_of_head (TH_Word w) = word_type w"
| "type_of_head TH_Void = voided"
| "type_of_head TH_Auto = auto_type"
| "type_of_head TH_Ptr_Void = pointer_type voided"
| "type_of_head (TH_Ptr s) = pointer_type (type_of s)"
| "type_of_head (TH_Generic w ss) = generic_struct_type w (map type_of ss)"

primrec syntax_ok :: "type_syntax \<Rightarrow> bool" and head_ok :: "type_head \<Rightarrow> bool" where
  "syntax_ok (TS h n arr nl) \<longleftrightarrow> head_ok h"
| "head_ok (TH_Word w) \<longleftrightarrow> plain_word w"
| "head_ok TH_Void \<longleftrightarrow> True"
| "head_ok TH_Auto \<longleftrightarrow> True"
| "head_ok TH_Ptr_Void \<longleftrightarrow> True"
| "head_ok (TH_Ptr s) \<longleftrightarrow> syntax_ok s"
| "head_ok (TH_Generic w ss) \<longleftrightarrow> plain_word w \<and> \<not> is_builtin w \<and> ss \<noteq> [] \<and> list_all syntax_ok ss"

section \<open>States that read a written type\<close>

definition continues_type :: "token_type \<Rightarrow> bool" where
  "continues_type ty \<longleftrightarrow> ty \<in> {T_LESS, T_STAR, T_LBRACKET, T_QUESTION, T_COMMA}"

text \<open>No \<^verbatim>\<open>>>\<close> among the tokens is followed by one that continues a type.\<close>

fun split_safe :: "token list \<Rightarrow> token list \<Rightarrow> bool" where
  "split_safe [] R \<longleftrightarrow> True"
| "split_safe (t # ts) R \<longleftrightarrow>
     (t_type t = T_GREATER_GREATER \<longrightarrow> \<not> continues_type (t_type (hd (ts @ R)))) \<and> split_safe ts R"

definition viewing :: "parser_state \<Rightarrow> token list \<Rightarrow> parser_state \<Rightarrow> signature list \<Rightarrow> bool" where
  "viewing B R st vs \<longleftrightarrow>
     ps_tokens st = ps_tokens B \<and> moved B st \<and> R \<noteq> []
     \<and> (\<exists>toks. drop (ps_current st) (ps_tokens st) = toks @ R \<and> split_safe toks R
          \<and> (if pendingGreater st = 0 then vs = source_view toks
             else pendingGreater st = 1 \<and> 0 < ps_current st \<and> vs = GT # source_view toks
                  \<and> \<not> continues_type (t_type (hd (toks @ R)))))"

definition next_type :: "signature list \<Rightarrow> token list \<Rightarrow> token_type" where
  "next_type vs R = (case vs of [] \<Rightarrow> t_type (hd R) | v # _ \<Rightarrow> fst v)"

lemma peek_head:
  assumes "drop (ps_current st) (ps_tokens st) = t # ts"
  shows "p_peek st = P_Ok t st" "p_isAtEnd st = P_Ok (t_type t = T_END_OF_FILE) st"
proof -
  have "ps_current st < length (ps_tokens st)" "ps_tokens st ! ps_current st = t"
    using assms by (metis drop_eq_Nil list.distinct(1) linorder_not_less, metis assms nth_via_drop)
  then show "p_peek st = P_Ok t st" "p_isAtEnd st = P_Ok (t_type t = T_END_OF_FILE) st"
    by (simp_all add: p_peek_def p_isAtEnd_def pbind_def ret_def)
qed

lemma check_head:
  assumes "drop (ps_current st) (ps_tokens st) = t # ts"
    and "ty \<noteq> T_GREATER \<or> pendingGreater st = 0" "ty \<noteq> T_END_OF_FILE"
  shows "p_check ty st = P_Ok (t_type t = ty) st"
  using peek_head [OF assms(1)] assms(2,3) by (auto simp: p_check_def pbind_def ret_def)

lemma advance_head:
  assumes "drop (ps_current st) (ps_tokens st) = t # ts" "t_type t \<noteq> T_END_OF_FILE"
  shows "p_advance st = P_Ok t (st\<lparr>ps_current := Suc (ps_current st)\<rparr>)"
    "drop (Suc (ps_current st)) (ps_tokens st) = ts"
proof -
  have "ps_current st < length (ps_tokens st)" "ps_tokens st ! ps_current st = t"
    using assms(1) by (metis drop_eq_Nil list.distinct(1) linorder_not_less, metis assms(1) nth_via_drop)
  then show "p_advance st = P_Ok t (st\<lparr>ps_current := Suc (ps_current st)\<rparr>)"
    using assms(2) by (simp add: p_advance_def p_isAtEnd_def p_peek_def pbind_def ret_def p_step_def p_previous_def)
  show "drop (Suc (ps_current st)) (ps_tokens st) = ts"
    using assms(1) by (metis drop_Suc list.sel(3) tl_drop)
qed

definition runs :: "parser_state \<Rightarrow> token list \<Rightarrow> 'a parser \<Rightarrow> parser_state \<Rightarrow> 'a \<Rightarrow> signature list \<Rightarrow> bool" where
  "runs B R p st x vs \<longleftrightarrow> (\<exists>st'. p st = P_Ok x st' \<and> viewing B R st' vs)"

lemma runs_ret [simp]: "runs B R (ret x) st y vs \<longleftrightarrow> x = y \<and> viewing B R st vs"
  by (auto simp: runs_def ret_def)

lemma runs_bind:
  assumes "runs B R p st x vs" "\<And>st'. viewing B R st' vs \<Longrightarrow> runs B R (f x) st' y ws"
  shows "runs B R (pbind p f) st y ws"
  using assms by (auto simp: runs_def pbind_def)

lemma runs_assoc: "runs B R (pbind (pbind p f) g) st y ws = runs B R (pbind p (\<lambda>x. pbind (f x) g)) st y ws"
  by (simp add: runs_def pbind_def split: outcome.split)

lemma viewing_tokens:
  assumes "viewing B R st vs"
  obtains t ts where "drop (ps_current st) (ps_tokens st) = t # ts"
  using assms by (cases "drop (ps_current st) (ps_tokens st)") (auto simp: viewing_def)

lemma match_no:
  assumes "viewing B R st vs" "continues_type ty" "next_type vs R \<noteq> ty"
  shows "p_match ty st = P_Ok False st"
proof -
  obtain t ts where t: "drop (ps_current st) (ps_tokens st) = t # ts" using viewing_tokens assms(1) by blast
  have ty: "ty \<noteq> T_GREATER" "ty \<noteq> T_END_OF_FILE" "ty \<noteq> T_GREATER_GREATER"
    using assms(2) by (auto simp: continues_type_def)
  have "t_type t \<noteq> ty"
  proof (cases "pendingGreater st = 0")
    case True
    then obtain toks where "t # ts = toks @ R" "vs = source_view toks" using assms(1) t by (auto simp: viewing_def)
    then show ?thesis using assms(3) ty(3)
      by (cases toks) (auto simp: next_type_def signature_of_def split: if_splits)
  next
    case False
    then obtain toks where "t # ts = toks @ R" "\<not> continues_type (t_type (hd (toks @ R)))"
      using assms(1) t by (auto simp: viewing_def)
    then show ?thesis using assms(2) by (metis list.sel(1))
  qed
  then show ?thesis
    using check_head [OF t] ty by (simp add: p_match_def pbind_def ret_def)
qed

lemma viewing_Cons:
  assumes "viewing B R st ((ty, v) # vs)" "ty \<noteq> T_GREATER" "ty \<noteq> T_END_OF_FILE"
  obtains t where "p_check ty st = P_Ok True st" "p_advance st = P_Ok t (st\<lparr>ps_current := Suc (ps_current st)\<rparr>)"
    "signature_of t = (ty, v)" "t_type t = ty" "viewing B R (st\<lparr>ps_current := Suc (ps_current st)\<rparr>) vs"
    "\<And>ty'. ty' \<noteq> T_END_OF_FILE \<Longrightarrow> ty' \<noteq> T_GREATER \<Longrightarrow> p_check ty' st = P_Ok (ty = ty') st"
proof -
  from assms obtain toks where toks: "drop (ps_current st) (ps_tokens st) = toks @ R" "split_safe toks R"
    "(ty, v) # vs = source_view toks" "pendingGreater st = 0"
    by (auto simp: viewing_def split: if_splits)
  then obtain t ts where ts: "toks = t # ts" by (cases toks) auto
  then have s: "signature_of t = (ty, v)" "vs = source_view ts" using toks(3) assms(2) by (auto split: if_splits)
  then have ty: "t_type t = ty" by (simp add: signature_of_def)
  have d: "drop (ps_current st) (ps_tokens st) = t # ts @ R" using toks ts by simp
  have "viewing B R (st\<lparr>ps_current := Suc (ps_current st)\<rparr>) vs"
    using assms(1) toks s ts advance_head(2) [OF d] ty assms(3) by (auto simp: viewing_def)
  moreover have "p_check ty' st = P_Ok (ty = ty') st" if "ty' \<noteq> T_END_OF_FILE" "ty' \<noteq> T_GREATER" for ty'
    using check_head [OF d] that ty by simp
  ultimately show ?thesis
    using that advance_head(1) [OF d] assms(2,3) ty s by auto
qed

lemma match_yes:
  assumes "viewing B R st ((ty, v) # vs)" "continues_type ty"
  shows "runs B R (p_match ty) st True vs"
proof -
  have ty: "ty \<noteq> T_GREATER" "ty \<noteq> T_END_OF_FILE" using assms(2) by (auto simp: continues_type_def)
  obtain t where "p_check ty st = P_Ok True st" "p_advance st = P_Ok t (st\<lparr>ps_current := Suc (ps_current st)\<rparr>)"
    "viewing B R (st\<lparr>ps_current := Suc (ps_current st)\<rparr>) vs"
    using viewing_Cons [OF assms(1) ty] by blast
  with ty show ?thesis by (simp add: runs_def p_match_def pbind_def ret_def)
qed

lemma runs_match:
  assumes "viewing B R st vs" "continues_type ty" "next_type vs R \<noteq> ty" "runs B R (f False) st x ws"
  shows "runs B R (pbind (p_match ty) f) st x ws"
  using match_no [OF assms(1-3)] assms(4) by (simp add: runs_def pbind_def)

lemma runs_expect:
  assumes "viewing B R st ((ty, v) # vs)" "ty \<noteq> T_GREATER" "ty \<noteq> T_END_OF_FILE"
    and "\<And>t st'. viewing B R st' vs \<Longrightarrow> runs B R (f t) st' x ws"
  shows "runs B R (pbind (p_expect msg ty) f) st x ws"
proof -
  obtain t where "p_check ty st = P_Ok True st" "p_advance st = P_Ok t (st\<lparr>ps_current := Suc (ps_current st)\<rparr>)"
    "viewing B R (st\<lparr>ps_current := Suc (ps_current st)\<rparr>) vs"
    using viewing_Cons [OF assms(1-3)] by blast
  with assms(2) assms(4) [OF this(3), of t] show ?thesis by (simp add: runs_def p_expect_def pbind_def)
qed

lemma runs_close:
  assumes "viewing B R st (GT # vs)" "\<And>t st'. viewing B R st' vs \<Longrightarrow> runs B R (f t) st' x ws"
  shows "runs B R (pbind (p_expect msg T_GREATER) f) st x ws"
proof -
  have "\<exists>t st'. p_expect msg T_GREATER st = P_Ok t st' \<and> viewing B R st' vs"
  proof (cases "pendingGreater st = 0")
    case False
    then have st: "pendingGreater st = 1" "0 < ps_current st" using assms(1) by (auto simp: viewing_def)
    have "ps_current st \<le> length (ps_tokens st)"
      using viewing_tokens [OF assms(1)] by (metis drop_eq_Nil list.distinct(1) nat_le_linear)
    with st have "\<exists>t. p_expect msg T_GREATER st = P_Ok t (st\<lparr>pendingGreater := 0\<rparr>)"
      by (simp add: p_expect_def p_take_pending_def p_previous_def pbind_def)
    moreover have "viewing B R (st\<lparr>pendingGreater := 0\<rparr>) vs"
      using assms(1) st by (auto simp: viewing_def)
    ultimately show ?thesis by blast
  next
    case True
    then obtain toks where toks: "drop (ps_current st) (ps_tokens st) = toks @ R" "split_safe toks R"
      "GT # vs = source_view toks"
      using assms(1) by (auto simp: viewing_def)
    then obtain t ts where ts: "toks = t # ts" by (cases toks) auto
    have d: "drop (ps_current st) (ps_tokens st) = t # ts @ R" using toks ts by simp
    show ?thesis
    proof (cases "t_type t = T_GREATER_GREATER")
      case gg: True
      have d': "drop (ps_current (st\<lparr>pendingGreater := 1\<rparr>)) (ps_tokens (st\<lparr>pendingGreater := 1\<rparr>)) = t # ts @ R"
        using d by simp
      have "p_expect msg T_GREATER st = P_Ok t (st\<lparr>pendingGreater := 1, ps_current := Suc (ps_current st)\<rparr>)"
        using check_head [OF d] True gg advance_head(1) [OF d']
        by (simp add: p_expect_def pbind_def p_split_greater_def)
      moreover have "viewing B R (st\<lparr>pendingGreater := 1, ps_current := Suc (ps_current st)\<rparr>) vs"
        using assms(1) toks ts gg advance_head(2) [OF d] by (auto simp: viewing_def)
      ultimately show ?thesis by blast
    next
      case False
      then have t: "t_type t = T_GREATER" "vs = source_view ts"
        using toks(3) ts by (auto simp: signature_of_def)
      then have "p_expect msg T_GREATER st = P_Ok t (st\<lparr>ps_current := Suc (ps_current st)\<rparr>)"
        using check_head [OF d] True advance_head(1) [OF d] by (simp add: p_expect_def pbind_def)
      moreover have "viewing B R (st\<lparr>ps_current := Suc (ps_current st)\<rparr>) vs"
        using assms(1) toks ts t True advance_head(2) [OF d] by (auto simp: viewing_def)
      ultimately show ?thesis by blast
    qed
  qed
  then show ?thesis using assms(2) by (fastforce simp: runs_def pbind_def)
qed

section \<open>Words\<close>

lemma runs_word:
  assumes "viewing B R st ((ty, w) # vs)" "starts_type ty"
    and "\<And>t st'. t_type t = ty \<Longrightarrow> t_value t = w \<Longrightarrow> viewing B R st' vs \<Longrightarrow> runs B R (f t) st' x ws"
  shows "runs B R (pbind (p_expect_any msg [T_IDENTIFIER, T_VOID, T_AUTO]) f) st x ws"
proof -
  have ty: "ty \<noteq> T_GREATER" "ty \<noteq> T_END_OF_FILE" using assms(2) by (auto simp: starts_type_def)
  obtain t where t: "p_advance st = P_Ok t (st\<lparr>ps_current := Suc (ps_current st)\<rparr>)" "t_type t = ty"
    "signature_of t = (ty, w)" "viewing B R (st\<lparr>ps_current := Suc (ps_current st)\<rparr>) vs"
    "\<And>ty'. ty' \<noteq> T_END_OF_FILE \<Longrightarrow> ty' \<noteq> T_GREATER \<Longrightarrow> p_check ty' st = P_Ok (ty = ty') st"
    using viewing_Cons [OF assms(1) ty] by metis
  then have "t_value t = w" using assms(2) by (simp add: signature_of_def)
  moreover have "p_expect_any msg [T_IDENTIFIER, T_VOID, T_AUTO] st = P_Ok t (st\<lparr>ps_current := Suc (ps_current st)\<rparr>)"
    using t(1) t(5) [of T_IDENTIFIER] t(5) [of T_VOID] t(5) [of T_AUTO] assms(2)
    by (auto simp: starts_type_def pbind_def)
  ultimately show ?thesis using assms(3) t by (simp add: runs_def pbind_def)
qed

lemma float_words:
  "list_all (\<lambda>w. float_of_name w = fromToken w) float_names"
  "native_floating 32 = fromToken ''nfloat''" "native_floating 64 = fromToken ''ndouble''"
  by (simp_all add: float_of_name_def stol_digits_def decimal_value_def digit_val_def floating_def
      fromToken_def parse_integer_type_name_def)

lemma float_words_total:
  assumes "w \<in> set ([''nfloat'', ''ndouble''] @ float_names)"
  shows "\<exists>t. fromToken w = Inr t"
proof -
  have "list_all (\<lambda>w. case fromToken w of Inr _ \<Rightarrow> True | _ \<Rightarrow> False) ([''nfloat'', ''ndouble''] @ float_names)"
    by code_simp
  with assms have "case fromToken w of Inr _ \<Rightarrow> True | _ \<Rightarrow> False" unfolding list_all_iff by blast
  then show ?thesis by (cases "fromToken w") auto
qed

lemma kinds_with_f:
  "starts_with ''f'' w \<and> w \<in> set string_to_type_kind \<longleftrightarrow> w \<in> set float_names"
proof -
  have "list_all (\<lambda>w. starts_with ''f'' w \<longleftrightarrow> w \<in> set float_names) string_to_type_kind"
    "list_all (\<lambda>w. starts_with ''f'' w \<and> w \<in> set string_to_type_kind) float_names"
    by code_simp+
  then show ?thesis unfolding list_all_iff by blast
qed

lemma base_integer:
  assumes "parse_integer_type_name w = Inr (Some n)"
  shows "fromToken w = Inr (named_integer n)"
  using assms by (simp add: fromToken_def named_integer_def integer_type_def new_type_def new_attrs_def Let_def)

lemma base_of_plain_word:
  assumes "plain_word w" "t_type t = T_IDENTIFIER" "t_value t = w"
  shows "base_of_word ptr t = ret (word_type w)"
proof (cases "w \<in> set ([''nfloat'', ''ndouble''] @ float_names)")
  case True
  then obtain u where u: "fromToken w = Inr u" using float_words_total by blast
  then have "word_type w = u" using True by (simp add: word_type_def is_builtin_def)
  moreover have "base_of_word ptr t = lift_raise (fromToken w)"
  proof -
    consider "w = ''nfloat''" | "w \<noteq> ''nfloat''" "w = ''ndouble''"
      | "w \<noteq> ''nfloat''" "w \<noteq> ''ndouble''" "w \<in> set float_names"
      using True by auto
    then show ?thesis
    proof cases
      case 3
      then have "starts_with ''f'' w \<and> w \<in> set string_to_type_kind" "float_of_name w = fromToken w"
        using kinds_with_f float_words(1) unfolding list_all_iff by blast+
      with 3 assms(3) show ?thesis unfolding base_of_word_def Let_def by (simp only: if_False if_True simp_thms)
    qed (simp_all only: base_of_word_def Let_def assms(3) if_True if_False simp_thms float_words(2,3))
  qed
  ultimately show ?thesis using u by (simp add: lift_raise_def ret_def fun_eq_iff)
next
  case False
  have p: "w \<noteq> ''ptr''" "w \<noteq> ''void''" "w \<noteq> ''auto''" "w \<noteq> ''var''" "\<not> isFloatWithIntSuffix w"
    using assms(1) by (auto simp: plain_word_def)
  obtain n where n: "parse_integer_type_name w = Inr n"
    using assms(1) by (auto simp: plain_word_def split: sum.splits)
  have f: "w \<noteq> ''nfloat''" "w \<noteq> ''ndouble''" "\<not> (starts_with ''f'' w \<and> w \<in> set string_to_type_kind)"
    using False kinds_with_f [of w] by auto
  have "base_of_word ptr t = pbind (lift_raise (Inr n)) (\<lambda>n. case n of Some i \<Rightarrow> ret (named_integer i) | None \<Rightarrow> ret (struct_type w))"
    unfolding base_of_word_def Let_def assms(2,3) n isFloatWithIntSuffix_def [symmetric]
    by (simp only: p f if_False simp_thms token_type.simps conj_assoc [symmetric])
  also have "\<dots> = ret (word_type w)"
    using n False base_integer [of w]
    by (cases n) (simp_all add: fun_eq_iff pbind_def lift_raise_def ret_def word_type_def is_builtin_def)
  finally show ?thesis .
qed

section \<open>Suffixes\<close>

lemma runs_stars:
  assumes "viewing B R st (replicate n (T_STAR, []) @ vs)" "next_type vs R \<noteq> T_STAR" "n < k"
  shows "runs B R (parse_stars k t) st ((pointer_type ^^ n) t) vs"
  using assms(1,3)
proof (induction n arbitrary: k st t)
  case 0
  then obtain k' where "k = Suc k'" by (cases k) auto
  with 0 show ?case using assms(2) by (auto intro!: runs_match simp: continues_type_def)
next
  case (Suc n)
  then obtain k' where k: "k = Suc k'" by (cases k) auto
  have "runs B R (p_match T_STAR) st True (replicate n (T_STAR, []) @ vs)"
    using Suc.prems by (auto intro!: match_yes simp: continues_type_def)
  then show ?case
    unfolding k parse_stars.simps
  proof (rule runs_bind)
    fix st' assume "viewing B R st' (replicate n (T_STAR, []) @ vs)"
    then have "runs B R (parse_stars k' (pointer_type t)) st' ((pointer_type ^^ n) (pointer_type t)) vs"
      using Suc k by auto
    then show "runs B R (if True then parse_stars k' (pointer_type t) else ret t) st' ((pointer_type ^^ Suc n) t) vs"
      by (simp add: funpow_swap1)
  qed
qed

definition ends_type :: "token_type \<Rightarrow> bool" where
  "ends_type ty \<longleftrightarrow> ty \<notin> {T_LESS, T_STAR, T_LBRACKET, T_QUESTION}"

definition suffixed :: "nat \<Rightarrow> bool \<Rightarrow> bool \<Rightarrow> type_t \<Rightarrow> type_t" where
  "suffixed n arr nl t =
     (let t = (pointer_type ^^ n) t; t = (if arr then array_type t else t)
      in if nl then with_nullable t else t)"

definition spell_suffixes :: "nat \<Rightarrow> bool \<Rightarrow> bool \<Rightarrow> signature list" where
  "spell_suffixes n arr nl =
     replicate n (T_STAR, []) @ (if arr then [(T_LBRACKET, []), (T_RBRACKET, [])] else [])
     @ (if nl then [(T_QUESTION, [])] else [])"

lemma next_type_simps [simp]:
  "next_type (v # vs) R = fst v"
  "next_type [] R = t_type (hd R)"
  by (simp_all add: next_type_def)

lemma continues_simps [simp]:
  "continues_type T_LESS" "continues_type T_STAR" "continues_type T_LBRACKET" "continues_type T_QUESTION"
  "continues_type T_COMMA"
  by (simp_all add: continues_type_def)

lemma runs_question:
  assumes "viewing B R st ((if nl then [(T_QUESTION, [])] else []) @ vs)" "ends_type (next_type vs R)"
  shows "runs B R (pbind (p_match T_QUESTION) (\<lambda>b. ret (if b then with_nullable t else t))) st
     (if nl then with_nullable t else t) vs"
proof (cases nl)
  case True
  then have "runs B R (p_match T_QUESTION) st True vs" using assms(1) by (auto intro: match_yes)
  then show ?thesis by (rule runs_bind) (simp add: True)
next
  case False
  then show ?thesis using assms by (auto intro!: runs_match simp: ends_type_def)
qed

lemma runs_brackets:
  assumes "viewing B R st ((if arr then [(T_LBRACKET, []), (T_RBRACKET, [])] else []) @ vs)"
    and "next_type vs R \<noteq> T_LBRACKET"
  shows "runs B R (pbind (p_match T_LBRACKET) (\<lambda>b. if b then pbind (p_expect expected_bracket T_RBRACKET)
           (\<lambda>_. ret (array_type t)) else ret t)) st (if arr then array_type t else t) vs"
proof (cases arr)
  case True
  then have "runs B R (p_match T_LBRACKET) st True ((T_RBRACKET, []) # vs)" using assms(1) by (auto intro: match_yes)
  then show ?thesis by (rule runs_bind) (auto simp: True intro!: runs_expect)
next
  case False
  then show ?thesis using assms by (auto intro!: runs_match)
qed

lemma runs_suffixes:
  assumes "viewing B R st (spell_suffixes n arr nl @ vs)" "ends_type (next_type vs R)" "n < k"
  shows "runs B R (parse_suffixes k t) st (suffixed n arr nl t) vs"
proof -
  let ?q = "(if nl then [(T_QUESTION, [])] else []) @ vs"
  let ?b = "(if arr then [(T_LBRACKET, []), (T_RBRACKET, [])] else []) @ ?q"
  have "runs B R (parse_stars k t) st ((pointer_type ^^ n) t) ?b"
    using assms by (intro runs_stars) (auto simp: spell_suffixes_def ends_type_def)
  then show ?thesis
    unfolding parse_suffixes_def suffixed_def Let_def
  proof (rule runs_bind)
    fix st1 assume "viewing B R st1 ?b"
    then have "runs B R (pbind (p_match T_LBRACKET) (\<lambda>b. if b then pbind (p_expect expected_bracket T_RBRACKET)
           (\<lambda>_. ret (array_type ((pointer_type ^^ n) t))) else ret ((pointer_type ^^ n) t))) st1
           (if arr then array_type ((pointer_type ^^ n) t) else (pointer_type ^^ n) t) ?q"
      using assms(2) by (intro runs_brackets) (auto simp: ends_type_def)
    then show "runs B R (pbind (pbind (p_match T_LBRACKET) (\<lambda>b. if b then pbind (p_expect expected_bracket T_RBRACKET)
           (\<lambda>_. ret (array_type ((pointer_type ^^ n) t))) else ret ((pointer_type ^^ n) t)))
           (\<lambda>t. pbind (p_match T_QUESTION) (\<lambda>b. ret (if b then with_nullable t else t)))) st1
        (if nl then with_nullable (if arr then array_type ((pointer_type ^^ n) t) else (pointer_type ^^ n) t)
         else if arr then array_type ((pointer_type ^^ n) t) else (pointer_type ^^ n) t) vs"
      by (rule runs_bind) (rule runs_question [OF _ assms(2)])
  qed
qed

section \<open>The round trip\<close>

text \<open>The brackets that close cost no fuel, since the scanner may have joined them.\<close>

definition weight :: "signature list \<Rightarrow> nat" where
  "weight vs = length (filter (\<lambda>v. fst v \<noteq> T_GREATER) vs)"

lemma weight_simps [simp]:
  "weight [] = 0" "weight (v # vs) = (if fst v = T_GREATER then 0 else 1) + weight vs"
  "weight (us @ vs) = weight us + weight vs"
  by (simp_all add: weight_def)

definition head_parser :: "nat \<Rightarrow> token \<Rightarrow> type_t parser" where
  "head_parser k w =
     pbind (base_of_word (parse_pointee (parse_type_rec k)) w) (\<lambda>t. parse_arguments (parse_type_args k []) t)"

definition parses :: "nat \<Rightarrow> type_syntax \<Rightarrow> bool" where
  "parses k s \<longleftrightarrow>
     (\<forall>B R st vs. viewing B R st (spell s @ vs) \<longrightarrow> ends_type (next_type vs R)
        \<longrightarrow> runs B R (parse_type_rec k) st (type_of s) vs)"

lemma runs_list:
  assumes "ss \<noteq> []" "\<And>s k'. s \<in> set ss \<Longrightarrow> weight (spell s) < k' \<Longrightarrow> parses k' s"
    and "weight (commas (map spell ss)) + 1 < k" "viewing B R st (commas (map spell ss) @ GT # vs)"
  shows "runs B R (parse_type_args k acc) st (acc @ map type_of ss) (GT # vs)"
  using assms
proof (induction ss arbitrary: k st acc)
  case (Cons s ss)
  then obtain k' where k: "k = Suc k'" by (cases k) auto
  let ?rest = "if ss = [] then GT # vs else (T_COMMA, []) # commas (map spell ss) @ GT # vs"
  have w: "weight (spell s) < k'" using Cons.prems(3) k by (cases ss) auto
  have "viewing B R st (spell s @ ?rest)" using Cons.prems(4) by (cases ss) auto
  then have "runs B R (parse_type_rec k') st (type_of s) ?rest"
    using Cons.prems(2) [of s k'] w unfolding parses_def by (auto simp: ends_type_def)
  then show ?case
    unfolding k parse_type_args.simps
  proof (rule runs_bind)
    fix st1 assume v: "viewing B R st1 ?rest"
    show "runs B R (pbind (p_match T_COMMA) (\<lambda>b. if b then parse_type_args k' (acc @ [type_of s])
        else ret (acc @ [type_of s]))) st1 (acc @ map type_of (s # ss)) (GT # vs)"
    proof (cases ss)
      case Nil
      then show ?thesis using v by (auto intro!: runs_match)
    next
      case (Cons s' ss')
      then have "runs B R (p_match T_COMMA) st1 True (commas (map spell ss) @ GT # vs)"
        using v by (auto intro: match_yes)
      then show ?thesis
        using Cons.IH [of k' _ "acc @ [type_of s]"] Cons.prems Cons k by (intro runs_bind) auto
    qed
  qed
qed simp

lemma pbind_ret [simp]: "pbind (ret x) f = f x"
  by (simp add: fun_eq_iff pbind_def ret_def)

lemma pbind_assoc: "pbind (pbind p f) g = pbind p (\<lambda>x. pbind (f x) g)"
  by (simp add: fun_eq_iff pbind_def split: outcome.split)

lemma parse_type_rec_head:
  "parse_type_rec (Suc k) =
     pbind (pbind (p_expect_any ''Expected a type'' [T_IDENTIFIER, T_VOID, T_AUTO]) (head_parser k)) (parse_suffixes k)"
  unfolding parse_type_rec_Suc by (simp add: pbind_assoc type_rest_def [abs_def] head_parser_def)

lemma not_integer_words:
  "parse_integer_type_name ''void'' = Inr None" "parse_integer_type_name ''auto'' = Inr None"
  "parse_integer_type_name ''ptr'' = Inr None"
  by code_simp+

lemma base_of_keyword:
  "t_type t = T_VOID \<Longrightarrow> t_value t = ''void'' \<Longrightarrow> base_of_word p t = ret voided"
  "t_type t = T_AUTO \<Longrightarrow> t_value t = ''auto'' \<Longrightarrow> base_of_word p t = ret auto_type"
  "t_type t = T_IDENTIFIER \<Longrightarrow> t_value t = ''ptr'' \<Longrightarrow> base_of_word p t = p"
  by (simp_all add: base_of_word_def not_integer_words lift_raise_def fun_eq_iff pbind_def)

lemma no_arguments:
  "kind t \<noteq> TK_STRUCT \<Longrightarrow> parse_arguments p t = ret t"
  by (simp add: parse_arguments_def)

lemma kind_simps [simp]:
  "kind voided = TK_VOID" "kind auto_type = TK_AUTO" "kind (pointer_type t) = TK_POINTER" "kind (struct_type w) = TK_STRUCT"
  by (simp_all add: voided_def auto_type_def pointer_type_def struct_type_def new_type_def new_attrs_def)

lemma runs_no_arguments:
  "viewing B R st vs \<Longrightarrow> next_type vs R \<noteq> T_LESS \<Longrightarrow> runs B R (parse_arguments p t) st t vs"
  by (auto simp: parse_arguments_def intro!: runs_match)

lemma runs_arguments:
  assumes "viewing B R st ((T_LESS, []) # us @ GT # vs)"
    and "\<And>st'. viewing B R st' (us @ GT # vs) \<Longrightarrow> runs B R p st' args (GT # vs)"
  shows "runs B R (parse_arguments p (struct_type w)) st (generic_struct_type w args) vs"
proof -
  have "runs B R (p_match T_LESS) st True (us @ GT # vs)" using assms(1) by (auto intro: match_yes)
  then show ?thesis
    unfolding parse_arguments_def kind_simps simp_thms if_True
    by (rule runs_bind)
      (auto intro!: runs_bind [OF assms(2)] runs_close
        simp: with_args_def struct_type_def generic_struct_type_def)
qed

lemma runs_pointee:
  assumes "viewing B R st ((T_LESS, []) # us @ GT # vs)"
    and "\<And>st'. viewing B R st' (us @ GT # vs) \<Longrightarrow> runs B R p st' t (GT # vs)"
  shows "runs B R (parse_pointee p) st (pointer_type t) vs"
proof -
  have "runs B R (p_match T_LESS) st True (us @ GT # vs)" using assms(1) by (auto intro: match_yes)
  then show ?thesis
    unfolding parse_pointee_def by (rule runs_bind) (auto intro!: runs_bind [OF assms(2)] runs_close)
qed

lemma weight_stars [simp]: "weight (replicate n (T_STAR, [])) = n"
  by (induction n) auto

lemma next_suffixes:
  "ends_type (next_type vs R) \<Longrightarrow> next_type (spell_suffixes n arr nl @ vs) R \<noteq> T_LESS"
  by (cases n) (auto simp: spell_suffixes_def ends_type_def)

lemma weight_head: "0 < weight (spell_head h)"
  by (cases h) auto

lemma parses_syntax:
  "syntax_ok s \<Longrightarrow> weight (spell s) < k \<Longrightarrow> parses k s"
  "head_ok h \<Longrightarrow> weight (spell_head h) \<le> k \<Longrightarrow> viewing B R st (spell_head h @ vs) \<Longrightarrow> next_type vs R \<noteq> T_LESS
     \<Longrightarrow> runs B R (pbind (p_expect_any ''Expected a type'' [T_IDENTIFIER, T_VOID, T_AUTO]) (head_parser k)) st
           (type_of_head h) vs"
proof (induction s and h arbitrary: k and k B R st vs)
  case (TS h n arr nl)
  then obtain k' where k: "k = Suc k'" by (cases k) auto
  have w: "weight (spell_head h) + weight (spell_suffixes n arr nl) < k"
    using TS.prems(2) by (simp add: spell_suffixes_def)
  show ?case
    unfolding parses_def
  proof (intro allI impI)
    fix B R st vs assume v: "viewing B R st (spell (TS h n arr nl) @ vs)" "ends_type (next_type vs R)"
    have "runs B R (pbind (p_expect_any ''Expected a type'' [T_IDENTIFIER, T_VOID, T_AUTO]) (head_parser k')) st
        (type_of_head h) (spell_suffixes n arr nl @ vs)"
    proof (rule TS.IH)
      show "head_ok h" "weight (spell_head h) \<le> k'" using TS.prems(1) w k by simp_all
      show "viewing B R st (spell_head h @ spell_suffixes n arr nl @ vs)"
        using v(1) by (simp add: spell_suffixes_def)
    qed (rule next_suffixes [OF v(2)])
    then have "runs B R (parse_type_rec k) st (suffixed n arr nl (type_of_head h)) vs"
      unfolding k parse_type_rec_head
    proof (rule runs_bind)
      fix st' assume "viewing B R st' (spell_suffixes n arr nl @ vs)"
      then show "runs B R (parse_suffixes k' (type_of_head h)) st' (suffixed n arr nl (type_of_head h)) vs"
        using w k weight_head [of h] v(2) by (intro runs_suffixes) (auto simp: spell_suffixes_def)
    qed
    then show "runs B R (parse_type_rec k) st (type_of (TS h n arr nl)) vs" by (simp add: suffixed_def)
  qed
next
  case (TH_Word w)
  then show ?case
    by (intro runs_word [of _ _ _ T_IDENTIFIER w vs])
      (auto simp: starts_type_def head_parser_def base_of_plain_word intro: runs_no_arguments)
next
  case TH_Void
  then show ?case
    by (intro runs_word [of _ _ _ T_VOID "''void''" vs])
      (auto simp: starts_type_def head_parser_def base_of_keyword no_arguments)
next
  case TH_Auto
  then show ?case
    by (intro runs_word [of _ _ _ T_AUTO "''auto''" vs])
      (auto simp: starts_type_def head_parser_def base_of_keyword no_arguments)
next
  case TH_Ptr_Void
  then show ?case
    by (intro runs_word [of _ _ _ T_IDENTIFIER "''ptr''" vs])
      (auto simp: starts_type_def head_parser_def base_of_keyword no_arguments parse_pointee_def pbind_assoc
        intro!: runs_match)
next
  case (TH_Ptr s)
  show ?case
  proof (rule runs_word)
    show "viewing B R st ((T_IDENTIFIER, ''ptr'') # (T_LESS, []) # spell s @ GT # vs)" using TH_Ptr.prems(3) by simp
    fix t :: token and st' assume t: "t_type t = T_IDENTIFIER" "t_value t = ''ptr''"
      "viewing B R st' ((T_LESS, []) # spell s @ GT # vs)"
    have "parses k s" using TH_Ptr by simp
    then have "runs B R (parse_pointee (parse_type_rec k)) st' (pointer_type (type_of s)) vs"
      using t(3) unfolding parses_def by (intro runs_pointee) (auto simp: ends_type_def)
    then show "runs B R (head_parser k t) st' (type_of_head (TH_Ptr s)) vs"
      unfolding head_parser_def base_of_keyword(3) [OF t(1,2)]
      by (rule runs_bind) (simp add: no_arguments)
  qed (simp add: starts_type_def)
next
  case (TH_Generic w ss)
  show ?case
  proof (rule runs_word)
    show "viewing B R st ((T_IDENTIFIER, w) # (T_LESS, []) # commas (map spell ss) @ GT # vs)"
      using TH_Generic.prems(3) by simp
    fix t :: token and st' assume t: "t_type t = T_IDENTIFIER" "t_value t = w"
      "viewing B R st' ((T_LESS, []) # commas (map spell ss) @ GT # vs)"
    have "word_type w = struct_type w" "plain_word w" using TH_Generic.prems(1) by (simp_all add: word_type_def)
    then have "base_of_word q t = ret (struct_type w)" for q using base_of_plain_word t(1,2) by simp
    then have "head_parser k t = parse_arguments (parse_type_args k []) (struct_type w)"
      by (simp add: head_parser_def)
    moreover have "runs B R (parse_type_args k []) st'' (map type_of ss) (GT # vs)"
      if "viewing B R st'' (commas (map spell ss) @ GT # vs)" for st''
      using runs_list [of ss k B R st'' vs "[]"] that TH_Generic by (auto simp: list_all_iff)
    ultimately show "runs B R (head_parser k t) st' (type_of_head (TH_Generic w ss)) vs"
      using runs_arguments [OF t(3)] by simp
  qed (simp add: starts_type_def)
qed

lemma weight_view: "weight (source_view toks) \<le> length toks"
  by (induction toks) (auto simp: signature_of_def)

lemma parse_type_spelled:
  assumes "drop (ps_current st) (ps_tokens st) = toks @ R" "R \<noteq> []" "pendingGreater st = 0"
    and "source_view toks = spell s" "syntax_ok s"
    and "split_safe toks R" "ends_type (t_type (hd R))"
  shows "parse_type st = P_Ok (type_of s) (st\<lparr>ps_current := ps_current st + length toks\<rparr>)"
proof -
  have v: "viewing st R st (spell s @ [])" using assms by (auto simp: viewing_def)
  have len: "length toks < length (ps_tokens st)"
    using arg_cong [OF assms(1), of length] assms(2) by (cases R) auto
  have "weight (spell s) < Suc (length (ps_tokens st))"
    using weight_view [of toks] assms(4) len by simp
  then have "parses (Suc (length (ps_tokens st))) s" using parses_syntax(1) assms(5) by blast
  then have "runs st R (parse_type_rec (Suc (length (ps_tokens st)))) st (type_of s) []"
    using v assms(7) unfolding parses_def by auto
  then obtain st' where st': "parse_type st = P_Ok (type_of s) st'" "viewing st R st' []"
    unfolding runs_def parse_type_def by blast
  have "st' = st\<lparr>ps_current := ps_current st + length toks\<rparr>"
  proof -
    have p: "pendingGreater st' = 0" and same: "ps_tokens st' = ps_tokens st" "moved st st'"
      using st'(2) by (auto simp: viewing_def split: if_splits)
    then obtain us where us: "drop (ps_current st') (ps_tokens st) = us @ R" "source_view us = []"
      using st'(2) by (auto simp: viewing_def)
    then have "drop (ps_current st') (ps_tokens st) = R" by (cases us) (auto split: if_splits)
    then have "length R = length (ps_tokens st) - ps_current st'" by (metis length_drop)
    moreover have "length toks + length R = length (ps_tokens st) - ps_current st"
      using arg_cong [OF assms(1), of length] by simp
    ultimately have "ps_current st' = ps_current st + length toks" using assms(2) by (cases R) auto
    with p moved_fields(4) [OF same(2)] assms(3) show ?thesis by simp
  qed
  with st'(1) show ?thesis by simp
qed

text \<open>C6: every written type parses to the type it denotes. Where the tokens ahead spell a type, with
  each >> counted as two closing brackets, and the token behind the type does not continue it,
  parse_type returns that type and stops right behind its tokens, with no bracket pending, provided
  that no >> is directly followed by one of the tokens that continue a type. The types are the
  built-in ones, structs, generic structs nested to any depth, pointers, arrays and nullable types.\<close>

theorem parse_type_roundtrip:
  assumes "drop (ps_current st) (ps_tokens st) = toks @ R" "R \<noteq> []" "pendingGreater st = 0"
    and "source_view toks = spell s" "syntax_ok s"
    and "split_safe toks R" "ends_type (t_type (hd R))"
  shows "parse_type st = P_Ok (type_of s) (st\<lparr>ps_current := ps_current st + length toks\<rparr>)"
  by (rule parse_type_spelled [OF assms])

definition spelled :: "signature list \<Rightarrow> token list" where
  "spelled sgs = map (\<lambda>(ty, v). \<lparr>t_position = \<lparr>p_fileId = ''main'', p_line = 1, p_column = 1, p_index = 0\<rparr>,
     t_type = ty, t_value = v\<rparr>) sgs"

definition parsed :: "'a outcome \<Rightarrow> 'a option" where
  "parsed r = (case r of P_Ok x st \<Rightarrow> Some x | _ \<Rightarrow> None)"

definition sample_written :: "signature list" where
  "sample_written = [(T_IDENTIFIER, ''Array''), (T_LESS, []), (T_IDENTIFIER, ''Array''), (T_LESS, []),
     (T_IDENTIFIER, ''f32''), (T_GREATER_GREATER, [])]"

definition sample_syntax :: type_syntax where
  "sample_syntax =
     TS (TH_Generic ''Array'' [TS (TH_Generic ''Array'' [TS (TH_Word ''f32'') 0 False False]) 0 False False]) 0 False False"

lemma sample_premises:
  "source_view (spelled sample_written) = spell sample_syntax" "syntax_ok sample_syntax"
  "split_safe (spelled sample_written) (spelled [(T_IDENTIFIER, ''x''), (T_END_OF_FILE, [])])"
  "ends_type (t_type (hd (spelled [(T_IDENTIFIER, ''x''), (T_END_OF_FILE, [])])))"
  by code_simp+

theorem parse_type_roundtrip_witness:
  "parse_type (new_parser (spelled (sample_written @ [(T_IDENTIFIER, ''x''), (T_END_OF_FILE, [])])))
     = P_Ok (type_of sample_syntax)
         ((new_parser (spelled (sample_written @ [(T_IDENTIFIER, ''x''), (T_END_OF_FILE, [])])))\<lparr>ps_current := 6\<rparr>)"
  using parse_type_roundtrip [of "new_parser (spelled (sample_written @ [(T_IDENTIFIER, ''x''), (T_END_OF_FILE, [])]))"
      "spelled sample_written" "spelled [(T_IDENTIFIER, ''x''), (T_END_OF_FILE, [])]" sample_syntax] sample_premises
  by (simp add: new_parser_def spelled_def sample_written_def)

text \<open>The condition on >> is needed. In Map<Array<Array<T>>, V> the second bracket of >> is
  still pending when the parser looks for a comma, so it takes the comma for one of the inner list
  and returns Map<Array<Array<T>, V>>; and in Array<Array<T>>* the star goes to the inner type.\<close>

theorem nested_generic_misparse:
  "parsed (parse_type (new_parser (spelled [(T_IDENTIFIER, ''Map''), (T_LESS, []), (T_IDENTIFIER, ''Array''), (T_LESS, []),
       (T_IDENTIFIER, ''Array''), (T_LESS, []), (T_IDENTIFIER, ''T''), (T_GREATER_GREATER, []), (T_COMMA, []),
       (T_IDENTIFIER, ''V''), (T_GREATER, []), (T_IDENTIFIER, ''m''), (T_END_OF_FILE, [])])))
     = Some (generic_struct_type ''Map'' [generic_struct_type ''Array''
         [generic_struct_type ''Array'' [struct_type ''T''], struct_type ''V'']])
   \<and> parsed (parse_type (new_parser (spelled [(T_IDENTIFIER, ''Array''), (T_LESS, []),
       (T_IDENTIFIER, ''Array''), (T_LESS, []), (T_IDENTIFIER, ''T''), (T_GREATER_GREATER, []), (T_STAR, []),
       (T_IDENTIFIER, ''p''), (T_END_OF_FILE, [])])))
     = Some (generic_struct_type ''Array'' [pointer_type (generic_struct_type ''Array'' [struct_type ''T''])])"
  by code_simp

end
