(* ===== verification/Parser_Declarations.thy ===== *)
theory Parser_Declarations
  imports Parser_Types
begin

text \<open>
  The parse functions for the declarations made of names and types only: modifiers, qualified
  names, imports, \<^verbatim>\<open>throws\<close> and \<^verbatim>\<open>where\<close> clauses and extern functions, with the names of the
  overloaded operators. Loops take fuel, as in the parser of types.
\<close>

section \<open>Names\<close>

type_synonym qualified_name = "string list"

definition isQualified :: "qualified_name \<Rightarrow> bool" where
  "isQualified q \<longleftrightarrow> 1 < length q"

definition lastName :: "qualified_name \<Rightarrow> string" where
  "lastName q = (if q = [] then [] else last q)"

fun qualified_toString :: "qualified_name \<Rightarrow> string" where
  "qualified_toString [] = []"
| "qualified_toString [p] = p"
| "qualified_toString (p # q # ps) = p @ ''::'' @ qualified_toString (q # ps)"

definition namespacePath :: "qualified_name \<Rightarrow> string list" where
  "namespacePath q = (if length q \<le> 1 then [] else butlast q)"

definition checkContextual :: "string \<Rightarrow> bool parser" where
  "checkContextual keyword =
     pbind (p_check T_IDENTIFIER) (\<lambda>b. if b then pbind p_peek (\<lambda>t. ret (t_value t = keyword)) else ret False)"

fun parse_name_parts :: "nat \<Rightarrow> qualified_name \<Rightarrow> qualified_name parser" where
  "parse_name_parts 0 q = (\<lambda>st. P_Fuel)"
| "parse_name_parts (Suc k) q =
     pbind (p_match T_COLON_COLON) (\<lambda>b.
       if b then pbind (p_expect (''Esperado identificador '' @ after_word @ '' '' @ quoted ''::'') T_IDENTIFIER)
                   (\<lambda>t. parse_name_parts k (q @ [t_value t]))
       else ret q)"

definition parse_qualified_name :: "qualified_name parser" where
  "parse_qualified_name =
     pbind (p_expect ''Esperado identificador'' T_IDENTIFIER) (\<lambda>t st.
       parse_name_parts (Suc (length (ps_tokens st))) [t_value t] st)"

definition parse_import :: "qualified_name parser" where
  "parse_import =
     pbind (p_expect (''Esperado '' @ quoted ''import'') T_IMPORT) (\<lambda>_.
     pbind parse_qualified_name (\<lambda>q.
     pbind (p_expect (''Esperado '' @ quoted '';'' @ '' '' @ after_word @ '' import'') T_SEMICOLON) (\<lambda>_. ret q)))"

section \<open>Modifiers and operators\<close>

datatype visibility_modifier = VM_PUBLIC | VM_PRIVATE | VM_STATIC

fun parse_modifiers_loop :: "nat \<Rightarrow> visibility_modifier list \<Rightarrow> visibility_modifier list parser" where
  "parse_modifiers_loop 0 ms = (\<lambda>st. P_Fuel)"
| "parse_modifiers_loop (Suc k) ms =
     pbind (p_match T_PUBLIC) (\<lambda>b. if b then parse_modifiers_loop k (ms @ [VM_PUBLIC])
       else pbind (p_match T_PRIVATE) (\<lambda>b. if b then parse_modifiers_loop k (ms @ [VM_PRIVATE])
       else pbind (p_match T_STATIC) (\<lambda>b. if b then parse_modifiers_loop k (ms @ [VM_STATIC])
       else pbind (p_match T_UNSAFE) (\<lambda>b. if b then parse_modifiers_loop k ms else ret ms))))"

definition parse_modifiers :: "visibility_modifier list parser" where
  "parse_modifiers st = parse_modifiers_loop (Suc (length (ps_tokens st))) [] st"

definition operator_names :: "(token_type \<times> string) list" where
  "operator_names = [
     (T_PLUS, ''__op_add''), (T_MINUS, ''__op_sub''), (T_STAR, ''__op_mul''), (T_SLASH, ''__op_div''),
     (T_PERCENT, ''__op_mod''), (T_EQUAL_EQUAL, ''__op_eq''), (T_BANG_EQUAL, ''__op_neq''),
     (T_LESS, ''__op_lt''), (T_LESS_EQUAL, ''__op_lte''), (T_GREATER, ''__op_gt''),
     (T_GREATER_EQUAL, ''__op_gte''), (T_AMPERSAND, ''__op_bitand''), (T_PIPE, ''__op_bitor''),
     (T_CARET, ''__op_bitxor''), (T_TILDE, ''__op_bitnot''), (T_LESS_LESS, ''__op_shl''),
     (T_GREATER_GREATER, ''__op_shr''), (T_AND_AND, ''__op_and''), (T_OR_OR, ''__op_or''), (T_BANG, ''__op_not'')]"

definition operator_token_to_canonical_name :: "token_type \<Rightarrow> string" where
  "operator_token_to_canonical_name ty = (case map_of operator_names ty of Some n \<Rightarrow> n | None \<Rightarrow> [])"

section \<open>Clauses\<close>

fun parse_type_list :: "nat \<Rightarrow> type_t list \<Rightarrow> type_t list parser" where
  "parse_type_list 0 ts = (\<lambda>st. P_Fuel)"
| "parse_type_list (Suc k) ts =
     pbind parse_type (\<lambda>t.
     pbind (p_match T_COMMA) (\<lambda>b. if b then parse_type_list k (ts @ [copy_type t]) else ret (ts @ [copy_type t])))"

text \<open>\<^verbatim>\<open>parse_throws_clause\<close> sets its two arguments, false and empty at every call.\<close>

definition parse_throws_clause :: "(bool \<times> type_t list) parser" where
  "parse_throws_clause =
     pbind (p_match T_THROWS) (\<lambda>b.
       if b then pbind (p_match T_LPAREN) (\<lambda>p.
              if p then pbind (\<lambda>st. parse_type_list (Suc (length (ps_tokens st))) [] st) (\<lambda>ts.
                     pbind (p_expect (''Esperado '' @ quoted '')'' @ '' '' @ after_word @ '' tipos de throws'') T_RPAREN)
                       (\<lambda>_. ret (False, ts)))
              else ret (True, []))
       else ret (False, []))"

fun parse_constraints :: "nat \<Rightarrow> string list \<Rightarrow> string list parser" where
  "parse_constraints 0 cs = (\<lambda>st. P_Fuel)"
| "parse_constraints (Suc k) cs =
     pbind (p_expect ''Esperado nome da interface constraint'' T_IDENTIFIER) (\<lambda>t.
     pbind (p_match T_COMMA) (\<lambda>b. if b then parse_constraints k (cs @ [t_value t]) else ret (cs @ [t_value t])))"

text \<open>The first parameter of the name gets the constraints.\<close>

fun add_constraints :: "string \<Rightarrow> string list \<Rightarrow> generic_param list \<Rightarrow> generic_param list" where
  "add_constraints n cs [] = []"
| "add_constraints n cs (p # ps) =
     (if gp_name p = n then p\<lparr>gp_constraints := gp_constraints p @ cs\<rparr> # ps else p # add_constraints n cs ps)"

definition parse_where_clause :: "generic_param list \<Rightarrow> generic_param list parser" where
  "parse_where_clause params =
     pbind (p_expect (''Experado '' @ quoted ''where'' @ '' antes de uma constraint'') T_WHERE) (\<lambda>_.
     pbind (p_expect (''Esperado nome do par'' @ [CHR 0xC3, CHR 0xA2] @ ''metro gen'' @ [CHR 0xC3, CHR 0xA9]
              @ ''rico na cl'' @ [CHR 0xC3, CHR 0xA1] @ ''usula where'') T_IDENTIFIER) (\<lambda>t.
     if find_param params (t_value t) = None
     then parser_error UNEXPECTED_TOKEN (quoted (t_value t) @ '' is not a generic parameter'')
            (at_position (t_position t) (length (t_value t)))
     else pbind (p_expect (''Esperado '' @ quoted '':'' @ '' '' @ after_word @ '' nome do par'' @ [CHR 0xC3, CHR 0xA2]
              @ ''metro na cl'' @ [CHR 0xC3, CHR 0xA1] @ ''usula where'') T_COLON) (\<lambda>_.
          pbind (\<lambda>st. parse_constraints (Suc (length (ps_tokens st))) [] st) (\<lambda>cs.
          pbind (p_match T_SEMICOLON) (\<lambda>_. ret (add_constraints (t_value t) cs params))))))"

section \<open>Extern functions\<close>

record extern_parameter =
  ep_type :: type_t
  ep_name :: ident
  ep_isMutable :: bool

record extern_declaration =
  ex_name :: ident
  ex_returnType :: type_t
  ex_parameters :: "extern_parameter list"
  ex_isVariadic :: bool
  ex_location :: source_location
  ex_abi :: string

definition parse_extern_parameter :: "extern_parameter parser" where
  "parse_extern_parameter =
     pbind parse_type (\<lambda>ty.
     pbind (p_expect (''Esperado nome do par'' @ [CHR 0xC3, CHR 0xA2] @ ''metro'') T_IDENTIFIER) (\<lambda>t.
     pbind (makeSourceIdentifier t) (\<lambda>n.
     pbind (p_match T_MUT) (\<lambda>m. ret \<lparr>ep_type = ty, ep_name = n, ep_isMutable = m\<rparr>))))"

fun parse_extern_parameters :: "nat \<Rightarrow> extern_parameter list \<Rightarrow> extern_parameter list parser" where
  "parse_extern_parameters 0 ps = (\<lambda>st. P_Fuel)"
| "parse_extern_parameters (Suc k) ps =
     pbind (pbind (p_check T_RPAREN) (\<lambda>close. if close then ret False
              else pbind (p_check T_DOT_DOT_DOT) (\<lambda>dots. ret (\<not> dots)))) (\<lambda>more.
     pbind (if more then pbind parse_extern_parameter (\<lambda>p. ret (ps @ [p])) else ret ps) (\<lambda>ps.
     pbind (p_match T_COMMA) (\<lambda>b. if b then parse_extern_parameters k ps else ret ps)))"

definition parse_extern_function :: "string \<Rightarrow> extern_declaration parser" where
  "parse_extern_function abi =
     pbind here (\<lambda>initial.
     pbind parse_type (\<lambda>ty.
     pbind (p_expect ''Esperado nome'' T_IDENTIFIER) (\<lambda>t.
     pbind (p_expect (''Esperado '' @ quoted ''('') T_LPAREN) (\<lambda>_.
     pbind (\<lambda>st. parse_extern_parameters (Suc (length (ps_tokens st))) [] st) (\<lambda>ps.
     pbind (p_match T_DOT_DOT_DOT) (\<lambda>variadic.
     pbind (p_expect (''Esperado '' @ quoted '')'') T_RPAREN) (\<lambda>_.
     pbind here (\<lambda>final.
     pbind (p_expect (''Esperado '' @ quoted '';'') T_SEMICOLON) (\<lambda>_.
     pbind (makeSourceIdentifier t) (\<lambda>n.
     pbind (spanned final initial) (\<lambda>loc.
     ret \<lparr>ex_name = n, ex_returnType = ty, ex_parameters = ps, ex_isVariadic = variadic,
          ex_location = loc, ex_abi = abi\<rparr>)))))))))))"

text \<open>
  \<^verbatim>\<open>parse_extern\<close> adds to the program as it goes: the declarations read before an error stay.
\<close>

fun parse_extern_block ::
  "nat \<Rightarrow> string \<Rightarrow> extern_declaration list \<Rightarrow> parser_state \<Rightarrow> extern_declaration list \<times> unit outcome" where
  "parse_extern_block 0 abi ds st = (ds, P_Fuel)"
| "parse_extern_block (Suc k) abi ds st =
     (case pbind (p_check T_RBRACE) (\<lambda>b. if b then ret True else p_isAtEnd) st of
        P_Ok True st' \<Rightarrow> (ds, pbind (p_expect (''Esperado '' @ quoted ''}'') T_RBRACE) (\<lambda>_. ret ()) st')
      | P_Ok False st' \<Rightarrow>
          (case parse_extern_function abi st' of
             P_Ok d st'' \<Rightarrow> parse_extern_block k abi (ds @ [d]) st''
           | P_Error e st'' \<Rightarrow> (ds, P_Error e st'')
           | P_Raise e \<Rightarrow> (ds, P_Raise e)
           | P_Abort \<Rightarrow> (ds, P_Abort)
           | P_Undefined \<Rightarrow> (ds, P_Undefined)
           | P_Fuel \<Rightarrow> (ds, P_Fuel))
      | P_Error e st' \<Rightarrow> (ds, P_Error e st')
      | P_Raise e \<Rightarrow> (ds, P_Raise e)
      | P_Abort \<Rightarrow> (ds, P_Abort)
      | P_Undefined \<Rightarrow> (ds, P_Undefined)
      | P_Fuel \<Rightarrow> (ds, P_Fuel))"

definition parse_extern_head :: "(string \<times> bool) parser" where
  "parse_extern_head =
     pbind (p_expect (''Esperado '' @ quoted ''extern'') T_EXTERN) (\<lambda>_.
     pbind (p_match T_STRING_LITERAL) (\<lambda>b.
     pbind (if b then pbind p_previous (\<lambda>t. ret (t_value t)) else ret ''C'') (\<lambda>abi.
     pbind (p_match T_LBRACE) (\<lambda>block. ret (abi, block)))))"

definition parse_extern ::
  "extern_declaration list \<Rightarrow> parser_state \<Rightarrow> extern_declaration list \<times> unit outcome" where
  "parse_extern ds st =
     (case parse_extern_head st of
        P_Ok (abi, block) st' \<Rightarrow>
          if block then parse_extern_block (Suc (length (ps_tokens st'))) abi ds st'
          else (case parse_extern_function abi st' of
                  P_Ok d st'' \<Rightarrow> (ds @ [d], P_Ok () st'')
                | P_Error e st'' \<Rightarrow> (ds, P_Error e st'')
                | P_Raise e \<Rightarrow> (ds, P_Raise e)
                | P_Abort \<Rightarrow> (ds, P_Abort)
                | P_Undefined \<Rightarrow> (ds, P_Undefined)
                | P_Fuel \<Rightarrow> (ds, P_Fuel))
      | P_Error e st' \<Rightarrow> (ds, P_Error e st')
      | P_Raise e \<Rightarrow> (ds, P_Raise e)
      | P_Abort \<Rightarrow> (ds, P_Abort)
      | P_Undefined \<Rightarrow> (ds, P_Undefined)
      | P_Fuel \<Rightarrow> (ds, P_Fuel))"

end
