(* ===== verification/Type_Words.thy ===== *)
theory Type_Words
  imports Parser_Types
begin

text \<open>
  Which words the parser takes for the beginning of a type, as a list of spellings against the tests of
  \<^verbatim>\<open>Parser::isType\<close> and \<^verbatim>\<open>parse_integer_type_name\<close>: the native and alias names, a letter with
  digits and an overflow or non-zero suffix, the float names with or without an integer suffix, and
  the structs declared so far unless their names begin like a built-in type.
\<close>

section \<open>Integer words\<close>

definition integer_suffixes :: "string list" where
  "integer_suffixes = ['''', ''n'', ''w'', ''t'', ''c'', ''s'', ''nw'', ''nt'', ''nc'', ''ns'', ''wn'', ''tn'', ''cn'', ''sn'']"

definition integer_word :: "string \<Rightarrow> string \<Rightarrow> bool" where
  "integer_word v ds \<longleftrightarrow> ds \<noteq> [] \<and> list_all isdigit ds \<and>
     (\<exists>c \<in> set ''iu''. \<exists>suf \<in> set integer_suffixes. v = c # ds @ suf)"

lemma strip_two:
  assumes "strip_suffixes 2 xs OM_None False = (ds, m, nz)"
  shows "\<exists>suf \<in> set integer_suffixes. xs = ds @ suf"
proof (cases xs rule: rev_cases)
  case Nil
  then show ?thesis using assms by (simp add: numeral_2_eq_2 integer_suffixes_def)
next
  case (snoc ys c)
  show ?thesis
  proof (cases ys rule: rev_cases)
    case Nil
    then show ?thesis using assms snoc
      by (auto simp: numeral_2_eq_2 integer_suffixes_def modeFromChar_def split: if_splits)
  next
    case (snoc zs d)
    then show ?thesis using assms \<open>xs = ys @ [c]\<close>
      by (auto simp: numeral_2_eq_2 integer_suffixes_def modeFromChar_def butlast_append split: if_splits)
  qed
qed

lemma strip_suffixes_word:
  assumes "ds \<noteq> []" "list_all isdigit ds" "suf \<in> set integer_suffixes"
  shows "fst (strip_suffixes 2 (ds @ suf) OM_None False) = ds"
proof -
  obtain es d where d: "ds = es @ [d]" using assms(1) by (cases ds rule: rev_cases) auto
  then have "isdigit d" using assms(2) by simp
  then have nd: "d \<noteq> CHR ''n''" "modeFromChar d = None"
    by (auto simp: isdigit_def modeFromChar_def)
  show ?thesis using assms(3) nd unfolding d
    by (auto simp: integer_suffixes_def numeral_2_eq_2 modeFromChar_def butlast_append)
qed

lemma integer_word_unique: "integer_word v ds \<Longrightarrow> integer_word v es \<Longrightarrow> ds = es"
  unfolding integer_word_def by (metis strip_suffixes_word list.inject)

text \<open>A word of an integer type whose width is too large for a long.\<close>

definition too_wide :: "string \<Rightarrow> bool" where
  "too_wide v \<longleftrightarrow> (\<exists>ds. integer_word v ds \<and> 9223372036854775807 < decimal_value ds)"

definition native_words :: "string list" where
  "native_words = [''nint'', ''nintw'', ''nintt'', ''nintc'', ''nints'', ''isize'', ''usize'']"

lemma parse_word_digits:
  assumes "v \<notin> set native_words" "c \<in> set ''iu''" "v = c # xs" "xs \<noteq> []"
    "strip_suffixes 2 xs OM_None False = (ds, m, nz)"
  shows "(if ds = [] \<or> \<not> list_all isdigit ds then parse_integer_type_name v = Inr None
     else if 9223372036854775807 < decimal_value ds then parse_integer_type_name v = Inl StolOutOfRange
     else \<exists>n. parse_integer_type_name v = Inr (Some n))"
  using assms
  by (auto simp: parse_integer_type_name_def native_words_def stol_digits_def Suc_le_eq)

lemma parse_not_word:
  assumes "v \<notin> set native_words" "\<nexists>ds. integer_word v ds"
  shows "parse_integer_type_name v = Inr None"
proof (cases "\<exists>c xs. v = c # xs \<and> c \<in> set ''iu'' \<and> xs \<noteq> []")
  case True
  then obtain c xs where v: "v = c # xs" "c \<in> set ''iu''" "xs \<noteq> []" by blast
  obtain ds m nz where s: "strip_suffixes 2 xs OM_None False = (ds, m, nz)"
    by (cases "strip_suffixes 2 xs OM_None False") auto
  have "ds = [] \<or> \<not> list_all isdigit ds"
    using strip_two [OF s] v assms(2) by (auto simp: integer_word_def)
  then show ?thesis using parse_word_digits [OF assms(1) v(2,1,3) s] by auto
next
  case False
  have "v = ''nint'' @ [v ! 4]" if "length v = 5" "take 4 v = ''nint''"
    using that take_Suc_conv_app_nth [of 4 v] by simp
  then have "v \<in> set native_words" if "length v = 5" "take 4 v = ''nint''" "modeFromChar (v ! 4) \<noteq> None"
    using that by (auto simp: native_words_def modeFromChar_def split: if_splits)
  then have "modeFromChar (v ! 4) = None" if "length v = 5" "take 4 v = ''nint''"
    using that assms(1) by blast
  moreover have "length v < 2 \<or> hd v \<noteq> CHR ''i'' \<and> hd v \<noteq> CHR ''u''"
    using False by (cases v; cases "tl v") auto
  ultimately show ?thesis using assms(1)
    unfolding parse_integer_type_name_def by (auto simp: native_words_def)
qed

lemma parse_word:
  assumes "integer_word v ds"
  shows "if 9223372036854775807 < decimal_value ds then parse_integer_type_name v = Inl StolOutOfRange
     else \<exists>n. parse_integer_type_name v = Inr (Some n)"
proof -
  obtain c suf where v: "v = c # ds @ suf" "c \<in> set ''iu''" "suf \<in> set integer_suffixes"
    and d: "ds \<noteq> []" "list_all isdigit ds" using assms by (auto simp: integer_word_def)
  obtain ds' m nz where s: "strip_suffixes 2 (ds @ suf) OM_None False = (ds', m, nz)"
    by (cases "strip_suffixes 2 (ds @ suf) OM_None False") auto
  then have "ds' = ds" using strip_suffixes_word [OF d v(3)] by simp
  moreover have "v \<notin> set native_words"
    using v d by (cases ds) (auto simp: native_words_def isdigit_def)
  ultimately show ?thesis using parse_word_digits [OF _ v(2,1) _ s] d by auto
qed


section \<open>The test of the parser\<close>

definition names_type :: "string \<Rightarrow> parse_scopes \<Rightarrow> bool" where
  "names_type v scs \<longleftrightarrow>
     v \<in> set native_words
     \<or> (\<exists>ds. integer_word v ds)
     \<or> v \<in> set [''f16'', ''f32'', ''f64'', ''f128'', ''nfloat'', ''ndouble'', ''ptr'', ''void'', ''auto'', ''var'']
     \<or> (\<exists>f \<in> set [''f16'', ''f32'', ''f64'', ''f128'']. \<exists>c \<in> set ''wtcsn''. v = f @ [c])
     \<or> has_struct_declared v scs \<and> \<not> (\<exists>c \<in> set ''fiu''. starts_with [c] v) \<and> \<not> starts_with ''nint'' v"

lemma native_words_parse: "list_all (\<lambda>w. is_int_name w = Inr True) native_words"
  by code_simp

lemma is_int_name_exact:
  "is_int_name v = (if too_wide v then Inl StolOutOfRange
     else Inr (v \<in> set native_words \<or> (\<exists>ds. integer_word v ds)))"
proof (cases "\<exists>ds. integer_word v ds")
  case True
  then obtain ds where ds: "integer_word v ds" by blast
  then have "too_wide v \<longleftrightarrow> 9223372036854775807 < decimal_value ds"
    using integer_word_unique by (auto simp: too_wide_def)
  then show ?thesis using parse_word [OF ds] True by (auto simp: is_int_name_def split: if_splits)
next
  case False
  moreover have "v \<in> set native_words \<Longrightarrow> is_int_name v = Inr True"
    using native_words_parse by (simp add: list_all_iff)
  moreover have "\<not> too_wide v" using False by (simp add: too_wide_def)
  ultimately show ?thesis using parse_not_word [of v]
    by (cases "v \<in> set native_words") (simp_all add: is_int_name_def [of v])
qed

lemma snoc_in: "(\<exists>f \<in> A. \<exists>c \<in> B. ys @ [d] = f @ [c]) \<longleftrightarrow> ys \<in> A \<and> d \<in> B"
  by auto

lemma float_with_suffix:
  "isFloatWithIntSuffix v \<longleftrightarrow>
     (\<exists>f \<in> set [''f16'', ''f32'', ''f64'', ''f128'']. \<exists>c \<in> set ''wtcsn''. v = f @ [c])"
proof (cases v rule: rev_cases)
  case Nil
  then show ?thesis by (simp add: isFloatWithIntSuffix_def)
next
  case (snoc ys d)
  have "starts_with ''f'' (ys @ [d]) \<and> 3 < length (ys @ [d]) \<and> ys \<in> set string_to_type_kind
      \<longleftrightarrow> ys \<in> set [''f16'', ''f32'', ''f64'', ''f128'']"
  proof -
    have "set (filter (\<lambda>w. starts_with ''f'' w \<and> 2 < length w) string_to_type_kind)
        = set [''f16'', ''f32'', ''f64'', ''f128'']" by code_simp
    moreover have "starts_with ''f'' (ys @ [d]) \<and> 3 < length (ys @ [d])
        \<longleftrightarrow> starts_with ''f'' ys \<and> 2 < length ys" by (cases ys) auto
    ultimately show ?thesis by (auto simp only: set_filter)
  qed
  then show ?thesis unfolding snoc snoc_in by (auto simp: isFloatWithIntSuffix_def is_int_suffix_def)
qed

lemma float_word: "isFloatWithIntSuffix v \<Longrightarrow> \<exists>xs. v = CHR ''f'' # xs"
  by (cases v) (auto simp: isFloatWithIntSuffix_def)

lemmas names_type_alt = names_type_def [folded float_with_suffix]

lemma integer_word_head: "integer_word (c # xs) ds \<Longrightarrow> c = CHR ''i'' \<or> c = CHR ''u''"
  by (auto simp: integer_word_def)

lemma isType_token_exact:
  "isType_token t scs =
     (if t_type t \<in> {T_AUTO, T_VOID} then Inr True
      else if t_type t \<noteq> T_IDENTIFIER then Inr False
      else if too_wide (t_value t) then Inl StolOutOfRange
      else Inr (names_type (t_value t) scs))"
proof (cases "\<exists>c xs. t_value t = c # xs")
  case False
  then have v: "t_value t = []" by (cases "t_value t") auto
  then show ?thesis
    by (auto simp: Let_def isType_token_def too_wide_def integer_word_def names_type_def native_words_def)
next
  case True
  then obtain c xs where v: "t_value t = c # xs" by blast
  note rules = isType_token_def is_int_name_exact names_type_alt v Let_def too_wide_def
    native_words_def string_to_type_kind_def
  consider "c = CHR ''i''" | "c = CHR ''u''" | "c = CHR ''f''" | "c = CHR ''n''" |
    "c \<notin> set ''iufn''" by auto
  then show ?thesis
  proof cases
    case 1
    then show ?thesis by (auto dest: float_word simp: rules)
  next
    case 2
    then show ?thesis by (auto dest: float_word simp: rules)
  next
    case 3
    then have "\<not> integer_word (c # xs) ds" for ds by (auto dest: integer_word_head)
    then show ?thesis using 3 by (auto simp: rules)
  next
    case 4
    then have "\<not> integer_word (c # xs) ds" for ds by (auto dest: integer_word_head)
    then show ?thesis using 4 by (auto dest: float_word simp: rules)
  next
    case 5
    then have "\<not> integer_word (c # xs) ds" for ds by (auto dest: integer_word_head)
    then show ?thesis using 5 by (auto dest: float_word simp: rules)
  qed
qed

end
