(* ===== verification/Parser_Correct.thy ===== *)
theory Parser_Correct
  imports Parser_Grammar Parser_Declarations Type_Words
begin

text \<open>
  Error recovery, against an explicit list of the places where it stops, and the round trip of
  qualified names.
\<close>

section \<open>Recovery\<close>

definition current_token :: "parser_state \<Rightarrow> token" where
  "current_token st = ps_tokens st ! ps_current st"

text \<open>Where a new declaration may be read, and the words on which reading throws.\<close>

definition recovery_tokens :: "token_type list" where
  "recovery_tokens = [T_END_OF_FILE, T_IMPORT, T_EXTERN, T_NAMESPACE, T_ENUM, T_INTERFACE, T_STRUCT,
     T_LBRACKET, T_AUTO, T_VOID]"

definition recovery_point :: "token \<Rightarrow> parse_scopes \<Rightarrow> bool" where
  "recovery_point t scs \<longleftrightarrow>
     t_type t \<in> set recovery_tokens
     \<or> t_type t = T_IDENTIFIER \<and> names_type (t_value t) scs \<and> \<not> too_wide (t_value t)"

definition wide_point :: "token \<Rightarrow> bool" where
  "wide_point t \<longleftrightarrow> t_type t = T_IDENTIFIER \<and> too_wide (t_value t)"

lemma stops_here:
  "isType_token t scs = (if wide_point t then Inl StolOutOfRange else
     Inr (t_type t \<in> {T_AUTO, T_VOID} \<or> t_type t = T_IDENTIFIER \<and> names_type (t_value t) scs))"
  by (auto simp: isType_token_exact wide_point_def)

lemma recovery_point_iff:
  "recovery_point t scs \<longleftrightarrow>
     t_type t = T_END_OF_FILE \<or> is_declaration_start (t_type t) \<or> isType_token t scs = Inr True"
  by (auto simp: recovery_point_def stops_here wide_point_def recovery_tokens_def is_declaration_start_def)

definition skipped :: "parser_state \<Rightarrow> parser_state \<Rightarrow> token list" where
  "skipped st st' = take (ps_current st' - ps_current st) (drop (ps_current st) (ps_tokens st))"

lemma skipped_step:
  assumes "parser_ok st" "forward (st\<lparr>ps_current := Suc (ps_current st)\<rparr>) st'"
  shows "skipped st st' = current_token st # skipped (st\<lparr>ps_current := Suc (ps_current st)\<rparr>) st'"
proof -
  have "drop (ps_current st) (ps_tokens st) = current_token st # drop (Suc (ps_current st)) (ps_tokens st)"
    using assms(1) by (simp add: parser_ok_def current_token_def Cons_nth_drop_Suc)
  moreover have "Suc (ps_current st) \<le> ps_current st'" using assms(2) by (simp add: forward_def)
  then have "ps_current st' - ps_current st = Suc (ps_current st' - Suc (ps_current st))" by linarith
  ultimately show ?thesis by (simp add: skipped_def)
qed

lemma wp_isType:
  "parser_ok st \<Longrightarrow> wp isType Q E st =
     (case isType_token (current_token st) (ps_scopes st) of Inl e \<Rightarrow> True | Inr b \<Rightarrow> Q b st)"
  by (simp add: isType_def current_token_def) (simp add: wp_def lift_raise_def split: sum.split)

declare synchronize_loop.simps [simp del]

lemma wp_synchronize:
  assumes "parser_ok st" "remaining st \<le> k"
  shows "wp (synchronize_loop k) (\<lambda>_ st'. forward st st' \<and> recovery_point (current_token st') (ps_scopes st)
           \<and> list_all (\<lambda>t. \<not> recovery_point t (ps_scopes st)) (skipped st st')
           \<and> pendingGreater st' = pendingGreater st) E st"
  using assms
proof (induction k arbitrary: st)
  case 0
  then show ?case by (simp add: parser_ok_def remaining_def)
next
  case (Suc k)
  let ?t = "current_token st" and ?st = "st\<lparr>ps_current := Suc (ps_current st)\<rparr>"
  have skip0: "skipped st st = []" by (simp add: skipped_def)
  have step: "wp (synchronize_loop k) (\<lambda>_ st'. forward st st' \<and> recovery_point (current_token st') (ps_scopes st)
           \<and> list_all (\<lambda>t. \<not> recovery_point t (ps_scopes st)) (skipped st st')
           \<and> pendingGreater st' = pendingGreater st) E ?st"
    if "\<not> recovery_point ?t (ps_scopes st)"
  proof -
    have "t_type (ps_tokens st ! ps_current st) \<noteq> T_END_OF_FILE"
      using that by (simp add: recovery_point_iff current_token_def)
    then have ok: "parser_ok ?st" using parser_ok_step Suc.prems(1) by blast
    then have "remaining ?st \<le> k" using Suc.prems by (simp add: remaining_def parser_ok_def)
    from Suc.IH [OF ok this] show ?thesis
      using that skipped_step [OF Suc.prems(1)]
      by (auto simp: wp_def forward_def split: outcome.splits)
  qed
  show ?case
    using Suc.prems(1) step skip0
    by (auto simp: synchronize_loop.simps wp_isType wp_advance recovery_point_iff current_token_def split: sum.split)
qed

lemma synchronize_step:
  assumes "parser_ok st"
  shows "synchronize_loop (Suc k) st =
    (if recovery_point (current_token st) (ps_scopes st) then P_Ok () st
     else if wide_point (current_token st) then P_Raise (Esc_Type StolOutOfRange)
     else synchronize_loop k (st\<lparr>ps_current := Suc (ps_current st)\<rparr>))"
proof -
  have c: "ps_current st < length (ps_tokens st)" using assms by (simp add: parser_ok_def)
  have "is_declaration_start T_IDENTIFIER = False" "is_declaration_start T_END_OF_FILE = False"
    by (simp_all add: is_declaration_start_def)
  then show ?thesis
  using c by (auto simp: synchronize_loop.simps pbind_def p_isAtEnd_def p_peek_def ret_def
     isType_def lift_raise_def recovery_point_iff stops_here p_advance_def p_step_def p_previous_def current_token_def
     wide_point_def)
qed

lemma synchronize_loop_exact:
  assumes "parser_ok st" "remaining st \<le> k"
  shows "\<exists>pre t suf. drop (ps_current st) (ps_tokens st) = pre @ t # suf
     \<and> list_all (\<lambda>u. \<not> recovery_point u (ps_scopes st) \<and> \<not> wide_point u) pre
     \<and> (if wide_point t then synchronize_loop k st = P_Raise (Esc_Type StolOutOfRange)
        else recovery_point t (ps_scopes st)
          \<and> synchronize_loop k st = P_Ok () (st\<lparr>ps_current := ps_current st + length pre\<rparr>))"
  using assms
proof (induction k arbitrary: st)
  case 0
  then show ?case by (simp add: parser_ok_def remaining_def)
next
  case (Suc k)
  let ?t = "current_token st" and ?st = "st\<lparr>ps_current := Suc (ps_current st)\<rparr>"
  have d: "drop (ps_current st) (ps_tokens st) = ?t # drop (Suc (ps_current st)) (ps_tokens st)"
    using Suc.prems by (simp add: parser_ok_def current_token_def Cons_nth_drop_Suc)
  show ?case
  proof (cases "recovery_point ?t (ps_scopes st) \<or> wide_point ?t")
    case True
    then have "\<not> (recovery_point ?t (ps_scopes st) \<and> wide_point ?t)"
      by (auto simp: recovery_point_def wide_point_def recovery_tokens_def)
    then show ?thesis unfolding d using True Suc.prems
      by (intro exI [of _ "[]"] exI [of _ ?t] exI [of _ "drop (Suc (ps_current st)) (ps_tokens st)"]) (auto simp: synchronize_step)
  next
    case False
    then have "t_type (ps_tokens st ! ps_current st) \<noteq> T_END_OF_FILE"
      by (auto simp: recovery_point_def recovery_tokens_def current_token_def)
    then have ok: "parser_ok ?st" using parser_ok_step Suc.prems(1) by blast
    then have "remaining ?st \<le> k" using Suc.prems by (simp add: remaining_def parser_ok_def)
    moreover have st: "ps_scopes ?st = ps_scopes st" "ps_tokens ?st = ps_tokens st"
      "ps_current ?st = Suc (ps_current st)" "?st\<lparr>ps_current := i\<rparr> = st\<lparr>ps_current := i\<rparr>" for i
      by simp_all
    ultimately obtain pre t suf where
      "drop (Suc (ps_current st)) (ps_tokens st) = pre @ t # suf"
      "list_all (\<lambda>u. \<not> recovery_point u (ps_scopes st) \<and> \<not> wide_point u) pre"
      "if wide_point t then synchronize_loop k ?st = P_Raise (Esc_Type StolOutOfRange)
        else recovery_point t (ps_scopes st)
          \<and> synchronize_loop k ?st = P_Ok () (st\<lparr>ps_current := Suc (ps_current st) + length pre\<rparr>)"
      using Suc.IH [OF ok, unfolded st] by blast
    then show ?thesis unfolding d using False
      by (intro exI [of _ "?t # pre"] exI [of _ t] exI [of _ suf]) (auto simp: synchronize_step [OF Suc.prems(1)])
  qed
qed

text \<open>C13: Error recovery always comes to an end, at the first token it looks for. Of the tokens from
  the present one on, synchronize skips exactly those before the first one that is the end of the
  file, import, extern, namespace, enum, interface, struct, an opening bracket, auto, void, or an
  identifier that spells a type: an integer or float type name, ptr, var, a native type, or a struct
  declared so far whose name does not begin like a built-in type. It changes nothing but the
  position, a pending closing bracket is still pending. Where it first meets the name of an integer
  type whose width does not fit a long, reading the name throws instead. The tokens impl, const,
  constexpr, consteval, macro, static, async, unsafe and if, with which declarations also begin, are
  skipped. The parser stands behind the first token of a list whose last token is an end of file.\<close>

theorem synchronize_stops:
  assumes "parser_ok st"
  shows "\<exists>pre t suf. drop (ps_current st) (ps_tokens st) = pre @ t # suf
     \<and> list_all (\<lambda>u. \<not> recovery_point u (ps_scopes st) \<and> \<not> wide_point u) pre
     \<and> (if wide_point t then synchronize st = P_Raise (Esc_Type StolOutOfRange)
        else recovery_point t (ps_scopes st)
          \<and> synchronize st = P_Ok () (st\<lparr>ps_current := ps_current st + length pre\<rparr>))"
  unfolding synchronize_def by (rule synchronize_loop_exact [OF assms]) (simp add: remaining_def)

definition broken_tokens :: "token list" where
  "broken_tokens = spelled [(T_LPAREN, ''(''), (T_RPAREN, '')''), (T_SEMICOLON, '';''), (T_STRUCT, ''struct''),
     (T_IDENTIFIER, ''S''), (T_END_OF_FILE, [])]"

definition broken_state :: parser_state where
  "broken_state = (new_parser broken_tokens)\<lparr>ps_current := 1\<rparr>"

lemma broken_state_fields:
  "ps_current broken_state = 1" "ps_tokens broken_state = broken_tokens"
  "ps_scopes broken_state = [new_parse_scope]" "parser_ok broken_state"
  by (simp_all add: broken_state_def new_parser_def parser_ok_def broken_tokens_def spelled_def)

theorem synchronize_stops_witness:
  "\<exists>pre t suf. drop 1 broken_tokens = pre @ t # suf
     \<and> list_all (\<lambda>u. \<not> recovery_point u [new_parse_scope] \<and> \<not> wide_point u) pre
     \<and> (if wide_point t then synchronize broken_state = P_Raise (Esc_Type StolOutOfRange)
        else recovery_point t [new_parse_scope]
          \<and> synchronize broken_state = P_Ok () (broken_state\<lparr>ps_current := 1 + length pre\<rparr>))"
  using synchronize_stops [OF broken_state_fields(4)] unfolding broken_state_fields(1-3) .

section \<open>Qualified names\<close>

fun spell_name :: "qualified_name \<Rightarrow> signature list" where
  "spell_name [] = []"
| "spell_name [p] = [(T_IDENTIFIER, p)]"
| "spell_name (p # q # ps) = (T_IDENTIFIER, p) # (T_COLON_COLON, []) # spell_name (q # ps)"

lemma match_head:
  assumes "drop (ps_current st) (ps_tokens st) = t # ts" "ty \<noteq> T_GREATER" "ty \<noteq> T_END_OF_FILE"
  shows "p_match ty st = (if t_type t = ty then P_Ok True (st\<lparr>ps_current := Suc (ps_current st)\<rparr>) else P_Ok False st)"
    and "t_type t = ty \<Longrightarrow> p_expect msg ty st = P_Ok t (st\<lparr>ps_current := Suc (ps_current st)\<rparr>)"
  using peek_head [OF assms(1)] advance_head(1) [OF assms(1)] assms(2,3)
  by (auto simp: p_match_def p_expect_def p_check_def pbind_def ret_def)

lemma parse_name_parts_spelled:
  assumes "drop (ps_current st) (ps_tokens st) = toks @ R" "R \<noteq> []" "t_type (hd R) \<noteq> T_COLON_COLON"
    and "map signature_of toks = concat (map (\<lambda>p. [(T_COLON_COLON, []), (T_IDENTIFIER, p)]) ps)"
    and "length ps < k"
  shows "parse_name_parts k q st = P_Ok (q @ ps) (st\<lparr>ps_current := ps_current st + length toks\<rparr>)"
  using assms(1,4,5)
proof (induction ps arbitrary: k q st toks)
  case Nil
  then obtain k' where "k = Suc k'" by (cases k) auto
  moreover obtain r R' where "R = r # R'" using assms(2) by (cases R) auto
  ultimately show ?case
    using Nil assms(3) match_head(1) [of st r R' T_COLON_COLON] by (simp add: pbind_def ret_def)
next
  case (Cons p ps)
  then obtain k' where k: "k = Suc k'" by (cases k) auto
  from Cons.prems(2) obtain c i us where toks: "toks = c # i # us" and
    s: "signature_of c = (T_COLON_COLON, [])" "signature_of i = (T_IDENTIFIER, p)"
    "map signature_of us = concat (map (\<lambda>p. [(T_COLON_COLON, []), (T_IDENTIFIER, p)]) ps)"
    by (auto simp: map_eq_Cons_conv)
  have c: "t_type c = T_COLON_COLON" "t_type i = T_IDENTIFIER" "t_value i = p"
    using s by (auto simp: signature_of_def starts_type_def)
  have d: "drop (ps_current st) (ps_tokens st) = c # i # us @ R" using Cons.prems(1) toks by simp
  let ?st1 = "st\<lparr>ps_current := Suc (ps_current st)\<rparr>"
  let ?st2 = "st\<lparr>ps_current := Suc (Suc (ps_current st))\<rparr>"
  have d1: "drop (ps_current ?st1) (ps_tokens ?st1) = i # us @ R"
    using advance_head(2) [OF d] c by simp
  have d2: "drop (ps_current ?st2) (ps_tokens ?st2) = us @ R"
    using advance_head(2) [OF d1] c by simp
  have "parse_name_parts k' (q @ [p]) ?st2 = P_Ok ((q @ [p]) @ ps) (?st2\<lparr>ps_current := ps_current ?st2 + length us\<rparr>)"
    using Cons.prems(3) k by (intro Cons.IH [OF d2 s(3)]) simp
  then show ?case
    using match_head(1) [OF d, of T_COLON_COLON] match_head(2) [OF d1, of T_IDENTIFIER] c k toks
    by (simp add: pbind_def)
qed

lemma spell_name_Cons:
  "spell_name (p # ps) = (T_IDENTIFIER, p) # concat (map (\<lambda>p. [(T_COLON_COLON, []), (T_IDENTIFIER, p)]) ps)"
  by (induction ps arbitrary: p) auto

text \<open>qualified names read back. Tokens that spell a non-empty sequence of identifiers joined by
  ::, followed by a token other than ::, parse to exactly these parts, and the parser stops
  right behind them.\<close>

theorem qualified_name_roundtrip:
  assumes "drop (ps_current st) (ps_tokens st) = toks @ R" "R \<noteq> []" "t_type (hd R) \<noteq> T_COLON_COLON"
    and "map signature_of toks = spell_name q" "q \<noteq> []"
  shows "parse_qualified_name st = P_Ok q (st\<lparr>ps_current := ps_current st + length toks\<rparr>)"
proof -
  obtain p ps where q: "q = p # ps" using assms(5) by (cases q) auto
  from assms(4) obtain i us where toks: "toks = i # us" and s: "signature_of i = (T_IDENTIFIER, p)"
    "map signature_of us = concat (map (\<lambda>p. [(T_COLON_COLON, []), (T_IDENTIFIER, p)]) ps)"
    unfolding q spell_name_Cons by (auto simp: map_eq_Cons_conv)
  have i: "t_type i = T_IDENTIFIER" "t_value i = p" using s by (auto simp: signature_of_def starts_type_def)
  have d: "drop (ps_current st) (ps_tokens st) = i # us @ R" using assms(1) toks by simp
  let ?st1 = "st\<lparr>ps_current := Suc (ps_current st)\<rparr>"
  have d1: "drop (ps_current ?st1) (ps_tokens ?st1) = us @ R" using advance_head(2) [OF d] i by simp
  have "length us = 2 * length ps" using arg_cong [OF s(2), of length] by (simp add: length_concat o_def sum_list_triv)
  moreover have "length us < length (ps_tokens st)"
    using arg_cong [OF d, of length] by auto
  ultimately have "parse_name_parts (Suc (length (ps_tokens ?st1))) [p] ?st1
      = P_Ok ([p] @ ps) (?st1\<lparr>ps_current := ps_current ?st1 + length us\<rparr>)"
    by (intro parse_name_parts_spelled [OF d1 assms(2,3) s(2)]) simp
  then show ?thesis
    using match_head(2) [OF d, of T_IDENTIFIER] i toks q
    by (simp add: parse_qualified_name_def pbind_def [of "p_expect _ _"] del: parse_name_parts.simps)
qed

theorem qualified_name_roundtrip_witness:
  "parse_qualified_name (new_parser (spelled (spell_name [''std'', ''io''] @ [(T_SEMICOLON, [])])))
     = P_Ok [''std'', ''io''] ((new_parser (spelled (spell_name [''std'', ''io''] @ [(T_SEMICOLON, [])])))\<lparr>ps_current := 3\<rparr>)"
  using qualified_name_roundtrip [of "new_parser (spelled (spell_name [''std'', ''io''] @ [(T_SEMICOLON, [])]))"
      "spelled (spell_name [''std'', ''io''])" "spelled [(T_SEMICOLON, [])]" "[''std'', ''io'']"]
  by (simp add: new_parser_def spelled_def signature_of_def starts_type_def)

end
