(* ===== verification/Parser_Macros.thy ===== *)
theory Parser_Macros
  imports Parser_Declarations
begin

text \<open>
  Macros (\<^verbatim>\<open>parse_macro\<close>, \<^verbatim>\<open>collect_macro_arg_tokens\<close> and \<^verbatim>\<open>expand_macro\<close> of \<^verbatim>\<open>parser/Parser.cpp\<close>). An
  expansion swaps the token vector of the parser for the expanded body and parses an expression
  there; the parser of expressions is an argument. The vector is put back only when that parser
  returns: an error leaves the parser on the tokens of the macro.
\<close>

section \<open>Messages\<close>

definition esperado :: "string \<Rightarrow> string" where
  "esperado x = ''Esperado '' @ quoted x"

definition esperado_apos :: "string \<Rightarrow> string \<Rightarrow> string" where
  "esperado_apos x w = esperado x @ '' '' @ after_word @ '' '' @ w"

definition a_tilde :: string where "a_tilde = [CHR 0xC3, CHR 0xA3]"
definition a_acute :: string where "a_acute = [CHR 0xC3, CHR 0xA1]"
definition a_circ :: string where "a_circ = [CHR 0xC3, CHR 0xA2]"
definition e_acute :: string where "e_acute = [CHR 0xC3, CHR 0xA9]"
definition i_acute :: string where "i_acute = [CHR 0xC3, CHR 0xAD]"
definition c_cedil :: string where "c_cedil = [CHR 0xC3, CHR 0xA7]"
definition em_dash :: string where "em_dash = [CHR 0xE2, CHR 0x80, CHR 0x94]"

definition nome_parametro :: string where
  "nome_parametro = ''Esperado nome do par'' @ a_circ @ ''metro''"

section \<open>Declaring a macro\<close>

text \<open>The word \<^verbatim>\<open>local\<close>, consumed when it is there.\<close>

definition match_local :: "bool parser" where
  "match_local = p_if (checkContextual ''local'') (pbind p_advance (\<lambda>_. ret True)) (ret False)"

definition fragment_named :: "string \<Rightarrow> macro_fragment_type" where
  "fragment_named w =
     (if w = ''literal'' then MF_LITERAL else if w = ''type'' then MF_TYPE
      else if w = ''block'' then MF_BLOCK else MF_IDENTIFIER)"

definition local_not_valid :: "string \<Rightarrow> token \<Rightarrow> 'a parser" where
  "local_not_valid what t =
     parser_error EXPECTED_EXPRESSION
       (''modificador '' @ quoted ''local'' @ '' n'' @ a_tilde @ ''o '' @ e_acute @ '' v'' @ a_acute @ ''lido para '' @ what)
       (token_location t)"

definition parse_macro_parameter :: "bool \<Rightarrow> macro_parameter parser" where
  "parse_macro_parameter ruleLocal =
     pbind (if ruleLocal then ret True else match_local) (\<lambda>isLocal.
     pbind (p_expect ''Esperado tipo do fragmento ou token literal'' T_IDENTIFIER) (\<lambda>frag.
     if t_value frag = ''expression'' then
       pbind (p_expect nome_parametro T_IDENTIFIER) (\<lambda>n.
       pbind (makeSourceIdentifier n) (\<lambda>i.
       ret \<lparr>mp_fragment = MF_EXPRESSION, mp_name = i, mp_isLocal = isLocal, mp_literal = []\<rparr>))
     else if t_value frag \<in> {''identifier'', ''literal'', ''type'', ''block''} then
       if isLocal then local_not_valid (''fragmento '' @ quoted (t_value frag)) frag
       else pbind (p_expect nome_parametro T_IDENTIFIER) (\<lambda>n.
            pbind (makeSourceIdentifier n) (\<lambda>i.
            ret \<lparr>mp_fragment = fragment_named (t_value frag), mp_name = i, mp_isLocal = False, mp_literal = []\<rparr>))
     else if isLocal then local_not_valid ''token literal'' frag
     else pbind (makeSourceIdentifier frag) (\<lambda>i.
          ret \<lparr>mp_fragment = MF_LITERAL_TOKEN, mp_name = i, mp_isLocal = False, mp_literal = t_value frag\<rparr>)))"

definition at_close :: "token_type \<Rightarrow> bool parser" where
  "at_close ty = p_if (p_check ty) (ret True) p_isAtEnd"

fun parse_macro_parameters :: "nat \<Rightarrow> bool \<Rightarrow> macro_parameter list \<Rightarrow> macro_parameter list parser" where
  "parse_macro_parameters 0 rl ps = (\<lambda>st. P_Fuel)"
| "parse_macro_parameters (Suc k) rl ps =
     p_if (at_close T_RPAREN) (ret ps)
       (pbind (if ps \<noteq> [] then pbind (p_expect (esperado '','') T_COMMA) (\<lambda>_. ret ()) else ret ()) (\<lambda>_.
        pbind (parse_macro_parameter rl) (\<lambda>p. parse_macro_parameters k rl (ps @ [p]))))"

text \<open>The tokens up to the brace that closes the body, which is not among them.\<close>

fun parse_macro_body :: "nat \<Rightarrow> int \<Rightarrow> token list \<Rightarrow> token list parser" where
  "parse_macro_body 0 depth ts = (\<lambda>st. P_Fuel)"
| "parse_macro_body (Suc k) depth ts =
     p_if (pbind p_isAtEnd (\<lambda>e. ret (depth \<le> 0 \<or> e))) (ret ts)
       (pbind (p_if (p_check T_LBRACE) (ret (depth + 1))
                 (p_if (p_check T_RBRACE) (ret (depth - 1)) (ret depth))) (\<lambda>d.
        if d = 0 then ret ts
        else pbind p_peek (\<lambda>t. pbind p_advance (\<lambda>_. parse_macro_body k d (ts @ [t])))))"

definition count_uses :: "string \<Rightarrow> token list \<Rightarrow> nat" where
  "count_uses n ts = length (filter (\<lambda>t. t_type t = T_IDENTIFIER \<and> t_value t = n) ts)"

definition side_effect_warning :: "string \<Rightarrow> macro_parameter \<Rightarrow> nat \<Rightarrow> diagnostic" where
  "side_effect_warning m p n =
     new_diagnostic Sev_Warning MACRO_POSSIBLE_SIDE_EFFECT
       (''macro '' @ quoted m @ '': parameter '' @ quoted (token_name (mp_name p)) @ '' is used '' @ to_string n
        @ '' times without '' @ quoted ''local'' @ '', which may cause side effects. Consider using ''
        @ quoted (''local expr '' @ token_name (mp_name p))) (id_location (mp_name p))"

definition side_effect_warnings :: "string \<Rightarrow> macro_rule \<Rightarrow> diagnostic list" where
  "side_effect_warnings m r =
     map (\<lambda>p. side_effect_warning m p (count_uses (token_name (mp_name p)) (mr_body r)))
       (filter (\<lambda>p. \<not> mp_isLocal p \<and> mp_fragment p = MF_EXPRESSION
                    \<and> 1 < count_uses (token_name (mp_name p)) (mr_body r)) (mr_parameters r))"

definition p_warn :: "diagnostic list \<Rightarrow> unit parser" where
  "p_warn ds st = P_Ok () (st\<lparr>ps_warnings := ps_warnings st @ ds\<rparr>)"

definition same_parameters :: "macro_rule \<Rightarrow> macro_rule \<Rightarrow> bool" where
  "same_parameters r s \<longleftrightarrow>
     map mp_fragment (mr_parameters r) = map mp_fragment (mr_parameters s)
     \<and> map mp_literal (mr_parameters r) = map mp_literal (mr_parameters s)"

definition ambiguous_with :: "macro_rule list \<Rightarrow> macro_rule \<Rightarrow> nat option" where
  "ambiguous_with rules r = find (\<lambda>i. same_parameters (rules ! i) r) [0..<length rules]"

definition parse_macro_rule :: "string \<Rightarrow> macro_rule list \<Rightarrow> macro_rule parser" where
  "parse_macro_rule m rules =
     pbind here (\<lambda>loc.
     pbind match_local (\<lambda>rl.
     pbind (p_expect (''Esperado '' @ quoted ''('' @ '' para par'' @ a_circ @ ''metros da macro'') T_LPAREN) (\<lambda>_.
     pbind (with_rounds (\<lambda>k. parse_macro_parameters k rl [])) (\<lambda>ps.
     pbind (p_expect (esperado '')'') T_RPAREN) (\<lambda>_.
     pbind (p_expect (esperado ''=>'') T_ARROW) (\<lambda>_.
     pbind (p_if (p_check T_VOID) (pbind p_advance (\<lambda>_. ret (True, [])))
              (pbind (p_expect (esperado ''{'') T_LBRACE) (\<lambda>_.
               pbind (with_rounds (\<lambda>k. parse_macro_body k 1 [])) (\<lambda>ts.
               pbind (p_expect (esperado ''}'') T_RBRACE) (\<lambda>_. ret (False, ts)))))) (\<lambda>(v, ts).
     let r = \<lparr>mr_parameters = ps, mr_body = ts, mr_location = loc, mr_isVoid = v\<rparr> in
     pbind (p_warn (side_effect_warnings m r)) (\<lambda>_.
     case ambiguous_with rules r of
       None \<Rightarrow> ret r
     | Some i \<Rightarrow> parser_error EXPECTED_EXPRESSION
         (''macro '' @ quoted m @ '': regra '' @ to_string (length rules + 1) @ '' amb'' @ i_acute @ ''gua '' @ em_dash
          @ '' regra '' @ to_string (i + 1) @ '' cont'' @ e_acute @ ''m a mesma assinatura'') loc))))))))"

fun parse_macro_rules :: "nat \<Rightarrow> string \<Rightarrow> macro_rule list \<Rightarrow> macro_rule list parser" where
  "parse_macro_rules 0 m rs = (\<lambda>st. P_Fuel)"
| "parse_macro_rules (Suc k) m rs =
     p_if (at_close T_RBRACE) (ret rs)
       (pbind (parse_macro_rule m rs) (\<lambda>r. parse_macro_rules k m (rs @ [r])))"

definition parse_macro :: "macro_declaration parser" where
  "parse_macro =
     pbind here (\<lambda>loc.
     pbind (p_expect (esperado ''macro'') T_MACRO) (\<lambda>_.
     pbind (p_expect ''Esperado nome da macro'' T_IDENTIFIER) (\<lambda>t.
     pbind (makeSourceIdentifier t) (\<lambda>n.
     pbind (p_expect (esperado ''{'') T_LBRACE) (\<lambda>_.
     pbind (with_rounds (\<lambda>k. parse_macro_rules k (t_value t) [])) (\<lambda>rs.
     pbind (p_expect (esperado ''}'') T_RBRACE) (\<lambda>_.
     ret \<lparr>md_name = n, md_rules = rs, md_location = loc\<rparr>)))))))"

section \<open>Using a macro\<close>

text \<open>The tokens of one argument: up to a comma or a closing parenthesis outside all brackets.\<close>

fun collect_macro_arg_rounds :: "nat \<Rightarrow> int \<Rightarrow> int \<Rightarrow> int \<Rightarrow> token list \<Rightarrow> token list parser" where
  "collect_macro_arg_rounds 0 pd kd bd ts = (\<lambda>st. P_Fuel)"
| "collect_macro_arg_rounds (Suc k) pd kd bd ts =
     p_if p_isAtEnd (ret ts)
       (pbind p_peek (\<lambda>t.
        let ty = t_type t;
            go = (\<lambda>pd kd bd. pbind p_advance (\<lambda>_. collect_macro_arg_rounds k pd kd bd (ts @ [t])))
        in if ty = T_LPAREN then go (pd + 1) kd bd
           else if ty = T_RPAREN then (if pd = 0 then ret ts else go (pd - 1) kd bd)
           else if ty = T_LBRACKET then go pd (kd + 1) bd
           else if ty = T_RBRACKET then go pd (kd - 1) bd
           else if ty = T_LBRACE then go pd kd (bd + 1)
           else if ty = T_RBRACE then go pd kd (bd - 1)
           else if ty = T_COMMA \<and> pd = 0 \<and> kd = 0 \<and> bd = 0 then ret ts
           else go pd kd bd))"

definition collect_macro_arg_tokens :: "token list parser" where
  "collect_macro_arg_tokens = with_rounds (\<lambda>k. collect_macro_arg_rounds k 0 0 0 [])"

fun collect_macro_args :: "nat \<Rightarrow> token list list \<Rightarrow> token list list parser" where
  "collect_macro_args 0 as = (\<lambda>st. P_Fuel)"
| "collect_macro_args (Suc k) as =
     p_if (at_close T_RPAREN) (ret as)
       (pbind (if as \<noteq> [] then pbind (p_expect (esperado '','') T_COMMA) (\<lambda>_. ret ()) else ret ()) (\<lambda>_.
        pbind collect_macro_arg_tokens (\<lambda>a. collect_macro_args k (as @ [a]))))"

definition fragment_accepts :: "macro_parameter \<Rightarrow> token list \<Rightarrow> bool" where
  "fragment_accepts p ts =
     (case mp_fragment p of
        MF_LITERAL_TOKEN \<Rightarrow>
          length ts = 1 \<and> t_type (hd ts) = T_IDENTIFIER \<and> t_value (hd ts) = mp_literal p
      | MF_IDENTIFIER \<Rightarrow> length ts = 1 \<and> t_type (hd ts) = T_IDENTIFIER
      | MF_LITERAL \<Rightarrow>
          length ts = 1 \<and> t_type (hd ts) \<in> {T_INTEGER_LITERAL, T_FLOAT_LITERAL, T_STRING_LITERAL}
      | MF_BLOCK \<Rightarrow> ts \<noteq> [] \<and> t_type (hd ts) = T_LBRACE
      | _ \<Rightarrow> True)"

definition rule_accepts :: "token list list \<Rightarrow> macro_rule \<Rightarrow> bool" where
  "rule_accepts as r \<longleftrightarrow> list_all2 fragment_accepts (mr_parameters r) as"

definition match_rule :: "macro_rule list \<Rightarrow> token list list \<Rightarrow> macro_rule option" where
  "match_rule rules as = find (rule_accepts as) rules"

definition hasLocals :: "macro_rule \<Rightarrow> bool" where
  "hasLocals r \<longleftrightarrow> list_ex mp_isLocal (mr_parameters r)"

definition local_name :: "string \<Rightarrow> nat \<Rightarrow> macro_parameter \<Rightarrow> string" where
  "local_name m n p = ''__macro_'' @ m @ ''_'' @ token_name (mp_name p) @ ''_'' @ to_string n"

text \<open>What an identifier of the body becomes when it is the name of a parameter.\<close>

definition parameter_tokens :: "string \<Rightarrow> nat \<Rightarrow> position \<Rightarrow> macro_parameter \<Rightarrow> token list \<Rightarrow> token list" where
  "parameter_tokens m n loc p as =
     (if mp_fragment p \<in> {MF_IDENTIFIER, MF_LITERAL} then [hd as]
      else if mp_fragment p \<in> {MF_TYPE, MF_BLOCK} then as
      else if mp_isLocal p
      then [\<lparr>t_position = loc, t_type = T_IDENTIFIER, t_value = local_name m n p\<rparr>]
      else \<lparr>t_position = loc, t_type = T_LPAREN, t_value = ''(''\<rparr> # as
           @ [\<lparr>t_position = loc, t_type = T_RPAREN, t_value = '')''\<rparr>])"

definition expand_token :: "string \<Rightarrow> nat \<Rightarrow> macro_rule \<Rightarrow> token list list \<Rightarrow> token \<Rightarrow> token list" where
  "expand_token m n r as t =
     (if t_type t \<noteq> T_IDENTIFIER then [t]
      else case find (\<lambda>(p, a). mp_fragment p \<noteq> MF_LITERAL_TOKEN \<and> token_name (mp_name p) = t_value t)
                  (zip (mr_parameters r) as) of
             Some (p, a) \<Rightarrow> parameter_tokens m n (t_position t) p a
           | None \<Rightarrow> [t])"

definition no_position :: position where
  "no_position = \<lparr>p_fileId = [], p_line = 0, p_column = 0, p_index = 0\<rparr>"

definition end_token :: token where
  "end_token = \<lparr>t_position = no_position, t_type = T_END_OF_FILE, t_value = []\<rparr>"

definition expand_body :: "string \<Rightarrow> nat \<Rightarrow> macro_rule \<Rightarrow> token list list \<Rightarrow> token list" where
  "expand_body m n r as = concat (map (expand_token m n r as) (mr_body r)) @ [end_token]"

section \<open>The record of an expansion\<close>

definition values_of :: "token list \<Rightarrow> string" where
  "values_of ts = concat (map t_value ts)"

definition locals_text :: "macro_rule \<Rightarrow> token list list \<Rightarrow> string" where
  "locals_text r as =
     concat (map (\<lambda>(p, a). if mp_isLocal p then ''auto '' @ token_name (mp_name p) @ '' = '' @ values_of a @ ''; '' else [])
       (zip (mr_parameters r) as))"

definition body_token_text :: "macro_rule \<Rightarrow> token list list \<Rightarrow> string \<Rightarrow> token \<Rightarrow> string" where
  "body_token_text r as text t =
     (case (if t_type t = T_IDENTIFIER
            then find (\<lambda>(p, a). token_name (mp_name p) = t_value t) (zip (mr_parameters r) as) else None) of
        Some (p, a) \<Rightarrow>
          text @ (if mp_isLocal p then token_name (mp_name p) else ''('' @ values_of a @ '')'')
      | None \<Rightarrow>
          text
          @ (if text \<noteq> [] \<and> t_value t \<noteq> ''('' \<and> t_value t \<noteq> '')'' \<and> last text \<noteq> CHR ''('' \<and> last text \<noteq> CHR '')''
             then '' '' else [])
          @ t_value t)"

definition expansion_text :: "macro_rule \<Rightarrow> token list list \<Rightarrow> string" where
  "expansion_text r as = foldl (body_token_text r as) (locals_text r as) (mr_body r)"

fun args_text :: "token list list \<Rightarrow> string" where
  "args_text [] = []"
| "args_text [a] = values_of a"
| "args_text (a # b # as) = values_of a @ '', '' @ args_text (b # as)"

definition expansion_record :: "string \<Rightarrow> macro_rule \<Rightarrow> token list list \<Rightarrow> macro_expansion" where
  "expansion_record m r as =
     \<lparr>mx_name = m, mx_args = args_text as, mx_text = expansion_text r as,
      mx_line = (if as \<noteq> [] \<and> hd as \<noteq> [] then unat (p_line (t_position (hd (hd as)))) else 0)\<rparr>"

section \<open>Expanding\<close>

definition p_count_expansion :: "nat parser" where
  "p_count_expansion st =
     P_Ok (macroExpansionCounter st) (st\<lparr>macroExpansionCounter := macroExpansionCounter st + 1\<rparr>)"

definition p_record_expansion :: "macro_expansion \<Rightarrow> unit parser" where
  "p_record_expansion x st = P_Ok () (st\<lparr>macroExpansions := macroExpansions st @ [x]\<rparr>)"

definition p_tokens :: "token list parser" where
  "p_tokens st = P_Ok (ps_tokens st) st"

definition p_load :: "token list \<Rightarrow> nat \<Rightarrow> unit parser" where
  "p_load ts n st = P_Ok () (st\<lparr>ps_tokens := ts, ps_current := n\<rparr>)"

fun parse_locals :: "expression parser \<Rightarrow> (string \<times> token list) list \<Rightarrow> (string \<times> expression) list parser" where
  "parse_locals p [] = ret []"
| "parse_locals p ((n, a) # ls) =
     pbind (p_load (a @ [end_token]) 0) (\<lambda>_.
     pbind p (\<lambda>e. pbind (parse_locals p ls) (\<lambda>es. ret ((n, e) # es))))"

definition expand_rule :: "expression parser \<Rightarrow> string \<Rightarrow> macro_rule \<Rightarrow> token list list \<Rightarrow> expression parser" where
  "expand_rule p m r as =
     pbind p_count_expansion (\<lambda>n.
     pbind (p_record_expansion (expansion_record m r as)) (\<lambda>_.
     pbind p_tokens (\<lambda>saved.
     pbind p_mark (\<lambda>at.
     pbind (parse_locals p (map (\<lambda>(q, a). (local_name m n q, a)) (filter (mp_isLocal \<circ> fst) (zip (mr_parameters r) as)))) (\<lambda>ls.
     pbind (p_load (expand_body m n r as) 0) (\<lambda>_.
     pbind p (\<lambda>e.
     pbind (p_load saved at) (\<lambda>_.
     ret (if hasLocals r then E_Macro ls e else e)))))))))"

definition expand_macro :: "expression parser \<Rightarrow> macro_declaration \<Rightarrow> expression parser" where
  "expand_macro p md =
     (let m = token_name (md_name md) in
      if md_rules md = []
      then parser_error EXPECTED_EXPRESSION
             (''macro '' @ quoted m @ '' n'' @ a_tilde @ ''o tem regras definidas'') (md_location md)
      else pbind (with_rounds (\<lambda>k. collect_macro_args (Suc k) [])) (\<lambda>as.
           pbind (p_expect (esperado '')'') T_RPAREN) (\<lambda>_.
           case match_rule (md_rules md) as of
             None \<Rightarrow> parser_error EXPECTED_EXPRESSION
               (''macro '' @ quoted m @ '' n'' @ a_tilde @ ''o tem regra que corresponda aos argumentos fornecidos'')
               (md_location md)
           | Some r \<Rightarrow>
               if mr_isVoid r then ret (E_IntegerLiteral ''0'' False OM_None no_location)
               else expand_rule p m r as)))"

end
