(* ===== verification/Parser_Expressions.thy ===== *)
theory Parser_Expressions
  imports Parser_Macros
begin

text \<open>
  The expressions of \<^verbatim>\<open>parser/Parser.cpp\<close>. The parse functions call each other without a bound, so each
  takes the parsers it calls recursively as the fields of a \<open>grammar\<close>; \<^verbatim>\<open>Parser_Statements\<close> ties the
  knot with a bound on the depth of the recursion. Loops are bounded by the number of tokens.
\<close>

record grammar =
  g_expression :: "expression parser"
  g_ternary :: "expression parser"
  g_unary :: "expression parser"
  g_block :: "statement list parser"
  g_statement :: "statement parser"
  g_if :: "statement parser"

section \<open>Lists of expressions\<close>

fun expression_list :: "nat \<Rightarrow> expression parser \<Rightarrow> expression list \<Rightarrow> expression list parser" where
  "expression_list 0 p es = (\<lambda>st. P_Fuel)"
| "expression_list (Suc k) p es =
     pbind p (\<lambda>e. p_if (p_match T_COMMA) (expression_list k p (es @ [e])) (ret (es @ [e])))"

definition comma_list :: "expression parser \<Rightarrow> token_type \<Rightarrow> expression list parser" where
  "comma_list p close = p_if (p_check close) (ret []) (with_rounds (\<lambda>k. expression_list k p []))"

section \<open>Interpolated strings\<close>

text \<open>A parser of its own on other tokens: only its result or its error comes back.\<close>

definition p_sub :: "'a parser \<Rightarrow> token list \<Rightarrow> 'a parser" where
  "p_sub p toks st =
     (case p (new_parser toks) of
        P_Ok x st' \<Rightarrow> P_Ok x st
      | P_Error e st' \<Rightarrow> P_Error e st
      | P_Raise e \<Rightarrow> P_Raise e
      | P_Abort \<Rightarrow> P_Abort
      | P_Undefined \<Rightarrow> P_Undefined
      | P_Fuel \<Rightarrow> P_Fuel)"

definition parse_placeholder :: "expression parser \<Rightarrow> string \<Rightarrow> string \<Rightarrow> expression parser" where
  "parse_placeholder p file inner st =
     (case tokenize (Lexer inner file) of
        Inl e \<Rightarrow> P_Raise (Esc_Lex e)
      | Inr toks \<Rightarrow> p_sub p toks st)"

text \<open>
  What is left of the text, the text of the new format and the expressions found so far; the next
  placeholder gets the number \<open>n + length es\<close>.
\<close>

function interpolate :: "expression parser \<Rightarrow> string \<Rightarrow> nat \<Rightarrow> string \<Rightarrow> string \<Rightarrow> expression list
    \<Rightarrow> (string \<times> expression list) parser" where
  "interpolate p file n [] fmt es = ret (fmt, es)"
| "interpolate p file n (c # cs) fmt es =
     (if c \<noteq> CHR ''{'' \<or> CHR ''}'' \<notin> set cs then interpolate p file n cs (fmt @ [c]) es
      else (let inner = takeWhile (\<lambda>x. x \<noteq> CHR ''}'') cs; rest = drop (Suc (length inner)) cs in
            if inner = [] \<or> isdigit (hd inner)
            then interpolate p file n rest (fmt @ ''{'' @ inner @ ''}'') es
            else pbind (parse_placeholder p file inner) (\<lambda>e.
                 interpolate p file n rest (fmt @ ''{'' @ to_string (n + length es) @ ''}'') (es @ [e]))))"
  by pat_completeness auto

termination
  by (relation "measure (\<lambda>(p, file, n, cs, fmt, es). length cs)") auto

definition expand_interpolation_args :: "expression parser \<Rightarrow> expression list \<Rightarrow> expression list parser" where
  "expand_interpolation_args p args =
     (case args of
        E_StringLiteral v l # as \<Rightarrow>
          if CHR ''{'' \<notin> set v then ret args
          else pbind (interpolate p (loc_fileId l) (length as) v [] []) (\<lambda>(fmt, es).
               ret (if es = [] then args else E_StringLiteral fmt l # as @ es))
      | _ \<Rightarrow> ret args)"

section \<open>Literals and initializers\<close>

definition overflow_suffix :: "char \<Rightarrow> overflow_mode" where
  "overflow_suffix c =
     (if c = CHR ''t'' then OM_Trapped else if c = CHR ''c'' then OM_Checked
      else if c = CHR ''s'' then OM_Saturating else OM_Wrapped)"

definition integer_literal :: "string \<Rightarrow> source_location \<Rightarrow> expression" where
  "integer_literal v loc =
     (let hex = 2 < length v \<and> v ! 0 = CHR ''0'' \<and> (v ! 1 = CHR ''x'' \<or> v ! 1 = CHR ''X'');
          ends = (\<lambda>c. v \<noteq> [] \<and> last v = c)
      in if ends (CHR ''i'') then E_IntegerLiteral (butlast v) True OM_None loc
         else if ends (CHR ''u'') then E_IntegerLiteral (butlast v) False OM_None loc
         else if 1 < length v \<and> (ends (CHR ''w'') \<or> ends (CHR ''t'') \<or> ends (CHR ''s'') \<or> \<not> hex \<and> ends (CHR ''c''))
         then E_IntegerLiteral (butlast v) True (overflow_suffix (last v)) loc
         else E_IntegerLiteral v True OM_None loc)"

definition brace_element :: "expression parser \<Rightarrow> (ident option \<times> expression) parser" where
  "brace_element p =
     p_if (p_match T_DOT)
       (pbind (p_expect ''Esperado nome do campo'' T_IDENTIFIER) (\<lambda>t.
        pbind (p_expect (esperado_apos ''='' ''nome do campo'') T_EQUAL) (\<lambda>_.
        pbind p (\<lambda>e.
        pbind (makeSourceIdentifier t) (\<lambda>i. ret (Some i, e))))))
       (pbind p (\<lambda>e. ret (None, e)))"

fun brace_elements ::
  "nat \<Rightarrow> expression parser \<Rightarrow> (ident option \<times> expression) list \<Rightarrow> (ident option \<times> expression) list parser" where
  "brace_elements 0 p es = (\<lambda>st. P_Fuel)"
| "brace_elements (Suc k) p es =
     pbind (brace_element p) (\<lambda>e. p_if (p_match T_COMMA) (brace_elements k p (es @ [e])) (ret (es @ [e])))"

definition parse_brace_initializer :: "expression parser \<Rightarrow> string \<Rightarrow> expression parser" where
  "parse_brace_initializer p structTypeName =
     pbind here (\<lambda>initial.
     pbind (p_expect (esperado ''{'') T_LBRACE) (\<lambda>_.
     pbind (p_if (p_check T_RBRACE) (ret []) (with_rounds (\<lambda>k. brace_elements k p []))) (\<lambda>es.
     pbind (p_expect (esperado ''}'') T_RBRACE) (\<lambda>_.
     pbind here (\<lambda>final.
     pbind (spanned final initial) (\<lambda>loc. ret (E_BraceInitializer es structTypeName loc)))))))"

definition parse_array_literal :: "expression parser \<Rightarrow> expression parser" where
  "parse_array_literal p =
     pbind here (\<lambda>initial.
     pbind (p_expect (esperado ''['') T_LBRACKET) (\<lambda>_.
     pbind (comma_list p T_RBRACKET) (\<lambda>es.
     pbind (p_expect (esperado '']'') T_RBRACKET) (\<lambda>_.
     pbind here (\<lambda>final.
     pbind (spanned final initial) (\<lambda>loc. ret (E_ArrayLiteral es None False loc)))))))"

section \<open>Switch expressions\<close>

definition switch_arm_of :: "grammar \<Rightarrow> switch_arm parser" where
  "switch_arm_of g =
     pbind (p_expect ''Esperado nome da variante'' T_IDENTIFIER) (\<lambda>t.
     pbind (makeSourceIdentifier t) (\<lambda>variant.
     pbind (p_if (p_check T_IDENTIFIER)
              (pbind p_advance (\<lambda>b. pbind (makeSourceIdentifier b) (\<lambda>i. ret (Some i)))) (ret None)) (\<lambda>binding.
     pbind (p_expect (esperado_apos ''->'' (''padr'' @ a_tilde @ ''o'')) T_THIN_ARROW) (\<lambda>_.
     pbind (p_if (p_check T_LBRACE)
              (pbind (g_block g) (\<lambda>b. ret (Switch_Arm variant binding None (Some b))))
              (pbind (g_expression g) (\<lambda>e. ret (Switch_Arm variant binding (Some e) None)))) (\<lambda>arm.
     p_if (p_check T_RBRACE) (ret arm) (pbind (p_match T_COMMA) (\<lambda>_. ret arm)))))))"

fun switch_arms :: "nat \<Rightarrow> grammar \<Rightarrow> switch_arm list \<Rightarrow> switch_arm list parser" where
  "switch_arms 0 g as = (\<lambda>st. P_Fuel)"
| "switch_arms (Suc k) g as =
     p_if (at_close T_RBRACE) (ret as) (pbind (switch_arm_of g) (\<lambda>a. switch_arms k g (as @ [a])))"

definition parse_switch_expression :: "grammar \<Rightarrow> expression parser" where
  "parse_switch_expression g =
     pbind here (\<lambda>initial.
     pbind (p_expect (esperado ''switch'') T_SWITCH) (\<lambda>_.
     pbind (g_expression g) (\<lambda>v.
     pbind here (\<lambda>final.
     pbind (p_expect (esperado ''{'') T_LBRACE) (\<lambda>_.
     pbind (with_rounds (\<lambda>k. switch_arms k g [])) (\<lambda>as.
     pbind (p_expect (esperado ''}'') T_RBRACE) (\<lambda>_.
     pbind (spanned final initial) (\<lambda>loc. ret (E_Switch v as loc)))))))))"

section \<open>Names, declarations and assignments\<close>

text \<open>What is known of the first word of a name, declaration, call or assignment.\<close>

record name_class =
  nc_token :: token
  nc_auto :: bool
  nc_primitive :: bool
  nc_declared :: bool
  nc_variable :: bool

definition names_type :: "name_class \<Rightarrow> bool" where
  "names_type c \<longleftrightarrow> \<not> nc_auto c \<and> (nc_primitive c \<or> nc_declared c) \<and> \<not> nc_variable c"

definition invalid_suffix :: "token \<Rightarrow> 'a parser" where
  "invalid_suffix t =
     parser_error INVALID_TYPE (''suffix '' @ quoted [last (t_value t)] @ '' is only valid on integer types'')
       (token_location t)"

definition classify_name :: "bool \<Rightarrow> token \<Rightarrow> name_class parser" where
  "classify_name isAuto t =
     pbind (lift_raise (isPrimitiveType (t_value t))) (\<lambda>prim.
     pbind (p_is_struct (t_value t)) (\<lambda>declared.
     pbind (p_is_variable (t_value t)) (\<lambda>var.
     pbind (if \<not> isAuto \<and> \<not> var \<and> isFloatWithIntSuffix (t_value t)
            then p_if (p_check T_IDENTIFIER) (invalid_suffix t) (ret ()) else ret ()) (\<lambda>_.
     ret \<lparr>nc_token = t, nc_auto = isAuto, nc_primitive = prim, nc_declared = declared, nc_variable = var\<rparr>))))"

definition variable_definition :: "expression parser \<Rightarrow> type_t \<Rightarrow> ident \<Rightarrow> bool \<Rightarrow> expression parser" where
  "variable_definition p t n isMutable =
     pbind (p_define (token_name n) t) (\<lambda>_.
     p_if (p_match T_EQUAL)
       (pbind p (\<lambda>e. ret (E_VariableInit t n e isMutable)))
       (ret (E_VariableDeclaration t n isMutable)))"

text \<open>Whether \<^verbatim>\<open>ptr\<close> starts the declaration of a pointer here, and that declaration.\<close>

definition starts_pointer_declaration :: "bool \<Rightarrow> bool parser" where
  "starts_pointer_declaration isAuto =
     (if isAuto then ret False
      else p_if (checkContextual ''ptr'')
             (p_if (p_is_variable ''ptr'') (ret False) (p_next_is [T_LESS, T_IDENTIFIER]))
             (ret False))"

definition match_mut :: "bool \<Rightarrow> bool parser" where
  "match_mut isMutable = (if isMutable then ret True else p_match T_MUT)"

definition pointer_declaration :: "expression parser \<Rightarrow> bool \<Rightarrow> expression parser" where
  "pointer_declaration p isMutable =
     pbind parse_type (\<lambda>t.
     pbind (match_mut isMutable) (\<lambda>mu.
     pbind (p_expect (''Esperado nome da vari'' @ a_acute @ ''vel'') T_IDENTIFIER) (\<lambda>n.
     pbind (makeSourceIdentifier n) (\<lambda>i. variable_definition p t i mu))))"

text \<open>The suffixes of the type: generic arguments, stars, question mark and brackets.\<close>

definition generic_arguments :: "name_class \<Rightarrow> type_t list parser" where
  "generic_arguments c =
     p_if (if \<not> nc_auto c \<and> (nc_declared c \<or> \<not> nc_variable c \<and> \<not> nc_primitive c)
           then p_match T_LESS else ret False)
       (pbind (with_rounds (\<lambda>k. parse_type_list k [])) (\<lambda>ts.
        pbind (p_expect expected_args_close T_GREATER) (\<lambda>_. ret ts)))
       (ret [])"

fun count_stars :: "nat \<Rightarrow> nat \<Rightarrow> nat parser" where
  "count_stars 0 n = (\<lambda>st. P_Fuel)"
| "count_stars (Suc k) n = p_if (p_match T_STAR) (count_stars k (n + 1)) (ret n)"

definition element_type :: "token \<Rightarrow> type_t parser" where
  "element_type t =
     pbind (lift_raise (fromToken (t_value t))) (\<lambda>ty.
     ret (if kind ty = TK_VOID \<and> t_value t \<noteq> ''void'' then struct_type (t_value t) else ty))"

text \<open>An expression \<^verbatim>\<open>type[length]\<close> or \<^verbatim>\<open>type[e, ...]\<close> ends here; otherwise, whether the type is an array.\<close>

definition bracket_suffix :: "expression parser \<Rightarrow> name_class \<Rightarrow> (expression + bool) parser" where
  "bracket_suffix p c =
     p_if (if names_type c then p_match T_LBRACKET else ret False)
       (p_if (p_match T_RBRACKET) (ret (Inr True))
         (pbind p (\<lambda>e.
          p_if (p_match T_COMMA)
            (pbind (with_rounds (\<lambda>k. expression_list k p [e])) (\<lambda>es.
             pbind (p_expect (esperado '']'') T_RBRACKET) (\<lambda>_.
             pbind (element_type (nc_token c)) (\<lambda>ty. ret (Inl (E_ArrayLiteral es (Some ty) False no_location))))))
            (pbind (p_expect (esperado '']'') T_RBRACKET) (\<lambda>_.
             pbind (element_type (nc_token c)) (\<lambda>ty.
             ret (Inl (E_FixedArray ty e (token_location (nc_token c))))))))))
       (ret (Inr False))"

definition question_suffix :: "bool \<Rightarrow> bool \<Rightarrow> bool parser" where
  "question_suffix isNullable allowed =
     (if isNullable then ret True else if allowed then p_match T_QUESTION else ret False)"

definition is_inference :: "name_class \<Rightarrow> bool parser" where
  "is_inference c =
     (if nc_auto c \<and> \<not> nc_variable c then p_check_any [T_EQUAL, T_SEMICOLON] else ret False)"

definition is_explicit :: "name_class \<Rightarrow> bool parser" where
  "is_explicit c = (if nc_variable c then ret False else p_check T_IDENTIFIER)"

definition declared_base :: "bool \<Rightarrow> name_class \<Rightarrow> type_t parser" where
  "declared_base inference c =
     (let v = t_value (nc_token c) in
      if inference then ret auto_type
      else if nc_declared c \<or> \<not> nc_primitive c then ret (struct_type v)
      else lift_raise (fromToken v))"

definition declared_type :: "type_t \<Rightarrow> type_t list \<Rightarrow> nat \<Rightarrow> bool \<Rightarrow> type_t" where
  "declared_type base args depth isArray =
     (let t = (if args = [] then base else with_args args base);
          t = (pointer_type ^^ depth) t
      in if isArray then array_type t else t)"

definition variable_declaration ::
  "expression parser \<Rightarrow> name_class \<Rightarrow> bool \<Rightarrow> bool \<Rightarrow> type_t list \<Rightarrow> nat \<Rightarrow> bool \<Rightarrow> bool \<Rightarrow> expression parser" where
  "variable_declaration p c inference isMutable args depth isArray isNullable =
     pbind (if inference then makeSourceIdentifier (nc_token c) else pbind p_advance makeSourceIdentifier) (\<lambda>n.
     pbind (declared_base inference c) (\<lambda>base.
     pbind (question_suffix isNullable True) (\<lambda>nl.
     let t = declared_type base args depth isArray; t = (if nl then with_nullable t else t)
     in variable_definition p t n isMutable)))"

definition compound_operators :: "(token_type \<times> token_type) list" where
  "compound_operators = [
     (T_PLUS_EQUAL, T_PLUS), (T_MINUS_EQUAL, T_MINUS), (T_STAR_EQUAL, T_STAR), (T_SLASH_EQUAL, T_SLASH),
     (T_PERCENT_EQUAL, T_PERCENT), (T_AMPERSAND_EQUAL, T_AMPERSAND), (T_PIPE_EQUAL, T_PIPE),
     (T_CARET_EQUAL, T_CARET), (T_LESS_LESS_EQUAL, T_LESS_LESS), (T_GREATER_GREATER_EQUAL, T_GREATER_GREATER)]"

fun match_operator :: "(token_type \<times> token_type) list \<Rightarrow> token_type option parser" where
  "match_operator [] = ret None"
| "match_operator ((ty, opr) # ops) = p_if (p_match ty) (ret (Some opr)) (match_operator ops)"

definition compound_assignment :: "ident \<Rightarrow> token_type \<Rightarrow> expression \<Rightarrow> expression" where
  "compound_assignment n opr e = E_Assignment n (E_Binary (E_Identifier n) opr e (id_location n))"

section \<open>Calls\<close>

definition is_forward :: "expression \<Rightarrow> bool" where
  "is_forward e = (case e of E_VariadicForward \<Rightarrow> True | _ \<Rightarrow> False)"

definition call_arguments :: "expression parser \<Rightarrow> expression list parser" where
  "call_arguments p =
     pbind (comma_list p T_RPAREN) (\<lambda>es.
     pbind (p_expect (esperado_apos '')'' ''argumentos'') T_RPAREN) (\<lambda>_. ret es))"

text \<open>The arguments without the forwarding dots, and whether there were any.\<close>

definition forwarding_arguments :: "expression parser \<Rightarrow> (expression list \<times> bool) parser" where
  "forwarding_arguments p =
     pbind (call_arguments p) (\<lambda>es.
     pbind (expand_interpolation_args p (filter (\<lambda>e. \<not> is_forward e) es)) (\<lambda>as.
     ret (as, list_ex is_forward es)))"

definition p_find_macro :: "string \<Rightarrow> macro_declaration option parser" where
  "p_find_macro n st = P_Ok (ps_macros st n) st"

definition function_call :: "expression parser \<Rightarrow> ident \<Rightarrow> type_t list \<Rightarrow> expression parser" where
  "function_call p n args =
     pbind (p_find_macro (token_name n)) (\<lambda>m.
     case m of
       Some md \<Rightarrow> expand_macro p md
     | None \<Rightarrow> pbind (forwarding_arguments p) (\<lambda>(as, fwd). ret (E_FunctionCall n as None args fwd)))"

definition named_expression :: "expression parser \<Rightarrow> name_class \<Rightarrow> type_t list \<Rightarrow> expression parser" where
  "named_expression p c args =
     (let t = nc_token c in
      pbind (with_rounds (\<lambda>k. parse_name_parts k [t_value t])) (\<lambda>parts.
      let q = qualified_toString parts in
      pbind (named_ident q (at_position (t_position t) (length q))) (\<lambda>n.
      p_if (p_match T_LPAREN) (function_call p n args)
     (p_if (p_match T_EQUAL) (pbind p (\<lambda>e. ret (E_Assignment n e)))
     (p_if (p_match T_QUESTION_QUESTION_EQUAL)
        (pbind p (\<lambda>e. ret (compound_assignment n T_QUESTION_QUESTION e)))
     (pbind (match_operator compound_operators) (\<lambda>oper.
      case oper of
        Some opr \<Rightarrow> pbind p (\<lambda>e. ret (compound_assignment n opr e))
      | None \<Rightarrow>
          p_if (if nc_declared c \<and> \<not> nc_variable c then p_check T_LBRACE else ret False)
            (parse_brace_initializer p q) (ret (E_Identifier n)))))))))"

text \<open>A declaration, a call, an assignment or a name, after the modifiers \<^verbatim>\<open>auto\<close> and \<^verbatim>\<open>mut\<close>.\<close>

definition name_or_declaration :: "expression parser \<Rightarrow> bool \<Rightarrow> bool \<Rightarrow> expression parser" where
  "name_or_declaration p isAuto isMutable =
     pbind p_advance (\<lambda>t.
     pbind (classify_name isAuto t) (\<lambda>c.
     pbind (generic_arguments c) (\<lambda>args.
     pbind (if names_type c then with_rounds (\<lambda>k. count_stars k 0) else ret 0) (\<lambda>depth.
     pbind (question_suffix False (names_type c)) (\<lambda>nl.
     pbind (bracket_suffix p c) (\<lambda>b.
     case b of
       Inl e \<Rightarrow> ret e
     | Inr isArray \<Rightarrow>
         pbind (match_mut isMutable) (\<lambda>mu.
         pbind (question_suffix nl (names_type c \<and> (0 < depth \<or> isArray))) (\<lambda>nl.
         pbind (is_inference c) (\<lambda>inference.
         pbind (is_explicit c) (\<lambda>explicit.
         if inference \<or> explicit then variable_declaration p c inference mu args depth isArray nl
         else named_expression p c args))))))))))"

definition parse_named :: "expression parser \<Rightarrow> expression parser" where
  "parse_named p =
     pbind (p_match T_AUTO) (\<lambda>isAuto.
     pbind (p_match T_MUT) (\<lambda>isMutable.
     p_if (starts_pointer_declaration isAuto) (pointer_declaration p isMutable)
       (name_or_declaration p isAuto isMutable)))"

definition constant_declaration :: "expression parser \<Rightarrow> expression parser" where
  "constant_declaration p =
     pbind p_advance (\<lambda>_.
     pbind parse_type (\<lambda>t.
     pbind (p_expect (''Esperado nome da vari'' @ a_acute @ ''vel constexpr'') T_IDENTIFIER) (\<lambda>n.
     pbind (p_expect (esperado ''='') T_EQUAL) (\<lambda>_.
     pbind p (\<lambda>e.
     pbind (p_define (t_value n) t) (\<lambda>_.
     pbind (makeSourceIdentifier n) (\<lambda>i. ret (E_VariableInit t i e False))))))))"

section \<open>Primary expressions\<close>

definition name_start :: "token_type list" where
  "name_start = [T_AUTO, T_MUT, T_VOID, T_IDENTIFIER]"

definition literal_node :: "token \<Rightarrow> source_location \<Rightarrow> expression option" where
  "literal_node t loc =
     (let v = t_value t in
      if t_type t = T_INTEGER_LITERAL then Some (integer_literal v loc)
      else if t_type t = T_FLOAT_LITERAL then Some (E_FloatLiteral v loc)
      else if t_type t = T_TRUE \<or> t_type t = T_FALSE then Some (E_BooleanLiteral v loc)
      else if t_type t = T_NULL_KW then Some (E_NullLiteral loc)
      else if t_type t = T_STRING_LITERAL then Some (E_StringLiteral v loc)
      else None)"

definition literal_start :: "token_type list" where
  "literal_start = [T_INTEGER_LITERAL, T_FLOAT_LITERAL, T_TRUE, T_FALSE, T_NULL_KW, T_STRING_LITERAL]"

definition parenthesized :: "expression parser \<Rightarrow> expression parser" where
  "parenthesized p =
     pbind p (\<lambda>e. pbind (p_expect (esperado_apos '')'' (''express'' @ a_tilde @ ''o'')) T_RPAREN) (\<lambda>_. ret e))"

definition unexpected_expression :: "'a parser" where
  "unexpected_expression =
     pbind p_peek (\<lambda>t. parser_error EXPECTED_EXPRESSION (''express'' @ a_tilde @ ''o inesperada'')
       (at_position (t_position t) (if t_value t = [] then 1 else length (t_value t))))"

definition parse_primary :: "grammar \<Rightarrow> expression parser" where
  "parse_primary g =
     pbind here (\<lambda>loc.
     p_if (p_check T_SWITCH) (parse_switch_expression g)
    (p_if (p_match T_DOT_DOT_DOT) (ret E_VariadicForward)
    (p_if (p_match_any literal_start)
       (pbind p_previous (\<lambda>t. case literal_node t loc of Some e \<Rightarrow> ret e | None \<Rightarrow> unexpected_expression))
    (p_if (p_match_any [T_THIS, T_RETURN])
       (pbind p_previous (\<lambda>t. pbind (makeSourceIdentifier t) (\<lambda>i. ret (E_Identifier i))))
    (p_if (p_check_any [T_CONST_EXPR, T_CONST_EVAL]) (constant_declaration (g_expression g))
    (p_if (p_check_any name_start) (parse_named (g_expression g))
    (p_if (p_check T_LBRACKET) (parse_array_literal (g_expression g))
    (p_if (p_check T_LBRACE) (parse_brace_initializer (g_expression g) [])
    (p_if (p_match T_LPAREN) (parenthesized (g_expression g))
       unexpected_expression)))))))))"

section \<open>Postfix expressions\<close>

definition member_keywords :: "token_type list" where
  "member_keywords = [T_BREAK, T_CONTINUE, T_RETURN, T_IF, T_ELSE, T_FOR, T_WHILE, T_DO, T_SWITCH,
     T_CASE, T_DEFAULT, T_STATIC, T_PUBLIC, T_PRIVATE]"

definition nullable_member :: "expression parser \<Rightarrow> expression \<Rightarrow> expression parser" where
  "nullable_member p e =
     pbind p_advance (\<lambda>t.
     pbind (p_expect (''Esperado nome do campo '' @ after_word @ '' '' @ quoted ''?.'' @ ''/'' @ quoted ''!.'') T_IDENTIFIER) (\<lambda>m.
     pbind (makeSourceIdentifier m) (\<lambda>i.
     p_if (p_match T_LPAREN)
       (pbind (call_arguments p) (\<lambda>as.
        pbind (expand_interpolation_args p as) (\<lambda>as. ret (E_FunctionCall i as (Some e) [] False))))
       (ret (E_FieldAccess e i (if t_type t = T_QUESTION_DOT then FA_NullConditional else FA_NullForgiving))))))"

text \<open>A member behind a dot, and whether more may follow: an assignment to a field ends the expression.\<close>

definition dot_member :: "expression parser \<Rightarrow> expression \<Rightarrow> (expression \<times> bool) parser" where
  "dot_member p e =
     pbind (p_if (p_check_any (T_IDENTIFIER # member_keywords)) (pbind p_advance makeSourceIdentifier)
              (runtime_error (''Esperado nome do campo '' @ after_word @ '' '' @ quoted ''.''))) (\<lambda>i.
     p_if (p_match T_LPAREN)
       (pbind (forwarding_arguments p) (\<lambda>(as, fwd). ret (E_FunctionCall i as (Some e) [] fwd, True)))
    (p_if (p_match T_EQUAL)
       (pbind p (\<lambda>v. ret (E_FieldAssignment e i v, False)))
       (ret (E_FieldAccess e i FA_Normal, True))))"

definition index_member :: "expression parser \<Rightarrow> expression \<Rightarrow> expression parser" where
  "index_member p e =
     pbind p (\<lambda>i.
     pbind (p_expect (esperado_apos '']'' ([CHR 0xC3, CHR 0xAD] @ ''ndice'')) T_RBRACKET) (\<lambda>_.
     p_if (p_match T_EQUAL)
       (pbind p (\<lambda>v.
        pbind (spanned (location_of v) (location_of i)) (\<lambda>loc. ret (E_IndexAssignment e i v loc))))
       (ret (E_IndexAccess e i (location_of i)))))"

fun postfix_rounds :: "nat \<Rightarrow> expression parser \<Rightarrow> expression \<Rightarrow> expression parser" where
  "postfix_rounds 0 p e = (\<lambda>st. P_Fuel)"
| "postfix_rounds (Suc k) p e =
     p_if (p_check_any [T_QUESTION_DOT, T_BANG_DOT]) (pbind (nullable_member p e) (postfix_rounds k p))
    (p_if (p_match T_DOT) (pbind (dot_member p e) (\<lambda>(e, more). if more then postfix_rounds k p e else ret e))
    (p_if (p_check_any [T_PLUS_PLUS, T_MINUS_MINUS])
       (pbind p_advance (\<lambda>t. postfix_rounds k p (E_Postfix (t_type t) e (token_location t))))
    (p_if (p_match T_LBRACKET) (pbind (index_member p e) (postfix_rounds k p))
       (ret e))))"

definition parse_postfix :: "grammar \<Rightarrow> expression parser" where
  "parse_postfix g = pbind (parse_primary g) (\<lambda>e. with_rounds (\<lambda>k. postfix_rounds k (g_expression g) e))"

section \<open>Unary expressions\<close>

text \<open>\<^verbatim>\<open>(Type)\<close> is a cast when a type and a closing parenthesis follow; otherwise the position goes back.\<close>

definition cast_prefix :: "(type_t \<times> source_location) option parser" where
  "cast_prefix =
     p_if (p_check T_LPAREN)
       (pbind p_mark (\<lambda>saved.
        pbind p_advance (\<lambda>_.
        pbind behind (\<lambda>openParen.
        pbind (p_if isType
                 (pbind parse_type (\<lambda>t. p_if (p_match T_RPAREN) (ret (Some (t, openParen))) (ret None)))
                 (ret None)) (\<lambda>c.
        case c of Some x \<Rightarrow> ret c | None \<Rightarrow> pbind (p_reset saved) (\<lambda>_. ret None))))))
       (ret None)"

definition await_expression :: "grammar \<Rightarrow> expression parser" where
  "await_expression g =
     pbind behind (\<lambda>start. pbind (g_unary g) (\<lambda>e.
     pbind (spanned (location_of e) start) (\<lambda>loc. ret (E_Await e loc))))"

definition try_expression :: "grammar \<Rightarrow> expression parser" where
  "try_expression g =
     pbind behind (\<lambda>start. pbind (g_unary g) (\<lambda>e.
     pbind (p_if (p_if (p_check T_QUESTION) (p_next_is [T_COLON]) (ret False))
              (pbind p_advance (\<lambda>_. pbind p_advance (\<lambda>_. pbind (g_ternary g) (\<lambda>f. ret (Some f)))))
              (ret None)) (\<lambda>fallback.
     pbind (spanned (location_of (case fallback of Some f \<Rightarrow> f | None \<Rightarrow> e)) start) (\<lambda>loc.
     ret (E_Try e fallback loc)))))"

definition new_expression :: "grammar \<Rightarrow> expression parser" where
  "new_expression g =
     pbind (parse_postfix g) (\<lambda>e.
     case e of
       E_ArrayLiteral es t h loc \<Rightarrow> ret (E_ArrayLiteral es t True loc)
     | E_FunctionCall i as rcv targs fwd \<Rightarrow> ret (E_New e)
     | _ \<Rightarrow> runtime_error (''Expected constructor call or array literal after '' @ quoted ''new''))"

definition prefix_operators :: "token_type list" where
  "prefix_operators = [T_BANG, T_MINUS, T_AMPERSAND, T_STAR, T_TILDE]"

definition prefix_expression :: "grammar \<Rightarrow> expression parser" where
  "prefix_expression g =
     pbind p_previous (\<lambda>t. pbind (g_unary g) (\<lambda>e.
     pbind (spanned (location_of e) (token_location t)) (\<lambda>loc. ret (E_Unary (t_type t) e loc))))"

definition parse_unary :: "grammar \<Rightarrow> expression parser" where
  "parse_unary g =
     pbind cast_prefix (\<lambda>c.
     case c of
       Some (t, openParen) \<Rightarrow>
         pbind (g_unary g) (\<lambda>e.
         pbind (spanned (location_of e) openParen) (\<lambda>loc. ret (E_Cast t e loc)))
     | None \<Rightarrow>
         p_if (p_match T_AWAIT) (await_expression g)
        (p_if (p_match T_TRY) (try_expression g)
        (p_if (p_match T_NEW) (new_expression g)
        (p_if (p_match_any prefix_operators) (prefix_expression g)
           (parse_postfix g)))))"

section \<open>Binary operators\<close>

definition binary_node :: "expression \<Rightarrow> token_type \<Rightarrow> expression \<Rightarrow> expression parser" where
  "binary_node l opr r =
     pbind (spanned (location_of r) (location_of l)) (\<lambda>loc. ret (E_Binary l opr r loc))"

fun binary_rounds :: "nat \<Rightarrow> token_type list \<Rightarrow> expression parser \<Rightarrow> expression \<Rightarrow> expression parser" where
  "binary_rounds 0 ops p l = (\<lambda>st. P_Fuel)"
| "binary_rounds (Suc k) ops p l =
     p_if (p_match_any ops)
       (pbind p_previous (\<lambda>t. pbind p (\<lambda>r. pbind (binary_node l (t_type t) r) (binary_rounds k ops p))))
       (ret l)"

definition binary_level :: "token_type list \<Rightarrow> expression parser \<Rightarrow> expression parser" where
  "binary_level ops p = pbind p (\<lambda>l. with_rounds (\<lambda>k. binary_rounds k ops p l))"

definition parse_factor :: "grammar \<Rightarrow> expression parser" where
  "parse_factor g = binary_level [T_STAR, T_SLASH, T_PERCENT] (parse_unary g)"

definition parse_term :: "grammar \<Rightarrow> expression parser" where
  "parse_term g = binary_level [T_PLUS, T_MINUS] (parse_factor g)"

definition parse_shift :: "grammar \<Rightarrow> expression parser" where
  "parse_shift g = binary_level [T_LESS_LESS, T_GREATER_GREATER] (parse_term g)"

definition parse_comparison :: "grammar \<Rightarrow> expression parser" where
  "parse_comparison g = binary_level [T_LESS, T_LESS_EQUAL, T_GREATER, T_GREATER_EQUAL] (parse_shift g)"

definition type_test :: "expression \<Rightarrow> expression parser" where
  "type_test l =
     p_if (p_match T_IS)
       (pbind parse_type (\<lambda>t.
        pbind (p_if (p_check T_IDENTIFIER) (pbind p_advance (\<lambda>b. ret (Some (t_value b)))) (ret None)) (\<lambda>b.
        ret (E_Is l t b (location_of l)))))
       (ret l)"

definition parse_equality :: "grammar \<Rightarrow> expression parser" where
  "parse_equality g = pbind (binary_level [T_EQUAL_EQUAL, T_BANG_EQUAL] (parse_comparison g)) type_test"

definition parse_bitand :: "grammar \<Rightarrow> expression parser" where
  "parse_bitand g = binary_level [T_AMPERSAND] (parse_equality g)"

definition parse_bitxor :: "grammar \<Rightarrow> expression parser" where
  "parse_bitxor g = binary_level [T_CARET] (parse_bitand g)"

definition parse_bitor :: "grammar \<Rightarrow> expression parser" where
  "parse_bitor g = binary_level [T_PIPE] (parse_bitxor g)"

definition parse_and :: "grammar \<Rightarrow> expression parser" where
  "parse_and g = binary_level [T_AND_AND] (parse_bitor g)"

definition parse_or :: "grammar \<Rightarrow> expression parser" where
  "parse_or g = binary_level [T_OR_OR] (parse_and g)"

definition parse_ternary :: "grammar \<Rightarrow> expression parser" where
  "parse_ternary g =
     pbind (parse_or g) (\<lambda>c.
     p_if (p_match T_QUESTION)
       (pbind (g_ternary g) (\<lambda>a.
        pbind (p_expect (''Esperado '' @ quoted '':'' @ '' no operador tern'' @ a_acute @ ''rio'') T_COLON) (\<lambda>_.
        pbind (g_ternary g) (\<lambda>b.
        pbind (spanned (location_of b) (location_of c)) (\<lambda>loc. ret (E_Ternary c a b loc))))))
       (ret c))"

definition parse_expression :: "grammar \<Rightarrow> expression parser" where
  "parse_expression g = binary_level [T_QUESTION_QUESTION] (parse_ternary g)"

end
