(* ===== verification/Parser_Statements.thy ===== *)
theory Parser_Statements
  imports Parser_Expressions
begin

text \<open>
  The statements of \<^verbatim>\<open>parser/Parser.cpp\<close>, and the knot: \<open>grammar_at k\<close> is the grammar in which the parse
  functions may call each other to the depth \<open>k\<close>.
\<close>

section \<open>Blocks\<close>

fun statement_rounds :: "nat \<Rightarrow> token_type list \<Rightarrow> statement parser \<Rightarrow> statement list \<Rightarrow> statement list parser" where
  "statement_rounds 0 stops p ss = (\<lambda>st. P_Fuel)"
| "statement_rounds (Suc k) stops p ss =
     p_if (p_if (p_check_any stops) (ret True) p_isAtEnd) (ret ss)
       (pbind p (\<lambda>s. statement_rounds k stops p (ss @ [s])))"

definition parse_block :: "grammar \<Rightarrow> statement list parser" where
  "parse_block g =
     pbind (p_expect (esperado ''{'') T_LBRACE) (\<lambda>_.
     pbind p_pushScope (\<lambda>_.
     pbind (with_rounds (\<lambda>k. statement_rounds k [T_RBRACE] (g_statement g) [])) (\<lambda>ss.
     pbind p_popScope (\<lambda>_.
     pbind (p_expect (esperado ''}'') T_RBRACE) (\<lambda>_. ret ss)))))"

text \<open>A branch: a block, or one statement that stands for a block.\<close>

definition parse_branch :: "grammar \<Rightarrow> statement list parser" where
  "parse_branch g =
     p_if (p_check T_LBRACE) (parse_block g) (pbind (g_statement g) (\<lambda>s. ret [s]))"

definition expression_until :: "grammar \<Rightarrow> token_type \<Rightarrow> expression option parser" where
  "expression_until g ty =
     p_if (p_check ty) (ret None) (pbind (parse_expression g) (\<lambda>e. ret (Some e)))"

section \<open>Conditionals and loops\<close>

definition compile_time_marker :: "compile_time_kind parser" where
  "compile_time_marker =
     p_if (p_match T_CONST_EXPR) (ret CT_ConstExpr)
    (p_if (p_match T_CONST_EVAL) (ret CT_ConstEval)
    (p_if (p_check T_LPAREN) (ret CT_None) (ret CT_ConstExpr)))"

definition if_location :: "token \<Rightarrow> token \<Rightarrow> source_location" where
  "if_location t lst =
     at_position (t_position t)
       (minus_u32 (unat (p_index (t_position lst)) + length (t_value lst)) (unat (p_index (t_position t))))"

definition parse_if_statement :: "grammar \<Rightarrow> statement parser" where
  "parse_if_statement g =
     pbind (p_expect (esperado ''if'') T_IF) (\<lambda>t.
     pbind compile_time_marker (\<lambda>k.
     pbind (if k = CT_None then pbind p_advance (\<lambda>_. ret ()) else ret ()) (\<lambda>_.
     pbind (parse_expression g) (\<lambda>c.
     pbind (if k = CT_None
            then pbind (p_expect (esperado_apos '')'' (''condi'' @ c_cedil @ a_tilde @ ''o'')) T_RPAREN) (\<lambda>_. ret ())
            else ret ()) (\<lambda>_.
     pbind p_previous (\<lambda>lst.
     pbind (parse_branch g) (\<lambda>ss.
     pbind (p_if (p_match T_ELSE)
              (p_if (p_check T_IF)
                 (pbind (g_if g) (\<lambda>s. ret (Some [s])))
                 (pbind (parse_branch g) (\<lambda>b. ret (Some b))))
              (ret None)) (\<lambda>els.
     ret (S_If k c ss els (if_location t lst))))))))))"

definition range_operators :: "token_type list" where
  "range_operators = [T_DOT_DOT, T_DOT_DOT_EQUAL]"

text \<open>Whether \<^verbatim>\<open>type name in\<close> follows.\<close>

definition detect_named_range :: "bool parser" where
  "detect_named_range =
     pbind p_mark (\<lambda>saved.
     pbind (p_if isType
              (pbind parse_type (\<lambda>_.
               p_if (p_check T_IDENTIFIER) (pbind p_advance (\<lambda>_. p_check T_IN)) (ret False)))
              (ret False)) (\<lambda>b.
     pbind (p_reset saved) (\<lambda>_. ret b)))"

text \<open>
  Whether an expression and a range operator follow. The expression is parsed and thrown away; what it
  does to the scopes and to the counters stays.
\<close>

definition detect_anonymous_range :: "grammar \<Rightarrow> bool parser" where
  "detect_anonymous_range g =
     pbind p_mark (\<lambda>saved.
     pbind (p_if (p_check T_LBRACKET) (pbind p_advance (\<lambda>_. ret ())) (ret ())) (\<lambda>_.
     pbind (parse_expression g) (\<lambda>_.
     pbind (p_check_any range_operators) (\<lambda>b.
     pbind (p_reset saved) (\<lambda>_. ret b)))))"

definition next_anonymous :: "nat parser" where
  "next_anonymous st = P_Ok (anonRangeCounter st) (st\<lparr>anonRangeCounter := anonRangeCounter st + 1\<rparr>)"

definition range_variable :: "bool \<Rightarrow> (type_t \<times> ident) parser" where
  "range_variable named =
     (if named
      then pbind parse_type (\<lambda>t.
           pbind p_advance (\<lambda>n.
           pbind (makeSourceIdentifier n) (\<lambda>i.
           pbind (p_expect (esperado_apos ''in'' (''nome da vari'' @ a_acute @ ''vel'')) T_IN) (\<lambda>_. ret (t, i)))))
      else pbind here (\<lambda>loc.
           pbind next_anonymous (\<lambda>n.
           pbind (named_ident (''__anon_i_'' @ to_string n) loc) (\<lambda>i. ret (new_type TK_INTEGER 32 True, i)))))"

definition range_close :: "bool \<Rightarrow> bool \<Rightarrow> bool parser" where
  "range_close hasBracket inclusive =
     (if hasBracket
      then p_if (p_match T_RBRACKET) (ret True)
          (p_if (p_match T_RPAREN) (ret False)
             (pbind (p_expect (''Esperado '' @ quoted '']'' @ '' ou '' @ quoted '')'' @ '' para fechar o bound do range'')
                T_RBRACKET) (\<lambda>_. ret False)))
      else ret inclusive)"

definition range_for_statement :: "grammar \<Rightarrow> bool \<Rightarrow> statement parser" where
  "range_for_statement g named =
     pbind p_pushScope (\<lambda>_.
     pbind (range_variable named) (\<lambda>(t, n).
     pbind (p_match T_LBRACKET) (\<lambda>hasBracket.
     pbind (parse_expression g) (\<lambda>start.
     pbind (p_if (p_match T_DOT_DOT_EQUAL) (ret True)
              (pbind (p_expect (''Esperado '' @ quoted ''..'' @ '' ou '' @ quoted ''..='' @ '' no range'') T_DOT_DOT)
                 (\<lambda>_. ret False))) (\<lambda>inclusive.
     pbind (parse_expression g) (\<lambda>stop.
     pbind (range_close hasBracket inclusive) (\<lambda>endInclusive.
     pbind (p_expect (esperado_apos '')'' ''range'') T_RPAREN) (\<lambda>_.
     pbind (parse_block g) (\<lambda>body.
     pbind p_popScope (\<lambda>_. ret (S_RangeFor t n start stop body True endInclusive)))))))))))"

definition plain_for_statement :: "grammar \<Rightarrow> statement parser" where
  "plain_for_statement g =
     pbind p_pushScope (\<lambda>_.
     pbind (expression_until g T_SEMICOLON) (\<lambda>initializer.
     pbind (p_expect (esperado_apos '';'' ''inicializador'') T_SEMICOLON) (\<lambda>_.
     pbind (expression_until g T_SEMICOLON) (\<lambda>cond.
     pbind (p_expect (esperado_apos '';'' (''condi'' @ c_cedil @ a_tilde @ ''o'')) T_SEMICOLON) (\<lambda>_.
     pbind (expression_until g T_RPAREN) (\<lambda>post.
     pbind (p_expect (esperado_apos '')'' ''incremento'') T_RPAREN) (\<lambda>_.
     pbind (parse_block g) (\<lambda>body.
     pbind p_popScope (\<lambda>_. ret (S_For initializer cond post body))))))))))"

definition parse_for_statement :: "grammar \<Rightarrow> statement parser" where
  "parse_for_statement g =
     pbind (p_expect (esperado ''for'') T_FOR) (\<lambda>_.
     pbind (p_expect (esperado_apos ''('' ''for'') T_LPAREN) (\<lambda>_.
     pbind detect_named_range (\<lambda>named.
     pbind (if named then ret False else detect_anonymous_range g) (\<lambda>anonymous.
     if named \<or> anonymous then range_for_statement g named else plain_for_statement g))))"

definition condition_in_parens :: "grammar \<Rightarrow> expression parser" where
  "condition_in_parens g =
     pbind (p_expect (esperado_apos ''('' ''while'') T_LPAREN) (\<lambda>_.
     pbind (parse_expression g) (\<lambda>c.
     pbind (p_expect (esperado_apos '')'' (''condi'' @ c_cedil @ a_tilde @ ''o'')) T_RPAREN) (\<lambda>_. ret c)))"

definition parse_while_statement :: "grammar \<Rightarrow> statement parser" where
  "parse_while_statement g =
     pbind (p_expect (esperado ''while'') T_WHILE) (\<lambda>_.
     pbind (condition_in_parens g) (\<lambda>c.
     pbind (parse_block g) (\<lambda>body. ret (S_While c body))))"

definition parse_do_while_statement :: "grammar \<Rightarrow> statement parser" where
  "parse_do_while_statement g =
     pbind (p_expect (esperado ''do'') T_DO) (\<lambda>_.
     pbind (parse_block g) (\<lambda>body.
     pbind (p_expect (esperado_apos ''while'' ''corpo do do-while'') T_WHILE) (\<lambda>_.
     pbind (condition_in_parens g) (\<lambda>c.
     pbind (p_expect (esperado_apos '';'' ''do-while'') T_SEMICOLON) (\<lambda>_. ret (S_DoWhile body c))))))"

section \<open>Switch statements\<close>

definition case_label :: "grammar \<Rightarrow> expression option parser" where
  "case_label g =
     p_if (p_match T_CASE)
       (pbind (parse_expression g) (\<lambda>e.
        pbind (p_expect (esperado_apos '':'' ''case'') T_COLON) (\<lambda>_. ret (Some e))))
    (p_if (p_match T_DEFAULT)
       (pbind (p_expect (esperado_apos '':'' ''default'') T_COLON) (\<lambda>_. ret None))
       (pbind p_peek (\<lambda>t. parser_error UNEXPECTED_TOKEN
          (''esperado '' @ quoted ''case'' @ '' ou '' @ quoted ''default'') (token_location t))))"

fun switch_cases ::
  "nat \<Rightarrow> grammar \<Rightarrow> (expression option \<times> statement list) list \<Rightarrow> (expression option \<times> statement list) list parser" where
  "switch_cases 0 g cs = (\<lambda>st. P_Fuel)"
| "switch_cases (Suc k) g cs =
     p_if (at_close T_RBRACE) (ret cs)
       (pbind (case_label g) (\<lambda>l.
        pbind (with_rounds (\<lambda>j. statement_rounds j [T_CASE, T_DEFAULT, T_RBRACE] (g_statement g) [])) (\<lambda>ss.
        switch_cases k g (cs @ [(l, ss)]))))"

definition parse_switch_statement :: "grammar \<Rightarrow> statement parser" where
  "parse_switch_statement g =
     pbind (p_expect (esperado ''switch'') T_SWITCH) (\<lambda>_.
     pbind (p_expect (esperado_apos ''('' ''switch'') T_LPAREN) (\<lambda>_.
     pbind (parse_expression g) (\<lambda>v.
     pbind (p_expect (esperado_apos '')'' (''express'' @ a_tilde @ ''o'')) T_RPAREN) (\<lambda>_.
     pbind (p_expect (esperado ''{'') T_LBRACE) (\<lambda>_.
     pbind (with_rounds (\<lambda>k. switch_cases k g [])) (\<lambda>cs.
     pbind (p_expect (esperado ''}'') T_RBRACE) (\<lambda>_. ret (S_Switch v cs))))))))"

text \<open>A parenthesis behind \<^verbatim>\<open>switch\<close> makes it a statement; the position is put back in any case.\<close>

definition starts_switch_statement :: "bool parser" where
  "starts_switch_statement =
     p_if (p_check T_SWITCH)
       (pbind p_mark (\<lambda>saved.
        pbind p_advance (\<lambda>_.
        pbind (p_check T_LPAREN) (\<lambda>b.
        pbind (p_reset saved) (\<lambda>_. ret b)))))
       (ret False)"

section \<open>Destructuring\<close>

fun destructured_names :: "nat \<Rightarrow> ident list \<Rightarrow> ident list parser" where
  "destructured_names 0 ns = (\<lambda>st. P_Fuel)"
| "destructured_names (Suc k) ns =
     pbind (p_expect (''Esperado nome de campo na desestrutura'' @ c_cedil @ a_tilde @ ''o'') T_IDENTIFIER) (\<lambda>t.
     pbind (makeSourceIdentifier t) (\<lambda>i.
     p_if (p_match T_COMMA) (destructured_names k (ns @ [i])) (ret (ns @ [i]))))"

definition next_destructure :: "nat parser" where
  "next_destructure st = P_Ok (destructureCounter st) (st\<lparr>destructureCounter := destructureCounter st + 1\<rparr>)"

definition destructuring :: "ident \<Rightarrow> expression \<Rightarrow> ident list \<Rightarrow> statement" where
  "destructuring tmp rhs ns =
     S_Block (S_Expression (E_VariableInit auto_type tmp rhs False)
       # map (\<lambda>n. S_Expression (E_VariableInit auto_type n (E_FieldAccess (E_Identifier tmp) n FA_Normal) False)) ns)
       True"

definition parse_destructuring :: "grammar \<Rightarrow> statement parser" where
  "parse_destructuring g =
     pbind p_advance (\<lambda>_.
     pbind p_advance (\<lambda>_.
     pbind (p_if (p_check T_RBRACE) (ret []) (with_rounds (\<lambda>k. destructured_names k []))) (\<lambda>ns.
     pbind (p_expect (esperado ''}'') T_RBRACE) (\<lambda>_.
     pbind (p_expect (esperado_apos ''='' (''padr'' @ a_tilde @ ''o de desestrutura'' @ c_cedil @ a_tilde @ ''o'')) T_EQUAL) (\<lambda>_.
     pbind (parse_expression g) (\<lambda>rhs.
     pbind (p_expect (esperado '';'') T_SEMICOLON) (\<lambda>_.
     pbind next_destructure (\<lambda>n.
     pbind (named_ident (''__destructure_'' @ to_string n) (location_of rhs)) (\<lambda>tmp.
     ret (destructuring tmp rhs ns))))))))))"

section \<open>Statements\<close>

definition semicolon_after :: "string \<Rightarrow> 'a \<Rightarrow> 'a parser" where
  "semicolon_after w x = pbind (p_expect (esperado_apos '';'' w) T_SEMICOLON) (\<lambda>_. ret x)"

definition bare_block :: "grammar \<Rightarrow> statement parser" where
  "bare_block g = pbind (parse_block g) (\<lambda>ss. ret (S_Block ss False))"

definition expression_statement :: "grammar \<Rightarrow> statement parser" where
  "expression_statement g =
     pbind (parse_expression g) (\<lambda>e.
     pbind (p_expect (esperado '';'') T_SEMICOLON) (\<lambda>_. ret (S_Expression e)))"

definition brace_follows :: "token_type \<Rightarrow> bool parser" where
  "brace_follows ty = p_if (p_check ty) (p_next_is [T_LBRACE]) (ret False)"

definition parse_statement :: "grammar \<Rightarrow> statement parser" where
  "parse_statement g =
     p_if (p_match T_RETURN)
       (pbind (expression_until g T_SEMICOLON) (\<lambda>v. semicolon_after ''return'' (S_Return v)))
    (p_if (p_check T_IF) (parse_if_statement g)
    (p_if (p_check T_FOR) (parse_for_statement g)
    (p_if (p_check T_WHILE) (parse_while_statement g)
    (p_if (p_check T_DO) (parse_do_while_statement g)
    (p_if starts_switch_statement (parse_switch_statement g)
    (p_if (p_match T_BREAK) (semicolon_after ''break'' S_Break)
    (p_if (p_match T_CONTINUE) (semicolon_after ''continue'' S_Continue)
    (p_if (p_match T_SPAWN) (pbind (parse_expression g) (\<lambda>e. semicolon_after ''spawn'' (S_Spawn e)))
    (p_if (p_match T_YIELD)
       (pbind behind (\<lambda>loc.
        pbind (expression_until g T_SEMICOLON) (\<lambda>v. semicolon_after ''yield'' (S_Yield v loc))))
    (p_if (p_match T_THROW)
       (pbind behind (\<lambda>loc.
        pbind (expression_until g T_SEMICOLON) (\<lambda>v. semicolon_after ''throw'' (S_Throw v loc))))
    (p_if (brace_follows T_UNSAFE) (pbind p_advance (\<lambda>_. bare_block g))
    (p_if (p_check T_LBRACE) (bare_block g)
    (p_if (brace_follows T_AUTO) (parse_destructuring g)
       (expression_statement g))))))))))))))"

section \<open>The grammar\<close>

definition grammar_step :: "grammar \<Rightarrow> grammar" where
  "grammar_step g =
     \<lparr>g_expression = parse_expression g, g_ternary = parse_ternary g, g_unary = parse_unary g,
      g_block = parse_block g, g_statement = parse_statement g, g_if = parse_if_statement g\<rparr>"

primrec grammar_at :: "nat \<Rightarrow> grammar" where
  "grammar_at 0 =
     \<lparr>g_expression = \<lambda>st. P_Fuel, g_ternary = \<lambda>st. P_Fuel, g_unary = \<lambda>st. P_Fuel,
      g_block = \<lambda>st. P_Fuel, g_statement = \<lambda>st. P_Fuel, g_if = \<lambda>st. P_Fuel\<rparr>"
| "grammar_at (Suc k) = grammar_step (grammar_at k)"

abbreviation expression_at :: "nat \<Rightarrow> expression parser" where
  "expression_at k \<equiv> g_expression (grammar_at k)"

abbreviation statement_at :: "nat \<Rightarrow> statement parser" where
  "statement_at k \<equiv> g_statement (grammar_at k)"

end
