(* ===== verification/Parser_Safe.thy ===== *)
theory Parser_Safe
  imports Parser_Correct Parser_Statements
begin

text \<open>
  A calculus for parse functions. \<open>safe f P b R k p\<close>: from every well-formed state of the file \<open>f\<close> in
  which \<open>P\<close> holds and at most \<open>k\<close> tokens are left, \<open>p\<close> neither reads outside the token vector nor fails
  an assertion nor exceeds its bound; when it returns, it has moved forward, by a token at least if
  \<open>b\<close>, and its result satisfies \<open>R\<close>; when it reports an error, the tokens are still those of the file.
  The rules follow the combinators, and a bind behind a consuming parser has one token less.
\<close>

section \<open>Well-formed states\<close>

text \<open>
  A source is the name of a file and the tokens the scanner made of it. What the scanner guarantees of
  them, and four conditions on the file: no string literal holds an opening brace, so that none is
  interpolated; no empty string literal follows \<^verbatim>\<open>auto\<close> or \<^verbatim>\<open>mut\<close>; if \<^verbatim>\<open>in\<close> occurs, as in a loop
  over a range, no string literal is empty at all; and a file with an \<^verbatim>\<open>operator\<close> has no \<^verbatim>\<open>>>\<close>, whose
  second bracket could be pending when the operator is read.
\<close>

type_synonym source = "string \<times> token list"

definition loc_ok :: "source \<Rightarrow> source_location \<Rightarrow> bool" where
  "loc_ok f l \<longleftrightarrow> loc_fileId l = [] \<or> loc_fileId l = fst f"

definition token_ok :: "source \<Rightarrow> token \<Rightarrow> bool" where
  "token_ok f t \<longleftrightarrow>
     p_fileId (t_position t) = fst f
     \<and> (t_value t = [] \<longrightarrow> t_type t = T_STRING_LITERAL \<or> t_type t = T_END_OF_FILE)
     \<and> (t_type t = T_STRING_LITERAL \<longrightarrow> CHR ''{'' \<notin> set (t_value t))"

fun no_empty_after :: "token list \<Rightarrow> bool" where
  "no_empty_after (s # t # ts) \<longleftrightarrow>
     (t_type s \<in> {T_AUTO, T_MUT} \<and> t_value t = [] \<longrightarrow> t_type t = T_END_OF_FILE) \<and> no_empty_after (t # ts)"
| "no_empty_after ts \<longleftrightarrow> True"

definition has_range :: "source \<Rightarrow> bool" where
  "has_range f \<longleftrightarrow> list_ex (\<lambda>t. t_type t = T_IN) (snd f)"

definition has_operator :: "source \<Rightarrow> bool" where
  "has_operator f \<longleftrightarrow> list_ex (\<lambda>t. t_type t = T_OPERATOR) (snd f)"

definition tokens_ok :: "source \<Rightarrow> bool" where
  "tokens_ok f \<longleftrightarrow>
     list_all (token_ok f) (snd f) \<and> no_empty_after (snd f)
     \<and> (has_operator f \<longrightarrow> \<not> splits (snd f))
     \<and> (has_range f \<longrightarrow> list_all (\<lambda>t. t_value t \<noteq> []) (butlast (snd f)))"

definition source_ok :: "source \<Rightarrow> parser_state \<Rightarrow> bool" where
  "source_ok f st \<longleftrightarrow>
     parser_ok st \<and> snd f = ps_tokens st \<and> tokens_ok f \<and> ps_macros st = Map.empty \<and> ps_scopes st \<noteq> []
     \<and> (splits (ps_tokens st) \<or> pendingGreater st = 0)"

text \<open>A state reached from another, and one an error leaves behind: its scopes may be deeper.\<close>

abbreviation pends :: "parser_state \<Rightarrow> parser_state \<Rightarrow> bool" where
  "pends st st' \<equiv> splits (ps_tokens st) \<or> pendingGreater st' \<le> pendingGreater st"

definition reaches :: "parser_state \<Rightarrow> parser_state \<Rightarrow> bool" where
  "reaches st st' \<longleftrightarrow>
     parser_ok st' \<and> pends st st' \<and> ps_tokens st' = ps_tokens st \<and> ps_macros st' = ps_macros st
     \<and> length (ps_scopes st') = length (ps_scopes st) \<and> ps_current st \<le> ps_current st'"

definition fails_at :: "parser_state \<Rightarrow> parser_state \<Rightarrow> bool" where
  "fails_at st st' \<longleftrightarrow>
     parser_ok st' \<and> pends st st' \<and> ps_tokens st' = ps_tokens st \<and> ps_macros st' = ps_macros st
     \<and> length (ps_scopes st) \<le> length (ps_scopes st') \<and> ps_current st \<le> ps_current st'"

lemma reaches_refl [simp]: "source_ok f st \<Longrightarrow> reaches st st"
  by (simp add: reaches_def source_ok_def)

lemma reaches_further: "reaches st st' \<Longrightarrow> reaches st' st'' \<Longrightarrow> reaches st st''"
  by (auto simp: reaches_def)

lemma fails_refl [simp]: "source_ok f st \<Longrightarrow> fails_at st st"
  by (simp add: fails_at_def source_ok_def)

lemma fails_trans: "reaches st st' \<Longrightarrow> fails_at st' st'' \<Longrightarrow> fails_at st st''"
  by (auto simp: fails_at_def reaches_def)

lemma reaches_ok: "source_ok f st \<Longrightarrow> reaches st st' \<Longrightarrow> source_ok f st'"
  by (auto simp: source_ok_def reaches_def)

lemma reaches_remaining: "reaches st st' \<Longrightarrow> remaining st' \<le> remaining st"
  by (auto simp: reaches_def remaining_def)

lemma reaches_less: "reaches st st' \<Longrightarrow> ps_current st < ps_current st' \<Longrightarrow> remaining st' < remaining st"
  by (auto simp: reaches_def remaining_def parser_ok_def)

lemma forward_reaches: "source_ok f st \<Longrightarrow> forward st st' \<Longrightarrow> reaches st st'"
  by (auto simp: forward_def reaches_def dest: moved_fields(3))

section \<open>The calculus\<close>

definition lands :: "bool \<Rightarrow> ('a \<Rightarrow> bool) \<Rightarrow> parser_state \<Rightarrow> 'a \<Rightarrow> parser_state \<Rightarrow> bool" where
  "lands b R st x st' \<longleftrightarrow> reaches st st' \<and> (b \<longrightarrow> ps_current st < ps_current st') \<and> R x"

lemma wp_lands:
  assumes "wp p (lands b R st') (\<lambda>e. fails_at st') st'" "reaches st st'" "d \<Longrightarrow> b \<or> ps_current st < ps_current st'"
  shows "wp p (lands d R st) (\<lambda>e. fails_at st) st'"
  using assms(1,3) reaches_further [OF assms(2)] fails_trans [OF assms(2)] assms(2)
  by (auto simp: wp_def lands_def reaches_def split: outcome.splits)

lemma wp_conseq: "wp p Q E st \<Longrightarrow> (\<And>x st'. Q x st' \<Longrightarrow> Q' x st') \<Longrightarrow> wp p Q' E st"
  by (auto simp: wp_def split: outcome.splits)

lemma wp_conseq_both:
  "wp p Q E st \<Longrightarrow> (\<And>x st'. Q x st' \<Longrightarrow> Q' x st') \<Longrightarrow> (\<And>e st'. E e st' \<Longrightarrow> E' e st') \<Longrightarrow> wp p Q' E' st"
  by (auto simp: wp_def split: outcome.splits)

lemma wp_weaken:
  assumes "wp p (lands b R st) E st" "d \<Longrightarrow> b" "\<And>x. R x \<Longrightarrow> S x"
  shows "wp p (lands d S st) E st"
  using assms by (auto simp: wp_def lands_def split: outcome.splits)

definition safe :: "source \<Rightarrow> (parser_state \<Rightarrow> bool) \<Rightarrow> bool \<Rightarrow> ('a \<Rightarrow> bool) \<Rightarrow> nat \<Rightarrow> 'a parser \<Rightarrow> bool" where
  "safe f P b R k p \<longleftrightarrow>
     (\<forall>st. source_ok f st \<longrightarrow> P st \<longrightarrow> remaining st \<le> k \<longrightarrow> wp p (lands b R st) (\<lambda>e. fails_at st) st)"

lemma safeI:
  "(\<And>st. source_ok f st \<Longrightarrow> P st \<Longrightarrow> remaining st \<le> k \<Longrightarrow> wp p (lands b R st) (\<lambda>e. fails_at st) st)
     \<Longrightarrow> safe f P b R k p"
  by (simp add: safe_def)

lemma safeD:
  "safe f P b R k p \<Longrightarrow> source_ok f st \<Longrightarrow> P st \<Longrightarrow> remaining st \<le> k
     \<Longrightarrow> wp p (lands b R st) (\<lambda>e. fails_at st) st"
  by (simp add: safe_def)

abbreviation anywhere :: "parser_state \<Rightarrow> bool" where
  "anywhere \<equiv> \<lambda>st. True"

abbreviation anything :: "'a \<Rightarrow> bool" where
  "anything \<equiv> \<lambda>x. True"

definition next_in :: "token_type list \<Rightarrow> parser_state \<Rightarrow> bool" where
  "next_in tys st \<longleftrightarrow> t_type (current_token st) \<in> set tys"

lemma safe_mono:
  assumes "safe f P b R k p" "k' \<le> k" "b' \<Longrightarrow> b" "\<And>x. R x \<Longrightarrow> R' x"
  shows "safe f P b' R' k' p"
  by (rule safeI, rule wp_weaken [OF safeD [OF assms(1)] assms(3,4)]) (use assms(2) in simp_all)

lemma safe_less: "safe f P b R (Suc k) p \<Longrightarrow> safe f P b R k p"
  by (erule safe_mono) simp_all

lemma safe_any: "safe f P b R k p \<Longrightarrow> safe f P False anything k p"
  by (erule safe_mono) simp_all

lemma safe_at: "safe f anywhere b R k p \<Longrightarrow> safe f P b R k p"
  by (simp add: safe_def)

lemma safe_ret: "R x \<Longrightarrow> safe f P False R k (ret x)"
  by (simp add: safe_def lands_def)

lemma safe_error: "safe f P b R k (parser_error c m l)"
  by (simp add: safe_def)

lemma safe_lift: "(\<And>x. r = Inr x \<Longrightarrow> R x) \<Longrightarrow> safe f P False R k (lift_raise r)"
  by (auto simp: safe_def lands_def split: sum.split)

lemma safe_runtime_error: "safe f P b R k (runtime_error m)"
  by (simp add: safe_def wp_def runtime_error_def)

text \<open>Sequences: behind a consuming parser there is a token less.\<close>

lemma safe_bind:
  assumes "safe f P b R k p" "\<And>x. R x \<Longrightarrow> safe f anywhere c S (if b then k - 1 else k) (q x)" "d \<Longrightarrow> b \<or> c"
  shows "safe f P d S k (pbind p q)"
proof (rule safeI)
  fix st assume st: "source_ok f st" "P st" "remaining st \<le> k"
  have q: "wp (q x) (lands d S st) (\<lambda>e. fails_at st) st'" if l: "lands b R st x st'" for x st'
  proof (rule wp_lands [OF safeD [OF assms(2)]])
    show "R x" "reaches st st'" using l by (simp_all add: lands_def)
    then show "source_ok f st'" using reaches_ok st(1) by blast
    show "remaining st' \<le> (if b then k - 1 else k)"
      using l reaches_remaining reaches_less st(3) by (fastforce simp: lands_def)
    show "d \<Longrightarrow> c \<or> ps_current st < ps_current st'" using l assms(3) by (auto simp: lands_def)
  qed simp
  show "wp (pbind p q) (lands d S st) (\<lambda>e. fails_at st) st"
    unfolding wp_bind by (rule wp_conseq [OF safeD [OF assms(1) st] q])
qed

lemma safe_cond:
  "(c \<Longrightarrow> safe f P b R k p) \<Longrightarrow> (\<not> c \<Longrightarrow> safe f P b R k q) \<Longrightarrow> safe f P b R k (if c then p else q)"
  by simp

lemma safe_if:
  assumes "safe f P b R k c" "safe f anywhere d S (if b then k - 1 else k) p"
    "safe f anywhere d S (if b then k - 1 else k) q" "e \<Longrightarrow> b \<or> d"
  shows "safe f P e S k (p_if c p q)"
  unfolding p_if_def by (rule safe_bind [OF assms(1) safe_cond]) (use assms in auto)

lemma safe_option:
  "(\<And>x. v = Some x \<Longrightarrow> safe f P b R k (p x)) \<Longrightarrow> (v = None \<Longrightarrow> safe f P b R k q)
     \<Longrightarrow> safe f P b R k (case v of Some x \<Rightarrow> p x | None \<Rightarrow> q)"
  by (cases v) auto

section \<open>Tokens\<close>

lemma nth_ok: "source_ok f st \<Longrightarrow> i < length (ps_tokens st) \<Longrightarrow> token_ok f (ps_tokens st ! i)"
  by (auto simp: source_ok_def tokens_ok_def list_all_iff)

lemma current_ok: "source_ok f st \<Longrightarrow> token_ok f (current_token st)"
  unfolding current_token_def by (rule nth_ok) (simp_all add: source_ok_def parser_ok_def)

lemma previous_ok: "source_ok f st \<Longrightarrow> token_ok f (ps_tokens st ! (ps_current st - 1))"
  by (rule nth_ok) (simp_all add: source_ok_def parser_ok_def less_imp_diff_less)

lemma step_reaches:
  assumes "source_ok f st" "t_type (current_token st) \<noteq> T_END_OF_FILE"
  shows "reaches st (st\<lparr>ps_current := Suc (ps_current st)\<rparr>)"
  using assms parser_ok_step by (simp add: source_ok_def reaches_def current_token_def)

text \<open>Behind a loop over a range the token to be named has a text.\<close>

lemma nth_named:
  assumes "source_ok f st" "has_range f" "i < length (ps_tokens st) - 1"
  shows "t_value (ps_tokens st ! i) \<noteq> []"
proof -
  have "list_all (\<lambda>t. t_value t \<noteq> []) (butlast (ps_tokens st))"
    using assms(1,2) unfolding source_ok_def tokens_ok_def by metis
  then have "t_value (butlast (ps_tokens st) ! i) \<noteq> []"
    using assms(3) by (simp add: list_all_length)
  then show ?thesis using assms(3) by (simp add: nth_butlast)
qed

lemma ok_parser: "source_ok f st \<Longrightarrow> parser_ok st"
  by (simp add: source_ok_def)

lemma safe_peek: "safe f P False (token_ok f) k p_peek"
  using current_ok by (auto simp: safe_def lands_def ok_parser current_token_def)

lemma safe_previous: "safe f P False (token_ok f) k p_previous"
  using previous_ok by (auto simp: safe_def lands_def ok_parser)

lemma safe_isAtEnd: "safe f P False anything k p_isAtEnd"
  by (auto simp: safe_def lands_def ok_parser)

lemma safe_check: "safe f P False anything k (p_check ty)"
  by (auto simp: safe_def lands_def ok_parser)

lemma p_check_plain:
  "source_ok f st \<Longrightarrow> ty \<noteq> T_GREATER \<Longrightarrow> ty \<noteq> T_END_OF_FILE
     \<Longrightarrow> p_check ty st = P_Ok (t_type (current_token st) = ty) st"
  by (simp add: p_check_def p_isAtEnd_def p_peek_def pbind_def ret_def source_ok_def parser_ok_def current_token_def)

lemma p_advance_plain:
  "source_ok f st \<Longrightarrow> t_type (current_token st) \<noteq> T_END_OF_FILE
     \<Longrightarrow> p_advance st = P_Ok (current_token st) (st\<lparr>ps_current := Suc (ps_current st)\<rparr>)"
  by (simp add: p_advance_def p_isAtEnd_def p_peek_def p_previous_def p_step_def pbind_def ret_def
      source_ok_def parser_ok_def current_token_def)

lemma p_match_plain:
  "source_ok f st \<Longrightarrow> ty \<noteq> T_GREATER \<Longrightarrow> ty \<noteq> T_END_OF_FILE
     \<Longrightarrow> p_match ty st = (if t_type (current_token st) = ty
          then P_Ok True (st\<lparr>ps_current := Suc (ps_current st)\<rparr>) else P_Ok False st)"
  by (simp add: p_match_def p_check_plain p_advance_plain pbind_def ret_def)

lemma safe_advance:
  assumes "T_END_OF_FILE \<notin> set tys"
  shows "safe f (next_in tys) True (\<lambda>t. token_ok f t \<and> t_type t \<in> set tys) k p_advance"
proof (rule safeI)
  fix st assume st: "source_ok f st" "next_in tys st"
  then have "t_type (current_token st) \<noteq> T_END_OF_FILE" using assms by (auto simp: next_in_def)
  with st show "wp p_advance (lands True (\<lambda>t. token_ok f t \<and> t_type t \<in> set tys) st) (\<lambda>e. fails_at st) st"
    using p_advance_plain step_reaches current_ok by (simp add: wp_def lands_def next_in_def)
qed

lemma wp_advance_end:
  assumes "source_ok f st" "t_type (current_token st) = T_END_OF_FILE"
  shows "wp p_advance Q E st = Q (ps_tokens st ! (ps_current st - 1)) st"
  using assms by (simp add: wp_def p_advance_def p_isAtEnd_def p_peek_def p_previous_def pbind_def ret_def
      source_ok_def parser_ok_def current_token_def)

lemma safe_advance_any: "safe f P False (token_ok f) k p_advance"
proof (rule safeI)
  fix st assume st: "source_ok f st"
  show "wp p_advance (lands False (token_ok f) st) (\<lambda>e. fails_at st) st"
  proof (cases "t_type (current_token st) = T_END_OF_FILE")
    case True
    then show ?thesis using st previous_ok by (simp add: wp_advance_end lands_def)
  next
    case False
    then show ?thesis using st p_advance_plain step_reaches current_ok by (simp add: wp_def lands_def)
  qed
qed

lemma safe_match: "safe f P False anything k (p_match ty)"
  by (rule safeI, rule wp_match) (auto simp: lands_def ok_parser forward_reaches)

text \<open>Behind a successful match there is a token less, and the token itself is known.\<close>

lemma match_any_plain:
  assumes "source_ok f st" "T_GREATER \<notin> set tys" "T_END_OF_FILE \<notin> set tys"
  shows "p_match_any tys st = (if t_type (current_token st) \<in> set tys
          then P_Ok True (st\<lparr>ps_current := Suc (ps_current st)\<rparr>) else P_Ok False st)"
  using assms(2,3) by (induction tys) (auto simp: ret_def p_if_def pbind_def p_match_plain [OF assms(1)])

lemma safe_stepped:
  assumes "safe f anywhere b R (k - 1) p" "source_ok f st" "remaining st \<le> k"
    "t_type (current_token st) \<noteq> T_END_OF_FILE"
  shows "wp p (lands d R st) (\<lambda>e. fails_at st) (st\<lparr>ps_current := Suc (ps_current st)\<rparr>)"
proof (rule wp_lands [OF safeD [OF assms(1)]])
  let ?st = "st\<lparr>ps_current := Suc (ps_current st)\<rparr>"
  show r: "reaches st ?st" using step_reaches assms(2,4) by blast
  then show "source_ok f ?st" using reaches_ok assms(2) by blast
  show "remaining ?st \<le> k - 1" using assms(2,3) by (auto simp: remaining_def source_ok_def parser_ok_def)
qed simp_all

lemma safe_if_match_any:
  assumes "\<And>t. token_ok f t \<Longrightarrow> t_type t \<in> set tys \<Longrightarrow> safe f anywhere b R (k - 1) (p t)"
    "safe f P c R k q" "d \<Longrightarrow> c" "T_GREATER \<notin> set tys" "T_END_OF_FILE \<notin> set tys"
  shows "safe f P d R k (p_if (p_match_any tys) (pbind p_previous p) q)"
proof (rule safeI)
  fix st assume st: "source_ok f st" "P st" "remaining st \<le> k"
  let ?t = "current_token st"
  show "wp (p_if (p_match_any tys) (pbind p_previous p) q) (lands d R st) (\<lambda>e. fails_at st) st"
  proof (cases "t_type ?t \<in> set tys")
    case True
    have "wp (p ?t) (lands d R st) (\<lambda>e. fails_at st) (st\<lparr>ps_current := Suc (ps_current st)\<rparr>)"
      using safe_stepped [OF assms(1)] current_ok True st assms(5) by metis
    moreover have "p_if (p_match_any tys) (pbind p_previous p) q st = p ?t (st\<lparr>ps_current := Suc (ps_current st)\<rparr>)"
      using match_any_plain [OF st(1) assms(4,5)] True st(1)
      by (simp add: p_if_def pbind_def p_previous_def current_token_def source_ok_def parser_ok_def)
    ultimately show ?thesis by (simp add: wp_def)
  next
    case False
    then have "p_if (p_match_any tys) (pbind p_previous p) q st = q st"
      using match_any_plain [OF st(1) assms(4,5)] by (simp add: p_if_def pbind_def)
    moreover have "wp q (lands d R st) (\<lambda>e. fails_at st) st"
      using wp_weaken [OF safeD [OF assms(2) st] assms(3)] by blast
    ultimately show ?thesis by (simp add: wp_def)
  qed
qed

lemma safe_if_match:
  assumes "safe f anywhere b R (k - 1) p" "safe f P c R k q" "d \<Longrightarrow> c" "ty \<noteq> T_GREATER" "ty \<noteq> T_END_OF_FILE"
  shows "safe f P d R k (p_if (p_match ty) p q)"
proof (rule safeI)
  fix st assume st: "source_ok f st" "P st" "remaining st \<le> k"
  show "wp (p_if (p_match ty) p q) (lands d R st) (\<lambda>e. fails_at st) st"
  proof (cases "t_type (current_token st) = ty")
    case True
    have "wp p (lands d R st) (\<lambda>e. fails_at st) (st\<lparr>ps_current := Suc (ps_current st)\<rparr>)"
      using safe_stepped [OF assms(1) st(1,3)] True assms(5) by metis
    moreover have "p_if (p_match ty) p q st = p (st\<lparr>ps_current := Suc (ps_current st)\<rparr>)"
      using p_match_plain [OF st(1) assms(4,5)] True by (simp add: p_if_def pbind_def)
    ultimately show ?thesis by (simp add: wp_def)
  next
    case False
    then have "p_if (p_match ty) p q st = q st"
      using p_match_plain [OF st(1) assms(4,5)] by (simp add: p_if_def pbind_def)
    moreover have "wp q (lands d R st) (\<lambda>e. fails_at st) st"
      using wp_weaken [OF safeD [OF assms(2) st] assms(3)] by blast
    ultimately show ?thesis by (simp add: wp_def)
  qed
qed

text \<open>A check tells what the next token is.\<close>

lemma check_any_plain:
  assumes "source_ok f st" "T_GREATER \<notin> set tys" "T_END_OF_FILE \<notin> set tys"
  shows "p_check_any tys st = P_Ok (t_type (current_token st) \<in> set tys) st"
  using assms(2,3) by (induction tys) (auto simp: ret_def pbind_def p_check_plain [OF assms(1)])

lemma safe_if_check_any:
  assumes "safe f (next_in tys) b R k p" "safe f P b R k q" "T_GREATER \<notin> set tys" "T_END_OF_FILE \<notin> set tys"
  shows "safe f P b R k (p_if (p_check_any tys) p q)"
proof (rule safeI)
  fix st assume st: "source_ok f st" "P st" "remaining st \<le> k"
  have "p_if (p_check_any tys) p q st = (if next_in tys st then p st else q st)"
    using check_any_plain [OF st(1) assms(3,4)] by (simp add: p_if_def pbind_def next_in_def)
  then have "wp (p_if (p_check_any tys) p q) Q E st = (if next_in tys st then wp p Q E st else wp q Q E st)" for Q E
    by (simp add: wp_def)
  then show "wp (p_if (p_check_any tys) p q) (lands b R st) (\<lambda>e. fails_at st) st"
    using safeD [OF assms(1) st(1)] safeD [OF assms(2) st] st(3) by simp
qed

lemma p_if_check: "p_if (p_check ty) p q = p_if (p_check_any [ty]) p q"
  by (auto simp: fun_eq_iff p_if_def pbind_def ret_def split: outcome.split)

lemma safe_if_check:
  "safe f (next_in [ty]) b R k p \<Longrightarrow> safe f P b R k q \<Longrightarrow> ty \<noteq> T_GREATER \<Longrightarrow> ty \<noteq> T_END_OF_FILE
     \<Longrightarrow> safe f P b R k (p_if (p_check ty) p q)"
  unfolding p_if_check by (rule safe_if_check_any) auto

lemma safe_expect:
  assumes "ty \<noteq> T_END_OF_FILE" "ty \<noteq> T_GREATER"
  shows "safe f P True (\<lambda>t. token_ok f t \<and> t_type t = ty) k (p_expect m ty)"
proof (rule safeI)
  fix st assume st: "source_ok f st"
  show "wp (p_expect m ty) (lands True (\<lambda>t. token_ok f t \<and> t_type t = ty) st) (\<lambda>e. fails_at st) st"
  proof (cases "t_type (current_token st) = ty")
    case True
    then have "t_type (current_token st) \<noteq> T_END_OF_FILE" using assms by simp
    with True show ?thesis
      using st assms p_advance_plain [OF st] step_reaches [OF st] current_ok [OF st]
      by (simp add: wp_def lands_def p_expect_def pbind_def ret_def p_check_plain [OF st])
  next
    case False
    then have "p_expect m ty st = p_unexpected m st"
      using assms by (simp add: p_expect_def pbind_def ret_def p_check_plain [OF st])
    moreover have "wp (p_unexpected m) (lands True (\<lambda>t. token_ok f t \<and> t_type t = ty) st) (\<lambda>e. fails_at st) st"
      using st by (intro wp_unexpected) (simp_all add: ok_parser)
    ultimately show ?thesis by (simp add: wp_def)
  qed
qed

lemma safe_expect_greater: "safe f P False anything k (p_expect m T_GREATER)"
proof (rule safeI)
  fix st assume st: "source_ok f st"
  show "wp (p_expect m T_GREATER) (lands False anything st) (\<lambda>e. fails_at st) st"
    by (rule wp_expect)
      (use st in \<open>auto simp: ok_parser lands_def forward_reaches fails_at_def forward_def dest: moved_fields(3)\<close>)
qed

section \<open>Rules for automation\<close>

text \<open>
  The rules below apply to any bound and any demand of progress; what they need of either is left as
  a side condition. Each combination of a bind with a token operation has a rule of its own, so that
  resolution follows the text of a parse function.
\<close>

named_theorems safe_intro

lemma safe_relax: "safe f P b R k p \<Longrightarrow> (d \<Longrightarrow> b) \<Longrightarrow> safe f P d R k p"
  by (erule safe_mono) simp_all

lemma safe_retI [safe_intro]: "\<not> d \<Longrightarrow> R x \<Longrightarrow> safe f P d R k (ret x)"
  by (rule safe_relax [OF safe_ret]) simp_all

lemma safe_eat:
  assumes "safe f P True R k p" "\<And>x. R x \<Longrightarrow> safe f anywhere False S (k - 1) (q x)"
  shows "safe f P d S k (pbind p q)"
  by (rule safe_bind [OF assms(1)]) (use assms(2) in auto)

lemma safe_pass:
  assumes "safe f P False R k p" "\<And>x. R x \<Longrightarrow> safe f anywhere d S k (q x)"
  shows "safe f P d S k (pbind p q)"
  by (rule safe_bind [OF assms(1), where c = d]) (use assms(2) in auto)

declare safe_error [safe_intro] safe_runtime_error [safe_intro] safe_cond [safe_intro]

lemma safe_case_option [safe_intro]:
  "(\<And>x. v = Some x \<Longrightarrow> safe f P b R k (p x)) \<Longrightarrow> (v = None \<Longrightarrow> safe f P b R k q)
     \<Longrightarrow> safe f P b R k (case v of None \<Rightarrow> q | Some x \<Rightarrow> p x)"
  by (cases v) auto

lemma safe_case_prod [safe_intro]:
  "(\<And>x y. v = (x, y) \<Longrightarrow> safe f P b R k (p x y)) \<Longrightarrow> safe f P b R k (case v of (x, y) \<Rightarrow> p x y)"
  by (cases v) auto

lemma safe_let [safe_intro]: "(\<And>x. x = v \<Longrightarrow> safe f P b R k (p x)) \<Longrightarrow> safe f P b R k (let x = v in p x)"
  by simp

lemma safe_do_expect [safe_intro]:
  "ty \<noteq> T_END_OF_FILE \<Longrightarrow> ty \<noteq> T_GREATER
     \<Longrightarrow> (\<And>t. token_ok f t \<and> t_type t = ty \<Longrightarrow> safe f anywhere False S (k - 1) (q t))
     \<Longrightarrow> safe f P d S k (pbind (p_expect m ty) q)"
  by (rule safe_eat [OF safe_expect])

lemma safe_do_match [safe_intro]:
  "(\<And>b. safe f anywhere d S k (q b)) \<Longrightarrow> safe f P d S k (pbind (p_match ty) q)"
  by (rule safe_pass [OF safe_match])

lemma safe_do_check [safe_intro]:
  "(\<And>b. safe f anywhere d S k (q b)) \<Longrightarrow> safe f P d S k (pbind (p_check ty) q)"
  by (rule safe_pass [OF safe_check])

lemma safe_do_peek [safe_intro]:
  "(\<And>t. token_ok f t \<Longrightarrow> safe f anywhere d S k (q t)) \<Longrightarrow> safe f P d S k (pbind p_peek q)"
  by (rule safe_pass [OF safe_peek])

lemma safe_do_previous [safe_intro]:
  "(\<And>t. token_ok f t \<Longrightarrow> safe f anywhere d S k (q t)) \<Longrightarrow> safe f P d S k (pbind p_previous q)"
  by (rule safe_pass [OF safe_previous])

text \<open>Behind a check the rule for the checked types applies, elsewhere \<^verbatim>\<open>advance\<close> may stay at the end.\<close>

lemma safe_do_advance [safe_intro]:
  "T_END_OF_FILE \<notin> set tys
     \<Longrightarrow> (\<And>t. token_ok f t \<and> t_type t \<in> set tys \<Longrightarrow> safe f anywhere False S (k - 1) (q t))
     \<Longrightarrow> safe f (next_in tys) d S k (pbind p_advance q)"
  by (rule safe_eat [OF safe_advance])

lemma safe_do_advance_any:
  "(\<And>t. token_ok f t \<Longrightarrow> safe f anywhere d S k (q t)) \<Longrightarrow> safe f P d S k (pbind p_advance q)"
  by (rule safe_pass [OF safe_advance_any])

lemma safe_p_if_match [safe_intro]:
  "ty \<noteq> T_GREATER \<Longrightarrow> ty \<noteq> T_END_OF_FILE \<Longrightarrow> safe f anywhere False R (k - 1) p \<Longrightarrow> safe f P d R k q
     \<Longrightarrow> safe f P d R k (p_if (p_match ty) p q)"
  by (rule safe_if_match [where b = False and c = d]) auto

lemma safe_p_if_match_any [safe_intro]:
  "T_GREATER \<notin> set tys \<Longrightarrow> T_END_OF_FILE \<notin> set tys
     \<Longrightarrow> (\<And>t. token_ok f t \<Longrightarrow> t_type t \<in> set tys \<Longrightarrow> safe f anywhere False R (k - 1) (p t))
     \<Longrightarrow> safe f P d R k q \<Longrightarrow> safe f P d R k (p_if (p_match_any tys) (pbind p_previous p) q)"
  by (rule safe_if_match_any [where b = False and c = d]) auto

declare safe_if_check [safe_intro] safe_if_check_any [safe_intro]

lemma safe_p_if:
  "safe f P False anything k c \<Longrightarrow> safe f anywhere d R k p \<Longrightarrow> safe f anywhere d R k q
     \<Longrightarrow> safe f P d R k (p_if c p q)"
  by (erule safe_if [where b = False and d = d]) simp_all

section \<open>Locations and names\<close>

definition ident_ok :: "source \<Rightarrow> ident \<Rightarrow> bool" where
  "ident_ok f i \<longleftrightarrow> token_name i \<noteq> [] \<and> loc_ok f (id_location i)"

lemma loc_ok_simps [simp]:
  "token_ok f t \<Longrightarrow> loc_ok f (at_position (t_position t) n)" "loc_ok f no_location"
  "ident_ok f i \<Longrightarrow> loc_ok f (id_location i)" "loc_ok f (moved_location i)"
  by (simp_all add: loc_ok_def token_ok_def at_position_def no_location_def ident_ok_def moved_location_def)

lemma safe_spanned:
  "loc_ok f l \<Longrightarrow> loc_ok f l' \<Longrightarrow> safe f P False (loc_ok f) k (spanned l l')"
  by (auto simp: safe_def wp_def lands_def spanned_def location_span_def loc_ok_def)

lemma safe_do_spanned [safe_intro]:
  "loc_ok f l \<Longrightarrow> loc_ok f l' \<Longrightarrow> (\<And>x. loc_ok f x \<Longrightarrow> safe f anywhere d S k (q x))
     \<Longrightarrow> safe f P d S k (pbind (spanned l l') q)"
  by (rule safe_pass [OF safe_spanned])

lemma safe_do_here [safe_intro]:
  "(\<And>l. loc_ok f l \<Longrightarrow> safe f anywhere d S k (q l)) \<Longrightarrow> safe f P d S k (pbind here q)"
proof (rule safe_pass)
  show "safe f P False (loc_ok f) k here"
    unfolding here_def by (intro safe_intro) simp_all
qed

lemma safe_do_behind [safe_intro]:
  "(\<And>l. loc_ok f l \<Longrightarrow> safe f anywhere d S k (q l)) \<Longrightarrow> safe f P d S k (pbind behind q)"
proof (rule safe_pass)
  show "safe f P False (loc_ok f) k behind"
    unfolding behind_def by (intro safe_intro) simp_all
qed

lemma safe_do_named [safe_intro]:
  "n \<noteq> [] \<Longrightarrow> loc_ok f l \<Longrightarrow> (\<And>i. ident_ok f i \<Longrightarrow> safe f anywhere d S k (q i))
     \<Longrightarrow> safe f P d S k (pbind (named_ident n l) q)"
  by (rule safe_pass [where R = "ident_ok f"])
    (simp_all add: safe_def wp_def lands_def named_ident_def ident_ok_def)

definition nameable :: "source \<Rightarrow> token \<Rightarrow> bool" where
  "nameable f t \<longleftrightarrow> token_ok f t \<and> t_value t \<noteq> []"

lemma nameable_token: "token_ok f t \<Longrightarrow> t_type t \<notin> {T_STRING_LITERAL, T_END_OF_FILE} \<Longrightarrow> nameable f t"
  by (auto simp: nameable_def token_ok_def)

lemma safe_makeSourceIdentifier: "nameable f t \<Longrightarrow> safe f P False (ident_ok f) k (makeSourceIdentifier t)"
  by (simp add: safe_def wp_def lands_def makeSourceIdentifier_def named_ident_def ident_ok_def nameable_def)

lemma safe_do_source [safe_intro]:
  "nameable f t \<Longrightarrow> (\<And>i. ident_ok f i \<Longrightarrow> safe f anywhere d S k (q i))
     \<Longrightarrow> safe f P d S k (pbind (makeSourceIdentifier t) q)"
  by (rule safe_pass [OF safe_makeSourceIdentifier])

section \<open>Scopes, marks and loops\<close>

lemma safe_define [safe_intro]:
  "(\<And>x. safe f anywhere d S k (q x)) \<Longrightarrow> safe f P d S k (pbind (p_define n t) q)"
  by (rule safe_pass [where R = anything])
    (auto simp: safe_def wp_def lands_def p_define_def define_variable_def reaches_def source_ok_def parser_ok_def)

lemma safe_is_variable [safe_intro]:
  "(\<And>x. safe f anywhere d S k (q x)) \<Longrightarrow> safe f P d S k (pbind (p_is_variable n) q)"
  by (rule safe_pass [where R = anything]) (auto simp: safe_def wp_def lands_def p_is_variable_def)

lemma safe_is_struct [safe_intro]:
  "(\<And>x. safe f anywhere d S k (q x)) \<Longrightarrow> safe f P d S k (pbind (p_is_struct n) q)"
  by (rule safe_pass [where R = anything]) (auto simp: safe_def wp_def lands_def p_is_struct_def)

lemma safe_lifted [safe_intro]:
  "(\<And>x. safe f anywhere d S k (q x)) \<Longrightarrow> safe f P d S k (pbind (lift_raise r) q)"
  by (rule safe_pass [where R = anything]) (auto simp: safe_def lands_def split: sum.split)

lemma safe_next_is: "safe f P False anything k (p_next_is tys)"
  by (auto simp: safe_def wp_def lands_def p_next_is_def)

text \<open>A scope entered and left around a parser.\<close>

lemma safe_scoped:
  assumes "safe f anywhere b R k p" "\<And>x. R x \<Longrightarrow> safe f anywhere d S (if b then k - 1 else k) (q x)" "e \<Longrightarrow> b \<or> d"
  shows "safe f P e S k (pbind p_pushScope (\<lambda>_. pbind p (\<lambda>x. pbind p_popScope (\<lambda>_. q x))))"
proof (rule safeI)
  fix st assume st: "source_ok f st" "P st" "remaining st \<le> k"
  let ?st = "st\<lparr>ps_scopes := new_parse_scope # ps_scopes st\<rparr>"
  have ok: "source_ok f ?st" using st(1) by (simp add: source_ok_def parser_ok_def)
  have "remaining ?st \<le> k" using st(3) by (simp add: remaining_def)
  from safeD [OF assms(1) ok _ this] have p: "wp p (lands b R ?st) (\<lambda>e. fails_at ?st) ?st" by simp
  have left_scope: "wp (pbind p_popScope (\<lambda>_. q x)) (lands e S st) (\<lambda>e. fails_at st) st'"
    if l: "lands b R ?st x st'" for x st'
  proof -
    let ?st' = "st'\<lparr>ps_scopes := tl (ps_scopes st')\<rparr>"
    have r: "reaches ?st st'" "R x" "b \<longrightarrow> ps_current st < ps_current st'" using l by (auto simp: lands_def)
    obtain s t ts where sc: "ps_scopes st' = s # t # ts"
      using r(1) st(1) by (cases "ps_scopes st'"; cases "tl (ps_scopes st')") (auto simp: reaches_def source_ok_def)
    then have pop: "pbind p_popScope (\<lambda>_. q x) st' = q x ?st'" by (simp add: p_popScope_def pbind_def)
    have r': "reaches st ?st'" using r(1) sc by (auto simp: reaches_def parser_ok_def)
    have "wp (q x) (lands e S st) (\<lambda>e. fails_at st) ?st'"
    proof (rule wp_lands [OF safeD [OF assms(2)] r'])
      show "source_ok f ?st'" using reaches_ok st(1) r' by blast
      show "remaining ?st' \<le> (if b then k - 1 else k)"
        using reaches_remaining [OF r'] reaches_less [OF r'] r(3) st(3) by fastforce
    qed (use r assms(3) in auto)
    then show ?thesis unfolding wp_def pop by (simp add: wp_def)
  qed
  have deeper: "fails_at st st'" if "fails_at ?st st'" for st' using that by (auto simp: fails_at_def)
  have "wp p (\<lambda>x. wp (pbind p_popScope (\<lambda>_. q x)) (lands e S st) (\<lambda>e. fails_at st)) (\<lambda>e. fails_at st) ?st"
    by (rule wp_conseq_both [OF p left_scope deeper])
  then have "wp (pbind p (\<lambda>x. pbind p_popScope (\<lambda>_. q x))) (lands e S st) (\<lambda>e. fails_at st) ?st"
    by (simp only: wp_bind)
  then show "wp (pbind p_pushScope (\<lambda>_. pbind p (\<lambda>x. pbind p_popScope (\<lambda>_. q x)))) (lands e S st) (\<lambda>e. fails_at st) st"
    by (simp add: wp_def pbind_def p_pushScope_def)
qed

text \<open>A parser whose position is put back.\<close>

lemma safe_tried:
  assumes "safe f P False R k p" "\<And>x. R x \<Longrightarrow> S (h x)"
  shows "safe f P False S k (pbind p_mark (\<lambda>s. pbind p (\<lambda>x. pbind (p_reset s) (\<lambda>_. ret (h x)))))"
proof (rule safeI)
  fix st assume st: "source_ok f st" "P st" "remaining st \<le> k"
  have undo: "lands False S st (h x) (st'\<lparr>ps_current := ps_current st\<rparr>)" if "lands False R st x st'" for x st'
    using that st(1) assms(2) by (auto simp: lands_def reaches_def source_ok_def parser_ok_def)
  show "wp (pbind p_mark (\<lambda>s. pbind p (\<lambda>x. pbind (p_reset s) (\<lambda>_. ret (h x))))) (lands False S st) (\<lambda>e. fails_at st) st"
    using safeD [OF assms(1) st] undo
    by (auto simp: wp_def pbind_def p_mark_def p_reset_def ret_def split: outcome.splits)
qed

lemma safe_rounds:
  assumes "\<And>n j. n \<le> k \<Longrightarrow> n \<le> j \<Longrightarrow> safe f P d R n (F j)"
  shows "safe f P d R k (with_rounds F)"
proof (rule safeI)
  fix st assume st: "source_ok f st" "P st" "remaining st \<le> k"
  have "remaining st \<le> Suc (length (ps_tokens st))" by (simp add: remaining_def)
  from safeD [OF assms [OF st(3) this] st(1,2)]
  show "wp (with_rounds F) (lands d R st) (\<lambda>e. fails_at st) st" by (simp add: wp_def with_rounds_def)
qed

text \<open>With no tokens left there is no well-formed state.\<close>

lemma safe_zero: "safe f P d R 0 p"
  by (rule safeI) (simp add: source_ok_def parser_ok_def remaining_def)

end
