(* ===== verification/Parser_Total.thy ===== *)
theory Parser_Total
  imports Parser_Safe
begin

text \<open>
  Every parse function of expressions and statements is safe in a grammar whose recursive parsers are
  safe for one token less, so the parser of statements needs no more depth than there are tokens.
\<close>

lemma safe_run:
  "safe f anywhere True R k p \<Longrightarrow> n \<le> k \<Longrightarrow> safe f P d R n p"
  by (rule safe_at, erule safe_mono) simp_all

lemma safe_do:
  "safe f anywhere True R k p \<Longrightarrow> n \<le> k \<Longrightarrow> (\<And>x. R x \<Longrightarrow> safe f anywhere False S (n - 1) (q x))
     \<Longrightarrow> safe f P d S n (pbind p q)"
  by (rule safe_eat [OF safe_run])

lemma safe_given: "safe f P d R k p \<Longrightarrow> (\<And>st. Q st \<Longrightarrow> P st) \<Longrightarrow> safe f Q d R k p"
  by (simp add: safe_def)

section \<open>Types and names\<close>

lemma safe_isType: "safe f P False anything k isType"
  by (rule safeI) (auto simp: wp_isType ok_parser lands_def split: sum.split)

lemma safe_parse_type: "safe f P True anything k parse_type"
proof (rule safeI)
  fix st assume st: "source_ok f st"
  have "wp (parse_type_rec (Suc (length (ps_tokens st)))) (lands True anything st) (\<lambda>e. fails_at st) st"
    using st by (intro wp_parse_type)
      (auto simp: ok_parser lands_def forward_reaches fails_at_def forward_def remaining_def dest: moved_fields(3))
  then show "wp parse_type (lands True anything st) (\<lambda>e. fails_at st) st"
    unfolding wp_def parse_type_def .
qed

lemma safe_do_type [safe_intro]:
  "(\<And>t. safe f anywhere False S (k - 1) (q t)) \<Longrightarrow> safe f P d S k (pbind parse_type q)"
  by (rule safe_eat [OF safe_parse_type])

lemma safe_do_rounds [safe_intro]:
  assumes "\<And>n j. n \<le> k \<Longrightarrow> n \<le> j \<Longrightarrow> safe f P False anything n (F j)"
    and "\<And>x. safe f anywhere d S k (q x)"
  shows "safe f P d S k (pbind (with_rounds F) q)"
  by (rule safe_pass [OF safe_rounds]) (use assms in auto)

text \<open>A choice inside a sequence, when nothing is needed of its result.\<close>

lemma safe_do_choice [safe_intro]:
  "safe f P False anything k (p_if c a b) \<Longrightarrow> (\<And>x. safe f anywhere d S k (q x))
     \<Longrightarrow> safe f P d S k (pbind (p_if c a b) q)"
  "safe f P False anything k (if e then a else b) \<Longrightarrow> (\<And>x. safe f anywhere d S k (q x))
     \<Longrightarrow> safe f P d S k (pbind (if e then a else b) q)"
  by (erule safe_pass, simp)+

lemma safe_p_if_when [safe_intro]:
  "safe f P False anything k (if e then c else c') \<Longrightarrow> safe f anywhere d R k p \<Longrightarrow> safe f anywhere d R k q
     \<Longrightarrow> safe f P d R k (p_if (if e then c else c') p q)"
  by (rule safe_p_if)

lemma safe_roundsI [safe_intro]:
  assumes "\<And>n j. n \<le> k \<Longrightarrow> n \<le> j \<Longrightarrow> safe f P d R n (F j)"
  shows "safe f P d R k (with_rounds F)"
  by (rule safe_rounds) (use assms in auto)

lemmas as_p_if = p_if_def [symmetric]

lemma safe_type_list: "n \<le> j \<Longrightarrow> safe f P d anything n (parse_type_list j ts)"
proof (induction j arbitrary: n ts P d)
  case (Suc j)
  then show ?case
    unfolding parse_type_list.simps as_p_if by (intro safe_intro) auto
qed (simp add: safe_zero)

lemma safe_name_parts: "n \<le> j \<Longrightarrow> ps \<noteq> [] \<and> hd ps \<noteq> [] \<Longrightarrow> safe f P False (\<lambda>qs. qs \<noteq> [] \<and> hd qs \<noteq> []) n (parse_name_parts j ps)"
proof (induction j arbitrary: n ps P)
  case (Suc j)
  then show ?case
    unfolding parse_name_parts.simps as_p_if by (intro safe_intro) auto
qed (simp add: safe_zero)

lemma qualified_nonempty: "qs \<noteq> [] \<Longrightarrow> hd qs \<noteq> [] \<Longrightarrow> qualified_toString qs \<noteq> []"
  by (induction qs rule: qualified_toString.induct) auto

lemma safe_contextual: "safe f P False anything k (checkContextual w)"
  unfolding checkContextual_def as_p_if by (intro safe_intro) auto

declare safe_match [safe_intro] safe_check [safe_intro] safe_isAtEnd [safe_intro] safe_next_is [safe_intro]
  safe_contextual [safe_intro]

lemma nameable_ident [simp]: "token_ok f t \<Longrightarrow> t_type t = T_IDENTIFIER \<Longrightarrow> nameable f t"
  by (simp add: nameable_token)

lemma nameable_value [simp]: "nameable f t \<Longrightarrow> t_value t \<noteq> []" "nameable f t \<Longrightarrow> token_ok f t"
  by (simp_all add: nameable_def)

lemma safe_do_question [safe_intro]:
  "(\<And>x. safe f anywhere d S n (q x)) \<Longrightarrow> safe f P d S n (pbind (question_suffix b c) q)"
  by (rule safe_pass [where R = anything]) (unfold question_suffix_def, intro safe_intro, auto)

lemma safe_do_mut [safe_intro]:
  "(\<And>x. safe f anywhere d S n (q x)) \<Longrightarrow> safe f P d S n (pbind (match_mut b) q)"
  by (rule safe_pass [where R = anything]) (unfold match_mut_def, intro safe_intro, auto)

lemma safe_do_base [safe_intro]:
  "(\<And>x. safe f anywhere d S n (q x)) \<Longrightarrow> safe f P d S n (pbind (declared_base i c) q)"
  by (rule safe_pass [where R = anything])
    (auto simp: declared_base_def Let_def intro!: safe_intro safe_lift)

section \<open>Modifiers and suffixes\<close>

text \<open>A question that leaves the state as it is.\<close>

definition reads :: "source \<Rightarrow> bool parser \<Rightarrow> bool" where
  "reads f c \<longleftrightarrow> (\<forall>st. source_ok f st \<longrightarrow> (\<exists>b. c st = P_Ok b st))"

lemma safe_reading:
  "reads f c \<Longrightarrow> safe f P d R n p \<Longrightarrow> safe f P d R n q \<Longrightarrow> safe f P d R n (p_if c p q)"
  by (fastforce simp: reads_def safe_def wp_def p_if_def pbind_def split: if_split)

lemma reads_ret: "reads f (ret b)"
  by (simp add: reads_def ret_def)

lemma reads_if: "reads f c \<Longrightarrow> reads f a \<Longrightarrow> reads f b \<Longrightarrow> reads f (p_if c a b)"
  by (fastforce simp: reads_def p_if_def pbind_def split: if_split)

lemma reads_pointer: "reads f (starts_pointer_declaration a)"
proof -
  have "reads f (checkContextual w)" for w
    unfolding checkContextual_def as_p_if
    using p_check_plain [of f _ T_IDENTIFIER]
    by (auto simp: reads_def p_if_def pbind_def ret_def p_peek_def source_ok_def parser_ok_def)
  moreover have "reads f (p_is_variable w)" "reads f (p_next_is ts)" for w ts
    by (simp_all add: reads_def p_is_variable_def p_next_is_def)
  ultimately show ?thesis
    unfolding starts_pointer_declaration_def by (simp add: reads_if reads_ret)
qed

text \<open>The token behind \<^verbatim>\<open>auto\<close> or \<^verbatim>\<open>mut\<close> is not empty, and \<^verbatim>\<open>advance\<close> at the end gives the word itself.\<close>

lemma after_no_empty:
  "no_empty_after ts \<Longrightarrow> Suc i < length ts \<Longrightarrow> t_type (ts ! i) \<in> {T_AUTO, T_MUT} \<Longrightarrow> t_value (ts ! Suc i) = []
     \<Longrightarrow> t_type (ts ! Suc i) = T_END_OF_FILE"
proof (induction ts arbitrary: i rule: no_empty_after.induct)
  case (1 s t ts)
  then show ?case by (cases i) auto
qed auto

definition after_modifier :: "parser_state \<Rightarrow> bool" where
  "after_modifier st \<longleftrightarrow>
     0 < ps_current st \<and> t_type (ps_tokens st ! (ps_current st - 1)) \<in> {T_AUTO, T_MUT}"

lemma safe_advance_modified:
  "safe f after_modifier False (nameable f) n p_advance"
proof (rule safeI)
  fix st assume st: "source_ok f st" "after_modifier st"
  let ?i = "ps_current st" and ?ts = "ps_tokens st"
  have i: "0 < ?i" "?i < length ?ts" "t_type (?ts ! (?i - 1)) \<in> {T_AUTO, T_MUT}"
    using st by (auto simp: after_modifier_def source_ok_def parser_ok_def)
  show "wp p_advance (lands False (nameable f) st) (\<lambda>e. fails_at st) st"
  proof (cases "t_type (current_token st) = T_END_OF_FILE")
    case True
    have "nameable f (?ts ! (?i - 1))" using i previous_ok [OF st(1)] by (intro nameable_token) auto
    then show ?thesis using st True by (simp add: wp_advance_end lands_def)
  next
    case False
    have "no_empty_after ?ts" using st(1) unfolding source_ok_def tokens_ok_def by metis
    moreover obtain j where j: "?i = Suc j" using i(1) gr0_implies_Suc by blast
    ultimately have "t_value (?ts ! Suc j) \<noteq> []"
      using after_no_empty [of ?ts j] i(2,3) False by (simp only: j current_token_def diff_Suc_1) blast
    then have "t_value (current_token st) \<noteq> []" by (simp add: j current_token_def)
    then have "nameable f (current_token st)" using current_ok [OF st(1)] unfolding nameable_def by blast
    then show ?thesis using st False p_advance_plain step_reaches by (simp add: wp_def lands_def)
  qed
qed

lemma safe_match_modifier:
  assumes "safe f after_modifier False R (n - 1) (q True)" "ty \<in> {T_AUTO, T_MUT}"
    "safe f (\<lambda>st. P st \<and> t_type (current_token st) \<noteq> ty) d R n (q False)"
  shows "safe f P d R n (pbind (p_match ty) q)"
proof (rule safeI)
  fix st assume st: "source_ok f st" "P st" "remaining st \<le> n"
  have ty: "ty \<noteq> T_GREATER" "ty \<noteq> T_END_OF_FILE" using assms(2) by auto
  show "wp (pbind (p_match ty) q) (lands d R st) (\<lambda>e. fails_at st) st"
  proof (cases "t_type (current_token st) = ty")
    case True
    let ?st = "st\<lparr>ps_current := Suc (ps_current st)\<rparr>"
    have r: "reaches st ?st" using step_reaches [OF st(1)] True ty by simp
    have "wp (q True) (lands d R st) (\<lambda>e. fails_at st) ?st"
    proof (rule wp_lands [OF safeD [OF assms(1)] r])
      show "source_ok f ?st" using reaches_ok [OF st(1) r] .
      show "after_modifier ?st" using True assms(2) by (auto simp: after_modifier_def current_token_def)
      show "remaining ?st \<le> n - 1" using reaches_less [OF r] st(3) by simp
    qed simp
    then show ?thesis using True p_match_plain [OF st(1) ty] by (simp add: wp_def pbind_def)
  next
    case False
    then show ?thesis
      using safeD [OF assms(3) st(1)] st(2,3) p_match_plain [OF st(1) ty] by (simp add: wp_def pbind_def)
  qed
qed

lemma safe_classify_name: "nameable f t \<Longrightarrow> safe f P False (\<lambda>c. nameable f (nc_token c)) n (classify_name a t)"
  unfolding classify_name_def invalid_suffix_def
  by (intro safe_intro) auto

lemma safe_generic_arguments: "safe f P False anything n (generic_arguments c)"
  unfolding generic_arguments_def
  by (intro safe_p_if safe_intro safe_type_list safe_pass [OF safe_expect_greater]) auto

lemma safe_count_stars: "n \<le> j \<Longrightarrow> safe f P False anything n (count_stars j i)"
proof (induction j arbitrary: n i P)
  case (Suc j)
  then show ?case unfolding count_stars.simps by (intro safe_intro) auto
qed (simp add: safe_zero)

lemma safe_element_type [safe_intro]:
  "(\<And>x. safe f anywhere d S n (q x)) \<Longrightarrow> safe f P d S n (pbind (element_type t) q)"
  by (rule safe_pass [where R = anything]) (unfold element_type_def, intro safe_intro, auto)

lemma safe_match_operator [safe_intro]:
  "list_all (\<lambda>(ty, opr). ty \<noteq> T_GREATER \<and> ty \<noteq> T_END_OF_FILE) ops \<Longrightarrow> safe f P False anything n (match_operator ops)"
  by (induction ops) (auto intro!: safe_intro)

lemma safe_do_operator [safe_intro]:
  "(\<And>x. safe f anywhere d S n (q x)) \<Longrightarrow> safe f P d S n (pbind (match_operator compound_operators) q)"
  by (rule safe_pass [OF safe_match_operator]) (simp_all add: compound_operators_def)

lemma safe_do_parts:
  assumes "nameable f t" "\<And>ps. qualified_toString ps \<noteq> [] \<Longrightarrow> safe f anywhere d S n (q ps)"
  shows "safe f P d S n (pbind (with_rounds (\<lambda>k. parse_name_parts k [t_value t])) q)"
  by (rule safe_pass [OF safe_rounds [OF safe_name_parts]]) (use assms qualified_nonempty in auto)

lemma safe_declared_name:
  "nameable f (nc_token c) \<Longrightarrow> safe f (\<lambda>st. \<not> i \<longrightarrow> next_in [T_IDENTIFIER] st) False (ident_ok f) n
     (if i then makeSourceIdentifier (nc_token c) else pbind p_advance makeSourceIdentifier)"
  by (cases i) (auto intro: safe_makeSourceIdentifier intro!: safe_intro)

lemma safe_do_inference:
  "(\<And>i. safe f anywhere d S n (q i)) \<Longrightarrow> safe f P d S n (pbind (is_inference c) q)"
proof (rule safe_pass [where R = anything])
  show "safe f P False anything n (is_inference c)"
  proof (rule safeI)
    fix st assume "source_ok f st"
    then show "wp (is_inference c) (lands False anything st) (\<lambda>e. fails_at st) st"
      using check_any_plain [of f st "[T_EQUAL, T_SEMICOLON]"]
      by (auto simp: is_inference_def wp_def ret_def lands_def)
  qed
qed

lemma safe_do_explicit:
  assumes "\<And>i. safe f (\<lambda>st. i \<longrightarrow> next_in [T_IDENTIFIER] st) d S n (q i)"
  shows "safe f P d S n (pbind (is_explicit c) q)"
proof (rule safeI)
  fix st assume st: "source_ok f st" "P st" "remaining st \<le> n"
  define i where "i \<longleftrightarrow> \<not> nc_variable c \<and> next_in [T_IDENTIFIER] st"
  have "is_explicit c st = P_Ok i st"
    using p_check_plain [OF st(1), of T_IDENTIFIER] by (simp add: is_explicit_def ret_def next_in_def i_def)
  moreover have "wp (q i) (lands d S st) (\<lambda>e. fails_at st) st"
    by (rule safeD [OF assms]) (use st in \<open>simp_all add: i_def\<close>)
  ultimately show "wp (pbind (is_explicit c) q) (lands d S st) (\<lambda>e. fails_at st) st"
    by (simp add: wp_def pbind_def)
qed

lemma safe_match_any: "safe f P False anything n (p_match_any tys)"
  by (induction tys arbitrary: P) (auto intro!: safe_intro safe_p_if)

lemma safe_check_any: "safe f P False anything n (p_check_any tys)"
proof (induction tys arbitrary: P)
  case Nil
  have "p_check_any [] = ret False" by (simp add: fun_eq_iff ret_def)
  then show ?case by (simp add: safe_ret)
next
  case (Cons ty tys)
  have "p_check_any (ty # tys) = p_if (p_check ty) (ret True) (p_check_any tys)"
    by (simp add: fun_eq_iff p_if_def)
  then show ?case using Cons by (simp add: safe_p_if safe_check safe_ret)
qed

lemma safe_at_close: "safe f P False anything n (at_close ty)"
  unfolding at_close_def by (intro safe_p_if safe_intro) auto

text \<open>In a file with a range loop every token but the last has a text.\<close>

lemma safe_advance_named: "has_range f \<Longrightarrow> safe f P False (nameable f) n p_advance"
proof (rule safeI)
  fix st assume f: "has_range f" and st: "source_ok f st"
  let ?i = "ps_current st" and ?ts = "ps_tokens st"
  have i: "0 < ?i" "?i < length ?ts" "t_type (last ?ts) = T_END_OF_FILE"
    using st by (auto simp: source_ok_def parser_ok_def)
  show "wp p_advance (lands False (nameable f) st) (\<lambda>e. fails_at st) st"
  proof (cases "t_type (current_token st) = T_END_OF_FILE")
    case True
    have "nameable f (?ts ! (?i - 1))"
      unfolding nameable_def using previous_ok [OF st] nth_named [OF st f, of "?i - 1"] i by simp
    then show ?thesis using st True by (simp add: wp_advance_end lands_def)
  next
    case False
    then have "?i \<noteq> length ?ts - 1" using i using last_conv_nth [of ?ts] by (fastforce simp: current_token_def)
    then have "nameable f (current_token st)"
      unfolding nameable_def current_token_def
      using current_ok [OF st] nth_named [OF st f, of ?i] i by (simp add: current_token_def)
    then show ?thesis using st False p_advance_plain step_reaches by (simp add: wp_def lands_def)
  qed
qed

lemma safe_check_in: "safe f P False (\<lambda>b. b \<longrightarrow> has_range f) n (p_check T_IN)"
proof (rule safeI)
  fix st assume st: "source_ok f st"
  have "current_token st \<in> set (snd f)"
    using st by (simp add: source_ok_def parser_ok_def current_token_def)
  then have "t_type (current_token st) = T_IN \<longrightarrow> has_range f"
    unfolding has_range_def list_ex_iff by blast
  then show "wp (p_check T_IN) (lands False (\<lambda>b. b \<longrightarrow> has_range f) st) (\<lambda>e. fails_at st) st"
    using p_check_plain [OF st, of T_IN] st by (simp add: wp_def lands_def)
qed

lemma safe_named_range: "safe f P False (\<lambda>b. b \<longrightarrow> has_range f) n detect_named_range"
  unfolding detect_named_range_def
  by (rule safe_tried [where R = "\<lambda>b. b \<longrightarrow> has_range f"])
    (auto intro!: safe_p_if safe_isType safe_do_advance_any safe_check_in safe_intro)

section \<open>Expressions\<close>

definition expr_ok :: "source \<Rightarrow> expression \<Rightarrow> bool" where
  "expr_ok f e \<longleftrightarrow> loc_ok f (location_of e) \<and> (\<forall>v l. e = E_StringLiteral v l \<longrightarrow> CHR ''{'' \<notin> set v)"

lemma expr_okI: "loc_ok f (location_of e) \<Longrightarrow> (\<And>v l. e \<noteq> E_StringLiteral v l) \<Longrightarrow> expr_ok f e"
  by (simp add: expr_ok_def)

lemma expr_ok_nodes [simp]:
  "expr_ok f (E_VariableDeclaration t i mu)" "expr_ok f (E_VariableInit t i e mu)" "expr_ok f (E_Assignment i e)"
  "expr_ok f (E_Identifier i) \<longleftrightarrow> loc_ok f (id_location i)" "expr_ok f (E_FieldAccess a i fk) \<longleftrightarrow> loc_ok f (id_location i)"
  "expr_ok f (E_FieldAssignment a i v) \<longleftrightarrow> loc_ok f (id_location i)"
  "expr_ok f (E_FunctionCall i as rcv ts fwd) \<longleftrightarrow> loc_ok f (id_location i)"
  "expr_ok f (E_Unary opr a l) \<longleftrightarrow> loc_ok f l" "expr_ok f (E_Postfix opr a l) \<longleftrightarrow> loc_ok f l"
  "expr_ok f (E_Binary a opr b l) \<longleftrightarrow> loc_ok f l" "expr_ok f (E_BraceInitializer els w l) \<longleftrightarrow> loc_ok f l"
  "expr_ok f (E_IndexAccess a b l) \<longleftrightarrow> loc_ok f l" "expr_ok f (E_IndexAssignment a b v l) \<longleftrightarrow> loc_ok f l"
  "expr_ok f (E_Switch a arms l) \<longleftrightarrow> loc_ok f l" "expr_ok f E_VariadicForward"
  "expr_ok f (E_ArrayLiteral es ty h l) \<longleftrightarrow> loc_ok f l" "expr_ok f (E_FixedArray t a l) \<longleftrightarrow> loc_ok f l"
  "expr_ok f (E_New a) \<longleftrightarrow> loc_ok f (location_of a)" "expr_ok f (E_Await a l) \<longleftrightarrow> loc_ok f l"
  "expr_ok f (E_Ternary a b c l) \<longleftrightarrow> loc_ok f l" "expr_ok f (E_Try a fb l) \<longleftrightarrow> loc_ok f l"
  "expr_ok f (E_Cast t a l) \<longleftrightarrow> loc_ok f l" "expr_ok f (E_Is a t nm l) \<longleftrightarrow> loc_ok f l"
  by (simp_all add: expr_ok_def)

lemma expr_ok_loc [simp]: "expr_ok f e \<Longrightarrow> loc_ok f (location_of e)"
  by (simp add: expr_ok_def)

definition good :: "source \<Rightarrow> nat \<Rightarrow> grammar \<Rightarrow> bool" where
  "good f k g \<longleftrightarrow>
     safe f anywhere True (expr_ok f) k (g_expression g) \<and> safe f anywhere True (expr_ok f) k (g_ternary g)
     \<and> safe f anywhere True (expr_ok f) k (g_unary g) \<and> safe f anywhere True anything k (g_block g)
     \<and> safe f anywhere True anything k (g_statement g) \<and> safe f anywhere True anything k (g_if g)"

lemma goodD:
  assumes "good f k g"
  shows "safe f anywhere True (expr_ok f) k (g_expression g)" "safe f anywhere True (expr_ok f) k (g_ternary g)"
    "safe f anywhere True (expr_ok f) k (g_unary g)" "safe f anywhere True anything k (g_block g)"
    "safe f anywhere True anything k (g_statement g)" "safe f anywhere True anything k (g_if g)"
  using assms by (simp_all add: good_def)

text \<open>A parser of expressions that others call behind a token they have consumed.\<close>

locale subparser =
  fixes f :: source and k :: nat and p :: "expression parser"
  assumes sub: "safe f anywhere True (expr_ok f) k p"

context subparser
begin

lemmas do_sub = safe_do [OF sub]
lemmas run_sub = safe_run [OF sub]

lemma safe_expression_list:
  "n \<le> j \<Longrightarrow> n \<le> k \<Longrightarrow> list_all (expr_ok f) es \<Longrightarrow> safe f P d (list_all (expr_ok f)) n (expression_list j p es)"
proof (induction j arbitrary: n es P d)
  case (Suc j)
  then show ?case
    unfolding expression_list.simps by (intro safe_intro do_sub) auto
qed (simp add: safe_zero)

lemma safe_comma_list:
  assumes "n \<le> k" "close \<noteq> T_GREATER" "close \<noteq> T_END_OF_FILE"
  shows "safe f P False (list_all (expr_ok f)) n (comma_list p close)"
  unfolding comma_list_def
  by (intro safe_intro safe_rounds safe_expression_list) (use assms in auto)

lemma no_interpolation: "list_all (expr_ok f) es \<Longrightarrow> expand_interpolation_args p es = ret es"
  by (auto simp: expand_interpolation_args_def expr_ok_def split: list.split expression.split)

lemma safe_brace_element:
  "n \<le> k \<Longrightarrow> safe f P d anything n (brace_element p)"
  unfolding brace_element_def
  by (intro safe_intro do_sub) auto

lemma safe_brace_elements: "n \<le> j \<Longrightarrow> n \<le> k \<Longrightarrow> safe f P d anything n (brace_elements j p es)"
proof (induction j arbitrary: n es P d)
  case (Suc j)
  then show ?case
    unfolding brace_elements.simps
    by (intro safe_eat [OF safe_brace_element] safe_intro) auto
qed (simp add: safe_zero)

lemma safe_brace_initializer:
  "n \<le> Suc k \<Longrightarrow> safe f P d (expr_ok f) n (parse_brace_initializer p w)"
  unfolding parse_brace_initializer_def
  by (intro safe_intro safe_brace_elements) auto

lemma safe_array_literal:
  "n \<le> Suc k \<Longrightarrow> safe f P d (expr_ok f) n (parse_array_literal p)"
  unfolding parse_array_literal_def
  by (intro safe_intro safe_pass [OF safe_comma_list]) auto

lemma safe_variable_definition [safe_intro]:
  "n \<le> Suc k \<Longrightarrow> \<not> d \<Longrightarrow> safe f P d (expr_ok f) n (variable_definition p t i mu)"
  unfolding variable_definition_def
  by (intro safe_intro do_sub) auto

lemma safe_pointer_declaration:
  "n \<le> Suc k \<Longrightarrow> safe f P True (expr_ok f) n (pointer_declaration p mu)"
  unfolding pointer_declaration_def
  by (intro safe_intro do_sub) auto

lemma safe_bracket_suffix:
  "n \<le> k \<Longrightarrow> nameable f (nc_token c)
     \<Longrightarrow> safe f P False (\<lambda>r. \<forall>e. r = Inl e \<longrightarrow> expr_ok f e) n (bracket_suffix p c)"
  unfolding bracket_suffix_def
  by (intro safe_p_if safe_intro do_sub safe_pass [OF safe_rounds [OF safe_expression_list]])
    auto

lemma safe_variable_declaration:
  "n \<le> k \<Longrightarrow> nameable f (nc_token c) \<Longrightarrow> safe f (\<lambda>st. \<not> i \<longrightarrow> next_in [T_IDENTIFIER] st) False (expr_ok f) n
     (variable_declaration p c i mu args depth arr nl)"
  unfolding variable_declaration_def
  by (intro safe_pass [OF safe_declared_name] safe_intro) auto

lemma safe_call_arguments:
  "n \<le> k \<Longrightarrow> safe f P False (list_all (expr_ok f)) n (call_arguments p)"
  unfolding call_arguments_def
  by (intro safe_pass [OF safe_comma_list] safe_intro) auto

lemma safe_forwarding_arguments [safe_intro]:
  "n \<le> k \<Longrightarrow> (\<And>x. safe f anywhere d S n (q x)) \<Longrightarrow> safe f P d S n (pbind (forwarding_arguments p) q)"
proof (rule safe_pass [where R = anything])
  assume "n \<le> k"
  then show "safe f P False anything n (forwarding_arguments p)"
    unfolding forwarding_arguments_def
    by (intro safe_pass [OF safe_call_arguments]) (auto simp: no_interpolation list_all_iff intro!: safe_intro)
qed

lemma safe_function_call:
  "n \<le> k \<Longrightarrow> ident_ok f i \<Longrightarrow> safe f P False (expr_ok f) n (function_call p i args)"
  unfolding function_call_def
  apply (rule safe_pass [where R = "\<lambda>m. m = None"])
   apply (auto simp: safe_def wp_def lands_def p_find_macro_def source_ok_def reaches_def) []
  by (simp, intro safe_intro) auto

lemma safe_named_expression:
  "n \<le> k \<Longrightarrow> nameable f (nc_token c) \<Longrightarrow> safe f P False (expr_ok f) n (named_expression p c args)"
  unfolding named_expression_def
  by (intro safe_do_parts do_sub safe_function_call safe_brace_initializer safe_intro)
    (auto simp: compound_assignment_def)

lemma safe_declaration_or_name:
  "n \<le> k \<Longrightarrow> nameable f (nc_token c) \<Longrightarrow> safe f (\<lambda>st. e \<longrightarrow> next_in [T_IDENTIFIER] st) False (expr_ok f) n
     (if i \<or> e then variable_declaration p c i mu args depth arr nl else named_expression p c args)"
  by (cases i; cases e) (auto intro: safe_given [OF safe_variable_declaration] safe_named_expression)

lemma safe_declared_or_used:
  assumes "n \<le> k" "nameable f t"
  shows "safe f P False (expr_ok f) n (pbind (classify_name a t) (\<lambda>c.
     pbind (generic_arguments c) (\<lambda>args.
     pbind (if names_type c then with_rounds (\<lambda>k. count_stars k 0) else ret 0) (\<lambda>depth.
     pbind (question_suffix False (names_type c)) (\<lambda>nl.
     pbind (bracket_suffix p c) (\<lambda>b.
     case b of
       Inl e \<Rightarrow> ret e
     | Inr isArray \<Rightarrow>
         pbind (match_mut mu) (\<lambda>mu.
         pbind (question_suffix nl (names_type c \<and> (0 < depth \<or> isArray))) (\<lambda>nl.
         pbind (is_inference c) (\<lambda>inference.
         pbind (is_explicit c) (\<lambda>explicit.
         if inference \<or> explicit then variable_declaration p c inference mu args depth isArray nl
         else named_expression p c args))))))))))"
  apply (rule safe_pass [OF safe_classify_name [OF assms(2)]])
  apply (rule safe_pass [OF safe_generic_arguments])
  apply (intro safe_intro safe_count_stars safe_pass [OF safe_bracket_suffix] assms(1), simp_all)
  apply (simp split: sum.split, intro conjI allI impI)
  apply (simp add: safe_ret)
  apply (intro safe_declaration_or_name safe_do_inference safe_do_explicit safe_intro, simp_all add: assms(1))
  done

lemma safe_name_or_declaration:
  assumes "n \<le> Suc k"
  shows "safe f (next_in [T_VOID, T_IDENTIFIER]) True (expr_ok f) n (name_or_declaration p a mu)"
    "n \<le> k \<Longrightarrow> safe f after_modifier False (expr_ok f) n (name_or_declaration p a mu)"
proof -
  show "safe f (next_in [T_VOID, T_IDENTIFIER]) True (expr_ok f) n (name_or_declaration p a mu)"
    unfolding name_or_declaration_def
    by (intro safe_intro safe_declared_or_used) (use assms in \<open>auto intro: nameable_token\<close>)
  show "safe f after_modifier False (expr_ok f) n (name_or_declaration p a mu)" if "n \<le> k"
    unfolding name_or_declaration_def
    by (rule safe_pass [OF safe_advance_modified safe_declared_or_used [OF that]])
qed

lemma safe_parse_named:
  assumes "n \<le> Suc k"
  shows "safe f (next_in name_start) True (expr_ok f) n (parse_named p)"
proof -
  let ?X = "\<lambda>a mu. p_if (starts_pointer_declaration a) (pointer_declaration p mu) (name_or_declaration p a mu)"
  have modified: "safe f after_modifier False (expr_ok f) m (?X a mu)" if "m \<le> k" for m a mu
    by (rule safe_reading [OF reads_pointer safe_relax [OF safe_pointer_declaration] safe_name_or_declaration(2)])
      (use that in simp_all)
  have plain: "safe f (next_in [T_VOID, T_IDENTIFIER]) True (expr_ok f) n (?X a mu)" for a mu
    by (rule safe_reading [OF reads_pointer safe_pointer_declaration safe_name_or_declaration(1)])
      (use assms in simp_all)
  have again: "safe f after_modifier False (expr_ok f) (n - 1) (pbind (p_match T_MUT) (?X True))"
    by (rule safe_match_modifier [OF modified]) (use assms in \<open>auto intro: safe_given [OF modified]\<close>)
  show ?thesis
    unfolding parse_named_def
    by (intro safe_match_modifier again)
      (use assms in \<open>auto intro: modified safe_given [OF plain] simp: next_in_def name_start_def\<close>)
qed

lemma safe_constant_declaration:
  "n \<le> Suc k \<Longrightarrow> safe f (next_in [T_CONST_EXPR, T_CONST_EVAL]) True (expr_ok f) n (constant_declaration p)"
  unfolding constant_declaration_def
  by (intro safe_intro do_sub) auto

end

text \<open>A grammar whose parsers are safe for \<open>k\<close> tokens; the next one is safe for one more.\<close>

locale good_grammar =
  fixes f :: source and k :: nat and g :: grammar
  assumes good: "good f k g"

sublocale good_grammar \<subseteq> expr: subparser f k "g_expression g"
  by unfold_locales (rule goodD(1) [OF good])

sublocale good_grammar \<subseteq> tern: subparser f k "g_ternary g"
  by unfold_locales (rule goodD(2) [OF good])

sublocale good_grammar \<subseteq> un: subparser f k "g_unary g"
  by unfold_locales (rule goodD(3) [OF good])

context good_grammar
begin

lemmas do_block = safe_do [OF goodD(4) [OF good]]
lemmas do_statement = safe_do [OF goodD(5) [OF good]]
lemmas do_if = safe_do [OF goodD(6) [OF good]]

lemma safe_switch_arm: "n \<le> k \<Longrightarrow> safe f P True anything n (switch_arm_of g)"
  unfolding switch_arm_of_def
  by (intro safe_intro do_block expr.do_sub) auto

lemma safe_switch_arms: "n \<le> j \<Longrightarrow> n \<le> k \<Longrightarrow> safe f P False anything n (switch_arms j g as)"
proof (induction j arbitrary: n as P)
  case (Suc j)
  then show ?case
    unfolding switch_arms.simps by (intro safe_p_if safe_at_close safe_eat [OF safe_switch_arm] safe_intro) auto
qed (simp add: safe_zero)

lemma safe_switch_expression: "n \<le> Suc k \<Longrightarrow> safe f P True (expr_ok f) n (parse_switch_expression g)"
  unfolding parse_switch_expression_def
  by (intro safe_intro expr.do_sub safe_switch_arms) auto

lemma expr_ok_if: "expr_ok f a \<Longrightarrow> expr_ok f b \<Longrightarrow> expr_ok f (if c then a else b)"
  by simp

lemma integer_literal_ok: "loc_ok f l \<Longrightarrow> expr_ok f (integer_literal v l)"
  unfolding integer_literal_def Let_def by (intro expr_ok_if expr_okI) simp_all

lemma expr_ok_string:
  "token_ok f t \<Longrightarrow> t_type t = T_STRING_LITERAL \<Longrightarrow> loc_ok f l \<Longrightarrow> expr_ok f (E_StringLiteral (t_value t) l)"
  by (simp add: expr_ok_def token_ok_def)

lemma literal_node_some:
  "t_type t \<in> set literal_start \<Longrightarrow> token_ok f t \<Longrightarrow> loc_ok f l \<Longrightarrow> \<exists>e. literal_node t l = Some e \<and> expr_ok f e"
  unfolding literal_start_def literal_node_def Let_def
  by (auto simp: integer_literal_ok expr_ok_string expr_okI)

lemma safe_literal:
  "t_type t \<in> set literal_start \<Longrightarrow> token_ok f t \<Longrightarrow> loc_ok f l
     \<Longrightarrow> safe f P False (expr_ok f) n (case literal_node t l of Some e \<Rightarrow> ret e | None \<Rightarrow> unexpected_expression)"
  using literal_node_some [of t l] by (auto intro: safe_ret)

lemma safe_parenthesized: "n \<le> k \<Longrightarrow> safe f P d (expr_ok f) n (parenthesized (g_expression g))"
  unfolding parenthesized_def by (intro expr.do_sub safe_intro) auto

lemma safe_unexpected [safe_intro]: "safe f P d R n unexpected_expression"
  unfolding unexpected_expression_def by (intro safe_intro)

lemma safe_named_word:
  "t_type t \<in> set [T_THIS, T_RETURN] \<Longrightarrow> token_ok f t
     \<Longrightarrow> safe f P False (expr_ok f) n (pbind (makeSourceIdentifier t) (\<lambda>i. ret (E_Identifier i)))"
  by (intro safe_intro) (auto intro: nameable_token)

lemma safe_primary: "n \<le> Suc k \<Longrightarrow> safe f P True (expr_ok f) n (parse_primary g)"
  unfolding parse_primary_def
  apply (intro safe_switch_expression safe_literal safe_named_word safe_parenthesized expr.safe_array_literal
      expr.safe_brace_initializer expr.safe_constant_declaration expr.safe_parse_named safe_intro)
  apply (assumption | simp add: literal_start_def name_start_def )+
  done

lemma safe_nullable_member:
  "n \<le> Suc k \<Longrightarrow> expr_ok f e
     \<Longrightarrow> safe f (next_in [T_QUESTION_DOT, T_BANG_DOT]) True (expr_ok f) n (nullable_member (g_expression g) e)"
  unfolding nullable_member_def
  by (intro safe_pass [OF expr.safe_call_arguments] safe_intro) (auto intro!: safe_retI simp: expr.no_interpolation)

lemma safe_dot_name:
  "safe f P True (ident_ok f) n (p_if (p_check_any (T_IDENTIFIER # member_keywords)) (pbind p_advance makeSourceIdentifier)
     (runtime_error m))"
  by (intro safe_eat [OF safe_advance] safe_makeSourceIdentifier safe_intro)
    (auto simp: member_keywords_def intro!: nameable_token)

lemma safe_dot_member:
  "n \<le> k \<Longrightarrow> expr_ok f e \<Longrightarrow> safe f P d (\<lambda>(e, b). expr_ok f e) n (dot_member (g_expression g) e)"
  unfolding dot_member_def
  by (intro safe_eat [OF safe_dot_name] expr.do_sub safe_intro) auto

lemma safe_index_member:
  "n \<le> k \<Longrightarrow> expr_ok f e \<Longrightarrow> safe f P d (expr_ok f) n (index_member (g_expression g) e)"
  unfolding index_member_def
  by (intro expr.do_sub safe_intro) auto

lemma safe_postfix_rounds:
  "n \<le> j \<Longrightarrow> n \<le> Suc k \<Longrightarrow> expr_ok f e \<Longrightarrow> safe f P False (expr_ok f) n (postfix_rounds j (g_expression g) e)"
proof (induction j arbitrary: n e P)
  case (Suc j)
  have more: "safe f anywhere False (expr_ok f) m (if b then postfix_rounds j (g_expression g) e' else ret e')"
    if "m \<le> n - 1" "expr_ok f e'" for m e' b
    using Suc that by (auto intro: safe_ret)
  show ?case
    unfolding postfix_rounds.simps
    by (intro safe_eat [OF safe_nullable_member] safe_pass [OF safe_dot_member] safe_pass [OF safe_index_member] safe_intro)
      (use Suc in \<open>auto intro: more expr_okI\<close>)
qed (simp add: safe_zero)

lemma safe_postfix: "n \<le> Suc k \<Longrightarrow> safe f P True (expr_ok f) n (parse_postfix g)"
  unfolding parse_postfix_def
  by (rule safe_bind [OF safe_primary safe_rounds [OF safe_postfix_rounds]]) auto

lemma cast_prefix_marked:
  "cast_prefix = p_if (p_check T_LPAREN)
     (pbind p_mark (\<lambda>saved.
      pbind (pbind p_advance (\<lambda>_. pbind behind (\<lambda>openParen.
        p_if isType (pbind parse_type (\<lambda>t. p_if (p_match T_RPAREN) (ret (Some (t, openParen))) (ret None))) (ret None))))
        (\<lambda>c. case c of Some x \<Rightarrow> ret c | None \<Rightarrow> pbind (p_reset saved) (\<lambda>_. ret None))))
     (ret None)"
  unfolding cast_prefix_def by (simp add: pbind_assoc)

text \<open>A marked parser that keeps its progress only with a result.\<close>

lemma safe_do_marked:
  assumes "safe f P True (\<lambda>c. \<forall>x. c = Some x \<longrightarrow> R x) n p"
    "\<And>x. R x \<Longrightarrow> safe f anywhere False S (n - 1) (q (Some x))" "safe f anywhere d S n (q None)"
  shows "safe f P d S n (pbind (pbind p_mark (\<lambda>s. pbind p (\<lambda>c.
     case c of Some x \<Rightarrow> ret c | None \<Rightarrow> pbind (p_reset s) (\<lambda>_. ret None)))) q)"
proof (rule safeI)
  fix st assume st: "source_ok f st" "P st" "remaining st \<le> n"
  let ?h = "\<lambda>c. case c of Some x \<Rightarrow> ret c | None \<Rightarrow> pbind (p_reset (ps_current st)) (\<lambda>_. ret None)"
  have "wp (pbind (?h c) q) (lands d S st) (\<lambda>e. fails_at st) st'"
    if l: "lands True (\<lambda>c. \<forall>x. c = Some x \<longrightarrow> R x) st c st'" for c st'
  proof (cases c)
    case (Some x)
    have r: "reaches st st'" "ps_current st < ps_current st'" "R x" using l Some by (auto simp: lands_def)
    have "wp (q (Some x)) (lands d S st) (\<lambda>e. fails_at st) st'"
    proof (rule wp_lands [OF safeD [OF assms(2)] r(1)])
      show "remaining st' \<le> n - 1" using reaches_less [OF r(1,2)] st(3) by simp
    qed (use r reaches_ok st(1) in auto)
    then show ?thesis using Some by simp
  next
    case None
    let ?st = "st'\<lparr>ps_current := ps_current st\<rparr>"
    have r: "reaches st ?st" using l st(1) by (auto simp: lands_def reaches_def source_ok_def parser_ok_def)
    have "wp (q None) (lands d S st) (\<lambda>e. fails_at st) ?st"
    proof (rule wp_lands [OF safeD [OF assms(3)] r])
      show "remaining ?st \<le> n" using reaches_remaining [OF r] st(3) by simp
    qed (use r reaches_ok st(1) in auto)
    then show ?thesis using None by (simp add: wp_def pbind_def p_reset_def ret_def)
  qed
  then have "wp p (\<lambda>c. wp (pbind (?h c) q) (lands d S st) (\<lambda>e. fails_at st)) (\<lambda>e. fails_at st) st"
    by (rule wp_conseq [OF safeD [OF assms(1) st]])
  then have "wp (pbind p (\<lambda>c. pbind (?h c) q)) (lands d S st) (\<lambda>e. fails_at st) st"
    by (simp only: wp_bind)
  moreover have "pbind (pbind p_mark (\<lambda>s. pbind p (\<lambda>c.
      case c of Some x \<Rightarrow> ret c | None \<Rightarrow> pbind (p_reset s) (\<lambda>_. ret None)))) q st = pbind p (\<lambda>c. pbind (?h c) q) st"
    by (simp add: pbind_assoc) (simp add: pbind_def p_mark_def)
  ultimately show "wp (pbind (pbind p_mark (\<lambda>s. pbind p (\<lambda>c.
      case c of Some x \<Rightarrow> ret c | None \<Rightarrow> pbind (p_reset s) (\<lambda>_. ret None)))) q) (lands d S st) (\<lambda>e. fails_at st) st"
    by (simp only: wp_def)
qed

lemma pbind_p_if: "pbind (p_if c a b) q = p_if c (pbind a q) (pbind b q)"
  by (auto simp: p_if_def pbind_assoc fun_eq_iff pbind_def split: outcome.split)

lemma safe_do_cast:
  assumes "\<And>t l. loc_ok f l \<Longrightarrow> safe f anywhere False S (n - 1) (q (Some (t, l)))" "\<And>P. safe f P d S n (q None)"
  shows "safe f P d S n (pbind cast_prefix q)"
  unfolding cast_prefix_marked pbind_p_if
proof (rule safe_if_check)
  show "safe f P d S n (pbind (ret None) q)" using assms(2) by simp
  show "safe f (next_in [T_LPAREN]) d S n (pbind (pbind p_mark (\<lambda>saved.
      pbind (pbind p_advance (\<lambda>_. pbind behind (\<lambda>openParen.
        p_if isType (pbind parse_type (\<lambda>t. p_if (p_match T_RPAREN) (ret (Some (t, openParen))) (ret None))) (ret None))))
        (\<lambda>c. case c of Some x \<Rightarrow> ret c | None \<Rightarrow> pbind (p_reset saved) (\<lambda>_. ret None)))) q)"
    by (rule safe_do_marked [where R = "\<lambda>(t, l). loc_ok f l"])
      (use assms in \<open>auto intro!: safe_intro safe_p_if safe_isType\<close>)
qed simp_all

text \<open>What follows \<^verbatim>\<open>await\<close>, \<^verbatim>\<open>try\<close>, \<^verbatim>\<open>new\<close> and the operators of one operand.\<close>

lemma safe_await: "n \<le> k \<Longrightarrow> safe f P d (expr_ok f) n (await_expression g)"
  unfolding await_expression_def by (intro un.do_sub safe_intro) auto

lemma safe_try: "n \<le> k \<Longrightarrow> safe f P d (expr_ok f) n (try_expression g)"
  unfolding try_expression_def
proof (intro safe_do_behind un.do_sub)
  fix l e assume n: "n \<le> k" "loc_ok f l" "expr_ok f e"
  let ?R = "\<lambda>b. \<forall>x. b = Some x \<longrightarrow> expr_ok f x"
  have "safe f anywhere False ?R (n - 1) (p_if (p_if (p_check T_QUESTION) (p_next_is [T_COLON]) (ret False))
      (pbind p_advance (\<lambda>_. pbind p_advance (\<lambda>_. pbind (g_ternary g) (\<lambda>x. ret (Some x))))) (ret None))"
    by (intro safe_p_if safe_do_advance_any tern.do_sub safe_intro) (use n in auto)
  then show "safe f anywhere False (expr_ok f) (n - 1) (pbind (p_if (p_if (p_check T_QUESTION) (p_next_is [T_COLON]) (ret False))
      (pbind p_advance (\<lambda>_. pbind p_advance (\<lambda>_. pbind (g_ternary g) (\<lambda>x. ret (Some x))))) (ret None))
      (\<lambda>fb. pbind (spanned (location_of (case fb of Some x \<Rightarrow> x | None \<Rightarrow> e)) l) (\<lambda>loc. ret (E_Try e fb loc))))"
    by (rule safe_pass, intro safe_intro) (use n in \<open>auto split: option.split\<close>)
qed

lemma safe_new: "n \<le> Suc k \<Longrightarrow> safe f P d (expr_ok f) n (new_expression g)"
  unfolding new_expression_def
  by (intro safe_eat [OF safe_postfix]) (auto split: expression.split intro!: safe_intro)

lemma safe_prefix:
  "n \<le> k \<Longrightarrow> token_ok f t \<Longrightarrow> safe f P d (expr_ok f) n (pbind (g_unary g) (\<lambda>e.
     pbind (spanned (location_of e) (token_location t)) (\<lambda>loc. ret (E_Unary (t_type t) e loc))))"
  by (intro un.do_sub safe_intro) auto

lemma safe_unary: "n \<le> Suc k \<Longrightarrow> safe f P True (expr_ok f) n (parse_unary g)"
  unfolding parse_unary_def prefix_expression_def
  apply (rule safe_do_cast, simp_all only: option.case prod.case)
   apply (intro un.do_sub safe_intro, simp_all)
  apply (intro safe_await safe_try safe_new safe_prefix safe_postfix safe_intro)
         apply (auto simp: prefix_operators_def)
  done

text \<open>Binary operators: the rules do not look at the operators.\<close>

lemma safe_binary_rounds:
  assumes "safe f anywhere True (expr_ok f) n p"
  shows "m \<le> j \<Longrightarrow> m \<le> n \<Longrightarrow> expr_ok f l \<Longrightarrow> safe f P False (expr_ok f) m (binary_rounds j ops p l)"
proof (induction j arbitrary: m l P)
  case (Suc j)
  have more: "safe f anywhere False (expr_ok f) m
      (pbind p_previous (\<lambda>t. pbind p (\<lambda>r. pbind (binary_node l (t_type t) r) (binary_rounds j ops p))))"
    unfolding binary_node_def pbind_assoc
    by (intro safe_do [OF assms] safe_intro) (use Suc assms in auto)
  show ?case
    unfolding binary_rounds.simps by (intro safe_p_if more safe_match_any safe_retI) (use Suc in auto)
qed (simp add: safe_zero)

lemma safe_binary_level:
  assumes "safe f anywhere True (expr_ok f) n p"
  shows "safe f anywhere True (expr_ok f) n (binary_level ops p)"
  unfolding binary_level_def
  by (rule safe_bind [OF assms safe_rounds [OF safe_binary_rounds [OF assms]]]) auto

lemma safe_type_test: "expr_ok f e \<Longrightarrow> safe f P False (expr_ok f) n (type_test e)"
  unfolding type_test_def by (intro safe_intro) auto

lemma safe_comparison: "safe f anywhere True (expr_ok f) (Suc k) (parse_comparison g)"
  unfolding parse_comparison_def parse_shift_def parse_term_def parse_factor_def
  by (intro safe_binary_level safe_unary) simp

lemma safe_equality: "safe f anywhere True (expr_ok f) (Suc k) (parse_equality g)"
  unfolding parse_equality_def
  by (rule safe_bind [OF safe_binary_level [OF safe_comparison] safe_type_test]) simp_all

lemma safe_or: "safe f anywhere True (expr_ok f) (Suc k) (parse_or g)"
  unfolding parse_or_def parse_and_def parse_bitor_def parse_bitxor_def parse_bitand_def
  by (intro safe_binary_level safe_equality)

lemma safe_ternary: "safe f anywhere True (expr_ok f) (Suc k) (parse_ternary g)"
  unfolding parse_ternary_def
  by (intro safe_eat [OF safe_or, THEN safe_relax] safe_eat [OF safe_or] tern.do_sub safe_intro) auto

lemma safe_expression: "safe f anywhere True (expr_ok f) (Suc k) (parse_expression g)"
  unfolding parse_expression_def by (rule safe_binary_level [OF safe_ternary])

lemmas do_expression = safe_do [OF safe_expression]

section \<open>Statements\<close>

lemma safe_statement_rounds:
  "n \<le> j \<Longrightarrow> n \<le> k \<Longrightarrow> safe f P False anything n (statement_rounds j stops (g_statement g) ss)"
proof (induction j arbitrary: n ss P)
  case (Suc j)
  then show ?case
    unfolding statement_rounds.simps
    by (intro safe_p_if safe_check_any do_statement safe_intro) auto
qed (simp add: safe_zero)

lemma safe_block: "n \<le> Suc k \<Longrightarrow> safe f P True anything n (parse_block g)"
  unfolding parse_block_def
  by (intro safe_eat [OF safe_expect, THEN safe_relax] safe_eat [OF safe_expect]
      safe_scoped [OF safe_rounds [OF safe_statement_rounds]] safe_intro) auto

lemma safe_branch: "n \<le> k \<Longrightarrow> safe f P d anything n (parse_branch g)"
  unfolding parse_branch_def
  by (intro safe_relax [OF safe_block] do_statement safe_intro) auto

lemma safe_until [safe_intro]:
  "n \<le> Suc k \<Longrightarrow> ty \<noteq> T_GREATER \<Longrightarrow> ty \<noteq> T_END_OF_FILE \<Longrightarrow> safe f P False anything n (expression_until g ty)"
  unfolding expression_until_def by (intro do_expression safe_intro) auto

lemma safe_do_until [safe_intro]:
  "n \<le> Suc k \<Longrightarrow> ty \<noteq> T_GREATER \<Longrightarrow> ty \<noteq> T_END_OF_FILE \<Longrightarrow> (\<And>x. safe f anywhere d S n (q x))
     \<Longrightarrow> safe f P d S n (pbind (expression_until g ty) q)"
  by (rule safe_pass [OF safe_until])

lemma safe_marker: "(\<And>c. safe f anywhere d S n (q c)) \<Longrightarrow> safe f P d S n (pbind compile_time_marker q)"
  by (rule safe_pass [where R = anything]) (unfold compile_time_marker_def, intro safe_intro, auto)

lemma safe_if_statement: "n \<le> Suc k \<Longrightarrow> safe f P True anything n (parse_if_statement g)"
  unfolding parse_if_statement_def
  by (intro safe_marker do_expression safe_pass [OF safe_branch] do_if safe_do_advance_any safe_intro) auto

lemma safe_anonymous_range: "n \<le> Suc k \<Longrightarrow> safe f P False anything n (detect_anonymous_range g)"
proof -
  assume n: "n \<le> Suc k"
  have eq: "detect_anonymous_range g = pbind p_mark (\<lambda>saved.
      pbind (pbind (p_if (p_check T_LBRACKET) (pbind p_advance (\<lambda>_. ret ())) (ret ())) (\<lambda>_.
             pbind (parse_expression g) (\<lambda>_. p_check_any range_operators)))
        (\<lambda>b. pbind (p_reset saved) (\<lambda>_. ret b)))"
    unfolding detect_anonymous_range_def by (simp add: pbind_assoc)
  show ?thesis
    unfolding eq
    by (rule safe_tried [where R = anything])
      (use n in \<open>auto intro!: do_expression safe_check_any safe_intro\<close>)
qed

lemma safe_do_anonymous: "(\<And>x. safe f anywhere d S n (q x)) \<Longrightarrow> safe f P d S n (pbind next_anonymous q)"
  by (rule safe_pass [where R = anything])
    (auto simp: safe_def wp_def lands_def next_anonymous_def reaches_def source_ok_def parser_ok_def)

lemma safe_range_variable: "(b \<longrightarrow> has_range f) \<Longrightarrow> safe f P False anything n (range_variable b)"
  unfolding range_variable_def
  by (cases b) (auto intro!: safe_pass [OF safe_advance_named] safe_do_anonymous safe_intro)

lemma safe_range_close: "safe f P False anything n (range_close a b)"
  unfolding range_close_def by (intro safe_intro) auto

lemmas do_block_now = safe_eat [OF safe_block]

lemma safe_range_for:
  assumes "n \<le> k" "b \<longrightarrow> has_range f"
  shows "safe f P False anything n (range_for_statement g b)"
proof -
  have eq: "range_for_statement g b = pbind p_pushScope (\<lambda>_.
     pbind (pbind (range_variable b) (\<lambda>(t, n).
     pbind (p_match T_LBRACKET) (\<lambda>hasBracket.
     pbind (parse_expression g) (\<lambda>start.
     pbind (p_if (p_match T_DOT_DOT_EQUAL) (ret True)
              (pbind (p_expect (''Esperado '' @ quoted ''..'' @ '' ou '' @ quoted ''..='' @ '' no range'') T_DOT_DOT)
                 (\<lambda>_. ret False))) (\<lambda>inclusive.
     pbind (parse_expression g) (\<lambda>stop.
     pbind (range_close hasBracket inclusive) (\<lambda>endInclusive.
     pbind (p_expect (esperado_apos '')'' ''range'') T_RPAREN) (\<lambda>_.
     pbind (parse_block g) (\<lambda>body. ret (S_RangeFor t n start stop body True endInclusive))))))))))
     (\<lambda>s. pbind p_popScope (\<lambda>_. ret s)))"
    unfolding range_for_statement_def by (simp add: pbind_assoc case_prod_beta')
  show ?thesis
    unfolding eq
    by (rule safe_scoped [where b = False and R = anything and d = False])
      (use assms in \<open>auto intro!: safe_pass [OF safe_range_variable] safe_pass [OF safe_range_close] do_expression do_block_now safe_intro\<close>)
qed

lemma safe_plain_for:
  assumes "n \<le> k"
  shows "safe f P False anything n (plain_for_statement g)"
proof -
  have eq: "plain_for_statement g = pbind p_pushScope (\<lambda>_.
     pbind (pbind (expression_until g T_SEMICOLON) (\<lambda>initializer.
     pbind (p_expect (esperado_apos '';'' ''inicializador'') T_SEMICOLON) (\<lambda>_.
     pbind (expression_until g T_SEMICOLON) (\<lambda>cond.
     pbind (p_expect (esperado_apos '';'' (''condi'' @ c_cedil @ a_tilde @ ''o'')) T_SEMICOLON) (\<lambda>_.
     pbind (expression_until g T_RPAREN) (\<lambda>post.
     pbind (p_expect (esperado_apos '')'' ''incremento'') T_RPAREN) (\<lambda>_.
     pbind (parse_block g) (\<lambda>body. ret (S_For initializer cond post body)))))))))
     (\<lambda>s. pbind p_popScope (\<lambda>_. ret s)))"
    unfolding plain_for_statement_def by (simp add: pbind_assoc)
  show ?thesis
    unfolding eq
    by (rule safe_scoped [where b = False and R = anything and d = False])
      (use assms in \<open>auto intro!: do_block_now safe_intro\<close>)
qed

lemma safe_for_statement: "n \<le> Suc k \<Longrightarrow> safe f P True anything n (parse_for_statement g)"
proof -
  assume n: "n \<le> Suc k"
  let ?rest = "\<lambda>named. pbind (if named then ret False else detect_anonymous_range g) (\<lambda>anonymous.
     if named \<or> anonymous then range_for_statement g named else plain_for_statement g)"
  have "safe f anywhere False anything m (?rest named)" if "m \<le> k" "named \<longrightarrow> has_range f" for m named
    by (rule safe_pass [where R = anything])
      (use that in \<open>auto intro!: safe_anonymous_range safe_range_for safe_plain_for safe_intro\<close>)
  then show ?thesis
    unfolding parse_for_statement_def
    by (intro safe_do_expect safe_pass [OF safe_named_range]) (use n in auto)
qed

lemma safe_condition: "n \<le> k \<Longrightarrow> safe f P True anything n (condition_in_parens g)"
  unfolding condition_in_parens_def by (intro do_expression safe_intro) auto

lemma safe_while: "n \<le> Suc k \<Longrightarrow> safe f P True anything n (parse_while_statement g)"
  unfolding parse_while_statement_def
  by (intro safe_eat [OF safe_condition] do_block_now safe_intro) auto

lemma safe_do_while: "n \<le> Suc k \<Longrightarrow> safe f P True anything n (parse_do_while_statement g)"
  unfolding parse_do_while_statement_def
  by (intro safe_eat [OF safe_condition] do_block_now safe_intro) auto

lemma safe_case_label: "n \<le> k \<Longrightarrow> safe f P True anything n (case_label g)"
  unfolding case_label_def by (intro do_expression safe_intro) auto

lemma safe_switch_cases: "n \<le> j \<Longrightarrow> n \<le> k \<Longrightarrow> safe f P False anything n (switch_cases j g cs)"
proof (induction j arbitrary: n cs P)
  case (Suc j)
  then show ?case
    unfolding switch_cases.simps
    by (intro safe_p_if safe_at_close safe_eat [OF safe_case_label] safe_statement_rounds safe_intro) auto
qed (simp add: safe_zero)

lemma safe_switch_statement: "n \<le> Suc k \<Longrightarrow> safe f P True anything n (parse_switch_statement g)"
  unfolding parse_switch_statement_def
  by (intro do_expression safe_switch_cases safe_intro) auto

lemma safe_starts_switch: "safe f P False anything n starts_switch_statement"
proof -
  have eq: "starts_switch_statement = p_if (p_check T_SWITCH)
      (pbind p_mark (\<lambda>s. pbind (pbind p_advance (\<lambda>_. p_check T_LPAREN)) (\<lambda>b. pbind (p_reset s) (\<lambda>_. ret b))))
      (ret False)"
    unfolding starts_switch_statement_def by (simp add: pbind_assoc)
  show ?thesis
    unfolding eq by (intro safe_if_check safe_tried [where R = anything] safe_do_advance_any safe_intro) auto
qed

lemma safe_destructured: "n \<le> j \<Longrightarrow> safe f P False anything n (destructured_names j ns)"
proof (induction j arbitrary: n ns P)
  case (Suc j)
  then show ?case unfolding destructured_names.simps by (intro safe_intro) auto
qed (simp add: safe_zero)

lemma safe_do_destructure: "(\<And>x. safe f anywhere d S n (q x)) \<Longrightarrow> safe f P d S n (pbind next_destructure q)"
  by (rule safe_pass [where R = anything])
    (auto simp: safe_def wp_def lands_def next_destructure_def reaches_def source_ok_def parser_ok_def)

lemma safe_destructuring: "n \<le> Suc k \<Longrightarrow> safe f P True anything n (parse_destructuring g)"
  unfolding parse_destructuring_def
  by (intro safe_do_advance_any do_expression safe_destructured safe_do_destructure safe_intro) auto

lemma safe_semicolon: "safe f P d anything n (semicolon_after w x)"
  unfolding semicolon_after_def by (intro safe_intro) auto

lemma safe_bare_block: "n \<le> Suc k \<Longrightarrow> safe f P True anything n (bare_block g)"
  unfolding bare_block_def by (intro do_block_now safe_intro) auto

lemma safe_expression_statement: "n \<le> Suc k \<Longrightarrow> safe f P True anything n (expression_statement g)"
  unfolding expression_statement_def by (intro do_expression safe_intro) auto

lemma safe_brace_follows: "safe f P False anything n (brace_follows ty)"
  unfolding brace_follows_def by (intro safe_p_if safe_intro) auto

lemma safe_statement: "n \<le> Suc k \<Longrightarrow> safe f P True anything n (parse_statement g)"
  unfolding parse_statement_def
  by (intro safe_if_statement safe_for_statement safe_while safe_do_while safe_switch_statement safe_bare_block
      safe_destructuring safe_expression_statement safe_semicolon safe_p_if [OF safe_starts_switch]
      safe_p_if [OF safe_brace_follows] safe_do_until do_expression safe_do_advance_any safe_intro) auto

lemma good_step: "good f (Suc k) (grammar_step g)"
  unfolding good_def grammar_step_def grammar.simps
  by (intro conjI safe_expression safe_ternary safe_unary safe_block safe_statement safe_if_statement) simp_all

end

section \<open>Every depth\<close>

lemma good_grammar_at: "good f k (grammar_at k)"
proof (induction k)
  case 0
  show ?case by (simp add: good_def safe_zero)
next
  case (Suc k)
  then show ?case using good_grammar.good_step [OF good_grammar.intro] by simp
qed

interpretation depth: good_grammar f k "grammar_at k" for f k
  by unfold_locales (rule good_grammar_at)

lemmas statement_at_safe = safeD [OF goodD(5) [OF good_grammar_at]]
lemmas expression_at_safe = safeD [OF goodD(1) [OF good_grammar_at]]

text \<open>The outcomes of a parser that stays within its tokens, written out.\<close>

lemma wp_outcomes:
  assumes "wp p Q E st"
  shows "(\<exists>x st'. p st = P_Ok x st' \<and> Q x st') \<or> (\<exists>e st'. p st = P_Error e st' \<and> E e st') \<or> (\<exists>e. p st = P_Raise e)"
  using assms by (auto simp: wp_def split: outcome.splits)

end
