(* ===== verification/Parser_Depth.thy ===== *)
theory Parser_Depth
  imports Parser_Total
begin

text \<open>
  A grammar of more depth gives the same results: \<open>below p q\<close> says that \<open>q\<close> agrees with \<open>p\<close> wherever
  \<open>p\<close> does not run out of depth. Every parse function is monotone in the parsers it calls.
\<close>

definition below :: "'a parser \<Rightarrow> 'a parser \<Rightarrow> bool" where
  "below p q \<longleftrightarrow> (\<forall>st. p st = P_Fuel \<or> q st = p st)"

named_theorems below_intro

lemma below_refl: "below p p"
  by (simp add: below_def)

lemma below_fuel: "below (\<lambda>st. P_Fuel) p"
  by (simp add: below_def)

lemma below_bind [below_intro]:
  assumes "below p p'" "\<And>x. below (q x) (q' x)"
  shows "below (pbind p q) (pbind p' q')"
  unfolding below_def
proof
  fix st
  show "pbind p q st = P_Fuel \<or> pbind p' q' st = pbind p q st"
  proof (cases "p st = P_Fuel")
    case False
    then have "p' st = p st" using assms(1) by (auto simp: below_def)
    then show ?thesis using assms(2) by (auto simp: below_def pbind_def split: outcome.split)
  qed (simp add: pbind_def)
qed

lemma below_p_if [below_intro]:
  "below c c' \<Longrightarrow> below p p' \<Longrightarrow> below q q' \<Longrightarrow> below (p_if c p q) (p_if c' p' q')"
  unfolding p_if_def by (auto intro: below_bind)

lemma below_cond [below_intro]:
  "below p p' \<Longrightarrow> below q q' \<Longrightarrow> below (if c then p else q) (if c then p' else q')"
  by simp

lemma below_option [below_intro]:
  "(\<And>x. below (p x) (p' x)) \<Longrightarrow> below q q'
     \<Longrightarrow> below (case v of None \<Rightarrow> q | Some x \<Rightarrow> p x) (case v of None \<Rightarrow> q' | Some x \<Rightarrow> p' x)"
  by (cases v) auto

lemma below_prod [below_intro]:
  "(\<And>x y. below (p x y) (p' x y)) \<Longrightarrow> below (case v of (x, y) \<Rightarrow> p x y) (case v of (x, y) \<Rightarrow> p' x y)"
  by (cases v) auto

lemma below_sum [below_intro]:
  "(\<And>x. below (p x) (p' x)) \<Longrightarrow> (\<And>x. below (q x) (q' x))
     \<Longrightarrow> below (case v of Inl x \<Rightarrow> p x | Inr x \<Rightarrow> q x) (case v of Inl x \<Rightarrow> p' x | Inr x \<Rightarrow> q' x)"
  by (cases v) auto

lemma below_let [below_intro]: "(\<And>x. below (p x) (p' x)) \<Longrightarrow> below (let x = v in p x) (let x = v in p' x)"
  by simp

lemma below_rounds [below_intro]: "(\<And>j. below (F j) (F' j)) \<Longrightarrow> below (with_rounds F) (with_rounds F')"
  by (auto simp: below_def with_rounds_def)

section \<open>Functions of one parser\<close>

locale deeper =
  fixes p :: "expression parser" and q :: "expression parser"
  assumes le [below_intro]: "below p q"

context deeper
begin

lemma below_expression_list: "below (expression_list j p es) (expression_list j q es)"
  by (induction j arbitrary: es) (auto intro!: below_intro below_refl)

lemma below_comma_list: "below (comma_list p ty) (comma_list q ty)"
  unfolding comma_list_def by (intro below_intro below_expression_list below_refl)

lemma below_sub: "below (p_sub p toks) (p_sub q toks)"
  using le by (auto simp: below_def p_sub_def split: outcome.split dest: spec [of _ "new_parser toks"])

lemma below_placeholder: "below (parse_placeholder p file t) (parse_placeholder q file t)"
  using below_sub by (auto simp: below_def parse_placeholder_def split: sum.split)

lemma below_interpolate: "below (interpolate p file n cs fmt es) (interpolate q file n cs fmt es)"
proof (induction "length cs" arbitrary: cs fmt es rule: less_induct)
  case less
  then show ?case
    by (cases cs) (auto simp: Let_def intro!: below_intro below_placeholder below_refl)
qed

lemma below_expand_args: "below (expand_interpolation_args p es) (expand_interpolation_args q es)"
  unfolding expand_interpolation_args_def
  by (cases es; cases "hd es") (auto intro!: below_intro below_interpolate below_refl)

lemma below_brace_elements: "below (brace_elements j p es) (brace_elements j q es)"
  by (induction j arbitrary: es) (auto simp: brace_element_def intro!: below_intro below_refl)

lemma below_brace_initializer: "below (parse_brace_initializer p w) (parse_brace_initializer q w)"
  unfolding parse_brace_initializer_def by (intro below_intro below_brace_elements below_refl)

lemma below_array_literal: "below (parse_array_literal p) (parse_array_literal q)"
  unfolding parse_array_literal_def by (intro below_comma_list below_intro below_refl)

lemma below_variable_definition: "below (variable_definition p t n mu) (variable_definition q t n mu)"
  unfolding variable_definition_def by (intro below_intro below_refl)

lemma below_pointer_declaration: "below (pointer_declaration p mu) (pointer_declaration q mu)"
  unfolding pointer_declaration_def by (intro below_variable_definition below_intro below_refl)

lemma below_bracket_suffix: "below (bracket_suffix p c) (bracket_suffix q c)"
  unfolding bracket_suffix_def by (intro below_expression_list below_intro below_refl)

lemma below_variable_declaration:
  "below (variable_declaration p c i mu args d arr nl) (variable_declaration q c i mu args d arr nl)"
  unfolding variable_declaration_def by (intro below_variable_definition below_intro below_refl)

lemma below_call_arguments: "below (call_arguments p) (call_arguments q)"
  unfolding call_arguments_def by (intro below_comma_list below_intro below_refl)

lemma below_forwarding: "below (forwarding_arguments p) (forwarding_arguments q)"
  unfolding forwarding_arguments_def by (intro below_call_arguments below_expand_args below_intro below_refl)

lemma below_locals: "below (parse_locals p ls) (parse_locals q ls)"
  by (induction ls) (auto intro!: below_intro below_refl)

lemma below_expand_macro: "below (expand_macro p md) (expand_macro q md)"
  unfolding expand_macro_def expand_rule_def by (intro below_locals below_intro below_refl)

lemma below_function_call: "below (function_call p n args) (function_call q n args)"
  unfolding function_call_def by (intro below_expand_macro below_forwarding below_intro below_refl)

lemma below_named_expression: "below (named_expression p c args) (named_expression q c args)"
  unfolding named_expression_def
  by (intro below_function_call below_brace_initializer below_intro below_refl)

lemma below_name_or_declaration: "below (name_or_declaration p a mu) (name_or_declaration q a mu)"
  unfolding name_or_declaration_def
  by (intro below_bracket_suffix below_variable_declaration below_named_expression below_intro below_refl)

lemma below_named: "below (parse_named p) (parse_named q)"
  unfolding parse_named_def by (intro below_pointer_declaration below_name_or_declaration below_intro below_refl)

lemma below_constant: "below (constant_declaration p) (constant_declaration q)"
  unfolding constant_declaration_def by (intro below_intro below_refl)

lemma below_nullable_member: "below (nullable_member p e) (nullable_member q e)"
  unfolding nullable_member_def by (intro below_call_arguments below_expand_args below_intro below_refl)

lemma below_dot_member: "below (dot_member p e) (dot_member q e)"
  unfolding dot_member_def by (intro below_forwarding below_intro below_refl)

lemma below_index_member: "below (index_member p e) (index_member q e)"
  unfolding index_member_def by (intro below_intro below_refl)

lemma below_postfix_rounds: "below (postfix_rounds j p e) (postfix_rounds j q e)"
  by (induction j arbitrary: e)
    (auto intro!: below_nullable_member below_dot_member below_index_member below_intro below_refl)

lemma below_binary_rounds: "below (binary_rounds j ops p e) (binary_rounds j ops q e)"
  by (induction j arbitrary: e) (auto intro!: below_intro below_refl)

lemma below_binary_level: "below (binary_level ops p) (binary_level ops q)"
  unfolding binary_level_def by (intro below_binary_rounds below_intro)

end

lemmas below_level = deeper.below_binary_level [OF deeper.intro]

section \<open>Functions of the grammar\<close>

definition below_grammar :: "grammar \<Rightarrow> grammar \<Rightarrow> bool" where
  "below_grammar g h \<longleftrightarrow>
     below (g_expression g) (g_expression h) \<and> below (g_ternary g) (g_ternary h) \<and> below (g_unary g) (g_unary h)
     \<and> below (g_block g) (g_block h) \<and> below (g_statement g) (g_statement h) \<and> below (g_if g) (g_if h)"

locale deeper_grammar =
  fixes g :: grammar and h :: grammar
  assumes le: "below_grammar g h"

sublocale deeper_grammar \<subseteq> expr: deeper "g_expression g" "g_expression h"
  by unfold_locales (use le in \<open>simp add: below_grammar_def\<close>)

context deeper_grammar
begin

lemma below_fields [below_intro]:
  "below (g_ternary g) (g_ternary h)" "below (g_unary g) (g_unary h)" "below (g_block g) (g_block h)"
  "below (g_statement g) (g_statement h)" "below (g_if g) (g_if h)"
  using le by (simp_all add: below_grammar_def)

lemma below_switch_arms: "below (switch_arms j g as) (switch_arms j h as)"
  by (induction j arbitrary: as) (auto simp: switch_arm_of_def intro!: below_intro below_refl)

lemma below_switch_expression: "below (parse_switch_expression g) (parse_switch_expression h)"
  unfolding parse_switch_expression_def by (intro below_switch_arms below_intro below_refl)

lemma below_primary: "below (parse_primary g) (parse_primary h)"
  unfolding parse_primary_def parenthesized_def
  by (intro below_switch_expression expr.below_constant expr.below_named expr.below_array_literal
      expr.below_brace_initializer below_intro below_refl)

lemma below_postfix: "below (parse_postfix g) (parse_postfix h)"
  unfolding parse_postfix_def by (intro below_primary expr.below_postfix_rounds below_intro)

lemma below_new: "below (new_expression g) (new_expression h)"
  unfolding new_expression_def by (intro below_postfix below_bind below_refl)

lemma below_unary: "below (parse_unary g) (parse_unary h)"
  unfolding parse_unary_def await_expression_def try_expression_def prefix_expression_def
  by (intro below_new below_postfix below_intro below_refl)

lemma below_comparison: "below (parse_comparison g) (parse_comparison h)"
  unfolding parse_comparison_def parse_shift_def parse_term_def parse_factor_def
  by (intro below_level below_unary)

lemma below_or: "below (parse_or g) (parse_or h)"
  unfolding parse_or_def parse_and_def parse_bitor_def parse_bitxor_def parse_bitand_def parse_equality_def
  by (intro below_level below_bind below_comparison below_refl)

lemma below_ternary: "below (parse_ternary g) (parse_ternary h)"
  unfolding parse_ternary_def by (intro below_or below_intro below_refl)

lemma below_expression: "below (parse_expression g) (parse_expression h)"
  unfolding parse_expression_def by (intro below_level below_ternary)

lemma below_statement_rounds:
  "below (statement_rounds j stops (g_statement g) ss) (statement_rounds j stops (g_statement h) ss)"
  by (induction j arbitrary: ss) (auto intro!: below_intro below_refl)

lemma below_block: "below (parse_block g) (parse_block h)"
  unfolding parse_block_def by (intro below_statement_rounds below_intro below_refl)

lemma below_branch: "below (parse_branch g) (parse_branch h)"
  unfolding parse_branch_def by (intro below_block below_intro below_refl)

lemma below_until: "below (expression_until g ty) (expression_until h ty)"
  unfolding expression_until_def by (intro below_expression below_intro below_refl)

lemma below_if: "below (parse_if_statement g) (parse_if_statement h)"
  unfolding parse_if_statement_def by (intro below_expression below_branch below_intro below_refl)

lemma below_for: "below (parse_for_statement g) (parse_for_statement h)"
  unfolding parse_for_statement_def detect_anonymous_range_def range_for_statement_def plain_for_statement_def
  by (intro below_expression below_until below_block below_intro below_refl)

lemma below_while: "below (parse_while_statement g) (parse_while_statement h)"
  unfolding parse_while_statement_def condition_in_parens_def
  by (intro below_expression below_block below_intro below_refl)

lemma below_do_while: "below (parse_do_while_statement g) (parse_do_while_statement h)"
  unfolding parse_do_while_statement_def condition_in_parens_def
  by (intro below_expression below_block below_intro below_refl)

lemma below_switch_cases: "below (switch_cases j g cs) (switch_cases j h cs)"
  by (induction j arbitrary: cs)
    (auto simp: case_label_def intro!: below_expression below_statement_rounds below_intro below_refl)

lemma below_switch_statement: "below (parse_switch_statement g) (parse_switch_statement h)"
  unfolding parse_switch_statement_def by (intro below_expression below_switch_cases below_intro below_refl)

lemma below_destructuring: "below (parse_destructuring g) (parse_destructuring h)"
  unfolding parse_destructuring_def by (intro below_expression below_intro below_refl)

lemma below_statement: "below (parse_statement g) (parse_statement h)"
  unfolding parse_statement_def bare_block_def expression_statement_def
  by (intro below_expression below_until below_block below_if below_for below_while below_do_while
      below_switch_statement below_destructuring below_intro below_refl)

lemma below_step: "below_grammar (grammar_step g) (grammar_step h)"
  unfolding below_grammar_def grammar_step_def grammar.simps
  by (intro conjI below_expression below_ternary below_unary below_block below_statement below_if)

end

section \<open>The depth does not matter\<close>

lemma below_deeper: "below_grammar (grammar_at k) (grammar_at (Suc k))"
proof (induction k)
  case 0
  show ?case by (simp add: below_grammar_def below_fuel)
next
  case (Suc k)
  then show ?case using deeper_grammar.below_step [OF deeper_grammar.intro] by simp
qed

interpretation deeper_grammar "grammar_at k" "grammar_at (Suc k)" for k
  by unfold_locales (rule below_deeper)

lemma statement_at_deeper:
  assumes "k \<le> j" "statement_at k st \<noteq> P_Fuel"
  shows "statement_at j st = statement_at k st"
  using assms(1)
proof (induction rule: dec_induct)
  case (step n)
  have "statement_at n st \<noteq> P_Fuel" using step assms(2) by simp
  then have "statement_at (Suc n) st = statement_at n st"
    using below_deeper [of n] by (auto simp: below_grammar_def below_def)
  then show ?case using step by simp
qed simp

text \<open>C22: Parsing a statement always comes to an end, and the depth of the model is no limit. Take a token list
  that ends with an end-of-file token, all of one file, in which no string literal has an opening brace in
  it (no interpolation), no string behind auto or mut is empty, no string at all is empty if the word in
  occurs, no shift operator occurs if the word operator does, and only string literals and the end of
  the file have an empty text; and a state behind its first token in which no macro is known, a scope is
  open and no closing bracket is pending unless a shift operator occurs. A depth of the number of
  tokens ahead is enough, and more depth changes nothing. The parser then returns a statement behind at
  least one token with as many scopes as before, or reports an error behind the same tokens with at
  least as many scopes, or throws; it never reads outside the token vector and no assertion fails.\<close>

theorem statement_parser_total:
  assumes "source_ok f st" "remaining st \<le> k"
  shows "statement_at k st = statement_at (remaining st) st \<and>
    ((\<exists>s st'. statement_at k st = P_Ok s st' \<and> parser_ok st' \<and> ps_current st < ps_current st'
            \<and> ps_tokens st' = ps_tokens st \<and> length (ps_scopes st') = length (ps_scopes st))
    \<or> (\<exists>e st'. statement_at k st = P_Error e st' \<and> parser_ok st' \<and> ps_current st \<le> ps_current st'
            \<and> ps_tokens st' = ps_tokens st \<and> length (ps_scopes st) \<le> length (ps_scopes st'))
    \<or> (\<exists>e. statement_at k st = P_Raise e))"
proof
  have "statement_at (remaining st) st \<noteq> P_Fuel"
    using wp_outcomes [OF statement_at_safe [OF assms(1) _ order_refl]] by auto
  then show "statement_at k st = statement_at (remaining st) st" by (rule statement_at_deeper [OF assms(2)])
qed (use wp_outcomes [OF statement_at_safe [OF assms(1) _ assms(2)]]
     in \<open>fastforce simp: lands_def reaches_def fails_at_def\<close>)

definition statement_state :: parser_state where
  "statement_state = (new_parser (spelled [(T_LBRACE, ''{''), (T_RETURN, ''return''), (T_INTEGER_LITERAL, ''1''),
     (T_RBRACE, ''}''), (T_END_OF_FILE, [])]))\<lparr>ps_current := 1\<rparr>"

lemma statement_state_ok: "source_ok (''main'', ps_tokens statement_state) statement_state"
  by (simp add: statement_state_def source_ok_def tokens_ok_def token_ok_def parser_ok_def new_parser_def spelled_def
      splits_def has_operator_def has_range_def)

theorem statement_parser_total_witness:
  "statement_at 9 statement_state = statement_at (remaining statement_state) statement_state"
  using statement_parser_total [OF statement_state_ok, of 9]
  by (simp add: statement_state_def remaining_def new_parser_def spelled_def)

end
