(* ===== verification/Parser_Members.thy ===== *)
theory Parser_Members
  imports Parser_Statements Bytecode
begin

text \<open>
  The declarations of \<^verbatim>\<open>parser/ast/Declaration.h\<close> that hold expressions, and their parse functions:
  attributes, parameters, contracts, methods, operators, properties, structs, interfaces, enums and
  \<^verbatim>\<open>impl\<close> blocks. Each takes the grammar of expressions and blocks as an argument.
\<close>

section \<open>Attributes\<close>

datatype attribute_literal = AL_Int i64 | AL_Double double | AL_String string | AL_Bool bool

record attribute_argument =
  ag_name :: "string option"
  ag_value :: attribute_literal
  ag_location :: source_location

record attribute_usage =
  au_name :: ident
  au_args :: "attribute_argument list"

definition au_hasArgs :: "attribute_usage \<Rightarrow> bool" where
  "au_hasArgs a \<longleftrightarrow> au_args a \<noteq> []"

definition int_of_literal :: "attribute_literal \<Rightarrow> i64 option" where
  "int_of_literal v = (case v of AL_Int i \<Rightarrow> Some i | _ \<Rightarrow> None)"

definition string_of_literal :: "attribute_literal \<Rightarrow> string option" where
  "string_of_literal v = (case v of AL_String s \<Rightarrow> Some s | _ \<Rightarrow> None)"

definition au_getInt :: "nat \<Rightarrow> attribute_usage \<Rightarrow> i64 option" where
  "au_getInt i a = (if length (au_args a) \<le> i then None else int_of_literal (ag_value (au_args a ! i)))"

definition au_getString :: "nat \<Rightarrow> attribute_usage \<Rightarrow> string option" where
  "au_getString i a = (if length (au_args a) \<le> i then None else string_of_literal (ag_value (au_args a ! i)))"

text \<open>The first argument of the name whose value has the type.\<close>

fun named_value :: "(attribute_literal \<Rightarrow> 'a option) \<Rightarrow> string \<Rightarrow> attribute_argument list \<Rightarrow> 'a option" where
  "named_value f n [] = None"
| "named_value f n (a # as) =
     (if ag_name a = Some n then case f (ag_value a) of Some x \<Rightarrow> Some x | None \<Rightarrow> named_value f n as
      else named_value f n as)"

definition au_getNamedInt :: "string \<Rightarrow> attribute_usage \<Rightarrow> i64 option" where
  "au_getNamedInt n a = named_value int_of_literal n (au_args a)"

definition au_getNamedString :: "string \<Rightarrow> attribute_usage \<Rightarrow> string option" where
  "au_getNamedString n a = named_value string_of_literal n (au_args a)"

definition lift_conversion :: "conversion_error + 'a \<Rightarrow> 'a parser" where
  "lift_conversion r st = (case r of Inl e \<Rightarrow> P_Raise (Esc_Conversion e) | Inr x \<Rightarrow> P_Ok x st)"

text \<open>Names joined by dots, and such names joined by bars.\<close>

fun dotted_rounds :: "nat \<Rightarrow> string \<Rightarrow> string parser" where
  "dotted_rounds 0 v = (\<lambda>st. P_Fuel)"
| "dotted_rounds (Suc k) v =
     p_if (p_match T_DOT)
       (pbind (p_expect (''Esperado nome '' @ after_word @ '' '' @ quoted ''.'') T_IDENTIFIER) (\<lambda>t.
        dotted_rounds k (v @ ''.'' @ t_value t)))
       (ret v)"

definition dotted_from :: "string \<Rightarrow> string parser" where
  "dotted_from v = with_rounds (\<lambda>k. dotted_rounds k v)"

fun barred_rounds :: "nat \<Rightarrow> string \<Rightarrow> string parser" where
  "barred_rounds 0 v = (\<lambda>st. P_Fuel)"
| "barred_rounds (Suc k) v =
     p_if (p_match T_PIPE)
       (pbind (p_expect ''Esperado identificador'' T_IDENTIFIER) (\<lambda>t.
        pbind (dotted_from (t_value t)) (\<lambda>n. barred_rounds k (v @ '' | '' @ n))))
       (ret v)"

definition attribute_word :: "string \<Rightarrow> string parser" where
  "attribute_word msg =
     pbind (p_expect msg T_IDENTIFIER) (\<lambda>t.
     pbind (dotted_from (t_value t)) (\<lambda>v. with_rounds (\<lambda>k. barred_rounds k v)))"

definition attribute_literal_of :: "attribute_literal parser" where
  "attribute_literal_of =
     p_if (p_match T_INTEGER_LITERAL)
       (pbind p_previous (\<lambda>t. pbind (lift_conversion (stoll 10 (t_value t))) (\<lambda>i. ret (AL_Int i))))
    (p_if (p_match T_FLOAT_LITERAL)
       (pbind p_previous (\<lambda>t. pbind (lift_conversion (stod (t_value t))) (\<lambda>x. ret (AL_Double x))))
    (p_if (p_match T_STRING_LITERAL) (pbind p_previous (\<lambda>t. ret (AL_String (t_value t))))
    (p_if (p_match T_TRUE) (ret (AL_Bool True))
    (p_if (p_match T_FALSE) (ret (AL_Bool False))
       (pbind (attribute_word ''Esperado valor do argumento do atributo'') (\<lambda>w. ret (AL_String w)))))))"

definition attribute_arg_of :: "attribute_argument parser" where
  "attribute_arg_of =
     pbind here (\<lambda>loc.
     pbind (p_if (p_if (p_check T_IDENTIFIER) (p_next_is [T_EQUAL]) (ret False))
              (pbind p_advance (\<lambda>t. pbind p_advance (\<lambda>_. ret (Some (t_value t)))))
              (ret None)) (\<lambda>n.
     pbind attribute_literal_of (\<lambda>v. ret \<lparr>ag_name = n, ag_value = v, ag_location = loc\<rparr>)))"

fun attribute_args :: "nat \<Rightarrow> attribute_argument list \<Rightarrow> attribute_argument list parser" where
  "attribute_args 0 as = (\<lambda>st. P_Fuel)"
| "attribute_args (Suc k) as =
     pbind attribute_arg_of (\<lambda>a. p_if (p_match T_COMMA) (attribute_args k (as @ [a])) (ret (as @ [a])))"

fun attribute_name_rest :: "nat \<Rightarrow> string \<Rightarrow> string parser" where
  "attribute_name_rest 0 v = (\<lambda>st. P_Fuel)"
| "attribute_name_rest (Suc k) v =
     p_if (p_match T_MINUS)
       (pbind (p_expect (''Esperado continua'' @ c_cedil @ a_tilde @ ''o do nome do atributo'') T_IDENTIFIER) (\<lambda>t.
        attribute_name_rest k (v @ ''-'' @ t_value t)))
       (ret v)"

definition attribute_usage_of :: "attribute_usage parser" where
  "attribute_usage_of =
     pbind (p_expect (esperado ''['' @ '' no uso de Atributos'') T_LBRACKET) (\<lambda>_.
     pbind (p_expect ''Esperado nome do atributo'' T_IDENTIFIER) (\<lambda>t.
     pbind (makeSourceIdentifier t) (\<lambda>i.
     pbind (with_rounds (\<lambda>k. attribute_name_rest k (t_value t))) (\<lambda>n.
     pbind (p_if (p_match T_LPAREN)
              (pbind (p_if (p_check T_RPAREN) (ret []) (with_rounds (\<lambda>k. attribute_args k []))) (\<lambda>as.
               pbind (p_expect (esperado '')'' @ '' nos argumentos do atributo'') T_RPAREN) (\<lambda>_. ret as)))
              (ret [])) (\<lambda>as.
     pbind (p_expect (esperado '']'' @ '' no uso de Atributos'') T_RBRACKET) (\<lambda>_.
     ret \<lparr>au_name = i\<lparr>token_name := n\<rparr>, au_args = as\<rparr>))))))"

fun attribute_rounds :: "nat \<Rightarrow> attribute_usage list \<Rightarrow> attribute_usage list parser" where
  "attribute_rounds 0 as = (\<lambda>st. P_Fuel)"
| "attribute_rounds (Suc k) as =
     p_if (p_check T_LBRACKET) (pbind attribute_usage_of (\<lambda>a. attribute_rounds k (as @ [a]))) (ret as)"

definition parse_attributes :: "attribute_usage list parser" where
  "parse_attributes = with_rounds (\<lambda>k. attribute_rounds k [])"

section \<open>Parameters\<close>

record parameter =
  pa_type :: type_t
  pa_name :: ident
  pa_isMutable :: bool
  pa_attributes :: "attribute_usage list"

definition parameter_of :: "attribute_usage list \<Rightarrow> parameter parser" where
  "parameter_of as =
     pbind parse_type (\<lambda>ty.
     pbind (p_expect nome_parametro T_IDENTIFIER) (\<lambda>t.
     pbind (p_match T_MUT) (\<lambda>mu.
     pbind (makeSourceIdentifier t) (\<lambda>n.
     ret \<lparr>pa_type = ty, pa_name = n, pa_isMutable = mu, pa_attributes = as\<rparr>))))"

definition parse_parameter :: "parameter parser" where
  "parse_parameter = pbind parse_attributes parameter_of"

fun parameter_rounds :: "nat \<Rightarrow> parameter parser \<Rightarrow> parameter list \<Rightarrow> parameter list parser" where
  "parameter_rounds 0 p ps = (\<lambda>st. P_Fuel)"
| "parameter_rounds (Suc k) p ps =
     pbind p (\<lambda>x. p_if (p_match T_COMMA) (parameter_rounds k p (ps @ [x])) (ret (ps @ [x])))"

definition parameter_list :: "parameter parser \<Rightarrow> string \<Rightarrow> parameter list parser" where
  "parameter_list p msg =
     pbind (p_expect msg T_LPAREN) (\<lambda>_.
     pbind (p_if (p_check T_RPAREN) (ret []) (with_rounds (\<lambda>k. parameter_rounds k p []))) (\<lambda>ps.
     pbind (p_expect (esperado '')'') T_RPAREN) (\<lambda>_. ret ps)))"

definition parse_parameters :: "parameter list parser" where
  "parse_parameters = parameter_list parse_parameter (esperado ''('')"

fun define_parameters :: "parameter list \<Rightarrow> unit parser" where
  "define_parameters [] = ret ()"
| "define_parameters (p # ps) =
     pbind (p_define (token_name (pa_name p)) (pa_type p)) (\<lambda>_. define_parameters ps)"

section \<open>Generic parameters\<close>

definition generic_parameter :: "ident \<Rightarrow> generic_param" where
  "generic_parameter i = \<lparr>gp_name = token_name i, gp_constraints = [], gp_default = None\<rparr>"

definition nome_generico :: string where
  "nome_generico = nome_parametro @ '' gen'' @ e_acute @ ''rico''"

fun generic_names :: "nat \<Rightarrow> generic_param list \<Rightarrow> generic_param list parser" where
  "generic_names 0 ps = (\<lambda>st. P_Fuel)"
| "generic_names (Suc k) ps =
     pbind (p_expect nome_generico T_IDENTIFIER) (\<lambda>t.
     pbind (makeSourceIdentifier t) (\<lambda>i.
     p_if (p_match T_COMMA) (generic_names k (ps @ [generic_parameter i])) (ret (ps @ [generic_parameter i]))))"

definition generic_list :: "generic_param list parser" where
  "generic_list =
     p_if (p_match T_LESS)
       (pbind (with_rounds (\<lambda>k. generic_names k [])) (\<lambda>ps.
        pbind (p_expect (esperado_apos ''>'' (''par'' @ a_circ @ ''metros gen'' @ e_acute @ ''ricos'')) T_GREATER) (\<lambda>_.
        ret ps)))
       (ret [])"

fun where_rounds :: "nat \<Rightarrow> generic_param list \<Rightarrow> generic_param list parser" where
  "where_rounds 0 ps = (\<lambda>st. P_Fuel)"
| "where_rounds (Suc k) ps = p_if (p_check T_WHERE) (pbind (parse_where_clause ps) (where_rounds k)) (ret ps)"

definition where_clauses :: "generic_param list \<Rightarrow> generic_param list parser" where
  "where_clauses ps = with_rounds (\<lambda>k. where_rounds k ps)"

text \<open>The names become types of the scope the declaration stands in.\<close>

fun define_generics :: "generic_param list \<Rightarrow> unit parser" where
  "define_generics [] = ret ()"
| "define_generics (p # ps) = pbind (registerKnownType (gp_name p)) (\<lambda>_. define_generics ps)"

section \<open>Contracts\<close>

datatype contract_kind = CK_Require | CK_Ensure

record contract_clause =
  cc_kind :: contract_kind
  cc_condition :: expression
  cc_block :: "statement list option"

text \<open>The first returned value of a block, and the block once it has been moved out.\<close>

fun take_return :: "statement list \<Rightarrow> (expression \<times> statement list) option" where
  "take_return [] = None"
| "take_return (s # ss) =
     (case s of
        S_Return (Some e) \<Rightarrow> Some (e, S_Return None # ss)
      | _ \<Rightarrow> map_option (\<lambda>(e, ts). (e, s # ts)) (take_return ss))"

definition contract_error :: "string \<Rightarrow> token \<Rightarrow> 'a parser" where
  "contract_error msg kw = parser_error UNEXPECTED_TOKEN msg (at_position (t_position kw) 1)"

definition parse_contract_clause :: "grammar \<Rightarrow> contract_clause parser" where
  "parse_contract_clause g =
     pbind p_advance (\<lambda>kw.
     let kind = (if t_type kw = T_REQUIRE then CK_Require else CK_Ensure)
     in p_if (p_match T_LPAREN)
          (pbind (parse_expression g) (\<lambda>e.
           pbind (p_expect (esperado_apos '')'' (''condi'' @ c_cedil @ a_tilde @ ''o do contrato'')) T_RPAREN) (\<lambda>_.
           ret \<lparr>cc_kind = kind, cc_condition = e, cc_block = None\<rparr>)))
       (p_if (p_check T_LBRACE)
          (pbind (parse_block g) (\<lambda>ss.
           case take_return ss of
             Some (e, left) \<Rightarrow> ret \<lparr>cc_kind = kind, cc_condition = e, cc_block = Some left\<rparr>
           | None \<Rightarrow> contract_error (''contract block must contain a '' @ quoted ''return <condition>;'' @ '' statement'') kw))
          (contract_error (''expected '' @ quoted ''('' @ '' or '' @ quoted ''{'' @ '' after '' @ quoted (t_value kw)
             @ '' contract clause'') kw)))"

fun contract_rounds :: "nat \<Rightarrow> grammar \<Rightarrow> contract_clause list \<Rightarrow> contract_clause list parser" where
  "contract_rounds 0 g cs = (\<lambda>st. P_Fuel)"
| "contract_rounds (Suc k) g cs =
     p_if (p_check_any [T_REQUIRE, T_ENSURE])
       (pbind (parse_contract_clause g) (\<lambda>c. contract_rounds k g (cs @ [c]))) (ret cs)"

definition parse_contract_clauses :: "grammar \<Rightarrow> contract_clause list parser" where
  "parse_contract_clauses g = with_rounds (\<lambda>k. contract_rounds k g [])"

section \<open>Methods\<close>

record method_declaration =
  me_returnType :: type_t
  me_name :: ident
  me_parameters :: "parameter list"
  me_generics :: "generic_param list"
  me_modifiers :: "visibility_modifier list"
  me_body :: "statement list option"
  me_expression :: "expression option"
  me_variadic :: "ident option"
  me_isConstructor :: bool
  me_isAsync :: bool
  me_isOperator :: bool
  me_operatorName :: string
  me_attributes :: "attribute_usage list"
  me_throwsAny :: bool
  me_throwsTypes :: "type_t list"
  me_contracts :: "contract_clause list"

definition me_hasAttribute :: "string \<Rightarrow> method_declaration \<Rightarrow> bool" where
  "me_hasAttribute n m \<longleftrightarrow> list_ex (\<lambda>a. token_name (au_name a) = n) (me_attributes m)"

definition me_isAbstract :: "method_declaration \<Rightarrow> bool" where
  "me_isAbstract m \<longleftrightarrow> me_body m = None \<and> me_expression m = None"

definition me_isThrowing :: "method_declaration \<Rightarrow> bool" where
  "me_isThrowing m \<longleftrightarrow> me_throwsAny m \<or> me_throwsTypes m \<noteq> []"

definition me_isStatic :: "method_declaration \<Rightarrow> bool" where
  "me_isStatic m \<longleftrightarrow> VM_STATIC \<in> set (me_modifiers m)"

definition me_isPublic :: "method_declaration \<Rightarrow> bool" where
  "me_isPublic m \<longleftrightarrow> VM_PUBLIC \<in> set (me_modifiers m)"

definition me_isPrivate :: "method_declaration \<Rightarrow> bool" where
  "me_isPrivate m \<longleftrightarrow> VM_PRIVATE \<in> set (me_modifiers m)"

fun method_parameters :: "nat \<Rightarrow> parameter list \<Rightarrow> (parameter list \<times> ident option) parser" where
  "method_parameters 0 ps = (\<lambda>st. P_Fuel)"
| "method_parameters (Suc k) ps =
     p_if (p_match T_DOT_DOT_DOT)
       (pbind (p_expect ''Expected variadic args identifier name'' T_IDENTIFIER) (\<lambda>t.
        pbind (makeSourceIdentifier t) (\<lambda>i. ret (ps, Some i))))
       (pbind parse_parameter (\<lambda>p.
        p_if (p_match T_COMMA) (method_parameters k (ps @ [p])) (ret (ps @ [p], None))))"

text \<open>What may stand for a body: an expression, a block or, where \<open>stop\<close> allows it, nothing.\<close>

definition method_body ::
  "grammar \<Rightarrow> unit parser \<Rightarrow> (statement list option \<times> expression option) parser" where
  "method_body g stop =
     p_if (p_match T_ARROW)
       (pbind (parse_expression g) (\<lambda>e.
        pbind (p_expect (esperado_apos '';'' (''express'' @ a_tilde @ ''o'')) T_SEMICOLON) (\<lambda>_. ret (None, Some e))))
    (p_if (p_check T_LBRACE)
       (pbind (parse_block g) (\<lambda>ss. ret (Some ss, None)))
       (pbind stop (\<lambda>_. ret (None, None))))"

definition scoped_body ::
  "grammar \<Rightarrow> parameter list \<Rightarrow> unit parser \<Rightarrow> (statement list option \<times> expression option) parser" where
  "scoped_body g ps stop =
     pbind p_pushScope (\<lambda>_.
     pbind (define_parameters ps) (\<lambda>_.
     pbind (method_body g stop) (\<lambda>b.
     pbind p_popScope (\<lambda>_. ret b))))"

definition method_head :: "method_declaration parser" where
  "method_head =
     pbind parse_modifiers (\<lambda>ms.
     pbind (p_match T_ASYNC) (\<lambda>async.
     pbind parse_type (\<lambda>ty.
     pbind (p_expect (''Esperado nome do m'' @ e_acute @ ''todo'') T_IDENTIFIER) (\<lambda>t.
     pbind (makeSourceIdentifier t) (\<lambda>n.
     pbind generic_list (\<lambda>gs.
     pbind (where_clauses gs) (\<lambda>gs.
     pbind (p_expect (esperado ''('') T_LPAREN) (\<lambda>_.
     pbind (p_if (p_check T_RPAREN) (ret ([], None)) (with_rounds (\<lambda>k. method_parameters k []))) (\<lambda>(ps, variadic).
     pbind (p_expect (esperado '')'') T_RPAREN) (\<lambda>_.
     pbind parse_throws_clause (\<lambda>(any, types).
     ret \<lparr>me_returnType = ty, me_name = n, me_parameters = ps, me_generics = gs, me_modifiers = ms,
              me_body = None, me_expression = None, me_variadic = variadic, me_isConstructor = False,
              me_isAsync = async, me_isOperator = False, me_operatorName = [], me_attributes = [],
              me_throwsAny = any, me_throwsTypes = types, me_contracts = []\<rparr>)))))))))))"

definition parse_method :: "grammar \<Rightarrow> bool \<Rightarrow> method_declaration parser" where
  "parse_method g allowBody =
     pbind method_head (\<lambda>m.
     if \<not> allowBody
     then pbind (p_expect (esperado_apos '';'' (''assinatura do m'' @ e_acute @ ''todo'')) T_SEMICOLON) (\<lambda>_. ret m)
     else pbind (parse_contract_clauses g) (\<lambda>cs.
          pbind (scoped_body g (me_parameters m)
                   (pbind (p_expect (esperado_apos '';'' (''declara'' @ c_cedil @ a_tilde @ ''o do m'' @ e_acute @ ''todo''))
                      T_SEMICOLON) (\<lambda>_. ret ()))) (\<lambda>(body, e).
          ret (m\<lparr>me_contracts := cs, me_body := body, me_expression := e\<rparr>))))"

section \<open>Operators\<close>

definition operator_tokens :: "token_type list" where
  "operator_tokens =
     [T_PLUS, T_MINUS, T_STAR, T_SLASH, T_PERCENT, T_EQUAL_EQUAL, T_BANG_EQUAL, T_LESS, T_LESS_EQUAL, T_GREATER,
      T_GREATER_EQUAL, T_AMPERSAND, T_PIPE, T_CARET, T_TILDE, T_LESS_LESS, T_GREATER_GREATER, T_AND_AND, T_OR_OR, T_BANG]"

definition is_index_kind :: "bool parser" where
  "is_index_kind =
     p_if (p_check T_IDENTIFIER) (pbind p_peek (\<lambda>t. ret (t_value t = ''get'' \<or> t_value t = ''set''))) (ret False)"

definition operator_name :: "ident parser" where
  "operator_name =
     p_if is_index_kind
       (pbind p_peek (\<lambda>w. pbind p_advance (\<lambda>_.
        pbind (p_expect (esperado_apos ''['' (quoted (t_value w))) T_LBRACKET) (\<lambda>_.
        pbind (p_expect (esperado_apos '']'' (quoted ''['')) T_RBRACKET) (\<lambda>_.
        pbind p_previous (\<lambda>t. named_ident (''__op_index_'' @ t_value w) (at_position (t_position t) 0)))))))
       (pbind (p_expect_any (''Esperado operador (+, -, *, /, ==, etc.)'') operator_tokens) (\<lambda>t.
        named_ident (operator_token_to_canonical_name (t_type t)) (token_location t)))"

definition parse_operator :: "grammar \<Rightarrow> bool \<Rightarrow> method_declaration parser" where
  "parse_operator g allowBody =
     pbind operator_name (\<lambda>n.
     pbind (parameter_list parse_parameter (esperado_apos ''('' ''operador'')) (\<lambda>ps.
     pbind (p_expect (esperado ''->'' @ '' para tipo de retorno do operador'') T_THIN_ARROW) (\<lambda>_.
     pbind parse_type (\<lambda>ty.
     let m = \<lparr>me_returnType = ty, me_name = n, me_parameters = ps, me_generics = [],
              me_modifiers = [VM_PUBLIC, VM_STATIC], me_body = None, me_expression = None, me_variadic = None,
              me_isConstructor = False, me_isAsync = False, me_isOperator = True, me_operatorName = token_name n,
              me_attributes = [], me_throwsAny = False, me_throwsTypes = [], me_contracts = []\<rparr>
     in if \<not> allowBody
        then pbind (p_expect (esperado_apos '';'' ''assinatura do operador'') T_SEMICOLON) (\<lambda>_. ret m)
        else pbind (scoped_body g ps
                      (pbind (p_expect (''Esperado '' @ quoted ''{'' @ '' ou '' @ quoted ''=>'' @ '' para corpo do operador'')
                         T_LBRACE) (\<lambda>_. ret ()))) (\<lambda>(body, e).
             ret (m\<lparr>me_body := body, me_expression := e\<rparr>))))))"

end
