(* ===== verification/Parser_Structs.thy ===== *)
theory Parser_Structs
  imports Parser_Members
begin

text \<open>
  Structs with their fields, properties and constructors, interfaces, enums and \<^verbatim>\<open>impl\<close> blocks
  (\<^verbatim>\<open>parse_property\<close>, \<^verbatim>\<open>parse_struct\<close>, \<^verbatim>\<open>parse_interface\<close>, \<^verbatim>\<open>parse_enum\<close> and \<^verbatim>\<open>parse_impl\<close> of
  \<^verbatim>\<open>parser/Parser.cpp\<close>). A struct without a name is named by a random number, the next of \<open>ps_random\<close>.
\<close>

section \<open>Properties\<close>

record struct_property =
  sp_type :: type_t
  sp_name :: ident
  sp_hasGetter :: bool
  sp_hasSetter :: bool
  sp_getterBody :: "statement list option"
  sp_setterBody :: "statement list option"
  sp_getterExpr :: "expression option"
  sp_setterExpr :: "expression option"

definition new_property :: "type_t \<Rightarrow> ident \<Rightarrow> struct_property" where
  "new_property t n =
     \<lparr>sp_type = t, sp_name = n, sp_hasGetter = False, sp_hasSetter = False, sp_getterBody = None,
      sp_setterBody = None, sp_getterExpr = None, sp_setterExpr = None\<rparr>"

definition pr_isAutoProperty :: "struct_property \<Rightarrow> bool" where
  "pr_isAutoProperty p \<longleftrightarrow>
     sp_hasGetter p \<and> sp_getterBody p = None \<and> sp_getterExpr p = None
     \<or> sp_hasSetter p \<and> sp_setterBody p = None \<and> sp_setterExpr p = None"

definition accessor ::
  "grammar \<Rightarrow> string \<Rightarrow> string \<Rightarrow> (expression option \<times> statement list option) parser" where
  "accessor g w long =
     p_if (p_match T_SEMICOLON) (ret (None, None))
    (p_if (p_match T_ARROW)
       (pbind (parse_expression g) (\<lambda>e.
        pbind (p_expect (esperado_apos '';'' (''express'' @ a_tilde @ ''o do '' @ long)) T_SEMICOLON) (\<lambda>_.
        ret (Some e, None))))
    (p_if (p_check T_LBRACE)
       (pbind (parse_block g) (\<lambda>ss. ret (None, Some ss)))
       (runtime_error (''Esperado '' @ quoted '';'' @ '', '' @ quoted ''=>'' @ '' ou '' @ quoted ''{'' @ '' ''
          @ after_word @ '' '' @ quoted w))))"

text \<open>A second accessor of a kind replaces the part it has and keeps the other.\<close>

definition replaced :: "'a option \<Rightarrow> 'a option \<Rightarrow> 'a option" where
  "replaced new old = (case new of Some x \<Rightarrow> Some x | None \<Rightarrow> old)"

definition with_getter :: "struct_property \<Rightarrow> expression option \<times> statement list option \<Rightarrow> struct_property" where
  "with_getter p a =
     p\<lparr>sp_hasGetter := True, sp_getterExpr := replaced (fst a) (sp_getterExpr p),
       sp_getterBody := replaced (snd a) (sp_getterBody p)\<rparr>"

definition with_setter :: "struct_property \<Rightarrow> expression option \<times> statement list option \<Rightarrow> struct_property" where
  "with_setter p a =
     p\<lparr>sp_hasSetter := True, sp_setterExpr := replaced (fst a) (sp_setterExpr p),
       sp_setterBody := replaced (snd a) (sp_setterBody p)\<rparr>"

fun property_rounds :: "nat \<Rightarrow> grammar \<Rightarrow> struct_property \<Rightarrow> struct_property parser" where
  "property_rounds 0 g p = (\<lambda>st. P_Fuel)"
| "property_rounds (Suc k) g p =
     p_if (at_close T_RBRACE) (ret p)
       (pbind p_peek (\<lambda>t.
        if t_value t = ''get''
        then pbind p_advance (\<lambda>_. pbind (accessor g ''get'' ''getter'') (\<lambda>a. property_rounds k g (with_getter p a)))
        else if t_value t = ''set''
        then pbind p_advance (\<lambda>_. pbind (accessor g ''set'' ''setter'') (\<lambda>a. property_rounds k g (with_setter p a)))
        else runtime_error (''Esperado '' @ quoted ''get'' @ '' ou '' @ quoted ''set'' @ '' em property, encontrado: ''
               @ t_value t)))"

definition parse_property :: "grammar \<Rightarrow> type_t \<Rightarrow> ident \<Rightarrow> struct_property parser" where
  "parse_property g t n =
     pbind (p_expect (esperado ''{'' @ '' para property'') T_LBRACE) (\<lambda>_.
     pbind (with_rounds (\<lambda>k. property_rounds k g (new_property t n))) (\<lambda>p.
     pbind (p_expect (esperado_apos ''}'' ''property'') T_RBRACE) (\<lambda>_.
     if \<not> sp_hasGetter p \<and> \<not> sp_hasSetter p
     then runtime_error (''Property deve ter pelo menos '' @ quoted ''get'' @ '' ou '' @ quoted ''set'')
     else ret p)))"

section \<open>Structs\<close>

record struct_field =
  sf_type :: type_t
  sf_name :: ident
  sf_isConstant :: bool
  sf_initializer :: "expression option"
  sf_modifiers :: "visibility_modifier list"

definition sf_isPublic :: "struct_field \<Rightarrow> bool" where
  "sf_isPublic f \<longleftrightarrow> sf_modifiers f = [] \<or> VM_PUBLIC \<in> set (sf_modifiers f)"

definition sf_isPrivate :: "struct_field \<Rightarrow> bool" where
  "sf_isPrivate f \<longleftrightarrow> VM_PRIVATE \<in> set (sf_modifiers f)"

record struct_declaration =
  sd_name :: ident
  sd_generics :: "generic_param list"
  sd_fields :: "struct_field list"
  sd_properties :: "struct_property list"
  sd_methods :: "method_declaration list"
  sd_implements :: "string list"
  sd_baseType :: "type_t option"
  sd_attributes :: "attribute_usage list"
  sd_isConstExpr :: bool
  sd_isIntrinsic :: bool

definition sd_isGeneric :: "struct_declaration \<Rightarrow> bool" where
  "sd_isGeneric d \<longleftrightarrow> sd_generics d \<noteq> []"

definition sd_isTransparent :: "struct_declaration \<Rightarrow> bool" where
  "sd_isTransparent d \<longleftrightarrow>
     (case sd_baseType d of Some t \<Rightarrow> sd_fields d = [] \<and> kind t \<noteq> TK_STRUCT | None \<Rightarrow> False)"

definition next_random :: "nat parser" where
  "next_random st = P_Ok (ps_random st 0) (st\<lparr>ps_random := \<lambda>i. ps_random st (Suc i)\<rparr>)"

definition struct_name :: "ident parser" where
  "struct_name =
     p_if (p_match T_IDENTIFIER)
       (pbind p_previous makeSourceIdentifier)
       (pbind p_peek (\<lambda>t. pbind next_random (\<lambda>r.
        named_ident (''__anon_struct_'' @ to_string r) (at_position (t_position t) 0))))"

fun base_names :: "nat \<Rightarrow> string list \<Rightarrow> string list parser" where
  "base_names 0 ns = (\<lambda>st. P_Fuel)"
| "base_names (Suc k) ns =
     pbind (p_match T_INTERFACE) (\<lambda>_.
     pbind (p_expect ''Esperado nome do tipo base'' T_IDENTIFIER) (\<lambda>t.
     p_if (p_match T_COMMA) (base_names k (ns @ [t_value t])) (ret (ns @ [t_value t]))))"

text \<open>A base type that is not a struct, or the interfaces that are implemented.\<close>

definition struct_bases :: "(type_t option \<times> string list) parser" where
  "struct_bases =
     p_if (p_match T_COLON)
       (let names = pbind (with_rounds (\<lambda>k. base_names k [])) (\<lambda>ns. ret (None, ns))
        in p_if (p_if isType (pbind (p_check T_INTERFACE) (\<lambda>b. ret (\<not> b))) (ret False))
             (pbind p_mark (\<lambda>saved.
              pbind parse_type (\<lambda>t.
              if kind t \<noteq> TK_STRUCT then ret (Some t, []) else pbind (p_reset saved) (\<lambda>_. names))))
             names)
       (ret (None, []))"

record struct_members =
  sm_fields :: "struct_field list"
  sm_properties :: "struct_property list"
  sm_methods :: "method_declaration list"

definition add_method :: "struct_members \<Rightarrow> method_declaration \<Rightarrow> struct_members" where
  "add_method ms m = ms\<lparr>sm_methods := sm_methods ms @ [m]\<rparr>"

definition add_field :: "struct_members \<Rightarrow> struct_field \<Rightarrow> struct_members" where
  "add_field ms f = ms\<lparr>sm_fields := sm_fields ms @ [f]\<rparr>"

text \<open>\<^verbatim>\<open>= expression ;\<close> behind the name of a constant field.\<close>

definition constant_field ::
  "grammar \<Rightarrow> type_t \<Rightarrow> ident \<Rightarrow> visibility_modifier list \<Rightarrow> struct_field parser" where
  "constant_field g ty n mods =
     pbind (parse_expression g) (\<lambda>e.
     pbind (p_expect (''expected '' @ quoted '';'' @ '' after const field'') T_SEMICOLON) (\<lambda>_.
     ret \<lparr>sf_type = ty, sf_name = n, sf_isConstant = True, sf_initializer = Some e, sf_modifiers = mods\<rparr>))"

definition modified_member ::
  "grammar \<Rightarrow> attribute_usage list \<Rightarrow> struct_members \<Rightarrow> struct_members parser" where
  "modified_member g as ms =
     pbind p_mark (\<lambda>saved.
     pbind parse_modifiers (\<lambda>mods.
     p_if (p_check T_CONST)
       (pbind p_advance (\<lambda>_.
        pbind parse_type (\<lambda>ty.
        pbind (p_expect ''expected field name'' T_IDENTIFIER) (\<lambda>t.
        pbind (makeSourceIdentifier t) (\<lambda>n.
        pbind (p_expect (''expected '' @ quoted ''='' @ '' for const field initializer'') T_EQUAL) (\<lambda>_.
        pbind (constant_field g ty n mods) (\<lambda>f. ret (add_field ms f))))))))
       (pbind (p_reset saved) (\<lambda>_.
        pbind (parse_method g True) (\<lambda>m. ret (add_method ms (m\<lparr>me_attributes := as\<rparr>)))))))"

definition constructor_of :: "grammar \<Rightarrow> ident \<Rightarrow> type_t \<Rightarrow> method_declaration parser" where
  "constructor_of g name ty =
     pbind (parameter_list (parameter_of []) (esperado ''('')) (\<lambda>ps.
     pbind (p_if (p_check T_LBRACE)
              (pbind (parse_block g) (\<lambda>ss. ret (Some ss)))
              (pbind (p_expect (esperado ''{'' @ '' para corpo do constructor'') T_LBRACE) (\<lambda>_. ret None))) (\<lambda>body.
     pbind (named_ident (structName (attrs ty)) (id_location name)) (\<lambda>n.
     ret \<lparr>me_returnType = voided, me_name = n, me_parameters = ps, me_generics = [], me_modifiers = [],
          me_body = body, me_expression = None, me_variadic = None, me_isConstructor = True, me_isAsync = False,
          me_isOperator = False, me_operatorName = [], me_attributes = [], me_throwsAny = False,
          me_throwsTypes = [], me_contracts = []\<rparr>)))"

definition INVALID_MODIFIERS :: nat where "INVALID_MODIFIERS = 4006"

text \<open>
  A member without modifiers: a constructor, a field, a property, or a method, for which the parser
  goes back to its first token. The attributes in front of it are not used.
\<close>

definition member_after_name ::
  "grammar \<Rightarrow> nat \<Rightarrow> bool \<Rightarrow> type_t \<Rightarrow> ident \<Rightarrow> struct_members \<Rightarrow> struct_members parser" where
  "member_after_name g saved isConstant ty n ms =
     p_if (p_check_any [T_LPAREN, T_LESS])
       (pbind (p_reset saved) (\<lambda>_. pbind (parse_method g True) (\<lambda>m. ret (add_method ms m))))
    (p_if (p_check T_LBRACE)
       (pbind (parse_property g ty n) (\<lambda>p. ret (ms\<lparr>sm_properties := sm_properties ms @ [p]\<rparr>)))
    (p_if (if isConstant then p_check T_EQUAL else ret False)
       (pbind p_advance (\<lambda>_. pbind (constant_field g ty n []) (\<lambda>f. ret (add_field ms f))))
       (if isConstant
        then parser_error INVALID_MODIFIERS ''const field must have an initializer (e.g., const i32 X = 10;)''
               ((id_location n)\<lparr>loc_length := 1\<rparr>)
        else pbind (p_expect (esperado_apos '';'' ''campo'') T_SEMICOLON) (\<lambda>_.
             ret (add_field ms \<lparr>sf_type = ty, sf_name = n, sf_isConstant = False, sf_initializer = None,
                                sf_modifiers = []\<rparr>)))))"

definition plain_member :: "grammar \<Rightarrow> ident \<Rightarrow> struct_members \<Rightarrow> struct_members parser" where
  "plain_member g name ms =
     pbind p_mark (\<lambda>saved.
     pbind (p_match T_MUT) (\<lambda>m1.
     pbind (p_match T_CONST) (\<lambda>c1.
     pbind (p_match T_MUT) (\<lambda>m2.
     pbind (p_match T_CONST) (\<lambda>c2.
     if (m1 \<or> m2) \<and> (c1 \<or> c2)
     then pbind p_peek (\<lambda>t. parser_error INVALID_MODIFIERS ''field cannot be mutable and constant at same time!''
            (at_position (t_position t) 1))
     else
       pbind parse_type (\<lambda>ty.
       p_if (if kind ty = TK_STRUCT \<and> structName (attrs ty) = token_name name then p_check T_LPAREN else ret False)
         (pbind (constructor_of g name ty) (\<lambda>m. ret (add_method ms m)))
      (p_if (p_check T_IDENTIFIER)
         (pbind (p_expect ''Esperado nome'' T_IDENTIFIER) (\<lambda>t.
          pbind (makeSourceIdentifier t) (\<lambda>n. member_after_name g saved (c1 \<or> c2) ty n ms)))
         (pbind (p_reset saved) (\<lambda>_. pbind (parse_method g True) (\<lambda>m. ret (add_method ms m)))))))))))"

definition struct_member :: "grammar \<Rightarrow> ident \<Rightarrow> struct_members \<Rightarrow> struct_members parser" where
  "struct_member g name ms =
     pbind parse_attributes (\<lambda>as.
     p_if (p_match T_OPERATOR)
       (pbind (parse_operator g True) (\<lambda>m. ret (add_method ms (m\<lparr>me_attributes := as\<rparr>))))
    (p_if (p_check_any [T_PUBLIC, T_PRIVATE, T_STATIC, T_UNSAFE])
       (modified_member g as ms)
       (plain_member g name ms)))"

fun struct_rounds :: "nat \<Rightarrow> grammar \<Rightarrow> ident \<Rightarrow> struct_members \<Rightarrow> struct_members parser" where
  "struct_rounds 0 g name ms = (\<lambda>st. P_Fuel)"
| "struct_rounds (Suc k) g name ms =
     p_if (at_close T_RBRACE) (ret ms) (pbind (struct_member g name ms) (struct_rounds k g name))"

text \<open>Every automatic property has a field of its name behind the others.\<close>

definition property_field :: "struct_property \<Rightarrow> struct_field" where
  "property_field p =
     \<lparr>sf_type = copy_type (sp_type p), sf_name = sp_name p, sf_isConstant = False, sf_initializer = None,
      sf_modifiers = []\<rparr>"

definition parse_struct :: "grammar \<Rightarrow> struct_declaration parser" where
  "parse_struct g =
     pbind parse_attributes (\<lambda>as.
     pbind (p_if (p_check T_STRUCT) (pbind (p_expect (esperado ''struct'') T_STRUCT) (\<lambda>_. ret ())) (ret ())) (\<lambda>_.
     pbind struct_name (\<lambda>name.
     pbind generic_list (\<lambda>gs.
     pbind (where_clauses gs) (\<lambda>gs.
     pbind struct_bases (\<lambda>(base, names).
     pbind (where_clauses gs) (\<lambda>gs.
     pbind (registerKnownType (token_name name)) (\<lambda>_.
     pbind (define_generics gs) (\<lambda>_.
     pbind (p_if (p_match T_LBRACE)
              (pbind (with_rounds (\<lambda>k. struct_rounds k g name \<lparr>sm_fields = [], sm_properties = [], sm_methods = []\<rparr>)) (\<lambda>ms.
               pbind (p_expect (esperado ''}'') T_RBRACE) (\<lambda>_. ret ms)))
              (pbind (p_expect ''expected semi colon for no-body struct'' T_SEMICOLON) (\<lambda>_.
               ret \<lparr>sm_fields = [], sm_properties = [], sm_methods = []\<rparr>))) (\<lambda>ms.
     ret \<lparr>sd_name = name, sd_generics = gs,
          sd_fields = sm_fields ms @ map property_field (filter pr_isAutoProperty (sm_properties ms)),
          sd_properties = sm_properties ms, sd_methods = sm_methods ms, sd_implements = names, sd_baseType = base,
          sd_attributes = as, sd_isConstExpr = False, sd_isIntrinsic = False\<rparr>))))))))))"

section \<open>Interfaces\<close>

record interface_declaration =
  id_name :: ident
  id_generics :: "generic_param list"
  id_methods :: "method_declaration list"

fun interface_rounds :: "nat \<Rightarrow> grammar \<Rightarrow> method_declaration list \<Rightarrow> method_declaration list parser" where
  "interface_rounds 0 g ms = (\<lambda>st. P_Fuel)"
| "interface_rounds (Suc k) g ms =
     p_if (at_close T_RBRACE) (ret ms)
       (pbind (p_if (p_match T_OPERATOR) (parse_operator g False) (parse_method g False)) (\<lambda>m.
        interface_rounds k g (ms @ [m])))"

definition parse_interface :: "grammar \<Rightarrow> interface_declaration parser" where
  "parse_interface g =
     pbind (p_if (p_match T_LBRACKET) (pbind parse_attributes (\<lambda>_. ret ())) (ret ())) (\<lambda>_.
     pbind (p_expect (esperado ''interface'') T_INTERFACE) (\<lambda>_.
     pbind (p_expect ''Esperado nome da interface'' T_IDENTIFIER) (\<lambda>t.
     pbind (makeSourceIdentifier t) (\<lambda>n.
     pbind generic_list (\<lambda>gs.
     pbind (where_clauses gs) (\<lambda>gs.
     pbind (define_generics gs) (\<lambda>_.
     pbind (p_expect (esperado ''{'') T_LBRACE) (\<lambda>_.
     pbind (with_rounds (\<lambda>k. interface_rounds k g [])) (\<lambda>ms.
     pbind (p_expect (esperado ''}'') T_RBRACE) (\<lambda>_.
     ret \<lparr>id_name = n, id_generics = gs, id_methods = ms\<rparr>))))))))))"

section \<open>Enums\<close>

record enum_value =
  ev_name :: ident
  ev_types :: "type_t list"
  ev_constants :: "expression list"

record enum_declaration =
  en_name :: ident
  en_generics :: "generic_param list"
  en_values :: "enum_value list"
  en_fields :: "(type_t \<times> ident) list"
  en_isUnion :: bool

fun enum_fields :: "nat \<Rightarrow> (type_t \<times> ident) list \<Rightarrow> (type_t \<times> ident) list parser" where
  "enum_fields 0 fs = (\<lambda>st. P_Fuel)"
| "enum_fields (Suc k) fs =
     pbind parse_type (\<lambda>ty.
     pbind (p_expect ''Esperado nome do campo do enum'' T_IDENTIFIER) (\<lambda>t.
     pbind (makeSourceIdentifier t) (\<lambda>n.
     let fs' = fs @ [(copy_type ty, n)]
     in p_if (p_match T_COMMA) (enum_fields k fs') (ret fs'))))"

text \<open>A parenthesis that is not closed at once.\<close>

definition open_paren :: "bool parser" where
  "open_paren = p_if (p_match T_LPAREN) (pbind (p_match T_RPAREN) (\<lambda>b. ret (\<not> b))) (ret False)"

definition enum_payload :: "grammar \<Rightarrow> bool \<Rightarrow> (type_t list \<times> expression list) parser" where
  "enum_payload g hasFields =
     p_if open_paren
       (if hasFields
        then pbind (with_rounds (\<lambda>k. expression_list k (parse_expression g) [])) (\<lambda>es.
             pbind (p_expect (''Esperado ) '' @ after_word @ '' os valores da variante'') T_RPAREN) (\<lambda>_. ret ([], es)))
        else pbind (with_rounds (\<lambda>k. parse_type_list k [])) (\<lambda>ts.
             pbind (p_expect (''Esperado ) '' @ after_word @ '' tipos associados'') T_RPAREN) (\<lambda>_. ret (ts, []))))
       (ret ([], []))"

fun enum_values :: "nat \<Rightarrow> grammar \<Rightarrow> bool \<Rightarrow> enum_value list \<Rightarrow> enum_value list parser" where
  "enum_values 0 g hasFields vs = (\<lambda>st. P_Fuel)"
| "enum_values (Suc k) g hasFields vs =
     p_if (p_check T_IDENTIFIER)
       (pbind (p_expect ''Esperado identifier'' T_IDENTIFIER) (\<lambda>t.
        pbind (enum_payload g hasFields) (\<lambda>(ts, es).
        pbind (makeSourceIdentifier t) (\<lambda>n.
        pbind (p_if (p_check T_RBRACE) (ret False) (p_match T_COMMA)) (\<lambda>_.
        enum_values k g hasFields (vs @ [\<lparr>ev_name = n, ev_types = ts, ev_constants = es\<rparr>]))))))
       (ret vs)"

text \<open>Without a body the fields and the word \<^verbatim>\<open>union\<close> are dropped.\<close>

definition parse_enum :: "grammar \<Rightarrow> enum_declaration parser" where
  "parse_enum g =
     pbind (p_expect ''Esperado enum keyword'' T_ENUM) (\<lambda>w.
     pbind (p_expect ''Esperado identifier'' T_IDENTIFIER) (\<lambda>t.
     pbind (p_if (p_match T_LPAREN)
              (pbind (with_rounds (\<lambda>k. enum_fields k [])) (\<lambda>fs.
               pbind (p_expect (esperado_apos '')'' ''os campos do enum'') T_RPAREN) (\<lambda>_. ret fs)))
              (ret [])) (\<lambda>fs.
     pbind generic_list (\<lambda>gs.
     pbind (where_clauses gs) (\<lambda>gs.
     pbind (define_generics gs) (\<lambda>_.
     p_if (p_check T_LBRACE)
       (pbind (p_expect (''Esperado { para declara'' @ c_cedil @ a_tilde @ ''o de enum'') T_LBRACE) (\<lambda>_.
        pbind (with_rounds (\<lambda>k. enum_values k g (fs \<noteq> []) [])) (\<lambda>vs.
        pbind (p_expect (''Esperado } '' @ after_word @ '' declara'' @ c_cedil @ a_tilde @ ''o de enum'') T_RBRACE) (\<lambda>_.
        pbind (makeSourceIdentifier t) (\<lambda>n.
        ret \<lparr>en_name = n, en_generics = gs, en_values = vs, en_fields = fs, en_isUnion = t_value w = ''union''\<rparr>)))))
       (pbind (makeSourceIdentifier t) (\<lambda>n.
        ret \<lparr>en_name = n, en_generics = gs, en_values = [], en_fields = [], en_isUnion = False\<rparr>))))))))"

section \<open>Implementations\<close>

record impl_declaration =
  im_targets :: "type_t list"
  im_interfaces :: "string list"
  im_methods :: "method_declaration list"
  im_fields :: "struct_field list"

definition type_name_of :: "type_t \<Rightarrow> string" where
  "type_name_of t = (if kind t = TK_STRUCT then structName (attrs t) else toHumanString t)"

definition im_isInterface :: "impl_declaration \<Rightarrow> bool" where
  "im_isInterface d \<longleftrightarrow> im_interfaces d \<noteq> []"

fun interface_names :: "nat \<Rightarrow> string list \<Rightarrow> string list parser" where
  "interface_names 0 ns = (\<lambda>st. P_Fuel)"
| "interface_names (Suc k) ns =
     p_if (p_check T_COMMA)
       (pbind p_advance (\<lambda>_. pbind parse_type (\<lambda>t. interface_names k (ns @ [type_name_of t]))))
       (ret ns)"

definition impl_head :: "(type_t list \<times> string list) parser" where
  "impl_head =
     pbind parse_type (\<lambda>t.
     p_if (p_check_any [T_COMMA, T_FOR])
       (pbind (with_rounds (\<lambda>k. interface_names k [type_name_of t])) (\<lambda>ns.
        pbind (p_expect (esperado_apos ''for'' ''interface(s) no impl'') T_FOR) (\<lambda>_.
        pbind (with_rounds (\<lambda>k. parse_type_list k [])) (\<lambda>ts. ret (ts, ns)))))
       (ret ([copy_type t], [])))"

definition impl_field ::
  "grammar \<Rightarrow> type_t \<Rightarrow> ident \<Rightarrow> bool \<Rightarrow> visibility_modifier list \<Rightarrow> struct_field parser" where
  "impl_field g ty n isConstant mods =
     pbind (p_if (p_match T_EQUAL) (pbind (parse_expression g) (\<lambda>e. ret (Some e))) (ret None)) (\<lambda>e.
     pbind (p_expect (esperado '';'') T_SEMICOLON) (\<lambda>_.
     ret \<lparr>sf_type = ty, sf_name = n, sf_isConstant = isConstant, sf_initializer = e, sf_modifiers = mods\<rparr>))"

definition impl_method :: "grammar \<Rightarrow> nat \<Rightarrow> attribute_usage list \<Rightarrow> struct_members \<Rightarrow> struct_members parser" where
  "impl_method g saved as ms =
     pbind (p_reset saved) (\<lambda>_.
     pbind (parse_method g True) (\<lambda>m. ret (add_method ms (m\<lparr>me_attributes := as\<rparr>))))"

definition impl_member :: "grammar \<Rightarrow> struct_members \<Rightarrow> struct_members parser" where
  "impl_member g ms =
     pbind parse_attributes (\<lambda>as.
     p_if (p_match T_OPERATOR)
       (pbind (parse_operator g True) (\<lambda>m. ret (add_method ms (m\<lparr>me_attributes := as\<rparr>))))
       (pbind p_mark (\<lambda>saved.
        pbind parse_modifiers (\<lambda>mods.
        pbind (p_match T_MUT) (\<lambda>m1.
        pbind (p_match T_CONST) (\<lambda>c1.
        pbind (p_match T_MUT) (\<lambda>m2.
        pbind (p_match T_CONST) (\<lambda>c2.
        if m1 \<or> m2 \<or> c1 \<or> c2
        then pbind parse_type (\<lambda>ty.
             pbind (p_expect ''Esperado nome do campo'' T_IDENTIFIER) (\<lambda>t.
             pbind (makeSourceIdentifier t) (\<lambda>n.
             pbind (impl_field g ty n (c1 \<or> c2) mods) (\<lambda>f. ret (add_field ms f)))))
        else if mods \<noteq> [] then impl_method g saved as ms
        else pbind parse_type (\<lambda>ty.
             p_if (p_check T_IDENTIFIER)
               (pbind p_advance (\<lambda>t.
                p_if (p_check_any [T_SEMICOLON, T_EQUAL])
                  (pbind (makeSourceIdentifier t) (\<lambda>n.
                   pbind (impl_field g ty n False []) (\<lambda>f. ret (add_field ms f))))
                  (impl_method g saved as ms)))
               (impl_method g saved as ms))))))))))"

fun impl_rounds :: "nat \<Rightarrow> grammar \<Rightarrow> struct_members \<Rightarrow> struct_members parser" where
  "impl_rounds 0 g ms = (\<lambda>st. P_Fuel)"
| "impl_rounds (Suc k) g ms =
     p_if (at_close T_RBRACE) (ret ms) (pbind (impl_member g ms) (impl_rounds k g))"

definition parse_impl :: "grammar \<Rightarrow> impl_declaration parser" where
  "parse_impl g =
     pbind (p_expect (esperado ''impl'') T_IMPL) (\<lambda>_.
     pbind impl_head (\<lambda>(targets, ns).
     pbind (p_expect (esperado_apos ''{'' ''tipo no impl'') T_LBRACE) (\<lambda>_.
     pbind (with_rounds (\<lambda>k. impl_rounds k g \<lparr>sm_fields = [], sm_properties = [], sm_methods = []\<rparr>)) (\<lambda>ms.
     pbind (p_expect (esperado ''}'' @ '' no impl'') T_RBRACE) (\<lambda>_.
     ret \<lparr>im_targets = targets, im_interfaces = ns, im_methods = sm_methods ms, im_fields = sm_fields ms\<rparr>)))))"

end
