(* ===== verification/Parser_Program.thy ===== *)
theory Parser_Program
  imports Parser_Structs
begin

text \<open>
  Functions, constants, static variables, attribute declarations, namespaces and compile-time blocks,
  and the whole program: \<^verbatim>\<open>parse_top_level_declarations\<close> and \<^verbatim>\<open>parse\<close> of \<^verbatim>\<open>parser/Parser.cpp\<close>.

  The functions that add to a \<^verbatim>\<open>Program\<close> keep what they added before an error, so they are modelled as
  emitters, which return the declarations they added besides their outcome. A \<^verbatim>\<open>Program\<close> is the list of
  its declarations in the order they are added; the vector of a kind is the list of that kind.
\<close>

section \<open>Functions\<close>

record function_declaration =
  fd_returnType :: type_t
  fd_name :: ident
  fd_parameters :: "parameter list"
  fd_body :: "statement list"
  fd_isAsync :: bool
  fd_constExpr :: bool
  fd_constEval :: bool
  fd_throwsAny :: bool
  fd_throwsTypes :: "type_t list"
  fd_contracts :: "contract_clause list"

definition fd_isThrowing :: "function_declaration \<Rightarrow> bool" where
  "fd_isThrowing f \<longleftrightarrow> fd_throwsAny f \<or> fd_throwsTypes f \<noteq> []"

text \<open>What follows the name of a function, in a scope of its own.\<close>

definition function_rest :: "grammar \<Rightarrow> type_t \<Rightarrow> token \<Rightarrow> function_declaration parser" where
  "function_rest g ty t =
     pbind p_pushScope (\<lambda>_.
     pbind parse_parameters (\<lambda>ps.
     pbind (define_parameters ps) (\<lambda>_.
     pbind parse_throws_clause (\<lambda>(any, types).
     pbind (parse_contract_clauses g) (\<lambda>cs.
     pbind (parse_block g) (\<lambda>body.
     pbind p_popScope (\<lambda>_.
     pbind (makeSourceIdentifier t) (\<lambda>n.
     ret \<lparr>fd_returnType = ty, fd_name = n, fd_parameters = ps, fd_body = body, fd_isAsync = False,
          fd_constExpr = False, fd_constEval = False, fd_throwsAny = any, fd_throwsTypes = types,
          fd_contracts = cs\<rparr>))))))))"

definition parse_function_with_type :: "grammar \<Rightarrow> type_t \<Rightarrow> function_declaration parser" where
  "parse_function_with_type g ty =
     pbind (p_expect (''Esperado nome da fun'' @ c_cedil @ a_tilde @ ''o'') T_IDENTIFIER) (function_rest g ty)"

definition parse_function :: "grammar \<Rightarrow> function_declaration parser" where
  "parse_function g = pbind parse_type (parse_function_with_type g)"

section \<open>Programs\<close>

record constexpr_declaration =
  ce_type :: type_t
  ce_name :: ident
  ce_value :: "expression option"
  ce_attributes :: "attribute_usage list"
  ce_isIntrinsic :: bool

record static_declaration =
  sv_type :: type_t
  sv_name :: ident
  sv_initializer :: expression
  sv_isMutable :: bool

record attribute_declaration =
  ad_name :: ident
  ad_targets :: "attribute_argument list"
  ad_fields :: "(type_t \<times> ident) list"

datatype namespace_declaration =
  Namespace ident "struct_declaration list" "function_declaration list" "namespace_declaration list"

datatype program_item =
    D_FileNamespace string
  | D_Import qualified_name
  | D_Extern extern_declaration
  | D_Interface interface_declaration
  | D_Struct struct_declaration
  | D_Function function_declaration
  | D_Namespace namespace_declaration
  | D_Enum enum_declaration
  | D_Impl impl_declaration
  | D_ConstExpr constexpr_declaration
  | D_Macro macro_declaration
  | D_If expression compile_time_kind "program_item list" "program_item list option"
  | D_Static static_declaration
  | D_Attribute attribute_declaration

text \<open>The fields of a \<^verbatim>\<open>Program\<close>.\<close>

definition fileNamespace :: "program_item list \<Rightarrow> string" where
  "fileNamespace ds = foldl (\<lambda>n d. case d of D_FileNamespace m \<Rightarrow> m | _ \<Rightarrow> n) [] ds"

definition getNamespacePrefix :: "program_item list \<Rightarrow> string" where
  "getNamespacePrefix ds = (if fileNamespace ds = [] then [] else fileNamespace ds @ ''::'')"

definition program_structs :: "program_item list \<Rightarrow> struct_declaration list" where
  "program_structs ds = List.map_filter (\<lambda>d. case d of D_Struct s \<Rightarrow> Some s | _ \<Rightarrow> None) ds"

definition program_functions :: "program_item list \<Rightarrow> function_declaration list" where
  "program_functions ds = List.map_filter (\<lambda>d. case d of D_Function f \<Rightarrow> Some f | _ \<Rightarrow> None) ds"

section \<open>Emitters\<close>

type_synonym 'a emitter = "parser_state \<Rightarrow> program_item list \<times> 'a outcome"

definition e_lift :: "'a parser \<Rightarrow> 'a emitter" where
  "e_lift p st = ([], p st)"

definition e_emit :: "program_item \<Rightarrow> unit emitter" where
  "e_emit d st = ([d], P_Ok () st)"

definition e_then :: "'a emitter \<Rightarrow> ('a \<Rightarrow> 'b emitter) \<Rightarrow> 'b emitter" where
  "e_then p f st =
     (case p st of
        (ds, P_Ok x st') \<Rightarrow> (let (es, r) = f x st' in (ds @ es, r))
      | (ds, P_Error e st') \<Rightarrow> (ds, P_Error e st')
      | (ds, P_Raise e) \<Rightarrow> (ds, P_Raise e)
      | (ds, P_Abort) \<Rightarrow> (ds, P_Abort)
      | (ds, P_Undefined) \<Rightarrow> (ds, P_Undefined)
      | (ds, P_Fuel) \<Rightarrow> (ds, P_Fuel))"

definition e_if :: "bool parser \<Rightarrow> 'a emitter \<Rightarrow> 'a emitter \<Rightarrow> 'a emitter" where
  "e_if c p q = e_then (e_lift c) (\<lambda>b. if b then p else q)"

text \<open>One declaration added at the end, and the declarations of a program of its own.\<close>

definition e_add :: "('a \<Rightarrow> program_item) \<Rightarrow> 'a parser \<Rightarrow> unit emitter" where
  "e_add f p = e_then (e_lift p) (\<lambda>x. e_emit (f x))"

definition e_own :: "unit emitter \<Rightarrow> program_item list parser" where
  "e_own p st =
     (case p st of
        (ds, P_Ok x st') \<Rightarrow> P_Ok ds st'
      | (ds, P_Error e st') \<Rightarrow> P_Error e st'
      | (ds, P_Raise e) \<Rightarrow> P_Raise e
      | (ds, P_Abort) \<Rightarrow> P_Abort
      | (ds, P_Undefined) \<Rightarrow> P_Undefined
      | (ds, P_Fuel) \<Rightarrow> P_Fuel)"

definition emit_extern :: "unit emitter" where
  "emit_extern st = (let (ds, r) = parse_extern [] st in (map D_Extern ds, r))"

section \<open>Constants, static variables and attribute declarations\<close>

definition constant_start :: "token_type list" where
  "constant_start = [T_CONST_EVAL, T_CONST_EXPR, T_CONST]"

definition constant_function ::
  "grammar \<Rightarrow> token_type \<Rightarrow> type_t \<Rightarrow> token \<Rightarrow> function_declaration parser" where
  "constant_function g w ty t =
     pbind (function_rest g ty t) (\<lambda>f.
     ret (f\<lparr>fd_constEval := (w = T_CONST_EVAL), fd_constExpr := (w = T_CONST_EXPR)\<rparr>))"

definition constant_value ::
  "grammar \<Rightarrow> attribute_usage list \<Rightarrow> bool \<Rightarrow> type_t \<Rightarrow> token \<Rightarrow> constexpr_declaration parser" where
  "constant_value g as intrinsic ty t =
     p_if (if intrinsic then p_check T_SEMICOLON else ret False)
       (pbind p_advance (\<lambda>_. pbind (makeSourceIdentifier t) (\<lambda>n.
        ret \<lparr>ce_type = copy_type ty, ce_name = n, ce_value = None, ce_attributes = as, ce_isIntrinsic = True\<rparr>)))
       (pbind (p_expect (esperado ''='') T_EQUAL) (\<lambda>_.
        pbind (parse_expression g) (\<lambda>e.
        pbind (p_expect (esperado '';'') T_SEMICOLON) (\<lambda>_.
        pbind (makeSourceIdentifier t) (\<lambda>n.
        ret \<lparr>ce_type = copy_type ty, ce_name = n, ce_value = Some e, ce_attributes = as, ce_isIntrinsic = False\<rparr>)))))"

text \<open>The keyword is the current token; the three checks that \<^verbatim>\<open>advance\<close> follows look at it.\<close>

definition parse_constexpr_declaration :: "grammar \<Rightarrow> attribute_usage list \<Rightarrow> unit emitter" where
  "parse_constexpr_declaration g as =
     e_then (e_lift p_peek) (\<lambda>w.
     e_then (e_lift p_advance) (\<lambda>_.
     let intrinsic = list_ex (\<lambda>a. token_name (au_name a) = ''intrinsic'') as
     in e_if (p_check_any [T_STRUCT, T_LBRACE])
          (e_add (\<lambda>d. D_Struct (d\<lparr>sd_isConstExpr := True, sd_isIntrinsic := intrinsic, sd_attributes := as\<rparr>))
             (parse_struct g))
          (e_then (e_lift parse_type) (\<lambda>ty.
           e_then (e_lift (p_expect ''Esperado nome'' T_IDENTIFIER)) (\<lambda>t.
           e_if (if t_type w = T_CONST_EVAL \<or> t_type w = T_CONST_EXPR then p_check T_LPAREN else ret False)
             (e_add D_Function (constant_function g (t_type w) ty t))
             (e_add D_ConstExpr (constant_value g as intrinsic ty t)))))))"

definition parse_static_var :: "grammar \<Rightarrow> static_declaration parser" where
  "parse_static_var g =
     pbind here (\<lambda>start.
     pbind (p_match T_UNSAFE) (\<lambda>hasUnsafe.
     pbind (p_expect (esperado ''static'') T_STATIC) (\<lambda>_.
     pbind (p_if (p_check T_MUT) (pbind p_advance (\<lambda>_. ret True)) (ret False)) (\<lambda>isMutable.
     if isMutable \<and> \<not> hasUnsafe
     then parser_error UNEXPECTED_TOKEN (quoted ''static mut'' @ '' requires '' @ quoted ''unsafe'' @ '': write ''
            @ quoted ''unsafe static mut'') start
     else if hasUnsafe \<and> \<not> isMutable
     then parser_error UNEXPECTED_TOKEN (quoted ''unsafe'' @ '' is only valid on '' @ quoted ''static mut'') start
     else
       pbind parse_type (\<lambda>ty.
       pbind (p_expect (''Esperado nome da vari'' @ a_acute @ ''vel'') T_IDENTIFIER) (\<lambda>t.
       pbind (makeSourceIdentifier t) (\<lambda>n.
       pbind (p_expect (esperado ''='') T_EQUAL) (\<lambda>_.
       pbind (parse_expression g) (\<lambda>e.
       pbind (p_expect (esperado '';'') T_SEMICOLON) (\<lambda>_.
       ret \<lparr>sv_type = ty, sv_name = n, sv_initializer = e, sv_isMutable = isMutable\<rparr>))))))))))"

definition attribute_target :: "attribute_argument parser" where
  "attribute_target =
     pbind here (\<lambda>loc.
     pbind (attribute_word ''Esperado target do atributo'') (\<lambda>w.
     ret \<lparr>ag_name = None, ag_value = AL_String w, ag_location = loc\<rparr>))"

fun attribute_targets :: "nat \<Rightarrow> attribute_argument list \<Rightarrow> attribute_argument list parser" where
  "attribute_targets 0 as = (\<lambda>st. P_Fuel)"
| "attribute_targets (Suc k) as =
     pbind attribute_target (\<lambda>a. p_if (p_match T_COMMA) (attribute_targets k (as @ [a])) (ret (as @ [a])))"

fun attribute_fields :: "nat \<Rightarrow> (type_t \<times> ident) list \<Rightarrow> (type_t \<times> ident) list parser" where
  "attribute_fields 0 fs = (\<lambda>st. P_Fuel)"
| "attribute_fields (Suc k) fs =
     p_if (at_close T_RBRACE) (ret fs)
       (pbind parse_type (\<lambda>ty.
        pbind (p_expect ''Esperado nome do campo'' T_IDENTIFIER) (\<lambda>t.
        pbind (p_expect (esperado_apos '';'' ''campo do atributo'') T_SEMICOLON) (\<lambda>_.
        pbind (makeSourceIdentifier t) (\<lambda>n. attribute_fields k (fs @ [(ty, n)]))))))"

definition parse_attribute_declaration :: "attribute_declaration parser" where
  "parse_attribute_declaration =
     pbind p_advance (\<lambda>_.
     pbind (p_expect ''Esperado nome do atributo'' T_IDENTIFIER) (\<lambda>t.
     pbind (makeSourceIdentifier t) (\<lambda>n.
     pbind (p_expect (esperado ''('' @ '' para targets do atributo'') T_LPAREN) (\<lambda>_.
     pbind (p_if (p_check T_RPAREN) (ret []) (with_rounds (\<lambda>k. attribute_targets k []))) (\<lambda>as.
     pbind (p_expect (esperado_apos '')'' ''targets do atributo'') T_RPAREN) (\<lambda>_.
     p_if (p_match T_SEMICOLON)
       (ret \<lparr>ad_name = n, ad_targets = as, ad_fields = []\<rparr>)
       (pbind (p_expect (esperado ''{'' @ '' para campos do atributo'') T_LBRACE) (\<lambda>_.
        pbind (with_rounds (\<lambda>k. attribute_fields k [])) (\<lambda>fs.
        pbind (p_expect (esperado_apos ''}'' ''campos do atributo'') T_RBRACE) (\<lambda>_.
        ret \<lparr>ad_name = n, ad_targets = as, ad_fields = fs\<rparr>))))))))))"

section \<open>Namespaces\<close>

text \<open>What a namespace holds so far. The parser of the namespaces within is an argument.\<close>

type_synonym namespace_parts = "struct_declaration list \<times> function_declaration list \<times> namespace_declaration list"

definition namespace_struct :: "grammar \<Rightarrow> namespace_parts \<Rightarrow> namespace_parts parser" where
  "namespace_struct g ps =
     (case ps of (ss, fs, ns) \<Rightarrow>
        pbind (p_expect (esperado ''struct'') T_STRUCT) (\<lambda>_.
        pbind (parse_struct g) (\<lambda>d.
        p_if (p_if (p_check T_IDENTIFIER) isType (ret True))
          (ret (ss @ [d], fs, ns))
          (pbind (parse_function_with_type g (struct_type (token_name (sd_name d)))) (\<lambda>f.
           ret (ss @ [d], fs @ [f], ns))))))"

fun namespace_rounds ::
  "nat \<Rightarrow> grammar \<Rightarrow> namespace_declaration parser \<Rightarrow> namespace_parts \<Rightarrow> namespace_parts parser" where
  "namespace_rounds 0 g p ps = (\<lambda>st. P_Fuel)"
| "namespace_rounds (Suc k) g p ps =
     p_if (at_close T_RBRACE) (ret ps)
       (pbind (p_if (p_check T_NAMESPACE)
                 (pbind p (\<lambda>n. ret (case ps of (ss, fs, ns) \<Rightarrow> (ss, fs, ns @ [n]))))
              (p_if (p_check T_STRUCT) (namespace_struct g ps)
                 (pbind (parse_function g) (\<lambda>f. ret (case ps of (ss, fs, ns) \<Rightarrow> (ss, fs @ [f], ns))))))
          (namespace_rounds k g p))"

definition namespace_of :: "grammar \<Rightarrow> namespace_declaration parser \<Rightarrow> namespace_declaration parser" where
  "namespace_of g p =
     pbind (p_expect (esperado ''namespace'') T_NAMESPACE) (\<lambda>_.
     pbind (p_expect ''Esperado nome do namespace'' T_IDENTIFIER) (\<lambda>t.
     pbind (makeSourceIdentifier t) (\<lambda>n.
     pbind (p_expect (esperado ''{'') T_LBRACE) (\<lambda>_.
     pbind p_pushScope (\<lambda>_.
     pbind (with_rounds (\<lambda>k. namespace_rounds k g p ([], [], []))) (\<lambda>(ss, fs, ns).
     pbind p_popScope (\<lambda>_.
     pbind (p_expect (esperado ''}'') T_RBRACE) (\<lambda>_. ret (Namespace n ss fs ns)))))))))"

primrec namespace_at :: "nat \<Rightarrow> grammar \<Rightarrow> namespace_declaration parser" where
  "namespace_at 0 g = (\<lambda>st. P_Fuel)"
| "namespace_at (Suc k) g = namespace_of g (namespace_at k g)"

definition parse_namespace :: "grammar \<Rightarrow> namespace_declaration parser" where
  "parse_namespace g = with_rounds (\<lambda>k. namespace_at k g)"

section \<open>Declarations of a compile-time block\<close>

definition p_define_macro :: "macro_declaration \<Rightarrow> unit parser" where
  "p_define_macro m st = P_Ok () (st\<lparr>ps_macros := (ps_macros st)(token_name (md_name m) \<mapsto> m)\<rparr>)"

definition macro_item :: "unit emitter" where
  "macro_item = e_add D_Macro (pbind parse_macro (\<lambda>m. pbind (p_define_macro m) (\<lambda>_. ret m)))"

definition starts_static :: "bool parser" where
  "starts_static =
     p_if (p_check T_STATIC) (ret True) (p_if (p_check T_UNSAFE) (p_next_is [T_STATIC]) (ret False))"

definition function_item :: "grammar \<Rightarrow> unit emitter" where
  "function_item g = e_add D_Function (parse_function g)"

definition async_function :: "grammar \<Rightarrow> function_declaration parser" where
  "async_function g = pbind p_advance (\<lambda>_. pbind (parse_function g) (\<lambda>f. ret (f\<lparr>fd_isAsync := True\<rparr>)))"

definition block_item :: "grammar \<Rightarrow> program_item parser \<Rightarrow> unit emitter" where
  "block_item g cb =
     e_if (p_check T_IMPORT) (e_add D_Import parse_import)
    (e_if (p_check T_EXTERN) emit_extern
    (e_if (p_check T_ENUM) (e_add D_Enum (parse_enum g))
    (e_if (p_check T_INTERFACE) (e_add D_Interface (parse_interface g))
    (e_if (p_check T_IMPL) (e_add D_Impl (parse_impl g))
    (e_if (p_check T_LBRACKET)
       (e_then (e_lift p_mark) (\<lambda>saved.
        e_then (e_lift parse_attributes) (\<lambda>as.
        e_if (p_check_any constant_start)
          (parse_constexpr_declaration g as)
          (e_then (e_lift (p_reset saved)) (\<lambda>_. e_add D_Struct (parse_struct g))))))
    (e_if (p_check_any [T_STRUCT, T_LBRACE]) (e_add D_Struct (parse_struct g))
    (e_if (p_check_any constant_start) (parse_constexpr_declaration g [])
    (e_if (p_check T_MACRO) macro_item
    (e_if (p_check T_IF) (e_add id cb)
    (e_if (checkContextual ''attribute'') (e_add D_Attribute parse_attribute_declaration)
    (e_if starts_static (e_add D_Static (parse_static_var g))
    (e_if (p_check T_UNSAFE) (e_then (e_lift p_advance) (\<lambda>_. function_item g))
    (e_if (p_check T_ASYNC) (e_add D_Function (async_function g))
       (function_item g))))))))))))))"

fun block_rounds :: "nat \<Rightarrow> grammar \<Rightarrow> program_item parser \<Rightarrow> unit emitter" where
  "block_rounds 0 g cb = (\<lambda>st. ([], P_Fuel))"
| "block_rounds (Suc k) g cb =
     e_if (at_close T_RBRACE) (e_lift (ret ())) (e_then (block_item g cb) (\<lambda>_. block_rounds k g cb))"

definition parse_top_level_declarations :: "grammar \<Rightarrow> program_item parser \<Rightarrow> unit emitter" where
  "parse_top_level_declarations g cb st = block_rounds (Suc (length (ps_tokens st))) g cb st"

definition braced_program :: "grammar \<Rightarrow> program_item parser \<Rightarrow> program_item list parser" where
  "braced_program g cb =
     pbind (p_expect (esperado ''{'') T_LBRACE) (\<lambda>_.
     pbind (e_own (parse_top_level_declarations g cb)) (\<lambda>ds.
     pbind (p_expect (esperado ''}'') T_RBRACE) (\<lambda>_. ret ds)))"

definition compile_time_block :: "grammar \<Rightarrow> program_item parser \<Rightarrow> program_item parser" where
  "compile_time_block g cb =
     pbind (p_expect (esperado ''if'') T_IF) (\<lambda>_.
     pbind (p_if (p_match T_CONST_EXPR) (ret CT_ConstExpr)
             (p_if (p_match T_CONST_EVAL) (ret CT_ConstEval) (ret CT_ConstExpr))) (\<lambda>kind.
     pbind (parse_expression g) (\<lambda>e.
     pbind (braced_program g cb) (\<lambda>ds.
     pbind (p_if (p_match T_ELSE)
              (p_if (p_check T_IF)
                 (pbind cb (\<lambda>d. ret (Some [d])))
                 (pbind (braced_program g cb) (\<lambda>es. ret (Some es))))
              (ret None)) (\<lambda>els. ret (D_If e kind ds els))))))"

primrec compile_time_at :: "nat \<Rightarrow> grammar \<Rightarrow> program_item parser" where
  "compile_time_at 0 g = (\<lambda>st. P_Fuel)"
| "compile_time_at (Suc k) g = compile_time_block g (compile_time_at k g)"

definition parse_compile_time_block :: "grammar \<Rightarrow> program_item parser" where
  "parse_compile_time_block g = with_rounds (\<lambda>k. compile_time_at k g)"

section \<open>The program\<close>

text \<open>A struct without a name may be the return type of the function behind it.\<close>

definition anonymous_prefix :: string where
  "anonymous_prefix = ''__anon_struct_''"

definition struct_item :: "grammar \<Rightarrow> unit emitter" where
  "struct_item g =
     e_then (e_lift (parse_struct g)) (\<lambda>d.
     e_then (e_emit (D_Struct d)) (\<lambda>_.
     let n = token_name (sd_name d)
     in e_if (if take (length anonymous_prefix) n = anonymous_prefix then p_check T_IDENTIFIER else ret False)
          (e_add D_Function (parse_function_with_type g (struct_type n)))
          (e_lift (ret ()))))"

definition namespace_item :: "grammar \<Rightarrow> unit emitter" where
  "namespace_item g =
     e_then (e_lift p_mark) (\<lambda>saved.
     e_then (e_lift p_advance) (\<lambda>_.
     let block = e_then (e_lift (p_reset saved)) (\<lambda>_. e_add D_Namespace (parse_namespace g))
     in e_if (p_check T_IDENTIFIER)
          (e_then (e_lift parse_qualified_name) (\<lambda>q.
           e_if (p_match T_SEMICOLON) (e_emit (D_FileNamespace (qualified_toString q))) block))
          block))"

definition program_item_of :: "grammar \<Rightarrow> unit emitter" where
  "program_item_of g =
     e_if (p_check T_IMPORT) (e_add D_Import parse_import)
    (e_if (p_check T_EXTERN) emit_extern
    (e_if (p_check T_NAMESPACE) (namespace_item g)
    (e_if (p_check T_ENUM) (e_add D_Enum (parse_enum g))
    (e_if (p_check T_INTERFACE) (e_add D_Interface (parse_interface g))
    (e_if (p_check T_IMPL) (e_add D_Impl (parse_impl g))
    (e_if (p_check T_LBRACKET)
       (e_then (e_lift p_mark) (\<lambda>saved.
        e_then (e_lift parse_attributes) (\<lambda>as.
        e_if (p_check_any constant_start)
          (parse_constexpr_declaration g as)
          (e_then (e_lift (p_reset saved)) (\<lambda>_. struct_item g)))))
    (e_if (p_check_any [T_STRUCT, T_LBRACE]) (struct_item g)
    (e_if (p_check_any constant_start) (parse_constexpr_declaration g [])
    (e_if (p_check T_IF) (e_add id (parse_compile_time_block g))
    (e_if (p_check T_MACRO) macro_item
    (e_if starts_static (e_add D_Static (parse_static_var g))
    (e_if (p_check T_UNSAFE) (e_then (e_lift p_advance) (\<lambda>_. function_item g))
    (e_if (checkContextual ''attribute'') (e_add D_Attribute parse_attribute_declaration)
    (e_if (p_check T_ASYNC) (e_add D_Function (async_function g))
       (function_item g)))))))))))))))"

text \<open>
  The loop of \<^verbatim>\<open>parse\<close>: an error is recorded and the parser goes on at the next place it can recover
  at. The result holds the declarations and the errors.
\<close>

fun parse_rounds ::
  "nat \<Rightarrow> grammar \<Rightarrow> program_item list \<Rightarrow> compile_error list \<Rightarrow> (program_item list \<times> compile_error list) parser" where
  "parse_rounds 0 g ds es = (\<lambda>st. P_Fuel)"
| "parse_rounds (Suc k) g ds es =
     p_if p_isAtEnd (ret (ds, es))
       (\<lambda>st. case program_item_of g st of
          (new, P_Ok x st') \<Rightarrow> parse_rounds k g (ds @ new) es st'
        | (new, P_Error e st') \<Rightarrow> pbind synchronize (\<lambda>_. parse_rounds k g (ds @ new) (es @ [e])) st'
        | (new, P_Raise e) \<Rightarrow> P_Raise e
        | (new, P_Abort) \<Rightarrow> P_Abort
        | (new, P_Undefined) \<Rightarrow> P_Undefined
        | (new, P_Fuel) \<Rightarrow> P_Fuel)"

definition parse_with :: "grammar \<Rightarrow> (program_item list \<times> compile_error list) parser" where
  "parse_with g = with_rounds (\<lambda>k. parse_rounds k g [] [])"

text \<open>\<^verbatim>\<open>parse\<close> with expressions and statements nested to the depth \<open>k\<close>.\<close>

definition parse_program :: "nat \<Rightarrow> (program_item list \<times> compile_error list) parser" where
  "parse_program k = parse_with (grammar_at k)"

end
