(* ===== verification/Parser_Program_Total.thy ===== *)
theory Parser_Program_Total
  imports Parser_Total Parser_Program
begin

text \<open>
  The calculus of \<^verbatim>\<open>Parser_Safe\<close> for declarations, and the loop of \<^verbatim>\<open>parse\<close>: after an error the parser
  recovers at a later token, so the loop ends.
\<close>

section \<open>Attributes, parameters and clauses\<close>

lemma rounds_of: "(\<lambda>st. F (Suc (length (ps_tokens st))) st) = with_rounds F"
  by (simp add: fun_eq_iff with_rounds_def)

lemma safe_conversion [safe_intro]:
  "(\<And>x. safe f anywhere d S k (q x)) \<Longrightarrow> safe f P d S k (pbind (lift_conversion r) q)"
  by (rule safe_pass [where R = anything]) (auto simp: safe_def wp_def lands_def lift_conversion_def split: sum.split)

lemma safe_next_type [safe_intro]:
  "safe f P False anything k (p_next_is tys)"
  by (rule safe_next_is)

lemma safe_dotted: "n \<le> j \<Longrightarrow> safe f P False anything n (dotted_rounds j v)"
proof (induction j arbitrary: n v P)
  case (Suc j)
  then show ?case unfolding dotted_rounds.simps by (intro safe_intro) auto
qed (simp add: safe_zero)

lemma safe_do_dotted [safe_intro]:
  "(\<And>x. safe f anywhere d S n (q x)) \<Longrightarrow> safe f P d S n (pbind (dotted_from v) q)"
  unfolding dotted_from_def by (intro safe_do_rounds safe_dotted)

lemma safe_barred: "n \<le> j \<Longrightarrow> safe f P False anything n (barred_rounds j v)"
proof (induction j arbitrary: n v P)
  case (Suc j)
  then show ?case unfolding barred_rounds.simps by (intro safe_intro) auto
qed (simp add: safe_zero)

lemma safe_word: "safe f P True anything n (attribute_word msg)"
  unfolding attribute_word_def by (intro safe_barred safe_intro) auto

lemma safe_attribute_value: "safe f P True anything n attribute_literal_of"
  unfolding attribute_literal_of_def by (intro safe_eat [OF safe_word] safe_intro) auto

lemma safe_attribute_arg: "safe f P True anything n attribute_arg_of"
proof -
  have "safe f anywhere False anything n (p_if (p_if (p_check T_IDENTIFIER) (p_next_is [T_EQUAL]) (ret False))
      (pbind p_advance (\<lambda>t. pbind p_advance (\<lambda>_. ret (Some (t_value t))))) (ret None))"
    by (intro safe_p_if safe_do_advance_any safe_intro) auto
  then show ?thesis
    unfolding attribute_arg_of_def
    by (intro safe_do_here safe_pass safe_eat [OF safe_attribute_value] safe_intro) auto
qed

lemma safe_attribute_args: "n \<le> j \<Longrightarrow> safe f P False anything n (attribute_args j as)"
proof (induction j arbitrary: n as P)
  case (Suc j)
  then show ?case unfolding attribute_args.simps by (intro safe_eat [OF safe_attribute_arg] safe_intro) auto
qed (simp add: safe_zero)

lemma safe_name_rest: "n \<le> j \<Longrightarrow> safe f P False anything n (attribute_name_rest j v)"
proof (induction j arbitrary: n v P)
  case (Suc j)
  then show ?case unfolding attribute_name_rest.simps by (intro safe_intro) auto
qed (simp add: safe_zero)

lemma safe_attribute_usage: "safe f P True anything n attribute_usage_of"
  unfolding attribute_usage_of_def by (intro safe_attribute_args safe_name_rest safe_intro) auto

lemma safe_attribute_rounds: "n \<le> j \<Longrightarrow> safe f P False anything n (attribute_rounds j as)"
proof (induction j arbitrary: n as P)
  case (Suc j)
  then show ?case unfolding attribute_rounds.simps by (intro safe_eat [OF safe_attribute_usage] safe_intro) auto
qed (simp add: safe_zero)

lemma safe_do_attributes [safe_intro]:
  "(\<And>x. safe f anywhere d S n (q x)) \<Longrightarrow> safe f P d S n (pbind parse_attributes q)"
  unfolding parse_attributes_def by (intro safe_do_rounds safe_attribute_rounds)

lemma safe_parameter_of: "safe f P True anything n (parameter_of as)"
  unfolding parameter_of_def by (intro safe_intro) auto

lemma safe_parameter: "safe f P True anything n parse_parameter"
  unfolding parse_parameter_def by (intro safe_do_attributes safe_parameter_of)

lemma safe_parameter_rounds:
  assumes "\<And>m. safe f anywhere True anything m p"
  shows "n \<le> j \<Longrightarrow> safe f P False anything n (parameter_rounds j p ps)"
proof (induction j arbitrary: n ps P)
  case (Suc j)
  then show ?case
    unfolding parameter_rounds.simps by (intro safe_do [OF assms order_refl] safe_intro) auto
qed (simp add: safe_zero)

lemma safe_parameter_list:
  assumes "\<And>m. safe f anywhere True anything m p"
  shows "safe f P d anything n (parameter_list p msg)"
  unfolding parameter_list_def by (intro safe_parameter_rounds assms safe_intro) auto

lemma safe_define_parameters: "safe f P False anything n (define_parameters ps)"
  by (induction ps arbitrary: P) (auto intro!: safe_intro)

lemma safe_do_define_parameters [safe_intro]:
  "(\<And>x. safe f anywhere d S n (q x)) \<Longrightarrow> safe f P d S n (pbind (define_parameters ps) q)"
  by (rule safe_pass [OF safe_define_parameters])

lemma safe_generic_names: "n \<le> j \<Longrightarrow> safe f P False anything n (generic_names j ps)"
proof (induction j arbitrary: n ps P)
  case (Suc j)
  then show ?case unfolding generic_names.simps by (intro safe_intro) auto
qed (simp add: safe_zero)

lemma safe_generic_list: "safe f P False anything n generic_list"
  unfolding generic_list_def
  by (intro safe_generic_names safe_pass [OF safe_expect_greater] safe_intro) auto

lemma safe_constraints: "n \<le> j \<Longrightarrow> safe f P False anything n (parse_constraints j cs)"
proof (induction j arbitrary: n cs P)
  case (Suc j)
  then show ?case unfolding parse_constraints.simps as_p_if by (intro safe_intro) auto
qed (simp add: safe_zero)

lemma safe_where_clause: "safe f P True anything n (parse_where_clause ps)"
  unfolding parse_where_clause_def rounds_of [of "\<lambda>k. parse_constraints k []"]
  by (intro safe_constraints safe_intro) auto

lemma safe_where_rounds: "n \<le> j \<Longrightarrow> safe f P False anything n (where_rounds j ps)"
proof (induction j arbitrary: n ps P)
  case (Suc j)
  then show ?case unfolding where_rounds.simps by (intro safe_eat [OF safe_where_clause] safe_intro) auto
qed (simp add: safe_zero)

lemma safe_do_generics [safe_intro]:
  "(\<And>x. safe f anywhere d S n (q x)) \<Longrightarrow> safe f P d S n (pbind generic_list q)"
  "(\<And>x. safe f anywhere d S n (q x)) \<Longrightarrow> safe f P d S n (pbind (where_clauses ps) q)"
  unfolding where_clauses_def
  by (rule safe_pass [OF safe_generic_list], assumption, intro safe_do_rounds safe_where_rounds)

lemma safe_register [safe_intro]:
  "(\<And>x. safe f anywhere d S n (q x)) \<Longrightarrow> safe f P d S n (pbind (registerKnownType w) q)"
  by (rule safe_pass [where R = anything])
    (auto simp: safe_def wp_def lands_def registerKnownType_def define_struct_def reaches_def source_ok_def parser_ok_def)

lemma safe_define_generics: "safe f P False anything n (define_generics ps)"
  by (induction ps arbitrary: P) (auto intro!: safe_intro)

lemma safe_do_define_generics [safe_intro]:
  "(\<And>x. safe f anywhere d S n (q x)) \<Longrightarrow> safe f P d S n (pbind (define_generics ps) q)"
  by (rule safe_pass [OF safe_define_generics])

lemma safe_modifiers_loop: "n \<le> j \<Longrightarrow> safe f P False anything n (parse_modifiers_loop j ms)"
proof (induction j arbitrary: n ms P)
  case (Suc j)
  then show ?case unfolding parse_modifiers_loop.simps as_p_if by (intro safe_intro) auto
qed (simp add: safe_zero)

lemma safe_do_modifiers [safe_intro]:
  "(\<And>x. safe f anywhere d S n (q x)) \<Longrightarrow> safe f P d S n (pbind parse_modifiers q)"
proof -
  have eq: "parse_modifiers = with_rounds (\<lambda>k. parse_modifiers_loop k [])"
    by (simp add: fun_eq_iff parse_modifiers_def with_rounds_def)
  show "safe f P d S n (pbind parse_modifiers q)" if "\<And>x. safe f anywhere d S n (q x)"
    unfolding eq by (intro safe_do_rounds safe_modifiers_loop that)
qed

lemma safe_throws: "safe f P False anything n parse_throws_clause"
  unfolding parse_throws_clause_def rounds_of [of "\<lambda>k. parse_type_list k []"] as_p_if
  by (intro safe_type_list safe_intro) auto

lemma safe_do_throws [safe_intro]:
  "(\<And>x. safe f anywhere d S n (q x)) \<Longrightarrow> safe f P d S n (pbind parse_throws_clause q)"
  by (rule safe_pass [OF safe_throws])

section \<open>Tokens a file does not have\<close>

definition lacks :: "source \<Rightarrow> token_type \<Rightarrow> bool" where
  "lacks f ty \<longleftrightarrow> \<not> list_ex (\<lambda>t. t_type t = ty) (snd f)"

lemma lacks_here: "lacks f ty \<Longrightarrow> source_ok f st \<Longrightarrow> t_type (current_token st) \<noteq> ty"
  unfolding lacks_def list_ex_iff source_ok_def parser_ok_def current_token_def by (metis nth_mem)

lemma safe_p_if_operator [safe_intro]:
  assumes "has_operator f \<Longrightarrow> safe f anywhere False R (k - 1) p" "safe f P d R k q"
  shows "safe f P d R k (p_if (p_match T_OPERATOR) p q)"
proof (cases "has_operator f")
  case True
  then show ?thesis using assms by (intro safe_p_if_match) simp_all
next
  case False
  then have "lacks f T_OPERATOR" by (simp add: lacks_def has_operator_def)
  then have "p_if (p_match T_OPERATOR) p q st = q st" if "source_ok f st" for st
    using p_match_plain [OF that, of T_OPERATOR] lacks_here [OF _ that, of T_OPERATOR]
    by (simp add: p_if_def pbind_def)
  then show ?thesis using assms(2) by (simp add: safe_def wp_def)
qed

lemma p_check_unsplit:
  "source_ok f st \<Longrightarrow> \<not> splits (snd f) \<Longrightarrow> ty \<noteq> T_END_OF_FILE
     \<Longrightarrow> p_check ty st = P_Ok (t_type (current_token st) = ty) st"
  by (auto simp: p_check_def p_isAtEnd_def p_peek_def pbind_def ret_def source_ok_def parser_ok_def current_token_def)

lemma expect_any_unsplit:
  assumes "source_ok f st" "\<not> splits (snd f)" "T_END_OF_FILE \<notin> set tys"
  shows "p_expect_any m tys st = (if t_type (current_token st) \<in> set tys then p_advance st else p_unexpected m st)"
  using assms(3) by (induction tys) (auto simp: pbind_def p_check_unsplit [OF assms(1,2)])

lemma safe_operator_token:
  assumes "has_operator f"
  shows "safe f P True (\<lambda>t. token_ok f t \<and> t_type t \<in> set operator_tokens) n (p_expect_any m operator_tokens)"
proof (rule safeI)
  fix st assume st: "source_ok f st"
  then have ns: "\<not> splits (snd f)" using assms unfolding source_ok_def tokens_ok_def by blast
  note e = expect_any_unsplit [OF st ns, of operator_tokens m]
  let ?Q = "\<lambda>t. token_ok f t \<and> t_type t \<in> set operator_tokens"
  show "wp (p_expect_any m operator_tokens) (lands True ?Q st) (\<lambda>e. fails_at st) st"
  proof (cases "t_type (current_token st) \<in> set operator_tokens")
    case True
    then have "next_in operator_tokens st" by (simp add: next_in_def)
    with True show ?thesis
      using safeD [OF safe_advance st, of operator_tokens "remaining st"] e by (simp add: wp_def operator_tokens_def)
  next
    case False
    then have "p_expect_any m operator_tokens st = p_unexpected m st"
      using e by (simp add: operator_tokens_def)
    then show ?thesis
      using wp_unexpected [OF ok_parser [OF st]] st by (simp add: wp_def)
  qed
qed

lemma operator_named: "ty \<in> set operator_tokens \<Longrightarrow> operator_token_to_canonical_name ty \<noteq> []"
  by (auto simp: operator_tokens_def operator_token_to_canonical_name_def operator_names_def)

lemma safe_named_last [safe_intro]:
  "w \<noteq> [] \<Longrightarrow> loc_ok f l \<Longrightarrow> \<not> d \<Longrightarrow> (\<And>i. ident_ok f i \<Longrightarrow> R i) \<Longrightarrow> safe f P d R k (named_ident w l)"
  by (simp add: safe_def wp_def lands_def named_ident_def ident_ok_def)

lemma safe_operator_name: "has_operator f \<Longrightarrow> safe f P True anything n operator_name"
proof -
  assume op: "has_operator f"
  have "safe f P False anything n is_index_kind" for n P
    unfolding is_index_kind_def by (intro safe_intro) auto
  then show ?thesis
    unfolding operator_name_def
    by (intro safe_p_if safe_eat [OF safe_operator_token [OF op]] safe_do_advance_any safe_intro)
      (auto simp: operator_named)
qed

section \<open>Members\<close>

context good_grammar
begin

lemma safe_contract_clause:
  "n \<le> Suc k \<Longrightarrow> safe f (next_in [T_REQUIRE, T_ENSURE]) True anything n (parse_contract_clause g)"
  unfolding parse_contract_clause_def contract_error_def
  by (intro do_expression do_block_now safe_intro) auto

lemma safe_contract_rounds: "n \<le> j \<Longrightarrow> n \<le> Suc k \<Longrightarrow> safe f P False anything n (contract_rounds j g cs)"
proof (induction j arbitrary: n cs P)
  case (Suc j)
  then show ?case
    unfolding contract_rounds.simps by (intro safe_eat [OF safe_contract_clause] safe_intro) auto
qed (simp add: safe_zero)

lemma safe_do_contracts:
  "n \<le> Suc k \<Longrightarrow> (\<And>x. safe f anywhere d S n (q x)) \<Longrightarrow> safe f P d S n (pbind (parse_contract_clauses g) q)"
  unfolding parse_contract_clauses_def by (intro safe_do_rounds safe_contract_rounds) simp_all

lemma safe_method_parameters: "n \<le> j \<Longrightarrow> safe f P False anything n (method_parameters j ps)"
proof (induction j arbitrary: n ps P)
  case (Suc j)
  then show ?case
    unfolding method_parameters.simps by (intro safe_eat [OF safe_parameter] safe_intro) auto
qed (simp add: safe_zero)

lemma safe_method_body:
  "n \<le> Suc k \<Longrightarrow> (\<And>P. safe f P True anything n stop) \<Longrightarrow> safe f P True anything n (method_body g stop)"
  unfolding method_body_def
  by (intro do_expression do_block_now safe_intro) (auto intro!: safe_eat safe_intro)

lemma safe_scoped_body:
  assumes "n \<le> Suc k" "\<And>P. safe f P True anything n stop"
  shows "safe f P True anything n (scoped_body g ps stop)"
proof -
  have eq: "scoped_body g ps stop = pbind p_pushScope (\<lambda>_.
      pbind (pbind (define_parameters ps) (\<lambda>_. method_body g stop)) (\<lambda>b. pbind p_popScope (\<lambda>_. ret b)))"
    unfolding scoped_body_def by (simp add: pbind_assoc)
  show ?thesis
    unfolding eq
    by (rule safe_scoped [where b = True and R = anything and d = False])
      (use assms in \<open>auto intro!: safe_method_body safe_intro\<close>)
qed

lemma safe_method_head: "safe f P True anything n method_head"
  unfolding method_head_def
  by (intro safe_method_parameters safe_intro) auto

lemma safe_method: "n \<le> Suc k \<Longrightarrow> safe f P True anything n (parse_method g b)"
  unfolding parse_method_def
  by (intro safe_eat [OF safe_method_head] safe_do_contracts safe_pass [OF safe_any [OF safe_scoped_body]] safe_intro) auto

lemma safe_operator: "n \<le> Suc k \<Longrightarrow> has_operator f \<Longrightarrow> safe f P True anything n (parse_operator g b)"
  unfolding parse_operator_def
  by (intro safe_eat [OF safe_operator_name] safe_pass [OF safe_parameter_list [OF safe_parameter]]
      safe_pass [OF safe_any [OF safe_scoped_body]] safe_intro) auto

end

section \<open>Going back to a mark\<close>

text \<open>
  \<open>marked f k e b R s p\<close>: \<open>p\<close>, run anywhere behind the mark \<open>s\<close>, and a token behind it if \<open>e\<close>, ends
  where a parser started at the mark may end.
\<close>

definition marked ::
  "source \<Rightarrow> nat \<Rightarrow> bool \<Rightarrow> bool \<Rightarrow> ('a \<Rightarrow> bool) \<Rightarrow> nat \<Rightarrow> 'a parser \<Rightarrow> bool" where
  "marked f k e b R s p \<longleftrightarrow>
     (\<forall>st st'. source_ok f st \<longrightarrow> ps_current st = s \<longrightarrow> remaining st \<le> k \<longrightarrow> reaches st st'
        \<longrightarrow> (e \<longrightarrow> ps_current st < ps_current st') \<longrightarrow> wp p (lands b R st) (\<lambda>e. fails_at st) st')"

lemma markedI:
  "(\<And>st st'. source_ok f st \<Longrightarrow> ps_current st = s \<Longrightarrow> remaining st \<le> k \<Longrightarrow> reaches st st'
     \<Longrightarrow> (e \<Longrightarrow> ps_current st < ps_current st') \<Longrightarrow> wp p (lands b R st) (\<lambda>e. fails_at st) st')
     \<Longrightarrow> marked f k e b R s p"
  by (simp add: marked_def)

lemma safe_mark:
  assumes "\<And>s. marked f k False b R s (q s)"
  shows "safe f P b R k (pbind p_mark q)"
proof (rule safeI)
  fix st assume st: "source_ok f st" "remaining st \<le> k"
  have "wp (q (ps_current st)) (lands b R st) (\<lambda>e. fails_at st) st"
    using assms [of "ps_current st"] st by (simp add: marked_def)
  then show "wp (pbind p_mark q) (lands b R st) (\<lambda>e. fails_at st) st"
    by (simp add: wp_def pbind_def p_mark_def)
qed

lemma marked_remaining:
  assumes "remaining st \<le> k" "reaches st st'" "e \<Longrightarrow> ps_current st < ps_current st'"
  shows "remaining st' \<le> (if e then k - 1 else k)"
  using reaches_remaining [OF assms(2)] reaches_less [OF assms(2)] assms(1,3) by fastforce

lemma marked_safe:
  assumes "safe f anywhere c R (if e then k - 1 else k) p" "b \<Longrightarrow> c \<or> e"
  shows "marked f k e b R s p"
proof (rule markedI)
  fix st st' assume st: "source_ok f st" "remaining st \<le> k" "reaches st st'" "e \<Longrightarrow> ps_current st < ps_current st'"
  show "wp p (lands b R st) (\<lambda>e. fails_at st) st'"
    by (rule wp_lands [OF safeD [OF assms(1)] st(3)])
      (use st reaches_ok marked_remaining assms(2) in auto)
qed

lemma marked_behind: "safe f anywhere c R (k - 1) p \<Longrightarrow> marked f k True b R s p"
  by (rule marked_safe [where c = c]) simp_all

lemma marked_front: "safe f anywhere b R k p \<Longrightarrow> marked f k False b R s p"
  by (rule marked_safe [where c = b]) simp_all

lemma marked_reset:
  assumes "safe f anywhere b R k q"
  shows "marked f k e b R s (pbind (p_reset s) (\<lambda>_. q))"
proof (rule markedI)
  fix st st' assume st: "source_ok f st" "ps_current st = s" "remaining st \<le> k" "reaches st st'"
  let ?st = "st'\<lparr>ps_current := s\<rparr>"
  have r: "reaches st ?st" using st by (auto simp: reaches_def source_ok_def parser_ok_def)
  have "wp q (lands b R st) (\<lambda>e. fails_at st) ?st"
    by (rule wp_lands [OF safeD [OF assms] r])
      (use st reaches_ok [OF st(1) r] reaches_remaining [OF r] in auto)
  then show "wp (pbind (p_reset s) (\<lambda>_. q)) (lands b R st) (\<lambda>e. fails_at st) st'"
    by (simp add: wp_def pbind_def p_reset_def)
qed

lemma marked_bind:
  assumes "safe f anywhere c Q (if e then k - 1 else k) p" "\<And>x. Q x \<Longrightarrow> marked f k (e \<or> c) b R s (q x)"
  shows "marked f k e b R s (pbind p q)"
proof (rule markedI)
  fix st st' assume st: "source_ok f st" "ps_current st = s" "remaining st \<le> k" "reaches st st'"
    "e \<Longrightarrow> ps_current st < ps_current st'"
  have p: "wp p (lands c Q st') (\<lambda>e. fails_at st') st'"
    by (rule safeD [OF assms(1)]) (use st reaches_ok marked_remaining in auto)
  have q: "wp (q x) (lands b R st) (\<lambda>e. fails_at st) st''" if l: "lands c Q st' x st''" for x st''
  proof -
    have r: "reaches st st''" using l st(4) reaches_further by (auto simp: lands_def)
    moreover have "ps_current st < ps_current st''" if "e \<or> c"
      using that l st(4,5) by (auto simp: lands_def reaches_def)
    ultimately show ?thesis
      using assms(2) [of x] l st by (auto simp: marked_def lands_def)
  qed
  have "wp p (\<lambda>x. wp (q x) (lands b R st) (\<lambda>e. fails_at st)) (\<lambda>e. fails_at st) st'"
    by (rule wp_conseq_both [OF p q fails_trans [OF st(4)]])
  then show "wp (pbind p q) (lands b R st) (\<lambda>e. fails_at st) st'" by simp
qed

named_theorems marked_intro

declare marked_reset [marked_intro]

lemma marked_eat:
  "safe f anywhere True Q (if e then k - 1 else k) p \<Longrightarrow> (\<And>x. Q x \<Longrightarrow> marked f k True b R s (q x))
     \<Longrightarrow> marked f k e b R s (pbind p q)"
  by (rule marked_bind [where c = True and Q = Q]) auto

lemma marked_pass:
  "safe f anywhere False Q (if e then k - 1 else k) p \<Longrightarrow> (\<And>x. Q x \<Longrightarrow> marked f k e b R s (q x))
     \<Longrightarrow> marked f k e b R s (pbind p q)"
  by (rule marked_bind [where c = False and Q = Q]) auto

lemma marked_p_if [marked_intro]:
  "safe f anywhere False anything (if e then k - 1 else k) c \<Longrightarrow> marked f k e b R s p \<Longrightarrow> marked f k e b R s q
     \<Longrightarrow> marked f k e b R s (p_if c p q)"
  unfolding p_if_def by (rule marked_pass) auto

lemma marked_cond [marked_intro]:
  "(c \<Longrightarrow> marked f k e b R s p) \<Longrightarrow> (\<not> c \<Longrightarrow> marked f k e b R s q) \<Longrightarrow> marked f k e b R s (if c then p else q)"
  by simp

lemma marked_error [marked_intro]: "marked f k e b R s (parser_error c m l)"
  by (rule marked_safe [where c = True]) (simp_all add: safe_error)

lemma marked_do_type [marked_intro]:
  "(\<And>t. marked f k True b R s (q t)) \<Longrightarrow> marked f k e b R s (pbind parse_type q)"
  by (rule marked_eat [OF safe_parse_type])

lemma marked_do_match [marked_intro]:
  "(\<And>x. marked f k e b R s (q x)) \<Longrightarrow> marked f k e b R s (pbind (p_match ty) q)"
  by (rule marked_pass [OF safe_match])

lemma marked_do_expect [marked_intro]:
  "ty \<noteq> T_END_OF_FILE \<Longrightarrow> ty \<noteq> T_GREATER \<Longrightarrow> (\<And>t. token_ok f t \<and> t_type t = ty \<Longrightarrow> marked f k True b R s (q t))
     \<Longrightarrow> marked f k e b R s (pbind (p_expect m ty) q)"
  by (rule marked_eat [OF safe_expect])

lemma marked_do_source [marked_intro]:
  "nameable f t \<Longrightarrow> (\<And>i. ident_ok f i \<Longrightarrow> marked f k e b R s (q i))
     \<Longrightarrow> marked f k e b R s (pbind (makeSourceIdentifier t) q)"
  by (rule marked_pass [OF safe_makeSourceIdentifier])

lemma safe_modifiers: "safe f P False anything n parse_modifiers"
proof -
  have eq: "parse_modifiers = with_rounds (\<lambda>k. parse_modifiers_loop k [])"
    by (simp add: fun_eq_iff parse_modifiers_def with_rounds_def)
  show ?thesis unfolding eq by (intro safe_rounds safe_modifiers_loop)
qed

lemma marked_do_modifiers [marked_intro]:
  "(\<And>x. marked f k e b R s (q x)) \<Longrightarrow> marked f k e b R s (pbind parse_modifiers q)"
  by (rule marked_pass [OF safe_modifiers])

section \<open>Structs, interfaces, enums and implementations\<close>

context good_grammar
begin

lemma safe_accessor: "n \<le> Suc k \<Longrightarrow> safe f P True anything n (accessor g w l)"
  unfolding accessor_def by (intro do_expression do_block_now safe_intro) auto

lemma safe_property_rounds: "n \<le> j \<Longrightarrow> n \<le> Suc k \<Longrightarrow> safe f P False anything n (property_rounds j g p)"
proof (induction j arbitrary: n p P)
  case (Suc j)
  then show ?case
    unfolding property_rounds.simps
    by (intro safe_p_if safe_at_close safe_do_advance_any safe_eat [OF safe_accessor] safe_intro) auto
qed (simp add: safe_zero)

lemma safe_property: "n \<le> Suc k \<Longrightarrow> safe f P True anything n (parse_property g t i)"
  unfolding parse_property_def
  by (intro safe_property_rounds safe_intro) auto

lemma p_if_match_single: "p_if (p_match ty) p q = p_if (p_match_any [ty]) p q"
  by (auto simp: fun_eq_iff p_if_def pbind_def ret_def split: outcome.split)

lemma safe_do_random [safe_intro]:
  "(\<And>x. safe f anywhere d S n (q x)) \<Longrightarrow> safe f P d S n (pbind next_random q)"
  by (rule safe_pass [where R = anything])
    (auto simp: safe_def wp_def lands_def next_random_def reaches_def source_ok_def parser_ok_def)

lemma safe_struct_name: "safe f P False (ident_ok f) n struct_name"
  unfolding struct_name_def p_if_match_single
  by (intro safe_makeSourceIdentifier safe_intro) auto

lemma safe_base_names: "n \<le> j \<Longrightarrow> safe f P False anything n (base_names j ns)"
proof (induction j arbitrary: n ns P)
  case (Suc j)
  then show ?case unfolding base_names.simps by (intro safe_intro) auto
qed (simp add: safe_zero)

lemma safe_struct_bases: "safe f P False anything n struct_bases"
proof -
  have names: "safe f P False anything m (pbind (with_rounds (\<lambda>k. base_names k [])) (\<lambda>ns. ret (None, ns)))" for m P
    by (intro safe_base_names safe_intro) auto
  have test: "safe f P False anything m (p_if isType (pbind (p_check T_INTERFACE) (\<lambda>b. ret (\<not> b))) (ret False))" for m P
    by (intro safe_p_if safe_isType safe_intro) auto
  show ?thesis
    unfolding struct_bases_def Let_def
    by (intro safe_p_if_match safe_p_if [OF test] safe_mark marked_do_type marked_cond marked_reset names
        marked_safe [OF safe_ret] safe_ret) auto
qed

lemma safe_do_bases [safe_intro]:
  "(\<And>x. safe f anywhere d S n (q x)) \<Longrightarrow> safe f P d S n (pbind struct_bases q)"
  by (rule safe_pass [OF safe_struct_bases])

lemma safe_constant_field: "n \<le> Suc k \<Longrightarrow> safe f P True anything n (constant_field g ty i mods)"
  unfolding constant_field_def by (intro do_expression safe_intro) auto

lemma safe_member_method:
  "n \<le> Suc k \<Longrightarrow> safe f P True anything n (pbind (parse_method g True) (\<lambda>m. ret (h m)))"
  by (intro safe_eat [OF safe_method] safe_intro) auto

lemma safe_modified_member: "n \<le> Suc k \<Longrightarrow> safe f P True anything n (modified_member g as ms)"
  unfolding modified_member_def
  by (intro safe_mark marked_do_modifiers marked_p_if marked_reset safe_member_method marked_safe [where c = True]
      safe_do_advance_any safe_eat [OF safe_constant_field] safe_intro) auto

lemma safe_constructor:
  "n \<le> Suc k \<Longrightarrow> structName (attrs ty) \<noteq> [] \<Longrightarrow> ident_ok f i \<Longrightarrow> safe f P True anything n (constructor_of g i ty)"
  unfolding constructor_of_def parameter_list_def pbind_assoc pbind_ret
  by (intro do_block_now safe_parameter_rounds safe_parameter_of safe_intro) auto

lemma p_if_guard: "p_if (if c then a else ret False) p q = (if c then p_if a p q else q)"
  by (simp add: p_if_def)

lemma marked_after_name:
  assumes "n \<le> Suc k" "ident_ok f i"
  shows "marked f n True True anything s (member_after_name g s c ty i ms)"
proof -
  have prop_case: "safe f anywhere False anything (n - 1) (pbind (parse_property g ty i) (\<lambda>p. ret (h p)))" for h :: "struct_property \<Rightarrow> struct_members"
    by (intro safe_eat [OF safe_property] safe_intro) (use assms in auto)
  have const_case: "safe f anywhere False anything (n - 1)
      (pbind p_advance (\<lambda>_. pbind (constant_field g ty i []) (\<lambda>x. ret (h x))))" for h :: "struct_field \<Rightarrow> struct_members"
    by (intro safe_do_advance_any safe_eat [OF safe_constant_field] safe_intro) (use assms in auto)
  have field_case: "safe f anywhere False anything (n - 1) (pbind (p_expect m T_SEMICOLON) (\<lambda>_. ret x))" for m and x :: struct_members
    by (intro safe_intro) auto
  show ?thesis
    unfolding member_after_name_def p_if_guard
    by (intro marked_p_if marked_reset marked_cond marked_error safe_member_method marked_behind [OF prop_case]
        marked_behind [OF const_case] marked_behind [OF field_case] safe_check_any safe_check)
      (use assms in \<open>auto intro: prop_case const_case field_case\<close>)
qed

lemma safe_plain_member:
  assumes "n \<le> Suc k" "ident_ok f i"
  shows "safe f P True anything n (plain_member g i ms)"
proof -
  have clash: "safe f anywhere True anything n (pbind p_peek (\<lambda>t. parser_error c m (h t)))" for c m and h :: "token \<Rightarrow> source_location"
    by (intro safe_intro)
  have ctor: "safe f anywhere False anything (n - 1) (pbind (constructor_of g i ty) (\<lambda>m. ret (h m)))"
    if "structName (attrs ty) = token_name i" for ty and h :: "method_declaration \<Rightarrow> struct_members"
    by (intro safe_eat [OF safe_constructor] safe_intro) (use assms that in \<open>auto simp: ident_ok_def\<close>)
  show ?thesis
    unfolding plain_member_def p_if_guard
    by (intro safe_mark marked_do_match marked_cond marked_do_type marked_p_if marked_do_expect marked_do_source
        marked_after_name marked_reset safe_member_method marked_front [OF clash] marked_behind [OF ctor])
      (use assms in \<open>auto intro!: ctor clash safe_check\<close>)
qed

lemma safe_struct_member:
  "n \<le> Suc k \<Longrightarrow> ident_ok f i \<Longrightarrow> safe f P True anything n (struct_member g i ms)"
  unfolding struct_member_def
  by (intro safe_do_attributes safe_p_if_operator safe_eat [OF safe_operator] safe_if_check_any
      safe_at [OF safe_modified_member] safe_plain_member safe_intro) auto

lemma safe_struct_rounds:
  "n \<le> j \<Longrightarrow> n \<le> Suc k \<Longrightarrow> ident_ok f i \<Longrightarrow> safe f P False anything n (struct_rounds j g i ms)"
proof (induction j arbitrary: n ms P)
  case (Suc j)
  then show ?case
    unfolding struct_rounds.simps by (intro safe_p_if safe_at_close safe_eat [OF safe_struct_member] safe_intro) auto
qed (simp add: safe_zero)

lemma safe_struct_body:
  assumes "n \<le> Suc k" "ident_ok f i"
  shows "safe f P True anything n (p_if (p_match T_LBRACE)
     (pbind (with_rounds (\<lambda>k. struct_rounds k g i ms)) (\<lambda>ms. pbind (p_expect m T_RBRACE) (\<lambda>_. ret ms)))
     (pbind (p_expect m' T_SEMICOLON) (\<lambda>_. ret ms)))"
  by (intro safe_struct_rounds safe_intro) (use assms in auto)

lemma safe_struct: "n \<le> Suc k \<Longrightarrow> safe f P True anything n (parse_struct g)"
  unfolding parse_struct_def
  by (intro safe_eat [OF safe_struct_body] safe_pass [OF safe_struct_name] safe_intro) (auto split: prod.split)

lemma safe_interface_method:
  "n \<le> Suc k \<Longrightarrow> safe f P True anything n (p_if (p_match T_OPERATOR) (parse_operator g False) (parse_method g False))"
  by (intro safe_p_if_operator safe_method safe_any [OF safe_operator]) auto

lemma safe_interface_rounds: "n \<le> j \<Longrightarrow> n \<le> Suc k \<Longrightarrow> safe f P False anything n (interface_rounds j g ms)"
proof (induction j arbitrary: n ms P)
  case (Suc j)
  then show ?case
    unfolding interface_rounds.simps
    by (intro safe_p_if safe_at_close safe_eat [OF safe_interface_method] safe_intro) auto
qed (simp add: safe_zero)

lemma safe_interface: "n \<le> Suc k \<Longrightarrow> safe f P True anything n (parse_interface g)"
  unfolding parse_interface_def
  by (intro safe_interface_rounds safe_intro) auto

lemma safe_enum_fields: "n \<le> j \<Longrightarrow> safe f P False anything n (enum_fields j fs)"
proof (induction j arbitrary: n fs P)
  case (Suc j)
  then show ?case unfolding enum_fields.simps by (intro safe_intro) auto
qed (simp add: safe_zero)

lemma safe_enum_payload: "n \<le> Suc k \<Longrightarrow> safe f P False anything n (enum_payload g b)"
proof -
  assume n: "n \<le> Suc k"
  have paren: "safe f P False anything m open_paren" for m P
    unfolding open_paren_def by (intro safe_intro) auto
  note listed = subparser.safe_expression_list [OF subparser.intro [OF safe_expression]]
  show ?thesis
    unfolding enum_payload_def
    by (intro safe_p_if [OF paren] safe_pass [OF safe_rounds [OF listed]] safe_type_list safe_intro)
      (use n in auto)
qed

lemma safe_enum_values: "n \<le> j \<Longrightarrow> n \<le> Suc k \<Longrightarrow> safe f P False anything n (enum_values j g b vs)"
proof (induction j arbitrary: n vs P)
  case (Suc j)
  then show ?case
    unfolding enum_values.simps by (intro safe_pass [OF safe_enum_payload] safe_intro) auto
qed (simp add: safe_zero)

lemma safe_enum: "n \<le> Suc k \<Longrightarrow> safe f P True anything n (parse_enum g)"
  unfolding parse_enum_def
  by (intro safe_enum_fields safe_enum_values safe_intro) auto

lemma safe_interface_names: "n \<le> j \<Longrightarrow> safe f P False anything n (interface_names j ns)"
proof (induction j arbitrary: n ns P)
  case (Suc j)
  then show ?case
    unfolding interface_names.simps by (intro safe_if_check safe_do_advance_any safe_do_type safe_intro) auto
qed (simp add: safe_zero)

lemma safe_impl_head: "safe f P True anything n impl_head"
  unfolding impl_head_def by (intro safe_interface_names safe_type_list safe_intro) auto

lemma safe_impl_field: "n \<le> Suc k \<Longrightarrow> safe f P True anything n (impl_field g ty i c mods)"
  unfolding impl_field_def by (intro do_expression safe_intro) auto

lemma safe_member_field:
  "n \<le> Suc k \<Longrightarrow> safe f P d anything n (pbind (impl_field g ty i c mods) (\<lambda>m. ret (h m)))"
  by (intro safe_eat [OF safe_impl_field] safe_intro) auto

lemma marked_impl_method: "n \<le> Suc k \<Longrightarrow> marked f n e True anything s (impl_method g s as ms)"
  unfolding impl_method_def by (intro marked_reset safe_member_method)

text \<open>A check tells the type of the token that is consumed.\<close>

lemma marked_check_advance:
  assumes "\<And>t. token_ok f t \<and> t_type t = ty \<Longrightarrow> marked f n True b R s (q t)" "marked f n e b R s r"
    "ty \<noteq> T_GREATER" "ty \<noteq> T_END_OF_FILE"
  shows "marked f n e b R s (p_if (p_check ty) (pbind p_advance q) r)"
proof (rule markedI)
  fix st st' assume st: "source_ok f st" "ps_current st = s" "remaining st \<le> n" "reaches st st'"
    "e \<Longrightarrow> ps_current st < ps_current st'"
  have ok: "source_ok f st'" using st reaches_ok by blast
  show "wp (p_if (p_check ty) (pbind p_advance q) r) (lands b R st) (\<lambda>e. fails_at st) st'"
  proof (cases "t_type (current_token st') = ty")
    case True
    let ?st = "st'\<lparr>ps_current := Suc (ps_current st')\<rparr>"
    have e: "t_type (current_token st') \<noteq> T_END_OF_FILE" using True assms(4) by simp
    have r: "reaches st ?st" using step_reaches [OF ok e] st(4) reaches_further by blast
    have "marked f n True b R s (q (current_token st'))" using assms(1) current_ok [OF ok] True by blast
    then have "wp (q (current_token st')) (lands b R st) (\<lambda>e. fails_at st) ?st"
      using st r by (auto simp: marked_def reaches_def)
    then show ?thesis
      using True p_check_plain [OF ok assms(3,4)] p_advance_plain [OF ok e] by (simp add: wp_def p_if_def pbind_def)
  next
    case False
    then show ?thesis
      using assms(2) st p_check_plain [OF ok assms(3,4)] by (simp add: marked_def wp_def p_if_def pbind_def)
  qed
qed

lemma marked_plain_field:
  "n \<le> Suc k \<Longrightarrow> nameable f t \<Longrightarrow> marked f n True True anything s (p_if (p_check_any [T_SEMICOLON, T_EQUAL])
     (pbind (makeSourceIdentifier t) (\<lambda>i. pbind (impl_field g ty i False []) (\<lambda>x. ret (add_field ms x))))
     (impl_method g s as ms))"
  by (intro marked_p_if marked_do_source marked_impl_method marked_behind [OF safe_member_field] safe_check_any) auto

lemma marked_impl_rest:
  "n \<le> Suc k \<Longrightarrow> marked f n True True anything s (p_if (p_check T_IDENTIFIER) (pbind p_advance (\<lambda>t.
     p_if (p_check_any [T_SEMICOLON, T_EQUAL])
       (pbind (makeSourceIdentifier t) (\<lambda>i. pbind (impl_field g ty i False []) (\<lambda>x. ret (add_field ms x))))
       (impl_method g s as ms))) (impl_method g s as ms))"
  by (rule marked_check_advance) (auto intro: marked_plain_field marked_impl_method)

lemma safe_impl_member: "n \<le> Suc k \<Longrightarrow> safe f P True anything n (impl_member g ms)"
  unfolding impl_member_def
  by (intro safe_do_attributes safe_p_if_operator safe_eat [OF safe_operator] safe_mark marked_do_modifiers
      marked_do_match marked_cond marked_do_type marked_impl_rest marked_do_expect marked_do_source
      marked_impl_method marked_behind [OF safe_member_field] safe_retI) auto

lemma safe_impl_rounds: "n \<le> j \<Longrightarrow> n \<le> Suc k \<Longrightarrow> safe f P False anything n (impl_rounds j g ms)"
proof (induction j arbitrary: n ms P)
  case (Suc j)
  then show ?case
    unfolding impl_rounds.simps by (intro safe_p_if safe_at_close safe_eat [OF safe_impl_member] safe_intro) auto
qed (simp add: safe_zero)

lemma safe_impl: "n \<le> Suc k \<Longrightarrow> safe f P True anything n (parse_impl g)"
  unfolding parse_impl_def
  by (intro safe_eat [OF safe_impl_head] safe_impl_rounds safe_intro) auto

section \<open>Functions, constants and blocks\<close>

lemma safe_function_rest: "n \<le> Suc k \<Longrightarrow> nameable f t \<Longrightarrow> safe f P True anything n (function_rest g ty t)"
proof -
  assume n: "n \<le> Suc k" "nameable f t"
  have eq: "function_rest g ty t = pbind p_pushScope (\<lambda>_.
     pbind (pbind parse_parameters (\<lambda>ps. pbind (define_parameters ps) (\<lambda>_.
       pbind parse_throws_clause (\<lambda>(any, types). pbind (parse_contract_clauses g) (\<lambda>cs.
       pbind (parse_block g) (\<lambda>body. ret (ps, any, types, cs, body)))))))
     (\<lambda>x. pbind p_popScope (\<lambda>_. case x of (ps, any, types, cs, body) \<Rightarrow> pbind (makeSourceIdentifier t) (\<lambda>i.
       ret \<lparr>fd_returnType = ty, fd_name = i, fd_parameters = ps, fd_body = body, fd_isAsync = False,
          fd_constExpr = False, fd_constEval = False, fd_throwsAny = any, fd_throwsTypes = types,
          fd_contracts = cs\<rparr>))))"
    unfolding function_rest_def by (simp add: pbind_assoc case_prod_beta')
  show ?thesis
    unfolding eq parse_parameters_def
    by (rule safe_scoped [where b = True and R = anything and d = False])
      (use n in \<open>auto intro!: safe_pass [OF safe_parameter_list [OF safe_parameter]] safe_do_contracts do_block_now safe_intro\<close>)
qed

lemma safe_function_with_type: "n \<le> Suc k \<Longrightarrow> safe f P True anything n (parse_function_with_type g ty)"
  unfolding parse_function_with_type_def
  by (intro safe_eat [OF safe_expect, THEN safe_relax] safe_eat [OF safe_expect] safe_any [OF safe_function_rest]) auto

lemma safe_function: "n \<le> Suc k \<Longrightarrow> safe f P True anything n (parse_function g)"
  unfolding parse_function_def
  by (intro safe_do_type safe_any [OF safe_function_with_type]) auto

lemma safe_static_var: "n \<le> Suc k \<Longrightarrow> safe f P True anything n (parse_static_var g)"
  unfolding parse_static_var_def
  by (intro do_expression safe_do_advance_any safe_intro) auto

lemma safe_attribute_targets: "n \<le> j \<Longrightarrow> safe f P False anything n (attribute_targets j as)"
proof (induction j arbitrary: n as P)
  case (Suc j)
  then show ?case
    unfolding attribute_targets.simps attribute_target_def pbind_assoc pbind_ret
    by (intro safe_eat [OF safe_word] safe_intro) auto
qed (simp add: safe_zero)

lemma safe_attribute_fields: "n \<le> j \<Longrightarrow> safe f P False anything n (attribute_fields j fs)"
proof (induction j arbitrary: n fs P)
  case (Suc j)
  then show ?case
    unfolding attribute_fields.simps by (intro safe_p_if safe_at_close safe_intro) auto
qed (simp add: safe_zero)

lemma safe_attribute_declaration: "safe f P True anything n parse_attribute_declaration"
  unfolding parse_attribute_declaration_def
  by (intro safe_do_advance_any safe_attribute_targets safe_attribute_fields safe_intro) auto

section \<open>Emitters\<close>

end

definition outcome_of :: "'a emitter \<Rightarrow> 'a parser" where
  "outcome_of p st = snd (p st)"

lemma outcome_simps [simp]:
  "outcome_of (e_lift r) = r" "outcome_of (e_emit d) = ret ()"
  "outcome_of (e_then p q) = pbind (outcome_of p) (\<lambda>x. outcome_of (q x))"
  by (auto simp: outcome_of_def fun_eq_iff e_lift_def e_emit_def e_then_def ret_def pbind_def Let_def
      split: prod.split outcome.split)

lemma outcome_if [simp]: "outcome_of (e_if c p q) = p_if c (outcome_of p) (outcome_of q)"
  unfolding e_if_def p_if_def by (simp add: if_distrib cong: if_cong)

lemma outcome_add [simp]: "outcome_of (e_add h p) = pbind p (\<lambda>x. ret ())"
  by (simp add: e_add_def)

lemma safe_own: "safe f P b anything n (outcome_of p) \<Longrightarrow> safe f P b anything n (e_own p)"
  by (auto simp: safe_def wp_def outcome_of_def e_own_def lands_def split: prod.split outcome.splits)

section \<open>Extern functions\<close>

lemma safe_extern_parameter: "safe f P True anything n parse_extern_parameter"
  unfolding parse_extern_parameter_def by (intro safe_intro) auto

lemma safe_extern_parameters: "n \<le> j \<Longrightarrow> safe f P False anything n (parse_extern_parameters j ps)"
proof (induction j arbitrary: n ps P)
  case (Suc j)
  have more: "safe f P False anything m (p_if (p_check T_RPAREN) (ret False)
      (pbind (p_check T_DOT_DOT_DOT) (\<lambda>dots. ret (\<not> dots))))" for m P
    by (intro safe_intro) auto
  have one: "safe f P False anything m (if b then pbind parse_extern_parameter (\<lambda>p. ret (ps @ [p])) else ret ps)" for m b P
    by (intro safe_eat [OF safe_extern_parameter] safe_intro) auto
  show ?case
    unfolding parse_extern_parameters.simps as_p_if
    by (intro safe_pass [OF more] safe_pass [OF one] safe_intro) (use Suc in auto)
qed (simp add: safe_zero)

lemma safe_extern_function: "safe f P True anything n (parse_extern_function abi)"
  unfolding parse_extern_function_def rounds_of [of "\<lambda>k. parse_extern_parameters k []"]
  by (intro safe_extern_parameters safe_intro) auto

definition extern_rest :: "nat \<Rightarrow> string \<Rightarrow> extern_declaration list \<Rightarrow> unit parser" where
  "extern_rest k abi ds st = snd (parse_extern_block k abi ds st)"

lemma extern_rest_Suc:
  "extern_rest (Suc k) abi ds = p_if (at_close T_RBRACE)
     (pbind (p_expect (''Esperado '' @ quoted ''}'') T_RBRACE) (\<lambda>_. ret ()))
     (pbind (parse_extern_function abi) (\<lambda>d. extern_rest k abi (ds @ [d])))"
  by (auto simp: fun_eq_iff extern_rest_def at_close_def p_if_def pbind_assoc pbind_def split: outcome.split)

lemma safe_extern_rest: "n \<le> j \<Longrightarrow> safe f P False anything n (extern_rest j abi ds)"
proof (induction j arbitrary: n ds P)
  case (Suc j)
  then show ?case
    unfolding extern_rest_Suc by (intro safe_p_if safe_at_close safe_eat [OF safe_extern_function] safe_intro) auto
qed (simp add: safe_zero)

lemma outcome_extern:
  "outcome_of emit_extern = pbind parse_extern_head (\<lambda>(abi, block).
     if block then with_rounds (\<lambda>k. extern_rest k abi []) else pbind (parse_extern_function abi) (\<lambda>d. ret ()))"
  by (auto simp: fun_eq_iff outcome_of_def emit_extern_def parse_extern_def extern_rest_def with_rounds_def
      pbind_def ret_def Let_def split: outcome.split prod.split)

lemma safe_extern: "safe f P True anything n (outcome_of emit_extern)"
  unfolding outcome_extern parse_extern_head_def pbind_assoc
  by (intro safe_intro) (auto intro!: safe_extern_rest safe_eat [OF safe_extern_function] safe_intro)


lemma safe_qualified_name: "safe f P True anything n parse_qualified_name"
proof -
  have eq: "parse_qualified_name =
      pbind (p_expect ''Esperado identificador'' T_IDENTIFIER) (\<lambda>t. with_rounds (\<lambda>k. parse_name_parts k [t_value t]))"
    by (simp add: parse_qualified_name_def with_rounds_def fun_eq_iff pbind_def split: outcome.split del: parse_name_parts.simps)
  show ?thesis unfolding eq by (intro safe_rounds safe_any [OF safe_name_parts] safe_intro) (auto dest: nameable_ident)
qed

lemma safe_import: "safe f P True anything n parse_import"
  unfolding parse_import_def by (intro safe_eat [OF safe_qualified_name] safe_intro) auto

lemma safe_peeked: "(\<And>t. token_ok f t \<Longrightarrow> safe f P d S k (q t)) \<Longrightarrow> safe f P d S k (pbind p_peek q)"
  unfolding safe_def using current_ok by (auto simp: wp_peek current_token_def ok_parser)

section \<open>Constants, namespaces and blocks\<close>

context good_grammar
begin

lemma safe_constant_function: "n \<le> Suc k \<Longrightarrow> nameable f t \<Longrightarrow> safe f P True anything n (constant_function g w ty t)"
  unfolding constant_function_def by (intro safe_eat [OF safe_function_rest] safe_intro) auto

lemma safe_constant_value: "n \<le> Suc k \<Longrightarrow> nameable f t \<Longrightarrow> safe f P False anything n (constant_value g as i ty t)"
  unfolding constant_value_def
  by (intro safe_p_if do_expression safe_do_advance_any safe_intro) auto

lemma safe_constant_declaration:
  "n \<le> Suc k \<Longrightarrow> safe f (next_in constant_start) True anything n (outcome_of (parse_constexpr_declaration g as))"
  unfolding parse_constexpr_declaration_def Let_def outcome_simps outcome_if outcome_add if_distrib [of outcome_of]
  by (rule safe_peeked, rule safe_do_advance)
    (auto simp: constant_start_def intro!: safe_p_if safe_check_any safe_eat [OF safe_struct]
      safe_pass [OF safe_any [OF safe_constant_function]] safe_pass [OF safe_constant_value]
      nameable_token safe_intro)

lemma safe_namespace_struct: "n \<le> Suc k \<Longrightarrow> safe f P True anything n (namespace_struct g ps)"
  unfolding namespace_struct_def
  by (intro safe_eat [OF safe_struct] safe_p_if safe_isType safe_eat [OF safe_function_with_type] safe_intro) auto

lemma safe_namespace_rounds:
  assumes "\<And>m P. m \<le> n \<Longrightarrow> safe f P True anything m p"
  shows "n \<le> j \<Longrightarrow> n \<le> Suc k \<Longrightarrow> safe f P False anything n (namespace_rounds j g p ps)"
  using assms
proof (induction j arbitrary: n ps P)
  case (Suc j)
  have one: "safe f P True anything n (p_if (p_check T_NAMESPACE)
       (pbind p (\<lambda>m. ret (case ps of (ss, fs, ns) \<Rightarrow> (ss, fs, ns @ [m]))))
       (p_if (p_check T_STRUCT) (namespace_struct g ps)
         (pbind (parse_function g) (\<lambda>h. ret (case ps of (ss, fs, ns) \<Rightarrow> (ss, fs @ [h], ns))))))" for P
    by (intro safe_p_if safe_eat [OF Suc.prems(3)] safe_namespace_struct safe_eat [OF safe_function] safe_intro)
      (use Suc.prems in auto)
  show ?case
    unfolding namespace_rounds.simps
    by (intro safe_p_if safe_at_close safe_eat [OF one] safe_intro Suc.IH) (use Suc.prems in auto)
qed (simp add: safe_zero)

lemma namespace_of_scoped:
  "namespace_of g p =
     pbind (p_expect (esperado ''namespace'') T_NAMESPACE) (\<lambda>_.
     pbind (p_expect ''Esperado nome do namespace'' T_IDENTIFIER) (\<lambda>t.
     pbind (makeSourceIdentifier t) (\<lambda>i.
     pbind (p_expect (esperado ''{'') T_LBRACE) (\<lambda>_.
     pbind p_pushScope (\<lambda>_.
     pbind (with_rounds (\<lambda>j. namespace_rounds j g p ([], [], []))) (\<lambda>x.
     pbind p_popScope (\<lambda>_. case x of (ss, fs, ns) \<Rightarrow>
     pbind (p_expect (esperado ''}'') T_RBRACE) (\<lambda>_. ret (Namespace i ss fs ns)))))))))"
  by (simp add: namespace_of_def case_prod_beta')

lemma safe_namespace_of:
  assumes "\<And>m P. m \<le> n - 1 \<Longrightarrow> safe f P True anything m p" "n \<le> Suc k"
  shows "safe f P True anything n (namespace_of g p)"
  unfolding namespace_of_scoped
  by (intro safe_do_expect safe_do_source safe_scoped [where b = False and R = anything and d = False]
      safe_rounds safe_namespace_rounds)
    (use assms in \<open>auto intro!: safe_intro nameable_token\<close>)

lemma safe_namespace_at: "n \<le> j \<Longrightarrow> n \<le> Suc k \<Longrightarrow> safe f P True anything n (namespace_at j g)"
proof (induction j arbitrary: n P)
  case (Suc j)
  then show ?case unfolding namespace_at.simps by (intro safe_namespace_of) auto
qed (simp add: safe_zero)

lemma safe_namespace: "n \<le> Suc k \<Longrightarrow> safe f P True anything n (parse_namespace g)"
  unfolding parse_namespace_def by (intro safe_rounds safe_namespace_at) auto

lemma safe_attribute_list: "safe f P False anything n parse_attributes"
  unfolding parse_attributes_def by (intro safe_rounds safe_attribute_rounds)

lemma marked_if_check_any:
  assumes "safe f (next_in tys) b R n p" "marked f n False b R s q" "T_GREATER \<notin> set tys" "T_END_OF_FILE \<notin> set tys"
  shows "marked f n False b R s (p_if (p_check_any tys) p q)"
proof (rule markedI)
  fix st st' assume st: "source_ok f st" "ps_current st = s" "remaining st \<le> n" "reaches st st'"
  have ok: "source_ok f st'" "remaining st' \<le> n" using st reaches_ok reaches_remaining by fastforce+
  have "wp p (lands b R st) (\<lambda>e. fails_at st) st'" if "next_in tys st'"
    by (rule wp_lands [OF safeD [OF assms(1) ok(1) that ok(2)] st(4)]) simp
  then show "wp (p_if (p_check_any tys) p q) (lands b R st) (\<lambda>e. fails_at st) st'"
    using st assms(2) check_any_plain [OF ok(1) assms(3,4)]
    by (auto simp: marked_def wp_def p_if_def pbind_def next_in_def)
qed

lemma safe_attributed:
  assumes "\<And>P. safe f P True anything n q" "n \<le> Suc k"
  shows "safe f P True anything n (pbind p_mark (\<lambda>saved. pbind parse_attributes (\<lambda>as.
     p_if (p_check_any constant_start) (outcome_of (parse_constexpr_declaration g as))
       (pbind (p_reset saved) (\<lambda>_. q)))))"
  by (intro safe_mark marked_pass [OF safe_attribute_list] marked_if_check_any marked_reset
      safe_constant_declaration assms) (simp_all add: constant_start_def)

lemma safe_function_item: "n \<le> Suc k \<Longrightarrow> safe f P True anything n (outcome_of (function_item g))"
  unfolding function_item_def outcome_add by (intro safe_eat [OF safe_function] safe_intro) auto

lemma safe_async: "n \<le> Suc k \<Longrightarrow> safe f P True anything n (async_function g)"
  unfolding async_function_def by (intro safe_do_advance_any safe_eat [OF safe_function] safe_intro) auto

lemma safe_if_macro:
  assumes "lacks f T_MACRO" "safe f P d R n q"
  shows "safe f P d R n (p_if (p_check T_MACRO) p q)"
proof (rule safeI)
  fix st assume st: "source_ok f st" "P st" "remaining st \<le> n"
  have "t_type (current_token st) \<noteq> T_MACRO" using lacks_here [OF assms(1) st(1)] .
  then show "wp (p_if (p_check T_MACRO) p q) (lands d R st) (\<lambda>e. fails_at st) st"
    using safeD [OF assms(2) st] p_check_plain [OF st(1)] by (simp add: wp_def p_if_def pbind_def)
qed

lemma safe_starts_static: "safe f P False anything n starts_static"
  unfolding starts_static_def by (intro safe_p_if safe_next_is safe_check safe_intro) auto

lemma safe_added: "(\<And>P. safe f P True anything n p) \<Longrightarrow> safe f P True anything n (pbind p (\<lambda>x. ret ()))"
  by (intro safe_eat safe_intro) auto

lemma safe_unsafe: "n \<le> Suc k \<Longrightarrow> safe f P True anything n (pbind p_advance (\<lambda>_. outcome_of (function_item g)))"
  by (intro safe_do_advance_any safe_function_item)

lemmas safe_items =
  safe_if_macro safe_if_check_any safe_if_check safe_p_if safe_contextual safe_starts_static safe_attributed
  safe_function_item safe_added safe_enum safe_interface safe_impl safe_struct safe_import safe_static_var safe_async
  safe_attribute_declaration safe_at [OF safe_extern] safe_constant_declaration safe_unsafe

lemma safe_block_item:
  assumes "lacks f T_MACRO" "\<And>P. safe f P True anything n cb" "n \<le> Suc k"
  shows "safe f P True anything n (outcome_of (block_item g cb))"
  unfolding block_item_def outcome_if outcome_add outcome_simps
  by (intro safe_items assms) (simp_all add: constant_start_def safe_items assms)

lemma safe_block_rounds:
  assumes "lacks f T_MACRO" "\<And>m P. m \<le> n \<Longrightarrow> safe f P True anything m cb"
  shows "n \<le> j \<Longrightarrow> n \<le> Suc k \<Longrightarrow> safe f P False anything n (outcome_of (block_rounds j g cb))"
  using assms(2)
proof (induction j arbitrary: n P)
  case (Suc j)
  show ?case
    unfolding block_rounds.simps outcome_if outcome_simps
    by (intro safe_p_if safe_at_close safe_eat [OF safe_block_item] Suc.IH safe_retI assms(1) Suc.prems(3))
      (use Suc.prems in auto)
qed (simp add: safe_zero)

lemma safe_braced_program:
  assumes "lacks f T_MACRO" "\<And>m P. m \<le> n \<Longrightarrow> safe f P True anything m cb" "n \<le> Suc k"
  shows "safe f P True anything n (braced_program g cb)"
proof -
  have eq: "e_own (parse_top_level_declarations g cb) = with_rounds (\<lambda>j. e_own (block_rounds j g cb))"
    by (simp add: fun_eq_iff with_rounds_def e_own_def parse_top_level_declarations_def)
  show ?thesis
    unfolding braced_program_def eq
    by (intro safe_intro safe_own safe_block_rounds) (use assms in auto)
qed

lemma safe_compile_time_block:
  assumes "lacks f T_MACRO" "\<And>m P. m \<le> n - 1 \<Longrightarrow> safe f P True anything m cb" "n \<le> Suc k"
  shows "safe f P True anything n (compile_time_block g cb)"
  unfolding compile_time_block_def
  by (intro do_expression safe_eat [OF safe_braced_program] safe_eat [OF assms(2)] safe_intro) (use assms in auto)

lemma safe_compile_time_at:
  "lacks f T_MACRO \<Longrightarrow> n \<le> j \<Longrightarrow> n \<le> Suc k \<Longrightarrow> safe f P True anything n (compile_time_at j g)"
proof (induction j arbitrary: n P)
  case (Suc j)
  then show ?case unfolding compile_time_at.simps by (intro safe_compile_time_block) auto
qed (simp add: safe_zero)

lemma safe_compile_time: "lacks f T_MACRO \<Longrightarrow> n \<le> Suc k \<Longrightarrow> safe f P True anything n (parse_compile_time_block g)"
  unfolding parse_compile_time_block_def by (intro safe_rounds safe_compile_time_at) auto

section \<open>One declaration\<close>

lemma safe_struct_item: "n \<le> Suc k \<Longrightarrow> safe f P True anything n (outcome_of (struct_item g))"
  unfolding struct_item_def Let_def outcome_simps outcome_if outcome_add
  by (rule safe_eat [OF safe_struct])
    (auto intro!: safe_p_if safe_eat [OF safe_function_with_type] safe_intro)

lemma safe_namespace_item: "n \<le> Suc k \<Longrightarrow> safe f P True anything n (outcome_of (namespace_item g))"
proof -
  assume n: "n \<le> Suc k"
  have again: "marked f n e True anything s (pbind (p_reset s) (\<lambda>_. pbind (parse_namespace g) (\<lambda>x. ret ())))" for e s
    by (intro marked_reset safe_added safe_namespace n)
  have named: "marked f n e True anything s (pbind parse_qualified_name (\<lambda>q. p_if (p_match T_SEMICOLON) (ret ())
      (pbind (p_reset s) (\<lambda>_. pbind (parse_namespace g) (\<lambda>x. ret ())))))" for e s
    by (intro marked_eat [OF safe_qualified_name] marked_p_if safe_match again marked_behind [OF safe_retI]) auto
  show ?thesis
    unfolding namespace_item_def Let_def outcome_simps outcome_if outcome_add
    by (intro safe_mark marked_pass [OF safe_advance_any] marked_p_if safe_check again named)
qed

lemma safe_program_item:
  assumes "lacks f T_MACRO" "n \<le> Suc k"
  shows "safe f P True anything n (outcome_of (program_item_of g))"
  unfolding program_item_of_def outcome_if outcome_add outcome_simps
  by (intro safe_items safe_namespace_item safe_struct_item safe_compile_time assms)
    (simp_all add: constant_start_def safe_items safe_namespace_item safe_struct_item safe_compile_time assms)

end

end
