(* ===== verification/Parser_Recovery.thy ===== *)
theory Parser_Recovery
  imports Parser_Program_Total
begin

text \<open>
  The loop of \<^verbatim>\<open>parse\<close>. \<^verbatim>\<open>synchronize\<close> stays where it is when the parser stands at a word that can
  start a declaration, so the loop ends only because a declaration that starts with such a word
  consumes it before it can fail: \<open>eager\<close>.
\<close>

section \<open>Where parsing begins\<close>

text \<open>A well-formed state, or one at the very first token, where nothing may be reported yet.\<close>

definition entry_ok :: "source \<Rightarrow> parser_state \<Rightarrow> bool" where
  "entry_ok f st \<longleftrightarrow>
     ps_current st < length (ps_tokens st) \<and> t_type (last (ps_tokens st)) = T_END_OF_FILE
     \<and> snd f = ps_tokens st \<and> tokens_ok f \<and> ps_macros st = Map.empty \<and> ps_scopes st \<noteq> []
     \<and> (splits (ps_tokens st) \<or> pendingGreater st = 0)"

lemma entry_source: "source_ok f st \<longleftrightarrow> entry_ok f st \<and> 0 < ps_current st"
  by (auto simp: source_ok_def entry_ok_def parser_ok_def)

lemma entry_reaches: "entry_ok f st \<Longrightarrow> reaches st st' \<Longrightarrow> source_ok f st'"
  by (auto simp: entry_ok_def reaches_def source_ok_def)

lemma entry_current: "entry_ok f st \<Longrightarrow> token_ok f (current_token st)"
  by (auto simp: entry_ok_def tokens_ok_def current_token_def list_all_length)

lemma entry_check:
  "entry_ok f st \<Longrightarrow> ty \<noteq> T_GREATER \<Longrightarrow> ty \<noteq> T_END_OF_FILE
     \<Longrightarrow> p_check ty st = P_Ok (t_type (current_token st) = ty) st"
  by (simp add: p_check_def p_isAtEnd_def p_peek_def pbind_def ret_def entry_ok_def current_token_def)

lemma entry_advance:
  "entry_ok f st \<Longrightarrow> t_type (current_token st) \<noteq> T_END_OF_FILE
     \<Longrightarrow> p_advance st = P_Ok (current_token st) (st\<lparr>ps_current := Suc (ps_current st)\<rparr>)"
  by (simp add: p_advance_def p_isAtEnd_def p_peek_def p_previous_def p_step_def pbind_def ret_def
      entry_ok_def current_token_def)

lemma entry_match:
  "entry_ok f st \<Longrightarrow> ty \<noteq> T_GREATER \<Longrightarrow> ty \<noteq> T_END_OF_FILE
     \<Longrightarrow> p_match ty st = (if t_type (current_token st) = ty
          then P_Ok True (st\<lparr>ps_current := Suc (ps_current st)\<rparr>) else P_Ok False st)"
  by (simp add: p_match_def entry_check entry_advance pbind_def ret_def)

lemma entry_check_any:
  assumes "entry_ok f st" "T_GREATER \<notin> set tys" "T_END_OF_FILE \<notin> set tys"
  shows "p_check_any tys st = P_Ok (t_type (current_token st) \<in> set tys) st"
  using assms(2,3) by (induction tys) (auto simp: ret_def pbind_def entry_check [OF assms(1)])

lemma entry_step:
  assumes "entry_ok f st" "t_type (current_token st) \<noteq> T_END_OF_FILE"
  shows "reaches st (st\<lparr>ps_current := Suc (ps_current st)\<rparr>)"
proof -
  have "Suc (ps_current st) \<noteq> length (ps_tokens st)"
  proof
    assume "Suc (ps_current st) = length (ps_tokens st)"
    then have "last (ps_tokens st) = current_token st"
      using last_conv_nth [of "ps_tokens st"] by (cases "ps_tokens st") (auto simp: current_token_def)
    then show False using assms by (simp add: entry_ok_def)
  qed
  then have "Suc (ps_current st) < length (ps_tokens st)" using assms(1) by (simp add: entry_ok_def)
  then show ?thesis using assms(1) by (simp add: reaches_def parser_ok_def entry_ok_def)
qed

section \<open>Parsers that consume before they fail\<close>

abbreviation fails_behind :: "parser_state \<Rightarrow> parser_state \<Rightarrow> bool" where
  "fails_behind st st' \<equiv> fails_at st st' \<and> ps_current st < ps_current st'"

definition eager :: "source \<Rightarrow> (parser_state \<Rightarrow> bool) \<Rightarrow> ('a \<Rightarrow> bool) \<Rightarrow> nat \<Rightarrow> 'a parser \<Rightarrow> bool" where
  "eager f P R n p \<longleftrightarrow>
     (\<forall>st. entry_ok f st \<longrightarrow> P st \<longrightarrow> remaining st \<le> n
        \<longrightarrow> wp p (lands True R st) (\<lambda>e. fails_behind st) st)"

lemma eagerI:
  "(\<And>st. entry_ok f st \<Longrightarrow> P st \<Longrightarrow> remaining st \<le> n
     \<Longrightarrow> wp p (lands True R st) (\<lambda>e. fails_behind st) st) \<Longrightarrow> eager f P R n p"
  by (simp add: eager_def)

lemma eagerD:
  "eager f P R n p \<Longrightarrow> entry_ok f st \<Longrightarrow> P st \<Longrightarrow> remaining st \<le> n
     \<Longrightarrow> wp p (lands True R st) (\<lambda>e. fails_behind st) st"
  by (simp add: eager_def)

lemma reaches_fails: "reaches st st' \<Longrightarrow> fails_at st st'"
  by (simp add: reaches_def fails_at_def)

text \<open>A safe parser behind a token.\<close>

lemma wp_behind:
  assumes "safe f P False R (n - 1) q" "entry_ok f st" "remaining st \<le> n" "reaches st st'"
    "ps_current st < ps_current st'" "P st'"
  shows "wp q (lands True R st) (\<lambda>e. fails_behind st) st'"
proof -
  have "remaining st' \<le> n - 1" using reaches_less [OF assms(4,5)] assms(3) by linarith
  then have "wp q (lands False R st') (\<lambda>e. fails_at st') st'"
    using safeD [OF assms(1) entry_reaches [OF assms(2,4)] assms(6)] by simp
  then show ?thesis
    by (rule wp_conseq_both) (use assms(4,5) reaches_further in \<open>auto simp: lands_def fails_at_def reaches_def\<close>)
qed

lemma eager_bind:
  assumes "eager f P Q n p" "\<And>x. Q x \<Longrightarrow> safe f anywhere False R (n - 1) (q x)"
  shows "eager f P R n (pbind p q)"
proof (rule eagerI)
  fix st assume st: "entry_ok f st" "P st" "remaining st \<le> n"
  have next_part: "wp (q x) (lands True R st) (\<lambda>e. fails_behind st) st'" if "lands True Q st x st'" for x st'
    by (rule wp_behind [OF assms(2) st(1,3)]) (use that in \<open>auto simp: lands_def\<close>)
  have "wp p (\<lambda>x. wp (q x) (lands True R st) (\<lambda>e. fails_behind st))
      (\<lambda>e. fails_behind st) st"
    by (rule wp_conseq [OF eagerD [OF assms(1) st] next_part])
  then show "wp (pbind p q) (lands True R st) (\<lambda>e. fails_behind st) st" by simp
qed

text \<open>The token operations, at a token of the right type.\<close>

lemma eager_advance:
  assumes "T_END_OF_FILE \<notin> set tys"
  shows "eager f (next_in tys) (\<lambda>t. token_ok f t \<and> t_type t \<in> set tys) n p_advance"
proof (rule eagerI)
  fix st assume st: "entry_ok f st" "next_in tys st"
  then have e: "t_type (current_token st) \<noteq> T_END_OF_FILE" using assms by (auto simp: next_in_def)
  show "wp p_advance (lands True (\<lambda>t. token_ok f t \<and> t_type t \<in> set tys) st) (\<lambda>e. fails_behind st) st"
    using st entry_step [OF st(1) e] entry_current [OF st(1)]
    by (simp add: wp_def lands_def next_in_def entry_advance [OF st(1) e])
qed

lemma eager_expect:
  assumes "ty \<noteq> T_GREATER" "ty \<noteq> T_END_OF_FILE"
  shows "eager f (next_in [ty]) (\<lambda>t. token_ok f t \<and> t_type t = ty) n (p_expect m ty)"
proof -
  have "p_expect m ty st = p_advance st" if "entry_ok f st" "next_in [ty] st" for st
    using that assms entry_check [OF that(1), of ty] entry_advance [OF that(1)]
    by (auto simp: p_expect_def pbind_def next_in_def ret_def)
  then show ?thesis
    using eager_advance [of "[ty]" f n] assms(2) by (simp add: eager_def wp_def next_in_def)
qed

lemma eager_same:
  assumes "\<And>st. entry_ok f st \<Longrightarrow> P st \<Longrightarrow> p st = q st" "eager f P R n q"
  shows "eager f P R n p"
  using assms by (simp add: eager_def wp_def)

lemma eager_if_check_any:
  assumes "\<And>st. P st \<Longrightarrow> next_in tys st" "eager f P R n p" "T_GREATER \<notin> set tys" "T_END_OF_FILE \<notin> set tys"
  shows "eager f P R n (p_if (p_check_any tys) p q)"
  by (rule eager_same [OF _ assms(2)])
    (use assms(1) in \<open>auto simp: p_if_def pbind_def next_in_def entry_check_any [OF _ assms(3,4)]\<close>)

lemma eager_not_check_any:
  assumes "\<And>st. P st \<Longrightarrow> \<not> next_in tys st" "eager f P R n q" "T_GREATER \<notin> set tys" "T_END_OF_FILE \<notin> set tys"
  shows "eager f P R n (p_if (p_check_any tys) p q)"
  by (rule eager_same [OF _ assms(2)])
    (use assms(1) in \<open>auto simp: p_if_def pbind_def next_in_def entry_check_any [OF _ assms(3,4)]\<close>)

lemma eager_not_match:
  assumes "\<And>st. P st \<Longrightarrow> \<not> next_in [ty] st" "eager f P R n q" "ty \<noteq> T_GREATER" "ty \<noteq> T_END_OF_FILE"
  shows "eager f P R n (p_if (p_match ty) p q)"
  by (rule eager_same [OF _ assms(2)])
    (use assms(1) in \<open>auto simp: p_if_def pbind_def next_in_def entry_match [OF _ assms(3,4)]\<close>)

lemma eager_pure:
  assumes "\<And>st. entry_ok f st \<Longrightarrow> P st \<Longrightarrow> \<exists>b. c st = P_Ok b st" "eager f P R n p" "eager f P R n q"
  shows "eager f P R n (p_if c p q)"
proof (rule eagerI)
  fix st assume st: "entry_ok f st" "P st" "remaining st \<le> n"
  obtain b where "c st = P_Ok b st" using assms(1) [OF st(1,2)] by blast
  then show "wp (p_if c p q) (lands True R st) (\<lambda>e. fails_behind st) st"
    using eagerD [OF assms(2) st] eagerD [OF assms(3) st] by (simp add: p_if_def pbind_def wp_def)
qed


lemma next_in_current: "next_in tys st \<longleftrightarrow> t_type (current_token st) \<in> set tys"
  by (simp add: next_in_def)

lemma eager_skip:
  assumes "\<And>st. entry_ok f st \<Longrightarrow> P st \<Longrightarrow> p st = P_Ok x st" "eager f P R n (q x)"
  shows "eager f P R n (pbind p q)"
  by (rule eager_same [OF _ assms(2)]) (simp add: pbind_def assms(1))

section \<open>Declarations at the word they start with\<close>

lemma eager_parse_type: "eager f (next_in [T_IDENTIFIER, T_VOID, T_AUTO]) anything n parse_type"
proof (rule eagerI)
  fix st assume st: "entry_ok f st" "next_in [T_IDENTIFIER, T_VOID, T_AUTO] st"
  let ?n = "length (ps_tokens st)" and ?t = "current_token st" and ?st = "st\<lparr>ps_current := Suc (ps_current st)\<rparr>"
  let ?E = "\<lambda>e. fails_behind st"
  have e: "t_type ?t \<noteq> T_END_OF_FILE" using st(2) by (auto simp: next_in_def)
  have r: "reaches st ?st" by (rule entry_step [OF st(1) e])
  have ok: "parser_ok ?st" "remaining ?st < ?n" using r by (auto simp: reaches_def parser_ok_def remaining_def)
  have fwd: "forward ?st st' \<Longrightarrow> reaches ?st st' \<and> ps_current st < ps_current st'" for st'
    using forward_reaches [OF entry_reaches [OF st(1) r]] by (fastforce simp: reaches_def)
  have "wp (type_rest ?n ?t) (lands True anything st) ?E ?st"
    using ok fwd reaches_further [OF r]
    by (intro wp_type_rest wp_parse_type) (auto simp: lands_def dest: forward_current intro: reaches_fails)
  moreover have "parse_type st = type_rest ?n ?t ?st"
    unfolding parse_type_def parse_type_rec_Suc
    using st(2) entry_advance [OF st(1) e]
    by (auto simp: pbind_def next_in_def entry_check [OF st(1)])
  ultimately show "wp parse_type (lands True anything st) ?E st" by (simp add: wp_def)
qed

lemma eager_parse_attributes: "eager f (next_in [T_LBRACKET]) anything n parse_attributes"
proof (rule eagerI)
  fix st assume st: "entry_ok f st" "next_in [T_LBRACKET] st" "remaining st \<le> n"
  have "remaining st \<le> length (ps_tokens st)" by (simp add: remaining_def)
  then have e: "eager f (next_in [T_LBRACKET]) anything (remaining st) (attribute_rounds (Suc (length (ps_tokens st))) [])"
    unfolding attribute_rounds.simps p_if_check attribute_usage_of_def pbind_assoc
    by (intro eager_if_check_any eager_bind [OF eager_expect] safe_attribute_args safe_name_rest safe_intro)
      (auto intro!: safe_attribute_rounds)
  show "wp parse_attributes (lands True anything st) (\<lambda>e. fails_behind st) st"
    using eagerD [OF e st(1,2) order_refl] by (simp add: parse_attributes_def with_rounds_def wp_def)
qed

lemmas eager_attributes = eager_bind [OF eager_parse_attributes]

lemma eager_no_attributes:
  assumes "eager f P R n (q [])" "\<And>st. P st \<Longrightarrow> \<not> next_in [T_LBRACKET] st"
  shows "eager f P R n (pbind parse_attributes q)"
proof (rule eager_same [OF _ assms(1)])
  fix st assume st: "entry_ok f st" "P st"
  then show "pbind parse_attributes q st = q [] st"
    using assms(2) entry_check [OF st(1), of T_LBRACKET]
    by (auto simp: parse_attributes_def with_rounds_def p_if_def pbind_def ret_def next_in_def)
qed


lemma skip_attributes:
  "entry_ok f st \<Longrightarrow> next_in [T_INTERFACE] st \<Longrightarrow> p_if (p_match T_LBRACKET) (pbind parse_attributes (\<lambda>_. ret ())) (ret ()) st = P_Ok () st"
  by (simp add: p_if_def pbind_def ret_def next_in_def entry_match)

context good_grammar
begin

lemma eager_struct:
  assumes "n \<le> Suc k"
  shows "eager f (next_in [T_STRUCT]) anything n (parse_struct g)" "eager f (next_in [T_LBRACKET]) anything n (parse_struct g)"
proof -
  have keyword: "eager f (next_in [T_STRUCT]) anything n
      (p_if (p_check T_STRUCT) (pbind (p_expect (esperado ''struct'') T_STRUCT) (\<lambda>_. ret ())) (ret ()))"
    unfolding p_if_check by (intro eager_if_check_any eager_bind [OF eager_expect] safe_retI) auto
  show "eager f (next_in [T_STRUCT]) anything n (parse_struct g)"
    unfolding parse_struct_def
    by (intro eager_no_attributes eager_bind [OF keyword] safe_eat [OF safe_struct_body] safe_pass [OF safe_struct_name]
        safe_intro) (use assms in \<open>auto simp: next_in_def split: prod.split\<close>)
  show "eager f (next_in [T_LBRACKET]) anything n (parse_struct g)"
    unfolding parse_struct_def
    by (intro eager_attributes safe_eat [OF safe_struct_body] safe_pass [OF safe_struct_name] safe_intro)
      (use assms in \<open>auto split: prod.split\<close>)
qed

lemma eager_interface: "n \<le> Suc k \<Longrightarrow> eager f (next_in [T_INTERFACE]) anything n (parse_interface g)"
  unfolding parse_interface_def
  by (rule eager_skip, rule skip_attributes)
    (auto simp: next_in_def intro!: eager_bind [OF eager_expect] safe_interface_rounds safe_intro)

lemma eager_enum: "n \<le> Suc k \<Longrightarrow> eager f (next_in [T_ENUM]) anything n (parse_enum g)"
  unfolding parse_enum_def
  by (intro eager_bind [OF eager_expect] safe_enum_fields safe_enum_values safe_intro) auto

lemma eager_function: "n \<le> Suc k \<Longrightarrow> eager f (next_in [T_IDENTIFIER, T_VOID, T_AUTO]) anything n (outcome_of (function_item g))"
  unfolding function_item_def outcome_add parse_function_def pbind_assoc
  by (intro eager_bind [OF eager_parse_type] safe_any [OF safe_added] safe_function_with_type safe_intro) auto

end

lemma eager_import: "eager f (next_in [T_IMPORT]) anything n parse_import"
  unfolding parse_import_def 
  by (intro eager_bind [OF eager_expect] safe_eat [OF safe_qualified_name] safe_intro) auto

lemma eager_extern: "eager f (next_in [T_EXTERN]) anything n (outcome_of emit_extern)"
  unfolding outcome_extern parse_extern_head_def pbind_assoc
  by (intro eager_bind [OF eager_expect] safe_intro) (auto intro!: safe_extern_rest safe_eat [OF safe_extern_function] safe_intro)


section \<open>A place to come back to\<close>

text \<open>As \<open>eager\<close>, from a state behind the marked one.\<close>

definition beyond :: "source \<Rightarrow> nat \<Rightarrow> (parser_state \<Rightarrow> bool) \<Rightarrow> nat \<Rightarrow> 'a parser \<Rightarrow> bool" where
  "beyond f n P s p \<longleftrightarrow>
     (\<forall>st st'. entry_ok f st \<longrightarrow> P st \<longrightarrow> ps_current st = s \<longrightarrow> remaining st \<le> n \<longrightarrow> reaches st st'
        \<longrightarrow> ps_current st < ps_current st'
        \<longrightarrow> wp p (lands True anything st) (\<lambda>e. fails_behind st) st')"

lemma beyondI:
  "(\<And>st st'. entry_ok f st \<Longrightarrow> P st \<Longrightarrow> ps_current st = s \<Longrightarrow> remaining st \<le> n \<Longrightarrow> reaches st st'
     \<Longrightarrow> ps_current st < ps_current st'
     \<Longrightarrow> wp p (lands True anything st) (\<lambda>e. fails_behind st) st') \<Longrightarrow> beyond f n P s p"
  by (simp add: beyond_def)

lemma beyond_safe: "safe f anywhere False anything (n - 1) p \<Longrightarrow> beyond f n P s p"
  by (rule beyondI, rule wp_behind) simp_all

lemma beyond_if_check_any:
  assumes "safe f (next_in tys) False anything (n - 1) p" "beyond f n P s q" "T_GREATER \<notin> set tys" "T_END_OF_FILE \<notin> set tys"
  shows "beyond f n P s (p_if (p_check_any tys) p q)"
proof (rule beyondI)
  fix st st' assume st: "entry_ok f st" "P st" "ps_current st = s" "remaining st \<le> n" "reaches st st'"
    "ps_current st < ps_current st'"
  have "p_if (p_check_any tys) p q st' = (if next_in tys st' then p st' else q st')"
    using check_any_plain [OF entry_reaches [OF st(1,5)] assms(3,4)] by (simp add: p_if_def pbind_def next_in_def)
  then show "wp (p_if (p_check_any tys) p q) (lands True anything st) (\<lambda>e. fails_behind st) st'"
    using wp_behind [OF assms(1) st(1,4-6)] assms(2) st by (simp add: wp_def beyond_def)
qed

lemma beyond_bind:
  assumes "safe f anywhere False Q (n - 1) p" "\<And>x. Q x \<Longrightarrow> beyond f n P s (q x)"
  shows "beyond f n P s (pbind p q)"
proof (rule beyondI)
  fix st st' assume st: "entry_ok f st" "P st" "ps_current st = s" "remaining st \<le> n" "reaches st st'"
    "ps_current st < ps_current st'"
  have next_part: "wp (q x) (lands True anything st) (\<lambda>e. fails_behind st) st''"
    if "lands True Q st x st''" for x st''
    using assms(2) that st by (auto simp: beyond_def lands_def)
  show "wp (pbind p q) (lands True anything st) (\<lambda>e. fails_behind st) st'"
    unfolding wp_bind by (rule wp_conseq [OF wp_behind [OF assms(1) st(1,4-6) TrueI] next_part])
qed

lemma beyond_if:
  "safe f anywhere False anything (n - 1) c \<Longrightarrow> beyond f n P s p \<Longrightarrow> beyond f n P s q \<Longrightarrow> beyond f n P s (p_if c p q)"
  unfolding p_if_def by (rule beyond_bind) auto

text \<open>The condition holds again where the parser goes back to.\<close>

lemma beyond_reset:
  assumes "eager f (next_in tys) anything n q"
  shows "beyond f n (next_in tys) s (pbind (p_reset s) (\<lambda>_. q))"
proof (rule beyondI)
  fix st st' assume st: "entry_ok f st" "next_in tys st" "ps_current st = s" "remaining st \<le> n" "reaches st st'"
  let ?st = "st'\<lparr>ps_current := s\<rparr>"
  have at: "entry_ok f ?st" "next_in tys ?st" "ps_current ?st = ps_current st" "remaining ?st \<le> n"
    using st by (auto simp: entry_ok_def next_in_def current_token_def reaches_def remaining_def)
  have "reaches ?st st'' \<Longrightarrow> reaches st st''" "fails_at ?st st'' \<Longrightarrow> fails_at st st''" for st''
    using st(3,5) by (auto simp: reaches_def fails_at_def)
  with eagerD [OF assms at(1,2,4)] have "wp q (lands True anything st) (\<lambda>e. fails_behind st) ?st"
    using at(3) by (auto simp: lands_def elim!: wp_conseq_both)
  then show "wp (pbind (p_reset s) (\<lambda>_. q)) (lands True anything st) (\<lambda>e. fails_behind st) st'"
    by (simp add: wp_def pbind_def p_reset_def)
qed

lemma eager_mark:
  assumes "eager f P Q n p" "\<And>s x. Q x \<Longrightarrow> beyond f n P s (q s x)"
  shows "eager f P anything n (pbind p_mark (\<lambda>s. pbind p (q s)))"
proof (rule eagerI)
  fix st assume st: "entry_ok f st" "P st" "remaining st \<le> n"
  have "wp (q (ps_current st) x) (lands True anything st) (\<lambda>e. fails_behind st) st'"
    if "lands True Q st x st'" for x st'
    using that assms(2) st by (auto simp: beyond_def lands_def)
  then have "wp (pbind p (q (ps_current st))) (lands True anything st) (\<lambda>e. fails_behind st) st"
    unfolding wp_bind by (rule wp_conseq [OF eagerD [OF assms(1) st]])
  then show "wp (pbind p_mark (\<lambda>s. pbind p (q s))) (lands True anything st) (\<lambda>e. fails_behind st) st"
    by (simp add: wp_def pbind_def p_mark_def)
qed


section \<open>Every declaration a parser recovers at\<close>

definition recovery_types :: "token_type list" where
  "recovery_types = [T_IMPORT, T_EXTERN, T_NAMESPACE, T_ENUM, T_INTERFACE, T_STRUCT, T_LBRACKET, T_IDENTIFIER, T_VOID, T_AUTO]"

context good_grammar
begin

lemma eager_struct_item:
  assumes "eager f P anything n (parse_struct g)" "n \<le> Suc k"
  shows "eager f P anything n (outcome_of (struct_item g))"
  unfolding struct_item_def Let_def outcome_simps outcome_if outcome_add
  by (rule eager_bind [OF assms(1)])
    (use assms(2) in \<open>auto intro!: safe_p_if safe_any [OF safe_added] safe_function_with_type safe_intro\<close>)

lemma eager_attributed:
  assumes "n \<le> Suc k"
  shows "eager f (next_in [T_LBRACKET]) anything n (pbind p_mark (\<lambda>saved. pbind parse_attributes (\<lambda>as.
     p_if (p_check_any constant_start) (outcome_of (parse_constexpr_declaration g as))
       (pbind (p_reset saved) (\<lambda>_. outcome_of (struct_item g))))))"
proof (rule eager_mark [OF eager_parse_attributes])
  fix s as
  have "safe f (next_in constant_start) False anything (n - 1) (outcome_of (parse_constexpr_declaration g as))"
    by (rule safe_any [OF safe_constant_declaration]) (use assms in simp)
  then show "beyond f n (next_in [T_LBRACKET]) s (p_if (p_check_any constant_start)
     (outcome_of (parse_constexpr_declaration g as)) (pbind (p_reset s) (\<lambda>_. outcome_of (struct_item g))))"
    by (rule beyond_if_check_any)
      (use assms in \<open>auto simp: constant_start_def intro!: beyond_reset eager_struct_item eager_struct(2)\<close>)
qed

lemma eager_namespace_of:
  assumes "\<And>m P. m \<le> n - 1 \<Longrightarrow> safe f P True anything m p" "n \<le> Suc k"
  shows "eager f (next_in [T_NAMESPACE]) anything n (namespace_of g p)"
  unfolding namespace_of_scoped
  by (intro eager_bind [OF eager_expect] safe_do_expect safe_do_source
      safe_scoped [where b = False and R = anything and d = False] safe_rounds safe_namespace_rounds)
    (use assms in \<open>auto intro!: safe_intro nameable_token\<close>)

lemma eager_namespace:
  assumes "n \<le> Suc k"
  shows "eager f (next_in [T_NAMESPACE]) anything n (outcome_of (namespace_item g))"
proof -
  have inner: "eager f (next_in [T_NAMESPACE]) anything n (pbind (parse_namespace g) (\<lambda>x. ret ()))"
  proof (rule eager_bind [OF _ safe_retI])
    show "eager f (next_in [T_NAMESPACE]) anything n (parse_namespace g)"
    proof (rule eagerI)
      fix st assume st: "entry_ok f st" "next_in [T_NAMESPACE] st" "remaining st \<le> n"
      have "remaining st - 1 \<le> length (ps_tokens st)" by (simp add: remaining_def)
      then have e: "eager f (next_in [T_NAMESPACE]) anything (remaining st) (namespace_at (Suc (length (ps_tokens st))) g)"
        unfolding namespace_at.simps
        by (intro eager_namespace_of safe_namespace_at) (use st(3) assms in auto)
      show "wp (parse_namespace g) (lands True anything st) (\<lambda>e. fails_behind st) st"
        using eagerD [OF e st(1,2) order_refl] by (simp add: parse_namespace_def with_rounds_def wp_def)
    qed
  qed simp_all
  have again: "beyond f n (next_in [T_NAMESPACE]) s (pbind (p_reset s) (\<lambda>_. pbind (parse_namespace g) (\<lambda>x. ret ())))" for s
    by (rule beyond_reset [OF inner])
  have named: "beyond f n (next_in [T_NAMESPACE]) s (pbind parse_qualified_name (\<lambda>q. p_if (p_match T_SEMICOLON) (ret ())
      (pbind (p_reset s) (\<lambda>_. pbind (parse_namespace g) (\<lambda>x. ret ())))))" for s
    by (intro beyond_bind [OF safe_any [OF safe_qualified_name]] beyond_if safe_match again beyond_safe safe_retI) auto
  show ?thesis
    unfolding namespace_item_def Let_def outcome_simps outcome_if outcome_add
    by (rule eager_mark [OF eager_advance]) (auto intro!: beyond_if safe_check again named)
qed

lemma eager_attribute_or_function:
  assumes "n \<le> Suc k"
  shows "eager f (next_in [T_IDENTIFIER, T_VOID, T_AUTO]) anything n (p_if (checkContextual ''attribute'')
     (pbind parse_attribute_declaration (\<lambda>x. ret ()))
     (p_if (p_check T_ASYNC) (pbind (async_function g) (\<lambda>x. ret ())) (outcome_of (function_item g))))"
proof (rule eager_pure)
  show "eager f (next_in [T_IDENTIFIER, T_VOID, T_AUTO]) anything n
      (p_if (p_check T_ASYNC) (pbind (async_function g) (\<lambda>x. ret ())) (outcome_of (function_item g)))"
    unfolding p_if_check by (intro eager_not_check_any eager_function [OF assms]) (auto simp: next_in_def)
  show "eager f (next_in [T_IDENTIFIER, T_VOID, T_AUTO]) anything n (pbind parse_attribute_declaration (\<lambda>x. ret ()))"
    unfolding parse_attribute_declaration_def pbind_assoc
    by (intro eager_bind [OF eager_advance] safe_attribute_targets safe_attribute_fields safe_intro) auto
  show "\<exists>b. checkContextual w st = P_Ok b st" if "entry_ok f st" for st w
    using that entry_check [OF that, of T_IDENTIFIER]
    by (auto simp: checkContextual_def pbind_def p_peek_def ret_def entry_ok_def parser_ok_def)
qed

lemma eager_program_item:
  assumes "n \<le> Suc k"
  shows "eager f (next_in recovery_types) anything n (outcome_of (program_item_of g))"
proof (rule eagerI)
  fix st assume st: "entry_ok f st" "next_in recovery_types st" "remaining st \<le> n"
  let ?ty = "t_type (current_token st)" and ?p = "outcome_of (program_item_of g)"
  let ?wp = "\<lambda>q. wp q (lands True anything st) (\<lambda>e. fails_behind st) st"
  have at: "?wp ?p" if "eager f (next_in tys) anything n q" "next_in tys st" "?p st = q st" for tys and q :: "unit parser"
    using eagerD [OF that(1) st(1) that(2) st(3)] that(3) by (simp add: wp_def)
  note items = program_item_of_def p_if_def pbind_def constant_start_def starts_static_def
    entry_check [OF st(1)] entry_check_any [OF st(1)] ret_def
  from st(2) consider "?ty = T_IMPORT" | "?ty = T_EXTERN" | "?ty = T_NAMESPACE" | "?ty = T_ENUM" | "?ty = T_INTERFACE"
    | "?ty = T_STRUCT" | "?ty = T_LBRACKET" | "next_in [T_IDENTIFIER, T_VOID, T_AUTO] st"
    by (auto simp: recovery_types_def next_in_def)
  then show "?wp ?p"
  proof cases
    case 1
    then show ?thesis
      by (intro at [OF eager_bind [OF eager_import safe_retI]]) (auto simp: items next_in_def)
  next
    case 2
    then show ?thesis by (intro at [OF eager_extern]) (auto simp: items next_in_def)
  next
    case 3
    then show ?thesis by (intro at [OF eager_namespace [OF assms]]) (auto simp: items next_in_def)
  next
    case 4
    then show ?thesis
      by (intro at [OF eager_bind [OF eager_enum [OF assms] safe_retI]]) (auto simp: items next_in_def)
  next
    case 5
    then show ?thesis
      by (intro at [OF eager_bind [OF eager_interface [OF assms] safe_retI]]) (auto simp: items next_in_def)
  next
    case 6
    then show ?thesis
      by (intro at [OF eager_struct_item [OF eager_struct(1) [OF assms] assms]]) (auto simp: items next_in_def)
  next
    case 7
    then show ?thesis
      by (intro at [OF eager_attributed [OF assms]]) (auto simp: items next_in_def)
  next
    case 8
    then show ?thesis
      by (intro at [OF eager_attribute_or_function [OF assms]]) (auto simp: items next_in_def)
  qed
qed

end


section \<open>The loop\<close>

lemma fails_ok: "entry_ok f st \<Longrightarrow> fails_at st st' \<Longrightarrow> source_ok f st'"
  by (auto simp: entry_ok_def source_ok_def fails_at_def)

lemma recovery_start: "recovery_point t scs \<Longrightarrow> t_type t \<noteq> T_END_OF_FILE \<Longrightarrow> t_type t \<in> set recovery_types"
  by (auto simp: recovery_point_iff recovery_types_def is_declaration_start_def isType_token_def Let_def split: if_splits)

text \<open>Recovery leaves the token at which the error was noticed, unless a declaration starts there.\<close>

lemma wp_recover:
  assumes "entry_ok f st" "t_type (current_token st) \<noteq> T_END_OF_FILE" "fails_at st st'"
    and progress: "next_in recovery_types st \<Longrightarrow> ps_current st < ps_current st'"
  shows "wp synchronize (\<lambda>_. fails_behind st) E st'"
proof -
  have ok: "parser_ok st'" "remaining st' \<le> Suc (length (ps_tokens st'))"
    using assms(3) by (auto simp: fails_at_def remaining_def)
  have "wp synchronize (\<lambda>_ st''. forward st' st'' \<and> recovery_point (current_token st'') (ps_scopes st')
           \<and> list_all (\<lambda>t. \<not> recovery_point t (ps_scopes st')) (skipped st' st'')
           \<and> pendingGreater st'' = pendingGreater st') E st'"
    using wp_synchronize [OF ok, of E] unfolding wp_def synchronize_def .
  then show ?thesis
  proof (rule wp_conseq)
    fix x st'' assume l: "forward st' st'' \<and> recovery_point (current_token st'') (ps_scopes st')
           \<and> list_all (\<lambda>t. \<not> recovery_point t (ps_scopes st')) (skipped st' st'')
           \<and> pendingGreater st'' = pendingGreater st'"
    then have r: "reaches st' st''" using forward_reaches [OF fails_ok [OF assms(1,3)]] by blast
    have "ps_current st < ps_current st''"
    proof (rule ccontr)
      assume "\<not> ps_current st < ps_current st''"
      then have same: "ps_current st'' = ps_current st" "ps_current st' = ps_current st"
        using r assms(3) by (auto simp: reaches_def fails_at_def)
      then have "current_token st'' = current_token st"
        using r assms(3) by (simp add: reaches_def fails_at_def current_token_def)
      then have "next_in recovery_types st"
        using l recovery_start assms(2) by (auto simp: next_in_def)
      then show False using progress same by simp
    qed
    then show "fails_behind st st''"
      using r assms(3) by (auto simp: reaches_def fails_at_def)
  qed
qed

context good_grammar
begin

lemma parse_rounds_total:
  "lacks f T_MACRO \<Longrightarrow> entry_ok f st \<Longrightarrow> 0 < ps_current st \<or> next_in recovery_types st
     \<Longrightarrow> remaining st \<le> j \<Longrightarrow> remaining st \<le> Suc k
     \<Longrightarrow> wp (parse_rounds j g ds es) (\<lambda>_ st'. fails_at st st' \<and> t_type (current_token st') = T_END_OF_FILE) (\<lambda>e st'. False) st"
proof (induction j arbitrary: st ds es)
  case 0
  then show ?case by (simp add: entry_ok_def remaining_def)
next
  case (Suc j)
  let ?p = "outcome_of (program_item_of g)"
  let ?Q = "\<lambda>_ st'. fails_at st st' \<and> t_type (current_token st') = T_END_OF_FILE"
  note entry = Suc.prems(2)
  show ?case
  proof (cases "t_type (current_token st) = T_END_OF_FILE")
    case True
    then have "source_ok f st"
      using Suc.prems(3) entry by (auto simp: entry_source next_in_def recovery_types_def)
    then show ?thesis
      using True by (simp add: p_if_def ok_parser) (simp add: current_token_def)
  next
    case False
    have again: "wp (parse_rounds j g ds' es') ?Q (\<lambda>e st'. False) st'"
      if "fails_behind st st'" for st' ds' es'
    proof -
      have at: "remaining st' \<le> j" "remaining st' \<le> Suc k" "0 < ps_current st' \<or> next_in recovery_types st'"
        using that Suc.prems(4,5) by (auto simp: fails_at_def remaining_def parser_ok_def)
      have "entry_ok f st'" using fails_ok [OF entry] that by (simp add: entry_source)
      from Suc.IH [OF Suc.prems(1) this at(3,1,2)] show ?thesis
        by (rule wp_conseq) (use that in \<open>auto simp: fails_at_def\<close>)
    qed
    have start: "wp ?p (lands True anything st) (\<lambda>e. fails_behind st) st" if "next_in recovery_types st"
      using eagerD [OF eager_program_item [OF order_refl] entry that] Suc.prems(5) by simp
    have item: "wp ?p (lands True anything st) (\<lambda>e. fails_at st) st"
    proof (cases "0 < ps_current st")
      case True
      then have "source_ok f st" using entry by (simp add: entry_source)
      then show ?thesis
        using safeD [OF safe_program_item [OF Suc.prems(1) order_refl, where P = anything]] Suc.prems(5) by simp
    next
      case False
      then show ?thesis using Suc.prems(3) start by (auto elim!: wp_conseq_both)
    qed
    obtain new where run: "program_item_of g st = (new, ?p st)"
      by (cases "program_item_of g st") (simp add: outcome_of_def)
    have "p_isAtEnd st = P_Ok False st"
      using entry False by (simp add: p_isAtEnd_def p_peek_def pbind_def ret_def entry_ok_def current_token_def)
    then have step: "parse_rounds (Suc j) g ds es st =
       (case ?p st of
          P_Ok x st' \<Rightarrow> parse_rounds j g (ds @ new) es st'
        | P_Error e st' \<Rightarrow> pbind synchronize (\<lambda>_. parse_rounds j g (ds @ new) (es @ [e])) st'
        | P_Raise e \<Rightarrow> P_Raise e | P_Abort \<Rightarrow> P_Abort | P_Undefined \<Rightarrow> P_Undefined | P_Fuel \<Rightarrow> P_Fuel)"
      by (simp add: p_if_def pbind_def run)
    from wp_outcomes [OF item] show ?thesis
    proof (elim disjE exE conjE)
      fix x st' assume r: "?p st = P_Ok x st'" "lands True anything st x st'"
      then have "fails_behind st st'" by (auto simp: lands_def reaches_fails)
      from again [OF this] show ?thesis by (simp add: wp_def step r del: parse_rounds.simps)
    next
      fix e st' assume r: "?p st = P_Error e st'" "fails_at st st'"
      have "wp synchronize (\<lambda>_. fails_behind st) (\<lambda>e st'. False) st'"
        by (rule wp_recover [OF entry False r(2)]) (use start r in \<open>simp add: wp_def\<close>)
      then have "wp synchronize (\<lambda>_. wp (parse_rounds j g (ds @ new) (es @ [e])) ?Q (\<lambda>e st'. False)) (\<lambda>e st'. False) st'"
        by (rule wp_conseq) (use again in blast)
      then have "wp (pbind synchronize (\<lambda>_. parse_rounds j g (ds @ new) (es @ [e]))) ?Q (\<lambda>e st'. False) st'" by simp
      then show ?thesis by (simp only: wp_def step r outcome.case)
    next
      fix e assume "?p st = P_Raise e"
      then show ?thesis by (simp add: wp_def step del: parse_rounds.simps)
    qed
  qed
qed

end


text \<open>C21: Parsing a program always comes to an end and always leaves an answer. Take a token list that ends with
  an end-of-file token, all of one file, in which no token is macro, no string literal has an opening
  brace in it (no interpolation), no string behind auto or mut is empty, no string at all is empty if the
  word in occurs, no shift operator occurs if the word operator does, and only string literals and the
  end of the file have an empty text. The parser stands behind the first token, or at the first if that is import,
  extern, namespace, enum, interface, struct, an opening bracket, an identifier, void or auto; no macro is
  known, no closing bracket is pending unless a shift operator occurs, and a scope is open. A depth of the
  number of tokens ahead is enough. However often the parser fails, it recovers: the loop reads to
  the end of the file and returns the declarations it could read and the errors it reported, or it
  throws; it reads nowhere outside the token vector, fails no assertion and does not run for
  ever. Recovery alone does not give this, since it stays where it is at a word that can start a
  declaration; what does is that each of the parse functions chosen at such a word consumes it before
  it can fail.\<close>

theorem program_parser_total:
  assumes "entry_ok f st" "0 < ps_current st \<or> next_in recovery_types st" "lacks f T_MACRO" "remaining st \<le> Suc k"
  shows "(\<exists>ds es st'. parse_program k st = P_Ok (ds, es) st' \<and> ps_tokens st' = ps_tokens st
            \<and> t_type (current_token st') = T_END_OF_FILE)
    \<or> (\<exists>e. parse_program k st = P_Raise e)"
proof -
  have "remaining st \<le> Suc (length (ps_tokens st))" by (simp add: remaining_def)
  from wp_outcomes [OF depth.parse_rounds_total [OF assms(3,1,2) this assms(4), of "[]" "[]"]] show ?thesis
    by (auto simp: parse_program_def parse_with_def with_rounds_def fails_at_def simp del: parse_rounds.simps)
qed

definition broken_program :: parser_state where
  "broken_program = new_parser (spelled [(T_STRUCT, ''struct''), (T_STRUCT, ''struct''),
     (T_IDENTIFIER, ''S''), (T_SEMICOLON, '';''), (T_RPAREN, '')''), (T_END_OF_FILE, [])])"

theorem program_parser_total_witness:
  "(\<exists>ds es st'. parse_program 6 broken_program = P_Ok (ds, es) st' \<and> ps_tokens st' = ps_tokens broken_program
        \<and> t_type (current_token st') = T_END_OF_FILE)
   \<or> (\<exists>e. parse_program 6 broken_program = P_Raise e)"
  by (rule program_parser_total [where f = "(''main'', ps_tokens broken_program)"])
    (simp_all add: broken_program_def entry_ok_def tokens_ok_def token_ok_def new_parser_def spelled_def splits_def
      has_operator_def has_range_def lacks_def remaining_def next_in_def recovery_types_def current_token_def)

end
