(* ===== verification/Json_Library.thy ===== *)
theory Json_Library
  imports Doubles
begin

text \<open>
  The JSON library the library format is written with (\<^verbatim>\<open>nlohmann::json\<close>) is not part of the
  repository: its values and functions are the parameter \<open>api\<close> of every definition that uses them, one
  field per function. A function that can throw gives \<^const>\<open>None\<close>. \<open>json_library\<close> is what its
  documentation promises of them; the values the code puts in are read back by the matching \<^verbatim>\<open>get\<close>.
\<close>

section \<open>The functions the code calls\<close>

record 'j json_api =
  js_null :: 'j
  js_set :: "string \<Rightarrow> 'j \<Rightarrow> 'j \<Rightarrow> 'j"
  js_array :: "'j list \<Rightarrow> 'j"
  js_string :: "string \<Rightarrow> 'j"
  js_bool :: "bool \<Rightarrow> 'j"
  js_unsigned :: "nat \<Rightarrow> 'j"
  js_int :: "i64 \<Rightarrow> 'j"
  js_float :: "double \<Rightarrow> 'j"
  js_is_object :: "'j \<Rightarrow> bool"
  js_at :: "string \<Rightarrow> 'j \<Rightarrow> 'j option"
  js_items :: "'j \<Rightarrow> 'j list"
  js_elements :: "'j \<Rightarrow> 'j list option"
  js_empty :: "'j \<Rightarrow> bool"
  js_get_string :: "'j \<Rightarrow> string option"
  js_get_bool :: "'j \<Rightarrow> bool option"
  js_get_unsigned :: "'j \<Rightarrow> nat option"
  js_get_int :: "'j \<Rightarrow> i64 option"
  js_get_float :: "'j \<Rightarrow> double option"
  js_dump :: "'j \<Rightarrow> string option"
  js_parse :: "string \<Rightarrow> 'j option"

text \<open>
  \<^verbatim>\<open>j.contains(k)\<close>, \<^verbatim>\<open>j.value(k, d)\<close>, \<^verbatim>\<open>j.at(k).get<T>()\<close> and \<^verbatim>\<open>get<std::vector<T>>()\<close> in terms of them.
\<close>

definition js_contains :: "'j json_api \<Rightarrow> string \<Rightarrow> 'j \<Rightarrow> bool" where
  "js_contains api k j \<longleftrightarrow> js_at api k j \<noteq> None"

definition js_value :: "'j json_api \<Rightarrow> ('j \<Rightarrow> 'a option) \<Rightarrow> string \<Rightarrow> 'a \<Rightarrow> 'j \<Rightarrow> 'a option" where
  "js_value api get k d j =
     (if \<not> js_is_object api j then None
      else case js_at api k j of Some v \<Rightarrow> get v | None \<Rightarrow> Some d)"

definition js_field :: "'j json_api \<Rightarrow> ('j \<Rightarrow> 'a option) \<Rightarrow> string \<Rightarrow> 'j \<Rightarrow> 'a option" where
  "js_field api get k j = Option.bind (js_at api k j) get"

fun map_option_list :: "('a \<Rightarrow> 'b option) \<Rightarrow> 'a list \<Rightarrow> 'b list option" where
  "map_option_list f [] = Some []"
| "map_option_list f (x # xs) =
     Option.bind (f x) (\<lambda>y. Option.bind (map_option_list f xs) (\<lambda>ys. Some (y # ys)))"

definition js_vector :: "'j json_api \<Rightarrow> ('j \<Rightarrow> 'a option) \<Rightarrow> 'j \<Rightarrow> 'a list option" where
  "js_vector api get j = Option.bind (js_elements api j) (map_option_list get)"

definition js_optional_vector :: "'j json_api \<Rightarrow> ('j \<Rightarrow> 'a option) \<Rightarrow> string \<Rightarrow> 'j \<Rightarrow> 'a list option" where
  "js_optional_vector api get k j =
     (if js_contains api k j then js_field api (js_vector api get) k j else Some [])"

text \<open>A run of assignments \<^verbatim>\<open>j[k] = v\<close> to a fresh value, some of them under a condition.\<close>

definition js_object :: "'j json_api \<Rightarrow> (string \<times> 'j) list \<Rightarrow> 'j" where
  "js_object api fs = foldl (\<lambda>j (k, v). js_set api k v j) (js_null api) fs"

definition given :: "bool \<Rightarrow> string \<Rightarrow> 'j \<Rightarrow> (string \<times> 'j) list" where
  "given c k v = (if c then [(k, v)] else [])"

definition given_option :: "string \<Rightarrow> 'j option \<Rightarrow> (string \<times> 'j) list" where
  "given_option k r = (case r of Some v \<Rightarrow> [(k, v)] | None \<Rightarrow> [])"

section \<open>What the library promises\<close>

definition js_object_laws :: "'j json_api \<Rightarrow> bool" where
  "js_object_laws api \<longleftrightarrow>
     (\<forall>k. js_at api k (js_null api) = None)
     \<and> (\<forall>k v j. j = js_null api \<or> js_is_object api j \<longrightarrow>
          js_is_object api (js_set api k v j)
          \<and> (\<forall>k'. js_at api k' (js_set api k v j) = (if k' = k then Some v else js_at api k' j)))"

definition js_array_laws :: "'j json_api \<Rightarrow> bool" where
  "js_array_laws api \<longleftrightarrow>
     (\<forall>xs. js_items api (js_array api xs) = xs \<and> js_elements api (js_array api xs) = Some xs
        \<and> (js_empty api (js_array api xs) \<longleftrightarrow> xs = []))"

definition js_scalar_laws :: "'j json_api \<Rightarrow> bool" where
  "js_scalar_laws api \<longleftrightarrow>
     (\<forall>s. js_get_string api (js_string api s) = Some s)
     \<and> (\<forall>b. js_get_bool api (js_bool api b) = Some b)
     \<and> (\<forall>n. n < 2 ^ 64 \<longrightarrow> js_get_unsigned api (js_unsigned api n) = Some n)
     \<and> (\<forall>i. js_get_int api (js_int api i) = Some i)
     \<and> (\<forall>d. js_get_float api (js_float api d) = Some d)"

definition json_library :: "'j json_api \<Rightarrow> bool" where
  "json_library api \<longleftrightarrow> js_object_laws api \<and> js_array_laws api \<and> js_scalar_laws api"

text \<open>The fields of a value built by assignments: the last one to a key counts.\<close>

definition or_else :: "'a option \<Rightarrow> 'a option \<Rightarrow> 'a option" where
  "or_else r s = (case r of Some v \<Rightarrow> Some v | None \<Rightarrow> s)"

fun js_assigned :: "string \<Rightarrow> (string \<times> 'j) list \<Rightarrow> 'j option" where
  "js_assigned k [] = None"
| "js_assigned k ((k', v) # fs) = or_else (js_assigned k fs) (if k = k' then Some v else None)"

named_theorems js_simps \<open>reading of values the code has built\<close>

lemma or_else_simps [simp]: "or_else None s = s" "or_else (Some v) s = Some v" "or_else r None = r"
  by (simp_all add: or_else_def split: option.split)

lemma js_assigned_append [js_simps]:
  "js_assigned k (xs @ ys) = or_else (js_assigned k ys) (js_assigned k xs)"
  by (induction xs) (auto simp: or_else_def split: option.splits)

lemma js_assigned_given [js_simps]: "js_assigned k (given c k' v) = (if k = k' \<and> c then Some v else None)"
  by (simp add: given_def)

lemma js_assigned_option [js_simps]: "js_assigned k (given_option k' r) = (if k = k' then r else None)"
  by (simp add: given_option_def split: option.split)

lemma object_append: "js_object api (fs @ [(k, v)]) = js_set api k v (js_object api fs)"
  by (simp add: js_object_def)

lemma object_spec:
  assumes "json_library api"
  shows "(fs \<noteq> [] \<longrightarrow> js_is_object api (js_object api fs)) \<and> js_at api k (js_object api fs) = js_assigned k fs"
proof (induction fs arbitrary: k rule: rev_induct)
  case Nil
  then show ?case using assms by (simp add: json_library_def js_object_laws_def js_object_def)
next
  case (snoc f fs)
  obtain k' v where f: "f = (k', v)" by force
  have "js_object api fs = js_null api \<or> js_is_object api (js_object api fs)"
    using snoc by (cases "fs = []") (auto simp: js_object_def)
  then show ?case
    using assms snoc by (auto simp: f object_append js_assigned_append json_library_def js_object_laws_def)
qed

lemma at_object [js_simps]: "json_library api \<Longrightarrow> js_at api k (js_object api fs) = js_assigned k fs"
  using object_spec by blast

lemma is_object_built [js_simps]: "json_library api \<Longrightarrow> js_is_object api (js_object api (f # fs))"
  using object_spec [of api "f # fs"] by blast

lemma library_values [js_simps]:
  assumes "json_library api"
  shows "js_items api (js_array api xs) = xs" "js_elements api (js_array api xs) = Some xs"
    "js_empty api (js_array api xs) \<longleftrightarrow> xs = []"
    "js_get_string api (js_string api s) = Some s" "js_get_bool api (js_bool api b) = Some b"
    "n < 18446744073709551616 \<Longrightarrow> js_get_unsigned api (js_unsigned api n) = Some n"
    "js_get_int api (js_int api i) = Some i" "js_get_float api (js_float api d) = Some d"
  using assms by (simp_all add: json_library_def js_array_laws_def js_scalar_laws_def)

lemmas js_readers [js_simps] = js_field_def js_value_def js_contains_def js_vector_def

lemma optional_vector_object [js_simps]:
  "json_library api \<Longrightarrow> js_optional_vector api get k (js_object api fs) =
     (case js_assigned k fs of None \<Rightarrow> Some [] | Some v \<Rightarrow> Option.bind (js_elements api v) (map_option_list get))"
  by (simp add: js_optional_vector_def js_readers at_object split: option.split)

text \<open>A field written only when it differs from the default that is read for a missing field.\<close>

lemma flag_case [js_simps]:
  "f v = Some True \<Longrightarrow> (case (if c then Some v else None) of None \<Rightarrow> Some False | Some w \<Rightarrow> f w) = Some c"
  by simp

lemma default_case [js_simps]:
  "c \<or> f v = Some d \<Longrightarrow> (case (if c then Some v else None) of None \<Rightarrow> Some d | Some w \<Rightarrow> f w) = f v"
  by auto

lemma map_option_list_map:
  "(\<And>x. x \<in> set xs \<Longrightarrow> f (g x) = Some (h x)) \<Longrightarrow> map_option_list f (map g xs) = Some (map h xs)"
  by (induction xs) auto

lemma map_option_list_same: "(\<And>x. x \<in> set xs \<Longrightarrow> f (g x) = Some x) \<Longrightarrow> map_option_list f (map g xs) = Some xs"
  by (induction xs) auto

lemma map_option_list_mono [partial_function_mono]:
  assumes "\<And>x. mono_option (\<lambda>f. B f x)"
  shows "mono_option (\<lambda>f. map_option_list (B f) xs)"
  by (induction xs) (auto intro!: assms bind_mono option.const_mono)

section \<open>A library that keeps the promises\<close>

text \<open>Values as the documentation describes them, to show that the promises can be kept.\<close>

datatype plain_json =
    PJ_Null | PJ_Bool bool | PJ_Unsigned nat | PJ_Int i64 | PJ_Float double | PJ_String string
  | PJ_Array "plain_json list" | PJ_Object "(string \<times> plain_json) list"

definition plain_set :: "string \<Rightarrow> plain_json \<Rightarrow> plain_json \<Rightarrow> plain_json" where
  "plain_set k v j = (case j of PJ_Object fs \<Rightarrow> PJ_Object ((k, v) # fs) | _ \<Rightarrow> PJ_Object [(k, v)])"

definition plain_at :: "string \<Rightarrow> plain_json \<Rightarrow> plain_json option" where
  "plain_at k j = (case j of PJ_Object fs \<Rightarrow> map_of fs k | _ \<Rightarrow> None)"

definition plain_items :: "plain_json \<Rightarrow> plain_json list" where
  "plain_items j = (case j of PJ_Null \<Rightarrow> [] | PJ_Array xs \<Rightarrow> xs | PJ_Object fs \<Rightarrow> map snd fs | _ \<Rightarrow> [j])"

definition plain_api :: "(plain_json \<Rightarrow> string option) \<Rightarrow> (string \<Rightarrow> plain_json option) \<Rightarrow> plain_json json_api" where
  "plain_api dump parse =
     \<lparr>js_null = PJ_Null, js_set = plain_set, js_array = PJ_Array, js_string = PJ_String, js_bool = PJ_Bool,
      js_unsigned = PJ_Unsigned, js_int = PJ_Int, js_float = PJ_Float,
      js_is_object = (\<lambda>j. case j of PJ_Object _ \<Rightarrow> True | _ \<Rightarrow> False), js_at = plain_at, js_items = plain_items,
      js_elements = (\<lambda>j. case j of PJ_Array xs \<Rightarrow> Some xs | _ \<Rightarrow> None),
      js_empty = (\<lambda>j. plain_items j = []),
      js_get_string = (\<lambda>j. case j of PJ_String s \<Rightarrow> Some s | _ \<Rightarrow> None),
      js_get_bool = (\<lambda>j. case j of PJ_Bool b \<Rightarrow> Some b | _ \<Rightarrow> None),
      js_get_unsigned = (\<lambda>j. case j of PJ_Unsigned n \<Rightarrow> Some n | _ \<Rightarrow> None),
      js_get_int = (\<lambda>j. case j of PJ_Int i \<Rightarrow> Some i | PJ_Unsigned n \<Rightarrow> Some (word_of_nat n) | _ \<Rightarrow> None),
      js_get_float = (\<lambda>j. case j of PJ_Float d \<Rightarrow> Some d | _ \<Rightarrow> None),
      js_dump = dump, js_parse = parse\<rparr>"

lemma plain_json_library [simp]: "json_library (plain_api dump parse)"
  by (auto simp: json_library_def js_object_laws_def js_array_laws_def js_scalar_laws_def plain_api_def
      plain_set_def plain_at_def plain_items_def split: plain_json.splits)

end
