(* ===== verification/Lib_Format.thy ===== *)
theory Lib_Format
  imports Json_Library Symbols
begin

text \<open>
  \<^verbatim>\<open>lib/DjLibFormat.h\<close>: how tokens, types and symbols become JSON values in a compiled library and are
  read back. A \<^verbatim>\<open>to_json\<close> is the run of assignments of its body, a \<^verbatim>\<open>from_json\<close> gives \<^const>\<open>None\<close> where
  the JSON library throws. A value is read into a fresh object, so what is not stored keeps the value
  the constructor gives it; \<^verbatim>\<open>Type\<close> arguments taken by constant reference are copied.
\<close>

section \<open>Names of token types\<close>

definition token_name_table :: "(token_type \<times> string) list" where
  "token_name_table = [
     (T_UNKNOWN, ''UNKNOWN''), (T_END_OF_FILE, ''EOF''), (T_EXTERN, ''EXTERN''), (T_RETURN, ''RETURN''),
     (T_STRUCT, ''STRUCT''), (T_NAMESPACE, ''NAMESPACE''), (T_IMPORT, ''IMPORT''), (T_MUT, ''MUT''),
     (T_IF, ''IF''), (T_ELSE, ''ELSE''), (T_FOR, ''FOR''), (T_WHILE, ''WHILE''), (T_DO, ''DO''),
     (T_SWITCH, ''SWITCH''), (T_CASE, ''CASE''), (T_DEFAULT, ''DEFAULT''), (T_BREAK, ''BREAK''),
     (T_CONTINUE, ''CONTINUE''), (T_INTERFACE, ''INTERFACE''), (T_PUBLIC, ''PUBLIC''),
     (T_PRIVATE, ''PRIVATE''), (T_STATIC, ''STATIC''), (T_UNSAFE, ''UNSAFE''), (T_THIS, ''THIS''),
     (T_INT, ''INT''), (T_UINT, ''UINT''), (T_VOID, ''VOID''), (T_FLOAT, ''FLOAT''),
     (T_STRING, ''STRING''), (T_AUTO, ''AUTO''), (T_FALSE, ''FALSE''), (T_TRUE, ''TRUE''),
     (T_IDENTIFIER, ''IDENTIFIER''), (T_STRING_LITERAL, ''STRING_LITERAL''),
     (T_INTEGER_LITERAL, ''INTEGER_LITERAL''), (T_FLOAT_LITERAL, ''FLOAT_LITERAL''),
     (T_LPAREN, ''LPAREN''), (T_RPAREN, ''RPAREN''), (T_LBRACE, ''LBRACE''), (T_RBRACE, ''RBRACE''),
     (T_LBRACKET, ''LBRACKET''), (T_RBRACKET, ''RBRACKET''), (T_SEMICOLON, ''SEMICOLON''),
     (T_COMMA, ''COMMA''), (T_PLUS, ''PLUS''), (T_MINUS, ''MINUS''), (T_PLUS_PLUS, ''PLUS_PLUS''),
     (T_MINUS_MINUS, ''MINUS_MINUS''), (T_STAR, ''STAR''), (T_SLASH, ''SLASH''),
     (T_PERCENT, ''PERCENT''), (T_EQUAL_EQUAL, ''EQUAL_EQUAL''), (T_BANG_EQUAL, ''BANG_EQUAL''),
     (T_LESS, ''LESS''), (T_LESS_EQUAL, ''LESS_EQUAL''), (T_GREATER, ''GREATER''),
     (T_GREATER_EQUAL, ''GREATER_EQUAL''), (T_BANG, ''BANG''), (T_AND_AND, ''AND_AND''),
     (T_OR_OR, ''OR_OR''), (T_AMPERSAND, ''AMPERSAND''), (T_PIPE, ''PIPE''), (T_CARET, ''CARET''),
     (T_TILDE, ''TILDE''), (T_LESS_LESS, ''LESS_LESS''), (T_GREATER_GREATER, ''GREATER_GREATER''),
     (T_EQUAL, ''EQUAL''), (T_ARROW, ''ARROW''), (T_THIN_ARROW, ''THIN_ARROW''),
     (T_PLUS_EQUAL, ''PLUS_EQUAL''), (T_MINUS_EQUAL, ''MINUS_EQUAL''), (T_STAR_EQUAL, ''STAR_EQUAL''),
     (T_SLASH_EQUAL, ''SLASH_EQUAL''), (T_PERCENT_EQUAL, ''PERCENT_EQUAL''),
     (T_AMPERSAND_EQUAL, ''AMPERSAND_EQUAL''), (T_PIPE_EQUAL, ''PIPE_EQUAL''),
     (T_CARET_EQUAL, ''CARET_EQUAL''), (T_LESS_LESS_EQUAL, ''LESS_LESS_EQUAL''),
     (T_GREATER_GREATER_EQUAL, ''GREATER_GREATER_EQUAL''), (T_COLON, ''COLON''),
     (T_COLON_COLON, ''COLON_COLON''), (T_DOT, ''DOT''), (T_DOT_DOT, ''DOT_DOT''),
     (T_DOT_DOT_EQUAL, ''DOT_DOT_EQUAL''), (T_DOT_DOT_DOT, ''DOT_DOT_DOT''), (T_AT, ''AT''),
     (T_ENUM, ''ENUM''), (T_NEW, ''NEW''), (T_IMPL, ''IMPL''), (T_WHERE, ''WHERE''), (T_IN, ''IN''),
     (T_ASYNC, ''ASYNC''), (T_AWAIT, ''AWAIT''), (T_YIELD, ''YIELD''), (T_SPAWN, ''SPAWN''),
     (T_OPERATOR, ''OPERATOR''), (T_CONST_EXPR, ''CONST_EXPR''), (T_CONST_EVAL, ''CONST_EVAL''),
     (T_CONST, ''CONST''), (T_MACRO, ''MACRO''), (T_IS, ''IS'')]"

definition serializeTokenType :: "token_type \<Rightarrow> string" where
  "serializeTokenType t = (case map_of token_name_table t of Some s \<Rightarrow> s | None \<Rightarrow> ''UNKNOWN'')"

definition name_token_table :: "(string \<times> token_type) list" where
  "name_token_table = [
     (''UNKNOWN'', T_UNKNOWN), (''EOF'', T_END_OF_FILE), (''EXTERN'', T_EXTERN), (''RETURN'', T_RETURN),
     (''STRUCT'', T_STRUCT), (''NAMESPACE'', T_NAMESPACE), (''IMPORT'', T_IMPORT), (''MUT'', T_MUT),
     (''IF'', T_IF), (''ELSE'', T_ELSE), (''FOR'', T_FOR), (''WHILE'', T_WHILE), (''DO'', T_DO),
     (''SWITCH'', T_SWITCH), (''CASE'', T_CASE), (''DEFAULT'', T_DEFAULT), (''BREAK'', T_BREAK),
     (''CONTINUE'', T_CONTINUE), (''INTERFACE'', T_INTERFACE), (''PUBLIC'', T_PUBLIC),
     (''PRIVATE'', T_PRIVATE), (''STATIC'', T_STATIC), (''UNSAFE'', T_UNSAFE), (''THIS'', T_THIS),
     (''INT'', T_INT), (''UINT'', T_UINT), (''VOID'', T_VOID), (''FLOAT'', T_FLOAT),
     (''STRING'', T_STRING), (''AUTO'', T_AUTO), (''FALSE'', T_FALSE), (''TRUE'', T_TRUE),
     (''IDENTIFIER'', T_IDENTIFIER), (''STRING_LITERAL'', T_STRING_LITERAL),
     (''INTEGER_LITERAL'', T_INTEGER_LITERAL), (''FLOAT_LITERAL'', T_FLOAT_LITERAL),
     (''LPAREN'', T_LPAREN), (''RPAREN'', T_RPAREN), (''LBRACE'', T_LBRACE), (''RBRACE'', T_RBRACE),
     (''LBRACKET'', T_LBRACKET), (''RBRACKET'', T_RBRACKET), (''SEMICOLON'', T_SEMICOLON),
     (''COMMA'', T_COMMA), (''PLUS'', T_PLUS), (''MINUS'', T_MINUS), (''PLUS_PLUS'', T_PLUS_PLUS),
     (''MINUS_MINUS'', T_MINUS_MINUS), (''STAR'', T_STAR), (''SLASH'', T_SLASH),
     (''PERCENT'', T_PERCENT), (''EQUAL_EQUAL'', T_EQUAL_EQUAL), (''BANG_EQUAL'', T_BANG_EQUAL),
     (''LESS'', T_LESS), (''LESS_EQUAL'', T_LESS_EQUAL), (''GREATER'', T_GREATER),
     (''GREATER_EQUAL'', T_GREATER_EQUAL), (''BANG'', T_BANG), (''AND_AND'', T_AND_AND),
     (''OR_OR'', T_OR_OR), (''AMPERSAND'', T_AMPERSAND), (''PIPE'', T_PIPE), (''CARET'', T_CARET),
     (''TILDE'', T_TILDE), (''LESS_LESS'', T_LESS_LESS), (''GREATER_GREATER'', T_GREATER_GREATER),
     (''EQUAL'', T_EQUAL), (''ARROW'', T_ARROW), (''THIN_ARROW'', T_THIN_ARROW),
     (''PLUS_EQUAL'', T_PLUS_EQUAL), (''MINUS_EQUAL'', T_MINUS_EQUAL), (''STAR_EQUAL'', T_STAR_EQUAL),
     (''SLASH_EQUAL'', T_SLASH_EQUAL), (''PERCENT_EQUAL'', T_PERCENT_EQUAL),
     (''AMPERSAND_EQUAL'', T_AMPERSAND_EQUAL), (''PIPE_EQUAL'', T_PIPE_EQUAL),
     (''CARET_EQUAL'', T_CARET_EQUAL), (''LESS_LESS_EQUAL'', T_LESS_LESS_EQUAL),
     (''GREATER_GREATER_EQUAL'', T_GREATER_GREATER_EQUAL), (''COLON'', T_COLON),
     (''COLON_COLON'', T_COLON_COLON), (''DOT'', T_DOT), (''DOT_DOT'', T_DOT_DOT),
     (''DOT_DOT_EQUAL'', T_DOT_DOT_EQUAL), (''DOT_DOT_DOT'', T_DOT_DOT_DOT), (''AT'', T_AT),
     (''ENUM'', T_ENUM), (''NEW'', T_NEW), (''IMPL'', T_IMPL), (''WHERE'', T_WHERE), (''IN'', T_IN),
     (''ASYNC'', T_ASYNC), (''AWAIT'', T_AWAIT), (''YIELD'', T_YIELD), (''SPAWN'', T_SPAWN),
     (''OPERATOR'', T_OPERATOR), (''CONST_EXPR'', T_CONST_EXPR), (''CONST_EVAL'', T_CONST_EVAL),
     (''CONST'', T_CONST), (''MACRO'', T_MACRO), (''IS'', T_IS)]"

definition deserializeTokenType :: "string \<Rightarrow> token_type" where
  "deserializeTokenType s = (case map_of name_token_table s of Some t \<Rightarrow> t | None \<Rightarrow> T_UNKNOWN)"

section \<open>Positions and tokens\<close>

definition position_to_json :: "'j json_api \<Rightarrow> position \<Rightarrow> 'j" where
  "position_to_json api p =
     js_object api [(''line'', js_unsigned api (unat (p_line p))), (''col'', js_unsigned api (unat (p_column p)))]"

definition js_get_u32 :: "'j json_api \<Rightarrow> 'j \<Rightarrow> u32 option" where
  "js_get_u32 api j = map_option word_of_nat (js_get_unsigned api j)"

definition position_from_json :: "'j json_api \<Rightarrow> 'j \<Rightarrow> position option" where
  "position_from_json api j =
     do {
       l \<leftarrow> js_value api (js_get_u32 api) ''line'' 0 j;
       c \<leftarrow> js_value api (js_get_u32 api) ''col'' 0 j;
       Some \<lparr>p_fileId = [], p_line = l, p_column = c, p_index = 0\<rparr>
     }"

definition no_position :: position where
  "no_position = \<lparr>p_fileId = [], p_line = 0, p_column = 0, p_index = 0\<rparr>"

definition token_to_json :: "'j json_api \<Rightarrow> token \<Rightarrow> 'j" where
  "token_to_json api t =
     js_object api
       ([(''t'', js_string api (serializeTokenType (t_type t))), (''v'', js_string api (t_value t))]
        @ given (p_line (t_position t) \<noteq> 0) ''p'' (position_to_json api (t_position t)))"

definition token_from_json :: "'j json_api \<Rightarrow> 'j \<Rightarrow> token option" where
  "token_from_json api j =
     do {
       ty \<leftarrow> js_field api (js_get_string api) ''t'' j;
       v \<leftarrow> js_field api (js_get_string api) ''v'' j;
       p \<leftarrow> (if js_contains api ''p'' j then js_field api (position_from_json api) ''p'' j else Some no_position);
       Some \<lparr>t_position = p, t_type = deserializeTokenType ty, t_value = v\<rparr>
     }"

section \<open>Types\<close>

definition overflow_mode_code :: "overflow_mode \<Rightarrow> nat" where
  "overflow_mode_code m =
     (case m of OM_None \<Rightarrow> 0 | OM_Wrapped \<Rightarrow> 1 | OM_Trapped \<Rightarrow> 2 | OM_Checked \<Rightarrow> 3 | OM_Saturating \<Rightarrow> 4)"

text \<open>A byte that is no enumerator, which the writer never stores, has no counterpart here.\<close>

definition overflow_mode_of_code :: "nat \<Rightarrow> overflow_mode option" where
  "overflow_mode_of_code n =
     (let b = n mod 256 in
      if b = 0 then Some OM_None else if b = 1 then Some OM_Wrapped else if b = 2 then Some OM_Trapped
      else if b = 3 then Some OM_Checked else if b = 4 then Some OM_Saturating else None)"

primrec type_to_json :: "'j json_api \<Rightarrow> type_t \<Rightarrow> 'j" where
  "type_to_json api (Type a el args) =
     js_object api
       ([(''kind'', js_string api (kindToString (ty_kind a)))]
        @ given (ty_size a \<noteq> 0) ''size'' (js_unsigned api (ty_size a))
        @ given (ty_sign a) ''sign'' (js_bool api True)
        @ given (nullable a) ''nullable'' (js_bool api True)
        @ given (readOnly a) ''readOnly'' (js_bool api True)
        @ given (isTransparent a) ''transparent'' (js_bool api True)
        @ given (native a) ''native'' (js_bool api True)
        @ given (overflowMode a \<noteq> OM_None) ''overflowMode'' (js_unsigned api (overflow_mode_code (overflowMode a)))
        @ given (structName a \<noteq> []) ''structName'' (js_string api (structName a))
        @ given (args \<noteq> []) ''genericArgs'' (js_array api (map (type_to_json api) args))
        @ given_option ''elementType'' (map_option (type_to_json api) el))"

definition kind_of_string :: "string \<Rightarrow> type_kind" where
  "kind_of_string s =
     (if s = ''INTEGER'' then TK_INTEGER else if s = ''VOID'' then TK_VOID else if s = ''F16'' then TK_F16
      else if s = ''F32'' then TK_F32 else if s = ''F64'' then TK_F64 else if s = ''F128'' then TK_F128
      else if s = ''STRUCT'' then TK_STRUCT else if s = ''AUTO'' then TK_AUTO else if s = ''ARRAY'' then TK_ARRAY
      else if s = ''POINTER'' then TK_POINTER else TK_VOID)"

definition attrs_from_json :: "'j json_api \<Rightarrow> 'j \<Rightarrow> type_attrs option" where
  "attrs_from_json api j =
     do {
       k \<leftarrow> js_field api (js_get_string api) ''kind'' j;
       sz \<leftarrow> js_value api (js_get_unsigned api) ''size'' 0 j;
       sg \<leftarrow> js_value api (js_get_bool api) ''sign'' False j;
       nu \<leftarrow> js_value api (js_get_bool api) ''nullable'' False j;
       ro \<leftarrow> js_value api (js_get_bool api) ''readOnly'' False j;
       tr \<leftarrow> js_value api (js_get_bool api) ''transparent'' False j;
       nat \<leftarrow> js_value api (js_get_bool api) ''native'' False j;
       code \<leftarrow> js_value api (js_get_unsigned api) ''overflowMode'' 0 j;
       mode \<leftarrow> overflow_mode_of_code code;
       sn \<leftarrow> js_value api (js_get_string api) ''structName'' [] j;
       Some \<lparr>ty_size = sz, ty_kind = kind_of_string k, ty_sign = sg, nullable = nu, readOnly = ro,
             isTransparent = tr, native = nat, overflowMode = mode, nonZero = False, structName = sn\<rparr>
     }"

text \<open>The nesting of a JSON value is that of the types it holds; the reader has no bound on it.\<close>

partial_function (option) type_from_json :: "'j json_api \<Rightarrow> 'j \<Rightarrow> type_t option" where
  "type_from_json api j =
     Option.bind (attrs_from_json api j) (\<lambda>a.
     Option.bind
       (case js_at api ''genericArgs'' j of
          None \<Rightarrow> Some []
        | Some v \<Rightarrow> Option.bind (js_elements api v) (\<lambda>es. map_option_list (\<lambda>e. type_from_json api e) es)) (\<lambda>args.
     Option.bind
       (case js_at api ''elementType'' j of
          None \<Rightarrow> Some None
        | Some v \<Rightarrow> Option.bind (type_from_json api v) (\<lambda>t. Some (Some t))) (\<lambda>el.
     Some (Type a el args))))"

section \<open>Generic parameters and attributes\<close>

definition js_strings :: "'j json_api \<Rightarrow> string list \<Rightarrow> 'j" where
  "js_strings api ss = js_array api (map (js_string api) ss)"

definition generic_to_json :: "'j json_api \<Rightarrow> generic_param_info \<Rightarrow> 'j" where
  "generic_to_json api g =
     js_object api
       ([(''name'', js_string api (gp_name g))]
        @ given (gp_constraints g \<noteq> []) ''constraints'' (js_strings api (gp_constraints g)))"

definition generic_from_json :: "'j json_api \<Rightarrow> 'j \<Rightarrow> generic_param_info option" where
  "generic_from_json api j =
     do {
       n \<leftarrow> js_field api (js_get_string api) ''name'' j;
       cs \<leftarrow> js_optional_vector api (js_get_string api) ''constraints'' j;
       Some \<lparr>gp_name = n, gp_constraints = cs\<rparr>
     }"

fun attribute_type_name :: "attribute_value \<Rightarrow> string" where
  "attribute_type_name (AV_Int i) = ''int''"
| "attribute_type_name (AV_Double d) = ''float''"
| "attribute_type_name (AV_String s) = ''string''"
| "attribute_type_name (AV_Bool b) = ''bool''"

fun attribute_value_to_json :: "'j json_api \<Rightarrow> attribute_value \<Rightarrow> 'j" where
  "attribute_value_to_json api (AV_Int i) = js_int api i"
| "attribute_value_to_json api (AV_Double d) = js_float api d"
| "attribute_value_to_json api (AV_String s) = js_string api s"
| "attribute_value_to_json api (AV_Bool b) = js_bool api b"

definition arg_to_json :: "'j json_api \<Rightarrow> attribute_arg \<Rightarrow> 'j" where
  "arg_to_json api a =
     js_object api
       (given_option ''name'' (map_option (js_string api) (aa_name a))
        @ [(''type'', js_string api (attribute_type_name (aa_value a))),
           (''value'', attribute_value_to_json api (aa_value a))])"

definition arg_from_json :: "'j json_api \<Rightarrow> 'j \<Rightarrow> attribute_arg option" where
  "arg_from_json api j =
     do {
       n \<leftarrow> (if js_contains api ''name'' j then map_option Some (js_field api (js_get_string api) ''name'' j)
            else Some None);
       ty \<leftarrow> js_field api (js_get_string api) ''type'' j;
       v \<leftarrow> (if ty = ''int'' then map_option AV_Int (js_field api (js_get_int api) ''value'' j)
            else if ty = ''float'' then map_option AV_Double (js_field api (js_get_float api) ''value'' j)
            else if ty = ''string'' then map_option AV_String (js_field api (js_get_string api) ''value'' j)
            else if ty = ''bool'' then map_option AV_Bool (js_field api (js_get_bool api) ''value'' j)
            else Some (AV_Int 0));
       Some \<lparr>aa_name = n, aa_value = v\<rparr>
     }"

definition attribute_to_json :: "'j json_api \<Rightarrow> attribute_symbol \<Rightarrow> 'j" where
  "attribute_to_json api a =
     js_object api
       ([(''name'', js_string api (at_name a))]
        @ given (at_args a \<noteq> []) ''args'' (js_array api (map (arg_to_json api) (at_args a))))"

definition attribute_from_json :: "'j json_api \<Rightarrow> 'j \<Rightarrow> attribute_symbol option" where
  "attribute_from_json api j =
     do {
       n \<leftarrow> js_field api (js_get_string api) ''name'' j;
       as \<leftarrow> js_optional_vector api (arg_from_json api) ''args'' j;
       Some \<lparr>at_name = n, at_args = as\<rparr>
     }"

section \<open>Members\<close>

definition variant_to_json :: "'j json_api \<Rightarrow> enum_variant \<Rightarrow> 'j" where
  "variant_to_json api v =
     js_object api
       ([(''name'', js_string api (ev_name v)), (''tag'', js_unsigned api (ev_tag v))]
        @ given (ev_associatedTypes v \<noteq> []) ''types''
            (js_array api (map (type_to_json api) (ev_associatedTypes v))))"

definition variant_from_json :: "'j json_api \<Rightarrow> 'j \<Rightarrow> enum_variant option" where
  "variant_from_json api j =
     do {
       n \<leftarrow> js_field api (js_get_string api) ''name'' j;
       tag \<leftarrow> js_field api (js_get_unsigned api) ''tag'' j;
       ts \<leftarrow> js_optional_vector api (type_from_json api) ''types'' j;
       Some \<lparr>ev_name = n, ev_associatedTypes = ts, ev_tag = cast_u32 tag\<rparr>
     }"

definition property_to_json :: "'j json_api \<Rightarrow> property_symbol \<Rightarrow> 'j" where
  "property_to_json api p =
     js_object api
       ([(''name'', js_string api (ps_name p)), (''type'', type_to_json api (ps_type p))]
        @ given (ps_hasGetter p) ''getter'' (js_bool api True)
        @ given (ps_hasSetter p) ''setter'' (js_bool api True))"

text \<open>The reader of a struct builds each property itself, with a constructor that copies the type.\<close>

definition library_property :: "string \<Rightarrow> type_t \<Rightarrow> bool \<Rightarrow> bool \<Rightarrow> property_symbol" where
  "library_property n t getter setter =
     \<lparr>ps_name = n, ps_type = copy_type t, ps_location = no_location, ps_hasGetter = getter, ps_hasSetter = setter,
      ps_getterImplemented = False, ps_setterImplemented = False\<rparr>"

definition property_from_json :: "'j json_api \<Rightarrow> 'j \<Rightarrow> property_symbol option" where
  "property_from_json api j =
     do {
       n \<leftarrow> js_field api (js_get_string api) ''name'' j;
       t \<leftarrow> js_field api (type_from_json api) ''type'' j;
       g \<leftarrow> js_value api (js_get_bool api) ''getter'' False j;
       s \<leftarrow> js_value api (js_get_bool api) ''setter'' False j;
       Some (library_property n t g s)
     }"

definition field_to_json :: "'j json_api \<Rightarrow> field_symbol \<Rightarrow> 'j" where
  "field_to_json api f =
     js_object api
       ([(''name'', js_string api (fs_name f)), (''type'', type_to_json api (fs_type f))]
        @ given (fs_isMutable f) ''mut'' (js_bool api True)
        @ given (fs_isConstant f) ''const'' (js_bool api True))"

definition field_from_json :: "'j json_api \<Rightarrow> 'j \<Rightarrow> field_symbol option" where
  "field_from_json api j =
     do {
       n \<leftarrow> js_field api (js_get_string api) ''name'' j;
       t \<leftarrow> js_field api (type_from_json api) ''type'' j;
       mut \<leftarrow> js_value api (js_get_bool api) ''mut'' False j;
       const \<leftarrow> js_value api (js_get_bool api) ''const'' False j;
       Some \<lparr>fs_name = n, fs_type = copy_type t, fs_location = no_location, fs_isMutable = mut,
             fs_isConstant = const, fs_hasInitializer = False\<rparr>
     }"

end
