(* ===== verification/Lib_Symbols.thy ===== *)
theory Lib_Symbols
  imports Lib_Format
begin

text \<open>
  The compound serialisers of \<^verbatim>\<open>lib/DjLibFormat.h\<close>: methods, functions, structs, enums and interfaces.
  A parameter list is kept as parallel vectors, which the loops index together. The deserialisers
  build a fresh symbol and set what is stored.
\<close>

section \<open>Methods\<close>

definition attributes_to_json :: "'j json_api \<Rightarrow> attribute_symbol list \<Rightarrow> 'j" where
  "attributes_to_json api as = js_array api (map (attribute_to_json api) as)"

definition generics_to_json :: "'j json_api \<Rightarrow> generic_param_info list \<Rightarrow> 'j" where
  "generics_to_json api gs = js_array api (map (generic_to_json api) gs)"

definition parameter_fields ::
  "'j json_api \<Rightarrow> type_t list \<Rightarrow> string list \<Rightarrow> attribute_symbol list list \<Rightarrow> (string \<times> 'j) list \<Rightarrow> nat
   \<Rightarrow> (string \<times> 'j) list" where
  "parameter_fields api ts ns ass extra i =
     [(''type'', type_to_json api (ts ! i)), (''name'', js_string api (ns ! i))]
     @ extra
     @ given (i < length ass \<and> ass ! i \<noteq> []) ''attrs'' (attributes_to_json api (ass ! i))"

definition serializeMethod :: "'j json_api \<Rightarrow> method_symbol \<Rightarrow> 'j" where
  "serializeMethod api m =
     js_object api
       ([(''name'', js_string api (ms_name m)), (''returnType'', type_to_json api (ms_returnType m)),
         (''structName'', js_string api (ms_structName m)),
         (''params'', js_array api
            (map (\<lambda>i. js_object api (parameter_fields api (ms_paramTypes m) (ms_paramNames m)
                         (ms_paramAttributes m) [] i)) [0..<length (ms_paramTypes m)]))]
        @ given (ms_genericParams m \<noteq> []) ''genericParams'' (generics_to_json api (ms_genericParams m))
        @ given (ms_attributes m \<noteq> []) ''attrs'' (attributes_to_json api (ms_attributes m))
        @ given (ms_isAbstract m) ''abstract'' (js_bool api True)
        @ given (ms_isStatic m) ''static'' (js_bool api True)
        @ given (ms_isConstructor m) ''constructor'' (js_bool api True)
        @ given (ms_isAsync m) ''async'' (js_bool api True)
        @ given (ms_isOperator m) ''operator'' (js_bool api True)
        @ given (ms_isOperator m) ''operatorName'' (js_string api (ms_operatorCanonicalName m))
        @ given (ms_variadicName m \<noteq> []) ''variadic'' (js_string api (ms_variadicName m)))"

text \<open>One round of the loop over the stored parameters reads the attributes, the name and the type.\<close>

definition parameter_from_json :: "'j json_api \<Rightarrow> 'j \<Rightarrow> (string \<times> type_t \<times> attribute_symbol list) option" where
  "parameter_from_json api p =
     do {
       as \<leftarrow> js_optional_vector api (attribute_from_json api) ''attrs'' p;
       n \<leftarrow> js_field api (js_get_string api) ''name'' p;
       t \<leftarrow> js_field api (type_from_json api) ''type'' p;
       Some (n, t, as)
     }"

fun add_method_parameters :: "'j json_api \<Rightarrow> 'j list \<Rightarrow> method_symbol \<Rightarrow> method_symbol option" where
  "add_method_parameters api [] m = Some m"
| "add_method_parameters api (p # ps) m =
     do {
       (n, t, as) \<leftarrow> parameter_from_json api p;
       add_method_parameters api ps (ms_addParameter n t as m)
     }"

definition deserializeMethod :: "'j json_api \<Rightarrow> 'j \<Rightarrow> method_symbol option" where
  "deserializeMethod api j =
     do {
       ty \<leftarrow> js_field api (type_from_json api) ''returnType'' j;
       n \<leftarrow> js_field api (js_get_string api) ''name'' j;
       sn \<leftarrow> js_value api (js_get_string api) ''structName'' [] j;
       ps \<leftarrow> js_at api ''params'' j;
       m \<leftarrow> add_method_parameters api (js_items api ps) ((new_method n (copy_type ty))\<lparr>ms_structName := sn\<rparr>);
       gs \<leftarrow> js_optional_vector api (generic_from_json api) ''genericParams'' j;
       as \<leftarrow> js_optional_vector api (attribute_from_json api) ''attrs'' j;
       ab \<leftarrow> js_value api (js_get_bool api) ''abstract'' False j;
       st \<leftarrow> js_value api (js_get_bool api) ''static'' False j;
       co \<leftarrow> js_value api (js_get_bool api) ''constructor'' False j;
       asy \<leftarrow> js_value api (js_get_bool api) ''async'' False j;
       opr \<leftarrow> js_value api (js_get_bool api) ''operator'' False j;
       on \<leftarrow> js_value api (js_get_string api) ''operatorName'' [] j;
       va \<leftarrow> js_value api (js_get_string api) ''variadic'' [] j;
       Some (m\<lparr>ms_genericParams := gs, ms_attributes := as, ms_isAbstract := ab, ms_isStatic := st,
               ms_isConstructor := co, ms_isAsync := asy, ms_isOperator := opr,
               ms_operatorCanonicalName := on, ms_variadicName := va\<rparr>)
     }"

section \<open>Functions\<close>

definition function_fields :: "'j json_api \<Rightarrow> string \<Rightarrow> function_info \<Rightarrow> (string \<times> 'j) list" where
  "function_fields api n f =
     [(''name'', js_string api n), (''returnType'', type_to_json api (fi_returnType f)),
      (''params'', js_array api
         (map (\<lambda>i. js_object api (parameter_fields api (fi_paramTypes f) (fi_paramNames f) (fi_paramAttributes f)
                      (given (i < length (fi_paramMutable f) \<and> fi_paramMutable f ! i) ''mut'' (js_bool api True)) i))
           [0..<length (fi_paramTypes f)]))]
     @ given (fi_isVariadic f) ''variadic'' (js_bool api True)
     @ given (fi_isAsync f) ''async'' (js_bool api True)
     @ given (fi_constEval f) ''consteval'' (js_bool api True)
     @ given (fi_constExpr f) ''constexpr'' (js_bool api True)"

definition serializeFunction :: "'j json_api \<Rightarrow> string \<Rightarrow> function_info \<Rightarrow> 'j" where
  "serializeFunction api n f = js_object api (function_fields api n f)"

definition serializeExternFunction :: "'j json_api \<Rightarrow> string \<Rightarrow> function_info \<Rightarrow> string \<Rightarrow> 'j" where
  "serializeExternFunction api n f abi =
     js_object api (function_fields api n f @ [(''abi'', js_string api abi), (''extern'', js_bool api True)])"

fun add_function_parameters :: "'j json_api \<Rightarrow> 'j list \<Rightarrow> function_info \<Rightarrow> function_info option" where
  "add_function_parameters api [] f = Some f"
| "add_function_parameters api (p # ps) f =
     do {
       (n, t, as) \<leftarrow> parameter_from_json api p;
       mut \<leftarrow> js_value api (js_get_bool api) ''mut'' False p;
       add_function_parameters api ps (fn_addParameter n t mut as f)
     }"

definition deserializeFunction :: "'j json_api \<Rightarrow> 'j \<Rightarrow> symbol option" where
  "deserializeFunction api j =
     do {
       ty \<leftarrow> js_field api (type_from_json api) ''returnType'' j;
       n \<leftarrow> js_field api (js_get_string api) ''name'' j;
       ps \<leftarrow> js_at api ''params'' j;
       f \<leftarrow> add_function_parameters api (js_items api ps) (new_function_info (copy_type ty));
       va \<leftarrow> js_value api (js_get_bool api) ''variadic'' False j;
       asy \<leftarrow> js_value api (js_get_bool api) ''async'' False j;
       cev \<leftarrow> js_value api (js_get_bool api) ''consteval'' False j;
       cex \<leftarrow> js_value api (js_get_bool api) ''constexpr'' False j;
       Some (new_symbol SK_Function n (copy_type ty) no_location False
         (Function_Detail (f\<lparr>fi_isVariadic := va, fi_isAsync := asy, fi_constEval := cev, fi_constExpr := cex\<rparr>)))
     }"

text \<open>
  An extern function keeps what its constructor leaves in the other flags; the two of them that have
  no initial value are taken as unset.
\<close>

definition deserializeExternFunction :: "'j json_api \<Rightarrow> 'j \<Rightarrow> symbol option" where
  "deserializeExternFunction api j =
     do {
       ty \<leftarrow> js_field api (type_from_json api) ''returnType'' j;
       n \<leftarrow> js_field api (js_get_string api) ''name'' j;
       ps \<leftarrow> js_at api ''params'' j;
       f \<leftarrow> add_function_parameters api (js_items api ps) (new_function_info (copy_type ty));
       va \<leftarrow> js_value api (js_get_bool api) ''variadic'' False j;
       abi \<leftarrow> js_value api (js_get_string api) ''abi'' ''C'' j;
       Some (new_symbol SK_ExternFunction n (copy_type ty) no_location False
         (Extern_Detail (f\<lparr>fi_isVariadic := va\<rparr>) abi))
     }"

section \<open>Structs, enums and interfaces\<close>

definition serializeStruct :: "'j json_api \<Rightarrow> string \<Rightarrow> struct_info \<Rightarrow> 'j" where
  "serializeStruct api n s =
     js_object api
       ([(''name'', js_string api n), (''fields'', js_array api (map (field_to_json api) (st_fields s)))]
        @ given (st_genericParams s \<noteq> []) ''genericParams'' (generics_to_json api (st_genericParams s))
        @ given (st_implements s \<noteq> []) ''implements'' (js_strings api (st_implements s))
        @ given (st_attributes s \<noteq> []) ''attrs'' (attributes_to_json api (st_attributes s))
        @ given_option ''baseType'' (map_option (type_to_json api) (st_baseType s))
        @ given (st_methods s \<noteq> []) ''methods'' (js_array api (map (serializeMethod api) (st_methods s)))
        @ given (st_properties s \<noteq> []) ''properties'' (js_array api (map (property_to_json api) (st_properties s))))"

text \<open>The loops over the stored members, which may be any value with items.\<close>

definition js_members :: "'j json_api \<Rightarrow> ('j \<Rightarrow> 'a option) \<Rightarrow> string \<Rightarrow> 'j \<Rightarrow> 'a list option" where
  "js_members api get k j =
     (case js_at api k j of None \<Rightarrow> Some [] | Some v \<Rightarrow> map_option_list get (js_items api v))"

definition deserializeStruct :: "'j json_api \<Rightarrow> 'j \<Rightarrow> symbol option" where
  "deserializeStruct api j =
     do {
       n \<leftarrow> js_field api (js_get_string api) ''name'' j;
       fs \<leftarrow> js_field api (js_vector api (field_from_json api)) ''fields'' j;
       gs \<leftarrow> js_optional_vector api (generic_from_json api) ''genericParams'' j;
       im \<leftarrow> js_optional_vector api (js_get_string api) ''implements'' j;
       as \<leftarrow> js_optional_vector api (attribute_from_json api) ''attrs'' j;
       b \<leftarrow> (if js_contains api ''baseType'' j then map_option Some (js_field api (type_from_json api) ''baseType'' j)
            else Some None);
       ms \<leftarrow> js_members api (deserializeMethod api) ''methods'' j;
       ps \<leftarrow> js_members api (property_from_json api) ''properties'' j;
       Some (new_symbol SK_Struct n voided no_location False
         (Struct_Detail (new_struct\<lparr>st_fields := fs, st_genericParams := gs, st_implements := im,
            st_attributes := as, st_baseType := b, st_methods := ms, st_properties := ps\<rparr>)))
     }"

definition serializeEnum :: "'j json_api \<Rightarrow> string \<Rightarrow> enum_info \<Rightarrow> 'j" where
  "serializeEnum api n e =
     js_object api
       ([(''name'', js_string api n), (''variants'', js_array api (map (variant_to_json api) (en_variants e)))]
        @ given (en_genericParams e \<noteq> []) ''genericParams'' (generics_to_json api (en_genericParams e)))"

definition deserializeEnum :: "'j json_api \<Rightarrow> 'j \<Rightarrow> symbol option" where
  "deserializeEnum api j =
     do {
       n \<leftarrow> js_field api (js_get_string api) ''name'' j;
       vs \<leftarrow> js_field api (js_vector api (variant_from_json api)) ''variants'' j;
       gs \<leftarrow> js_optional_vector api (generic_from_json api) ''genericParams'' j;
       Some (new_symbol SK_Enum n voided no_location False
         (Enum_Detail (new_enum\<lparr>en_variants := vs, en_genericParams := gs\<rparr>)))
     }"

definition serializeInterface :: "'j json_api \<Rightarrow> string \<Rightarrow> interface_info \<Rightarrow> 'j" where
  "serializeInterface api n i =
     js_object api
       ([(''name'', js_string api n)]
        @ given (if_genericParams i \<noteq> []) ''genericParams'' (generics_to_json api (if_genericParams i))
        @ given (if_methods i \<noteq> []) ''methods'' (js_array api (map (serializeMethod api) (if_methods i))))"

definition deserializeInterface :: "'j json_api \<Rightarrow> 'j \<Rightarrow> symbol option" where
  "deserializeInterface api j =
     do {
       n \<leftarrow> js_field api (js_get_string api) ''name'' j;
       gs \<leftarrow> js_optional_vector api (generic_from_json api) ''genericParams'' j;
       ms \<leftarrow> js_members api (deserializeMethod api) ''methods'' j;
       Some (new_symbol SK_Interface n voided no_location False
         (Interface_Detail \<lparr>if_methods = ms, if_genericParams = gs\<rparr>))
     }"

end
