(* ===== verification/Lib_Writer.thy ===== *)
theory Lib_Writer
  imports Lib_Symbols Symbol_Table Parser_Program
begin

text \<open>
  \<^verbatim>\<open>lib/DjLibWriter.cpp\<close>: what is collected of the symbol table and the programs, the metadata, and the
  file, a header of 16 bytes, the text of the metadata and the bitcode. A file is the string of its
  bytes; the header is written as it lies in memory, little endian on the target. LLVM makes the
  bitcode, which is an argument here. A \<^verbatim>\<open>Program\<close> is its name and its top-level declarations.
\<close>

section \<open>Macros\<close>

fun fragmentTypeToString :: "macro_fragment_type \<Rightarrow> string" where
  "fragmentTypeToString MF_EXPRESSION = ''expression''"
| "fragmentTypeToString MF_IDENTIFIER = ''identifier''"
| "fragmentTypeToString MF_LITERAL = ''literal''"
| "fragmentTypeToString MF_TYPE = ''type''"
| "fragmentTypeToString MF_BLOCK = ''block''"
| "fragmentTypeToString MF_LITERAL_TOKEN = ''literal_token''"

definition macro_parameter_to_json :: "'j json_api \<Rightarrow> macro_parameter \<Rightarrow> 'j" where
  "macro_parameter_to_json api p =
     js_object api
       ([(''fragment'', js_string api (fragmentTypeToString (mp_fragment p))),
         (''name'', js_string api (token_name (mp_name p)))]
        @ given (mp_isLocal p) ''local'' (js_bool api True)
        @ given (mp_literal p \<noteq> []) ''literalToken'' (js_string api (mp_literal p)))"

definition macro_rule_to_json :: "'j json_api \<Rightarrow> macro_rule \<Rightarrow> 'j" where
  "macro_rule_to_json api r =
     js_object api
       ([(''params'', js_array api (map (macro_parameter_to_json api) (mr_parameters r))),
         (''tokens'', js_array api (map (token_to_json api) (mr_body r)))]
        @ given (mr_isVoid r) ''void'' (js_bool api True))"

section \<open>The writer\<close>

record program =
  pg_name :: string
  pg_items :: "program_item list"

record 'j library_writer =
  lw_structs :: "'j list"
  lw_functions :: "'j list"
  lw_externFunctions :: "'j list"
  lw_enums :: "'j list"
  lw_interfaces :: "'j list"
  lw_macros :: "'j list"
  lw_attributeDecls :: "'j list"
  lw_implBlocks :: "'j list"
  lw_constExprs :: "'j list"
  lw_staticVars :: "'j list"
  lw_genericSources :: "'j list"

definition new_library_writer :: "'j library_writer" where
  "new_library_writer =
     \<lparr>lw_structs = [], lw_functions = [], lw_externFunctions = [], lw_enums = [], lw_interfaces = [], lw_macros = [],
      lw_attributeDecls = [], lw_implBlocks = [], lw_constExprs = [], lw_staticVars = [], lw_genericSources = []\<rparr>"

text \<open>The downcast of each loop and the serialiser; a null pointer is skipped.\<close>

definition struct_json :: "'j json_api \<Rightarrow> symbol \<Rightarrow> 'j option" where
  "struct_json api s =
     (case sy_detail s of Struct_Detail d \<Rightarrow> Some (serializeStruct api (sy_name s) d) | _ \<Rightarrow> None)"

definition function_json :: "'j json_api \<Rightarrow> symbol \<Rightarrow> 'j option" where
  "function_json api s =
     (case sy_detail s of
        Function_Detail f \<Rightarrow> Some (serializeFunction api (sy_name s) f)
      | Extern_Detail f abi \<Rightarrow> Some (serializeFunction api (sy_name s) f)
      | _ \<Rightarrow> None)"

definition extern_json :: "'j json_api \<Rightarrow> symbol \<Rightarrow> 'j option" where
  "extern_json api s =
     (case sy_detail s of Extern_Detail f abi \<Rightarrow> Some (serializeExternFunction api (sy_name s) f abi) | _ \<Rightarrow> None)"

definition enum_json :: "'j json_api \<Rightarrow> symbol \<Rightarrow> 'j option" where
  "enum_json api s =
     (case sy_detail s of Enum_Detail e \<Rightarrow> Some (serializeEnum api (sy_name s) e) | _ \<Rightarrow> None)"

definition interface_json :: "'j json_api \<Rightarrow> symbol \<Rightarrow> 'j option" where
  "interface_json api s =
     (case sy_detail s of Interface_Detail i \<Rightarrow> Some (serializeInterface api (sy_name s) i) | _ \<Rightarrow> None)"

definition collect_from :: "(symbol \<Rightarrow> 'j option) \<Rightarrow> symtab \<Rightarrow> nat list \<Rightarrow> 'j list" where
  "collect_from f st as = List.map_filter (\<lambda>a. f (store st ! a)) as"

text \<open>\<^const>\<open>None\<close> is the exception of a lookup in the table.\<close>

definition collectSymbols :: "'j json_api \<Rightarrow> symtab \<Rightarrow> 'j library_writer \<Rightarrow> 'j library_writer option" where
  "collectSymbols api st w =
     do {
       ss \<leftarrow> get_all_structs st;
       fs \<leftarrow> get_all_functions st;
       xs \<leftarrow> get_all_extern_functions st;
       es \<leftarrow> get_all_enums st;
       is \<leftarrow> get_all_interfaces st;
       Some (w\<lparr>lw_structs := lw_structs w @ collect_from (struct_json api) st ss,
               lw_functions := lw_functions w @ collect_from (function_json api) st fs,
               lw_externFunctions := lw_externFunctions w @ collect_from (extern_json api) st xs,
               lw_enums := lw_enums w @ collect_from (enum_json api) st es,
               lw_interfaces := lw_interfaces w @ collect_from (interface_json api) st is\<rparr>)
     }"

definition program_prefix :: "program \<Rightarrow> string" where
  "program_prefix p = getNamespacePrefix (pg_items p)"

definition program_macros :: "program \<Rightarrow> macro_declaration list" where
  "program_macros p = List.map_filter (\<lambda>d. case d of D_Macro m \<Rightarrow> Some m | _ \<Rightarrow> None) (pg_items p)"

definition program_attributes :: "program \<Rightarrow> attribute_declaration list" where
  "program_attributes p = List.map_filter (\<lambda>d. case d of D_Attribute a \<Rightarrow> Some a | _ \<Rightarrow> None) (pg_items p)"

definition program_impls :: "program \<Rightarrow> impl_declaration list" where
  "program_impls p = List.map_filter (\<lambda>d. case d of D_Impl i \<Rightarrow> Some i | _ \<Rightarrow> None) (pg_items p)"

definition program_enums :: "program \<Rightarrow> enum_declaration list" where
  "program_enums p = List.map_filter (\<lambda>d. case d of D_Enum e \<Rightarrow> Some e | _ \<Rightarrow> None) (pg_items p)"

definition macro_to_json :: "'j json_api \<Rightarrow> string \<Rightarrow> macro_declaration \<Rightarrow> 'j" where
  "macro_to_json api ns m =
     js_object api
       [(''name'', js_string api (ns @ token_name (md_name m))),
        (''rules'', js_array api (map (macro_rule_to_json api) (md_rules m)))]"

definition collectMacros :: "'j json_api \<Rightarrow> program list \<Rightarrow> 'j library_writer \<Rightarrow> 'j library_writer" where
  "collectMacros api ps w =
     w\<lparr>lw_macros := lw_macros w @ concat (map (\<lambda>p. map (macro_to_json api (program_prefix p)) (program_macros p)) ps)\<rparr>"

text \<open>An argument of a declared attribute and of a symbol's attribute are one structure in the code.\<close>

definition symbol_argument :: "attribute_argument \<Rightarrow> attribute_arg" where
  "symbol_argument a =
     \<lparr>aa_name = ag_name a,
      aa_value = (case ag_value a of AL_Int i \<Rightarrow> AV_Int i | AL_Double d \<Rightarrow> AV_Double d
                  | AL_String s \<Rightarrow> AV_String s | AL_Bool b \<Rightarrow> AV_Bool b)\<rparr>"

definition attribute_declaration_to_json :: "'j json_api \<Rightarrow> string \<Rightarrow> attribute_declaration \<Rightarrow> 'j" where
  "attribute_declaration_to_json api ns a =
     js_object api
       ([(''name'', js_string api (ns @ token_name (ad_name a))),
         (''targetArgs'', js_array api (map (arg_to_json api \<circ> symbol_argument) (ad_targets a)))]
        @ given (ad_fields a \<noteq> []) ''fields''
            (js_array api (map (\<lambda>(t, n). js_object api
               [(''name'', js_string api (token_name n)), (''type'', type_to_json api t)]) (ad_fields a))))"

definition collectAttributeDecls :: "'j json_api \<Rightarrow> program list \<Rightarrow> 'j library_writer \<Rightarrow> 'j library_writer" where
  "collectAttributeDecls api ps w =
     w\<lparr>lw_attributeDecls := lw_attributeDecls w
        @ concat (map (\<lambda>p. map (attribute_declaration_to_json api (program_prefix p)) (program_attributes p)) ps)\<rparr>"

definition impl_method_to_json :: "'j json_api \<Rightarrow> method_declaration \<Rightarrow> 'j" where
  "impl_method_to_json api m =
     js_object api
       ([(''name'', js_string api (token_name (me_name m))), (''returnType'', type_to_json api (me_returnType m)),
         (''params'', js_array api (map (\<lambda>p. js_object api
            ([(''name'', js_string api (token_name (pa_name p))), (''type'', type_to_json api (pa_type p))]
             @ given (pa_isMutable p) ''mut'' (js_bool api True))) (me_parameters m)))]
        @ given (VM_STATIC \<in> set (me_modifiers m)) ''static'' (js_bool api True)
        @ given (me_isOperator m) ''operator'' (js_bool api True)
        @ given (me_isOperator m) ''operatorName'' (js_string api (me_operatorName m))
        @ given (me_isConstructor m) ''constructor'' (js_bool api True)
        @ given (me_isAsync m) ''async'' (js_bool api True))"

definition impl_to_json :: "'j json_api \<Rightarrow> impl_declaration \<Rightarrow> 'j" where
  "impl_to_json api i =
     js_object api
       ([(''targetTypes'', js_array api (map (type_to_json api) (im_targets i)))]
        @ given (im_interfaces i \<noteq> []) ''interfaces'' (js_strings api (im_interfaces i))
        @ [(''methods'', js_array api (map (impl_method_to_json api) (im_methods i)))])"

definition collectImplBlocks :: "'j json_api \<Rightarrow> program list \<Rightarrow> 'j library_writer \<Rightarrow> 'j library_writer" where
  "collectImplBlocks api ps w =
     w\<lparr>lw_implBlocks := lw_implBlocks w @ concat (map (\<lambda>p. map (impl_to_json api) (program_impls p)) ps)\<rparr>"

section \<open>Constants and static variables\<close>

record constant_entry =
  ct_type :: type_t
  ct_hasValue :: bool

record static_entry =
  se_type :: type_t
  se_hasInitializer :: bool
  se_isMutable :: bool

definition constant_to_json :: "'j json_api \<Rightarrow> string \<Rightarrow> constant_entry \<Rightarrow> 'j" where
  "constant_to_json api n e = js_object api [(''name'', js_string api n), (''type'', type_to_json api (ct_type e))]"

definition static_to_json :: "'j json_api \<Rightarrow> string \<Rightarrow> static_entry \<Rightarrow> 'j" where
  "static_to_json api n e =
     js_object api
       ([(''name'', js_string api n), (''type'', type_to_json api (se_type e))]
        @ given (se_isMutable e) ''mut'' (js_bool api True))"

definition entries_in_order :: "'e ordered_table \<Rightarrow> (string \<times> 'e) list option" where
  "entries_in_order t = map_option_list (\<lambda>n. map_option (Pair n) (ot_entries t n)) (ot_order t)"

definition collectConstExprs ::
  "'j json_api \<Rightarrow> constant_entry ordered_table \<Rightarrow> 'j library_writer \<Rightarrow> 'j library_writer option" where
  "collectConstExprs api t w =
     map_option (\<lambda>es. w\<lparr>lw_constExprs := lw_constExprs w @ map (\<lambda>(n, e). constant_to_json api n e) es\<rparr>)
       (entries_in_order t)"

definition collectStaticVars ::
  "'j json_api \<Rightarrow> static_entry ordered_table \<Rightarrow> 'j library_writer \<Rightarrow> 'j library_writer option" where
  "collectStaticVars api t w =
     map_option (\<lambda>es. w\<lparr>lw_staticVars := lw_staticVars w @ map (\<lambda>(n, e). static_to_json api n e) es\<rparr>)
       (entries_in_order t)"

section \<open>Sources of generic declarations\<close>

definition has_generics :: "program \<Rightarrow> bool" where
  "has_generics p \<longleftrightarrow>
     list_ex (\<lambda>s. sd_generics s \<noteq> []) (program_structs (pg_items p))
     \<or> list_ex (\<lambda>e. Parser_Structs.en_generics e \<noteq> []) (program_enums p)"

fun generic_sources ::
  "'j json_api \<Rightarrow> (string \<rightharpoonup> source_file) \<Rightarrow> string set \<Rightarrow> program list \<Rightarrow> 'j list" where
  "generic_sources api srcs included [] = []"
| "generic_sources api srcs included (p # ps) =
     (if \<not> has_generics p \<or> pg_name p \<in> included then generic_sources api srcs included ps
      else (case srcs (pg_name p) of
              None \<Rightarrow> generic_sources api srcs (insert (pg_name p) included) ps
            | Some f \<Rightarrow>
                js_object api [(''file'', js_string api (pg_name p)),
                  (''namespace'', js_string api (fileNamespace (pg_items p))),
                  (''source'', js_string api (sf_source f))]
                # generic_sources api srcs (insert (pg_name p) included) ps))"

definition collectGenericSources ::
  "'j json_api \<Rightarrow> program list \<Rightarrow> (string \<rightharpoonup> source_file) \<Rightarrow> 'j library_writer \<Rightarrow> 'j library_writer" where
  "collectGenericSources api ps srcs w =
     w\<lparr>lw_genericSources := lw_genericSources w @ generic_sources api srcs {} ps\<rparr>"

text \<open>The calls of the driver, in its order (\<^verbatim>\<open>DjinnCompiler.cpp\<close>).\<close>

definition collect_library ::
  "'j json_api \<Rightarrow> symtab \<Rightarrow> constant_entry ordered_table \<Rightarrow> static_entry ordered_table \<Rightarrow> program list
   \<Rightarrow> (string \<rightharpoonup> source_file) \<Rightarrow> 'j library_writer option" where
  "collect_library api src ct sv ps srcs =
     do {
       w \<leftarrow> collectSymbols api src new_library_writer;
       let w = collectImplBlocks api ps (collectAttributeDecls api ps (collectMacros api ps w))
       in do {
         w \<leftarrow> collectConstExprs api ct w;
         w \<leftarrow> collectStaticVars api sv w;
         Some (collectGenericSources api ps srcs w)
       }
     }"

section \<open>Metadata and file\<close>

definition VERSION :: nat where
  "VERSION = 1"

definition MAGIC :: string where
  "MAGIC = ''DJLB''"

definition serializeMetadata :: "'j json_api \<Rightarrow> 'j library_writer \<Rightarrow> 'j" where
  "serializeMetadata api w =
     js_object api
       ([(''version'', js_unsigned api VERSION),
         (''structs'', js_array api (lw_structs w)),
         (''functions'', js_array api (lw_functions w)),
         (''externFunctions'', js_array api (lw_externFunctions w)),
         (''enums'', js_array api (lw_enums w)),
         (''interfaces'', js_array api (lw_interfaces w)),
         (''macros'', js_array api (lw_macros w)),
         (''attributeDecls'', js_array api (lw_attributeDecls w)),
         (''implBlocks'', js_array api (lw_implBlocks w)),
         (''constExprs'', js_array api (lw_constExprs w))]
        @ given (lw_genericSources w \<noteq> []) ''genericSources'' (js_array api (lw_genericSources w))
        @ [(''staticVars'', js_array api (lw_staticVars w))])"

text \<open>The lowest \<open>k\<close> bytes of a number, the lowest first.\<close>

fun le_bytes :: "nat \<Rightarrow> nat \<Rightarrow> string" where
  "le_bytes 0 n = []"
| "le_bytes (Suc k) n = char_of n # le_bytes k (n div 256)"

record library_header =
  lh_magic :: string
  lh_version :: nat
  lh_flags :: nat
  lh_metadataSize :: nat
  lh_bitcodeSize :: nat

definition header_bytes :: "library_header \<Rightarrow> string" where
  "header_bytes h =
     lh_magic h @ le_bytes 2 (lh_version h) @ le_bytes 2 (lh_flags h)
     @ le_bytes 4 (lh_metadataSize h) @ le_bytes 4 (lh_bitcodeSize h)"

text \<open>\<^const>\<open>None\<close> is the exception \<^verbatim>\<open>dump\<close> throws on text that is not UTF-8.\<close>

definition library_file :: "'j json_api \<Rightarrow> string \<Rightarrow> 'j library_writer \<Rightarrow> string option" where
  "library_file api bitcode w =
     map_option
       (\<lambda>metadata.
          header_bytes \<lparr>lh_magic = MAGIC, lh_version = VERSION, lh_flags = 0,
            lh_metadataSize = cast_u32 (length metadata), lh_bitcodeSize = cast_u32 (length bitcode)\<rparr>
          @ metadata @ bitcode)
       (js_dump api (serializeMetadata api w))"

end
