(* ===== verification/Attribute_Targets.thy ===== *)
theory Attribute_Targets
  imports Types Diagnostics "HOL-Library.Sublist"
begin

unbundle bit_operations_syntax

text \<open>
  What a declared attribute may be put on: the text of a target argument, as the parser joins it, is
  turned into a mask twice, by \<^verbatim>\<open>Binder::resolveAttributeTargetString\<close> for the program's own
  declarations and by \<^verbatim>\<open>DjLibReader::populateAttributeTargets\<close> for those of a library.
\<close>

section \<open>The flags\<close>

datatype target_flag =
    Target_Function | Target_Method | Target_Struct | Target_Field | Target_Parameter
  | Target_ReturnValue | Target_Variable | Target_All

definition target_mask :: "target_flag \<Rightarrow> u32" where
  "target_mask t =
     (case t of Target_Function \<Rightarrow> 1 | Target_Method \<Rightarrow> 2 | Target_Struct \<Rightarrow> 4 | Target_Field \<Rightarrow> 8
      | Target_Parameter \<Rightarrow> 16 | Target_ReturnValue \<Rightarrow> 32 | Target_Variable \<Rightarrow> 64 | Target_All \<Rightarrow> 127)"

section \<open>The binder\<close>

definition target_map :: "(string \<times> target_flag) list" where
  "target_map = [
     (''AttributeTarget.Function'', Target_Function), (''AttributeTarget.Method'', Target_Method),
     (''AttributeTarget.Struct'', Target_Struct), (''AttributeTarget.Field'', Target_Field),
     (''AttributeTarget.Parameter'', Target_Parameter), (''AttributeTarget.ReturnValue'', Target_ReturnValue),
     (''AttributeTarget.Variable'', Target_Variable), (''AttributeTarget.All'', Target_All)]"

definition target_token_mask :: "string \<Rightarrow> u32" where
  "target_token_mask w = (case map_of target_map w of Some t \<Rightarrow> target_mask t | None \<Rightarrow> 0)"

abbreviation "not_space \<equiv> (\<lambda>c. c \<noteq> CHR '' '')"

definition target_char :: "char \<Rightarrow> bool" where
  "target_char c \<longleftrightarrow> c \<noteq> CHR '' '' \<and> c \<noteq> CHR ''|''"

lemma dropWhile_shorter: "dropWhile P s = c # cs \<Longrightarrow> length (c # cs) \<le> length s"
  by (metis length_dropWhile_le)

lemma dropWhile_head: "dropWhile P s = c # cs \<Longrightarrow> \<not> P c"
  by (metis hd_dropWhile list.sel(1) list.distinct(1))

lemma target_rest_shorter:
  assumes "dropWhile (\<lambda>c. c = CHR '' '') s = c # cs" "c \<noteq> CHR ''|''"
  shows "length (dropWhile target_char (c # cs)) < length s"
proof -
  have "target_char c" using dropWhile_head [OF assms(1)] assms(2) by (simp add: target_char_def)
  then have "length (dropWhile target_char (c # cs)) \<le> length cs" by (simp add: length_dropWhile_le)
  then show ?thesis using dropWhile_shorter [OF assms(1)] by simp
qed

function resolve_targets :: "string \<Rightarrow> u32 \<Rightarrow> u32" where
  "resolve_targets s acc =
     (case dropWhile (\<lambda>c. c = CHR '' '') s of
        [] \<Rightarrow> acc
      | c # cs \<Rightarrow>
          if c = CHR ''|'' then resolve_targets cs acc
          else resolve_targets (dropWhile target_char (c # cs))
                 (acc OR target_token_mask (takeWhile target_char (c # cs))))"
  by pat_completeness auto

termination
  by (relation "measure (length \<circ> fst)") (auto dest: dropWhile_shorter target_rest_shorter simp del: dropWhile.simps)

declare resolve_targets.simps [simp del]

definition resolveAttributeTargetString :: "string \<Rightarrow> u32" where
  "resolveAttributeTargetString s = resolve_targets s 0"

text \<open>The masks of a declaration's arguments together; no target at all allows every target.\<close>

definition declared_mask :: "u32 \<Rightarrow> u32" where
  "declared_mask m = (if m = 0 then target_mask Target_All else m)"

definition binder_target_mask :: "string list \<Rightarrow> u32" where
  "binder_target_mask args = declared_mask (foldl (\<lambda>m s. m OR resolveAttributeTargetString s) 0 args)"

definition attribute_allowed :: "(string \<rightharpoonup> u32) \<Rightarrow> string \<Rightarrow> target_flag \<Rightarrow> bool" where
  "attribute_allowed targets n t \<longleftrightarrow> (case targets n of None \<Rightarrow> True | Some m \<Rightarrow> m AND target_mask t \<noteq> 0)"

definition target_context :: "target_flag \<Rightarrow> string" where
  "target_context t =
     (case t of Target_Function \<Rightarrow> ''function'' | Target_Method \<Rightarrow> ''method'' | Target_Struct \<Rightarrow> ''struct''
      | Target_Field \<Rightarrow> ''field'' | Target_Parameter \<Rightarrow> ''parameter'' | Target_ReturnValue \<Rightarrow> ''return value''
      | Target_Variable \<Rightarrow> ''variable'' | Target_All \<Rightarrow> ''unknown'')"

text \<open>Nothing is reported while the standard library is bound.\<close>

definition validateAttributeTarget ::
  "(string \<rightharpoonup> u32) \<Rightarrow> bool \<Rightarrow> string \<Rightarrow> target_flag \<Rightarrow> source_location \<Rightarrow> diagnostic list" where
  "validateAttributeTarget targets stdLib n t loc =
     (if attribute_allowed targets n t \<or> stdLib then []
      else [new_diagnostic Sev_Warning 8001
              (''attribute '' @ [CHR 0x27] @ n @ [CHR 0x27] @ '' is not valid on '' @ target_context t) loc])"

section \<open>The reader of a library\<close>

text \<open>A chain of searches in the text, of which the first that succeeds counts.\<close>

definition library_target_step :: "u32 \<Rightarrow> string \<Rightarrow> u32" where
  "library_target_step m s =
     (if sublist ''Function'' s then m OR 1
      else if sublist ''Method'' s then m OR 2
      else if sublist ''Struct'' s then m OR 4
      else if sublist ''Field'' s then m OR 8
      else if sublist ''Parameter'' s then m OR 16
      else if sublist ''ReturnValue'' s then m OR 32
      else if sublist ''Variable'' s then m OR 64
      else if sublist ''All'' s then 127
      else m)"

definition library_target_mask :: "string list \<Rightarrow> u32" where
  "library_target_mask args = declared_mask (foldl library_target_step 0 args)"

section \<open>The two compared\<close>

text \<open>The text of an argument that names some targets, as the parser joins them.\<close>

fun target_name :: "target_flag \<Rightarrow> string" where
  "target_name Target_Function = ''AttributeTarget.Function''"
| "target_name Target_Method = ''AttributeTarget.Method''"
| "target_name Target_Struct = ''AttributeTarget.Struct''"
| "target_name Target_Field = ''AttributeTarget.Field''"
| "target_name Target_Parameter = ''AttributeTarget.Parameter''"
| "target_name Target_ReturnValue = ''AttributeTarget.ReturnValue''"
| "target_name Target_Variable = ''AttributeTarget.Variable''"
| "target_name Target_All = ''AttributeTarget.All''"

definition target_text :: "target_flag list \<Rightarrow> string" where
  "target_text ts = separated '' | '' (map target_name ts)"

lemma target_name_token: "list_all target_char (target_name t)" "target_name t \<noteq> []"
    "target_token_mask (target_name t) = target_mask t"
  by (cases t; simp add: target_char_def target_token_mask_def target_map_def)+

lemma resolve_space: "resolve_targets (CHR '' '' # s) acc = resolve_targets s acc"
  by (simp add: resolve_targets.simps [of "CHR '' '' # s"] resolve_targets.simps [of s])

lemma resolve_bar: "resolve_targets (CHR ''|'' # s) acc = resolve_targets s acc"
  by (simp add: resolve_targets.simps [of "CHR ''|'' # s"])

lemma resolve_empty: "resolve_targets [] acc = acc"
  by (simp add: resolve_targets.simps [of "[]"])

lemma resolve_token:
  assumes "list_all target_char w" "w \<noteq> []" "s = [] \<or> \<not> target_char (hd s)"
  shows "resolve_targets (w @ s) acc = resolve_targets s (acc OR target_token_mask w)"
proof -
  obtain c cs where w: "w = c # cs" using assms(2) by (cases w) auto
  have c: "c \<noteq> CHR '' ''" "c \<noteq> CHR ''|''" using assms(1) by (simp_all add: w target_char_def)
  have "takeWhile target_char (w @ s) = w" "dropWhile target_char (w @ s) = s"
    using assms by (cases s; auto simp: list_all_iff)+
  then show ?thesis using c by (subst resolve_targets.simps) (simp add: w)
qed

lemma resolve_text:
  "resolve_targets (target_text ts) acc = foldl (\<lambda>m t. m OR target_mask t) acc ts"
proof (induction ts arbitrary: acc rule: induct_list012)
  case (2 t)
  show ?case
    using resolve_token [of "target_name t" "[]" acc] by (simp add: target_text_def target_name_token resolve_empty)
next
  case (3 t u ts)
  have "target_text (t # u # ts) = target_name t @ '' | '' @ target_text (u # ts)"
    by (simp add: target_text_def)
  moreover have "resolve_targets (target_name t @ '' | '' @ target_text (u # ts)) acc
      = resolve_targets ('' | '' @ target_text (u # ts)) (acc OR target_mask t)"
    using resolve_token [of "target_name t" "'' | '' @ target_text (u # ts)" acc]
    by (simp add: target_name_token target_char_def)
  ultimately show ?case
    using 3 by (simp add: resolve_space resolve_bar)
qed (simp add: target_text_def resolve_empty)

text \<open>A word without spaces is found in a text exactly when it is found in one of its parts.\<close>

lemma sublist_across:
  assumes "c \<notin> set w"
  shows "sublist w (a @ c # b) \<longleftrightarrow> sublist w a \<or> sublist w b"
proof -
  have "prefix xs (c # b) \<Longrightarrow> xs = [] \<or> c \<in> set xs" for xs
    by (cases xs) auto
  then show ?thesis
    using assms
    by (auto simp: sublist_append sublist_Cons_right prefix_Cons suffix_imp_sublist prefix_imp_sublist)
qed

lemma word_in_text:
  assumes "CHR '' '' \<notin> set w" "w \<noteq> []" "w \<noteq> ''|''" "ts \<noteq> []"
  shows "sublist w (target_text ts) \<longleftrightarrow> (\<exists>t \<in> set ts. sublist w (target_name t))"
  using assms(4)
proof (induction ts rule: induct_list012)
  case (3 t u ts)
  let ?r = "target_text (u # ts)"
  have "target_text (t # u # ts) = target_name t @ CHR '' '' # (''|'' @ CHR '' '' # ?r)"
    by (simp add: target_text_def)
  then have "sublist w (target_text (t # u # ts)) \<longleftrightarrow> sublist w (target_name t) \<or> sublist w (''|'' @ CHR '' '' # ?r)"
    by (simp only: sublist_across [OF assms(1)])
  also have "sublist w (''|'' @ CHR '' '' # ?r) \<longleftrightarrow> sublist w ''|'' \<or> sublist w ?r"
    by (rule sublist_across [OF assms(1)])
  also have "\<not> sublist w ''|''" using assms(2,3) by (auto simp: sublist_Cons_right prefix_Cons)
  ultimately show ?case using 3 by auto
qed (simp_all add: target_text_def)

definition target_word :: "target_flag \<Rightarrow> string" where
  "target_word t = drop 16 (target_name t)"

definition all_targets :: "target_flag list" where
  "all_targets = [Target_Function, Target_Method, Target_Struct, Target_Field, Target_Parameter, Target_ReturnValue,
     Target_Variable, Target_All]"

lemma target_words:
  "list_all (\<lambda>t. list_all (\<lambda>u. sublist (target_word t) (target_name u) = (t = u)) all_targets) all_targets"
  by code_simp

lemma in_all_targets: "t \<in> set all_targets"
  by (cases t) (simp_all add: all_targets_def)

lemma target_word_found: "ts \<noteq> [] \<Longrightarrow> sublist (target_word t) (target_text ts) \<longleftrightarrow> t \<in> set ts"
proof -
  assume "ts \<noteq> []"
  moreover have "CHR '' '' \<notin> set (target_word t)" "target_word t \<noteq> []" "target_word t \<noteq> ''|''"
    by (cases t; simp add: target_word_def)+
  moreover have "sublist (target_word t) (target_name u) \<longleftrightarrow> t = u" for u
    using target_words in_all_targets by (simp add: list_all_iff)
  ultimately show ?thesis by (simp add: word_in_text)
qed

text \<open>The first target, in the order of the searches, among those an argument names.\<close>

definition first_target :: "target_flag list \<Rightarrow> target_flag" where
  "first_target ts = hd (filter (\<lambda>t. t \<in> set ts) all_targets)"

lemma library_step_text:
  assumes "ts \<noteq> []"
  shows "library_target_step m (target_text ts) =
    (if first_target ts = Target_All then 127 else m OR target_mask (first_target ts))"
proof -
  note found = target_word_found [OF assms, of Target_Function] target_word_found [OF assms, of Target_Method]
    target_word_found [OF assms, of Target_Struct] target_word_found [OF assms, of Target_Field]
    target_word_found [OF assms, of Target_Parameter] target_word_found [OF assms, of Target_ReturnValue]
    target_word_found [OF assms, of Target_Variable] target_word_found [OF assms, of Target_All]
  obtain t where t: "t \<in> set ts" using assms by (cases ts) auto
  have "Target_Function \<in> set ts \<or> Target_Method \<in> set ts \<or> Target_Struct \<in> set ts \<or> Target_Field \<in> set ts
    \<or> Target_Parameter \<in> set ts \<or> Target_ReturnValue \<in> set ts \<or> Target_Variable \<in> set ts \<or> Target_All \<in> set ts"
    by (cases t) (use t in simp_all)
  then show ?thesis
    using found by (auto simp: library_target_step_def first_target_def all_targets_def target_word_def target_mask_def)
qed

lemma single_target: "first_target [t] = t"
  by (cases t) (simp_all add: first_target_def all_targets_def)

lemma target_mask_bounded: "target_mask t OR 127 = 127"
  by (cases t) (simp_all add: target_mask_def)

lemma single_masks:
  "m OR 127 = 127 \<Longrightarrow>
     foldl library_target_step m (map target_name ts) = foldl (\<lambda>m s. m OR resolveAttributeTargetString s) m (map target_name ts)"
proof (induction ts arbitrary: m)
  case (Cons t ts)
  have "library_target_step m (target_name t) = m OR target_mask t"
    using library_step_text [of "[t]" m] Cons.prems
    by (auto simp: single_target target_text_def target_mask_def)
  moreover have "resolveAttributeTargetString (target_name t) = target_mask t"
    using resolve_text [of "[t]" 0] by (simp add: resolveAttributeTargetString_def target_text_def)
  moreover have "(m OR target_mask t) OR 127 = 127"
    using Cons.prems target_mask_bounded by (simp add: or.assoc)
  ultimately show ?case using Cons.IH by simp
qed simp

text \<open>C31: A library's reader and the binder give an attribute the same targets when each argument of its
  declaration names one target. When one argument joins several with bars, the binder takes the union
  of them all, as it must; the reader takes only one of them, the first of its searches that succeeds.\<close>

theorem attribute_target_masks:
  "library_target_mask (map target_name ts) = binder_target_mask (map target_name ts)
   \<and> resolveAttributeTargetString (target_text us) = foldl (\<lambda>m t. m OR target_mask t) 0 us
   \<and> library_target_mask [target_text (u # us)] = target_mask (first_target (u # us))"
proof -
  have "library_target_mask (map target_name ts) = binder_target_mask (map target_name ts)"
    using single_masks [of 0 ts] by (simp add: library_target_mask_def binder_target_mask_def)
  moreover have "library_target_mask [target_text (u # us)] = target_mask (first_target (u # us))"
    by (simp add: library_target_mask_def library_step_text declared_mask_def target_mask_def split: target_flag.split)
  ultimately show ?thesis
    by (simp add: resolveAttributeTargetString_def resolve_text)
qed

end
