(* ===== verification/Lib_Reader.thy ===== *)
theory Lib_Reader
  imports Lib_Writer Attribute_Targets
begin

text \<open>
  \<^verbatim>\<open>lib/DjLibReader.cpp\<close>: the checks of a library file, and what its metadata adds to a symbol table, to
  the macros of a program, to the attribute targets and to the constants. \<^const>\<open>None\<close> is an exception of
  the JSON library; the macros have a third outcome, a failed assertion, which ends the compiler.
\<close>

section \<open>The file\<close>

record 'j library_reader =
  lr_metadata :: 'j
  lr_bitcode :: string
  lr_valid :: bool

definition new_library_reader :: "'j json_api \<Rightarrow> 'j library_reader" where
  "new_library_reader api = \<lparr>lr_metadata = js_null api, lr_bitcode = [], lr_valid = False\<rparr>"

fun le_value :: "string \<Rightarrow> nat" where
  "le_value [] = 0"
| "le_value (c # cs) = of_char c + 256 * le_value cs"

definition read_header :: "string \<Rightarrow> library_header" where
  "read_header bytes =
     \<lparr>lh_magic = take 4 bytes, lh_version = le_value (take 2 (drop 4 bytes)), lh_flags = le_value (take 2 (drop 6 bytes)),
      lh_metadataSize = le_value (take 4 (drop 8 bytes)), lh_bitcodeSize = le_value (take 4 (drop 12 bytes))\<rparr>"

text \<open>
  The contents of the file, or that it cannot be opened. The bitcode is stored before the metadata is
  parsed, so a reader that gives up there keeps it.
\<close>

definition read_library ::
  "'j json_api \<Rightarrow> string option \<Rightarrow> 'j library_reader \<Rightarrow> bool \<times> 'j library_reader" where
  "read_library api file r =
     (case file of
        None \<Rightarrow> (False, r)
      | Some bytes \<Rightarrow>
          if length bytes < 16 then (False, r)
          else (let h = read_header bytes in
            if lh_magic h \<noteq> MAGIC then (False, r)
            else if VERSION < lh_version h then (False, r)
            else if length bytes < 16 + lh_metadataSize h + lh_bitcodeSize h then (False, r)
            else (let text = take (lh_metadataSize h) (drop 16 bytes);
                      r' = r\<lparr>lr_bitcode := take (lh_bitcodeSize h) (drop (16 + lh_metadataSize h) bytes)\<rparr>
                  in case js_parse api text of
                       None \<Rightarrow> (False, r')
                     | Some md \<Rightarrow> (True, r'\<lparr>lr_metadata := md, lr_valid := True\<rparr>))))"

definition hasGenericSources :: "'j json_api \<Rightarrow> 'j library_reader \<Rightarrow> bool" where
  "hasGenericSources api r \<longleftrightarrow> lr_valid r \<and> js_contains api ''genericSources'' (lr_metadata r)"

text \<open>The items of an optional member of the metadata.\<close>

definition metadata_items :: "'j json_api \<Rightarrow> string \<Rightarrow> 'j \<Rightarrow> 'j list" where
  "metadata_items api k md = (case js_at api k md of None \<Rightarrow> [] | Some v \<Rightarrow> js_items api v)"

section \<open>Symbols\<close>

text \<open>What follows the last \<^verbatim>\<open>::\<close> of a name, if there is one.\<close>

fun short_name :: "string \<Rightarrow> string option" where
  "short_name [] = None"
| "short_name (c # cs) =
     (case short_name cs of
        Some s \<Rightarrow> Some s
      | None \<Rightarrow> if c = CHR '':'' \<and> cs \<noteq> [] \<and> hd cs = CHR '':'' then Some (tl cs) else None)"

definition add_library_symbol :: "symbol \<Rightarrow> symtab \<Rightarrow> symtab" where
  "add_library_symbol s st =
     (let (a, st) = make_shared (s\<lparr>isFromLibrary := True\<rparr>) st;
          st = snd (define_symbol a st)
      in case short_name (sy_name s) of
           None \<Rightarrow> st
         | Some n \<Rightarrow> if isDefinedLocally n st then st else snd (defineAlias n a st))"

text \<open>An interface gets a second object for its short name, not marked as one of a library.\<close>

definition add_library_interface :: "symbol \<Rightarrow> symtab \<Rightarrow> symtab" where
  "add_library_interface s st =
     (let (a, st) = make_shared (s\<lparr>isFromLibrary := True\<rparr>) st;
          st = snd (defineInterface a st)
      in case short_name (sy_name s) of
           None \<Rightarrow> st
         | Some n \<Rightarrow>
             (let (b, st) = make_shared (new_symbol SK_Interface n voided no_location False (sy_detail s)) st
              in snd (defineInterfaceAlias n b st)))"

definition add_library_extern :: "symbol \<Rightarrow> symtab \<Rightarrow> symtab" where
  "add_library_extern s st =
     (let (a, st) = make_shared (s\<lparr>isFromLibrary := True\<rparr>) st in snd (define_symbol a st))"

definition symbol_isGeneric :: "symbol \<Rightarrow> bool" where
  "symbol_isGeneric s \<longleftrightarrow>
     (case sy_detail s of Struct_Detail d \<Rightarrow> st_isGeneric d | Enum_Detail e \<Rightarrow> en_isGeneric e | _ \<Rightarrow> False)"

text \<open>With the sources of the generic declarations at hand, those are compiled anew.\<close>

definition has_generic_sources :: "'j json_api \<Rightarrow> 'j \<Rightarrow> bool" where
  "has_generic_sources api md \<longleftrightarrow>
     (case js_at api ''genericSources'' md of None \<Rightarrow> False | Some v \<Rightarrow> \<not> js_empty api v)"

fun add_each :: "('j \<Rightarrow> symbol option) \<Rightarrow> (symbol \<Rightarrow> bool) \<Rightarrow> (symbol \<Rightarrow> symtab \<Rightarrow> symtab) \<Rightarrow> 'j list \<Rightarrow> symtab
    \<Rightarrow> symtab option" where
  "add_each get skip add [] st = Some st"
| "add_each get skip add (j # js) st =
     do { s \<leftarrow> get j; add_each get skip add js (if skip s then st else add s st) }"

definition populateSymbolTable :: "'j json_api \<Rightarrow> 'j library_reader \<Rightarrow> symtab \<Rightarrow> symtab option" where
  "populateSymbolTable api r st =
     (if \<not> lr_valid r then Some st
      else (let md = lr_metadata r;
                skip = (\<lambda>s. has_generic_sources api md \<and> symbol_isGeneric s);
                keep = (\<lambda>s. False)
            in do {
              st \<leftarrow> add_each (deserializeInterface api) keep add_library_interface (metadata_items api ''interfaces'' md) st;
              st \<leftarrow> add_each (deserializeStruct api) skip add_library_symbol (metadata_items api ''structs'' md) st;
              st \<leftarrow> add_each (deserializeEnum api) skip add_library_symbol (metadata_items api ''enums'' md) st;
              st \<leftarrow> add_each (deserializeFunction api) keep add_library_symbol (metadata_items api ''functions'' md) st;
              add_each (deserializeExternFunction api) keep add_library_extern
                (metadata_items api ''externFunctions'' md) st
            }))"

section \<open>Macros\<close>

datatype 'a loaded = Loaded 'a | Thrown | Aborted

definition then_load :: "'a loaded \<Rightarrow> ('a \<Rightarrow> 'b loaded) \<Rightarrow> 'b loaded" where
  "then_load r f = (case r of Loaded x \<Rightarrow> f x | Thrown \<Rightarrow> Thrown | Aborted \<Rightarrow> Aborted)"

definition or_thrown :: "'a option \<Rightarrow> 'a loaded" where
  "or_thrown r = (case r of Some x \<Rightarrow> Loaded x | None \<Rightarrow> Thrown)"

fun load_each :: "('j \<Rightarrow> 'a loaded) \<Rightarrow> 'j list \<Rightarrow> 'a list loaded" where
  "load_each f [] = Loaded []"
| "load_each f (j # js) = then_load (f j) (\<lambda>x. then_load (load_each f js) (\<lambda>xs. Loaded (x # xs)))"

text \<open>
  \<^verbatim>\<open>SourceIdentifier(name)\<close> of \<^verbatim>\<open>ASTNode.h\<close>: it asserts that the name and the file of the location are not
  empty, and the location is the one a \<^verbatim>\<open>Location\<close> starts with.
\<close>

definition source_identifier :: "string \<Rightarrow> ident loaded" where
  "source_identifier n =
     (let i = \<lparr>token_name = n, id_location = no_location\<rparr>
      in if token_name i = [] then Aborted
         else if loc_fileId (id_location i) = [] then Aborted
         else Loaded i)"

definition stringToFragmentType :: "string \<Rightarrow> macro_fragment_type" where
  "stringToFragmentType s =
     (if s = ''expression'' then MF_EXPRESSION
      else if s = ''identifier'' then MF_IDENTIFIER
      else if s = ''literal'' then MF_LITERAL
      else if s = ''type'' then MF_TYPE
      else if s = ''block'' then MF_BLOCK
      else if s = ''literal_token'' then MF_LITERAL_TOKEN
      else MF_EXPRESSION)"

definition macro_parameter_from_json :: "'j json_api \<Rightarrow> 'j \<Rightarrow> macro_parameter loaded" where
  "macro_parameter_from_json api j =
     then_load (or_thrown (js_field api (js_get_string api) ''fragment'' j)) (\<lambda>ft.
     then_load (or_thrown (js_field api (js_get_string api) ''name'' j)) (\<lambda>n.
     then_load (source_identifier n) (\<lambda>i.
     then_load (or_thrown (js_value api (js_get_bool api) ''local'' False j)) (\<lambda>l.
     then_load (or_thrown (js_value api (js_get_string api) ''literalToken'' [] j)) (\<lambda>lit.
     Loaded \<lparr>mp_fragment = stringToFragmentType ft, mp_name = i, mp_isLocal = l, mp_literal = lit\<rparr>)))))"

definition macro_rule_from_json :: "'j json_api \<Rightarrow> 'j \<Rightarrow> macro_rule loaded" where
  "macro_rule_from_json api j =
     then_load (or_thrown (Option.bind (js_at api ''params'' j) (js_elements api))) (\<lambda>ps.
     then_load (load_each (macro_parameter_from_json api) ps) (\<lambda>ps.
     then_load (or_thrown (js_field api (js_vector api (token_from_json api)) ''tokens'' j)) (\<lambda>ts.
     then_load (or_thrown (js_value api (js_get_bool api) ''void'' False j)) (\<lambda>v.
     Loaded \<lparr>mr_parameters = ps, mr_body = ts, mr_location = no_location, mr_isVoid = v\<rparr>))))"

definition macro_from_json :: "'j json_api \<Rightarrow> 'j \<Rightarrow> macro_declaration loaded" where
  "macro_from_json api j =
     then_load (or_thrown (js_field api (js_get_string api) ''name'' j)) (\<lambda>n.
     then_load (source_identifier n) (\<lambda>i.
     then_load (or_thrown (js_at api ''rules'' j)) (\<lambda>rs.
     then_load (load_each (macro_rule_from_json api) (js_items api rs)) (\<lambda>rs.
     Loaded \<lparr>md_name = i, md_rules = rs, md_location = no_location\<rparr>))))"

definition populateMacros ::
  "'j json_api \<Rightarrow> 'j library_reader \<Rightarrow> macro_declaration list \<Rightarrow> macro_declaration list loaded" where
  "populateMacros api r ms =
     (if \<not> lr_valid r then Loaded ms
      else then_load (load_each (macro_from_json api) (metadata_items api ''macros'' (lr_metadata r)))
             (\<lambda>new. Loaded (ms @ new)))"

section \<open>Attribute targets, constants, static variables\<close>

text \<open>The arguments whose type says they are strings; the value of one must be a string.\<close>

fun target_arguments :: "'j json_api \<Rightarrow> 'j list \<Rightarrow> string list option" where
  "target_arguments api [] = Some []"
| "target_arguments api (a # as) =
     (if Option.bind (js_at api ''type'' a) (js_get_string api) = Some ''string''
      then do {
        v \<leftarrow> js_field api (js_get_string api) ''value'' a;
        vs \<leftarrow> target_arguments api as;
        Some (v # vs)
      }
      else target_arguments api as)"

fun add_attribute_targets :: "'j json_api \<Rightarrow> 'j list \<Rightarrow> (string \<rightharpoonup> u32) \<Rightarrow> (string \<rightharpoonup> u32) option" where
  "add_attribute_targets api [] targets = Some targets"
| "add_attribute_targets api (j # js) targets =
     do {
       n \<leftarrow> js_field api (js_get_string api) ''name'' j;
       vs \<leftarrow> target_arguments api (metadata_items api ''targetArgs'' j);
       let mask = library_target_mask vs;
           targets = targets(n \<mapsto> mask);
           targets = (case short_name n of None \<Rightarrow> targets | Some s \<Rightarrow> targets(s \<mapsto> mask))
       in add_attribute_targets api js targets
     }"

definition populateAttributeTargets ::
  "'j json_api \<Rightarrow> 'j library_reader \<Rightarrow> (string \<rightharpoonup> u32) \<Rightarrow> (string \<rightharpoonup> u32) option" where
  "populateAttributeTargets api r targets =
     (if \<not> lr_valid r then Some targets
      else add_attribute_targets api (metadata_items api ''attributeDecls'' (lr_metadata r)) targets)"

definition define_library_variable :: "bool \<Rightarrow> bool \<Rightarrow> type_t \<Rightarrow> string \<Rightarrow> symtab \<Rightarrow> symtab" where
  "define_library_variable mut lib t n st =
     (let (a, st) = make_shared ((new_symbol SK_Variable n (copy_type t) no_location False Plain)
            \<lparr>sy_isMutable := mut, isFromLibrary := lib\<rparr>) st
      in snd (define_symbol a st))"

fun add_constants ::
  "'j json_api \<Rightarrow> 'j list \<Rightarrow> symtab \<times> constant_entry ordered_table \<Rightarrow> (symtab \<times> constant_entry ordered_table) option" where
  "add_constants api [] st = Some st"
| "add_constants api (j # js) (st, ct) =
     do {
       n \<leftarrow> js_field api (js_get_string api) ''name'' j;
       t \<leftarrow> js_field api (type_from_json api) ''type'' j;
       let e = \<lparr>ct_type = copy_type t, ct_hasValue = False\<rparr>;
           st = define_library_variable False False t n st;
           ct = add_entry n e ct
       in case short_name n of
            None \<Rightarrow> add_constants api js (st, ct)
          | Some s \<Rightarrow> add_constants api js (define_library_variable False False t s st, add_entry s e ct)
     }"

definition populateConstExprs ::
  "'j json_api \<Rightarrow> 'j library_reader \<Rightarrow> symtab \<times> constant_entry ordered_table
   \<Rightarrow> (symtab \<times> constant_entry ordered_table) option" where
  "populateConstExprs api r st =
     (if \<not> lr_valid r then Some st
      else add_constants api (metadata_items api ''constExprs'' (lr_metadata r)) st)"

fun add_statics :: "'j json_api \<Rightarrow> 'j list \<Rightarrow> symtab \<Rightarrow> symtab option" where
  "add_statics api [] st = Some st"
| "add_statics api (j # js) st =
     do {
       n \<leftarrow> js_field api (js_get_string api) ''name'' j;
       t \<leftarrow> js_field api (type_from_json api) ''type'' j;
       mut \<leftarrow> js_value api (js_get_bool api) ''mut'' False j;
       let st = define_library_variable mut True t n st
       in case short_name n of
            None \<Rightarrow> add_statics api js st
          | Some s \<Rightarrow> add_statics api js (define_library_variable mut True t s st)
     }"

definition populateStaticVars :: "'j json_api \<Rightarrow> 'j library_reader \<Rightarrow> symtab \<Rightarrow> symtab option" where
  "populateStaticVars api r st =
     (if \<not> lr_valid r then Some st
      else add_statics api (metadata_items api ''staticVars'' (lr_metadata r)) st)"

section \<open>All of a library\<close>

record binder_tables =
  bt_table :: symtab
  bt_targets :: "string \<rightharpoonup> u32"
  bt_constants :: "constant_entry ordered_table"

definition injectLibrarySymbols :: "'j json_api \<Rightarrow> 'j library_reader \<Rightarrow> binder_tables \<Rightarrow> binder_tables option" where
  "injectLibrarySymbols api r b =
     do {
       st \<leftarrow> populateSymbolTable api r (bt_table b);
       ts \<leftarrow> populateAttributeTargets api r (bt_targets b);
       (st, ct) \<leftarrow> populateConstExprs api r (st, bt_constants b);
       st \<leftarrow> populateStaticVars api r st;
       Some \<lparr>bt_table = st, bt_targets = ts, bt_constants = ct\<rparr>
     }"

end
