(* ===== verification/Lib_Format_Correct.thy ===== *)
theory Lib_Format_Correct
  imports Lib_Symbols Types_Correct
begin

text \<open>
  What is read back from a library is what was stored, up to an explicit loss. \<open>stored_type\<close>,
  \<open>stored_method\<close> and the other \<open>stored\<close> functions say what survives of a value; every round trip is
  one equation over them.
\<close>

section \<open>Token types\<close>

lemma tables_inverse: "name_token_table = map (\<lambda>(t, n). (n, t)) token_name_table"
  by (simp add: name_token_table_def token_name_table_def)

lemma distinct_token_names: "distinct (map fst name_token_table)"
  by code_simp

lemma listed_token_types: "t \<in> set (map fst token_name_table) \<longleftrightarrow> (\<forall>k. t \<noteq> Tok_nullerr k)"
proof (cases t)
  case (Tok_basic k) then show ?thesis by (cases k) (simp_all add: token_name_table_def)
next
  case (Tok_decl k) then show ?thesis by (cases k) (simp_all add: token_name_table_def)
next
  case (Tok_flow k) then show ?thesis by (cases k) (simp_all add: token_name_table_def)
next
  case (Tok_vtype k) then show ?thesis by (cases k) (simp_all add: token_name_table_def)
next
  case (Tok_lit k) then show ?thesis by (cases k) (simp_all add: token_name_table_def)
next
  case (Tok_delim k) then show ?thesis by (cases k) (simp_all add: token_name_table_def)
next
  case (Tok_oper k) then show ?thesis by (cases k) (simp_all add: token_name_table_def)
next
  case (Tok_assign k) then show ?thesis by (cases k) (simp_all add: token_name_table_def)
next
  case (Tok_path k) then show ?thesis by (cases k) (simp_all add: token_name_table_def)
next
  case (Tok_special k) then show ?thesis by (cases k) (simp_all add: token_name_table_def)
next
  case (Tok_nullerr k) then show ?thesis by (simp add: token_name_table_def)
qed

definition stored_token_type :: "token_type \<Rightarrow> token_type" where
  "stored_token_type t = (case t of Tok_nullerr _ \<Rightarrow> T_UNKNOWN | _ \<Rightarrow> t)"

lemma token_type_read: "deserializeTokenType (serializeTokenType t) = stored_token_type t"
proof (cases "map_of token_name_table t")
  case None
  then obtain k where "t = Tok_nullerr k" using listed_token_types [of t] by (auto simp: map_of_eq_None_iff)
  then show ?thesis
    using None by (simp add: serializeTokenType_def deserializeTokenType_def name_token_table_def stored_token_type_def)
next
  case (Some n)
  then have "(n, t) \<in> set name_token_table"
    using map_of_SomeD [OF Some] by (force simp: tables_inverse)
  then have "map_of name_token_table n = Some t"
    by (simp add: distinct_token_names)
  moreover have "\<forall>k. t \<noteq> Tok_nullerr k"
    using listed_token_types [of t] map_of_SomeD [OF Some] by force
  ultimately show ?thesis
    using Some by (cases t) (simp_all add: serializeTokenType_def deserializeTokenType_def stored_token_type_def)
qed

text \<open>The two tables of token names are inverse to each other on the token types they list. The
  token types of null handling, errors and contracts are missing from both, so a stored
  token of theirs comes back as an unknown token; every other one comes back as it was.\<close>

theorem token_type_names:
  "deserializeTokenType (serializeTokenType t) = (case t of Tok_nullerr _ \<Rightarrow> T_UNKNOWN | _ \<Rightarrow> t)"
  by (simp add: token_type_read stored_token_type_def)

section \<open>Types\<close>

primrec stored_type :: "type_t \<Rightarrow> type_t" where
  "stored_type (Type a el args) =
     Type (a\<lparr>nonZero := False\<rparr>) (map_option stored_type el) (map stored_type args)"

fun type_fits :: "type_t \<Rightarrow> bool" where
  "type_fits (Type a el args) \<longleftrightarrow>
     ty_size a < 18446744073709551616 \<and> pred_option type_fits el \<and> list_all type_fits args"

lemma kind_string [simp]: "kind_of_string (kindToString k) = k"
  by (cases k) (simp_all add: kindToString_def kind_of_string_def)

lemma mode_code [simp]: "overflow_mode_of_code (overflow_mode_code m) = Some m"
  by (cases m) (simp_all add: overflow_mode_code_def overflow_mode_of_code_def)

lemma mode_code_small: "overflow_mode_code m < 18446744073709551616"
  by (cases m) (simp_all add: overflow_mode_code_def)

lemma mode_none [simp]: "overflow_mode_of_code 0 = Some OM_None"
  by (simp add: overflow_mode_of_code_def)

lemma attrs_read:
  assumes "json_library api" "ty_size a < 18446744073709551616"
  shows "attrs_from_json api (type_to_json api (Type a el args)) = Some (a\<lparr>nonZero := False\<rparr>)"
  using assms
  by (cases a) (simp add: attrs_from_json_def js_simps mode_code_small)

lemma type_parts_at:
  assumes "json_library api"
  shows "js_at api ''genericArgs'' (type_to_json api (Type a el args)) =
      (if args = [] then None else Some (js_array api (map (type_to_json api) args)))"
    "js_at api ''elementType'' (type_to_json api (Type a el args)) = map_option (type_to_json api) el"
  using assms by (simp_all add: js_simps split: option.split)

lemma type_read:
  assumes lib: "json_library api"
  shows "type_fits t \<Longrightarrow> type_from_json api (type_to_json api t) = Some (stored_type t)"
proof (induction t)
  case (Type a el args)
  note parts = attrs_read [OF lib] type_parts_at [OF lib]
  have "map_option_list (type_from_json api) (map (type_to_json api) args) = Some (map stored_type args)"
    using Type by (intro map_option_list_map) (auto simp: list_all_iff)
  moreover have "el = Some e \<Longrightarrow> type_from_json api (type_to_json api e) = Some (stored_type e)" for e
    using Type by simp
  ultimately show ?case
    using Type.prems lib
    by (subst type_from_json.simps) (cases el; simp add: parts library_values del: type_to_json.simps)
qed

text \<open>The types with no non-zero integer at any depth.\<close>

primrec no_nonZero :: "type_t \<Rightarrow> bool" where
  "no_nonZero (Type a el args) \<longleftrightarrow>
     \<not> nonZero a \<and> pred_option id (map_option no_nonZero el) \<and> list_all id (map no_nonZero args)"

lemma stored_type_eq: "type_eq (stored_type t) t \<longleftrightarrow> no_nonZero t"
proof (induction t)
  case (Type a el args)
  then show ?case
    by (cases el) (auto simp: type_eq_iff list_all_iff list.rel_map list_all2_same simp del: type_eq.simps)
qed

text \<open>C32: A type read back from a library differs from the stored one at most in the non-zero mark of its
  integers, which is not stored, at any depth of element types and generic arguments; it compares equal
  to the stored type exactly when there is no such mark in it.\<close>

theorem library_type_roundtrip:
  assumes "json_library api" "type_fits t"
  shows "\<exists>t'. type_from_json api (type_to_json api t) = Some t' \<and> t' = stored_type t
    \<and> (type_eq t' t \<longleftrightarrow> no_nonZero t)"
  using type_read [OF assms] by (simp add: stored_type_eq)

theorem library_type_roundtrip_witness:
  "\<exists>t'. type_from_json (plain_api (\<lambda>j. None) (\<lambda>s. None))
       (type_to_json (plain_api (\<lambda>j. None) (\<lambda>s. None)) (array_type (integer_type 32 True OM_Wrapped))) = Some t'
     \<and> type_eq t' (array_type (integer_type 32 True OM_Wrapped))"
  using library_type_roundtrip [of "plain_api (\<lambda>j. None) (\<lambda>s. None)" "array_type (integer_type 32 True OM_Wrapped)"]
  by (auto simp: array_type_def integer_type_def new_attrs_def)

section \<open>Tokens, generic parameters, attributes\<close>

definition stored_position :: "position \<Rightarrow> position" where
  "stored_position p = (if p_line p = 0 then no_position else p\<lparr>p_fileId := [], p_index := 0\<rparr>)"

definition stored_token :: "token \<Rightarrow> token" where
  "stored_token t = \<lparr>t_position = stored_position (t_position t), t_type = stored_token_type (t_type t), t_value = t_value t\<rparr>"

lemma unat_u32_small: "unat (w :: u32) < 18446744073709551616"
  by (rule order.strict_trans [OF unsigned_less]) simp

lemma token_read: "json_library api \<Longrightarrow> token_from_json api (token_to_json api t) = Some (stored_token t)"
  by (simp add: token_from_json_def token_to_json_def position_from_json_def position_to_json_def js_simps
      js_get_u32_def unat_u32_small stored_token_def stored_position_def token_type_read)

lemma strings_read:
  "json_library api \<Longrightarrow> map_option_list (js_get_string api) (map (js_string api) ss) = Some ss"
  by (rule map_option_list_same) (simp add: js_simps)

lemma generic_read: "json_library api \<Longrightarrow> generic_from_json api (generic_to_json api g) = Some g"
  by (simp add: generic_from_json_def generic_to_json_def js_simps js_strings_def strings_read)

lemma generics_read:
  "json_library api \<Longrightarrow> map_option_list (generic_from_json api) (map (generic_to_json api) gs) = Some gs"
  by (rule map_option_list_same) (simp add: generic_read)

lemma arg_read: "json_library api \<Longrightarrow> arg_from_json api (arg_to_json api a) = Some a"
  by (cases a; cases "aa_name a"; cases "aa_value a") (simp_all add: arg_from_json_def arg_to_json_def js_simps)

lemma attribute_read: "json_library api \<Longrightarrow> attribute_from_json api (attribute_to_json api a) = Some a"
  by (simp add: attribute_from_json_def attribute_to_json_def js_simps map_option_list_same arg_read)

lemma attributes_read:
  "json_library api \<Longrightarrow> map_option_list (attribute_from_json api) (map (attribute_to_json api) as) = Some as"
  by (rule map_option_list_same) (simp add: attribute_read)

lemmas lists_read = strings_read generics_read attributes_read

section \<open>Members\<close>

definition stored_variant :: "enum_variant \<Rightarrow> enum_variant" where
  "stored_variant v = v\<lparr>ev_associatedTypes := map stored_type (ev_associatedTypes v)\<rparr>"

definition variant_fits :: "enum_variant \<Rightarrow> bool" where
  "variant_fits v \<longleftrightarrow> ev_tag v < 4294967296 \<and> list_all type_fits (ev_associatedTypes v)"

lemma types_read:
  "json_library api \<Longrightarrow> list_all type_fits ts \<Longrightarrow>
     map_option_list (type_from_json api) (map (type_to_json api) ts) = Some (map stored_type ts)"
  by (rule map_option_list_map) (auto simp: list_all_iff type_read)

lemma variant_read:
  "json_library api \<Longrightarrow> variant_fits v \<Longrightarrow> variant_from_json api (variant_to_json api v) = Some (stored_variant v)"
  by (simp add: variant_from_json_def variant_to_json_def js_simps types_read stored_variant_def variant_fits_def)

definition stored_property :: "property_symbol \<Rightarrow> property_symbol" where
  "stored_property p = library_property (ps_name p) (stored_type (ps_type p)) (ps_hasGetter p) (ps_hasSetter p)"

lemma property_read:
  "json_library api \<Longrightarrow> type_fits (ps_type p) \<Longrightarrow>
     property_from_json api (property_to_json api p) = Some (stored_property p)"
  by (simp add: property_from_json_def property_to_json_def js_simps type_read stored_property_def)

definition stored_field :: "field_symbol \<Rightarrow> field_symbol" where
  "stored_field f =
     f\<lparr>fs_type := copy_type (stored_type (fs_type f)), fs_location := no_location, fs_hasInitializer := False\<rparr>"

lemma field_read:
  "json_library api \<Longrightarrow> type_fits (fs_type f) \<Longrightarrow> field_from_json api (field_to_json api f) = Some (stored_field f)"
  by (simp add: field_from_json_def field_to_json_def js_simps type_read stored_field_def)

section \<open>Methods and functions\<close>

definition stored_parameter_type :: "type_t \<Rightarrow> type_t" where
  "stored_parameter_type t = copy_type (stored_type t)"

definition stored_method :: "method_symbol \<Rightarrow> method_symbol" where
  "stored_method m =
     m\<lparr>ms_returnType := stored_parameter_type (ms_returnType m),
       ms_paramTypes := map stored_parameter_type (ms_paramTypes m),
       ms_operatorCanonicalName := (if ms_isOperator m then ms_operatorCanonicalName m else []),
       ms_throwsAny := False, ms_throwsTypes := [], ms_hasBlock := False, ms_hasExpressionBody := False\<rparr>"

definition method_fits :: "method_symbol \<Rightarrow> bool" where
  "method_fits m \<longleftrightarrow>
     length (ms_paramNames m) = length (ms_paramTypes m)
     \<and> length (ms_paramAttributes m) = length (ms_paramTypes m)
     \<and> type_fits (ms_returnType m) \<and> list_all type_fits (ms_paramTypes m)"

text \<open>The three parallel vectors as one list.\<close>

lemma parameter_read:
  assumes "json_library api" "type_fits (ts ! i)" "i < length ass"
    "\<forall>k \<in> fst ` set extra. k \<notin> {''attrs'', ''name'', ''type''}"
  shows "parameter_from_json api (js_object api (parameter_fields api ts ns ass extra i))
    = Some (ns ! i, stored_type (ts ! i), ass ! i)"
proof -
  have "js_assigned k extra = None" if "k \<in> {''attrs'', ''name'', ''type''}" for k
    using assms(4) that by (induction extra) (auto split: option.splits)
  then show ?thesis
    using assms
    by (simp add: parameter_from_json_def parameter_fields_def attributes_to_json_def js_simps type_read lists_read)
qed

lemma method_parameters_read:
  assumes "json_library api" "\<forall>i \<in> set is. i < length ass \<and> type_fits (ts ! i)"
  shows "add_method_parameters api (map (\<lambda>i. js_object api (parameter_fields api ts ns ass [] i)) is) m
    = Some (m\<lparr>ms_paramNames := ms_paramNames m @ map ((!) ns) is,
              ms_paramTypes := ms_paramTypes m @ map (\<lambda>i. stored_parameter_type (ts ! i)) is,
              ms_paramAttributes := ms_paramAttributes m @ map ((!) ass) is\<rparr>)"
  using assms(2)
  by (induction "is" arbitrary: m)
    (simp_all add: parameter_read [OF assms(1)] ms_addParameter_def stored_parameter_type_def)

lemma map_nth_same: "length xs = n \<Longrightarrow> map ((!) xs) [0..<n] = xs"
  by (metis map_nth)

lemma map_nth_through: "map (\<lambda>i. f (xs ! i)) [0..<length xs] = map f xs"
  by (rule nth_equalityI) simp_all

lemma fits_nth: "list_all type_fits ts \<Longrightarrow> i < length ts \<Longrightarrow> type_fits (ts ! i)"
  by (simp add: list_all_length)

lemma method_parameters:
  assumes "json_library api" "method_fits m"
  shows "add_method_parameters api (map (\<lambda>i. js_object api (parameter_fields api (ms_paramTypes m) (ms_paramNames m)
      (ms_paramAttributes m) [] i)) [0..<length (ms_paramTypes m)]) ((new_method n r)\<lparr>ms_structName := sn\<rparr>)
    = Some ((new_method n r)\<lparr>ms_structName := sn, ms_paramNames := ms_paramNames m,
        ms_paramTypes := map stored_parameter_type (ms_paramTypes m), ms_paramAttributes := ms_paramAttributes m\<rparr>)"
proof -
  have "\<forall>i \<in> set [0..<length (ms_paramTypes m)]. i < length (ms_paramAttributes m) \<and> type_fits (ms_paramTypes m ! i)"
    using assms(2) by (auto simp: method_fits_def fits_nth)
  from method_parameters_read [OF assms(1) this] show ?thesis
    using assms(2) by (simp add: method_fits_def map_nth_same map_nth_through new_method_def)
qed

lemma method_rebuilt:
  "(new_method (ms_name m) (stored_parameter_type (ms_returnType m)))\<lparr>ms_structName := ms_structName m,
      ms_paramNames := ms_paramNames m, ms_paramTypes := map stored_parameter_type (ms_paramTypes m),
      ms_paramAttributes := ms_paramAttributes m, ms_genericParams := ms_genericParams m,
      ms_attributes := ms_attributes m, ms_isAbstract := ms_isAbstract m, ms_isStatic := ms_isStatic m,
      ms_isConstructor := ms_isConstructor m, ms_isAsync := ms_isAsync m, ms_isOperator := ms_isOperator m,
      ms_operatorCanonicalName := (if ms_isOperator m then ms_operatorCanonicalName m else []),
      ms_variadicName := ms_variadicName m\<rparr> = stored_method m"
  by (cases m) (simp add: new_method_def stored_method_def)

lemma operator_name_case:
  "json_library api \<Longrightarrow> (case (if c then Some (js_string api n) else None) of
     None \<Rightarrow> Some d | Some w \<Rightarrow> js_get_string api w) = Some (if c then n else d)"
  by (simp add: library_values)

lemma method_read:
  assumes lib: "json_library api" and fits: "method_fits m"
  shows "deserializeMethod api (serializeMethod api m) = Some (stored_method m)"
proof -
  have "type_fits (ms_returnType m)" using fits by (simp add: method_fits_def)
  then show ?thesis
    using lib fits
    by (simp add: deserializeMethod_def serializeMethod_def js_simps type_read method_parameters lists_read
        generics_to_json_def attributes_to_json_def operator_name_case [where c = "ms_isOperator m"]
        method_rebuilt split del: if_split flip: stored_parameter_type_def)
qed

definition stored_function :: "function_info \<Rightarrow> function_info" where
  "stored_function f =
     f\<lparr>fi_returnType := stored_parameter_type (fi_returnType f),
       fi_paramTypes := map stored_parameter_type (fi_paramTypes f),
       fi_hasBody := False, fi_throwsAny := False, fi_throwsTypes := []\<rparr>"

definition function_fits :: "function_info \<Rightarrow> bool" where
  "function_fits f \<longleftrightarrow>
     length (fi_paramNames f) = length (fi_paramTypes f)
     \<and> length (fi_paramMutable f) = length (fi_paramTypes f)
     \<and> length (fi_paramAttributes f) = length (fi_paramTypes f)
     \<and> type_fits (fi_returnType f) \<and> list_all type_fits (fi_paramTypes f)"

lemma function_parameters_read:
  assumes "json_library api" "\<forall>i \<in> set is. i < length ass \<and> i < length mus \<and> type_fits (ts ! i)"
  shows "add_function_parameters api (map (\<lambda>i. js_object api (parameter_fields api ts ns ass
      (given (i < length mus \<and> mus ! i) ''mut'' (js_bool api True)) i)) is) f
    = Some (f\<lparr>fi_paramNames := fi_paramNames f @ map ((!) ns) is,
              fi_paramTypes := fi_paramTypes f @ map (\<lambda>i. stored_parameter_type (ts ! i)) is,
              fi_paramMutable := fi_paramMutable f @ map ((!) mus) is,
              fi_paramAttributes := fi_paramAttributes f @ map ((!) ass) is\<rparr>)"
  using assms(2)
proof (induction "is" arbitrary: f)
  case (Cons i "is")
  let ?p = "js_object api (parameter_fields api ts ns ass (given (i < length mus \<and> mus ! i) ''mut'' (js_bool api True)) i)"
  have "parameter_from_json api ?p = Some (ns ! i, stored_type (ts ! i), ass ! i)"
    using Cons.prems by (intro parameter_read [OF assms(1)]) (auto simp: given_def)
  moreover have "js_value api (js_get_bool api) ''mut'' False ?p = Some (mus ! i)"
    using assms(1) Cons.prems by (simp add: parameter_fields_def js_simps)
  ultimately show ?case
    using Cons by (simp add: fn_addParameter_def stored_parameter_type_def)
qed simp

lemma function_parameters:
  assumes "json_library api" "function_fits f"
  shows "add_function_parameters api (map (\<lambda>i. js_object api (parameter_fields api (fi_paramTypes f) (fi_paramNames f)
      (fi_paramAttributes f) (given (i < length (fi_paramMutable f) \<and> fi_paramMutable f ! i) ''mut'' (js_bool api True)) i))
        [0..<length (fi_paramTypes f)]) (new_function_info r)
    = Some ((new_function_info r)\<lparr>fi_paramNames := fi_paramNames f,
        fi_paramTypes := map stored_parameter_type (fi_paramTypes f), fi_paramMutable := fi_paramMutable f,
        fi_paramAttributes := fi_paramAttributes f\<rparr>)"
proof -
  have "\<forall>i \<in> set [0..<length (fi_paramTypes f)]. i < length (fi_paramAttributes f) \<and> i < length (fi_paramMutable f)
      \<and> type_fits (fi_paramTypes f ! i)"
    using assms(2) by (auto simp: function_fits_def fits_nth)
  from function_parameters_read [OF assms(1) this] show ?thesis
    using assms(2) by (simp add: function_fits_def map_nth_same map_nth_through new_function_info_def)
qed

definition stored_function_symbol :: "string \<Rightarrow> function_info \<Rightarrow> symbol" where
  "stored_function_symbol n f =
     new_symbol SK_Function n (stored_parameter_type (fi_returnType f)) no_location False
       (Function_Detail (stored_function f))"

lemma function_rebuilt:
  "(new_function_info (stored_parameter_type (fi_returnType f)))\<lparr>fi_paramNames := fi_paramNames f,
      fi_paramTypes := map stored_parameter_type (fi_paramTypes f), fi_paramMutable := fi_paramMutable f,
      fi_paramAttributes := fi_paramAttributes f, fi_isVariadic := fi_isVariadic f, fi_isAsync := fi_isAsync f,
      fi_constEval := fi_constEval f, fi_constExpr := fi_constExpr f\<rparr> = stored_function f"
  by (cases f) (simp add: new_function_info_def stored_function_def)

lemma function_read:
  assumes "json_library api" "function_fits f"
  shows "deserializeFunction api (serializeFunction api n f) = Some (stored_function_symbol n f)"
proof -
  have "type_fits (fi_returnType f)" using assms(2) by (simp add: function_fits_def)
  then show ?thesis
    using assms
    by (simp add: deserializeFunction_def serializeFunction_def function_fields_def js_simps type_read
        function_parameters function_rebuilt stored_function_symbol_def flip: stored_parameter_type_def)
qed

definition stored_extern_symbol :: "string \<Rightarrow> function_info \<Rightarrow> string \<Rightarrow> symbol" where
  "stored_extern_symbol n f abi =
     new_symbol SK_ExternFunction n (stored_parameter_type (fi_returnType f)) no_location False
       (Extern_Detail ((stored_function f)\<lparr>fi_isAsync := False, fi_constEval := False, fi_constExpr := False\<rparr>) abi)"

lemma extern_rebuilt:
  "(new_function_info (stored_parameter_type (fi_returnType f)))\<lparr>fi_paramNames := fi_paramNames f,
      fi_paramTypes := map stored_parameter_type (fi_paramTypes f), fi_paramMutable := fi_paramMutable f,
      fi_paramAttributes := fi_paramAttributes f, fi_isVariadic := fi_isVariadic f\<rparr>
   = (stored_function f)\<lparr>fi_isAsync := False, fi_constEval := False, fi_constExpr := False\<rparr>"
  by (cases f) (simp add: new_function_info_def stored_function_def)

lemma extern_read:
  assumes "json_library api" "function_fits f"
  shows "deserializeExternFunction api (serializeExternFunction api n f abi) = Some (stored_extern_symbol n f abi)"
proof -
  have "type_fits (fi_returnType f)" using assms(2) by (simp add: function_fits_def)
  then show ?thesis
    using assms
    by (simp add: deserializeExternFunction_def serializeExternFunction_def function_fields_def js_simps type_read
        function_parameters extern_rebuilt stored_extern_symbol_def flip: stored_parameter_type_def)
qed

section \<open>Structs, enums and interfaces\<close>

definition stored_struct :: "struct_info \<Rightarrow> struct_info" where
  "stored_struct s =
     new_struct\<lparr>st_fields := map stored_field (st_fields s), st_genericParams := st_genericParams s,
       st_implements := st_implements s, st_attributes := st_attributes s,
       st_baseType := map_option stored_type (st_baseType s), st_methods := map stored_method (st_methods s),
       st_properties := map stored_property (st_properties s)\<rparr>"

definition struct_fits :: "struct_info \<Rightarrow> bool" where
  "struct_fits s \<longleftrightarrow>
     list_all (\<lambda>f. type_fits (fs_type f)) (st_fields s) \<and> list_all method_fits (st_methods s)
     \<and> list_all (\<lambda>p. type_fits (ps_type p)) (st_properties s) \<and> pred_option type_fits (st_baseType s)"

definition stored_struct_symbol :: "string \<Rightarrow> struct_info \<Rightarrow> symbol" where
  "stored_struct_symbol n s = new_symbol SK_Struct n voided no_location False (Struct_Detail (stored_struct s))"

lemma methods_read:
  "json_library api \<Longrightarrow> list_all method_fits ms \<Longrightarrow>
     map_option_list (deserializeMethod api) (map (serializeMethod api) ms) = Some (map stored_method ms)"
  by (rule map_option_list_map) (auto simp: list_all_iff method_read)

lemma fields_read:
  "json_library api \<Longrightarrow> list_all (\<lambda>f. type_fits (fs_type f)) fs \<Longrightarrow>
     map_option_list (field_from_json api) (map (field_to_json api) fs) = Some (map stored_field fs)"
  by (rule map_option_list_map) (auto simp: list_all_iff field_read)

lemma properties_read:
  "json_library api \<Longrightarrow> list_all (\<lambda>p. type_fits (ps_type p)) ps \<Longrightarrow>
     map_option_list (property_from_json api) (map (property_to_json api) ps) = Some (map stored_property ps)"
  by (rule map_option_list_map) (auto simp: list_all_iff property_read)

lemma struct_read:
  assumes "json_library api" "struct_fits s"
  shows "deserializeStruct api (serializeStruct api n s) = Some (stored_struct_symbol n s)"
  using assms
  by (cases "st_baseType s") (simp_all add: deserializeStruct_def serializeStruct_def js_members_def js_simps
      generics_to_json_def attributes_to_json_def js_strings_def type_read lists_read methods_read fields_read
      properties_read struct_fits_def stored_struct_symbol_def stored_struct_def)

definition stored_enum :: "enum_info \<Rightarrow> enum_info" where
  "stored_enum e =
     new_enum\<lparr>en_variants := map stored_variant (en_variants e), en_genericParams := en_genericParams e\<rparr>"

definition stored_enum_symbol :: "string \<Rightarrow> enum_info \<Rightarrow> symbol" where
  "stored_enum_symbol n e = new_symbol SK_Enum n voided no_location False (Enum_Detail (stored_enum e))"

lemma variants_read:
  "json_library api \<Longrightarrow> list_all variant_fits vs \<Longrightarrow>
     map_option_list (variant_from_json api) (map (variant_to_json api) vs) = Some (map stored_variant vs)"
  by (rule map_option_list_map) (auto simp: list_all_iff variant_read)

lemma enum_read:
  assumes "json_library api" "list_all variant_fits (en_variants e)"
  shows "deserializeEnum api (serializeEnum api n e) = Some (stored_enum_symbol n e)"
  using assms
  by (simp add: deserializeEnum_def serializeEnum_def js_simps generics_to_json_def lists_read variants_read
      stored_enum_symbol_def stored_enum_def)

definition stored_interface :: "interface_info \<Rightarrow> interface_info" where
  "stored_interface i = i\<lparr>if_methods := map stored_method (if_methods i)\<rparr>"

definition stored_interface_symbol :: "string \<Rightarrow> interface_info \<Rightarrow> symbol" where
  "stored_interface_symbol n i =
     new_symbol SK_Interface n voided no_location False (Interface_Detail (stored_interface i))"

lemma interface_read:
  assumes "json_library api" "list_all method_fits (if_methods i)"
  shows "deserializeInterface api (serializeInterface api n i) = Some (stored_interface_symbol n i)"
  using assms
  by (cases i) (simp add: deserializeInterface_def serializeInterface_def js_members_def js_simps generics_to_json_def
      lists_read methods_read stored_interface_symbol_def stored_interface_def)

end
