(* ===== verification/Library_Correct.thy ===== *)
theory Library_Correct
  imports Lib_Reader Lib_Format_Correct Symbol_Table_Correct
begin

text \<open>
  A library read back. The file: what is written is what is read, and no shorter file is accepted. The
  symbols: after a library has been added to a symbol table, a name means what it meant before, or
  else the first symbol of the library with that name. The macros: reading any of them ends the
  compiler.
\<close>

section \<open>The file\<close>

lemma length_le_bytes [simp]: "length (le_bytes k n) = k"
  by (induction k arbitrary: n) simp_all

lemma le_value_bytes: "n < 256 ^ k \<Longrightarrow> le_value (le_bytes k n) = n"
proof (induction k arbitrary: n)
  case (Suc k)
  then have "n div 256 < 256 ^ k" by (simp add: less_mult_imp_div_less mult.commute)
  then show ?case using Suc.IH by (simp add: of_char_of)
qed simp

lemma length_header [simp]: "length (lh_magic h) = 4 \<Longrightarrow> length (header_bytes h) = 16"
  by (simp add: header_bytes_def)

definition header_fits :: "library_header \<Rightarrow> bool" where
  "header_fits h \<longleftrightarrow> length (lh_magic h) = 4 \<and> lh_version h < 65536 \<and> lh_flags h < 65536
     \<and> lh_metadataSize h < 4294967296 \<and> lh_bitcodeSize h < 4294967296"

lemma read_header_bytes: "header_fits h \<Longrightarrow> read_header (header_bytes h @ cs) = h"
  using le_value_bytes [of _ 2] le_value_bytes [of _ 4]
  by (cases h) (simp add: read_header_def header_bytes_def header_fits_def)

text \<open>The header says how long the file must be; nothing shorter gets past the checks.\<close>

lemma short_file_rejected:
  assumes "k < 16 \<or> k < 16 + lh_metadataSize (read_header bytes) + lh_bitcodeSize (read_header bytes)"
    "k \<le> length bytes"
  shows "read_library api (Some (take k bytes)) r = (False, r)"
proof (cases "k < 16")
  case False
  then have "read_header (take k bytes) = read_header bytes"
    by (simp add: read_header_def take_drop min_def)
  then show ?thesis using assms False by (simp add: read_library_def Let_def)
qed (use assms in \<open>simp add: read_library_def\<close>)

text \<open>C14: A library file is read as it was written: the metadata that was serialised and the bitcode, byte
  for byte, whatever follows in the file; and a file cut short anywhere is rejected and leaves
  the reader as it was.\<close>

theorem library_file_roundtrip:
  assumes "library_file api bitcode w = Some file"
    and "js_dump api (serializeMetadata api w) = Some text" "js_parse api text = Some (serializeMetadata api w)"
    and "length text < 4294967296" "length bitcode < 4294967296"
  shows "read_library api (Some (file @ trailing)) r =
      (True, \<lparr>lr_metadata = serializeMetadata api w, lr_bitcode = bitcode, lr_valid = True\<rparr>)
    \<and> (\<forall>k<length file. read_library api (Some (take k file)) r = (False, r))"
proof -
  let ?h = "\<lparr>lh_magic = MAGIC, lh_version = VERSION, lh_flags = 0,
    lh_metadataSize = length text, lh_bitcodeSize = length bitcode\<rparr>"
  have bytes: "file = header_bytes ?h @ text @ bitcode"
    using assms by (simp add: library_file_def)
  have fits: "header_fits ?h"
    using assms(4,5) by (simp add: header_fits_def MAGIC_def VERSION_def)
  have len: "length (header_bytes ?h) = 16" by (simp add: MAGIC_def)
  note header = read_header_bytes [OF fits]
  have "read_library api (Some (file @ trailing)) r =
      (True, \<lparr>lr_metadata = serializeMetadata api w, lr_bitcode = bitcode, lr_valid = True\<rparr>)"
    using assms(3) len by (cases r) (simp add: read_library_def bytes header Let_def)
  moreover have "read_library api (Some (take k file)) r = (False, r)" if "k < length file" for k
    using that len header [of "text @ bitcode"] by (intro short_file_rejected) (simp_all add: bytes)
  ultimately show ?thesis by blast
qed

theorem library_file_roundtrip_witness:
  "\<exists>file. library_file (plain_api (\<lambda>j. Some ''{}'') (\<lambda>s. Some (serializeMetadata (plain_api (\<lambda>j. None) (\<lambda>s. None))
         new_library_writer))) ''BC'' new_library_writer = Some file
     \<and> fst (read_library (plain_api (\<lambda>j. Some ''{}'') (\<lambda>s. Some (serializeMetadata (plain_api (\<lambda>j. None) (\<lambda>s. None))
         new_library_writer))) (Some file) (new_library_reader (plain_api (\<lambda>j. None) (\<lambda>s. None))))"
proof -
  let ?md = "serializeMetadata (plain_api (\<lambda>j. None) (\<lambda>s. None)) new_library_writer"
  let ?api = "plain_api (\<lambda>j. Some ''{}'') (\<lambda>s. Some ?md)"
  have same: "serializeMetadata ?api new_library_writer = ?md"
    by (simp add: serializeMetadata_def js_object_def given_def new_library_writer_def plain_api_def)
  obtain bytes where written: "library_file ?api ''BC'' new_library_writer = Some bytes"
    by (simp add: library_file_def plain_api_def)
  have "js_dump ?api (serializeMetadata ?api new_library_writer) = Some ''{}''"
    and "js_parse ?api ''{}'' = Some (serializeMetadata ?api new_library_writer)"
    by (simp_all add: same) (simp_all add: plain_api_def)
  from library_file_roundtrip [OF written this, where trailing = "[]"] written show ?thesis by simp
qed

section \<open>Adding symbols\<close>

text \<open>What a name means in the current scope: the object it is bound to.\<close>

definition local_symbol :: "string \<Rightarrow> symtab \<Rightarrow> symbol option" where
  "local_symbol k st = map_option (\<lambda>a. store st ! a) (lookupLocal k st)"

lemma local_address: "table_ok st \<Longrightarrow> lookupLocal k st = Some a \<Longrightarrow> a < length (store st)"
  by (auto simp: lookupLocal_def table_ok_def dest: scope_address split: list.splits)

lemma local_new_object: "table_ok st \<Longrightarrow> local_symbol k (snd (make_shared s st)) = local_symbol k st"
proof -
  assume ok: "table_ok st"
  have "lookupLocal k (snd (make_shared s st)) = lookupLocal k st"
    by (simp add: lookupLocal_def make_shared_def)
  moreover have "a < length (store st)" if "lookupLocal k st = Some a" for a
    using local_address [OF ok that] .
  ultimately show ?thesis
    by (cases "lookupLocal k st") (simp_all add: local_symbol_def make_shared_def nth_append)
qed

lemma local_define_key:
  "table_ok st \<Longrightarrow> local_symbol k (snd (define_key j a st)) =
     or_else (local_symbol k st) (if k = j then Some (store st ! a) else None)"
  by (cases "scopes st") (auto simp: local_symbol_def define_key_def lookupLocal_def table_ok_def lookup_insert
      or_else_def split: option.split)

lemma or_else_assoc: "or_else (or_else r s) t = or_else r (or_else s t)"
  by (simp add: or_else_def split: option.split)

lemma map_of_append_or: "map_of (xs @ ys) k = or_else (map_of xs k) (map_of ys k)"
  by (induction xs) auto

text \<open>
  The interface of every loop that adds: a definition never replaces one the scope has, so the names of
  what is added mean their first definition.
\<close>

locale first_wins =
  fixes ok :: "'s \<Rightarrow> bool" and view :: "string \<Rightarrow> 's \<Rightarrow> 'v option" and add :: "'x \<Rightarrow> 's \<Rightarrow> 's"
    and entries :: "'x \<Rightarrow> (string \<times> 'v) list"
  assumes ok_add: "ok s \<Longrightarrow> ok (add x s)"
    and view_add: "ok s \<Longrightarrow> view k (add x s) = or_else (view k s) (map_of (entries x) k)"
begin

lemma ok_adds: "ok s \<Longrightarrow> ok (fold add xs s)"
  by (induction xs arbitrary: s) (simp_all add: ok_add)

lemma view_adds: "ok s \<Longrightarrow> view k (fold add xs s) = or_else (view k s) (map_of (concat (map entries xs)) k)"
  by (induction xs arbitrary: s) (simp_all add: ok_add view_add or_else_assoc map_of_append_or del: map_of_append)

end

definition from_library :: "symbol \<Rightarrow> symbol" where
  "from_library s = s\<lparr>isFromLibrary := True\<rparr>"

definition symbol_entries :: "symbol \<Rightarrow> (string \<times> symbol) list" where
  "symbol_entries s =
     (sy_name s, from_library s)
     # (case short_name (sy_name s) of None \<Rightarrow> [] | Some n \<Rightarrow> [(n, from_library s)])"

definition interface_entries :: "symbol \<Rightarrow> (string \<times> symbol) list" where
  "interface_entries s =
     (interface_key (sy_name s), from_library s)
     # (case short_name (sy_name s) of
          None \<Rightarrow> []
        | Some n \<Rightarrow> [(interface_key n, new_symbol SK_Interface n voided no_location False (sy_detail s))])"

definition extern_entries :: "symbol \<Rightarrow> (string \<times> symbol) list" where
  "extern_entries s = [(sy_name s, from_library s)]"

text \<open>A new object bound to a key.\<close>

definition put_object :: "string \<Rightarrow> symbol \<Rightarrow> symtab \<Rightarrow> symtab" where
  "put_object k s st = snd (define_key k (length (store st)) (snd (make_shared s st)))"

lemma put_object_ok: "table_ok st \<Longrightarrow> table_ok (put_object k s st)"
  using table_ok_make_shared [of st s] by (simp add: put_object_def table_ok_define_key make_shared_def)

lemma store_put_object [simp]: "store (put_object k s st) = store st @ [s]"
  by (simp add: put_object_def define_key_def make_shared_def split: list.split)

lemma local_put_object:
  "table_ok st \<Longrightarrow> local_symbol k (put_object j s st) = or_else (local_symbol k st) (if k = j then Some s else None)"
  using table_ok_make_shared [of st s] local_new_object [of st k s]
  by (simp add: put_object_def local_define_key) (simp add: make_shared_def)

lemma define_defined: "isDefinedLocally n st \<Longrightarrow> snd (define_key n a st) = st"
  by (auto simp: isDefinedLocally_def lookupLocal_def define_key_def split: list.splits)

lemma add_library_symbol_puts:
  "add_library_symbol s st =
     (let st' = put_object (sy_name s) (from_library s) st
      in case short_name (sy_name s) of None \<Rightarrow> st' | Some n \<Rightarrow> snd (define_key n (length (store st)) st'))"
  by (simp add: add_library_symbol_def put_object_def make_shared_def define_symbol_def defineAlias_def define_defined
      from_library_def Let_def split: option.split)

lemma add_library_extern_puts: "add_library_extern s st = put_object (sy_name s) (from_library s) st"
  by (simp add: add_library_extern_def put_object_def make_shared_def define_symbol_def from_library_def Let_def)

lemma add_library_interface_puts:
  "add_library_interface s st =
     (let st' = put_object (interface_key (sy_name s)) (from_library s) st
      in case short_name (sy_name s) of
           None \<Rightarrow> st'
         | Some n \<Rightarrow> put_object (interface_key n) (new_symbol SK_Interface n voided no_location False (sy_detail s)) st')"
  by (simp add: add_library_interface_def put_object_def make_shared_def defineInterface_def defineInterfaceAlias_def
      from_library_def Let_def split: option.split)

lemmas puts = Let_def put_object_ok local_put_object local_define_key table_ok_define_key or_else_assoc

interpretation library_symbols: first_wins table_ok local_symbol add_library_symbol symbol_entries
  by unfold_locales
    (auto simp: add_library_symbol_puts symbol_entries_def puts split: option.split)

interpretation library_externs: first_wins table_ok local_symbol add_library_extern extern_entries
  by unfold_locales (simp_all add: add_library_extern_puts extern_entries_def puts)

interpretation library_interfaces: first_wins table_ok local_symbol add_library_interface interface_entries
  by unfold_locales (auto simp: add_library_interface_puts interface_entries_def puts split: option.split)

section \<open>A library in a symbol table\<close>

text \<open>What the library keeps of each symbol its writer collects.\<close>

definition stored_symbol :: "symbol \<Rightarrow> symbol option" where
  "stored_symbol s =
     (case sy_detail s of
        Struct_Detail d \<Rightarrow> Some (stored_struct_symbol (sy_name s) d)
      | Enum_Detail e \<Rightarrow> Some (stored_enum_symbol (sy_name s) e)
      | Function_Detail f \<Rightarrow> Some (stored_function_symbol (sy_name s) f)
      | Extern_Detail f abi \<Rightarrow> Some (stored_extern_symbol (sy_name s) f abi)
      | Interface_Detail i \<Rightarrow> Some (stored_interface_symbol (sy_name s) i)
      | _ \<Rightarrow> None)"

text \<open>
  A symbol whose object is of the class its kind says, as every constructor makes it, with parameter
  vectors of one length and numbers that fit.
\<close>

definition symbol_fits :: "symbol \<Rightarrow> bool" where
  "symbol_fits s \<longleftrightarrow>
     (case sy_detail s of
        Struct_Detail d \<Rightarrow> sy_kind s = SK_Struct \<and> struct_fits d
      | Enum_Detail e \<Rightarrow> sy_kind s = SK_Enum \<and> list_all variant_fits (en_variants e)
      | Function_Detail f \<Rightarrow> sy_kind s = SK_Function \<and> function_fits f
      | Extern_Detail f abi \<Rightarrow> sy_kind s = SK_ExternFunction \<and> function_fits f
      | Interface_Detail i \<Rightarrow> sy_kind s = SK_Interface \<and> list_all method_fits (if_methods i)
      | _ \<Rightarrow> sy_kind s \<notin> {SK_Struct, SK_Enum, SK_Function, SK_ExternFunction, SK_Interface})"

definition stored_symbols :: "symtab \<Rightarrow> nat list \<Rightarrow> symbol list" where
  "stored_symbols st as = List.map_filter (\<lambda>a. stored_symbol (store st ! a)) as"

text \<open>One loop of the reader over what one loop of the writer collected.\<close>

lemma add_each_collected:
  assumes "\<forall>a \<in> set as. \<exists>j. f (store src ! a) = Some j \<and> get j = stored_symbol (store src ! a)
      \<and> stored_symbol (store src ! a) \<noteq> None"
  shows "add_each get skip add (collect_from f src as) st
    = Some (fold add (filter (\<lambda>s. \<not> skip s) (stored_symbols src as)) st)"
  using assms
proof (induction as arbitrary: st)
  case (Cons a as)
  then show ?case by (auto simp: map_filter_simps collect_from_def stored_symbols_def)
qed (simp add: map_filter_simps collect_from_def stored_symbols_def)

lemma symbol_read:
  assumes "json_library api" "symbol_fits s"
  shows "sy_kind s = SK_Struct \<Longrightarrow> \<exists>j. struct_json api s = Some j \<and> deserializeStruct api j = stored_symbol s \<and> stored_symbol s \<noteq> None"
    "sy_kind s = SK_Enum \<Longrightarrow> \<exists>j. enum_json api s = Some j \<and> deserializeEnum api j = stored_symbol s \<and> stored_symbol s \<noteq> None"
    "sy_kind s = SK_Function \<Longrightarrow>
      \<exists>j. function_json api s = Some j \<and> deserializeFunction api j = stored_symbol s \<and> stored_symbol s \<noteq> None"
    "sy_kind s = SK_ExternFunction \<Longrightarrow>
      \<exists>j. extern_json api s = Some j \<and> deserializeExternFunction api j = stored_symbol s \<and> stored_symbol s \<noteq> None"
    "sy_kind s = SK_Interface \<Longrightarrow>
      \<exists>j. interface_json api s = Some j \<and> deserializeInterface api j = stored_symbol s \<and> stored_symbol s \<noteq> None"
  using assms
  by (cases "sy_detail s"; simp add: symbol_fits_def struct_json_def enum_json_def function_json_def extern_json_def
      interface_json_def stored_symbol_def struct_read enum_read function_read extern_read interface_read)+

text \<open>The keys and symbols a library brings, in the order the reader adds them.\<close>

definition kept :: "bool \<Rightarrow> symbol list \<Rightarrow> symbol list" where
  "kept sources ss = filter (\<lambda>s. \<not> (sources \<and> symbol_isGeneric s)) ss"

definition library_entries :: "bool \<Rightarrow> symtab \<Rightarrow> (string \<times> symbol) list option" where
  "library_entries sources src =
     do {
       ss \<leftarrow> get_all_structs src;
       fs \<leftarrow> get_all_functions src;
       xs \<leftarrow> get_all_extern_functions src;
       es \<leftarrow> get_all_enums src;
       is \<leftarrow> get_all_interfaces src;
       Some (concat (map interface_entries (stored_symbols src is))
         @ concat (map symbol_entries (kept sources (stored_symbols src ss)))
         @ concat (map symbol_entries (kept sources (stored_symbols src es)))
         @ concat (map symbol_entries (stored_symbols src fs))
         @ concat (map extern_entries (stored_symbols src xs)))
     }"

lemma selected:
  assumes "table_ok src"
  shows "\<exists>as. select_symbols P src = Some as \<and> (\<forall>a \<in> set as. a < length (store src) \<and> P (store src ! a))"
proof (cases "scopes src")
  case (Cons s ss)
  have "orderedSymbols src = Some (map (the \<circ> sc_symbols s) (sc_order s))"
    using ordered_ok [OF assms Cons] .
  moreover have "the (sc_symbols s k) < length (store src)" if "k \<in> set (sc_order s)" for k
  proof -
    have "scope_ok (length (store src)) s" using assms by (simp add: table_ok_def Cons)
    then show ?thesis using that scope_address by (fastforce simp: scope_ok_def)
  qed
  ultimately show ?thesis by (auto simp: select_symbols_def)
qed (use assms in \<open>simp add: table_ok_def\<close>)

lemma first_occurrences_subset: "set (first_occurrences seen as) \<subseteq> set as"
  by (induction as arbitrary: seen) auto

text \<open>What the five collecting loops give on a well-formed table.\<close>

lemma collected:
  assumes "table_ok src" "\<forall>s \<in> set (store src). symbol_fits s"
  shows "\<exists>ss fs xs es is.
    get_all_structs src = Some ss \<and> get_all_functions src = Some fs \<and> get_all_extern_functions src = Some xs
    \<and> get_all_enums src = Some es \<and> get_all_interfaces src = Some is
    \<and> (\<forall>a \<in> set ss. symbol_fits (store src ! a) \<and> sy_kind (store src ! a) = SK_Struct)
    \<and> (\<forall>a \<in> set fs. symbol_fits (store src ! a) \<and> sy_kind (store src ! a) = SK_Function)
    \<and> (\<forall>a \<in> set xs. symbol_fits (store src ! a) \<and> sy_kind (store src ! a) = SK_ExternFunction)
    \<and> (\<forall>a \<in> set es. symbol_fits (store src ! a) \<and> sy_kind (store src ! a) = SK_Enum)
    \<and> (\<forall>a \<in> set is. symbol_fits (store src ! a) \<and> sy_kind (store src ! a) = SK_Interface)"
proof -
  have fits: "a < length (store src) \<Longrightarrow> symbol_fits (store src ! a)" for a using assms(2) by simp
  note sel = selected [OF assms(1)]
  obtain ss where ss: "select_symbols (\<lambda>s. isStruct s \<and> \<not> is_error_struct s) src = Some ss"
    "\<forall>a \<in> set ss. a < length (store src) \<and> isStruct (store src ! a) \<and> \<not> is_error_struct (store src ! a)"
    using sel [of "\<lambda>s. isStruct s \<and> \<not> is_error_struct s"] by auto
  obtain fs where fs: "select_symbols (\<lambda>s. sy_kind s = SK_Function) src = Some fs"
    "\<forall>a \<in> set fs. a < length (store src) \<and> sy_kind (store src ! a) = SK_Function"
    using sel [of "\<lambda>s. sy_kind s = SK_Function"] by auto
  obtain xs where xs: "select_symbols (\<lambda>s. sy_kind s = SK_ExternFunction) src = Some xs"
    "\<forall>a \<in> set xs. a < length (store src) \<and> sy_kind (store src ! a) = SK_ExternFunction"
    using sel [of "\<lambda>s. sy_kind s = SK_ExternFunction"] by auto
  obtain es where es: "select_symbols isEnum src = Some es"
    "\<forall>a \<in> set es. a < length (store src) \<and> isEnum (store src ! a)" using sel [of isEnum] by auto
  obtain "is" where "is": "select_symbols isInterface src = Some is"
    "\<forall>a \<in> set is. a < length (store src) \<and> isInterface (store src ! a)" using sel [of isInterface] by auto
  show ?thesis
    unfolding get_all_structs_def get_all_functions_def get_all_extern_functions_def get_all_enums_def
      get_all_interfaces_def ss(1) fs(1) xs(1) es(1) "is"(1)
    using ss(2) fs(2) xs(2) es(2) "is"(2) fits first_occurrences_subset [of "[]" ss] first_occurrences_subset [of "[]" xs]
    by (auto simp: isStruct_def isEnum_def isInterface_def)
qed

lemma metadata_member:
  assumes "json_library api"
  shows "metadata_items api ''interfaces'' (serializeMetadata api w) = lw_interfaces w"
    "metadata_items api ''structs'' (serializeMetadata api w) = lw_structs w"
    "metadata_items api ''enums'' (serializeMetadata api w) = lw_enums w"
    "metadata_items api ''functions'' (serializeMetadata api w) = lw_functions w"
    "metadata_items api ''externFunctions'' (serializeMetadata api w) = lw_externFunctions w"
    "metadata_items api ''macros'' (serializeMetadata api w) = lw_macros w"
    "metadata_items api ''attributeDecls'' (serializeMetadata api w) = lw_attributeDecls w"
    "metadata_items api ''constExprs'' (serializeMetadata api w) = lw_constExprs w"
    "metadata_items api ''staticVars'' (serializeMetadata api w) = lw_staticVars w"
    "has_generic_sources api (serializeMetadata api w) \<longleftrightarrow> lw_genericSources w \<noteq> []"
  using assms by (simp_all add: metadata_items_def has_generic_sources_def serializeMetadata_def js_simps)

definition exported_kind :: "symbol_kind \<Rightarrow> symtab \<Rightarrow> nat list \<Rightarrow> bool" where
  "exported_kind k src as \<longleftrightarrow> list_all (\<lambda>a. symbol_fits (store src ! a) \<and> sy_kind (store src ! a) = k) as"

definition inject_symbols :: "bool \<Rightarrow> symtab \<Rightarrow> nat list \<Rightarrow> nat list \<Rightarrow> nat list \<Rightarrow> nat list \<Rightarrow> nat list \<Rightarrow> symtab \<Rightarrow> symtab" where
  "inject_symbols sources src ss es fs xs is st =
     fold add_library_extern (stored_symbols src xs)
       (fold add_library_symbol (stored_symbols src fs)
         (fold add_library_symbol (kept sources (stored_symbols src es))
           (fold add_library_symbol (kept sources (stored_symbols src ss))
             (fold add_library_interface (stored_symbols src is) st))))"

lemma populate_collected:
  assumes "json_library api" "lr_valid r" "lr_metadata r = serializeMetadata api w"
    and "lw_structs w = collect_from (struct_json api) src ss" "lw_functions w = collect_from (function_json api) src fs"
    "lw_externFunctions w = collect_from (extern_json api) src xs" "lw_enums w = collect_from (enum_json api) src es"
    "lw_interfaces w = collect_from (interface_json api) src is"
    and "exported_kind SK_Struct src ss" "exported_kind SK_Function src fs" "exported_kind SK_ExternFunction src xs"
    "exported_kind SK_Enum src es" "exported_kind SK_Interface src is"
  shows "populateSymbolTable api r st = Some (inject_symbols (lw_genericSources w \<noteq> []) src ss es fs xs is st)"
proof -
  note read = symbol_read [OF assms(1)]
  note each = add_each_collected [where f = "struct_json api" and get = "deserializeStruct api" and as = ss and src = src]
    add_each_collected [where f = "enum_json api" and get = "deserializeEnum api" and as = es and src = src]
    add_each_collected [where f = "function_json api" and get = "deserializeFunction api" and as = fs and src = src]
    add_each_collected [where f = "extern_json api" and get = "deserializeExternFunction api" and as = xs and src = src]
    add_each_collected [where f = "interface_json api" and get = "deserializeInterface api" and as = "is" and src = src]
  show ?thesis
    using each read assms(2-) metadata_member [OF assms(1)]
    by (simp add: populateSymbolTable_def Let_def kept_def inject_symbols_def exported_kind_def list_all_iff)
qed

lemma injected_view:
  assumes "table_ok st"
  shows "table_ok (inject_symbols sources src ss es fs xs is st)"
    "local_symbol k (inject_symbols sources src ss es fs xs is st) = or_else (local_symbol k st)
      (map_of (concat (map interface_entries (stored_symbols src is))
         @ concat (map symbol_entries (kept sources (stored_symbols src ss)))
         @ concat (map symbol_entries (kept sources (stored_symbols src es)))
         @ concat (map symbol_entries (stored_symbols src fs))
         @ concat (map extern_entries (stored_symbols src xs))) k)"
  using assms
  by (simp_all add: inject_symbols_def library_symbols.ok_adds library_interfaces.ok_adds library_externs.ok_adds
      library_symbols.view_adds library_interfaces.view_adds library_externs.view_adds
      or_else_assoc map_of_append_or del: map_of_append)

lemma collect_library_parts:
  assumes "collect_library api src ct sv ps srcs = Some w"
    and "get_all_structs src = Some ss" "get_all_functions src = Some fs" "get_all_extern_functions src = Some xs"
    "get_all_enums src = Some es" "get_all_interfaces src = Some is"
  shows "lw_structs w = collect_from (struct_json api) src ss" "lw_functions w = collect_from (function_json api) src fs"
    "lw_externFunctions w = collect_from (extern_json api) src xs" "lw_enums w = collect_from (enum_json api) src es"
    "lw_interfaces w = collect_from (interface_json api) src is" "lw_genericSources w = generic_sources api srcs {} ps"
    "lw_macros w = concat (map (\<lambda>p. map (macro_to_json api (program_prefix p)) (program_macros p)) ps)"
    "lw_attributeDecls w = concat (map (\<lambda>p. map (attribute_declaration_to_json api (program_prefix p)) (program_attributes p)) ps)"
    "\<exists>cs. entries_in_order ct = Some cs \<and> lw_constExprs w = map (\<lambda>(n, e). constant_to_json api n e) cs"
    "\<exists>vs. entries_in_order sv = Some vs \<and> lw_staticVars w = map (\<lambda>(n, e). static_to_json api n e) vs"
  using assms
  by (auto simp: collect_library_def collectSymbols_def new_library_writer_def collectMacros_def collectAttributeDecls_def
      collectImplBlocks_def collectConstExprs_def collectStaticVars_def collectGenericSources_def Let_def
      split: option.splits bind_splits)

lemma symbols_injected:
  assumes "json_library api" "table_ok src" "\<forall>s \<in> set (store src). symbol_fits s" "table_ok st"
    and "collect_library api src ct sv ps srcs = Some w"
    and "lr_valid r" "lr_metadata r = serializeMetadata api w"
  shows "\<exists>st' es. populateSymbolTable api r st = Some st' \<and> table_ok st'
    \<and> library_entries (generic_sources api srcs {} ps \<noteq> []) src = Some es
    \<and> (\<forall>k. local_symbol k st' = (case local_symbol k st of Some s \<Rightarrow> Some s | None \<Rightarrow> map_of es k))"
proof -
  obtain ss fs xs es "is" where got:
    "get_all_structs src = Some ss" "get_all_functions src = Some fs" "get_all_extern_functions src = Some xs"
    "get_all_enums src = Some es" "get_all_interfaces src = Some is"
    and fit: "exported_kind SK_Struct src ss" "exported_kind SK_Function src fs" "exported_kind SK_ExternFunction src xs"
    "exported_kind SK_Enum src es" "exported_kind SK_Interface src is"
    using collected [OF assms(2,3)] unfolding exported_kind_def list_all_iff by blast
  let ?g = "generic_sources api srcs {} ps \<noteq> []"
  note parts = collect_library_parts [OF assms(5) got]
  have "populateSymbolTable api r st = Some (inject_symbols ?g src ss es fs xs is st)"
    using populate_collected [OF assms(1,6,7) parts(1-5), of st] fit by (simp add: parts(6))
  moreover obtain e where e: "library_entries ?g src = Some e"
    by (simp add: library_entries_def got)
  then have entries: "e = concat (map interface_entries (stored_symbols src is))
      @ concat (map symbol_entries (kept ?g (stored_symbols src ss)))
      @ concat (map symbol_entries (kept ?g (stored_symbols src es)))
      @ concat (map symbol_entries (stored_symbols src fs)) @ concat (map extern_entries (stored_symbols src xs))"
    by (simp add: library_entries_def got)
  have "local_symbol k (inject_symbols ?g src ss es fs xs is st) =
      (case local_symbol k st of Some s \<Rightarrow> Some s | None \<Rightarrow> map_of e k)" for k
    unfolding entries injected_view(2) [OF assms(4)] or_else_def by (rule refl)
  ultimately show ?thesis
    using injected_view(1) [OF assms(4)] e by blast
qed

section \<open>Constants, static variables and attribute targets\<close>

definition library_variable :: "bool \<Rightarrow> bool \<Rightarrow> type_t \<Rightarrow> string \<Rightarrow> symbol" where
  "library_variable mut lib t n =
     (new_symbol SK_Variable n (copy_type t) no_location False Plain)\<lparr>sy_isMutable := mut, isFromLibrary := lib\<rparr>"

lemma define_library_variable_puts: "define_library_variable mut lib t n st = put_object n (library_variable mut lib t n) st"
  by (simp add: define_library_variable_def put_object_def library_variable_def make_shared_def define_symbol_def
      new_symbol_def)

text \<open>A name, whether it is mutable, whether it is marked as a library's, and the type.\<close>

type_synonym variable_item = "string \<times> bool \<times> bool \<times> type_t"

definition add_library_variable :: "variable_item \<Rightarrow> symtab \<Rightarrow> symtab" where
  "add_library_variable v st =
     (case v of (n, mut, lib, t) \<Rightarrow>
        (let st' = define_library_variable mut lib t n st
         in case short_name n of None \<Rightarrow> st' | Some s \<Rightarrow> define_library_variable mut lib t s st'))"

definition variable_entries :: "variable_item \<Rightarrow> (string \<times> symbol) list" where
  "variable_entries v =
     (case v of (n, mut, lib, t) \<Rightarrow>
        (n, library_variable mut lib t n)
        # (case short_name n of None \<Rightarrow> [] | Some s \<Rightarrow> [(s, library_variable mut lib t s)]))"

interpretation library_variables: first_wins table_ok local_symbol add_library_variable variable_entries
  by unfold_locales
    (auto simp: add_library_variable_def variable_entries_def define_library_variable_puts puts split: option.split prod.split)

definition constant_item :: "string \<times> constant_entry \<Rightarrow> variable_item" where
  "constant_item x = (fst x, False, False, stored_type (ct_type (snd x)))"

definition static_item :: "string \<times> static_entry \<Rightarrow> variable_item" where
  "static_item x = (fst x, se_isMutable (snd x), True, stored_type (se_type (snd x)))"

text \<open>The constants as the other compilation gets them: their types and no values, under the name and its
  short form.\<close>

definition constant_entries :: "string \<times> constant_entry \<Rightarrow> (string \<times> constant_entry) list" where
  "constant_entries x =
     (let e = \<lparr>ct_type = copy_type (stored_type (ct_type (snd x))), ct_hasValue = False\<rparr>
      in (fst x, e) # (case short_name (fst x) of None \<Rightarrow> [] | Some n \<Rightarrow> [(n, e)]))"

lemma constants_read:
  assumes "json_library api" "\<forall>x \<in> set cs. type_fits (ct_type (snd x))"
  shows "add_constants api (map (\<lambda>(n, e). constant_to_json api n e) cs) (st, ct)
    = Some (fold add_library_variable (map constant_item cs) st,
        fold (\<lambda>(n, e). add_entry n e) (concat (map constant_entries cs)) ct)"
  using assms(2)
proof (induction cs arbitrary: st ct)
  case (Cons x cs)
  then show ?case
    using assms(1)
    by (cases x; cases "short_name (fst x)") (simp_all add: constant_to_json_def js_simps type_read constant_item_def
        add_library_variable_def constant_entries_def Let_def)
qed simp

lemma entries_fold:
  "ot_entries (fold (\<lambda>(n, e). add_entry n e) xs ct) = ot_entries ct ++ map_of (rev xs)"
  by (induction xs arbitrary: ct) (auto simp: add_entry_def fun_eq_iff map_add_def split: option.splits)

lemma statics_read:
  assumes "json_library api" "\<forall>x \<in> set vs. type_fits (se_type (snd x))"
  shows "add_statics api (map (\<lambda>(n, e). static_to_json api n e) vs) st
    = Some (fold add_library_variable (map static_item vs) st)"
  using assms(2)
proof (induction vs arbitrary: st)
  case (Cons x vs)
  then show ?case
    using assms(1)
    by (cases x; cases "short_name (fst x)") (simp_all add: static_to_json_def js_simps type_read static_item_def
        add_library_variable_def Let_def)
qed simp

lemma target_arguments_read:
  assumes "json_library api"
  shows "\<exists>vs. target_arguments api (map (arg_to_json api \<circ> symbol_argument) as) = Some vs"
proof (induction as)
  case (Cons a as)
  have "Option.bind (js_at api ''type'' (arg_to_json api x)) (js_get_string api) = Some (attribute_type_name (aa_value x))"
    "aa_value x = AV_String v \<Longrightarrow> js_field api (js_get_string api) ''value'' (arg_to_json api x) = Some v" for x v
    using assms by (simp_all add: arg_to_json_def js_simps)
  then show ?case
    using Cons by (cases "aa_value (symbol_argument a)") auto
qed simp

lemma attributes_added:
  assumes "json_library api"
  shows "\<exists>targets'. add_attribute_targets api (map (\<lambda>(ns, a). attribute_declaration_to_json api ns a) as) targets = Some targets'"
proof (induction as arbitrary: targets)
  case (Cons x as)
  obtain ns a where x: "x = (ns, a)" by force
  obtain vs where "target_arguments api (map (arg_to_json api \<circ> symbol_argument) (ad_targets a)) = Some vs"
    using target_arguments_read [OF assms] by blast
  then show ?case
    using Cons assms
    by (simp add: x attribute_declaration_to_json_def js_simps metadata_items_def Let_def)
qed simp

lemma declared_attributes:
  "concat (map (\<lambda>p. map (attribute_declaration_to_json api (program_prefix p)) (program_attributes p)) ps)
   = map (\<lambda>(ns, a). attribute_declaration_to_json api ns a)
       (concat (map (\<lambda>p. map (Pair (program_prefix p)) (program_attributes p)) ps))"
  by (induction ps) simp_all

definition variables_fit :: "constant_entry ordered_table \<Rightarrow> static_entry ordered_table \<Rightarrow> bool" where
  "variables_fit ct sv \<longleftrightarrow>
     (\<forall>x \<in> set (case entries_in_order ct of Some cs \<Rightarrow> cs | None \<Rightarrow> []). type_fits (ct_type (snd x)))
     \<and> (\<forall>x \<in> set (case entries_in_order sv of Some vs \<Rightarrow> vs | None \<Rightarrow> []). type_fits (se_type (snd x)))"

text \<open>All a library defines: its symbols, then its constants, then its static variables.\<close>

definition all_entries ::
  "bool \<Rightarrow> symtab \<Rightarrow> constant_entry ordered_table \<Rightarrow> static_entry ordered_table \<Rightarrow> (string \<times> symbol) list option" where
  "all_entries sources src ct sv =
     do {
       es \<leftarrow> library_entries sources src;
       cs \<leftarrow> entries_in_order ct;
       vs \<leftarrow> entries_in_order sv;
       Some (es @ concat (map variable_entries (map constant_item cs @ map static_item vs)))
     }"

text \<open>C9: A library that a compilation writes is brought into another one's tables without an error, and
  the scope it is brought into holds, under every name, what it held before; and where it held nothing
  and the library has an entry of that name, the first such entry as the format keeps it. The entries are
  the interfaces, structs, enums, functions, extern functions, constants and static variables
  of the writing compilation in this order; each but an extern function also under its short form if its name
  is qualified; generic structs and enums are left out when sources come along. The table stays
  well-formed. In the table of constants, the library's constants, with types and without values,
  replace what stood under their names and short forms, and the others stay. (The table of attribute targets
  changes too; what it becomes is not stated here.)\<close>

theorem library_injected:
  assumes "json_library api" "table_ok src" "\<forall>s \<in> set (store src). symbol_fits s" "variables_fit ct sv"
    and "collect_library api src ct sv ps srcs = Some w"
    and "lr_valid r" "lr_metadata r = serializeMetadata api w"
    and "table_ok (bt_table b)"
  shows "\<exists>b' es cs. injectLibrarySymbols api r b = Some b' \<and> table_ok (bt_table b')
    \<and> all_entries (generic_sources api srcs {} ps \<noteq> []) src ct sv = Some es
    \<and> (\<forall>k. local_symbol k (bt_table b') =
          (case local_symbol k (bt_table b) of Some s \<Rightarrow> Some s | None \<Rightarrow> map_of es k))
    \<and> entries_in_order ct = Some cs
    \<and> ot_entries (bt_constants b')
        = ot_entries (bt_constants b) ++ map_of (rev (concat (map constant_entries cs)))"
proof -
  let ?g = "generic_sources api srcs {} ps \<noteq> []"
  obtain st1 es where st1: "populateSymbolTable api r (bt_table b) = Some st1" "table_ok st1"
    and es: "library_entries ?g src = Some es"
    and view1: "\<forall>k. local_symbol k st1 = or_else (local_symbol k (bt_table b)) (map_of es k)"
    using symbols_injected [OF assms(1-3,8,5-7)] unfolding or_else_def by blast
  obtain ss fs xs ens "is" where got:
    "get_all_structs src = Some ss" "get_all_functions src = Some fs" "get_all_extern_functions src = Some xs"
    "get_all_enums src = Some ens" "get_all_interfaces src = Some is"
    using collected [OF assms(2,3)] by blast
  note parts = collect_library_parts [OF assms(5) got]
  obtain cs vs where cs: "entries_in_order ct = Some cs" "lw_constExprs w = map (\<lambda>(n, e). constant_to_json api n e) cs"
    and vs: "entries_in_order sv = Some vs" "lw_staticVars w = map (\<lambda>(n, e). static_to_json api n e) vs"
    using parts(9,10) by blast
  let ?st2 = "fold add_library_variable (map constant_item cs) st1"
  let ?st3 = "fold add_library_variable (map static_item vs) ?st2"
  let ?ct = "fold (\<lambda>(n, e). add_entry n e) (concat (map constant_entries cs)) (bt_constants b)"
  note members = metadata_member [OF assms(1)]
  obtain ts where "populateAttributeTargets api r (bt_targets b) = Some ts"
    using attributes_added [OF assms(1)] assms(6,7)
    by (auto simp: populateAttributeTargets_def members parts(8) declared_attributes)
  moreover have "populateConstExprs api r (st1, bt_constants b) = Some (?st2, ?ct)"
    using constants_read [OF assms(1), of cs] assms(4,6,7)
    by (simp add: populateConstExprs_def members cs variables_fit_def)
  moreover have "populateStaticVars api r ?st2 = Some ?st3"
    using statics_read [OF assms(1), of vs] assms(4,6,7)
    by (simp add: populateStaticVars_def members vs variables_fit_def)
  ultimately have "injectLibrarySymbols api r b = Some \<lparr>bt_table = ?st3, bt_targets = ts, bt_constants = ?ct\<rparr>"
    by (simp add: injectLibrarySymbols_def st1)
  moreover have "table_ok ?st3" using st1(2) by (simp add: library_variables.ok_adds)
  moreover have "local_symbol k ?st3 = or_else (local_symbol k (bt_table b))
      (map_of (es @ concat (map variable_entries (map constant_item cs @ map static_item vs))) k)" for k
    using st1(2) view1
    by (simp add: library_variables.ok_adds library_variables.view_adds or_else_assoc map_of_append_or
        del: map_of_append)
  moreover have "all_entries ?g src ct sv
      = Some (es @ concat (map variable_entries (map constant_item cs @ map static_item vs)))"
    by (simp add: all_entries_def es cs vs)
  ultimately show ?thesis
    using entries_fold [of "concat (map constant_entries cs)" "bt_constants b"] cs(1)
    unfolding or_else_def by (metis binder_tables.select_convs(1,3))
qed

theorem library_injected_witness:
  "\<exists>b'. injectLibrarySymbols (plain_api (\<lambda>j. None) (\<lambda>s. None))
     \<lparr>lr_metadata = serializeMetadata (plain_api (\<lambda>j. None) (\<lambda>s. None))
        (the (collect_library (plain_api (\<lambda>j. None) (\<lambda>s. None))
          (put_object ''io::File'' (new_symbol SK_Struct ''io::File'' voided no_location False (Struct_Detail new_struct))
            new_symtab)
          \<lparr>ot_entries = Map.empty, ot_order = []\<rparr> \<lparr>ot_entries = Map.empty, ot_order = []\<rparr> [] Map.empty)),
      lr_bitcode = [], lr_valid = True\<rparr>
     \<lparr>bt_table = new_symtab, bt_targets = Map.empty, bt_constants = \<lparr>ot_entries = Map.empty, ot_order = []\<rparr>\<rparr> = Some b'
   \<and> local_symbol ''File'' (bt_table b') = Some (from_library (stored_struct_symbol ''io::File'' new_struct))"
proof -
  let ?api = "plain_api (\<lambda>j. None) (\<lambda>s. None)"
  let ?none = "\<lparr>ot_entries = Map.empty, ot_order = []\<rparr>"
  let ?s = "new_symbol SK_Struct ''io::File'' voided no_location False (Struct_Detail new_struct)"
  let ?src = "put_object ''io::File'' ?s new_symtab"
  let ?w = "the (collect_library ?api ?src ?none ?none [] Map.empty)"
  note exports = get_all_structs_def get_all_functions_def get_all_extern_functions_def get_all_enums_def
    get_all_interfaces_def select_symbols_def orderedSymbols_def put_object_def make_shared_def define_key_def
    insertSymbol_def new_symtab_def new_scope_def isStruct_def isEnum_def isInterface_def is_error_struct_def new_symbol_def
    new_struct_def
  have "table_ok ?src" by (simp add: put_object_ok table_ok_new)
  moreover have "\<forall>s \<in> set (store ?src). symbol_fits s"
    by (simp add: exports symbol_fits_def struct_fits_def)
  moreover have "variables_fit ?none ?none" by (simp add: variables_fit_def entries_in_order_def)
  moreover have "collect_library ?api ?src ?none ?none [] Map.empty = Some ?w"
    by (simp add: collect_library_def collectSymbols_def collectConstExprs_def collectStaticVars_def entries_in_order_def
        exports Let_def)
  moreover have "all_entries False ?src ?none ?none =
      Some [(''io::File'', from_library (stored_struct_symbol ''io::File'' new_struct)),
            (''File'', from_library (stored_struct_symbol ''io::File'' new_struct))]"
    by (simp add: all_entries_def library_entries_def entries_in_order_def exports stored_symbols_def map_filter_simps
        kept_def stored_symbol_def symbol_entries_def stored_struct_symbol_def)
  moreover have "local_symbol ''File'' new_symtab = None"
    by (simp add: local_symbol_def lookupLocal_def new_symtab_def new_scope_def)
  ultimately show ?thesis
    using library_injected [where api = ?api and src = ?src and ct = ?none and sv = ?none and ps = "[]" and srcs = Map.empty
        and w = ?w and r = "\<lparr>lr_metadata = serializeMetadata ?api ?w, lr_bitcode = [], lr_valid = True\<rparr>"
        and b = "\<lparr>bt_table = new_symtab, bt_targets = Map.empty, bt_constants = ?none\<rparr>"]
    by (auto simp: table_ok_new)
qed

section \<open>Macros\<close>

lemma source_identifier_aborts: "source_identifier n = Aborted"
  by (simp add: source_identifier_def no_location_def Let_def)

lemma macro_aborts: "json_library api \<Longrightarrow> macro_from_json api (macro_to_json api ns m) = Aborted"
  by (simp add: macro_from_json_def macro_to_json_def js_simps or_thrown_def then_load_def source_identifier_aborts)

lemma loading_macros:
  "json_library api \<Longrightarrow> load_each (macro_from_json api) (map (\<lambda>(ns, m). macro_to_json api ns m) ms)
    = (if ms = [] then Loaded [] else Aborted)"
  by (cases ms) (auto simp: macro_aborts then_load_def)

lemma declared_macros:
  "concat (map (\<lambda>p. map (macro_to_json api (program_prefix p)) (program_macros p)) ps)
   = map (\<lambda>(ns, m). macro_to_json api ns m) (concat (map (\<lambda>p. map (Pair (program_prefix p)) (program_macros p)) ps))"
  by (induction ps) simp_all

lemma library_macros:
  "collect_library api src ct sv ps srcs = Some w \<Longrightarrow>
     lw_macros w = map (\<lambda>(ns, m). macro_to_json api ns m) (concat (map (\<lambda>p. map (Pair (program_prefix p)) (program_macros p)) ps))"
  by (auto simp: collect_library_def collectSymbols_def new_library_writer_def collectMacros_def collectAttributeDecls_def
      collectImplBlocks_def collectConstExprs_def collectStaticVars_def collectGenericSources_def Let_def declared_macros
      split: option.splits bind_splits)

text \<open>C30: A library whose programs declare a macro cannot be used: reading its macros fails an assertion,
  which ends the compiler, because the identifiers it makes have no file. Without macros a program
  keeps the macros it has.\<close>

theorem library_macros_abort:
  assumes "json_library api" "collect_library api src ct sv ps srcs = Some w"
    and "lr_valid r" "lr_metadata r = serializeMetadata api w"
  shows "populateMacros api r ms = (if list_all (\<lambda>p. program_macros p = []) ps then Loaded ms else Aborted)"
proof -
  have none: "concat (map (\<lambda>p. map (Pair (program_prefix p)) (program_macros p)) ps) = []
      \<longleftrightarrow> list_all (\<lambda>p. program_macros p = []) ps"
    by (auto simp: list_all_iff)
  show ?thesis
    using loading_macros [OF assms(1)] assms(3,4) metadata_member(6) [OF assms(1)] none library_macros [OF assms(2)]
    by (simp add: populateMacros_def then_load_def)
qed

theorem library_macros_abort_witness:
  "populateMacros (plain_api (\<lambda>j. None) (\<lambda>s. None))
     \<lparr>lr_metadata = serializeMetadata (plain_api (\<lambda>j. None) (\<lambda>s. None))
        (the (collect_library (plain_api (\<lambda>j. None) (\<lambda>s. None)) new_symtab \<lparr>ot_entries = Map.empty, ot_order = []\<rparr>
          \<lparr>ot_entries = Map.empty, ot_order = []\<rparr>
          [\<lparr>pg_name = ''m.djinn'', pg_items = [D_Macro \<lparr>md_name = \<lparr>token_name = ''sq'', id_location = no_location\<rparr>,
             md_rules = [], md_location = no_location\<rparr>]\<rparr>] Map.empty)),
      lr_bitcode = [], lr_valid = True\<rparr> [] = Aborted"
proof -
  let ?api = "plain_api (\<lambda>j. None) (\<lambda>s. None)"
  let ?none = "\<lparr>ot_entries = Map.empty, ot_order = []\<rparr>"
  let ?p = "\<lparr>pg_name = ''m.djinn'', pg_items = [D_Macro \<lparr>md_name = \<lparr>token_name = ''sq'', id_location = no_location\<rparr>,
             md_rules = [], md_location = no_location\<rparr>]\<rparr>"
  have "collect_library ?api new_symtab ?none ?none [?p] Map.empty
      = Some (the (collect_library ?api new_symtab ?none ?none [?p] Map.empty))"
    by (simp add: collect_library_def collectSymbols_def collectConstExprs_def collectStaticVars_def entries_in_order_def
        get_all_structs_def get_all_functions_def get_all_extern_functions_def get_all_enums_def get_all_interfaces_def
        select_symbols_def orderedSymbols_def new_symtab_def new_scope_def Let_def)
  from library_macros_abort [OF plain_json_library this] show ?thesis
    by (simp add: program_macros_def map_filter_simps)
qed

end
