(* ===== verification/Runtime_Text.thy ===== *)
theory Runtime_Text
  imports Djinn_Prelude "HOL-Library.Char_ord" "HOL-Library.List_Lexorder"
begin

text \<open>
  The parts of the runtime library (\<^verbatim>\<open>src/runtime/djinn_runtime.c\<close>) that compute on bytes:
  the string hash and the string comparison behind map keys and \<^verbatim>\<open>==\<close>, the address arithmetic
  of the aligned allocator, the line and key readers of the console, and the recursive listing
  of files. The code generator's type identifier (\<^verbatim>\<open>generator/expressions/TypeInfo.cpp\<close>) and
  the table of builtin errors (\<^verbatim>\<open>binder/ErrorTypes.h\<close>) are here because the runtime repeats
  them. The POSIX branches of the source are the ones modelled.
\<close>

unbundle bit_operations_syntax

section \<open>Hashing\<close>

definition fnv_offset :: nat where
  "fnv_offset = 2166136261"

definition fnv_prime :: nat where
  "fnv_prime = 16777619"

text \<open>One turn of the loop: the byte is read unsigned, the product wraps at 64 bits.\<close>

definition hash_byte :: "u64 \<Rightarrow> char \<Rightarrow> u64" where
  "hash_byte hash c = (hash XOR word_of_nat (of_char c)) * word_of_nat fnv_prime"

definition hash_string :: "string \<Rightarrow> u64" where
  "hash_string data = foldl hash_byte (word_of_nat fnv_offset) data"

text \<open>\<^verbatim>\<open>Generator::compute_type_id\<close>: the same loop at 32 bits; the result is read as signed.\<close>

definition type_id_byte :: "u32 \<Rightarrow> char \<Rightarrow> u32" where
  "type_id_byte hash c = (hash XOR word_of_nat (of_char c)) * word_of_nat fnv_prime"

definition compute_type_id :: "string \<Rightarrow> int" where
  "compute_type_id typeName = sint (foldl type_id_byte (word_of_nat fnv_offset) typeName)"

lemma low_half_byte:
  "(ucast (hash_byte hash c) :: u32) = type_id_byte (ucast hash) c"
proof -
  have mult: "(ucast (a * b) :: u32) = ucast a * ucast b" for a b :: u64
    by (simp add: word_unat_eq_iff unat_word_ariths unsigned_ucast_eq take_bit_eq_mod mod_mod_cancel mod_mult_eq)
  have nat: "(ucast (word_of_nat n :: u64) :: u32) = word_of_nat n" for n
    by (simp add: word_unat_eq_iff unsigned_ucast_eq unsigned_of_nat take_bit_eq_mod mod_mod_cancel)
  have xor: "(ucast (a XOR b) :: u32) = ucast a XOR ucast b" for a b :: u64
    by (rule bit_word_eqI) (auto simp: bit_simps)
  show ?thesis by (simp add: hash_byte_def type_id_byte_def mult nat xor)
qed

lemma low_half_hash:
  "(ucast (foldl hash_byte h cs) :: u32) = foldl type_id_byte (ucast h) cs"
  by (induction cs arbitrary: h) (simp_all add: low_half_byte)

text \<open>The low half of the runtime's 64-bit hash of a name is the 32-bit FNV-1a hash of which
  the compiler's type identifier is the signed reading.\<close>

theorem hash_extends_type_id:
  "compute_type_id name = sint (ucast (hash_string name) :: u32)"
proof -
  have "(ucast (word_of_nat fnv_offset :: u64) :: u32) = word_of_nat fnv_offset"
    by (simp add: fnv_offset_def)
  then show ?thesis by (simp add: compute_type_id_def hash_string_def low_half_hash)
qed

text \<open>The constants are those of the 32-bit function: a 64-bit FNV-1a hash is another one.\<close>

lemma hash_is_not_fnv_64:
  "hash_string [] = 0x811C9DC5"
  "hash_string [] \<noteq> 0xCBF29CE484222325"
  by (simp_all add: hash_string_def fnv_offset_def)

section \<open>Comparing strings\<close>

text \<open>
  Strings are given as an address and a length into the memory of the process; 0 is the null
  pointer. \<^verbatim>\<open>memcmp\<close> on equal lengths compares the bytes one by one.
\<close>

type_synonym memory = "u64 \<Rightarrow> 8 word"

definition bytes_at :: "memory \<Rightarrow> u64 \<Rightarrow> u64 \<Rightarrow> 8 word list" where
  "bytes_at mem p len = map (\<lambda>i. mem (p + word_of_nat i)) [0..<unat len]"

definition compare_strings :: "memory \<Rightarrow> u64 \<Rightarrow> u64 \<Rightarrow> u64 \<Rightarrow> u64 \<Rightarrow> u32" where
  "compare_strings mem leftData rightData leftLen rightLen =
    (if leftData = rightData then 1
     else if leftData = 0 \<or> rightData = 0 then 0
     else if leftLen \<noteq> rightLen then 0
     else if bytes_at mem leftData leftLen = bytes_at mem rightData leftLen then 1 else 0)"

lemma length_bytes_at [simp]: "length (bytes_at mem p len) = unat len"
  by (simp add: bytes_at_def)

text \<open>The string comparison answers 1 exactly when the two byte sequences are equal, except that
  two views at one address are equal whatever their lengths and a null view differs from every
  other one.\<close>

theorem compare_strings_exact:
  "compare_strings mem l r ll rl =
    (if l = r then 1 else if l = 0 \<or> r = 0 then 0
     else if bytes_at mem l ll = bytes_at mem r rl then 1 else 0)"
proof (cases "ll = rl")
  case True
  then show ?thesis by (simp add: compare_strings_def)
next
  case False
  then have "length (bytes_at mem l ll) \<noteq> length (bytes_at mem r rl)"
    by (simp add: word_unat_eq_iff)
  then have "bytes_at mem l ll \<noteq> bytes_at mem r rl" by (metis (no_types))
  with False show ?thesis by (simp add: compare_strings_def)
qed

text \<open>A text and a shorter view of its beginning compare equal, although their bytes differ.\<close>

lemma prefix_view_compares_equal:
  "compare_strings mem p p 3 1 = 1" "bytes_at mem p 3 \<noteq> bytes_at mem p 1"
  by (simp add: compare_strings_def) (auto dest: arg_cong [where f = length])

section \<open>Aligned allocation\<close>

text \<open>
  \<^verbatim>\<open>DJINN_ASSERT\<close> ends the process with its message. \<^verbatim>\<open>calloc\<close> is a function from the size to
  the address of the block (0 when there is no memory); the word before the returned address
  holds the block's own address, so the memory is a map from word addresses.
\<close>

datatype runtime_abort = Assertion string

definition malloc_aligned ::
    "(u64 \<Rightarrow> u64) \<Rightarrow> u64 \<Rightarrow> u64 \<Rightarrow> (u64 \<Rightarrow> u64) \<Rightarrow> runtime_abort + u64 \<times> (u64 \<Rightarrow> u64)" where
  "malloc_aligned calloc bytes alignment slots =
    (if \<not> 0 < bytes then Inl (Assertion ''Size need be greater than zero!'')
     else if \<not> (alignment \<noteq> 0 \<and> alignment AND (alignment - 1) = 0)
     then Inl (Assertion ''Alignment need be a power of two!'')
     else let alignment = (if alignment < 8 then 8 else alignment);
              raw = calloc (bytes + alignment + 8)
          in if raw = 0 then Inl (Assertion ''Out of memory'')
             else let address = (raw + 8 + alignment - 1) AND NOT (alignment - 1)
                  in Inr (address, slots(address - 8 := raw)))"

text \<open>\<^verbatim>\<open>__djinn_free_aligned\<close>: the block handed to \<^verbatim>\<open>free\<close>, none for a null pointer.\<close>

definition free_aligned :: "u64 \<Rightarrow> (u64 \<Rightarrow> u64) \<Rightarrow> u64 option" where
  "free_aligned pointer slots = (if pointer = 0 then None else Some (slots (pointer - 8)))"

lemma unat_power_of_two: "k < 64 \<Longrightarrow> unat (2 ^ k :: u64) = 2 ^ k"
proof -
  assume "k < 64"
  then have "(2::nat) ^ k < 2 ^ 64" by (simp only: power_strict_increasing_iff)
  then have "unat (word_of_nat (2 ^ k) :: u64) = 2 ^ k"
    by (simp add: unsigned_of_nat take_bit_eq_mod del: of_nat_power)
  then show ?thesis by simp
qed

lemma power_of_two_nat:
  "0 < (n::nat) \<Longrightarrow> n AND (n - 1) = 0 \<Longrightarrow> \<exists>k. n = 2 ^ k"
proof (induction n rule: less_induct)
  case (less n)
  show ?case
  proof (cases "even n")
    case True
    then obtain m where m: "n = 2 * m" by blast
    with less.prems have pos: "0 < m" by simp
    have "n - 1 = 1 + 2 * (m - 1)" using m pos by simp
    then have "2 * (m AND (m - 1)) = 0"
      using less.prems(2) m by (simp add: and_rec [of "2 * m"])
    then have "m AND (m - 1) = 0" by simp
    with less.IH [of m] pos m obtain k where "m = 2 ^ k" by auto
    with m have "n = 2 ^ Suc k" by simp
    then show ?thesis by blast
  next
    case False
    then obtain m where m: "n = 2 * m + 1" using oddE by blast
    have "n AND (n - 1) = 2 * m"
      using m by (simp add: and_rec [of "Suc (2 * m)"])
    with less.prems(2) m have "n = 2 ^ 0" by simp
    then show ?thesis by blast
  qed
qed

lemma power_of_two_word:
  fixes a :: u64
  assumes "a \<noteq> 0" "a AND (a - 1) = 0"
  shows "\<exists>k<64. a = 2 ^ k"
proof -
  have pos: "0 < unat a" using assms(1) by (simp add: unat_gt_0)
  have "unat (a - 1) = unat a - 1" using assms(1) by (simp add: unat_minus_one)
  then have "unat a AND (unat a - 1) = 0"
    using arg_cong [OF assms(2), of unat] by (simp add: unsigned_and_eq)
  with power_of_two_nat [OF pos] obtain k where k: "unat a = 2 ^ k" by auto
  have "(2::nat) ^ k < 2 ^ 64" using unsigned_less [of a, where ?'a = nat] k by simp
  then have "k < 64" by (simp only: power_strict_increasing_iff)
  moreover have "a = 2 ^ k" using k \<open>k < 64\<close> by (simp add: word_unat_eq_iff unat_power_of_two)
  ultimately show ?thesis by blast
qed

text \<open>Rounding up to a multiple of \<open>2 ^ k\<close>, when the sum does not wrap.\<close>

lemma round_up_word:
  fixes x :: u64
  assumes k: "k < 64" and fits: "unat x + 2 ^ k \<le> 2 ^ 64"
  defines "y \<equiv> (x + 2 ^ k - 1) AND NOT (2 ^ k - 1)"
  shows "2 ^ k dvd unat y" and "unat x \<le> unat y" and "unat y < unat x + 2 ^ k"
proof -
  let ?p = "(2::nat) ^ k"
  let ?z = "unat x + (?p - 1)"
  have p: "0 < ?p" by simp
  have up: "unat (2 ^ k :: u64) = ?p" using k by (simp add: unat_power_of_two)
  have "(word_of_nat ?z :: u64) = word_of_nat (unat x) + (word_of_nat ?p - word_of_nat 1)"
    unfolding of_nat_add by (subst of_nat_diff) (use p in \<open>simp_all only: Suc_leI One_nat_def\<close>)
  then have "x + 2 ^ k - 1 = word_of_nat ?z" by simp
  moreover have "?z < 2 ^ 64" using fits p by linarith
  ultimately have z: "unat (x + 2 ^ k - 1) = ?z"
    by (simp only: unat_of_nat) simp
  have m: "(2 ^ k - 1 :: u64) = mask k" by (simp add: mask_eq_decr_exp)
  define w where "w = x + 2 ^ k - 1"
  have "w AND NOT (take_bit k w) = w AND NOT (mask k)"
    by (rule bit_word_eqI) (auto simp: bit_simps)
  moreover have "w - take_bit k w = w AND NOT (take_bit k w)"
    by (rule disjunctive_diff_eq_and_not, rule bit_word_eqI) (auto simp: bit_simps)
  ultimately have "y = w - take_bit k w" by (simp add: y_def m w_def)
  moreover have t: "unat (take_bit k w) = unat w mod ?p"
    unfolding unsigned_take_bit_eq by (simp add: take_bit_eq_mod)
  moreover have "take_bit k w \<le> w" by (simp add: word_le_nat_alt t)
  ultimately have "unat y = unat w - unat w mod ?p" by (simp add: unat_sub)
  then have y: "unat y = ?z div ?p * ?p"
    using z by (simp add: w_def minus_mod_eq_div_mult)
  show "2 ^ k dvd unat y" by (simp add: y)
  have "?z div ?p * ?p + ?z mod ?p = ?z" by (rule div_mult_mod_eq)
  moreover have "?z mod ?p < ?p" using p by simp
  ultimately show "unat x \<le> unat y" and "unat y < unat x + 2 ^ k"
    using p unfolding y by linarith+
qed

text \<open>C38: An aligned allocation that succeeds, whose block lies inside the address space (the address of the block
  plus the size, the alignment of at least 8 and the 8 bytes of the header stay below two to the 64, so that
  the size asked for does not wrap either), returns a multiple of the alignment whose usable bytes and
  header both lie inside the block, and freeing the address hands back that block. Requests whose size
  wraps are excluded: for them calloc is asked for too small a block.\<close>

theorem malloc_aligned_correct:
  assumes result: "malloc_aligned calloc bytes alignment slots = Inr (address, slots')"
    and raw: "raw = calloc (bytes + max 8 alignment + 8)"
    and block: "unat raw + unat bytes + unat (max 8 alignment) + 8 < 2 ^ 64"
  shows "unat alignment dvd unat address \<and> unat raw + 8 \<le> unat address
    \<and> unat address + unat bytes \<le> unat raw + (unat bytes + unat (max 8 alignment) + 8)
    \<and> free_aligned address slots' = Some raw"
proof -
  let ?a = "max 8 alignment"
  have guard: "alignment \<noteq> 0" "alignment AND (alignment - 1) = 0"
    using result by (auto simp: malloc_aligned_def split: if_splits)
  have a: "(if alignment < 8 then 8 else alignment) = ?a" by (auto simp: max_def dest: order_antisym less_imp_le)
  have value_of: "address = (raw + 8 + ?a - 1) AND NOT (?a - 1)"
    and slot: "slots' = slots(address - 8 := raw)"
    using result guard by (auto simp: malloc_aligned_def Let_def a raw split: if_splits)
  obtain j where j: "j < 64" "alignment = 2 ^ j" using power_of_two_word [OF guard] by blast
  obtain k where k: "k < 64" "?a = 2 ^ k" "unat alignment dvd 2 ^ k"
  proof (cases "alignment \<le> 8")
    case True
    then have "2 ^ j \<le> (2::nat) ^ 3" using j by (simp add: word_le_nat_alt unat_power_of_two)
    then have "j \<le> 3" by (simp only: power_increasing_iff)
    then have "unat alignment dvd 2 ^ 3" unfolding j(2) unat_power_of_two [OF j(1)] by (rule le_imp_power_dvd)
    moreover have "?a = 2 ^ 3" using True by (simp add: max_def)
    ultimately show ?thesis using that [of 3] by simp
  next
    case False
    then have "?a = alignment" by (simp add: max.absorb2 order_less_imp_le not_le)
    then have "?a = 2 ^ j" using j by simp
    then show ?thesis using that [of j] j by (simp add: unat_power_of_two)
  qed
  have ua: "unat ?a = 2 ^ k" using k by (simp add: unat_power_of_two)
  have r8: "unat (raw + 8) = unat raw + 8"
    using block by (subst unat_add_lem [THEN iffD1]) auto
  have addr: "address = (raw + 8 + 2 ^ k - 1) AND NOT (2 ^ k - 1)" using value_of k by simp
  have "unat (raw + 8) + 2 ^ k \<le> 2 ^ 64" using block ua r8 by simp
  note r = round_up_word [OF k(1) this, folded addr]
  have "unat alignment dvd unat address" using k(3) r(1) dvd_trans by blast
  moreover have "unat raw + 8 \<le> unat address" using r(2) r8 by simp
  moreover have "unat address + unat bytes \<le> unat raw + (unat bytes + unat ?a + 8)"
    using r(3) r8 ua by simp
  moreover from calculation(2) have "address \<noteq> 0" by auto
  ultimately show ?thesis by (simp add: free_aligned_def slot)
qed

lemma malloc_aligned_correct_witness:
  "malloc_aligned (\<lambda>_. 4100) 10 16 (\<lambda>_. 0) = Inr (4112, (\<lambda>_. 0)(4104 := 4100))
   \<and> unat (16 :: u64) dvd unat (4112 :: u64)"
proof -
  have r: "malloc_aligned (\<lambda>_. 4100) 10 16 (\<lambda>_. 0) = Inr (4112, (\<lambda>_. 0)(4104 := 4100))"
    by (simp add: malloc_aligned_def Let_def)
  show ?thesis using malloc_aligned_correct [OF r refl] r by (simp add: max_def)
qed

text \<open>A request near the end of the address space wraps: the block asked for is too small.\<close>

lemma malloc_aligned_request_wraps:
  "(0xFFFFFFFFFFFFFFF8 :: u64) + 8 + 8 = 8"
  by simp

section \<open>Builtin errors\<close>

text \<open>\<^verbatim>\<open>djinn::errors\<close>: name, base and tag of the builtin error types.\<close>

record builtin_error =
  be_name :: string
  be_base :: string
  be_tag :: int

definition FirstUserErrorTag :: int where
  "FirstUserErrorTag = 100"

definition builtin_errors :: "builtin_error list" where
  "builtin_errors = map (\<lambda>(n, b, t). \<lparr>be_name = n, be_base = b, be_tag = t\<rparr>)
    [(''Exception'', [], 1),
     (''Generic'', ''Exception'', 2),
     (''DivisionByZero'', ''Exception'', 3),
     (''Argument'', ''Exception'', 4),
     (''Overflow'', ''Exception'', 5),
     (''OutOfBounds'', ''Exception'', 6),
     (''InvalidArgument'', ''Exception'', 7),
     (''ContractViolation'', ''Exception'', 8)]"

definition is_builtin_error :: "string \<Rightarrow> bool" where
  "is_builtin_error name \<longleftrightarrow> list_ex (\<lambda>e. be_name e = name) builtin_errors"

definition builtin_error_tag :: "string \<Rightarrow> int" where
  "builtin_error_tag name =
    (case List.find (\<lambda>e. be_name e = name) builtin_errors of Some e \<Rightarrow> be_tag e | None \<Rightarrow> -1)"

text \<open>The runtime's copy of the names, by tag.\<close>

definition builtin_error_name :: "int \<Rightarrow> string option" where
  "builtin_error_name tag =
    (if tag = 1 then Some ''Exception''
     else if tag = 2 then Some ''Generic''
     else if tag = 3 then Some ''DivisionByZero''
     else if tag = 4 then Some ''Argument''
     else if tag = 5 then Some ''Overflow''
     else if tag = 6 then Some ''OutOfBounds''
     else if tag = 7 then Some ''InvalidArgument''
     else if tag = 8 then Some ''ContractViolation''
     else None)"

lemma builtin_error_names_agree:
  "builtin_error_name tag = Some name
    \<longleftrightarrow> is_builtin_error name \<and> builtin_error_tag name = tag"
  by (auto simp: builtin_error_name_def is_builtin_error_def builtin_error_tag_def
      builtin_errors_def split: if_splits)

lemma builtin_tags_reserved:
  "e \<in> set builtin_errors \<Longrightarrow> 1 \<le> be_tag e \<and> be_tag e < FirstUserErrorTag"
  by (auto simp: builtin_errors_def FirstUserErrorTag_def)

section \<open>Console input\<close>

text \<open>
  Standard input is the list of the characters not read yet. \<^verbatim>\<open>fgets\<close> stores at most
  \<^verbatim>\<open>n - 1\<close> characters, stops after a line_feed, and fails at the end of the input.
\<close>

definition line_feed :: char where
  "line_feed = CHR 0x0A"

definition cr_char :: char where
  "cr_char = CHR 0x0D"

fun fgets_chars :: "nat \<Rightarrow> string \<Rightarrow> string \<times> string" where
  "fgets_chars 0 input = ([], input)"
| "fgets_chars (Suc n) [] = ([], [])"
| "fgets_chars (Suc n) (c # cs) =
    (if c = line_feed then ([c], cs) else let (l, r) = fgets_chars n cs in (c # l, r))"

definition fgets :: "nat \<Rightarrow> string \<Rightarrow> (string \<times> string) option" where
  "fgets n input =
    (if 1 < n \<and> input = [] then None else Some (fgets_chars (n - 1) input))"

text \<open>Removing the last characters while they satisfy a test.\<close>

definition trim_end :: "(char \<Rightarrow> bool) \<Rightarrow> string \<Rightarrow> string" where
  "trim_end p s = rev (dropWhile p (rev s))"

definition read_line :: "bool \<Rightarrow> int \<Rightarrow> string \<Rightarrow> nat \<times> string \<times> string" where
  "read_line has_buffer maxLen input =
    (if \<not> has_buffer \<or> maxLen \<le> 0 then (0, [], input)
     else case fgets (nat maxLen) input of
       None \<Rightarrow> (0, [], input)
     | Some (buf, input') \<Rightarrow>
         let line = trim_end (\<lambda>c. c = line_feed \<or> c = cr_char) (takeWhile (\<lambda>c. c \<noteq> nul) buf)
         in (length line, line, input'))"

datatype key_result = Key int | Exit_Process

definition read_key :: "string \<Rightarrow> key_result \<times> string" where
  "read_key input =
    (case input of
       [] \<Rightarrow> (Key (-5), [])
     | c # r \<Rightarrow>
         if c = CHR 0x1B then
           (case r of
              [] \<Rightarrow> (Key (-5), [])
            | [s0] \<Rightarrow> (Key (-5), [])
            | s0 # s1 # r' \<Rightarrow>
                (if s0 = CHR ''['' \<and> s1 = CHR ''A'' then (Key (-1), r')
                 else if s0 = CHR ''['' \<and> s1 = CHR ''B'' then (Key (-2), r')
                 else (Key (-5), r')))
         else if c = CHR 0x03 then (Exit_Process, r)
         else if c = cr_char \<or> c = line_feed then (Key (-3), r)
         else if c = CHR '' '' then (Key (-4), r)
         else (Key (int (of_char c)), r))"

text \<open>\<^verbatim>\<open>__djinn_console_open_line\<close>: the old flag and the new one.\<close>

definition console_open_line :: "int \<Rightarrow> int \<Rightarrow> int \<times> int" where
  "console_open_line set_to djinn_open_line =
    (djinn_open_line, if 0 \<le> set_to then set_to else djinn_open_line)"

text \<open>\<^verbatim>\<open>__djinn_argv\<close>: out of range is a null pointer.\<close>

definition argv :: "string list \<Rightarrow> int \<Rightarrow> string option" where
  "argv args index =
    (if index < 0 \<or> int (length args) \<le> index then None else Some (args ! nat index))"

lemma fgets_chars_line:
  "line_feed \<notin> set l \<Longrightarrow> length l < n \<Longrightarrow> fgets_chars n (l @ line_feed # r) = (l @ [line_feed], r)"
proof (induction l arbitrary: n)
  case Nil
  then show ?case by (cases n) auto
next
  case (Cons c l)
  then show ?case by (cases n) auto
qed

lemma takeWhile_text [simp]:
  "nul \<notin> set l \<Longrightarrow> takeWhile (\<lambda>c. c \<noteq> nul) (l @ [line_feed]) = l @ [line_feed]"
  by (subst takeWhile_append2) (auto simp: line_feed_def nul_def)

lemma trim_end_line:
  assumes "line_feed \<notin> set l" "cr_char \<notin> set l"
  shows "trim_end (\<lambda>c. c = line_feed \<or> c = cr_char) (l @ [line_feed]) = l"
proof (cases l rule: rev_cases)
  case (snoc ys y)
  then show ?thesis using assms by (auto simp: trim_end_def)
qed (simp add: trim_end_def)

text \<open>A line that fits in the buffer is read whole, without its end, and the next read starts after
  it.\<close>

lemma read_line_line:
  assumes "line_feed \<notin> set l" "cr_char \<notin> set l" "nul \<notin> set l" "int (length l) + 1 < n"
  shows "read_line True n (l @ line_feed # r) = (length l, l, r)"
proof -
  have "fgets (nat n) (l @ line_feed # r) = Some (l @ [line_feed], r)"
    using assms by (simp add: fgets_def fgets_chars_line)
  then show ?thesis
    using assms by (simp add: read_line_def trim_end_line Let_def)
qed

lemma read_line_bounded:
  assumes "0 < n"
  shows "fst (read_line b n input) < nat n"
proof -
  have len: "length (fst (fgets_chars k s)) \<le> k" for k s
    by (induction k s rule: fgets_chars.induct) (auto simp: Let_def split: prod.splits)
  have trim: "length (trim_end q (takeWhile p s)) \<le> length s" for p q and s :: string
    unfolding trim_end_def
    by (metis length_dropWhile_le length_rev length_takeWhile_le order_trans)
  show ?thesis
  proof (cases "fgets (nat n) input")
    case None
    then show ?thesis using assms by (simp add: read_line_def)
  next
    case (Some r)
    then have "length (fst r) < nat n"
      using len [of "nat n - 1" input] assms by (auto simp: fgets_def split: if_splits)
    then show ?thesis
      using Some assms trim order_le_less_trans
      by (auto simp: read_line_def Let_def split: prod.splits) blast
  qed
qed

end
