(* ===== verification/Runtime_Files.thy ===== *)
theory Runtime_Files
  imports Runtime_Text
begin

text \<open>
  The recursive listing of a directory (\<^verbatim>\<open>__djinn_list_files\<close> of
  \<^verbatim>\<open>src/runtime/djinn_runtime.c\<close>) behind the standard library's directory walk. The file
  system is a parameter: what \<^verbatim>\<open>opendir\<close> and \<^verbatim>\<open>readdir\<close> give for a directory, and whether
  \<^verbatim>\<open>stat\<close> finds a path and says it is a directory. So is the allocator, which says whether its
  n-th request, of so many bytes, succeeds. The code never looks at what \<^verbatim>\<open>malloc\<close> and
  \<^verbatim>\<open>realloc\<close> return: a failed request is a write through a null pointer, the result
  \<open>Null_Write\<close>. A symbolic link may make the walk endless, so it takes fuel, the nesting allowed;
  \<open>Too_Deep\<close> is a walk that needs more.
\<close>

record fs_api =
  fs_entries :: "string \<Rightarrow> string list option"
  fs_is_dir :: "string \<Rightarrow> bool option"
  fs_alloc :: "nat \<Rightarrow> nat \<Rightarrow> bool"

datatype 'a fs_result = Too_Deep | Null_Write | Listed 'a

text \<open>\<^verbatim>\<open>snprintf\<close> into 1024 bytes keeps 1023 characters.\<close>

definition entry_path :: "string \<Rightarrow> string \<Rightarrow> string" where
  "entry_path directory name = take 1023 (directory @ ''/'' @ name)"

definition has_extension :: "string \<Rightarrow> string \<Rightarrow> bool" where
  "has_extension name extension \<longleftrightarrow>
    length extension \<le> length name \<and> drop (length name - length extension) name = extension"

text \<open>The list of paths found: its count is the length of \<open>pl_paths\<close>, and \<open>pl_requests\<close> counts the
  requests made of the allocator so far.\<close>

record path_list =
  pl_paths :: "string list"
  pl_capacity :: nat
  pl_requests :: nat

definition empty_path_list :: path_list where
  "empty_path_list = \<lparr>pl_paths = [], pl_capacity = 0, pl_requests = 0\<rparr>"

definition path_list_grow :: "fs_api \<Rightarrow> path_list \<Rightarrow> path_list fs_result" where
  "path_list_grow fs list =
    (if length (pl_paths list) = pl_capacity list
     then let capacity = (if pl_capacity list \<noteq> 0 then pl_capacity list * 2 else 64) in
       if fs_alloc fs (pl_requests list) (capacity * 8)
       then Listed (list\<lparr>pl_capacity := capacity, pl_requests := Suc (pl_requests list)\<rparr>)
       else Null_Write
     else Listed list)"

definition path_list_push :: "fs_api \<Rightarrow> path_list \<Rightarrow> string \<Rightarrow> path_list fs_result" where
  "path_list_push fs list path =
    (case path_list_grow fs list of
       Listed list' \<Rightarrow>
         if fs_alloc fs (pl_requests list') (length path + 1)
         then Listed (list'\<lparr>pl_paths := pl_paths list' @ [path], pl_requests := Suc (pl_requests list')\<rparr>)
         else Null_Write
     | r \<Rightarrow> r)"

definition dot_entry :: "string \<Rightarrow> bool" where
  "dot_entry name \<longleftrightarrow> name = ''.'' \<or> name = ''..''"

text \<open>
  The loop over the entries of one directory; \<open>walk\<close> is the recursive call, whose result
  \<^verbatim>\<open>0\<close> for an unreadable directory is ignored.
\<close>

fun collect_entries ::
    "(string \<Rightarrow> path_list \<Rightarrow> (bool \<times> path_list) fs_result) \<Rightarrow> fs_api \<Rightarrow> string \<Rightarrow> string
      \<Rightarrow> string list \<Rightarrow> path_list \<Rightarrow> path_list fs_result" where
  "collect_entries walk fs directory extension [] list = Listed list"
| "collect_entries walk fs directory extension (name # names) list =
    (if dot_entry name then collect_entries walk fs directory extension names list
     else let path = entry_path directory name in
       case fs_is_dir fs path of
         None \<Rightarrow> collect_entries walk fs directory extension names list
       | Some True \<Rightarrow>
           (case walk path list of
              Too_Deep \<Rightarrow> Too_Deep
            | Null_Write \<Rightarrow> Null_Write
            | Listed (_, list') \<Rightarrow> collect_entries walk fs directory extension names list')
       | Some False \<Rightarrow>
           if has_extension name extension
           then (case path_list_push fs list path of
                   Too_Deep \<Rightarrow> Too_Deep
                 | Null_Write \<Rightarrow> Null_Write
                 | Listed list' \<Rightarrow> collect_entries walk fs directory extension names list')
           else collect_entries walk fs directory extension names list)"

fun collect_files ::
    "fs_api \<Rightarrow> string \<Rightarrow> nat \<Rightarrow> string \<Rightarrow> path_list \<Rightarrow> (bool \<times> path_list) fs_result" where
  "collect_files fs extension 0 directory list = Too_Deep"
| "collect_files fs extension (Suc fuel) directory list =
    (case fs_entries fs directory of
       None \<Rightarrow> Listed (False, list)
     | Some names \<Rightarrow>
         map_fs_result (Pair True)
           (collect_entries (collect_files fs extension fuel) fs directory extension names list))"

text \<open>
  The paths sorted by \<^verbatim>\<open>strcmp\<close>, which compares bytes as unsigned numbers, each followed by a
  line feed; a null pointer when the directory itself cannot be read.
\<close>

definition joined_lines :: "string list \<Rightarrow> string" where
  "joined_lines paths = concat (map (\<lambda>p. p @ [line_feed]) paths)"

definition list_files :: "fs_api \<Rightarrow> nat \<Rightarrow> string \<Rightarrow> string \<Rightarrow> string option fs_result" where
  "list_files fs fuel directory extension =
    (case collect_files fs extension fuel directory empty_path_list of
       Too_Deep \<Rightarrow> Too_Deep
     | Null_Write \<Rightarrow> Null_Write
     | Listed (ok, list) \<Rightarrow>
         if \<not> ok then Listed None
         else let text = joined_lines (sort (pl_paths list)) in
           if fs_alloc fs (pl_requests list) (length text + 1) then Listed (Some text) else Null_Write)"

section \<open>What the walk finds\<close>

text \<open>The files below a directory: the paths of entries, other than the two dot entries, that are no
  directories and whose names end in the extension, in the directory itself or in a directory that
  is an entry. Nothing is said of order, fuel or buffers.\<close>

definition below :: "string \<Rightarrow> string \<Rightarrow> string" where
  "below directory name = directory @ ''/'' @ name"

inductive file_below :: "fs_api \<Rightarrow> string \<Rightarrow> string \<Rightarrow> string \<Rightarrow> bool" for fs extension where
  here: "fs_entries fs directory = Some names \<Longrightarrow> stem @ extension \<in> set names
    \<Longrightarrow> stem @ extension \<notin> {''.'', ''..''} \<Longrightarrow> fs_is_dir fs (below directory (stem @ extension)) = Some False
    \<Longrightarrow> file_below fs extension directory (below directory (stem @ extension))"
| deeper: "fs_entries fs directory = Some names \<Longrightarrow> name \<in> set names \<Longrightarrow> name \<notin> {''.'', ''..''}
    \<Longrightarrow> fs_is_dir fs (below directory name) = Some True
    \<Longrightarrow> file_below fs extension (below directory name) p
    \<Longrightarrow> file_below fs extension directory p"

text \<open>The directories below a directory, itself included, and the requirement that no path to one of
  their entries is cut by the buffer of 1024 bytes.\<close>

inductive dir_below :: "fs_api \<Rightarrow> string \<Rightarrow> string \<Rightarrow> bool" for fs where
  itself: "dir_below fs directory directory"
| entry: "fs_entries fs directory = Some names \<Longrightarrow> name \<in> set names \<Longrightarrow> name \<notin> {''.'', ''..''}
    \<Longrightarrow> fs_is_dir fs (below directory name) = Some True \<Longrightarrow> dir_below fs (below directory name) d
    \<Longrightarrow> dir_below fs directory d"

definition paths_fit :: "fs_api \<Rightarrow> string \<Rightarrow> bool" where
  "paths_fit fs directory \<longleftrightarrow> (\<forall>d names name. dir_below fs directory d \<longrightarrow> fs_entries fs d = Some names
     \<longrightarrow> name \<in> set names \<longrightarrow> length (below d name) < 1024)"

text \<open>What \<^verbatim>\<open>readdir\<close> promises: each name once, and no name with a slash in it.\<close>

definition proper_entries :: "fs_api \<Rightarrow> bool" where
  "proper_entries fs \<longleftrightarrow> (\<forall>d names. fs_entries fs d = Some names
     \<longrightarrow> distinct names \<and> (\<forall>name \<in> set names. CHR ''/'' \<notin> set name))"

text \<open>No cycles: directories are ranked, and every directory an entry names has a smaller rank.\<close>

definition ranked :: "fs_api \<Rightarrow> (string \<Rightarrow> nat) \<Rightarrow> bool" where
  "ranked fs rank \<longleftrightarrow> (\<forall>directory names name. fs_entries fs directory = Some names \<longrightarrow>
     name \<in> set names \<longrightarrow> name \<notin> {''.'', ''..''} \<longrightarrow>
     fs_is_dir fs (below directory name) = Some True \<longrightarrow>
     rank (below directory name) < rank directory)"

lemma dot_entry_iff: "dot_entry name \<longleftrightarrow> name \<in> {''.'', ''..''}"
  by (auto simp: dot_entry_def)

lemma has_extension_iff: "has_extension name extension \<longleftrightarrow> (\<exists>stem. name = stem @ extension)"
proof
  assume "has_extension name extension"
  then have "name = take (length name - length extension) name @ extension"
    by (metis append_take_drop_id has_extension_def)
  then show "\<exists>stem. name = stem @ extension" by blast
qed (auto simp: has_extension_def)

lemma entry_path_fit: "length (below d name) < 1024 \<Longrightarrow> entry_path d name = below d name"
  by (simp add: entry_path_def below_def)

lemma paths_fit_entry:
  assumes "paths_fit fs d" "fs_entries fs d = Some names" "name \<in> set names"
  shows "entry_path d name = below d name"
    and "name \<notin> {''.'', ''..''} \<Longrightarrow> fs_is_dir fs (below d name) = Some True \<Longrightarrow> paths_fit fs (below d name)"
proof -
  show "entry_path d name = below d name"
    using assms dir_below.itself by (intro entry_path_fit) (auto simp: paths_fit_def)
  show "paths_fit fs (below d name)"
    if "name \<notin> {''.'', ''..''}" "fs_is_dir fs (below d name) = Some True"
    using assms dir_below.entry [OF assms(2,3) that] unfolding paths_fit_def by blast
qed

text \<open>What one entry contributes.\<close>

definition entry_files :: "fs_api \<Rightarrow> string \<Rightarrow> string \<Rightarrow> string \<Rightarrow> string set" where
  "entry_files fs extension directory name =
    (if dot_entry name then {}
     else case fs_is_dir fs (below directory name) of
       None \<Rightarrow> {}
     | Some True \<Rightarrow> {p. file_below fs extension (below directory name) p}
     | Some False \<Rightarrow> (if has_extension name extension then {below directory name} else {}))"

lemma file_below_entries:
  "{p. file_below fs extension directory p} =
    (case fs_entries fs directory of None \<Rightarrow> {}
     | Some names \<Rightarrow> \<Union> (entry_files fs extension directory ` set names))"
proof (cases "fs_entries fs directory")
  case None
  then show ?thesis by (auto elim: file_below.cases)
next
  case (Some names)
  have "file_below fs extension directory p
      \<longleftrightarrow> (\<exists>name \<in> set names. p \<in> entry_files fs extension directory name)" for p
  proof
    assume "file_below fs extension directory p"
    then show "\<exists>name \<in> set names. p \<in> entry_files fs extension directory name"
    proof cases
      case (here ns stem)
      then show ?thesis using Some
        by (intro bexI [of _ "stem @ extension"]) (auto simp: entry_files_def dot_entry_iff has_extension_iff)
    next
      case (deeper ns name)
      then show ?thesis using Some by (intro bexI [of _ name]) (simp_all add: entry_files_def dot_entry_iff)
    qed
  next
    assume "\<exists>name \<in> set names. p \<in> entry_files fs extension directory name"
    then obtain name where n: "name \<in> set names" "p \<in> entry_files fs extension directory name"
      by blast
    then have d: "name \<notin> {''.'', ''..''}" by (auto simp: entry_files_def dot_entry_iff)
    then consider "fs_is_dir fs (below directory name) = Some True"
        "file_below fs extension (below directory name) p"
      | stem where "fs_is_dir fs (below directory name) = Some False" "name = stem @ extension"
        "p = below directory name"
      using n(2) by (cases "fs_is_dir fs (below directory name)")
        (auto simp: entry_files_def has_extension_iff split: bool.splits if_splits)
    then show "file_below fs extension directory p"
    proof cases
      case 1
      then show ?thesis using deeper [OF Some n(1) d] by simp
    next
      case 2
      then show ?thesis using here [OF Some, of stem] n(1) d by simp
    qed
  qed
  with Some show ?thesis by auto
qed

text \<open>Paths of different entries differ.\<close>

lemma file_below_path: "file_below fs extension d p \<Longrightarrow> \<exists>r. p = below d r"
  by (induction rule: file_below.induct) (auto simp: below_def)

lemma entry_files_path:
  "p \<in> entry_files fs extension d name \<Longrightarrow> p = below d name \<or> (\<exists>r. p = below d (name @ CHR ''/'' # r))"
  by (auto simp: entry_files_def below_def split: if_splits option.splits bool.splits
      dest!: file_below_path)

lemma same_head:
  assumes "a @ s = b @ t" "CHR ''/'' \<notin> set a" "CHR ''/'' \<notin> set b"
    and "s = [] \<or> hd s = CHR ''/''" "t = [] \<or> hd t = CHR ''/''"
  shows "a = b"
proof -
  have "takeWhile (\<lambda>c. c \<noteq> CHR ''/'') (u @ v) = u"
    if "CHR ''/'' \<notin> set u" "v = [] \<or> hd v = CHR ''/''" for u v :: string
    using that by (subst takeWhile_append2) (auto, cases v, auto)
  from this [of a s] this [of b t] assms show ?thesis by simp
qed

lemma entry_files_disjoint:
  assumes "p \<in> entry_files fs extension d a" "p \<in> entry_files fs extension d b"
    and "CHR ''/'' \<notin> set a" "CHR ''/'' \<notin> set b"
  shows "a = b"
proof -
  obtain s t where "p = below d (a @ s)" "p = below d (b @ t)"
    "s = [] \<or> hd s = CHR ''/''" "t = [] \<or> hd t = CHR ''/''"
    using entry_files_path [OF assms(1)] entry_files_path [OF assms(2)]
    by (metis append_Nil2 list.sel(1))
  then show ?thesis using same_head [of a s b t] assms(3,4) by (simp add: below_def)
qed

section \<open>What the code collects\<close>

definition collects :: "path_list \<Rightarrow> path_list \<Rightarrow> string set \<Rightarrow> bool" where
  "collects acc out P \<longleftrightarrow> (\<exists>new. pl_paths out = pl_paths acc @ new \<and> set new = P \<and> distinct new)"

lemma collects_nothing: "collects acc acc {}"
  by (simp add: collects_def)

lemma collects_more:
  "collects acc mid P \<Longrightarrow> collects mid out Q \<Longrightarrow> P \<inter> Q = {} \<Longrightarrow> collects acc out (P \<union> Q)"
  unfolding collects_def by (elim exE, rule exI [where x = "a @ b" for a b]) auto

lemma push_collects: "path_list_push fs acc path = Listed out \<Longrightarrow> collects acc out {path}"
  by (auto simp: path_list_push_def path_list_grow_def collects_def Let_def split: fs_result.splits if_splits)

lemma push_null: "path_list_push fs acc path = Null_Write \<Longrightarrow> \<exists>n b. \<not> fs_alloc fs n b"
  by (auto simp: path_list_push_def path_list_grow_def Let_def split: fs_result.splits if_splits)

lemma push_not_deep: "path_list_push fs acc path \<noteq> Too_Deep"
  by (auto simp: path_list_push_def path_list_grow_def Let_def split: fs_result.splits if_splits)

lemma collect_entries_collects:
  assumes "\<And>name acc b out. name \<in> set names \<Longrightarrow> \<not> dot_entry name \<Longrightarrow> fs_is_dir fs (below d name) = Some True
      \<Longrightarrow> walk (below d name) acc = Listed (b, out) \<Longrightarrow> collects acc out {p. file_below fs extension (below d name) p}"
    and "\<And>name. name \<in> set names \<Longrightarrow> entry_path d name = below d name"
    and "distinct names" "\<forall>name \<in> set names. CHR ''/'' \<notin> set name"
    and "collect_entries walk fs d extension names acc = Listed out"
  shows "collects acc out (\<Union> (entry_files fs extension d ` set names))"
  using assms
proof (induction names arbitrary: acc)
  case Nil
  then show ?case by (simp add: collects_nothing)
next
  case (Cons name names)
  have IH: "collects mid out (\<Union> (entry_files fs extension d ` set names))"
    if "collect_entries walk fs d extension names mid = Listed out" for mid
    by (rule Cons.IH [OF Cons.prems(1,2) _ _ that]) (use Cons.prems in auto)
  have p: "entry_path d name = below d name" using Cons.prems(2) by simp
  have "entry_files fs extension d name \<inter> \<Union> (entry_files fs extension d ` set names) = {}"
    using Cons.prems(3,4) entry_files_disjoint [of _ fs extension d name] by auto
  then have join: "collects acc out (\<Union> (entry_files fs extension d ` set (name # names)))"
    if "collects acc mid (entry_files fs extension d name)"
      "collect_entries walk fs d extension names mid = Listed out" for mid
    using collects_more [OF that(1) IH [OF that(2)]] by simp
  show ?case
  proof (cases "dot_entry name \<or> fs_is_dir fs (below d name) = None
      \<or> fs_is_dir fs (below d name) = Some False \<and> \<not> has_extension name extension")
    case True
    then have "entry_files fs extension d name = {}" by (auto simp: entry_files_def)
    moreover have "collect_entries walk fs d extension names acc = Listed out"
      using Cons.prems(5) True by (auto simp: p split: if_splits)
    ultimately show ?thesis using join [of acc] by (simp add: collects_nothing)
  next
    case other: False
    show ?thesis
    proof (cases "fs_is_dir fs (below d name) = Some True")
      case True
      then obtain b mid where w: "walk (below d name) acc = Listed (b, mid)"
        "collect_entries walk fs d extension names mid = Listed out"
        using Cons.prems(5) other by (auto simp: p Let_def split: fs_result.splits)
      have "entry_files fs extension d name = {p. file_below fs extension (below d name) p}"
        using True other by (simp add: entry_files_def)
      then show ?thesis using join [OF _ w(2)] Cons.prems(1) [OF _ _ True w(1)] other by simp
    next
      case False
      then have f: "fs_is_dir fs (below d name) = Some False" "has_extension name extension"
        using other by (cases "fs_is_dir fs (below d name)"; auto)+
      then obtain mid where w: "path_list_push fs acc (below d name) = Listed mid"
        "collect_entries walk fs d extension names mid = Listed out"
        using Cons.prems(5) other by (auto simp: p Let_def split: fs_result.splits)
      have "entry_files fs extension d name = {below d name}"
        using f other by (simp add: entry_files_def)
      then show ?thesis using join [OF _ w(2)] push_collects [OF w(1)] by simp
    qed
  qed
qed

lemma collect_files_collects:
  assumes "proper_entries fs"
  shows "paths_fit fs d \<Longrightarrow> collect_files fs extension fuel d acc = Listed (b, out)
    \<Longrightarrow> collects acc out {p. file_below fs extension d p}"
proof (induction fuel arbitrary: d acc b out)
  case (Suc fuel)
  show ?case
  proof (cases "fs_entries fs d")
    case None
    with Suc.prems show ?thesis by (simp add: file_below_entries collects_nothing)
  next
    case (Some names)
    then have c: "collect_entries (collect_files fs extension fuel) fs d extension names acc = Listed out"
      using Suc.prems
        by (cases "collect_entries (collect_files fs extension fuel) fs d extension names acc") simp_all
    have "collects acc out (\<Union> (entry_files fs extension d ` set names))"
    proof (rule collect_entries_collects [OF _ _ _ _ c])
      show "collects a o' {p. file_below fs extension (below d name) p}"
        if "name \<in> set names" "\<not> dot_entry name" "fs_is_dir fs (below d name) = Some True"
          "collect_files fs extension fuel (below d name) a = Listed (b', o')" for name a b' o'
        using Suc.IH that paths_fit_entry(2) [OF Suc.prems(1) Some] by (simp add: dot_entry_iff)
    qed (use assms Some paths_fit_entry(1) [OF Suc.prems(1) Some] in \<open>auto simp: proper_entries_def\<close>)
    then show ?thesis using Some by (simp add: file_below_entries)
  qed
qed simp

lemma map_fs_result_iff [simp]:
  "map_fs_result f r = Listed y \<longleftrightarrow> (\<exists>x. r = Listed x \<and> y = f x)"
  "map_fs_result f r = Null_Write \<longleftrightarrow> r = Null_Write" "map_fs_result f r = Too_Deep \<longleftrightarrow> r = Too_Deep"
  by (cases r; auto)+

lemma collect_files_readable:
  "collect_files fs extension fuel d acc = Listed (b, out) \<Longrightarrow> b \<longleftrightarrow> fs_entries fs d \<noteq> None"
  by (cases fuel) (auto split: option.splits)

lemma collect_entries_null:
  assumes "\<And>path acc. walk path acc = Null_Write \<Longrightarrow> \<exists>n b. \<not> fs_alloc fs n b"
  shows "collect_entries walk fs d extension names acc = Null_Write \<Longrightarrow> \<exists>n b. \<not> fs_alloc fs n b"
  by (induction names arbitrary: acc)
    (auto simp: Let_def split: if_splits option.splits bool.splits fs_result.splits dest: assms push_null)

lemma collect_files_null:
  "collect_files fs extension fuel d acc = Null_Write \<Longrightarrow> \<exists>n b. \<not> fs_alloc fs n b"
proof (induction fuel arbitrary: d acc)
  case (Suc fuel)
  then show ?case
    using collect_entries_null [where walk = "collect_files fs extension fuel" and fs = fs]
    by (auto split: option.splits)
qed simp

section \<open>Ending\<close>

text \<open>Fuel above the rank of the directory is enough.\<close>

lemma collect_entries_not_deep:
  assumes "\<And>name acc. name \<in> set names \<Longrightarrow> \<not> dot_entry name \<Longrightarrow>
      fs_is_dir fs (below d name) = Some True \<Longrightarrow> walk (below d name) acc \<noteq> Too_Deep"
    and "\<And>name. name \<in> set names \<Longrightarrow> entry_path d name = below d name"
  shows "collect_entries walk fs d extension names acc \<noteq> Too_Deep"
  using assms
proof (induction names arbitrary: acc)
  case (Cons name names)
  have step: "collect_entries walk fs d extension names l \<noteq> Too_Deep" for l
    by (rule Cons.IH) (use Cons.prems in auto)
  have p: "entry_path d name = below d name" using Cons.prems(2) by simp
  show ?case
  proof (cases "\<not> dot_entry name \<and> fs_is_dir fs (below d name) = Some True")
    case True
    then show ?thesis using Cons.prems(1) [of name acc] step
      by (auto simp: p Let_def split: fs_result.splits)
  next
    case False
    then show ?thesis using step push_not_deep [of fs acc]
      by (cases "fs_is_dir fs (below d name)") (auto simp: p Let_def split: fs_result.splits)
  qed
qed simp

lemma collect_files_not_deep:
  "ranked fs rank \<Longrightarrow> paths_fit fs d \<Longrightarrow> rank d < fuel \<Longrightarrow> collect_files fs extension fuel d acc \<noteq> Too_Deep"
proof (induction fuel arbitrary: d acc)
  case (Suc fuel)
  show ?case
  proof (cases "fs_entries fs d")
    case (Some names)
    have "collect_entries (collect_files fs extension fuel) fs d extension names acc \<noteq> Too_Deep"
    proof (rule collect_entries_not_deep)
      show "collect_files fs extension fuel (below d name) l \<noteq> Too_Deep"
        if "name \<in> set names" "\<not> dot_entry name" "fs_is_dir fs (below d name) = Some True" for name l
      proof -
        have "rank (below d name) < rank d"
          using Suc.prems(1) Some that by (auto simp: ranked_def dot_entry_iff)
        with Suc.prems paths_fit_entry(2) [OF Suc.prems(2) Some that(1)] that show ?thesis
          by (intro Suc.IH) (auto simp: dot_entry_iff)
      qed
    qed (rule paths_fit_entry(1) [OF Suc.prems(2) Some])
    then show ?thesis using Some by simp
  qed simp
qed simp

section \<open>The listing\<close>

text \<open>The text between newlines.\<close>

fun lines_of :: "string \<Rightarrow> string list" where
  "lines_of [] = []"
| "lines_of (c # cs) =
    (if c = line_feed then [] # lines_of cs
     else case lines_of cs of [] \<Rightarrow> [[c]] | l # ls \<Rightarrow> (c # l) # ls)"

lemma lines_of_append: "line_feed \<notin> set l \<Longrightarrow> lines_of (l @ line_feed # r) = l # lines_of r"
  by (induction l) auto

lemma lines_of_concat:
  "\<forall>l \<in> set ls. line_feed \<notin> set l \<Longrightarrow> lines_of (joined_lines ls) = ls"
  by (induction ls) (simp_all add: joined_lines_def lines_of_append)

text \<open>C39: The listing ends, and its lines are in byte order and without repetition exactly the paths
  of the files below the directory whose names end in the extension; there is no listing exactly
  when the directory cannot be read. A failed request of memory, which the code does not notice, is a
  write through a null pointer, and only that keeps the listing from coming out. The file system has no
  directory cycles, gives each entry of a directory once and without a slash in its name, and no path
  below the directory has a line feed in it or is longer than 1023 characters.\<close>

theorem list_files_exact:
  assumes "ranked fs rank" "rank directory < fuel" "proper_entries fs" "paths_fit fs directory"
    and "\<forall>p. file_below fs extension directory p \<longrightarrow> line_feed \<notin> set p"
  shows "(list_files fs fuel directory extension = Null_Write \<and> (\<exists>n b. \<not> fs_alloc fs n b))
    \<or> (\<exists>r. list_files fs fuel directory extension = Listed r
        \<and> (r = None \<longleftrightarrow> fs_entries fs directory = None)
        \<and> (\<forall>t. r = Some t \<longrightarrow> sorted (lines_of t) \<and> distinct (lines_of t)
            \<and> set (lines_of t) = {p. file_below fs extension directory p}))"
proof (cases "collect_files fs extension fuel directory empty_path_list")
  case Too_Deep
  then show ?thesis using collect_files_not_deep [OF assms(1,4,2)] by blast
next
  case Null_Write
  then show ?thesis using collect_files_null by (simp add: list_files_def)
next
  case (Listed x)
  then obtain b out where c: "collect_files fs extension fuel directory empty_path_list = Listed (b, out)"
    by (cases x) simp
  have paths: "distinct (pl_paths out)" "set (pl_paths out) = {p. file_below fs extension directory p}"
    using collect_files_collects [OF assms(3,4) c] by (auto simp: collects_def empty_path_list_def)
  then have "lines_of (joined_lines (sort (pl_paths out))) = sort (pl_paths out)"
    using assms(5) by (intro lines_of_concat) auto
  then show ?thesis
    using c collect_files_readable [OF c] paths by (auto simp: list_files_def Let_def)
qed

definition sample_fs :: fs_api where
  "sample_fs = \<lparr>
    fs_entries = (\<lambda>d. if d = ''p'' then Some [''.'', ''..'', ''q'', ''b.dj'', ''x'']
                     else if d = ''p/q'' then Some [''a.dj''] else None),
    fs_is_dir = (\<lambda>p. if p = ''p/q'' then Some True
                    else if p \<in> {''p/b.dj'', ''p/q/a.dj'', ''p/x''} then Some False else None),
    fs_alloc = (\<lambda>n b. b < 1000)\<rparr>"

lemma sample_entries:
  "fs_entries sample_fs d = Some names \<Longrightarrow> d = ''p'' \<and> names = [''.'', ''..'', ''q'', ''b.dj'', ''x'']
    \<or> d = ''p/q'' \<and> names = [''a.dj'']"
  by (auto simp: sample_fs_def split: if_splits)

lemma sample_fs_hypotheses:
  "ranked sample_fs (\<lambda>d. if d = ''p'' then 1 else 0)" "proper_entries sample_fs" "paths_fit sample_fs ''p''"
  "\<forall>p. file_below sample_fs ext ''p'' p \<longrightarrow> line_feed \<notin> set p"
proof -
  show "ranked sample_fs (\<lambda>d. if d = ''p'' then 1 else 0)"
    unfolding ranked_def
    by (auto dest!: sample_entries simp: below_def sample_fs_def split: if_splits)
  show "proper_entries sample_fs"
    unfolding proper_entries_def by (auto dest!: sample_entries)
  show "paths_fit sample_fs ''p''"
    unfolding paths_fit_def by (auto dest!: sample_entries simp: below_def)
  have n: "fs_is_dir sample_fs p = Some False \<Longrightarrow> line_feed \<notin> set p" for p
    by (auto simp: sample_fs_def line_feed_def split: if_splits)
  have "file_below sample_fs ext d p \<Longrightarrow> line_feed \<notin> set p" for d p
    by (induction rule: file_below.induct) (auto simp: n)
  then show "\<forall>p. file_below sample_fs ext ''p'' p \<longrightarrow> line_feed \<notin> set p" by blast
qed

lemma list_files_exact_witness:
  "\<exists>t. list_files sample_fs 2 ''p'' ''.dj'' = Listed (Some t) \<and> sorted (lines_of t) \<and> distinct (lines_of t)
    \<and> lines_of t = [''p/b.dj'', ''p/q/a.dj'']"
proof -
  have l: "list_files sample_fs 2 ''p'' ''.dj''
      = Listed (Some (''p/b.dj'' @ line_feed # ''p/q/a.dj'' @ [line_feed]))"
    by code_simp
  have "lines_of (''p/b.dj'' @ line_feed # ''p/q/a.dj'' @ [line_feed]) = [''p/b.dj'', ''p/q/a.dj'']"
    by code_simp
  then show ?thesis
    using list_files_exact [OF sample_fs_hypotheses(1) _ sample_fs_hypotheses(2,3,4), of 2 "''.dj''"] l by simp
qed

text \<open>A refused request while the list grows is a write through a null pointer.\<close>

lemma failed_request_writes_null:
  "list_files (sample_fs\<lparr>fs_alloc := \<lambda>n b. n \<noteq> 2\<rparr>) 2 ''p'' ''.dj'' = Null_Write"
  by code_simp

end
