(* ===== verification/Shadow_Stack.thy ===== *)
theory Shadow_Stack
  imports Runtime_Text
begin

text \<open>
  What the runtime (\<^verbatim>\<open>src/runtime/djinn_runtime.c\<close>) records for its error reports while a
  program runs: the shadow call stack the generated code pushes and pops
  (\<^verbatim>\<open>__djinn_frame_push\<close>, \<^verbatim>\<open>__djinn_frame_pop\<close>, \<^verbatim>\<open>__djinn_frame_set_line\<close>), its
  snapshot at a throw (\<^verbatim>\<open>__djinn_capture_error_stack\<close>), and the last assignments of the
  tracked variables (\<^verbatim>\<open>__djinn_var_track\<close>). A \<^verbatim>\<open>const char*\<close> that may be null is a
  \<^verbatim>\<open>string option\<close>; an address is a number, 0 the null pointer. The number of assignments is
  an \<^verbatim>\<open>int\<close>, whose overflow, undefined in C, is \<^const>\<open>None\<close>.
\<close>

section \<open>The shadow call stack\<close>

definition MAX_FRAMES :: nat where
  "MAX_FRAMES = 256"

record frame =
  fr_function :: "string option"
  fr_file :: "string option"
  fr_line :: u32

text \<open>The array of frames, the number in use, and whether a push was dropped.\<close>

record shadow_stack =
  ss_frames :: "frame list"
  ss_depth :: nat
  ss_overflowed :: bool

definition no_frame :: frame where
  "no_frame = \<lparr>fr_function = None, fr_file = None, fr_line = 0\<rparr>"

definition empty_stack :: shadow_stack where
  "empty_stack = \<lparr>ss_frames = replicate MAX_FRAMES no_frame, ss_depth = 0, ss_overflowed = False\<rparr>"

definition frame_push ::
    "string option \<Rightarrow> string option \<Rightarrow> u32 \<Rightarrow> shadow_stack \<Rightarrow> shadow_stack" where
  "frame_push function_name file_name line s =
    (if MAX_FRAMES \<le> ss_depth s then s\<lparr>ss_overflowed := True\<rparr>
     else s\<lparr>ss_frames := (ss_frames s)[ss_depth s :=
              \<lparr>fr_function = function_name, fr_file = file_name, fr_line = line\<rparr>],
            ss_depth := Suc (ss_depth s)\<rparr>)"

definition frame_pop :: "shadow_stack \<Rightarrow> shadow_stack" where
  "frame_pop s = (if 0 < ss_depth s then s\<lparr>ss_depth := ss_depth s - 1\<rparr> else s)"

definition frame_set_line :: "u32 \<Rightarrow> shadow_stack \<Rightarrow> shadow_stack" where
  "frame_set_line line s =
    (if 0 < ss_depth s
     then s\<lparr>ss_frames := (ss_frames s)[ss_depth s - 1 :=
              (ss_frames s ! (ss_depth s - 1))\<lparr>fr_line := line\<rparr>]\<rparr>
     else s)"

text \<open>The snapshot: frames and depth of the stack at the throw, its own array kept beyond them.\<close>

record error_stack =
  es_frames :: "frame list"
  es_depth :: nat

definition capture_error_stack ::
    "u32 \<Rightarrow> shadow_stack \<times> error_stack \<Rightarrow> shadow_stack \<times> error_stack" where
  "capture_error_stack line st =
    (let s = frame_set_line line (fst st)
     in (s, \<lparr>es_frames = take (ss_depth s) (ss_frames s) @ drop (ss_depth s) (es_frames (snd st)),
             es_depth = ss_depth s\<rparr>))"

text \<open>The frames in use, outermost first.\<close>

definition live :: "shadow_stack \<Rightarrow> frame list" where
  "live s = take (ss_depth s) (ss_frames s)"

definition stack_ok :: "shadow_stack \<Rightarrow> bool" where
  "stack_ok s \<longleftrightarrow> length (ss_frames s) = MAX_FRAMES \<and> ss_depth s \<le> MAX_FRAMES"

lemma stack_ok_empty [simp]: "stack_ok empty_stack"
  by (simp add: stack_ok_def empty_stack_def)

lemma live_empty [simp]: "live empty_stack = []"
  by (simp add: live_def empty_stack_def)

lemma length_live: "stack_ok s \<Longrightarrow> length (live s) = ss_depth s"
  by (simp add: live_def stack_ok_def)

lemma stack_ok_steps:
  "stack_ok s \<Longrightarrow> stack_ok (frame_push f g l s)"
  "stack_ok s \<Longrightarrow> stack_ok (frame_pop s)"
  "stack_ok s \<Longrightarrow> stack_ok (frame_set_line l s)"
  by (auto simp: stack_ok_def frame_push_def frame_pop_def frame_set_line_def)

lemma live_push:
  assumes "stack_ok s"
  shows "live (frame_push f g l s) =
    (if length (live s) = MAX_FRAMES then live s
     else live s @ [\<lparr>fr_function = f, fr_file = g, fr_line = l\<rparr>])"
  using assms unfolding length_live [OF assms]
  by (auto simp: live_def frame_push_def stack_ok_def take_Suc_conv_app_nth)

lemma live_pop: "stack_ok s \<Longrightarrow> live (frame_pop s) = butlast (live s)"
  by (auto simp: live_def frame_pop_def stack_ok_def butlast_take)

lemma live_set_line:
  assumes "stack_ok s"
  shows "live (frame_set_line l s) =
    (if live s = [] then [] else butlast (live s) @ [(last (live s))\<lparr>fr_line := l\<rparr>])"
proof (cases "ss_depth s = 0")
  case True
  then show ?thesis by (simp add: live_def frame_set_line_def)
next
  case False
  then obtain d where d: "ss_depth s = Suc d" by (cases "ss_depth s") auto
  with assms have "d < length (ss_frames s)" by (simp add: stack_ok_def)
  then have "live s = take d (ss_frames s) @ [ss_frames s ! d]"
    using d by (simp add: live_def take_Suc_conv_app_nth)
  then show ?thesis
    using d \<open>d < length (ss_frames s)\<close>
    by (simp add: live_def frame_set_line_def take_Suc_conv_app_nth)
qed

section \<open>A run of the generated code\<close>

text \<open>What instrumented code calls, and the list of active calls it means.\<close>

datatype frame_op = Enter "string option" "string option" u32 | Leave | At_Line u32

fun stack_step :: "frame_op \<Rightarrow> shadow_stack \<Rightarrow> shadow_stack" where
  "stack_step (Enter f g l) s = frame_push f g l s"
| "stack_step Leave s = frame_pop s"
| "stack_step (At_Line l) s = frame_set_line l s"

fun calls_step :: "frame_op \<Rightarrow> frame list \<Rightarrow> frame list" where
  "calls_step (Enter f g l) c = c @ [\<lparr>fr_function = f, fr_file = g, fr_line = l\<rparr>]"
| "calls_step Leave c = butlast c"
| "calls_step (At_Line l) c = (if c = [] then [] else butlast c @ [(last c)\<lparr>fr_line := l\<rparr>])"

fun calls_fit :: "frame_op list \<Rightarrow> frame list \<Rightarrow> bool" where
  "calls_fit [] c \<longleftrightarrow> length c \<le> MAX_FRAMES"
| "calls_fit (a # as) c \<longleftrightarrow> length c \<le> MAX_FRAMES \<and> calls_fit as (calls_step a c)"

lemma stack_ok_step: "stack_ok s \<Longrightarrow> stack_ok (stack_step a s)"
  by (cases a) (simp_all add: stack_ok_steps)

lemma stack_ok_run: "stack_ok s \<Longrightarrow> stack_ok (fold stack_step as s)"
  by (induction as arbitrary: s) (simp_all add: stack_ok_step)

lemma calls_fit_length: "calls_fit as c \<Longrightarrow> length c \<le> MAX_FRAMES"
  by (cases as) simp_all

lemma stack_step_refines:
  "stack_ok s \<Longrightarrow> length (calls_step a (live s)) \<le> MAX_FRAMES
    \<Longrightarrow> live (stack_step a s) = calls_step a (live s)"
  by (cases a) (simp_all add: live_push live_pop live_set_line)

lemma stack_run_refines:
  "stack_ok s \<Longrightarrow> calls_fit as (live s) \<Longrightarrow> live (fold stack_step as s) = fold calls_step as (live s)"
proof (induction as arbitrary: s)
  case (Cons a as)
  then have "live (stack_step a s) = calls_step a (live s)"
    by (intro stack_step_refines calls_fit_length [of as]) simp_all
  with Cons show ?case by (simp add: stack_ok_step)
qed simp

text \<open>C20: While no more than 256 calls are active, the frames of the shadow stack are the active calls
  with their current lines, whatever was pushed and popped before.\<close>

theorem shadow_stack_tracks_calls:
  assumes "calls_fit ops []"
  shows "live (fold stack_step ops empty_stack) = fold calls_step ops []"
  using stack_run_refines [of empty_stack ops] assms by simp

lemma shadow_stack_tracks_calls_witness:
  "calls_fit [Enter (Some ''main'') None 1, At_Line 4, Enter (Some ''f'') None 9, Leave] []
   \<and> live (fold stack_step [Enter (Some ''main'') None 1, At_Line 4, Enter (Some ''f'') None 9, Leave]
       empty_stack) = [\<lparr>fr_function = Some ''main'', fr_file = None, fr_line = 4\<rparr>]"
proof -
  have f: "calls_fit [Enter (Some ''main'') None 1, At_Line 4, Enter (Some ''f'') None 9, Leave] []"
    by (simp add: MAX_FRAMES_def)
  show ?thesis using shadow_stack_tracks_calls [OF f] f by simp
qed

text \<open>A push on the full stack is dropped, and the pop that belongs to it removes an older frame.\<close>

lemma dropped_pushes:
  "ss_depth s = MAX_FRAMES \<Longrightarrow> live ((frame_push f g l ^^ k) s) = live s
    \<and> ss_depth ((frame_push f g l ^^ k) s) = MAX_FRAMES
    \<and> ss_frames ((frame_push f g l ^^ k) s) = ss_frames s"
  by (induction k) (simp_all add: frame_push_def live_def)

lemma pops: "k \<le> ss_depth s \<Longrightarrow> live ((frame_pop ^^ k) s) = take (ss_depth s - k) (ss_frames s)
    \<and> ss_depth ((frame_pop ^^ k) s) = ss_depth s - k \<and> ss_frames ((frame_pop ^^ k) s) = ss_frames s"
  by (induction k) (simp_all add: frame_pop_def live_def)

text \<open>When \<open>k\<close> calls are made on top of 256 active ones and all return, the shadow stack has lost
  \<open>k\<close> frames of calls that are still active, its innermost ones.\<close>

theorem deep_calls_lose_frames:
  assumes "stack_ok s" "ss_depth s = MAX_FRAMES" "k \<le> MAX_FRAMES"
  shows "live ((frame_pop ^^ k) ((frame_push f g l ^^ k) s)) = take (MAX_FRAMES - k) (live s)"
proof -
  note d = dropped_pushes [OF assms(2), of k f g l]
  have "live ((frame_pop ^^ k) ((frame_push f g l ^^ k) s))
      = take (MAX_FRAMES - k) (ss_frames s)"
    using pops [of k "(frame_push f g l ^^ k) s"] d assms(3) by simp
  then show ?thesis using assms by (simp add: live_def)
qed

lemma deep_calls_lose_frames_witness:
  "length (live ((frame_pop ^^ 2) ((frame_push None None 0 ^^ 2)
      (empty_stack\<lparr>ss_depth := MAX_FRAMES\<rparr>)))) = 254"
proof -
  have s: "stack_ok (empty_stack\<lparr>ss_depth := MAX_FRAMES\<rparr>)"
    by (simp add: stack_ok_def empty_stack_def)
  show ?thesis
    using deep_calls_lose_frames [OF s, of 2 None None 0] length_live [OF s]
    by (simp add: MAX_FRAMES_def)
qed

section \<open>Assignment history\<close>

definition MAX_TRACKED_VARS :: nat where
  "MAX_TRACKED_VARS = 128"

definition VAR_HISTORY :: nat where
  "VAR_HISTORY = 2"

record var_event =
  ve_line_text :: "string option"
  ve_line :: u32

text \<open>The count of a tracked variable is the length of its list of events, newest last; the total of all
  assignments is a C \<^verbatim>\<open>int\<close>, whose increment at its largest value is undefined.\<close>

type_synonym i32 = "32 word"

definition INT_MAX :: int where
  "INT_MAX = 2147483647"

definition increment_int :: "i32 \<Rightarrow> i32 option" where
  "increment_int x = (if sint x = INT_MAX then None else Some (x + 1))"

record tracked_var =
  tv_slot :: nat
  tv_name :: "string option"
  tv_events :: "var_event list"
  tv_total :: i32

text \<open>The search from the last entry down; \<open>n\<close> entries are left to look at.\<close>

fun find_index :: "tracked_var list \<Rightarrow> nat \<Rightarrow> nat \<Rightarrow> nat option" where
  "find_index vars slot 0 = None"
| "find_index vars slot (Suc i) =
    (if tv_slot (vars ! i) = slot then Some i else find_index vars slot i)"

definition find_tracked :: "nat \<Rightarrow> tracked_var list \<Rightarrow> tracked_var option" where
  "find_tracked slot vars =
    (if slot = 0 then None
     else map_option (\<lambda>i. vars ! i) (find_index vars slot (length vars)))"

text \<open>Recording one event: the older of two entries makes room. \<^const>\<open>None\<close> is undefined behaviour.\<close>

definition record_event :: "var_event \<Rightarrow> tracked_var \<Rightarrow> tracked_var option" where
  "record_event e var =
    (let events = (if length (tv_events var) = VAR_HISTORY then [tv_events var ! 1] else tv_events var)
     in map_option (\<lambda>n. var\<lparr>tv_events := events @ [e], tv_total := n\<rparr>) (increment_int (tv_total var)))"

definition var_track ::
    "nat \<Rightarrow> string option \<Rightarrow> string option \<Rightarrow> u32 \<Rightarrow> tracked_var list \<Rightarrow> tracked_var list option" where
  "var_track slot name line_text line vars =
    (if slot = 0 then Some vars
     else let e = \<lparr>ve_line_text = line_text, ve_line = line\<rparr> in
       case find_index vars slot (length vars) of
         Some i \<Rightarrow> map_option (\<lambda>v. vars[i := v]) (record_event e (vars ! i))
       | None \<Rightarrow>
           if MAX_TRACKED_VARS \<le> length vars then Some vars
           else map_option (\<lambda>v. vars @ [v]) (record_event e
             \<lparr>tv_slot = slot, tv_name = name, tv_events = [], tv_total = 0\<rparr>))"

text \<open>An assignment as the generated code reports it.\<close>

record assignment =
  as_slot :: nat
  as_name :: "string option"
  as_text :: "string option"
  as_line :: u32

definition track :: "assignment \<Rightarrow> tracked_var list \<Rightarrow> tracked_var list option" where
  "track a vars = var_track (as_slot a) (as_name a) (as_text a) (as_line a) vars"

fun track_all :: "assignment list \<Rightarrow> tracked_var list \<Rightarrow> tracked_var list option" where
  "track_all [] vars = Some vars"
| "track_all (a # as) vars = Option.bind (track a vars) (track_all as)"

lemma track_all_snoc: "track_all (as @ [a]) vars = Option.bind (track_all as vars) (track a)"
  by (induction as arbitrary: vars) (auto split: bind_splits)

text \<open>The assignments to one slot as events, and the last two of a list.\<close>

definition events_of :: "nat \<Rightarrow> assignment list \<Rightarrow> var_event list" where
  "events_of slot as = map (\<lambda>a. \<lparr>ve_line_text = as_text a, ve_line = as_line a\<rparr>)
     (filter (\<lambda>a. as_slot a = slot) as)"

definition last_two :: "'a list \<Rightarrow> 'a list" where
  "last_two xs = drop (length xs - 2) xs"

lemma last_two_snoc: "last_two (xs @ [x]) = (if length (last_two xs) = 2 then tl (last_two xs) else last_two xs) @ [x]"
proof (cases xs rule: rev_cases)
  case (snoc ys y)
  show ?thesis
  proof (cases ys rule: rev_cases)
    case (snoc zs z)
    with \<open>xs = ys @ [y]\<close> show ?thesis by (simp add: last_two_def)
  qed (simp add: last_two_def \<open>xs = ys @ [y]\<close>)
qed (simp add: last_two_def)

lemma find_index_Some:
  "find_index vars slot n = Some i \<Longrightarrow> i < n \<and> tv_slot (vars ! i) = slot"
  by (induction n) (auto split: if_splits)

lemma find_index_None:
  "find_index vars slot n = None \<longleftrightarrow> (\<forall>i < n. tv_slot (vars ! i) \<noteq> slot)"
  by (induction n) (auto simp: less_Suc_eq)

text \<open>What the registry holds after the assignments \<open>as\<close>.\<close>

definition registry_of :: "assignment list \<Rightarrow> tracked_var list \<Rightarrow> bool" where
  "registry_of as vars \<longleftrightarrow> distinct (map tv_slot vars) \<and> 0 \<notin> set (map tv_slot vars)
    \<and> set (map tv_slot vars) = {s \<in> set (map as_slot as). s \<noteq> 0}
    \<and> (\<forall>v \<in> set vars. tv_events v = last_two (events_of (tv_slot v) as)
        \<and> sint (tv_total v) = int (length (events_of (tv_slot v) as)))"

lemma events_of_snoc [simp]:
  "events_of slot (as @ [a]) = events_of slot as
    @ (if as_slot a = slot then [\<lparr>ve_line_text = as_text a, ve_line = as_line a\<rparr>] else [])"
  by (simp add: events_of_def)

lemma increment_int_exact:
  "sint x = int n \<Longrightarrow> int n < INT_MAX \<Longrightarrow> \<exists>y. increment_int x = Some y \<and> sint y = int (Suc n)"
  by (simp add: increment_int_def INT_MAX_def sint_word_add signed_take_bit_int_eq_self)

lemma record_event_last_two:
  assumes "tv_events v = last_two es" "sint (tv_total v) = int (length es)" "int (length es) < INT_MAX"
  obtains w where "record_event e v = Some w" "tv_events w = last_two (es @ [e])"
    "sint (tv_total w) = int (length (es @ [e]))" "tv_slot w = tv_slot v"
proof -
  have two: "[xs ! 1] = tl xs" if "length xs = 2" for xs :: "var_event list"
  proof -
    from that obtain a b where "xs = [a, b]"
      by (auto simp: length_Suc_conv numeral_2_eq_2)
    then show ?thesis by simp
  qed
  obtain y where y: "increment_int (tv_total v) = Some y" "sint y = int (Suc (length es))"
    using increment_int_exact assms(2,3) by blast
  show thesis
    by (rule that [of "v\<lparr>tv_events := last_two (es @ [e]), tv_total := y\<rparr>"])
      (use assms(1) y two in \<open>simp_all add: record_event_def last_two_snoc VAR_HISTORY_def Let_def\<close>)
qed

lemma registry_track:
  assumes reg: "registry_of as vars"
    and room: "card {s \<in> set (map as_slot (as @ [a])). s \<noteq> 0} \<le> MAX_TRACKED_VARS"
    and few: "int (length (events_of (as_slot a) as)) < INT_MAX"
  obtains vars' where "track a vars = Some vars'" "registry_of (as @ [a]) vars'"
proof (cases "as_slot a = 0")
  case True
  then have "track a vars = Some vars" "registry_of (as @ [a]) vars"
    using reg by (auto simp: registry_of_def track_def var_track_def)
  then show ?thesis by (rule that)
next
  case False
  let ?e = "\<lparr>ve_line_text = as_text a, ve_line = as_line a\<rparr>"
  show ?thesis
  proof (cases "find_index vars (as_slot a) (length vars)")
    case None
    have new: "as_slot a \<notin> set (map tv_slot vars)"
      using None by (auto simp: find_index_None in_set_conv_nth)
    have "set (map tv_slot vars) = {s \<in> set (map as_slot as). s \<noteq> 0}"
      using reg by (simp add: registry_of_def)
    with new False have "as_slot a \<notin> set (map as_slot as)" by blast
    then have fresh: "events_of (as_slot a) as = []"
      by (force simp: events_of_def filter_empty_conv image_iff)
    have "{s \<in> set (map as_slot (as @ [a])). s \<noteq> 0} = insert (as_slot a) (set (map tv_slot vars))"
      using reg False by (auto simp: registry_of_def)
    moreover have "card (set (map tv_slot vars)) = length vars"
      using reg distinct_card [of "map tv_slot vars"] by (simp add: registry_of_def)
    moreover have "card (insert (as_slot a) (set (map tv_slot vars))) = Suc (card (set (map tv_slot vars)))"
      using new by (intro card_insert_disjoint) simp_all
    ultimately have "Suc (length vars) \<le> MAX_TRACKED_VARS" using room by simp
    moreover obtain w where w: "record_event ?e \<lparr>tv_slot = as_slot a, tv_name = as_name a, tv_events = [],
        tv_total = 0\<rparr> = Some w" "tv_events w = last_two ([] @ [?e])" "sint (tv_total w) = int (length ([] @ [?e]))"
        "tv_slot w = as_slot a"
      by (rule record_event_last_two [of "\<lparr>tv_slot = as_slot a, tv_name = as_name a, tv_events = [],
          tv_total = 0\<rparr>" "[]" ?e]) (simp_all add: last_two_def INT_MAX_def)
    ultimately have t: "track a vars = Some (vars @ [w])"
      using None False by (simp add: track_def var_track_def)
    have "\<forall>v \<in> set vars. tv_slot v \<noteq> as_slot a" using new by force
    then have "registry_of (as @ [a]) (vars @ [w])"
      using reg False new fresh w by (auto simp: registry_of_def)
    with t show ?thesis by (rule that)
  next
    case (Some i)
    then have i: "i < length vars" "tv_slot (vars ! i) = as_slot a"
      using find_index_Some by blast+
    have vi: "tv_events (vars ! i) = last_two (events_of (as_slot a) as)"
      "sint (tv_total (vars ! i)) = int (length (events_of (as_slot a) as))"
      using reg i by (auto simp: registry_of_def)
    obtain w where w: "record_event ?e (vars ! i) = Some w"
        "tv_events w = last_two (events_of (as_slot a) as @ [?e])"
        "sint (tv_total w) = int (length (events_of (as_slot a) as @ [?e]))" "tv_slot w = tv_slot (vars ! i)"
      by (rule record_event_last_two [OF vi few])
    let ?vars = "vars[i := w]"
    have t: "track a vars = Some ?vars"
      using Some False w(1) by (simp add: track_def var_track_def)
    have slots: "map tv_slot ?vars = map tv_slot vars"
      using i w(4) by (simp add: map_update list_update_same_conv)
    have "tv_events v = last_two (events_of (tv_slot v) (as @ [a]))
        \<and> sint (tv_total v) = int (length (events_of (tv_slot v) (as @ [a])))" if "v \<in> set ?vars" for v
    proof -
      from that obtain j where j: "j < length vars" "v = ?vars ! j"
        by (auto simp: in_set_conv_nth)
      show ?thesis
      proof (cases "j = i")
        case True
        then show ?thesis using j i w by simp
      next
        case False
        have "map tv_slot vars ! j \<noteq> map tv_slot vars ! i"
          using reg i(1) j(1) False nth_eq_iff_index_eq [of "map tv_slot vars" j i]
          by (simp add: registry_of_def)
        then have "tv_slot (vars ! j) \<noteq> as_slot a" using i j(1) by simp
        then show ?thesis
          using reg j False by (auto simp: registry_of_def)
      qed
    qed
    moreover have "{s \<in> set (map as_slot (as @ [a])). s \<noteq> 0} = {s \<in> set (map as_slot as). s \<noteq> 0}"
    proof -
      have "tv_slot (vars ! i) \<in> set (map tv_slot vars)" using i(1) by simp
      then have "as_slot a \<in> set (map as_slot as)"
        using reg i(2) unfolding registry_of_def by simp
      then have "set (map as_slot (as @ [a])) = set (map as_slot as)" by auto
      then show ?thesis by simp
    qed
    ultimately have "registry_of (as @ [a]) ?vars"
      using reg slots by (simp add: registry_of_def)
    with t show ?thesis by (rule that)
  qed
qed

lemma registry_run:
  "card {s \<in> set (map as_slot as). s \<noteq> 0} \<le> MAX_TRACKED_VARS
    \<Longrightarrow> \<forall>s. int (length (events_of s as)) \<le> INT_MAX
    \<Longrightarrow> \<exists>vars. track_all as [] = Some vars \<and> registry_of as vars"
proof (induction as rule: rev_induct)
  case Nil
  then show ?case by (simp add: registry_of_def)
next
  case (snoc a as)
  have "{s \<in> set (map as_slot as). s \<noteq> 0} \<subseteq> {s \<in> set (map as_slot (as @ [a])). s \<noteq> 0}" by auto
  then have "card {s \<in> set (map as_slot as). s \<noteq> 0} \<le> card {s \<in> set (map as_slot (as @ [a])). s \<noteq> 0}"
    by (rule card_mono [rotated]) simp
  moreover have "int (length (events_of s as)) \<le> INT_MAX" for s
    using snoc.prems(2) [rule_format, of s] by (simp split: if_splits)
  ultimately obtain vars where vars: "track_all as [] = Some vars" "registry_of as vars"
    using snoc by auto
  have "int (length (events_of (as_slot a) as)) < INT_MAX"
    using snoc.prems(2) [rule_format, of "as_slot a"] by simp
  from registry_track [OF vars(2) snoc.prems(1) this] show ?case
    using vars(1) by (metis track_all_snoc bind.bind_lunit)
qed

text \<open>C36: With assignments to at most 128 variables, and at most 2147483647 to each of them, tracking
  is defined, and the history of each assigned variable is its last two assignments in order together
  with the number of all of them. One assignment more to a variable would overflow its counter, an
  int, which is undefined behaviour.\<close>

theorem assignment_history_exact:
  assumes "card {s \<in> set (map as_slot as). s \<noteq> 0} \<le> MAX_TRACKED_VARS"
    and "\<forall>s. int (length (events_of s as)) \<le> INT_MAX"
    and "slot \<noteq> 0" "slot \<in> set (map as_slot as)"
  shows "\<exists>vars v. track_all as [] = Some vars \<and> find_tracked slot vars = Some v
    \<and> tv_events v = last_two (events_of slot as)
    \<and> sint (tv_total v) = int (length (events_of slot as))"
proof -
  obtain vars where t: "track_all as [] = Some vars" and reg: "registry_of as vars"
    using registry_run assms(1,2) by blast
  then have "slot \<in> set (map tv_slot vars)" using assms(3,4) by (auto simp: registry_of_def)
  then have "find_index vars slot (length vars) \<noteq> None"
    by (auto simp: find_index_None in_set_conv_nth)
  then obtain i where i: "find_index vars slot (length vars) = Some i" by blast
  note f = find_index_Some [OF i]
  then show ?thesis
    using t i reg assms(3) by (auto simp: find_tracked_def registry_of_def intro!: exI [of _ "vars ! i"])
qed

lemma counter_overflow:
  "sint (tv_total (vars ! i)) = INT_MAX \<Longrightarrow> find_index vars (as_slot a) (length vars) = Some i
    \<Longrightarrow> as_slot a \<noteq> 0 \<Longrightarrow> track a vars = None"
  by (simp add: track_def var_track_def record_event_def increment_int_def Let_def)

definition sample_assignments :: "assignment list" where
  "sample_assignments = map (\<lambda>l. \<lparr>as_slot = 7, as_name = Some ''a'', as_text = None, as_line = l\<rparr>)
     [1, 2, 3]"

lemma assignment_history_exact_witness:
  "\<exists>vars v. track_all sample_assignments [] = Some vars \<and> find_tracked 7 vars = Some v
    \<and> tv_events v = [\<lparr>ve_line_text = None, ve_line = 2\<rparr>, \<lparr>ve_line_text = None, ve_line = 3\<rparr>]
    \<and> sint (tv_total v) = 3"
proof -
  have "{s \<in> set (map as_slot sample_assignments). s \<noteq> 0} = {7}"
    by (auto simp: sample_assignments_def)
  then have c: "card {s \<in> set (map as_slot sample_assignments). s \<noteq> 0} \<le> MAX_TRACKED_VARS"
    by (simp add: MAX_TRACKED_VARS_def)
  have e: "last_two (events_of 7 sample_assignments)
      = [\<lparr>ve_line_text = None, ve_line = 2\<rparr>, \<lparr>ve_line_text = None, ve_line = 3\<rparr>]"
    "int (length (events_of 7 sample_assignments)) = 3"
    by (simp_all add: events_of_def last_two_def sample_assignments_def)
  have n: "\<forall>s. int (length (events_of s sample_assignments)) \<le> INT_MAX"
    by (simp add: events_of_def sample_assignments_def INT_MAX_def)
  have "7 \<in> set (map as_slot sample_assignments)" by (simp add: sample_assignments_def)
  from assignment_history_exact [OF c n _ this] show ?thesis unfolding e by simp
qed

end
