(* ===== verification/Runtime_Report.thy ===== *)
theory Runtime_Report
  imports Shadow_Stack
begin

text \<open>
  The reports of the runtime (\<^verbatim>\<open>src/runtime/djinn_runtime.c\<close>): the buffer they are printed
  into, the numbers and their bounds, the note that explains an overflow, the source snippet, the
  assignment history, the stack trace, and the functions that assemble them and end the process
  (\<^verbatim>\<open>__djinn_runtime_error\<close>, \<^verbatim>\<open>__djinn_uncaught_error\<close>, \<^verbatim>\<open>__djinn_panic\<close>). A report
  is the C string in the buffer together with the counter \<^verbatim>\<open>used\<close>. Texts are shorter than
  2147483648 characters, so that \<^verbatim>\<open>vsnprintf\<close> returns their length.
\<close>

unbundle bit_operations_syntax

section \<open>The report buffer\<close>

definition ERROR_REPORT_SIZE :: nat where
  "ERROR_REPORT_SIZE = 2048"

record report =
  rp_text :: string
  rp_used :: nat

definition new_report :: report where
  "new_report = \<lparr>rp_text = [], rp_used = 0\<rparr>"

text \<open>
  \<^verbatim>\<open>vsnprintf\<close> with \<open>room\<close> bytes stores \<open>room - 1\<close> characters and the terminator, and
  returns the length of the whole text.
\<close>

definition report_append :: "string \<Rightarrow> report \<Rightarrow> report" where
  "report_append text r =
    (if ERROR_REPORT_SIZE - 1 \<le> rp_used r then r
     else let room = ERROR_REPORT_SIZE - 1 - rp_used r in
       \<lparr>rp_text = rp_text r @ take (room - 1) text,
        rp_used = rp_used r + (if room < length text then room else length text)\<rparr>)"

text \<open>The text is complete up to \<^verbatim>\<open>used\<close>, or it was cut at the last character but one.\<close>

definition report_ok :: "report \<Rightarrow> bool" where
  "report_ok r \<longleftrightarrow> (rp_used r = length (rp_text r) \<and> rp_used r \<le> ERROR_REPORT_SIZE - 2)
     \<or> (rp_used r = ERROR_REPORT_SIZE - 1 \<and> length (rp_text r) = ERROR_REPORT_SIZE - 2)"

lemma report_ok_new [simp]: "report_ok new_report"
  by (simp add: report_ok_def new_report_def)

lemma report_ok_append [simp]: "report_ok r \<Longrightarrow> report_ok (report_append text r)"
  unfolding report_ok_def report_append_def Let_def ERROR_REPORT_SIZE_def
  by (auto simp: min_def)

lemma report_append_fits:
  "report_ok r \<Longrightarrow> length (rp_text r) + length text < ERROR_REPORT_SIZE - 1
    \<Longrightarrow> report_append text r =
      \<lparr>rp_text = rp_text r @ text, rp_used = rp_used r + length text\<rparr>"
  by (auto simp: report_ok_def report_append_def Let_def)

section \<open>Numbers\<close>

definition show_int :: "int \<Rightarrow> string" where
  "show_int k = (if k < 0 then ''-'' @ to_string (nat (- k)) else to_string (nat k))"

text \<open>Storing a character while there is room for it and the terminator.\<close>

definition put_char :: "nat \<Rightarrow> char \<Rightarrow> string \<Rightarrow> string" where
  "put_char limit c out = (if length out + 1 < limit then out @ [c] else out)"

fun group_loop :: "nat \<Rightarrow> nat \<Rightarrow> nat \<Rightarrow> string \<Rightarrow> string \<Rightarrow> string" where
  "group_loop limit num_len i [] out = out"
| "group_loop limit num_len i (c # cs) out =
    group_loop limit num_len (Suc i) cs
      (put_char limit c
        (if 0 < i \<and> (num_len - i) mod 3 = 0 then put_char limit CHR ''.'' out else out))"

definition group_digits :: "string \<Rightarrow> nat \<Rightarrow> string" where
  "group_digits digits limit =
    (let (out, p) = (case digits of
        c # cs \<Rightarrow> (if c = CHR ''-'' \<and> 1 < limit then ([c], cs) else ([], digits))
      | [] \<Rightarrow> ([], digits))
     in group_loop limit (length p) 0 p out)"

text \<open>\<^verbatim>\<open>djinn_error_info_t\<close>; an opcode of 0 is no operation.\<close>

record error_info =
  ei_message :: "string option"
  ei_file :: "string option"
  ei_line_text :: "string option"
  ei_line :: u32
  ei_column :: u32
  ei_length :: u32
  ei_op :: char
  ei_bits :: "8 word"
  ei_is_signed :: bool
  ei_has_operands :: bool
  ei_left :: u64
  ei_right :: u64
  ei_left_var_name :: "string option"
  ei_left_var_slot :: nat
  ei_right_var_name :: "string option"
  ei_right_var_slot :: nat

definition zero_info :: error_info where
  "zero_info = \<lparr>ei_message = None, ei_file = None, ei_line_text = None, ei_line = 0, ei_column = 0,
     ei_length = 0, ei_op = nul, ei_bits = 0, ei_is_signed = False, ei_has_operands = False,
     ei_left = 0, ei_right = 0, ei_left_var_name = None, ei_left_var_slot = 0,
     ei_right_var_name = None, ei_right_var_slot = 0\<rparr>"

definition plain_value :: "bool \<Rightarrow> u64 \<Rightarrow> string" where
  "plain_value is_signed raw = (if is_signed then show_int (sint raw) else to_string (unat raw))"

definition format_value :: "error_info \<Rightarrow> u64 \<Rightarrow> nat \<Rightarrow> string" where
  "format_value info raw limit = group_digits (take 31 (plain_value (ei_is_signed info) raw)) limit"

definition type_max :: "8 word \<Rightarrow> bool \<Rightarrow> u64" where
  "type_max bits is_signed =
    (if \<not> is_signed then (if 64 \<le> bits then 0xFFFFFFFFFFFFFFFF else push_bit (unat bits) 1 - 1)
     else (if 64 \<le> bits then 0x7FFFFFFFFFFFFFFF else push_bit (unat bits - 1) 1 - 1))"

definition type_min :: "8 word \<Rightarrow> u64" where
  "type_min bits = (if 64 \<le> bits then 0x8000000000000000 else push_bit (unat bits - 1) 1)"

definition value_negative :: "error_info \<Rightarrow> u64 \<Rightarrow> bool" where
  "value_negative info raw \<longleftrightarrow> ei_is_signed info \<and> sint raw < 0"

section \<open>The note of an overflow\<close>

text \<open>The result of the operation where 64 bits hold it.\<close>

definition overflow_result :: "error_info \<Rightarrow> u64 option" where
  "overflow_result info =
    (let wide = (64 \<le> ei_bits info); op = ei_op info; l = ei_left info; r = ei_right info in
     if op = CHR ''/'' \<and> \<not> wide then Some (if value_negative info l then NOT l + 1 else l)
     else if op = CHR ''+'' \<and> \<not> wide then Some (l + r)
     else if op = CHR ''-'' \<and> \<not> wide then Some (l - r)
     else if op = CHR ''*'' \<and> l \<noteq> 0 \<and> r \<noteq> 0 \<and> l \<le> 0xFFFFFFFFFFFFFFFF div r
     then let product = l * r in
       if \<not> ei_is_signed info \<or> 0 \<le> sint product \<or> product = 0x8000000000000000
       then Some product else None
     else None)"

text \<open>Whether the note says the upper bound was crossed.\<close>

definition exceeds_max :: "error_info \<Rightarrow> bool" where
  "exceeds_max info =
    (let op = ei_op info; neg_left = value_negative info (ei_left info);
         neg_right = value_negative info (ei_right info) in
     if ei_is_signed info
     then (op = CHR ''+'' \<and> \<not> neg_left \<and> \<not> neg_right)
       \<or> (op = CHR ''-'' \<and> \<not> neg_left \<and> neg_right)
       \<or> (op = CHR ''*'' \<and> neg_left = neg_right)
       \<or> (op = CHR ''/'' \<and> neg_left)
     else op \<noteq> CHR ''-'')"

definition trap_type_name :: "error_info \<Rightarrow> string" where
  "trap_type_name info = take 7 ((if ei_is_signed info then ''i'' else ''u'') @ to_string (unat (ei_bits info)))"

definition bound_text :: "error_info \<Rightarrow> string" where
  "bound_text info =
    (if exceeds_max info then format_value info (type_max (ei_bits info) (ei_is_signed info)) 32
     else group_digits (take 31 (show_int (sint (type_min (ei_bits info))))) 32)"

definition append_note :: "error_info \<Rightarrow> report \<Rightarrow> report" where
  "append_note info r =
    (if \<not> ei_has_operands info \<or> ei_op info = nul \<or> ei_bits info = 0 then r
     else let left = format_value info (ei_left info) 32; right = format_value info (ei_right info) 32 in
     if ei_op info = CHR ''n'' then
       report_append (''   = note: negate '' @ left @ '' exceeds '' @ trap_type_name info @ '' max (''
         @ format_value info (type_max (ei_bits info) (ei_is_signed info)) 32 @ '')'' @ [line_feed]) r
     else if ei_op info = CHR ''/'' \<and> ei_right info = 0 then
       report_append (''   = note: division by zero: '' @ left @ '' / 0'' @ [line_feed]) r
     else let r1 = report_append (''   = note: '' @ left @ '' '' @ [ei_op info] @ '' '' @ right) r;
              r2 = (case overflow_result info of None \<Rightarrow> r1
                    | Some result \<Rightarrow> report_append ('' = '' @ format_value info result 32) r1)
          in report_append ('' '' @ (if exceeds_max info then ''exceeds'' else ''is below'') @ '' ''
               @ trap_type_name info @ '' '' @ (if exceeds_max info then ''max'' else ''min'')
               @ '' ('' @ bound_text info @ '')'' @ [line_feed]) r2)"

lemma report_ok_note [simp]: "report_ok r \<Longrightarrow> report_ok (append_note info r)"
  by (simp add: append_note_def Let_def split: option.split)

section \<open>Snippet, history and stack trace\<close>

definition spaces :: "nat \<Rightarrow> string" where
  "spaces n = replicate n CHR '' ''"

text \<open>\<^verbatim>\<open>%4u\<close>\<close>

definition show_width4 :: "u32 \<Rightarrow> string" where
  "show_width4 w = (let s = to_string (unat w) in spaces (4 - length s) @ s)"

fun append_carets :: "nat \<Rightarrow> report \<Rightarrow> report" where
  "append_carets 0 r = r"
| "append_carets (Suc n) r =
    (if rp_used r < ERROR_REPORT_SIZE - 2 then append_carets n (report_append ''^'' r) else r)"

definition append_snippet :: "error_info \<Rightarrow> report \<Rightarrow> report" where
  "append_snippet info r =
    (case ei_file info of
       None \<Rightarrow> r
     | Some file_name \<Rightarrow>
       if ei_line info = 0 then r
       else let line_num = to_string (unat (ei_line info));
              gutter = length line_num;
              r1 = report_append (''  --> '' @ file_name @ '':'' @ line_num @ '':''
                     @ to_string (unat (ei_column info)) @ [line_feed]) r;
              r2 = report_append ('' '' @ spaces gutter @ '' |'' @ [line_feed]) r1;
              r3 = (case ei_line_text info of
                  None \<Rightarrow> r2
                | Some line_text \<Rightarrow>
                  if line_text = [] then r2
                  else let snippet = trim_end (\<lambda>c. c = CHR '' '' \<or> c = CHR 0x09 \<or> c = cr_char) line_text;
                         caret_len = (if ei_length info \<noteq> 0 then unat (ei_length info) else 1);
                         offset = (if 1 < ei_column info then ei_column info - 1 else 0);
                         a = report_append ('' '' @ line_num @ '' | '' @ snippet @ [line_feed]) r2;
                         b = report_append ('' '' @ spaces gutter @ '' | ''
                               @ spaces (nat \<bar>sint offset\<bar>)) a
                     in report_append [line_feed] (append_carets caret_len b))
          in report_append ('' '' @ spaces gutter @ '' |'' @ [line_feed]) r3)"

fun append_events :: "var_event list \<Rightarrow> report \<Rightarrow> report" where
  "append_events [] r = r"
| "append_events (e # es) r =
    append_events es
      (report_append ('' '' @ show_width4 (ve_line e) @ '' | ''
        @ (case ve_line_text e of None \<Rightarrow> [] | Some t \<Rightarrow> t) @ [line_feed]) r)"

text \<open>\<^verbatim>\<open>%s\<close> of a null pointer is what the C library prints for it.\<close>

definition show_cstring :: "string option \<Rightarrow> string" where
  "show_cstring s = (case s of None \<Rightarrow> ''(null)'' | Some t \<Rightarrow> t)"

definition append_var_history ::
    "tracked_var list \<Rightarrow> string option \<Rightarrow> nat \<Rightarrow> report \<Rightarrow> report" where
  "append_var_history vars name slot r =
    (case find_tracked slot vars of
       None \<Rightarrow> r
     | Some var \<Rightarrow>
         if tv_events var = [] then r
         else let r1 = report_append (''   = note: history of '' @ [CHR 0x27]
                    @ (case name of None \<Rightarrow> show_cstring (tv_name var) | Some n \<Rightarrow> n)
                    @ [CHR 0x27] @ '':'' @ [line_feed]) r;
                  r2 = (if int (length (tv_events var)) < sint (tv_total var)
                        then report_append (''     ...'' @ [line_feed]) r1 else r1)
              in append_events (tv_events var) r2)"

definition frame_line :: "frame \<Rightarrow> string" where
  "frame_line f = ''  at '' @ (case fr_function f of None \<Rightarrow> ''<unknown>'' | Some n \<Rightarrow> n) @ '' (''
     @ (case fr_file f of None \<Rightarrow> ''?'' | Some n \<Rightarrow> n) @ '':'' @ to_string (unat (fr_line f)) @ '')''
     @ [line_feed]"

text \<open>Innermost frame first.\<close>

definition render_frames :: "frame list \<Rightarrow> nat \<Rightarrow> report \<Rightarrow> report" where
  "render_frames frames depth r =
    (if depth = 0 then r
     else fold (\<lambda>f. report_append (frame_line f)) (rev (take depth frames))
       (report_append (''stack trace:'' @ [line_feed]) r))"

definition append_stack_trace :: "shadow_stack \<Rightarrow> report \<Rightarrow> report" where
  "append_stack_trace s r =
    (let r1 = render_frames (ss_frames s) (ss_depth s) r in
     if ss_overflowed s
     then report_append (''  ... (more than '' @ to_string MAX_FRAMES
            @ '' frames, older frames omitted)'' @ [line_feed]) r1
     else r1)"

lemma report_ok_carets [simp]: "report_ok r \<Longrightarrow> report_ok (append_carets n r)"
  by (induction n arbitrary: r) simp_all

lemma report_ok_snippet [simp]: "report_ok r \<Longrightarrow> report_ok (append_snippet info r)"
  by (simp add: append_snippet_def Let_def split: option.split)

lemma report_ok_events [simp]: "report_ok r \<Longrightarrow> report_ok (append_events es r)"
  by (induction es arbitrary: r) simp_all

lemma report_ok_history [simp]: "report_ok r \<Longrightarrow> report_ok (append_var_history vars name slot r)"
  by (simp add: append_var_history_def Let_def split: option.split)

lemma report_ok_frames [simp]: "report_ok r \<Longrightarrow> report_ok (render_frames fs d r)"
proof -
  have "report_ok q \<Longrightarrow> report_ok (fold (\<lambda>f. report_append (frame_line f)) gs q)" for gs q
    by (induction gs arbitrary: q) simp_all
  then show "report_ok r \<Longrightarrow> report_ok (render_frames fs d r)" by (simp add: render_frames_def)
qed

lemma report_ok_trace [simp]: "report_ok r \<Longrightarrow> report_ok (append_stack_trace s r)"
  by (simp add: append_stack_trace_def Let_def)

section \<open>The functions that end the process\<close>

text \<open>
  Each gives the report it stores and prints before \<^verbatim>\<open>abort\<close>; the first one also says whether
  the native stack is printed after it.
\<close>

definition djinn_runtime_error ::
    "error_info option \<Rightarrow> tracked_var list \<Rightarrow> shadow_stack \<Rightarrow> report \<times> bool" where
  "djinn_runtime_error given vars stack =
    (let info = (case given of None \<Rightarrow> zero_info\<lparr>ei_message := Some ''unknown''\<rparr> | Some i \<Rightarrow> i);
         s = frame_set_line (ei_line info) stack;
         r1 = report_append (''djinn runtime error: ''
                @ (case ei_message info of None \<Rightarrow> ''unknown'' | Some m \<Rightarrow> m) @ [line_feed]) new_report;
         r2 = append_note info (append_snippet info r1);
         r3 = (if ei_left_var_slot info \<noteq> 0
               then append_var_history vars (ei_left_var_name info) (ei_left_var_slot info) r2 else r2);
         r4 = (if ei_right_var_slot info \<noteq> 0 \<and> ei_right_var_slot info \<noteq> ei_left_var_slot info
               then append_var_history vars (ei_right_var_name info) (ei_right_var_slot info) r3 else r3)
     in (append_stack_trace s r4, ss_depth s = 0))"

definition runtime_error_message ::
    "string option \<Rightarrow> tracked_var list \<Rightarrow> shadow_stack \<Rightarrow> report \<times> bool" where
  "runtime_error_message message vars stack =
    djinn_runtime_error (Some (zero_info\<lparr>ei_message :=
      Some (case message of None \<Rightarrow> ''unknown'' | Some m \<Rightarrow> m)\<rparr>)) vars stack"

definition runtime_error_min ::
    "string option \<Rightarrow> string option \<Rightarrow> u32 \<Rightarrow> u32 \<Rightarrow> char \<Rightarrow> 8 word \<Rightarrow> bool \<Rightarrow> bool \<Rightarrow> u64 \<Rightarrow> u64
      \<Rightarrow> tracked_var list \<Rightarrow> shadow_stack \<Rightarrow> report \<times> bool" where
  "runtime_error_min message file_name line column op bits is_signed has_operands left right vars stack =
    djinn_runtime_error (Some (zero_info\<lparr>
      ei_message := Some (case message of None \<Rightarrow> ''unknown'' | Some m \<Rightarrow> m),
      ei_file := file_name, ei_line := line, ei_column := column, ei_op := op, ei_bits := bits,
      ei_is_signed := is_signed, ei_has_operands := has_operands,
      ei_left := left, ei_right := right\<rparr>)) vars stack"

text \<open>A text that is present and not empty.\<close>

definition nonempty :: "string option \<Rightarrow> string option" where
  "nonempty s = (case s of None \<Rightarrow> None | Some t \<Rightarrow> if t = [] then None else Some t)"

definition uncaught_error ::
    "int \<Rightarrow> string option \<Rightarrow> string option \<Rightarrow> string option \<Rightarrow> u32 \<Rightarrow> u32 \<Rightarrow> error_stack \<Rightarrow> report" where
  "uncaught_error tag type_name message origin_file origin_line origin_column es =
    (let r1 = report_append (''djinn runtime error: uncaught exception escaped '' @ [CHR 0x27]
                @ ''main'' @ [CHR 0x27] @ [line_feed]) new_report;
         name = (case nonempty type_name of None \<Rightarrow> builtin_error_name tag | Some n \<Rightarrow> Some n);
         txt = (case nonempty message of None \<Rightarrow> ''<no message>'' | Some m \<Rightarrow> m);
         r2 = (case name of
                 Some n \<Rightarrow> report_append (''  error: '' @ n @ '': '' @ txt @ [line_feed]) r1
               | None \<Rightarrow> report_append (''  error: '' @ txt @ '' (tag '' @ show_int tag @ '')'' @ [line_feed]) r1);
         r3 = (case nonempty origin_file of
                 None \<Rightarrow> r2
               | Some f \<Rightarrow> report_append (''  --> '' @ f @ '':'' @ to_string (unat origin_line) @ '':''
                            @ to_string (unat origin_column) @ [line_feed]) r2)
     in render_frames (es_frames es) (es_depth es) r3)"

text \<open>\<^verbatim>\<open>__djinn_error_stack_text\<close>: null when the copy cannot be allocated.\<close>

definition error_stack_text :: "bool \<Rightarrow> error_stack \<Rightarrow> string option" where
  "error_stack_text allocated es =
    (if \<not> allocated then None
     else Some (rp_text (render_frames (es_frames es) (es_depth es) new_report)))"

definition panic :: "string option \<Rightarrow> string option \<Rightarrow> u32 \<Rightarrow> shadow_stack \<Rightarrow> report" where
  "panic message file_name line s =
    (let r1 = report_append (''djinn runtime error: panic'' @ [line_feed]) new_report;
         r2 = report_append (''  error: ''
                @ (case nonempty message of None \<Rightarrow> ''<no message>'' | Some m \<Rightarrow> m) @ [line_feed]) r1;
         r3 = (case nonempty file_name of
                 None \<Rightarrow> r2
               | Some f \<Rightarrow> report_append (''  --> '' @ f @ '':'' @ to_string (unat line) @ [line_feed]) r2)
     in render_frames (ss_frames s) (ss_depth s) r3)"

section \<open>Bounds of the buffer\<close>

lemma report_ok_runtime_error: "report_ok (fst (djinn_runtime_error info vars s))"
  by (simp add: djinn_runtime_error_def Let_def)

lemma report_ok_uncaught: "report_ok (uncaught_error tag t m f l c es)"
  unfolding uncaught_error_def Let_def
  by (intro report_ok_frames) (simp split: option.split)

lemma report_ok_panic: "report_ok (panic m f l s)"
  by (simp add: panic_def Let_def split: option.split)

text \<open>The text with its terminator and the counter are inside the buffer.\<close>

definition report_fits :: "report \<Rightarrow> bool" where
  "report_fits r \<longleftrightarrow> length (rp_text r) + 1 < ERROR_REPORT_SIZE \<and> rp_used r < ERROR_REPORT_SIZE
     \<and> length (rp_text r) \<le> rp_used r"

lemma report_ok_fits: "report_ok r \<Longrightarrow> report_fits r"
  by (auto simp: report_ok_def report_fits_def ERROR_REPORT_SIZE_def)

text \<open>C37: Whatever the lengths of the texts, the depth of the stack and the operands, every report with
  its terminator stays inside the buffer and the counter never passes its last byte.\<close>

theorem reports_fit_buffer:
  "report_fits (fst (djinn_runtime_error info vars s)) \<and> report_fits (uncaught_error tag t m f l c es)
    \<and> report_fits (panic m f l s)"
  by (simp add: report_ok_fits report_ok_runtime_error report_ok_uncaught report_ok_panic)

section \<open>Grouped digits\<close>

text \<open>Reference: a dot after every third digit that is not the last, counted from the right.\<close>

fun dotted :: "string \<Rightarrow> string" where
  "dotted (a # b # c # d # r) = a # b # c # CHR ''.'' # dotted (d # r)"
| "dotted r = r"

definition grouped :: "string \<Rightarrow> string" where
  "grouped ds = rev (dotted (rev ds))"

lemma dotted_snoc:
  "dotted (xs @ [c]) = dotted xs @ (if xs \<noteq> [] \<and> length xs mod 3 = 0 then ''.'' else []) @ [c]"
proof (induction xs rule: dotted.induct)
  case (1 a b c' d r)
  have "length (a # b # c' # d # r) mod 3 = length (d # r) mod 3" by simp presburger
  with 1 show ?case by simp
qed auto

lemma grouped_Cons:
  "grouped (c # cs) = c # (if cs \<noteq> [] \<and> length cs mod 3 = 0 then ''.'' else []) @ grouped cs"
  by (simp add: grouped_def dotted_snoc)

lemma grouped_Nil [simp]: "grouped [] = []"
  by (simp add: grouped_def)

lemma length_grouped: "length (grouped ds) \<le> length ds + length ds div 3"
proof -
  have "length (dotted ds) \<le> length ds + length ds div 3" for ds
    by (induction ds rule: dotted.induct) auto
  from this [of "rev ds"] show ?thesis by (simp add: grouped_def)
qed

lemma filter_grouped: "CHR ''.'' \<notin> set ds \<Longrightarrow> filter (\<lambda>c. c \<noteq> CHR ''.'') (grouped ds) = ds"
  by (induction ds) (auto simp: grouped_Cons)

lemma group_loop_grouped:
  "length out + length cs + length cs div 3 + 1 < limit \<Longrightarrow>
   group_loop limit (i + length cs) i cs out =
     out @ (if 0 < i \<and> cs \<noteq> [] \<and> length cs mod 3 = 0 then ''.'' else []) @ grouped cs"
proof (induction cs arbitrary: i out)
  case (Cons c cs)
  let ?n = "length cs"
  let ?out = "if 0 < i \<and> Suc ?n mod 3 = 0 then out @ ''.'' else out"
  have d: "Suc ?n mod 3 = 0 \<Longrightarrow> Suc ?n div 3 = Suc (?n div 3)" by presburger
  have le: "?n div 3 \<le> Suc ?n div 3" by (simp add: div_le_mono)
  have room: "length ?out + 1 < limit" "length (?out @ [c]) + ?n + ?n div 3 + 1 < limit"
    using Cons.prems d le by auto
  have dot: "(if 0 < i \<and> (i + Suc ?n - i) mod 3 = 0 then put_char limit CHR ''.'' out else out) = ?out"
    using Cons.prems by (simp add: put_char_def)
  have "group_loop limit (i + length (c # cs)) i (c # cs) out
      = group_loop limit (Suc i + ?n) (Suc i) cs (?out @ [c])"
    using room(1) dot by (simp add: put_char_def)
  also have "\<dots> = ?out @ [c] @ (if cs \<noteq> [] \<and> ?n mod 3 = 0 then ''.'' else []) @ grouped cs"
    using Cons.IH [OF room(2), of "Suc i"] by simp
  finally show ?case by (simp add: grouped_Cons)
qed simp

lemma to_string_length: "n < 10 ^ Suc k \<Longrightarrow> length (to_string n) \<le> Suc k"
proof (induction k arbitrary: n)
  case 0
  then show ?case by (simp add: to_string.simps [of n])
next
  case (Suc k)
  show ?case
  proof (cases "n < 10")
    case False
    have "n div 10 < 10 ^ Suc k" using Suc.prems by (simp add: less_mult_imp_div_less)
    with Suc.IH False show ?thesis by (simp add: to_string.simps [of n])
  qed (simp add: to_string.simps [of n])
qed

lemma to_string_no_dot: "CHR ''.'' \<notin> set (to_string n)" "CHR ''-'' \<notin> set (to_string n)"
  using to_string_digits [of "CHR ''.''" n] to_string_digits [of "CHR ''-''" n]
  by (auto simp: isdigit_def)

lemma group_digits_unsigned:
  assumes "length ds \<le> 20" "CHR ''-'' \<notin> set ds"
  shows "group_digits ds 32 = grouped ds"
proof -
  have "length ds + length ds div 3 + 1 < 32" using assms(1) by linarith
  then show ?thesis
    using assms(2) group_loop_grouped [of "[]" ds 32 0]
    by (cases ds) (auto simp: group_digits_def)
qed

lemma group_digits_negative:
  assumes "length ds \<le> 20"
  shows "group_digits (CHR ''-'' # ds) 32 = CHR ''-'' # grouped ds"
proof -
  have "1 + length ds + length ds div 3 + 1 < 32" using assms by linarith
  then show ?thesis
    using group_loop_grouped [of "''-''" ds 32 0] by (simp add: group_digits_def)
qed

text \<open>A printed operand is never cut: it is the decimal number with a dot after every third digit
  from the right, and it fits in the 32 bytes given to it.\<close>

theorem format_value_exact:
  "format_value info raw 32 =
    (if ei_is_signed info \<and> sint raw < 0 then ''-'' @ grouped (to_string (nat (- sint raw)))
     else if ei_is_signed info then grouped (to_string (nat (sint raw)))
     else grouped (to_string (unat raw)))
   \<and> length (format_value info raw 32) < 32"
proof -
  have l: "length (to_string n) \<le> 20" if "n < 2 ^ 64" for n
  proof -
    have "(2 :: nat) ^ 64 \<le> 10 ^ Suc 19" by simp
    with that have "n < 10 ^ Suc 19" by (rule less_le_trans)
    from to_string_length [OF this] show ?thesis by simp
  qed
  have su: "- (2 ^ 63) \<le> sint raw" "sint raw < 2 ^ 63"
    using sint_ge [of raw] sint_lt [of raw] by simp_all
  have n: "length (to_string (nat (- sint raw))) \<le> 20" "length (to_string (nat (sint raw))) \<le> 20"
    "length (to_string (unat raw)) \<le> 20"
    using su unsigned_less [of raw, where ?'a = nat] by (auto intro!: l)
  have g: "length (grouped ds) < 31" if "length ds \<le> 20" for ds
    using length_grouped [of ds] that by linarith
  show ?thesis
    using n g [OF n(1)] g [OF n(2)] g [OF n(3)] to_string_no_dot
    by (auto simp: format_value_def plain_value_def show_int_def group_digits_unsigned
        group_digits_negative)
qed

lemma grouped_reads_back: "filter (\<lambda>c. c \<noteq> CHR ''.'') (grouped (to_string n)) = to_string n"
  by (simp add: filter_grouped to_string_no_dot)

end
