(* ===== verification/Overflow_Notes.thy ===== *)
theory Overflow_Notes
  imports Runtime_Report
begin

text \<open>
  What the note of an integer trap says against the arithmetic that overflowed. The operands
  come from the generated code, widened to 64 bits by \<^verbatim>\<open>widen_int_operand\<close>
  (\<^verbatim>\<open>src/generator/RuntimeDiagnostics.cpp\<close>); the runtime
  (\<^verbatim>\<open>src/runtime/djinn_runtime.c\<close>) reads them as signed 64-bit numbers when the type is
  signed.
\<close>

unbundle bit_operations_syntax

section \<open>The bounds\<close>

lemma push_bit_one: "k < 64 \<Longrightarrow> unat (push_bit k 1 :: u64) = 2 ^ k"
  by (simp add: push_bit_eq_mult unat_power_of_two)

text \<open>The upper bound of a report is the greatest value of the operand type, for every width from
  1 to 64 bits, signed or not.\<close>

theorem type_max_exact:
  assumes "0 < bits" "bits \<le> 64"
  shows "unat (type_max bits is_signed) = 2 ^ (if is_signed then unat bits - 1 else unat bits) - 1"
proof -
  have n: "0 < unat bits" "unat bits \<le> 64"
    using assms by (simp_all add: word_less_nat_alt word_le_nat_alt)
  have minus: "unat (push_bit k 1 - 1 :: u64) = 2 ^ k - 1" if "k < 64" for k
  proof -
    have nz: "push_bit k 1 \<noteq> (0 :: u64)"
      using push_bit_one [OF that] by (metis less_irrefl unat_0 zero_less_numeral zero_less_power)
    show ?thesis unfolding unat_minus_one [OF nz] push_bit_one [OF that] by (rule refl)
  qed
  show ?thesis
  proof (cases "unat bits = 64")
    case True
    then have "bits = 64" by (simp add: word_unat_eq_iff)
    then show ?thesis by (simp add: type_max_def)
  next
    case False
    with n have "unat bits < 64" "\<not> 64 \<le> bits" by (simp_all add: word_le_nat_alt)
    then show ?thesis using minus n by (simp add: type_max_def)
  qed
qed

lemma type_max_exact_witness: "unat (type_max 8 True) = 127"
  using type_max_exact [of 8 True] by simp

lemma push_bit_not_negative: "k < 63 \<Longrightarrow> sint (push_bit k 1 :: u64) = 2 ^ k"
proof -
  assume k: "k < 63"
  have l: "(2 :: int) ^ k < 2 ^ 63" by (rule power_strict_increasing [OF k]) simp
  have "uint (push_bit k 1 :: u64) = int (unat (push_bit k 1 :: u64))" by simp
  also have "\<dots> = 2 ^ k" using k by (simp only: push_bit_one) simp
  finally have u: "uint (push_bit k 1 :: u64) = 2 ^ k" .
  have "- (2 ^ 63) \<le> (2 :: int) ^ k" by (rule order_trans [of _ 0]) simp_all
  with l have "signed_take_bit 63 ((2 :: int) ^ k) = 2 ^ k"
    by (intro signed_take_bit_int_eq_self) simp_all
  then show ?thesis unfolding sint_uint u by simp
qed

text \<open>The lower bound printed for a signed type narrower than 64 bits is the positive power of two,
  without its sign, and for an unsigned type it is not zero.\<close>

theorem lower_bound_printed_wrong:
  assumes "0 < bits" "bits < 64" "\<not> exceeds_max info" "ei_bits info = bits"
  shows "bound_text info = grouped (to_string (2 ^ (unat bits - 1)))"
proof -
  let ?k = "unat bits - 1"
  have k: "?k < 63" "\<not> 64 \<le> bits"
    using assms by (simp_all add: word_less_nat_alt word_le_nat_alt)
  have s: "show_int (sint (type_min bits)) = to_string (2 ^ ?k)"
    using push_bit_not_negative [OF k(1)] k(2) by (simp add: type_min_def show_int_def nat_power_eq)
  have "(2 :: nat) ^ ?k < 2 ^ 63" using k(1) by (simp only: power_strict_increasing_iff)
  also have "(2 :: nat) ^ 63 \<le> 10 ^ Suc 19" by simp
  finally have "2 ^ ?k < (10 :: nat) ^ Suc 19" .
  from to_string_length [OF this] have l: "length (to_string (2 ^ ?k)) \<le> 20" by simp
  have "take 31 (to_string (2 ^ ?k)) = to_string (2 ^ ?k)" using l by simp
  then show ?thesis
    using assms(3,4) s group_digits_unsigned [OF l to_string_no_dot(2)]
    by (simp add: bound_text_def)
qed

definition sample_underflow :: error_info where
  "sample_underflow = zero_info\<lparr>ei_has_operands := True, ei_is_signed := True, ei_bits := 8,
     ei_op := CHR ''-'', ei_left := word_of_int (- 100), ei_right := 100\<rparr>"

lemma lower_bound_printed_wrong_witness: "bound_text sample_underflow = ''128''"
proof -
  have "\<not> exceeds_max sample_underflow" "ei_bits sample_underflow = 8" by code_simp+
  from lower_bound_printed_wrong [OF _ _ this] have "bound_text sample_underflow = grouped (to_string 128)"
    by simp
  moreover have "grouped (to_string 128) = ''128''" by code_simp
  ultimately show ?thesis by simp
qed

section \<open>Which bound was crossed\<close>

text \<open>The exact result of an operation, division rounding towards zero.\<close>

definition exact_result :: "char \<Rightarrow> int \<Rightarrow> int \<Rightarrow> int" where
  "exact_result op a b =
    (if op = CHR ''+'' then a + b else if op = CHR ''-'' then a - b
     else if op = CHR ''*'' then a * b
     else sgn a * sgn b * (\<bar>a\<bar> div \<bar>b\<bar>))"

definition in_type :: "nat \<Rightarrow> bool \<Rightarrow> int \<Rightarrow> bool" where
  "in_type n is_signed x \<longleftrightarrow>
    (if is_signed then - (2 ^ (n - 1)) \<le> x \<and> x < 2 ^ (n - 1) else 0 \<le> x \<and> x < 2 ^ n)"

definition above_type :: "nat \<Rightarrow> bool \<Rightarrow> int \<Rightarrow> bool" where
  "above_type n is_signed x \<longleftrightarrow> 2 ^ (if is_signed then n - 1 else n) \<le> x"

text \<open>The descriptor of an operation whose operands are represented in 64 bits.\<close>

definition op_info :: "char \<Rightarrow> 8 word \<Rightarrow> bool \<Rightarrow> int \<Rightarrow> int \<Rightarrow> error_info" where
  "op_info op bits is_signed a b = zero_info\<lparr>ei_has_operands := True, ei_op := op, ei_bits := bits,
     ei_is_signed := is_signed, ei_left := word_of_int a, ei_right := word_of_int b\<rparr>"

lemma sint_in_type:
  assumes "in_type n True a" "n \<le> 64"
  shows "sint (word_of_int a :: u64) = a"
proof -
  have "(2 :: int) ^ (n - 1) \<le> 2 ^ 63" using assms(2) by (intro power_increasing) simp_all
  with assms have "- (2 ^ 63) \<le> a" "a < 2 ^ 63" by (auto simp: in_type_def)
  then show ?thesis by (simp add: sint_sbintrunc' signed_take_bit_int_eq_self)
qed

lemma truncated_bound: "\<bar>sgn a * sgn b * (\<bar>a\<bar> div \<bar>b\<bar>)\<bar> \<le> \<bar>a\<bar>" for a b :: int
proof -
  have "\<bar>a\<bar> div \<bar>b\<bar> \<le> \<bar>a\<bar>"
    by (cases "b = 0") (simp_all add: int_div_less_self div_by_0 zdiv_mono2 [of "\<bar>a\<bar>" 1 "\<bar>b\<bar>", simplified])
  moreover have "0 \<le> \<bar>a\<bar> div \<bar>b\<bar>" by (simp add: div_int_pos_iff)
  ultimately show ?thesis by (simp add: abs_mult abs_sgn_eq)
qed

lemma truncated_in_type:
  assumes a: "in_type n is_signed a" and b: "in_type n is_signed b" and n: "0 < n"
    and out: "\<not> in_type n is_signed (sgn a * sgn b * (\<bar>a\<bar> div \<bar>b\<bar>))"
  shows "is_signed \<and> a < 0 \<and> 2 ^ (n - 1) \<le> sgn a * sgn b * (\<bar>a\<bar> div \<bar>b\<bar>)"
proof -
  let ?e = "sgn a * sgn b * (\<bar>a\<bar> div \<bar>b\<bar>)"
  note le = truncated_bound [of a b]
  show ?thesis
  proof (cases is_signed)
    case True
    then have r: "- (2 ^ (n - 1)) \<le> a" "a < 2 ^ (n - 1)" using a by (simp_all add: in_type_def)
    then have "\<bar>?e\<bar> \<le> 2 ^ (n - 1)" using le by linarith
    then have e: "2 ^ (n - 1) \<le> ?e" using out True by (auto simp: in_type_def)
    then have "2 ^ (n - 1) \<le> \<bar>a\<bar>" using le by linarith
    with r have "a < 0" by linarith
    with e True show ?thesis by simp
  next
    case False
    then have r: "0 \<le> a" "0 \<le> b" "a < 2 ^ n" using a b by (simp_all add: in_type_def)
    then have "0 \<le> ?e" by (simp add: sgn_if pos_imp_zdiv_nonneg_iff)
    moreover have "?e < 2 ^ n" using le r by linarith
    ultimately show ?thesis using out False by (simp add: in_type_def)
  qed
qed

text \<open>C18: For a trapped operation whose operands reach the runtime with their values, the note names the
  upper bound exactly when the exact result is above the type, and the lower bound when it is
  below.\<close>

theorem note_names_crossed_bound:
  assumes "0 < bits" "bits \<le> 64" "op \<in> {CHR ''+'', CHR ''-'', CHR ''*'', CHR ''/''}"
    and a: "in_type (unat bits) is_signed a" and b: "in_type (unat bits) is_signed b"
    and out: "\<not> in_type (unat bits) is_signed (exact_result op a b)"
  shows "exceeds_max (op_info op bits is_signed a b)
    \<longleftrightarrow> above_type (unat bits) is_signed (exact_result op a b)"
proof -
  let ?n = "unat bits"
  have n: "0 < ?n" "?n \<le> 64" using assms(1,2) by (simp_all add: word_less_nat_alt word_le_nat_alt)
  show ?thesis
  proof (cases is_signed)
    case True
    have v: "value_negative (op_info op bits is_signed a b) (word_of_int x) \<longleftrightarrow> x < 0"
      if "in_type ?n is_signed x" for x
      using that True n(2) sint_in_type by (simp add: value_negative_def op_info_def)
    have e: "exceeds_max (op_info op bits is_signed a b) \<longleftrightarrow>
        (op = CHR ''+'' \<and> \<not> a < 0 \<and> \<not> b < 0) \<or> (op = CHR ''-'' \<and> \<not> a < 0 \<and> b < 0)
        \<or> (op = CHR ''*'' \<and> (a < 0) = (b < 0)) \<or> (op = CHR ''/'' \<and> a < 0)"
      using True v [OF a] v [OF b] by (simp add: exceeds_max_def Let_def op_info_def zero_info_def)
    have r: "- (2 ^ (?n - 1)) \<le> a" "a < 2 ^ (?n - 1)" "- (2 ^ (?n - 1)) \<le> b" "b < 2 ^ (?n - 1)"
      using a b True by (simp_all add: in_type_def)
    consider "op = CHR ''+''" | "op = CHR ''-''" | "op = CHR ''*''" | "op = CHR ''/''"
      using assms(3) by auto
    then show ?thesis
    proof cases
      case 3
      have p: "0 \<le> a * b" if "(a < 0) = (b < 0)"
        using that by (cases "a < 0") (simp_all add: mult_nonpos_nonpos)
      have q: "a * b \<le> 0" if "(a < 0) \<noteq> (b < 0)"
        using that by (cases "a < 0") (simp_all add: mult_nonpos_nonneg mult_nonneg_nonpos)
      have pow: "0 < (2 :: int) ^ (?n - 1)" by simp
      show ?thesis
      proof (cases "(a < 0) = (b < 0)")
        case same: True
        have "2 ^ (?n - 1) \<le> a * b"
          using out True 3 p [OF same] pow unfolding in_type_def exact_result_def by auto
        then show ?thesis using 3 e same True by (simp add: above_type_def exact_result_def)
      next
        case False
        from q [OF this] have "\<not> 2 ^ (?n - 1) \<le> a * b" using pow by linarith
        then show ?thesis using 3 e False True by (simp add: above_type_def exact_result_def)
      qed
    next
      case 4
      then have x: "exact_result op a b = sgn a * sgn b * (\<bar>a\<bar> div \<bar>b\<bar>)" by (simp add: exact_result_def)
      from truncated_in_type [OF a b n(1) out [unfolded x]]
      have "a < 0" "2 ^ (?n - 1) \<le> exact_result op a b" unfolding x by blast+
      then show ?thesis using e 4 True by (simp only: above_type_def) simp
    qed (use e r out True in \<open>auto simp: above_type_def in_type_def exact_result_def\<close>)
  next
    case False
    have e: "exceeds_max (op_info op bits is_signed a b) \<longleftrightarrow> op \<noteq> CHR ''-''"
      using False by (simp add: exceeds_max_def Let_def op_info_def zero_info_def)
    have r: "0 \<le> a" "a < 2 ^ ?n" "0 \<le> b" "b < 2 ^ ?n" using a b False by (simp_all add: in_type_def)
    consider "op = CHR ''+''" | "op = CHR ''-''" | "op = CHR ''*''" | "op = CHR ''/''"
      using assms(3) by auto
    then show ?thesis
    proof cases
      case 4
      then have x: "exact_result op a b = sgn a * sgn b * (\<bar>a\<bar> div \<bar>b\<bar>)" by (simp add: exact_result_def)
      from truncated_in_type [OF a b n(1) out [unfolded x]] show ?thesis using False by simp
    qed (use e r out False in \<open>auto simp: above_type_def in_type_def exact_result_def\<close>)
  qed
qed

lemma note_names_crossed_bound_witness:
  "exceeds_max (op_info CHR ''-'' 8 True 100 (- 100)) \<and> above_type 8 True 200"
  using note_names_crossed_bound [of 8 "CHR ''-''" True 100 "- 100"]
  by (simp add: in_type_def exact_result_def above_type_def)

section \<open>What the generated code passes\<close>

text \<open>
  \<^verbatim>\<open>widen_int_operand\<close> zero-extends an operand of less than 64 bits, whether its type is
  signed or not; the operand is given by its bits.
\<close>

definition widen_int_operand :: "nat \<Rightarrow> u64 \<Rightarrow> u64" where
  "widen_int_operand bits v = (if 64 \<le> bits then v else take_bit bits v)"

lemma widened_not_negative:
  assumes "bits < 64"
  shows "0 \<le> sint (widen_int_operand bits v)"
proof -
  have "\<not> bit (widen_int_operand bits v) 63"
    using assms by (simp add: widen_int_operand_def bit_simps)
  then show ?thesis using bit_last_iff [of "widen_int_operand bits v"] by (simp add: not_less)
qed

lemma widened_value:
  assumes "bits < 64"
  shows "nat (sint (widen_int_operand bits v)) = unat (take_bit bits v)"
proof -
  have "uint (widen_int_operand bits v) < 2 ^ bits"
    using assms by (simp add: widen_int_operand_def unsigned_take_bit_eq)
  also have "(2 :: int) ^ bits \<le> 2 ^ 63" using assms by (intro power_increasing) auto
  finally have "uint (widen_int_operand bits v) < 2 ^ 63" .
  moreover have "- (2 ^ 63) \<le> uint (widen_int_operand bits v)"
    by (rule order_trans [OF _ uint_ge_0]) simp
  ultimately have "signed_take_bit 63 (uint (widen_int_operand bits v)) = uint (widen_int_operand bits v)"
    by (intro signed_take_bit_int_eq_self)
  then have "sint (widen_int_operand bits v) = uint (widen_int_operand bits v)"
    by (simp add: sint_uint)
  then show ?thesis using assms by (simp add: widen_int_operand_def)
qed



text \<open>The note of a negation of the smallest number of 8 bits.\<close>

lemma narrow_negation_note:
  "rp_text (append_note (sample_underflow\<lparr>ei_op := CHR ''n'', ei_bits := 8,
     ei_left := widen_int_operand 8 (- 128), ei_right := 0\<rparr>) new_report)
   = ''   = note: negate 128 exceeds i8 max (127)'' @ [line_feed]"
  by code_simp

text \<open>The note of \<open>-100 + -100\<close> in 8 bits, whose result is below the type.\<close>

lemma narrow_underflow_note:
  "rp_text (append_note (sample_underflow\<lparr>ei_op := CHR ''+'', ei_left := widen_int_operand 8 (- 100),
     ei_right := widen_int_operand 8 (- 100)\<rparr>) new_report)
   = ''   = note: 156 + 156 = 312 exceeds i8 max (127)'' @ [line_feed]"
  by code_simp

end
