(* ===== verification/Runtime_Queue.thy ===== *)
theory Runtime_Queue
  imports Djinn_Prelude
begin

text \<open>
  The task queue of the runtime (\<^verbatim>\<open>djinn_task_queue_t\<close> of
  \<^verbatim>\<open>src/runtime/djinn_runtime.h\<close>, its operations in \<^verbatim>\<open>djinn_runtime.c\<close>): a singly
  linked list of heap cells with a pointer to the first and to the last one. Addresses and
  coroutine handles are numbers, 0 the null pointer; the heap is a partial map from addresses to
  cells. \<^verbatim>\<open>malloc\<close> is a parameter: it looks at the heap and gives the address of a new cell, or
  nothing. The mutex makes every operation one step. The queue is shown to implement the
  first-in first-out interface \<^verbatim>\<open>fifo\<close>.
\<close>

section \<open>Cells and operations\<close>

record task =
  tk_handle :: nat
  tk_next :: nat
  tk_priority :: int

record task_queue =
  tq_head :: nat
  tq_tail :: nat
  tq_count :: int

type_synonym task_heap = "nat \<rightharpoonup> task"
type_synonym task_alloc = "task_heap \<Rightarrow> nat option"

definition init_queue :: task_queue where
  "init_queue = \<lparr>tq_head = 0, tq_tail = 0, tq_count = 0\<rparr>"

definition task_at :: "task_heap \<Rightarrow> nat \<Rightarrow> task" where
  "task_at heap a = the (heap a)"

definition free_cell :: "nat \<Rightarrow> task_heap \<Rightarrow> task_heap" where
  "free_cell a heap = heap(a := None)"

text \<open>A failed \<^verbatim>\<open>malloc\<close> drops the task.\<close>

definition enqueue_task ::
    "task_alloc \<Rightarrow> nat \<Rightarrow> task_heap \<times> task_queue \<Rightarrow> task_heap \<times> task_queue" where
  "enqueue_task malloc handle = (\<lambda>(heap, q).
    (case malloc heap of
       None \<Rightarrow> (heap, q)
     | Some a \<Rightarrow>
         let heap1 = heap(a \<mapsto> \<lparr>tk_handle = handle, tk_next = 0, tk_priority = 0\<rparr>) in
         if tq_tail q \<noteq> 0
         then (heap1(tq_tail q \<mapsto> (task_at heap1 (tq_tail q))\<lparr>tk_next := a\<rparr>),
               q\<lparr>tq_tail := a, tq_count := tq_count q + 1\<rparr>)
         else (heap1, q\<lparr>tq_head := a, tq_tail := a, tq_count := tq_count q + 1\<rparr>)))"

text \<open>The address of the task taken off, 0 for an empty queue.\<close>

definition dequeue_task :: "task_heap \<times> task_queue \<Rightarrow> nat \<times> task_heap \<times> task_queue" where
  "dequeue_task = (\<lambda>(heap, q).
    (let a = tq_head q in
     if a = 0 then (0, heap, q)
     else let head = tk_next (task_at heap a) in
       (a, heap(a \<mapsto> (task_at heap a)\<lparr>tk_next := 0\<rparr>),
        q\<lparr>tq_head := head, tq_tail := (if head = 0 then 0 else tq_tail q),
          tq_count := tq_count q - 1\<rparr>)))"

text \<open>Freeing the cells from \<open>t\<close> on; fuel bounds the cells.\<close>

fun free_tasks :: "nat \<Rightarrow> nat \<Rightarrow> task_heap \<Rightarrow> task_heap option" where
  "free_tasks 0 t heap = None"
| "free_tasks (Suc fuel) t heap =
    (if t = 0 then Some heap
     else free_tasks fuel (tk_next (task_at heap t)) (free_cell t heap))"

definition destroy_queue :: "nat \<Rightarrow> task_heap \<times> task_queue \<Rightarrow> (task_heap \<times> task_queue) option" where
  "destroy_queue fuel = (\<lambda>(heap, q).
    map_option (\<lambda>heap'. (heap', q\<lparr>tq_head := 0, tq_tail := 0, tq_count := 0\<rparr>))
      (free_tasks fuel (tq_head q) heap))"

section \<open>The list a queue stands for\<close>

fun chain :: "task_heap \<Rightarrow> nat \<Rightarrow> nat list \<Rightarrow> bool" where
  "chain heap p [] \<longleftrightarrow> p = 0"
| "chain heap p (a # as) \<longleftrightarrow>
    p = a \<and> a \<noteq> 0 \<and> heap a \<noteq> None \<and> chain heap (tk_next (task_at heap a)) as"

definition queue_rep :: "task_heap \<Rightarrow> task_queue \<Rightarrow> nat list \<Rightarrow> bool" where
  "queue_rep heap q as \<longleftrightarrow> chain heap (tq_head q) as \<and> distinct as
     \<and> tq_tail q = (if as = [] then 0 else last as) \<and> tq_count q = int (length as)"

definition handles :: "task_heap \<Rightarrow> nat list \<Rightarrow> nat list" where
  "handles heap as = map (\<lambda>a. tk_handle (task_at heap a)) as"

definition queue_holds :: "task_heap \<times> task_queue \<Rightarrow> nat list \<Rightarrow> bool" where
  "queue_holds s hs \<longleftrightarrow> (\<exists>as. queue_rep (fst s) (snd s) as \<and> handles (fst s) as = hs)"

text \<open>What \<^verbatim>\<open>malloc\<close> promises: the cell it gives is new and not null.\<close>

definition alloc_ok :: "task_alloc \<Rightarrow> bool" where
  "alloc_ok malloc \<longleftrightarrow> (\<forall>heap a. malloc heap = Some a \<longrightarrow> a \<noteq> 0 \<and> heap a = None)"

lemma alloc_okD: "alloc_ok malloc \<Longrightarrow> malloc heap = Some a \<Longrightarrow> a \<noteq> 0 \<and> heap a = None"
  by (simp add: alloc_ok_def)

lemma task_at_upd [simp]: "task_at (heap(a \<mapsto> t)) b = (if b = a then t else task_at heap b)"
  by (simp add: task_at_def)

lemma task_at_free [simp]: "b \<noteq> a \<Longrightarrow> task_at (free_cell a heap) b = task_at heap b"
  by (simp add: task_at_def free_cell_def)

lemma chain_allocated: "chain heap p as \<Longrightarrow> a \<in> set as \<Longrightarrow> a \<noteq> 0 \<and> heap a \<noteq> None"
  by (induction heap p as rule: chain.induct) auto

lemma chain_frame:
  assumes "\<And>a. a \<in> set as \<Longrightarrow> heap' a = heap a"
  shows "chain heap' p as \<longleftrightarrow> chain heap p as"
  using assms by (induction as arbitrary: p) (auto simp: task_at_def)

lemma chain_snoc:
  "chain heap p (as @ [a]) \<Longrightarrow> a \<notin> set as \<Longrightarrow> b \<noteq> 0 \<Longrightarrow> b \<noteq> a \<Longrightarrow> b \<notin> set as \<Longrightarrow>
    chain (heap(b \<mapsto> t\<lparr>tk_next := 0\<rparr>, a \<mapsto> (task_at heap a)\<lparr>tk_next := b\<rparr>)) p (as @ [a, b])"
  by (induction as arbitrary: p) auto

lemma handles_frame:
  "(\<And>a. a \<in> set as \<Longrightarrow> tk_handle (task_at heap' a) = tk_handle (task_at heap a))
    \<Longrightarrow> handles heap' as = handles heap as"
  by (simp add: handles_def)

lemma queue_rep_init [simp]: "queue_rep heap init_queue []"
  by (simp add: queue_rep_def init_queue_def)

lemma queue_holds_init [simp]: "queue_holds (heap, init_queue) []"
  by (auto simp: queue_holds_def handles_def intro: exI [of _ "[]"])

lemma enqueue_rep:
  assumes "alloc_ok malloc" "malloc heap = Some a" "queue_rep heap q as"
  shows "queue_rep (fst (enqueue_task malloc h (heap, q))) (snd (enqueue_task malloc h (heap, q))) (as @ [a])"
    and "handles (fst (enqueue_task malloc h (heap, q))) (as @ [a]) = handles heap as @ [h]"
proof -
  have a: "a \<noteq> 0" "heap a = None" using alloc_okD assms(1,2) by blast+
  have new: "a \<notin> set as"
    using chain_allocated [of heap "tq_head q" as a] a assms(3) by (auto simp: queue_rep_def)
  show "queue_rep (fst (enqueue_task malloc h (heap, q))) (snd (enqueue_task malloc h (heap, q))) (as @ [a])"
    and "handles (fst (enqueue_task malloc h (heap, q))) (as @ [a]) = handles heap as @ [h]"
  proof (atomize (full), cases as rule: rev_cases)
    case Nil
    then show "queue_rep (fst (enqueue_task malloc h (heap, q))) (snd (enqueue_task malloc h (heap, q))) (as @ [a])
        \<and> handles (fst (enqueue_task malloc h (heap, q))) (as @ [a]) = handles heap as @ [h]"
      using assms a by (simp add: enqueue_task_def queue_rep_def Let_def handles_def)
  next
    case (snoc bs b)
    have b: "b \<noteq> 0" "b \<noteq> a" "b \<notin> set bs" "a \<notin> set bs" "tq_tail q = b"
      using assms(3) new snoc chain_allocated [of heap "tq_head q" as b] by (auto simp: queue_rep_def)
    let ?heap = "heap(a \<mapsto> \<lparr>tk_handle = h, tk_next = 0, tk_priority = 0\<rparr>,
                      b \<mapsto> (task_at heap b)\<lparr>tk_next := a\<rparr>)"
    have e: "enqueue_task malloc h (heap, q) = (?heap, q\<lparr>tq_tail := a, tq_count := tq_count q + 1\<rparr>)"
      using assms(2) b by (simp add: enqueue_task_def Let_def)
    have "chain heap (tq_head q) (bs @ [b])" using assms(3) snoc by (simp add: queue_rep_def)
    from chain_snoc [OF this b(3) a(1) b(2) [symmetric] b(4),
        of "\<lparr>tk_handle = h, tk_next = 0, tk_priority = 0\<rparr>"]
    have "chain ?heap (tq_head q) (as @ [a])" using snoc by simp
    moreover have "handles ?heap (as @ [a]) = handles heap as @ [h]"
      using snoc b new by (auto simp: handles_def)
    ultimately show "queue_rep (fst (enqueue_task malloc h (heap, q))) (snd (enqueue_task malloc h (heap, q))) (as @ [a])
        \<and> handles (fst (enqueue_task malloc h (heap, q))) (as @ [a]) = handles heap as @ [h]"
      using e assms(3) new by (simp add: queue_rep_def)
  qed
qed

lemma enqueue_dropped: "malloc heap = None \<Longrightarrow> enqueue_task malloc h (heap, q) = (heap, q)"
  by (simp add: enqueue_task_def)

lemma dequeue_empty: "queue_rep heap q [] \<Longrightarrow> dequeue_task (heap, q) = (0, heap, q)"
  by (simp add: queue_rep_def dequeue_task_def)

lemma dequeue_rep:
  assumes "queue_rep heap q (a # as)"
  obtains heap' q' where "dequeue_task (heap, q) = (a, heap', q')" "queue_rep heap' q' as"
    "handles heap' as = handles heap as" "tk_handle (task_at heap' a) = tk_handle (task_at heap a)"
    "a \<noteq> 0" "a \<notin> set as" "heap' a \<noteq> None" "dom heap' = dom heap"
proof -
  let ?heap = "heap(a \<mapsto> (task_at heap a)\<lparr>tk_next := 0\<rparr>)"
  let ?head = "tk_next (task_at heap a)"
  let ?q = "q\<lparr>tq_head := ?head, tq_tail := (if ?head = 0 then 0 else tq_tail q), tq_count := tq_count q - 1\<rparr>"
  have q: "tq_head q = a" "a \<noteq> 0" "heap a \<noteq> None" "chain heap ?head as" "a \<notin> set as" "distinct as"
    using assms by (auto simp: queue_rep_def)
  have "chain ?heap ?head as \<longleftrightarrow> chain heap ?head as" using q(5) by (intro chain_frame) auto
  moreover have "?head = 0 \<longleftrightarrow> as = []" using q(4) by (cases as) auto
  ultimately have "queue_rep ?heap ?q as" using assms q by (auto simp: queue_rep_def)
  moreover have "handles ?heap as = handles heap as" using q(5) by (intro handles_frame) auto
  ultimately show thesis
    using that [of ?heap ?q] q by (auto simp: dequeue_task_def Let_def)
qed

lemma queue_rep_free:
  assumes "queue_rep heap q as" "a \<notin> set as"
  shows "queue_rep (free_cell a heap) q as" "handles (free_cell a heap) as = handles heap as"
proof -
  have "chain (free_cell a heap) (tq_head q) as \<longleftrightarrow> chain heap (tq_head q) as"
    using assms(2) by (intro chain_frame) (auto simp: free_cell_def)
  then show "queue_rep (free_cell a heap) q as" using assms(1) by (simp add: queue_rep_def)
  show "handles (free_cell a heap) as = handles heap as"
    using assms(2) by (intro handles_frame) (metis task_at_free)
qed

lemma free_tasks_chain:
  "chain heap p as \<Longrightarrow> distinct as \<Longrightarrow> length as < fuel
    \<Longrightarrow> \<exists>heap'. free_tasks fuel p heap = Some heap' \<and> dom heap' = dom heap - set as"
proof (induction as arbitrary: heap p fuel)
  case Nil
  then obtain f where "fuel = Suc f" by (cases fuel) auto
  with Nil show ?case by simp
next
  case (Cons a as)
  then obtain f where f: "fuel = Suc f" by (cases fuel) auto
  have "chain (free_cell a heap) (tk_next (task_at heap a)) as
      \<longleftrightarrow> chain heap (tk_next (task_at heap a)) as"
    using Cons.prems(2) by (intro chain_frame) (auto simp: free_cell_def)
  then have "chain (free_cell a heap) (tk_next (task_at heap a)) as" using Cons.prems(1) by simp
  from Cons.IH [OF this, of f] obtain heap' where
    "free_tasks f (tk_next (task_at heap a)) (free_cell a heap) = Some heap'"
    "dom heap' = dom (free_cell a heap) - set as"
    using Cons.prems f by auto
  then show ?case using Cons.prems f by (auto simp: free_cell_def)
qed

text \<open>Destroying a queue frees its cells and nothing else.\<close>

lemma destroy_queue_frees:
  "queue_rep heap q as \<Longrightarrow> length as < fuel \<Longrightarrow>
    \<exists>heap'. destroy_queue fuel (heap, q) = Some (heap', init_queue) \<and> dom heap' = dom heap - set as"
  using free_tasks_chain [of heap "tq_head q" as fuel]
  by (auto simp: destroy_queue_def queue_rep_def init_queue_def)
section \<open>First in, first out\<close>

text \<open>Taking a task as the threads do: its handle is read and the cell freed.\<close>

definition take_task :: "task_heap \<times> task_queue \<Rightarrow> nat option \<times> task_heap \<times> task_queue" where
  "take_task s =
    (let (a, heap, q) = dequeue_task s in
     if a = 0 then (None, heap, q)
     else (Some (tk_handle (task_at heap a)), free_cell a heap, q))"

definition heap_queue :: "task_heap \<times> task_queue \<Rightarrow> nat list \<Rightarrow> bool" where
  "heap_queue s hs \<longleftrightarrow> queue_holds s hs \<and> finite (dom (fst s))"

locale fifo =
  fixes enq :: "'x \<Rightarrow> 's \<Rightarrow> 's"
    and deq :: "'s \<Rightarrow> 'x option \<times> 's"
    and holds :: "'s \<Rightarrow> 'x list \<Rightarrow> bool"
    and room :: "'s \<Rightarrow> bool"
  assumes enq_room: "holds s xs \<Longrightarrow> room s \<Longrightarrow> holds (enq x s) (xs @ [x])"
    and enq_full: "holds s xs \<Longrightarrow> \<not> room s \<Longrightarrow> holds (enq x s) xs"
    and deq_nil: "holds s [] \<Longrightarrow> fst (deq s) = None \<and> holds (snd (deq s)) []"
    and deq_cons: "holds s (x # xs) \<Longrightarrow> fst (deq s) = Some x \<and> holds (snd (deq s)) xs"

text \<open>A sequence of operations, its answers on an implementation and on a list.\<close>

datatype 'x queue_op = Put 'x | Get

fun run_ops ::
    "('x \<Rightarrow> 's \<Rightarrow> 's) \<Rightarrow> ('s \<Rightarrow> 'x option \<times> 's) \<Rightarrow> 'x queue_op list \<Rightarrow> 's \<Rightarrow> 'x option list" where
  "run_ops enq deq [] s = []"
| "run_ops enq deq (Put x # ops) s = run_ops enq deq ops (enq x s)"
| "run_ops enq deq (Get # ops) s = fst (deq s) # run_ops enq deq ops (snd (deq s))"

definition list_enq :: "'x \<Rightarrow> 'x list \<Rightarrow> 'x list" where
  "list_enq x xs = xs @ [x]"

fun list_deq :: "'x list \<Rightarrow> 'x option \<times> 'x list" where
  "list_deq [] = (None, [])"
| "list_deq (x # xs) = (Some x, xs)"

context fifo
begin

lemma run_ops_list:
  assumes "\<And>s xs. holds s xs \<Longrightarrow> room s"
  shows "holds s xs \<Longrightarrow> run_ops enq deq ops s = run_ops list_enq list_deq ops xs"
proof (induction ops arbitrary: s xs)
  case (Cons op ops)
  show ?case
  proof (cases op)
    case (Put x)
    with Cons assms enq_room show ?thesis by (simp add: list_enq_def)
  next
    case Get
    show ?thesis
    proof (cases xs)
      case Nil
      with Cons deq_nil Get show ?thesis by simp
    next
      case (Cons y ys)
      with Cons.IH Cons.prems deq_cons Get show ?thesis by simp
    qed
  qed
qed simp

lemma deq_enq_empty:
  "holds s [] \<Longrightarrow> room s \<Longrightarrow> fst (deq (enq x s)) = Some x \<and> holds (snd (deq (enq x s))) []"
  using enq_room [of s "[]" x] deq_cons by simp

end

lemma enqueue_heap_queue:
  assumes "alloc_ok malloc" "heap_queue s hs"
  shows "heap_queue (enqueue_task malloc h s) (if malloc (fst s) = None then hs else hs @ [h])"
proof -
  obtain heap q where s: "s = (heap, q)" by (cases s)
  from assms(2) s obtain as where r: "queue_rep heap q as" "handles heap as = hs" "finite (dom heap)"
    by (auto simp: heap_queue_def queue_holds_def)
  show ?thesis
  proof (cases "malloc heap")
    case None
    then show ?thesis using assms(2) s by (simp add: enqueue_dropped)
  next
    case (Some a)
    note e = enqueue_rep [OF assms(1) Some r(1), of h]
    have "finite (dom (fst (enqueue_task malloc h (heap, q))))"
      using r(3) Some by (simp add: enqueue_task_def Let_def)
    then show ?thesis
      using e Some s r(2) by (auto simp: heap_queue_def queue_holds_def)
  qed
qed

lemma take_heap_queue:
  assumes "heap_queue s hs"
  shows "fst (take_task s) = (case hs of [] \<Rightarrow> None | h # _ \<Rightarrow> Some h)
    \<and> heap_queue (snd (take_task s)) (tl hs)"
proof -
  obtain heap q where s: "s = (heap, q)" by (cases s)
  from assms s obtain as where r: "queue_rep heap q as" "handles heap as = hs" "finite (dom heap)"
    by (auto simp: heap_queue_def queue_holds_def)
  show ?thesis
  proof (cases as)
    case Nil
    then have "hs = []" using r(2) by (simp add: handles_def)
    with dequeue_empty [of heap q] r Nil assms s show ?thesis by (simp add: take_task_def)
  next
    case (Cons a bs)
    then have hs: "hs = tk_handle (task_at heap a) # handles heap bs"
      using r(2) by (simp add: handles_def)
    from r(1) Cons have "queue_rep heap q (a # bs)" by simp
    then obtain heap' q' where d: "dequeue_task (heap, q) = (a, heap', q')" "queue_rep heap' q' bs"
      "handles heap' bs = handles heap bs" "tk_handle (task_at heap' a) = tk_handle (task_at heap a)"
      "a \<noteq> 0" "a \<notin> set bs" "dom heap' = dom heap"
      by (rule dequeue_rep)
    have "finite (dom (free_cell a heap'))" using d(7) r(3) by (simp add: free_cell_def)
    then have "heap_queue (free_cell a heap', q') (handles heap bs)"
      using queue_rep_free [OF d(2,6)] d(3) by (auto simp: heap_queue_def queue_holds_def)
    then show ?thesis using d s hs by (simp add: take_task_def)
  qed
qed

text \<open>An allocator that respects the heap; the laws of the interface are discharged for it.\<close>

definition lawful :: "task_alloc \<Rightarrow> task_alloc" where
  "lawful malloc heap =
    (case malloc heap of None \<Rightarrow> None | Some a \<Rightarrow> if a = 0 \<or> heap a \<noteq> None then None else Some a)"

lemma alloc_ok_lawful [simp]: "alloc_ok (lawful malloc)"
  by (auto simp: alloc_ok_def lawful_def split: option.splits if_splits)

lemma lawful_id: "alloc_ok malloc \<Longrightarrow> lawful malloc = malloc"
  by (auto simp: lawful_def alloc_ok_def fun_eq_iff split: option.split)

interpretation ready: fifo "enqueue_task (lawful malloc)" take_task heap_queue
  "\<lambda>s. lawful malloc (fst s) \<noteq> None"
proof
  show "heap_queue (enqueue_task (lawful malloc) x s) (xs @ [x])"
    if "heap_queue s xs" "lawful malloc (fst s) \<noteq> None" for s xs x
    using enqueue_heap_queue [of "lawful malloc" s xs x] that by simp
  show "heap_queue (enqueue_task (lawful malloc) x s) xs"
    if "heap_queue s xs" "\<not> lawful malloc (fst s) \<noteq> None" for s xs x
    using enqueue_heap_queue [of "lawful malloc" s xs x] that by simp
  show "fst (take_task s) = None \<and> heap_queue (snd (take_task s)) []" if "heap_queue s []" for s
    using take_heap_queue [OF that] by simp
  show "fst (take_task s) = Some x \<and> heap_queue (snd (take_task s)) xs"
    if "heap_queue s (x # xs)" for s x xs
    using take_heap_queue [OF that] by simp
qed

text \<open>Memory never runs out while finitely many cells are in use.\<close>

definition alloc_total :: "task_alloc \<Rightarrow> bool" where
  "alloc_total malloc \<longleftrightarrow> (\<forall>heap. finite (dom heap) \<longrightarrow> malloc heap \<noteq> None)"

text \<open>C17: While memory lasts, the linked list of cells answers every sequence of insertions and removals
  as a first-in first-out list does.\<close>

theorem task_queue_refines_fifo:
  assumes "alloc_ok malloc" "alloc_total malloc"
  shows "run_ops (enqueue_task malloc) take_task ops (Map.empty, init_queue)
    = run_ops list_enq list_deq ops []"
proof -
  have "heap_queue (Map.empty, init_queue) []" by (simp add: heap_queue_def)
  moreover have "lawful malloc (fst s) \<noteq> None" if "heap_queue s xs" for s xs
    using that assms by (simp add: lawful_id heap_queue_def alloc_total_def)
  ultimately show ?thesis
    using ready.run_ops_list [of malloc "(Map.empty, init_queue)" "[]" ops] lawful_id [OF assms(1)]
    by simp
qed

text \<open>The allocator that gives the address above all cells in use.\<close>

definition fresh_alloc :: task_alloc where
  "fresh_alloc heap = Some (Suc (Max (insert 0 (dom heap))))"

text \<open>An allocator of eight cells.\<close>

definition small_alloc :: task_alloc where
  "small_alloc heap = List.find (\<lambda>a. heap a = None) [1..<9]"

lemma alloc_ok_small [simp]: "alloc_ok small_alloc"
  by (auto simp: alloc_ok_def small_alloc_def find_Some_iff)

definition guarded_fresh :: task_alloc where
  "guarded_fresh heap = (if finite (dom heap) then fresh_alloc heap else None)"

lemma alloc_ok_fresh [simp]: "alloc_ok guarded_fresh"
proof -
  have "heap (Suc (Max (insert 0 (dom heap)))) = None" if "finite (dom heap)" for heap :: task_heap
  proof (rule ccontr)
    assume "heap (Suc (Max (insert 0 (dom heap)))) \<noteq> None"
    then have "Suc (Max (insert 0 (dom heap))) \<le> Max (insert 0 (dom heap))"
      using that by (intro Max_ge) auto
    then show False by simp
  qed
  then show ?thesis by (auto simp: alloc_ok_def guarded_fresh_def fresh_alloc_def split: if_splits)
qed

lemma alloc_total_fresh [simp]: "alloc_total guarded_fresh"
  by (simp add: alloc_total_def guarded_fresh_def fresh_alloc_def)

lemma task_queue_refines_fifo_witness:
  "run_ops (enqueue_task guarded_fresh) take_task [Put 5, Put 7, Get, Put 9, Get, Get, Get]
     (Map.empty, init_queue) = [Some 5, Some 7, Some 9, None]"
  using task_queue_refines_fifo [OF alloc_ok_fresh alloc_total_fresh,
      of "[Put 5, Put 7, Get, Put 9, Get, Get, Get]"]
  by (simp add: list_enq_def)

text \<open>Without memory a task is lost, and with it the coroutine it would have resumed.\<close>

lemma no_memory_no_task:
  "run_ops (enqueue_task (\<lambda>_. None)) take_task [Put 5, Get] (Map.empty, init_queue) = [None]"
  by code_simp

end
