(* ===== verification/Event_Loop.thy ===== *)
theory Event_Loop
  imports Runtime_Queue Runtime_Text "HOL-Library.Multiset"
begin

text \<open>
  The event loop of the runtime (\<^verbatim>\<open>src/runtime/djinn_runtime.c\<close>): the waiting set, the
  continuations of awaited coroutines, the pending file requests, and the loop that resumes the
  ready coroutines. A coroutine is compiled code: what its resumption does to the world and
  which runtime functions it calls before it suspends is the parameter \<^verbatim>\<open>coro_api\<close> (the four
  \<^verbatim>\<open>extern __djinn_coro_*\<close> functions of the header). The operating system's \<^verbatim>\<open>read\<close> and
  \<^verbatim>\<open>write\<close> and the three uses of \<^verbatim>\<open>malloc\<close> are parameters too. A turn of the loop is
  one step of the main thread, a completed request one step of the file thread, and a task one
  step of a worker; the threads share the queues and the request list, each behind its mutex. The socket poller is not
  modelled.
\<close>

section \<open>State\<close>

datatype io_type = File_Read | File_Write

record io_request =
  io_type :: io_type
  io_fd :: int
  io_buffer :: nat
  io_count :: int
  io_coro :: nat

definition MAX_WAITING :: nat where
  "MAX_WAITING = 256"

text \<open>
  The array of waiting handles is the list of its first \<^verbatim>\<open>waiting_count\<close> entries; the
  continuations are pairs of child and parent, the newest first.
\<close>

record runtime =
  rt_heap :: task_heap
  rt_ready :: task_queue
  rt_pool :: task_queue
  rt_waiting :: "nat list"
  rt_conts :: "(nat \<times> nat) list"
  rt_io :: "io_request list"
  rt_running :: bool

record memory_api =
  ma_task :: task_alloc
  ma_cont :: "(nat \<times> nat) list \<Rightarrow> bool"
  ma_request :: "io_request list \<Rightarrow> bool"

definition runtime_init :: runtime where
  "runtime_init = \<lparr>rt_heap = Map.empty, rt_ready = init_queue, rt_pool = init_queue,
     rt_waiting = [], rt_conts = [], rt_io = [], rt_running = True\<rparr>"

definition enqueue_ready :: "memory_api \<Rightarrow> nat \<Rightarrow> runtime \<Rightarrow> runtime" where
  "enqueue_ready mem h rt =
    (let (heap, q) = enqueue_task (ma_task mem) h (rt_heap rt, rt_ready rt)
     in rt\<lparr>rt_heap := heap, rt_ready := q\<rparr>)"

section \<open>Waiting coroutines and continuations\<close>

definition mark_waiting :: "nat \<Rightarrow> nat list \<Rightarrow> nat list" where
  "mark_waiting h ws = (if length ws < MAX_WAITING then ws @ [h] else ws)"

definition is_in_waiting_set :: "nat \<Rightarrow> nat list \<Rightarrow> bool" where
  "is_in_waiting_set h ws \<longleftrightarrow> list_ex (\<lambda>w. w = h) ws"

fun waiting_index :: "nat \<Rightarrow> nat list \<Rightarrow> nat option" where
  "waiting_index h [] = None"
| "waiting_index h (w # ws) = (if w = h then Some 0 else map_option Suc (waiting_index h ws))"

text \<open>The last entry takes the place of the one removed.\<close>

definition is_waiting :: "nat \<Rightarrow> nat list \<Rightarrow> bool \<times> nat list" where
  "is_waiting h ws =
    (case waiting_index h ws of
       None \<Rightarrow> (False, ws)
     | Some i \<Rightarrow> (True, butlast (ws[i := ws ! (length ws - 1)])))"

definition remove_from_waiting :: "nat \<Rightarrow> nat list \<Rightarrow> nat list" where
  "remove_from_waiting h ws = snd (is_waiting h ws)"

text \<open>The newest continuation of a child is taken out; 0 when there is none.\<close>

fun pop_continuation :: "nat \<Rightarrow> (nat \<times> nat) list \<Rightarrow> nat \<times> (nat \<times> nat) list" where
  "pop_continuation child [] = (0, [])"
| "pop_continuation child (k # ks) =
    (if fst k = child then (snd k, ks)
     else let (parent, ks') = pop_continuation child ks in (parent, k # ks'))"

definition await :: "memory_api \<Rightarrow> nat \<Rightarrow> nat \<Rightarrow> runtime \<Rightarrow> runtime_abort + runtime" where
  "await mem child parent rt =
    (if child = 0 then Inl (Assertion ''child handle is NULL'')
     else if parent = 0 then Inl (Assertion ''parent handle is NULL'')
     else if \<not> ma_cont mem (rt_conts rt) then Inr rt
     else let rt1 = rt\<lparr>rt_conts := (child, parent) # rt_conts rt,
                       rt_waiting := mark_waiting parent (rt_waiting rt)\<rparr>
          in Inr (if \<not> is_in_waiting_set child (rt_waiting rt1) then enqueue_ready mem child rt1 else rt1))"

definition spawn :: "memory_api \<Rightarrow> nat \<Rightarrow> runtime \<Rightarrow> runtime_abort + runtime" where
  "spawn mem h rt =
    (if h = 0 then Inl (Assertion ''coro handle is NULL'') else Inr (enqueue_ready mem h rt))"

section \<open>File requests\<close>

text \<open>A request goes in front of the pending ones; the answer is 0 at once.\<close>

definition async_io ::
    "memory_api \<Rightarrow> io_type \<Rightarrow> int \<Rightarrow> nat \<Rightarrow> int \<Rightarrow> nat \<Rightarrow> runtime \<Rightarrow> runtime_abort + int \<times> runtime" where
  "async_io mem t fd buf bytes coro rt =
    (if coro = 0 then Inl (Assertion ''coro handle is NULL'')
     else if buf = 0 then Inl (Assertion ''buf is NULL'')
     else if \<not> 0 < bytes then Inl (Assertion ''count <= 0'')
     else if \<not> ma_request mem (rt_io rt) then Inl (Assertion ''Out of memory'')
     else Inr (0, rt\<lparr>rt_io := \<lparr>io_type = t, io_fd = fd, io_buffer = buf, io_count = bytes,
                              io_coro = coro\<rparr> # rt_io rt\<rparr>))"

definition async_read where
  "async_read mem = async_io mem File_Read"

definition async_write where
  "async_write mem = async_io mem File_Write"

text \<open>A string is its address and its characters; a null pointer or an empty string writes nothing.\<close>

definition console_write ::
    "memory_api \<Rightarrow> nat \<Rightarrow> string \<Rightarrow> nat \<Rightarrow> runtime \<Rightarrow> runtime_abort + int \<times> runtime" where
  "console_write mem str text coro rt =
    (if str = 0 then Inr (0, rt)
     else if int (length text) \<le> 0 then Inr (0, rt)
     else async_write mem 1 str (int (length text)) coro rt)"

definition console_error ::
    "memory_api \<Rightarrow> nat \<Rightarrow> string \<Rightarrow> nat \<Rightarrow> runtime \<Rightarrow> runtime_abort + int \<times> runtime" where
  "console_error mem str text coro rt =
    (if str = 0 then Inr (0, rt)
     else if int (length text) \<le> 0 then Inr (0, rt)
     else async_write mem 2 str (int (length text)) coro rt)"

definition console_read_line ::
    "memory_api \<Rightarrow> nat \<Rightarrow> int \<Rightarrow> nat \<Rightarrow> runtime \<Rightarrow> runtime_abort + int \<times> runtime" where
  "console_read_line mem buf limit coro rt =
    (if buf = 0 \<or> limit \<le> 0 then Inr (0, rt) else async_read mem 0 buf limit coro rt)"

text \<open>
  One round of the file thread: the newest request is taken, performed by the operating system
  (whose result is stored in the request and freed with it), and its coroutine made ready.
\<close>

definition file_io_step ::
    "memory_api \<Rightarrow> (io_request \<Rightarrow> 'w \<Rightarrow> 'w) \<Rightarrow> 'w \<times> runtime \<Rightarrow> 'w \<times> runtime" where
  "file_io_step mem perform = (\<lambda>(w, rt).
    (if \<not> rt_running rt then (w, rt)
     else case rt_io rt of
       [] \<Rightarrow> (w, rt)
     | req # reqs \<Rightarrow>
         let rt1 = rt\<lparr>rt_io := reqs\<rparr>
         in (perform req w, if io_coro req \<noteq> 0 then enqueue_ready mem (io_coro req) rt1 else rt1)))"

section \<open>What coroutines do\<close>

datatype rt_call =
    Call_Spawn nat
  | Call_Await nat nat
  | Call_Mark nat
  | Call_Read int nat int nat
  | Call_Write int nat int nat

record 'w coro_api =
  co_done :: "'w \<Rightarrow> nat \<Rightarrow> bool"
  co_resume :: "'w \<Rightarrow> nat \<Rightarrow> 'w \<times> rt_call list"
  co_destroy :: "'w \<Rightarrow> nat \<Rightarrow> 'w"
  co_promise :: "'w \<Rightarrow> nat \<Rightarrow> int"

fun run_call :: "memory_api \<Rightarrow> rt_call \<Rightarrow> runtime \<Rightarrow> runtime_abort + runtime" where
  "run_call mem (Call_Spawn h) rt = spawn mem h rt"
| "run_call mem (Call_Await c p) rt = await mem c p rt"
| "run_call mem (Call_Mark h) rt = Inr (rt\<lparr>rt_waiting := mark_waiting h (rt_waiting rt)\<rparr>)"
| "run_call mem (Call_Read fd buf bytes coro) rt =
    map_sum id snd (async_read mem fd buf bytes coro rt)"
| "run_call mem (Call_Write fd buf bytes coro) rt =
    map_sum id snd (async_write mem fd buf bytes coro rt)"

fun run_calls :: "memory_api \<Rightarrow> rt_call list \<Rightarrow> runtime \<Rightarrow> runtime_abort + runtime" where
  "run_calls mem [] rt = Inr rt"
| "run_calls mem (c # cs) rt =
    (case run_call mem c rt of Inl e \<Rightarrow> Inl e | Inr rt' \<Rightarrow> run_calls mem cs rt')"

section \<open>The loop\<close>

definition process_completed_coro ::
    "'w coro_api \<Rightarrow> memory_api \<Rightarrow> nat \<Rightarrow> nat \<Rightarrow> 'w \<times> runtime \<Rightarrow> 'w \<times> runtime" where
  "process_completed_coro api mem h main_handle = (\<lambda>(w, rt).
    (let rt1 = rt\<lparr>rt_waiting := remove_from_waiting h (rt_waiting rt)\<rparr>;
         (parent, conts) = pop_continuation h (rt_conts rt1);
         rt2 = rt1\<lparr>rt_conts := conts\<rparr>
     in if parent \<noteq> 0
        then (w, enqueue_ready mem parent (rt2\<lparr>rt_waiting := remove_from_waiting parent (rt_waiting rt2)\<rparr>))
        else if h \<noteq> main_handle then (co_destroy api w h, rt2)
        else (w, rt2)))"

text \<open>Re-enqueueing a coroutine that yielded, unless it waits; then its mark is taken off.\<close>

definition requeue :: "memory_api \<Rightarrow> nat \<Rightarrow> runtime \<Rightarrow> runtime" where
  "requeue mem h rt =
    (let (waits, ws) = is_waiting h (rt_waiting rt); rt1 = rt\<lparr>rt_waiting := ws\<rparr>
     in if waits then rt1 else enqueue_ready mem h rt1)"

text \<open>The handling of a dequeued task in the main loop.\<close>

definition loop_task ::
    "'w coro_api \<Rightarrow> memory_api \<Rightarrow> nat \<Rightarrow> nat \<Rightarrow> 'w \<times> runtime \<Rightarrow> runtime_abort + 'w \<times> runtime" where
  "loop_task api mem main_handle h = (\<lambda>(w, rt).
    (if \<not> co_done api w h then
       (let (w1, calls) = co_resume api w h in
        case run_calls mem calls rt of
          Inl e \<Rightarrow> Inl e
        | Inr rt1 \<Rightarrow>
            Inr (if \<not> co_done api w1 h then (w1, requeue mem h rt1)
                 else process_completed_coro api mem h main_handle (w1, rt1)))
     else Inr (process_completed_coro api mem h main_handle (w, rt))))"

text \<open>The handling of a task in \<^verbatim>\<open>drain_ready_queue\<close>, whose tests are in another order.\<close>

definition drain_task ::
    "'w coro_api \<Rightarrow> memory_api \<Rightarrow> nat \<Rightarrow> nat \<Rightarrow> 'w \<times> runtime \<Rightarrow> runtime_abort + 'w \<times> runtime" where
  "drain_task api mem main_handle h = (\<lambda>(w, rt).
    (let complete = (\<lambda>s. if co_done api (fst s) h
                          then process_completed_coro api mem h main_handle s else s) in
     if \<not> co_done api w h then
       (let (w1, calls) = co_resume api w h in
        case run_calls mem calls rt of
          Inl e \<Rightarrow> Inl e
        | Inr rt1 \<Rightarrow>
            Inr (if \<not> co_done api w1 h then (w1, requeue mem h rt1) else complete (w1, rt1)))
     else Inr (complete (w, rt))))"

lemma drain_task_is_loop_task: "drain_task api mem m h s = loop_task api mem m h s"
  by (cases s) (simp add: drain_task_def loop_task_def split: prod.split sum.split)

text \<open>
  Taking a task off the ready queue, handling it and freeing its cell; an empty queue leaves the
  state.
\<close>

definition with_next_task ::
    "(nat \<Rightarrow> 'w \<times> runtime \<Rightarrow> runtime_abort + 'w \<times> runtime) \<Rightarrow> 'w \<times> runtime
      \<Rightarrow> runtime_abort + 'w \<times> runtime" where
  "with_next_task handle = (\<lambda>(w, rt).
    (let (a, heap, q) = dequeue_task (rt_heap rt, rt_ready rt) in
     if a = 0 then Inr (w, rt)
     else case handle (tk_handle (task_at heap a)) (w, rt\<lparr>rt_heap := heap, rt_ready := q\<rparr>) of
         Inl e \<Rightarrow> Inl e
       | Inr (w', rt') \<Rightarrow> Inr (w', rt'\<lparr>rt_heap := free_cell a (rt_heap rt')\<rparr>)))"

datatype phase = Looping | Draining | Finished

text \<open>One turn of \<^verbatim>\<open>run_event_loop_core\<close> or, once the main coroutine is done, of
  \<^verbatim>\<open>drain_ready_queue\<close>.\<close>

definition main_turn ::
    "'w coro_api \<Rightarrow> memory_api \<Rightarrow> nat \<Rightarrow> phase \<times> 'w \<times> runtime
      \<Rightarrow> runtime_abort + phase \<times> 'w \<times> runtime" where
  "main_turn api mem main_handle = (\<lambda>(ph, w, rt).
    (case ph of
       Looping \<Rightarrow>
         if \<not> rt_running rt then Inr (Finished, w, rt)
         else (case with_next_task (loop_task api mem main_handle) (w, rt) of
             Inl e \<Rightarrow> Inl e
           | Inr (w', rt') \<Rightarrow> Inr (if co_done api w' main_handle then Draining else Looping, w', rt'))
     | Draining \<Rightarrow>
         if tq_head (rt_ready rt) = 0 then Inr (Finished, w, rt)
         else map_sum id (Pair Draining) (with_next_task (drain_task api mem main_handle) (w, rt))
     | Finished \<Rightarrow> Inr (Finished, w, rt)))"

text \<open>The start of \<^verbatim>\<open>run_event_loop_core\<close>.\<close>

definition loop_start ::
    "memory_api \<Rightarrow> nat \<Rightarrow> 'w \<times> runtime \<Rightarrow> runtime_abort + phase \<times> 'w \<times> runtime" where
  "loop_start mem main_handle = (\<lambda>(w, rt).
    (if main_handle = 0 then Inl (Assertion ''main handle is NULL'')
     else Inr (Looping, w,
       if \<not> is_in_waiting_set main_handle (rt_waiting rt) then enqueue_ready mem main_handle rt else rt)))"

text \<open>The loop without other threads; fuel bounds the turns.\<close>

fun run_turns ::
    "'w coro_api \<Rightarrow> memory_api \<Rightarrow> nat \<Rightarrow> nat \<Rightarrow> phase \<times> 'w \<times> runtime
      \<Rightarrow> (runtime_abort + 'w \<times> runtime) option" where
  "run_turns api mem main_handle 0 s = None"
| "run_turns api mem main_handle (Suc fuel) s =
    (if fst s = Finished then Some (Inr (snd s))
     else case main_turn api mem main_handle s of
         Inl e \<Rightarrow> Some (Inl e)
       | Inr s' \<Rightarrow> run_turns api mem main_handle fuel s')"

definition event_loop_run ::
    "'w coro_api \<Rightarrow> memory_api \<Rightarrow> nat \<Rightarrow> nat \<Rightarrow> 'w \<times> runtime \<Rightarrow> (runtime_abort + 'w \<times> runtime) option" where
  "event_loop_run api mem fuel main_handle s =
    (case loop_start mem main_handle s of
       Inl e \<Rightarrow> Some (Inl e)
     | Inr s' \<Rightarrow> run_turns api mem main_handle fuel s')"

text \<open>\<^verbatim>\<open>__djinn_event_loop\<close>: the promise of the main coroutine, which is then destroyed.\<close>

definition event_loop ::
    "'w coro_api \<Rightarrow> memory_api \<Rightarrow> nat \<Rightarrow> nat \<Rightarrow> 'w \<times> runtime
      \<Rightarrow> (runtime_abort + int \<times> 'w \<times> runtime) option" where
  "event_loop api mem fuel main_handle s =
    map_option (map_sum id (\<lambda>(w, rt). (co_promise api w main_handle, co_destroy api w main_handle, rt)))
      (event_loop_run api mem fuel main_handle s)"

section \<open>The worker pool\<close>

definition enqueue_pool :: "memory_api \<Rightarrow> nat \<Rightarrow> runtime \<Rightarrow> runtime" where
  "enqueue_pool mem h rt =
    (let (heap, q) = enqueue_task (ma_task mem) h (rt_heap rt, rt_pool rt)
     in rt\<lparr>rt_heap := heap, rt_pool := q\<rparr>)"

text \<open>One round of a worker thread; it waits while its queue is empty.\<close>

definition worker_step ::
    "'w coro_api \<Rightarrow> memory_api \<Rightarrow> 'w \<times> runtime \<Rightarrow> runtime_abort + 'w \<times> runtime" where
  "worker_step api mem = (\<lambda>(w, rt).
    (let (a, heap, q) = dequeue_task (rt_heap rt, rt_pool rt) in
     if a = 0 then Inr (w, rt)
     else let h = tk_handle (task_at heap a);
              rt1 = rt\<lparr>rt_heap := heap, rt_pool := q\<rparr>;
              free = (\<lambda>r. r\<lparr>rt_heap := free_cell a (rt_heap r)\<rparr>)
          in if co_done api w h then Inr (w, free rt1)
             else let (w1, calls) = co_resume api w h in
               case run_calls mem calls rt1 of
                 Inl e \<Rightarrow> Inl e
               | Inr rt2 \<Rightarrow>
                   Inr (if \<not> co_done api w1 h then (w1, free (enqueue_pool mem h rt2))
                        else (co_destroy api w1 h, free rt2))))"

section \<open>The threads together\<close>

inductive rt_step ::
    "'w coro_api \<Rightarrow> memory_api \<Rightarrow> (io_request \<Rightarrow> 'w \<Rightarrow> 'w) \<Rightarrow> nat
      \<Rightarrow> phase \<times> 'w \<times> runtime \<Rightarrow> phase \<times> 'w \<times> runtime \<Rightarrow> bool"
  for api mem perform main_handle where
  turn: "main_turn api mem main_handle s = Inr s' \<Longrightarrow> rt_step api mem perform main_handle s s'"
| file_io: "rt_step api mem perform main_handle (ph, s) (ph, file_io_step mem perform s)"
| worker: "worker_step api mem s = Inr s' \<Longrightarrow> rt_step api mem perform main_handle (ph, s) (ph, s')"

inductive rt_reach ::
    "'w coro_api \<Rightarrow> memory_api \<Rightarrow> (io_request \<Rightarrow> 'w \<Rightarrow> 'w) \<Rightarrow> nat \<Rightarrow> 'w
      \<Rightarrow> phase \<times> 'w \<times> runtime \<Rightarrow> bool"
  for api mem perform main_handle w0 where
  start: "loop_start mem main_handle (w0, runtime_init) = Inr s
    \<Longrightarrow> rt_reach api mem perform main_handle w0 s"
| step: "rt_reach api mem perform main_handle w0 s \<Longrightarrow> rt_step api mem perform main_handle s s'
    \<Longrightarrow> rt_reach api mem perform main_handle w0 s'"

inductive_cases rt_stepE: "rt_step api mem perform main_handle s s'"

end
