(* ===== verification/Event_Loop_Correct.thy ===== *)
theory Event_Loop_Correct
  imports Event_Loop
begin

text \<open>
  What the event loop guarantees: the waiting set as a multiset, the ready queue through every
  operation, the consistency of every reachable state, that no coroutine is forgotten when the
  compiled code keeps its side of the protocol, the order in which file requests run, and that
  draining ends.
\<close>

section \<open>The waiting set\<close>

lemma is_in_waiting_set_iff [simp]: "is_in_waiting_set h ws \<longleftrightarrow> h \<in> set ws"
  by (auto simp: is_in_waiting_set_def list_ex_iff)

lemma waiting_index_None: "waiting_index h ws = None \<longleftrightarrow> h \<notin> set ws"
  by (induction ws) auto

lemma waiting_index_Some: "waiting_index h ws = Some i \<Longrightarrow> i < length ws \<and> ws ! i = h"
  by (induction ws arbitrary: i) (auto split: if_splits)

lemma mset_overwrite_last:
  assumes "i < length ws"
  shows "mset (butlast (ws[i := ws ! (length ws - 1)])) = mset ws - {#ws ! i#}"
proof (cases ws rule: rev_cases)
  case (snoc vs v)
  show ?thesis
  proof (cases "i = length vs")
    case True
    then show ?thesis using snoc by simp
  next
    case False
    then have "i < length vs" using assms snoc by simp
    then show ?thesis
      using snoc by (simp add: list_update_append butlast_append mset_update nth_append)
  qed
qed (use assms in simp)

text \<open>The test answers membership and takes one occurrence out, keeping the others.\<close>

lemma is_waiting_mset:
  "fst (is_waiting h ws) = (h \<in> set ws) \<and> mset (snd (is_waiting h ws)) = mset ws - {#h#}"
proof (cases "waiting_index h ws")
  case None
  then have "h \<notin> set ws" using waiting_index_None by blast
  then show ?thesis using None by (simp add: is_waiting_def)
next
  case (Some i)
  note i = waiting_index_Some [OF this]
  then have "h \<in> set ws" by auto
  then show ?thesis using Some i mset_overwrite_last [of i ws] by (simp add: is_waiting_def)
qed

lemma is_waiting_Nil [simp]: "is_waiting h [] = (False, [])"
  by (simp add: is_waiting_def)

lemma is_waiting_single [simp]: "is_waiting h [h] = (True, [])"
  by (simp add: is_waiting_def)

lemma remove_from_waiting_Nil [simp]: "remove_from_waiting h [] = []"
  by (simp add: remove_from_waiting_def)

lemma pop_continuation_split:
  "pop_continuation c ks = (p, ks') \<Longrightarrow>
    (p = 0 \<and> ks' = ks \<and> c \<notin> fst ` set ks)
    \<or> (\<exists>us vs. ks = us @ (c, p) # vs \<and> ks' = us @ vs \<and> c \<notin> fst ` set us)"
proof (induction ks arbitrary: p ks')
  case (Cons k ks)
  show ?case
  proof (cases "fst k = c")
    case True
    then have "k # ks = [] @ (c, p) # ks'" using Cons.prems by (cases k) auto
    then show ?thesis by fastforce
  next
    case False
    then obtain ks1 where k: "pop_continuation c ks = (p, ks1)" "ks' = k # ks1"
      using Cons.prems by (auto split: prod.splits)
    from Cons.IH [OF k(1)] show ?thesis
    proof
      assume "p = 0 \<and> ks1 = ks \<and> c \<notin> fst ` set ks"
      then show ?thesis using k False by auto
    next
      assume "\<exists>us vs. ks = us @ (c, p) # vs \<and> ks1 = us @ vs \<and> c \<notin> fst ` set us"
      then obtain us vs where "ks = us @ (c, p) # vs" "ks1 = us @ vs" "c \<notin> fst ` set us" by blast
      then have "k # ks = (k # us) @ (c, p) # vs \<and> ks' = (k # us) @ vs \<and> c \<notin> fst ` set (k # us)"
        using k(2) False by auto
      then show ?thesis by blast
    qed
  qed
qed simp

section \<open>The ready queue\<close>

text \<open>
  The handles in the ready queue, and the invariant with a set of cells that belong to no queue:
  the cell of the task being handled.
\<close>

fun walk :: "nat \<Rightarrow> task_heap \<Rightarrow> nat \<Rightarrow> nat list" where
  "walk 0 heap p = []"
| "walk (Suc n) heap p = (if p = 0 then [] else p # walk n heap (tk_next (task_at heap p)))"

definition ready_handles :: "runtime \<Rightarrow> nat list" where
  "ready_handles rt =
    handles (rt_heap rt) (walk (nat (tq_count (rt_ready rt))) (rt_heap rt) (tq_head (rt_ready rt)))"

definition ready_apart :: "nat set \<Rightarrow> runtime \<Rightarrow> nat list \<Rightarrow> bool" where
  "ready_apart A rt hs \<longleftrightarrow> (\<exists>as. queue_rep (rt_heap rt) (rt_ready rt) as \<and> handles (rt_heap rt) as = hs
     \<and> finite (dom (rt_heap rt)) \<and> A \<inter> set as = {} \<and> A \<subseteq> dom (rt_heap rt))"

lemma walk_chain: "chain heap p as \<Longrightarrow> walk (length as) heap p = as"
  by (induction heap p as rule: chain.induct) auto

lemma ready_apart_handles: "ready_apart A rt hs \<Longrightarrow> ready_handles rt = hs"
  by (auto simp: ready_apart_def ready_handles_def queue_rep_def walk_chain)

lemma ready_apart_cong:
  "rt_heap rt' = rt_heap rt \<Longrightarrow> rt_ready rt' = rt_ready rt \<Longrightarrow> ready_apart A rt' hs \<longleftrightarrow> ready_apart A rt hs"
  by (simp add: ready_apart_def)

lemma ready_apart_fields [simp]:
  "ready_apart A (rt\<lparr>rt_waiting := ws\<rparr>) hs \<longleftrightarrow> ready_apart A rt hs"
  "ready_apart A (rt\<lparr>rt_conts := ks\<rparr>) hs \<longleftrightarrow> ready_apart A rt hs"
  "ready_apart A (rt\<lparr>rt_io := ios\<rparr>) hs \<longleftrightarrow> ready_apart A rt hs"
  by (simp_all add: ready_apart_def)

lemma enqueue_ready_fields [simp]:
  "rt_pool (enqueue_ready mem h rt) = rt_pool rt"
  "rt_waiting (enqueue_ready mem h rt) = rt_waiting rt"
  "rt_conts (enqueue_ready mem h rt) = rt_conts rt"
  "rt_io (enqueue_ready mem h rt) = rt_io rt"
  "rt_running (enqueue_ready mem h rt) = rt_running rt"
  by (simp_all add: enqueue_ready_def split: prod.split)

lemma ready_apart_enqueue:
  assumes "alloc_ok (ma_task mem)" "ready_apart A rt hs"
  shows "ready_apart A (enqueue_ready mem h rt)
    (if ma_task mem (rt_heap rt) = None then hs else hs @ [h])"
proof -
  from assms(2) obtain as where r: "queue_rep (rt_heap rt) (rt_ready rt) as"
    "handles (rt_heap rt) as = hs" "finite (dom (rt_heap rt))" "A \<inter> set as = {}" "A \<subseteq> dom (rt_heap rt)"
    by (auto simp: ready_apart_def)
  show ?thesis
  proof (cases "ma_task mem (rt_heap rt)")
    case None
    then show ?thesis using assms(2) by (simp add: enqueue_ready_def enqueue_dropped)
  next
    case (Some a)
    note e = enqueue_rep [OF assms(1) Some r(1), of h]
    have "rt_heap rt a = None" using alloc_okD [OF assms(1) Some] by simp
    then have "a \<notin> A" using r(5) by auto
    moreover have "finite (dom (fst (enqueue_task (ma_task mem) h (rt_heap rt, rt_ready rt))))"
      "A \<subseteq> dom (fst (enqueue_task (ma_task mem) h (rt_heap rt, rt_ready rt)))"
      using r(3,5) Some by (auto simp: enqueue_task_def Let_def)
    ultimately show ?thesis using e r(2,4) Some
      unfolding ready_apart_def enqueue_ready_def
      by (auto split: prod.split intro!: exI [of _ "as @ [a]"])
  qed
qed

text \<open>Operations that only add to the ready queue.\<close>

definition grows :: "nat set \<Rightarrow> runtime \<Rightarrow> runtime \<Rightarrow> bool" where
  "grows A rt rt' \<longleftrightarrow> (\<forall>hs. ready_apart A rt hs \<longrightarrow> (\<exists>new. ready_apart A rt' (hs @ new)))
     \<and> rt_pool rt' = rt_pool rt \<and> rt_running rt' = rt_running rt"

lemma growsD: "grows A rt rt' \<Longrightarrow> ready_apart A rt hs \<Longrightarrow> \<exists>new. ready_apart A rt' (hs @ new)"
  by (simp add: grows_def)

lemma ready_grows_refl: "rt_heap rt' = rt_heap rt \<Longrightarrow> rt_ready rt' = rt_ready rt \<Longrightarrow> rt_pool rt' = rt_pool rt
    \<Longrightarrow> rt_running rt' = rt_running rt \<Longrightarrow> grows A rt rt'"
  unfolding grows_def by (metis append_Nil2 ready_apart_cong)

lemma ready_grows_trans: "grows A rt rt1 \<Longrightarrow> grows A rt1 rt2 \<Longrightarrow> grows A rt rt2"
  unfolding grows_def by (metis append_assoc)

lemma grows_enqueue:
  assumes "alloc_ok (ma_task mem)"
  shows "grows A rt (enqueue_ready mem h rt)"
proof -
  have "\<exists>new. ready_apart A (enqueue_ready mem h rt) (hs @ new)" if "ready_apart A rt hs" for hs
  proof (cases "ma_task mem (rt_heap rt) = None")
    case True
    then show ?thesis using ready_apart_enqueue [OF assms that, of h] by (intro exI [of _ "[]"]) simp
  next
    case False
    from ready_apart_enqueue [OF assms that, of h] show ?thesis unfolding if_not_P [OF False] by blast
  qed
  then show ?thesis by (simp add: grows_def)
qed

lemma grows_spawn: "alloc_ok (ma_task mem) \<Longrightarrow> spawn mem h rt = Inr rt' \<Longrightarrow> grows A rt rt'"
  by (auto simp: spawn_def grows_enqueue split: if_splits)

lemma grows_await:
  assumes "alloc_ok (ma_task mem)" "await mem c p rt = Inr rt'"
  shows "grows A rt rt'"
proof -
  let ?rt1 = "rt\<lparr>rt_conts := (c, p) # rt_conts rt, rt_waiting := mark_waiting p (rt_waiting rt)\<rparr>"
  consider "rt' = rt" | "rt' = ?rt1" | "rt' = enqueue_ready mem c ?rt1"
    using assms(2) by (auto simp: await_def Let_def split: if_splits)
  then show ?thesis
  proof cases
    case 1
    then show ?thesis by (simp add: ready_grows_refl)
  next
    case 2
    then show ?thesis by (simp add: ready_grows_refl)
  next
    case 3
    have "grows A rt ?rt1" by (simp add: ready_grows_refl)
    with grows_enqueue [OF assms(1)] show ?thesis unfolding 3 by (rule ready_grows_trans [rotated])
  qed
qed

lemma async_io_Inr:
  "async_io mem t fd buf bytes coro rt = Inr (r, rt') \<Longrightarrow>
    r = 0 \<and> coro \<noteq> 0 \<and> rt' = rt\<lparr>rt_io := \<lparr>io_type = t, io_fd = fd, io_buffer = buf, io_count = bytes,
      io_coro = coro\<rparr> # rt_io rt\<rparr>"
  by (auto simp: async_io_def split: if_splits)

lemma run_call_io:
  "map_sum id snd (async_io mem t fd buf bytes coro rt) = Inr rt' \<Longrightarrow>
    coro \<noteq> 0 \<and> rt' = rt\<lparr>rt_io := \<lparr>io_type = t, io_fd = fd, io_buffer = buf, io_count = bytes,
      io_coro = coro\<rparr> # rt_io rt\<rparr>"
proof (cases "async_io mem t fd buf bytes coro rt")
  case (Inr r)
  obtain a b where "r = (a, b)" by (cases r)
  moreover assume "map_sum id snd (async_io mem t fd buf bytes coro rt) = Inr rt'"
  ultimately show ?thesis using Inr async_io_Inr [of mem t fd buf bytes coro rt a b] by simp
qed simp

lemma grows_call:
  assumes "alloc_ok (ma_task mem)" "run_call mem c rt = Inr rt'"
  shows "grows A rt rt'"
proof (cases c)
  case (Call_Spawn h)
  then show ?thesis using assms grows_spawn by simp
next
  case (Call_Await ch p)
  then show ?thesis using assms grows_await by simp
next
  case (Call_Mark h)
  then show ?thesis using assms by (auto intro: ready_grows_refl)
next
  case (Call_Read fd buf bytes coro)
  then show ?thesis using run_call_io [of mem File_Read fd buf bytes coro rt rt'] assms(2)
    by (simp add: async_read_def ready_grows_refl)
next
  case (Call_Write fd buf bytes coro)
  then show ?thesis using run_call_io [of mem File_Write fd buf bytes coro rt rt'] assms(2)
    by (simp add: async_write_def ready_grows_refl)
qed

lemma grows_calls:
  assumes "alloc_ok (ma_task mem)"
  shows "run_calls mem cs rt = Inr rt' \<Longrightarrow> grows A rt rt'"
proof (induction cs arbitrary: rt)
  case Nil
  then show ?case by (simp add: ready_grows_refl)
next
  case (Cons c cs)
  from Cons.prems obtain rt1 where "run_call mem c rt = Inr rt1" "run_calls mem cs rt1 = Inr rt'"
    by (auto split: sum.splits)
  with Cons.IH show ?case using grows_call [OF assms] ready_grows_trans by blast
qed

section \<open>The protocol of compiled coroutines\<close>

text \<open>
  A coroutine makes its calls in its own name, marks itself at most once, right before it
  suspends, and a mark without an await comes with a request that will wake it.
\<close>

fun made_by :: "nat \<Rightarrow> rt_call \<Rightarrow> bool" where
  "made_by h (Call_Spawn x) \<longleftrightarrow> True"
| "made_by h (Call_Await c p) \<longleftrightarrow> p = h"
| "made_by h (Call_Mark x) \<longleftrightarrow> x = h"
| "made_by h (Call_Read fd buf bytes coro) \<longleftrightarrow> coro = h"
| "made_by h (Call_Write fd buf bytes coro) \<longleftrightarrow> coro = h"

fun marks :: "rt_call \<Rightarrow> bool" where
  "marks (Call_Await c p) \<longleftrightarrow> True"
| "marks (Call_Mark x) \<longleftrightarrow> True"
| "marks c \<longleftrightarrow> False"

fun requests :: "rt_call \<Rightarrow> bool" where
  "requests (Call_Read fd buf bytes coro) \<longleftrightarrow> True"
| "requests (Call_Write fd buf bytes coro) \<longleftrightarrow> True"
| "requests c \<longleftrightarrow> False"

definition polite :: "nat \<Rightarrow> bool \<Rightarrow> rt_call list \<Rightarrow> bool" where
  "polite h finished cs \<longleftrightarrow> list_all (made_by h) cs
     \<and> length (filter marks cs) \<le> (if finished then 0 else 1)
     \<and> (Call_Mark h \<in> set cs \<longrightarrow> list_ex requests cs)"

definition well_behaved :: "'w coro_api \<Rightarrow> bool" where
  "well_behaved api \<longleftrightarrow> (\<forall>w h. polite h (co_done api (fst (co_resume api w h)) h) (snd (co_resume api w h)))"

text \<open>What calls made in the name of \<open>h\<close> do to the lists.\<close>

definition effects :: "nat \<Rightarrow> rt_call list \<Rightarrow> runtime \<Rightarrow> runtime \<Rightarrow> bool" where
  "effects h cs rt rt' \<longleftrightarrow> (\<exists>ks ios k. rt_conts rt' = ks @ rt_conts rt \<and> snd ` set ks \<subseteq> {h} - {0}
     \<and> rt_io rt' = ios @ rt_io rt \<and> io_coro ` set ios \<subseteq> {h} - {0} \<and> (list_ex requests cs \<longrightarrow> ios \<noteq> [])
     \<and> k \<le> length (filter marks cs) \<and> (0 < k \<longrightarrow> ks \<noteq> [] \<or> Call_Mark h \<in> set cs)
     \<and> (length (rt_waiting rt) + length (filter marks cs) \<le> MAX_WAITING
          \<longrightarrow> rt_waiting rt' = rt_waiting rt @ replicate k h))"

lemma effectsI:
  "rt_conts rt' = ks @ rt_conts rt \<Longrightarrow> snd ` set ks \<subseteq> {h} - {0} \<Longrightarrow> rt_io rt' = ios @ rt_io rt
    \<Longrightarrow> io_coro ` set ios \<subseteq> {h} - {0} \<Longrightarrow> (list_ex requests cs \<Longrightarrow> ios \<noteq> [])
    \<Longrightarrow> k \<le> length (filter marks cs) \<Longrightarrow> (0 < k \<Longrightarrow> ks \<noteq> [] \<or> Call_Mark h \<in> set cs)
    \<Longrightarrow> (length (rt_waiting rt) + length (filter marks cs) \<le> MAX_WAITING
          \<Longrightarrow> rt_waiting rt' = rt_waiting rt @ replicate k h)
    \<Longrightarrow> effects h cs rt rt'"
  unfolding effects_def by blast

lemma effects_call:
  assumes "run_call mem c rt = Inr rt'" "made_by h c"
  shows "effects h [c] rt rt'"
proof (cases c)
  case (Call_Spawn x)
  then have "rt' = enqueue_ready mem x rt" using assms by (simp add: spawn_def split: if_splits)
  then show ?thesis using Call_Spawn by (intro effectsI [of _ "[]" _ _ "[]" _ 0]) simp_all
next
  case (Call_Await x p)
  with assms have p: "p = h" and a: "await mem x h rt = Inr rt'" by simp_all
  show ?thesis
  proof (cases "ma_cont mem (rt_conts rt)")
    case True
    then have r: "h \<noteq> 0" "rt_conts rt' = [(x, h)] @ rt_conts rt" "rt_io rt' = [] @ rt_io rt"
      "rt_waiting rt' = mark_waiting h (rt_waiting rt)"
      using a by (auto simp: await_def Let_def split: if_splits)
    show ?thesis using r Call_Await
      by (intro effectsI [of _ "[(x, h)]" _ _ "[]" _ 1]) (simp_all add: mark_waiting_def)
  next
    case False
    then have "rt' = rt" using a by (auto simp: await_def split: if_splits)
    then show ?thesis using Call_Await by (intro effectsI [of _ "[]" _ _ "[]" _ 0]) simp_all
  qed
next
  case (Call_Mark x)
  then show ?thesis using assms
    by (intro effectsI [of _ "[]" _ _ "[]" _ 1]) (auto simp: mark_waiting_def)
next
  case (Call_Read fd buf bytes coro)
  then have c: "coro = h" "map_sum id snd (async_io mem File_Read fd buf bytes coro rt) = Inr rt'"
    using assms by (simp_all add: async_read_def)
  from run_call_io [OF c(2)] c(1) Call_Read show ?thesis
    by (intro effectsI [of _ "[]" _ _ "[hd (rt_io rt')]" _ 0]) auto
next
  case (Call_Write fd buf bytes coro)
  then have c: "coro = h" "map_sum id snd (async_io mem File_Write fd buf bytes coro rt) = Inr rt'"
    using assms by (simp_all add: async_write_def)
  from run_call_io [OF c(2)] c(1) Call_Write show ?thesis
    by (intro effectsI [of _ "[]" _ _ "[hd (rt_io rt')]" _ 0]) auto
qed

lemma effects_Cons:
  assumes "effects h [c] rt rt1" "effects h cs rt1 rt2"
  shows "effects h (c # cs) rt rt2"
proof -
  from assms(1) obtain ks ios k where 1: "rt_conts rt1 = ks @ rt_conts rt" "snd ` set ks \<subseteq> {h} - {0}"
    "rt_io rt1 = ios @ rt_io rt" "io_coro ` set ios \<subseteq> {h} - {0}" "requests c \<longrightarrow> ios \<noteq> []"
    "k \<le> length (filter marks [c])" "0 < k \<longrightarrow> ks \<noteq> [] \<or> Call_Mark h = c"
    "length (rt_waiting rt) + length (filter marks [c]) \<le> MAX_WAITING
       \<longrightarrow> rt_waiting rt1 = rt_waiting rt @ replicate k h"
    unfolding effects_def by auto
  from assms(2) obtain ks' ios' k' where 2: "rt_conts rt2 = ks' @ rt_conts rt1" "snd ` set ks' \<subseteq> {h} - {0}"
    "rt_io rt2 = ios' @ rt_io rt1" "io_coro ` set ios' \<subseteq> {h} - {0}" "list_ex requests cs \<longrightarrow> ios' \<noteq> []"
    "k' \<le> length (filter marks cs)" "0 < k' \<longrightarrow> ks' \<noteq> [] \<or> Call_Mark h \<in> set cs"
    "length (rt_waiting rt1) + length (filter marks cs) \<le> MAX_WAITING
       \<longrightarrow> rt_waiting rt2 = rt_waiting rt1 @ replicate k' h"
    unfolding effects_def by auto
  have n: "length (filter marks (c # cs)) = length (filter marks [c]) + length (filter marks cs)" by simp
  show ?thesis
  proof (rule effectsI [of _ "ks' @ ks" _ _ "ios' @ ios" _ "k + k'"])
    assume room: "length (rt_waiting rt) + length (filter marks (c # cs)) \<le> MAX_WAITING"
    then have "rt_waiting rt1 = rt_waiting rt @ replicate k h" using 1(8) n by simp
    moreover from this have "rt_waiting rt2 = rt_waiting rt1 @ replicate k' h"
      using 2(8) 1(6) room n by simp
    ultimately show "rt_waiting rt2 = rt_waiting rt @ replicate (k + k') h"
      by (simp add: replicate_add)
  next
    show "k + k' \<le> length (filter marks (c # cs))" using 1(6) 2(6) n by linarith
  next
    show "rt_conts rt2 = (ks' @ ks) @ rt_conts rt" using 1(1) 2(1) by simp
    show "rt_io rt2 = (ios' @ ios) @ rt_io rt" using 1(3) 2(3) by simp
    show "snd ` set (ks' @ ks) \<subseteq> {h} - {0}" using 1(2) 2(2) by (simp add: image_Un)
    show "io_coro ` set (ios' @ ios) \<subseteq> {h} - {0}" using 1(4) 2(4) by (simp add: image_Un)
    show "list_ex requests (c # cs) \<Longrightarrow> ios' @ ios \<noteq> []" using 1(5) 2(5) by auto
    show "0 < k + k' \<Longrightarrow> ks' @ ks \<noteq> [] \<or> Call_Mark h \<in> set (c # cs)" using 1(7) 2(7) by auto
  qed
qed

lemma effects_calls:
  "run_calls mem cs rt = Inr rt' \<Longrightarrow> list_all (made_by h) cs \<Longrightarrow> effects h cs rt rt'"
proof (induction cs arbitrary: rt)
  case Nil
  then show ?case by (intro effectsI [of _ "[]" _ _ "[]" _ 0]) simp_all
next
  case (Cons c cs)
  from Cons.prems(1) obtain rt1 where r: "run_call mem c rt = Inr rt1" "run_calls mem cs rt1 = Inr rt'"
    by (auto split: sum.splits)
  show ?case
    by (rule effects_Cons [OF effects_call [OF r(1)] Cons.IH [OF r(2)]]) (use Cons.prems(2) in simp_all)
qed

section \<open>One turn\<close>

text \<open>What holds between turns when the compiled code keeps the protocol.\<close>

definition settled :: "nat set \<Rightarrow> runtime \<Rightarrow> bool" where
  "settled A rt \<longleftrightarrow> (\<exists>hs. ready_apart A rt hs) \<and> rt_waiting rt = [] \<and> rt_pool rt = init_queue
     \<and> 0 \<notin> snd ` set (rt_conts rt) \<and> 0 \<notin> io_coro ` set (rt_io rt)"

text \<open>The coroutines the runtime will resume: ready ones, awaiting parents, and those with a
  request.\<close>

definition tracked :: "runtime \<Rightarrow> nat set" where
  "tracked rt = set (ready_handles rt) \<union> snd ` set (rt_conts rt) \<union> io_coro ` set (rt_io rt)"

definition finishes :: "'w coro_api \<Rightarrow> 'w \<Rightarrow> nat \<Rightarrow> bool" where
  "finishes api w h \<longleftrightarrow> co_done api w h \<or> co_done api (fst (co_resume api w h)) h"

text \<open>The coroutine at the head of the ready queue, which the next turn resumes, and which then ends.\<close>

definition ends_at_head :: "'w coro_api \<Rightarrow> 'w \<Rightarrow> runtime \<Rightarrow> nat \<Rightarrow> bool" where
  "ends_at_head api w rt x \<longleftrightarrow> (\<exists>hs. ready_handles rt = x # hs) \<and> finishes api w x"

lemma enqueue_ready_total:
  assumes "alloc_ok (ma_task mem)" "alloc_total (ma_task mem)" "ready_apart A rt hs"
  shows "ready_apart A (enqueue_ready mem h rt) (hs @ [h])"
proof -
  have "finite (dom (rt_heap rt))" using assms(3) by (auto simp: ready_apart_def)
  then have n: "ma_task mem (rt_heap rt) \<noteq> None" using assms(2) by (simp add: alloc_total_def)
  from ready_apart_enqueue [OF assms(1,3), of h] show ?thesis unfolding if_not_P [OF n] .
qed

lemma grows_tracked:
  assumes "grows A rt rt'" "ready_apart A rt hs" "rt_conts rt' = ks @ rt_conts rt" "rt_io rt' = ios @ rt_io rt"
  shows "tracked rt \<subseteq> tracked rt'"
proof -
  from growsD [OF assms(1,2)] obtain new where "ready_apart A rt' (hs @ new)" by blast
  then have "ready_handles rt' = ready_handles rt @ new"
    using assms(2) ready_apart_handles by metis
  then show ?thesis using assms(3,4) by (auto simp: tracked_def)
qed

lemma settled_enqueue:
  assumes "alloc_ok (ma_task mem)" "settled A rt"
  shows "settled A (enqueue_ready mem h rt)"
  using assms ready_apart_enqueue [OF assms(1)] unfolding settled_def by (metis enqueue_ready_fields(1-4))

lemma tracked_enqueue:
  assumes "alloc_ok (ma_task mem)" "alloc_total (ma_task mem)" "settled A rt"
  shows "tracked (enqueue_ready mem h rt) = insert h (tracked rt)"
proof -
  from assms(3) obtain hs where "ready_apart A rt hs" by (auto simp: settled_def)
  with enqueue_ready_total [OF assms(1,2) this, of h] have
    "ready_handles (enqueue_ready mem h rt) = ready_handles rt @ [h]"
    using ready_apart_handles by metis
  then show ?thesis by (auto simp: tracked_def)
qed

lemma completed_settled:
  assumes mem: "alloc_ok (ma_task mem)" "alloc_total (ma_task mem)" and s: "settled A rt"
    and r: "process_completed_coro api mem h m (w, rt) = (w', rt')"
  shows "settled A rt' \<and> tracked rt \<subseteq> tracked rt'"
proof -
  obtain p ks where p: "pop_continuation h (rt_conts rt) = (p, ks)" by fastforce
  let ?rt = "rt\<lparr>rt_conts := ks\<rparr>"
  have w: "rt_waiting rt = []" and z: "0 \<notin> snd ` set (rt_conts rt)" using s by (simp_all add: settled_def)
  have same: "rt\<lparr>rt_waiting := [], rt_conts := ks\<rparr> = ?rt" using w by (cases rt) simp
  have split: "(p = 0 \<and> ks = rt_conts rt)
      \<or> (p \<noteq> 0 \<and> set ks \<subseteq> set (rt_conts rt) \<and> set (rt_conts rt) \<subseteq> insert (h, p) (set ks))"
    using pop_continuation_split [OF p] z by (auto simp: image_iff)
  then have st: "settled A ?rt" using s by (auto simp: settled_def)
  have t: "tracked rt \<subseteq> insert p (tracked ?rt)" if "p \<noteq> 0"
  proof -
    have "ready_handles ?rt = ready_handles rt" by (simp add: ready_handles_def)
    then show ?thesis using split that by (auto simp: tracked_def)
  qed
  show ?thesis
  proof (cases "p = 0")
    case True
    then have "rt' = ?rt" "ks = rt_conts rt"
      using r p w same split by (auto simp: process_completed_coro_def Let_def split: if_splits)
    then show ?thesis using s by simp
  next
    case False
    have e: "rt\<lparr>rt_conts := ks, rt_waiting := []\<rparr> = ?rt" using w by (cases rt) simp
    have "rt' = enqueue_ready mem p (rt\<lparr>rt_conts := ks, rt_waiting := []\<rparr>)"
      using r p w False by (simp add: process_completed_coro_def Let_def)
    then have "rt' = enqueue_ready mem p ?rt" unfolding e .
    then show ?thesis
      using settled_enqueue [OF mem(1) st] tracked_enqueue [OF mem st] t [OF False] by auto
  qed
qed

lemma task_settled:
  assumes mem: "alloc_ok (ma_task mem)" "alloc_total (ma_task mem)" and wb: "well_behaved api"
    and s: "settled A rt" and r: "loop_task api mem m h (w, rt) = Inr (w', rt')"
  shows "settled A rt' \<and> tracked rt \<subseteq> tracked rt' \<and> (h \<in> tracked rt' \<or> finishes api w h)"
proof (cases "co_done api w h")
  case True
  then have "process_completed_coro api mem h m (w, rt) = (w', rt')"
    using r by (simp add: loop_task_def)
  from completed_settled [OF mem s this] show ?thesis using True by (simp add: finishes_def)
next
  case False
  obtain w1 cs where cs: "co_resume api w h = (w1, cs)" by fastforce
  then obtain rt1 where rt1: "run_calls mem cs rt = Inr rt1"
    and res: "(w', rt') = (if \<not> co_done api w1 h then (w1, requeue mem h rt1)
        else process_completed_coro api mem h m (w1, rt1))"
    using r False by (auto simp: loop_task_def split: sum.splits)
  have "polite h (co_done api (fst (co_resume api w h)) h) (snd (co_resume api w h))"
    using wb by (simp add: well_behaved_def)
  then have pol: "polite h (co_done api w1 h) cs" using cs by simp
  then have "effects h cs rt rt1" using effects_calls [OF rt1] by (simp add: polite_def)
  then obtain ks ios k where e: "rt_conts rt1 = ks @ rt_conts rt" "snd ` set ks \<subseteq> {h} - {0}"
    "rt_io rt1 = ios @ rt_io rt" "io_coro ` set ios \<subseteq> {h} - {0}" "list_ex requests cs \<longrightarrow> ios \<noteq> []"
    "k \<le> length (filter marks cs)" "0 < k \<longrightarrow> ks \<noteq> [] \<or> Call_Mark h \<in> set cs"
    "length (rt_waiting rt) + length (filter marks cs) \<le> MAX_WAITING
       \<longrightarrow> rt_waiting rt1 = rt_waiting rt @ replicate k h"
    unfolding effects_def by blast
  have marked: "length (filter marks cs) \<le> 1" "co_done api w1 h \<longrightarrow> filter marks cs = []"
    using pol by (auto simp: polite_def split: if_splits)
  have wait: "rt_waiting rt1 = replicate k h"
    using e(8) marked(1) s by (simp add: settled_def MAX_WAITING_def)
  from s obtain hs where hs: "ready_apart A rt hs" by (auto simp: settled_def)
  have g: "grows A rt rt1" using grows_calls [OF mem(1) rt1] .
  from growsD [OF g hs] obtain new where "ready_apart A rt1 (hs @ new)" by blast
  then have rest1: "\<exists>hs. ready_apart A rt1 hs" "rt_pool rt1 = init_queue" "0 \<notin> snd ` set (rt_conts rt1)"
    "0 \<notin> io_coro ` set (rt_io rt1)"
    using s e g by (auto simp: settled_def grows_def)
  have tr: "tracked rt \<subseteq> tracked rt1" using grows_tracked [OF g hs e(1,3)] .
  show ?thesis
  proof (cases "co_done api w1 h")
    case True
    then have "k = 0" using marked(2) e(6) by simp
    then have "settled A rt1" using rest1 wait by (simp add: settled_def)
    moreover have "process_completed_coro api mem h m (w1, rt1) = (w', rt')" using res True by simp
    ultimately have "settled A rt' \<and> tracked rt1 \<subseteq> tracked rt'" by (rule completed_settled [OF mem])
    then show ?thesis using tr True cs by (auto simp: finishes_def)
  next
    case False
    then have rt': "rt' = requeue mem h rt1" using res by simp
    show ?thesis
    proof (cases "k = 0")
      case True
      then have st: "settled A rt1" using rest1 wait by (simp add: settled_def)
      have e: "rt1\<lparr>rt_waiting := []\<rparr> = rt1" using wait True by (cases rt1) simp
      have "rt' = enqueue_ready mem h (rt1\<lparr>rt_waiting := []\<rparr>)"
        using rt' wait True by (simp add: requeue_def)
      then have "rt' = enqueue_ready mem h rt1" unfolding e .
      then show ?thesis
        using settled_enqueue [OF mem(1) st] tracked_enqueue [OF mem st] tr by auto
    next
      case k: False
      then have "k = 1" using e(6) marked(1) by simp
      then have r1: "rt' = rt1\<lparr>rt_waiting := []\<rparr>" using rt' wait by (simp add: requeue_def)
      then have t1: "tracked rt' = tracked rt1" by (simp add: tracked_def ready_handles_def)
      have "settled A rt'" using rest1 r1 by (simp add: settled_def)
      moreover have "h \<in> tracked rt1"
      proof (cases "ks = []")
        case True
        then have "Call_Mark h \<in> set cs" using e(7) k by simp
        then have "ios \<noteq> []" using pol e(5) by (simp add: polite_def)
        then have "h \<in> io_coro ` set ios" using e(4) by (cases ios) auto
        then show ?thesis using e(3) by (auto simp: tracked_def)
      next
        case False
        then have "h \<in> snd ` set ks" using e(2) by (cases ks) auto
        then show ?thesis using e(1) by (auto simp: tracked_def)
      qed
      ultimately show ?thesis using tr t1 by simp
    qed
  qed
qed

section \<open>Turns of the threads\<close>

lemma with_next_task_empty:
  "ready_apart {} rt [] \<Longrightarrow> with_next_task f (w, rt) = Inr (w, rt)"
proof -
  assume "ready_apart {} rt []"
  then have "queue_rep (rt_heap rt) (rt_ready rt) []" by (auto simp: ready_apart_def handles_def)
  then show ?thesis by (simp add: with_next_task_def dequeue_empty)
qed

lemma with_next_task_Cons:
  assumes "ready_apart {} rt (h # hs)"
  obtains a rt1 where "a \<noteq> 0" "ready_apart {a} rt1 hs"
    "rt1 = rt\<lparr>rt_heap := rt_heap rt1, rt_ready := rt_ready rt1\<rparr>"
    "with_next_task f (w, rt) = (case f h (w, rt1) of Inl e \<Rightarrow> Inl e
       | Inr (w2, rt2) \<Rightarrow> Inr (w2, rt2\<lparr>rt_heap := free_cell a (rt_heap rt2)\<rparr>))"
proof -
  from assms obtain as where as: "queue_rep (rt_heap rt) (rt_ready rt) as"
    "handles (rt_heap rt) as = h # hs" "finite (dom (rt_heap rt))"
    by (auto simp: ready_apart_def)
  then obtain a bs where "as = a # bs" by (cases as) (auto simp: handles_def)
  with as have q: "queue_rep (rt_heap rt) (rt_ready rt) (a # bs)"
    "tk_handle (task_at (rt_heap rt) a) = h" "handles (rt_heap rt) bs = hs"
    by (simp_all add: handles_def)
  from q(1) obtain heap' q' where d: "dequeue_task (rt_heap rt, rt_ready rt) = (a, heap', q')"
    "queue_rep heap' q' bs" "handles heap' bs = handles (rt_heap rt) bs"
    "tk_handle (task_at heap' a) = tk_handle (task_at (rt_heap rt) a)"
    "a \<noteq> 0" "a \<notin> set bs" "heap' a \<noteq> None" "dom heap' = dom (rt_heap rt)"
    by (rule dequeue_rep)
  let ?rt1 = "rt\<lparr>rt_heap := heap', rt_ready := q'\<rparr>"
  have "a \<in> dom heap'" using d(7) by auto
  then have "ready_apart {a} ?rt1 hs"
    unfolding ready_apart_def using d q as(3) by (intro exI [of _ bs]) simp
  then show thesis using that [of a ?rt1] d q by (simp add: with_next_task_def)
qed

lemma ready_apart_free:
  "ready_apart {a} rt hs \<Longrightarrow> ready_apart {} (rt\<lparr>rt_heap := free_cell a (rt_heap rt)\<rparr>) hs"
proof -
  assume "ready_apart {a} rt hs"
  then obtain as where "queue_rep (rt_heap rt) (rt_ready rt) as" "handles (rt_heap rt) as = hs"
    "finite (dom (rt_heap rt))" "a \<notin> set as"
    by (auto simp: ready_apart_def)
  then show ?thesis
    using queue_rep_free [of "rt_heap rt" "rt_ready rt" as a]
    by (auto simp: ready_apart_def free_cell_def)
qed

lemma settled_free:
  assumes "settled {a} rt"
  shows "settled {} (rt\<lparr>rt_heap := free_cell a (rt_heap rt)\<rparr>)
    \<and> tracked (rt\<lparr>rt_heap := free_cell a (rt_heap rt)\<rparr>) = tracked rt"
proof -
  from assms obtain hs where hs: "ready_apart {a} rt hs" by (auto simp: settled_def)
  note f = ready_apart_free [OF hs]
  then have "ready_handles (rt\<lparr>rt_heap := free_cell a (rt_heap rt)\<rparr>) = ready_handles rt"
    using hs ready_apart_handles by metis
  then show ?thesis using assms f by (auto simp: settled_def tracked_def)
qed

lemma next_task_settled:
  assumes mem: "alloc_ok (ma_task mem)" "alloc_total (ma_task mem)" and wb: "well_behaved api"
    and s: "settled {} rt" and r: "with_next_task (loop_task api mem m) (w, rt) = Inr (w', rt')"
  shows "settled {} rt' \<and> (\<forall>x \<in> tracked rt. x \<in> tracked rt' \<or> ends_at_head api w rt x)"
proof -
  from s obtain hs where hs: "ready_apart {} rt hs" by (auto simp: settled_def)
  show ?thesis
  proof (cases hs)
    case Nil
    then have "rt' = rt" using with_next_task_empty [of rt "loop_task api mem m" w] hs r by simp
    then show ?thesis using s by simp
  next
    case (Cons h hs')
    then have "ready_apart {} rt (h # hs')" using hs by simp
    then obtain a rt1 where n: "a \<noteq> 0" "ready_apart {a} rt1 hs'"
      "rt1 = rt\<lparr>rt_heap := rt_heap rt1, rt_ready := rt_ready rt1\<rparr>"
      "with_next_task (loop_task api mem m) (w, rt) = (case loop_task api mem m h (w, rt1) of
           Inl e \<Rightarrow> Inl e
         | Inr (w2, rt2) \<Rightarrow> Inr (w2, rt2\<lparr>rt_heap := free_cell a (rt_heap rt2)\<rparr>))"
      by (rule with_next_task_Cons)
    have "(case loop_task api mem m h (w, rt1) of Inl e \<Rightarrow> Inl e
        | Inr (w2, rt2) \<Rightarrow> Inr (w2, rt2\<lparr>rt_heap := free_cell a (rt_heap rt2)\<rparr>)) = Inr (w', rt')"
      using r n(4) by simp
    then obtain rt2 where t: "loop_task api mem m h (w, rt1) = Inr (w', rt2)"
      "rt' = rt2\<lparr>rt_heap := free_cell a (rt_heap rt2)\<rparr>"
      by (auto split: sum.splits prod.splits)
    have fields: "rt_waiting rt1 = rt_waiting rt" "rt_pool rt1 = rt_pool rt"
      "rt_conts rt1 = rt_conts rt" "rt_io rt1 = rt_io rt"
      using arg_cong [OF n(3), of rt_waiting] arg_cong [OF n(3), of rt_pool]
        arg_cong [OF n(3), of rt_conts] arg_cong [OF n(3), of rt_io] by simp_all
    then have s1: "settled {a} rt1" using s n(2) by (auto simp: settled_def)
    have tr: "tracked rt = insert h (tracked rt1)"
      using ready_apart_handles [OF n(2)] ready_apart_handles [OF hs] Cons fields
      by (auto simp: tracked_def)
    have "ready_handles rt = h # hs'" using ready_apart_handles [OF hs] Cons by simp
    then have "finishes api w h \<Longrightarrow> ends_at_head api w rt h" by (simp add: ends_at_head_def)
    with task_settled [OF mem wb s1 t(1)] show ?thesis using settled_free [of a rt2] t(2) tr by auto
  qed
qed

lemma settled_init: "alloc_ok (ma_task mem) \<Longrightarrow> settled {} (enqueue_ready mem m runtime_init)"
  by (rule settled_enqueue)
    (auto simp: settled_def runtime_init_def ready_apart_def handles_def intro!: exI [of _ "[]"])

lemma map_sum_Inr: "map_sum id f x = Inr y \<longleftrightarrow> (\<exists>z. x = Inr z \<and> y = f z)"
  by (cases x) auto

lemma turn_settled:
  assumes mem: "alloc_ok (ma_task mem)" "alloc_total (ma_task mem)" and wb: "well_behaved api"
    and s: "settled {} rt" and r: "main_turn api mem m (ph, w, rt) = Inr (ph', w', rt')"
  shows "settled {} rt' \<and> (\<forall>x \<in> tracked rt. x \<in> tracked rt' \<or> ends_at_head api w rt x)"
proof -
  have d: "with_next_task (drain_task api mem m) = with_next_task (loop_task api mem m)"
    using drain_task_is_loop_task by (metis ext)
  consider "rt' = rt" | "with_next_task (loop_task api mem m) (w, rt) = Inr (w', rt')"
    using r by (cases ph) (auto simp: main_turn_def d map_sum_Inr split: if_splits sum.splits prod.splits)
  then show ?thesis
  proof cases
    case 1
    then show ?thesis using s by simp
  next
    case 2
    then show ?thesis by (rule next_task_settled [OF mem wb s])
  qed
qed

lemma io_settled:
  assumes mem: "alloc_ok (ma_task mem)" "alloc_total (ma_task mem)"
    and s: "settled {} rt" and r: "file_io_step mem perform (w, rt) = (w', rt')"
  shows "settled {} rt' \<and> tracked rt \<subseteq> tracked rt'"
proof (cases "\<not> rt_running rt \<or> rt_io rt = []")
  case True
  then have "rt' = rt" using r by (cases "rt_running rt") (auto simp: file_io_step_def)
  then show ?thesis using s by simp
next
  case False
  then obtain q qs where q: "rt_running rt" "rt_io rt = q # qs" by (cases "rt_io rt") auto
  let ?rt = "rt\<lparr>rt_io := qs\<rparr>"
  have z: "io_coro q \<noteq> 0" using s q by (auto simp: settled_def)
  have st: "settled {} ?rt" using s q by (auto simp: settled_def)
  have "ready_handles ?rt = ready_handles rt" by (simp add: ready_handles_def)
  then have "tracked rt = insert (io_coro q) (tracked ?rt)" using q by (auto simp: tracked_def)
  moreover have "rt' = enqueue_ready mem (io_coro q) ?rt"
    using r q z by (simp add: file_io_step_def Let_def)
  ultimately show ?thesis
    using settled_enqueue [OF mem(1) st] tracked_enqueue [OF mem st] by auto
qed

lemma step_settled:
  assumes mem: "alloc_ok (ma_task mem)" "alloc_total (ma_task mem)" and wb: "well_behaved api"
    and s: "settled {} rt" and r: "rt_step api mem perform m (ph, w, rt) (ph', w', rt')"
  shows "settled {} rt' \<and> (\<forall>x \<in> tracked rt. x \<in> tracked rt'
    \<or> main_turn api mem m (ph, w, rt) = Inr (ph', w', rt') \<and> ends_at_head api w rt x)"
  using r
proof (cases rule: rt_step.cases)
  case turn
  then show ?thesis using turn_settled [OF mem wb s] by blast
next
  case file_io
  then have "file_io_step mem perform (w, rt) = (w', rt')" by simp
  from io_settled [OF mem s this] show ?thesis by blast
next
  case worker
  then have "(w', rt') = (w, rt)"
    using s by (simp add: worker_step_def dequeue_task_def settled_def init_queue_def)
  then show ?thesis using s by simp
qed

lemma reach_settled:
  assumes mem: "alloc_ok (ma_task mem)" "alloc_total (ma_task mem)" and wb: "well_behaved api"
  shows "rt_reach api mem perform m w0 s \<Longrightarrow> settled {} (snd (snd s))"
proof (induction rule: rt_reach.induct)
  case (start s)
  then have "snd (snd s) = enqueue_ready mem m runtime_init"
    by (auto simp: loop_start_def runtime_init_def split: if_splits)
  then show ?case using settled_init [OF mem(1)] by simp
next
  case (step s s')
  then show ?case using step_settled [OF mem wb] by (metis prod.exhaust_sel)
qed

section \<open>Reachable states\<close>

lemma settled_queue: "settled {} rt \<Longrightarrow> \<exists>hs. queue_holds (rt_heap rt, rt_ready rt) hs"
  by (auto simp: settled_def ready_apart_def queue_holds_def)

text \<open>C16: Between two steps of the threads, in every state reached from the start of the event loop, the ready
  queue is a well-formed list, no coroutine is left in the waiting set and the queue of the worker pool is
  empty. This is under three conditions: the allocator hands out unused addresses and never fails, and each
  resumed coroutine keeps the protocol of the compiled code, that is it makes its calls in its own name,
  marks itself at most once and not when it ends, and a mark without an await comes with a file
  request that wakes it (so no suspension that a socket or the user's code is to end).\<close>

theorem runtime_between_steps:
  assumes "alloc_ok (ma_task mem)" "alloc_total (ma_task mem)" "well_behaved api"
    and "rt_reach api mem perform m w0 (ph, w, rt)"
  shows "(\<exists>hs. queue_holds (rt_heap rt, rt_ready rt) hs) \<and> rt_waiting rt = [] \<and> rt_pool rt = init_queue"
  using reach_settled [OF assms] settled_queue by (auto simp: settled_def)

text \<open>C15: No step of a thread loses a coroutine. One that is ready, awaits another or has a pending file
  request still is or does after the step; the only exception is a turn of the main thread, and there
  the one coroutine at the head of the ready queue, if it has ended before or by being resumed. This is
  under the same three conditions as the shape of the runtime between steps: the allocator hands out
  unused addresses and never fails, and the coroutines keep the protocol of the compiled code
  (which leaves out sockets and suspensions of the user's code).\<close>

theorem no_coroutine_lost:
  assumes "alloc_ok (ma_task mem)" "alloc_total (ma_task mem)" "well_behaved api"
    and "rt_reach api mem perform m w0 (ph, w, rt)"
    and "rt_step api mem perform m (ph, w, rt) (ph', w', rt')" "x \<in> tracked rt"
  shows "x \<in> tracked rt'
    \<or> main_turn api mem m (ph, w, rt) = Inr (ph', w', rt') \<and> (\<exists>hs. ready_handles rt = x # hs)
       \<and> (co_done api w x \<or> co_done api (fst (co_resume api w x)) x)"
  using step_settled [OF assms(1-3) _ assms(5)] reach_settled [OF assms(1-4)] assms(6)
  by (auto simp: ends_at_head_def finishes_def)

text \<open>A main coroutine 1 that awaits the coroutine 2; the world counts the resumptions of both.\<close>

definition sample_api :: "(nat \<times> nat) coro_api" where
  "sample_api = \<lparr>
    co_done = (\<lambda>w h. if h = 1 then 2 \<le> fst w else 1 \<le> snd w),
    co_resume = (\<lambda>w h. if h = 1 then ((Suc (fst w), snd w), if fst w = 0 then [Call_Await 2 1] else [])
                       else ((fst w, Suc (snd w)), [])),
    co_destroy = (\<lambda>w h. w),
    co_promise = (\<lambda>w h. 42)\<rparr>"

definition memory_of :: "task_alloc \<Rightarrow> memory_api" where
  "memory_of malloc = \<lparr>ma_task = malloc, ma_cont = (\<lambda>_. True), ma_request = (\<lambda>_. True)\<rparr>"

lemma sample_well_behaved: "well_behaved sample_api"
  by (auto simp: well_behaved_def sample_api_def polite_def)

text \<open>The whole run: the main coroutine is resumed, awaits, and ends after the one it awaits.\<close>

lemma sample_event_loop:
  "map_option (map_sum id (\<lambda>(r, w, rt). (r, w, ready_handles rt, rt_conts rt)))
     (event_loop sample_api (memory_of small_alloc) 9 1 ((0, 0), runtime_init))
   = Some (Inr (42, (2, 1), [], []))"
  by code_simp

definition sample_start :: "phase \<times> (nat \<times> nat) \<times> runtime" where
  "sample_start = (Looping, (0, 0), enqueue_ready (memory_of guarded_fresh) 1 runtime_init)"

lemma sample_reach: "rt_reach sample_api (memory_of guarded_fresh) (\<lambda>_ w. w) 1 (0, 0) sample_start"
  by (rule rt_reach.start) (simp add: loop_start_def sample_start_def runtime_init_def)

lemma runtime_between_steps_witness:
  "rt_waiting (snd (snd sample_start)) = [] \<and> rt_pool (snd (snd sample_start)) = init_queue"
  using runtime_between_steps [OF _ _ sample_well_behaved sample_reach [unfolded sample_start_def]]
  by (simp add: memory_of_def sample_start_def)

lemma no_coroutine_lost_witness:
  "1 \<in> tracked (snd (snd sample_start))
   \<and> 1 \<in> tracked (snd (file_io_step (memory_of guarded_fresh) (\<lambda>_ w. w) (snd sample_start)))"
proof -
  have a: "alloc_ok (ma_task (memory_of guarded_fresh))" "alloc_total (ma_task (memory_of guarded_fresh))"
    by (simp_all add: memory_of_def)
  have "settled {} runtime_init"
    by (auto simp: settled_def runtime_init_def ready_apart_def handles_def intro!: exI [of _ "[]"])
  then have t: "1 \<in> tracked (enqueue_ready (memory_of guarded_fresh) 1 runtime_init)"
    using tracked_enqueue [OF a] by simp
  obtain w' rt' where f: "file_io_step (memory_of guarded_fresh) (\<lambda>_ w. w) (snd sample_start) = (w', rt')"
    by fastforce
  then have s: "rt_step sample_api (memory_of guarded_fresh) (\<lambda>_ w. w) 1
      (Looping, (0, 0), enqueue_ready (memory_of guarded_fresh) 1 runtime_init) (Looping, w', rt')"
    using rt_step.file_io [of sample_api "memory_of guarded_fresh" "\<lambda>_ w. w" 1 Looping "snd sample_start"]
    by (simp add: sample_start_def)
  have "\<not> co_done sample_api (0, 0) 1" "\<not> co_done sample_api (fst (co_resume sample_api (0, 0) 1)) 1"
    by (simp_all add: sample_api_def)
  then have "1 \<in> tracked rt'"
    using no_coroutine_lost [OF a sample_well_behaved sample_reach [unfolded sample_start_def] s t] by simp
  then show ?thesis using t f by (simp add: sample_start_def)
qed

section \<open>The order of file requests\<close>

definition valid_request :: "io_request \<Rightarrow> bool" where
  "valid_request r \<longleftrightarrow> io_coro r \<noteq> 0 \<and> io_buffer r \<noteq> 0 \<and> 0 < io_count r"

fun submit :: "memory_api \<Rightarrow> io_request list \<Rightarrow> runtime \<Rightarrow> runtime_abort + runtime" where
  "submit mem [] rt = Inr rt"
| "submit mem (r # rs) rt =
    (case async_io mem (io_type r) (io_fd r) (io_buffer r) (io_count r) (io_coro r) rt of
       Inl e \<Rightarrow> Inl e
     | Inr (_, rt') \<Rightarrow> submit mem rs rt')"

lemma submit_pending:
  assumes "\<forall>p. ma_request mem p"
  shows "\<forall>r \<in> set rs. valid_request r \<Longrightarrow> submit mem rs rt = Inr (rt\<lparr>rt_io := rev rs @ rt_io rt\<rparr>)"
proof (induction rs arbitrary: rt)
  case (Cons r rs)
  have "async_io mem (io_type r) (io_fd r) (io_buffer r) (io_count r) (io_coro r) rt
      = Inr (0, rt\<lparr>rt_io := r # rt_io rt\<rparr>)"
    using Cons.prems assms by (cases r) (simp add: async_io_def valid_request_def)
  with Cons show ?case by simp
qed simp

lemma file_thread_run:
  assumes mem: "alloc_ok (ma_task mem)" "alloc_total (ma_task mem)"
  shows "rt_running rt \<Longrightarrow> rt_io rt = rs \<Longrightarrow> \<forall>r \<in> set rs. valid_request r \<Longrightarrow> ready_apart {} rt hs \<Longrightarrow>
    \<exists>rt'. (file_io_step mem perform ^^ length rs) (w, rt) = (fold perform rs w, rt')
      \<and> rt_io rt' = [] \<and> ready_apart {} rt' (hs @ map io_coro rs)"
proof (induction rs arbitrary: rt w hs)
  case (Cons r rs)
  let ?rt = "enqueue_ready mem (io_coro r) (rt\<lparr>rt_io := rs\<rparr>)"
  have s: "file_io_step mem perform (w, rt) = (perform r w, ?rt)"
    using Cons.prems by (simp add: file_io_step_def Let_def valid_request_def)
  have "ready_apart {} ?rt (hs @ [io_coro r])"
    using enqueue_ready_total [OF mem, of "{}" "rt\<lparr>rt_io := rs\<rparr>"] Cons.prems(4) by simp
  with Cons.IH [of ?rt "hs @ [io_coro r]" "perform r w"] Cons.prems show ?case
    by (simp add: s funpow_swap1)
qed simp

text \<open>C40: File requests submitted before the file thread wakes are performed in the opposite order, the
  last one first, and their coroutines become ready in that order.\<close>

theorem file_requests_newest_first:
  assumes "alloc_ok (ma_task mem)" "alloc_total (ma_task mem)" "\<forall>p. ma_request mem p"
    and "rt_running rt" "rt_io rt = []" "ready_apart {} rt hs" "\<forall>r \<in> set rs. valid_request r"
  shows "\<exists>rt1 rt2. submit mem rs rt = Inr rt1
    \<and> (file_io_step mem perform ^^ length rs) (w, rt1) = (fold perform (rev rs) w, rt2)
    \<and> ready_handles rt2 = hs @ map io_coro (rev rs)"
proof -
  let ?rt1 = "rt\<lparr>rt_io := rev rs\<rparr>"
  have "submit mem rs rt = Inr ?rt1" using submit_pending [OF assms(3,7), of rt] assms(5) by simp
  moreover obtain rt2 where "(file_io_step mem perform ^^ length (rev rs)) (w, ?rt1) = (fold perform (rev rs) w, rt2)"
    "ready_apart {} rt2 (hs @ map io_coro (rev rs))"
    using file_thread_run [OF assms(1,2), of ?rt1 "rev rs" hs perform w] assms(4,6,7) by auto
  ultimately show ?thesis using ready_apart_handles by fastforce
qed

definition sample_write :: "nat \<Rightarrow> io_request" where
  "sample_write c = \<lparr>io_type = File_Write, io_fd = 1, io_buffer = c, io_count = 1, io_coro = c\<rparr>"

lemma file_requests_newest_first_witness:
  "\<exists>rt1 rt2. submit (memory_of guarded_fresh) [sample_write 3, sample_write 4] runtime_init = Inr rt1
    \<and> (file_io_step (memory_of guarded_fresh) (\<lambda>r w. w @ [io_buffer r]) ^^ 2) ([], rt1) = ([4, 3], rt2)
    \<and> ready_handles rt2 = [4, 3]"
proof -
  have "ready_apart {} runtime_init []"
    by (auto simp: ready_apart_def runtime_init_def handles_def intro!: exI [of _ "[]"])
  from file_requests_newest_first [OF _ _ _ _ _ this, of "memory_of guarded_fresh"
      "[sample_write 3, sample_write 4]" "\<lambda>r w. w @ [io_buffer r]" "[]"]
  show ?thesis
    by (simp add: memory_of_def runtime_init_def sample_write_def valid_request_def numeral_2_eq_2)
qed

section \<open>Ending\<close>

lemma process_completed_smaller:
  assumes mem: "alloc_ok (ma_task mem)" and a: "ready_apart A rt hs"
    and r: "process_completed_coro api mem h m (w, rt) = (w', rt')"
    and d: "\<mu> (co_destroy api w h) \<le> \<mu> w"
  shows "\<exists>hs'. ready_apart A rt' hs' \<and> \<mu> w' \<le> (\<mu> w :: nat)
    \<and> length hs' + length (rt_conts rt') \<le> length hs + length (rt_conts rt)"
proof -
  obtain p ks where p: "pop_continuation h (rt_conts rt) = (p, ks)" by fastforce
  have len: "length ks \<le> length (rt_conts rt)" "p \<noteq> 0 \<longrightarrow> length ks < length (rt_conts rt)"
    using pop_continuation_split [OF p] by auto
  show ?thesis
  proof (cases "p = 0")
    case True
    then have "w' = w \<or> w' = co_destroy api w h" "ready_apart A rt' hs" "rt_conts rt' = ks"
      using r p a by (auto simp: process_completed_coro_def Let_def split: if_splits)
    then show ?thesis using d len by auto
  next
    case False
    then have e: "w' = w" "rt' = enqueue_ready mem p
        (rt\<lparr>rt_waiting := remove_from_waiting h (rt_waiting rt), rt_conts := ks,
            rt_waiting := remove_from_waiting p (remove_from_waiting h (rt_waiting rt))\<rparr>)"
      using r p by (auto simp: process_completed_coro_def Let_def)
    define rt1 where "rt1 = rt\<lparr>rt_waiting := remove_from_waiting h (rt_waiting rt), rt_conts := ks,
        rt_waiting := remove_from_waiting p (remove_from_waiting h (rt_waiting rt))\<rparr>"
    have "ready_apart A rt1 hs" using a by (simp add: rt1_def)
    from ready_apart_enqueue [OF mem this, of p] have
      "ready_apart A rt' (if ma_task mem (rt_heap rt1) = None then hs else hs @ [p])"
      unfolding e(2) rt1_def .
    then obtain hs' where "ready_apart A rt' hs'" "length hs' \<le> Suc (length hs)"
      by (cases "ma_task mem (rt_heap rt1) = None") auto
    moreover have "rt_conts rt' = ks" using e(2) by simp
    ultimately show ?thesis using e(1) len False by auto
  qed
qed

lemma loop_task_smaller:
  assumes mem: "alloc_ok (ma_task mem)" and a: "ready_apart A rt hs"
    and r: "loop_task api mem m h (w, rt) = Inr (w', rt')"
    and dec: "\<And>w h. \<not> co_done api w h \<Longrightarrow> \<mu> (fst (co_resume api w h)) < (\<mu> w :: nat)"
    and des: "\<And>w h. \<mu> (co_destroy api w h) \<le> \<mu> w"
  shows "\<exists>hs'. ready_apart A rt' hs' \<and> (\<mu> w' < \<mu> w \<or> \<mu> w' \<le> \<mu> w
    \<and> length hs' + length (rt_conts rt') \<le> length hs + length (rt_conts rt))"
proof (cases "co_done api w h")
  case True
  then have "process_completed_coro api mem h m (w, rt) = (w', rt')" using r by (simp add: loop_task_def)
  from process_completed_smaller [where \<mu> = \<mu>, OF mem a this des] show ?thesis by blast
next
  case False
  obtain w1 cs where cs: "co_resume api w h = (w1, cs)" by fastforce
  then obtain rt1 where rt1: "run_calls mem cs rt = Inr rt1"
    and res: "(w', rt') = (if \<not> co_done api w1 h then (w1, requeue mem h rt1)
        else process_completed_coro api mem h m (w1, rt1))"
    using r False by (auto simp: loop_task_def split: sum.splits)
  have w1: "\<mu> w1 < \<mu> w" using dec [OF False] cs by simp
  obtain new where n: "ready_apart A rt1 (hs @ new)" using growsD [OF grows_calls [OF mem rt1] a] by blast
  show ?thesis
  proof (cases "co_done api w1 h")
    case True
    then have "process_completed_coro api mem h m (w1, rt1) = (w', rt')" using res by simp
    from process_completed_smaller [where \<mu> = \<mu>, OF mem n this des] w1 show ?thesis
      by (meson order_le_less_trans)
  next
    case False
    let ?rt1 = "rt1\<lparr>rt_waiting := snd (is_waiting h (rt_waiting rt1))\<rparr>"
    have "w' = w1" "rt' = ?rt1 \<or> rt' = enqueue_ready mem h ?rt1"
      using res False by (auto simp: requeue_def Let_def split: prod.splits if_splits)
    moreover have "ready_apart A ?rt1 (hs @ new)" using n by simp
    ultimately show ?thesis using w1 ready_apart_enqueue [OF mem] by metis
  qed
qed

lemma next_task_smaller:
  assumes mem: "alloc_ok (ma_task mem)" and a: "ready_apart {} rt (h # hs)"
    and r: "with_next_task (loop_task api mem m) (w, rt) = Inr (w', rt')"
    and dec: "\<And>w h. \<not> co_done api w h \<Longrightarrow> \<mu> (fst (co_resume api w h)) < (\<mu> w :: nat)"
    and des: "\<And>w h. \<mu> (co_destroy api w h) \<le> \<mu> w"
  shows "\<exists>hs'. ready_apart {} rt' hs' \<and> (\<mu> w' < \<mu> w \<or> \<mu> w' \<le> \<mu> w
    \<and> length hs' + length (rt_conts rt') < length (h # hs) + length (rt_conts rt))"
proof -
  obtain b rt1 where n: "b \<noteq> 0" "ready_apart {b} rt1 hs"
    "rt1 = rt\<lparr>rt_heap := rt_heap rt1, rt_ready := rt_ready rt1\<rparr>"
    "with_next_task (loop_task api mem m) (w, rt) = (case loop_task api mem m h (w, rt1) of
         Inl e \<Rightarrow> Inl e
       | Inr (w2, rt2) \<Rightarrow> Inr (w2, rt2\<lparr>rt_heap := free_cell b (rt_heap rt2)\<rparr>))"
    using a by (rule with_next_task_Cons)
  have "(case loop_task api mem m h (w, rt1) of Inl e \<Rightarrow> Inl e
      | Inr (w2, rt2) \<Rightarrow> Inr (w2, rt2\<lparr>rt_heap := free_cell b (rt_heap rt2)\<rparr>)) = Inr (w', rt')"
    using r n(4) by simp
  then obtain rt2 where t: "loop_task api mem m h (w, rt1) = Inr (w', rt2)"
    "rt' = rt2\<lparr>rt_heap := free_cell b (rt_heap rt2)\<rparr>"
    by (auto split: sum.splits prod.splits)
  have c: "rt_conts rt1 = rt_conts rt" using arg_cong [OF n(3), of rt_conts] by simp
  from loop_task_smaller [where \<mu> = \<mu>, OF mem n(2) t(1) dec des] obtain hs' where
    "ready_apart {b} rt2 hs'" "\<mu> w' < \<mu> w \<or> \<mu> w' \<le> \<mu> w
      \<and> length hs' + length (rt_conts rt2) \<le> length hs + length (rt_conts rt1)" by blast
  then show ?thesis using ready_apart_free t(2) c by (intro exI [of _ hs']) auto
qed

lemma queue_head: "ready_apart {} rt hs \<Longrightarrow> tq_head (rt_ready rt) = 0 \<longleftrightarrow> hs = []"
proof -
  assume "ready_apart {} rt hs"
  then obtain as where "chain (rt_heap rt) (tq_head (rt_ready rt)) as" "handles (rt_heap rt) as = hs"
    by (auto simp: ready_apart_def queue_rep_def)
  then show ?thesis by (cases as) (auto simp: handles_def)
qed

text \<open>C19: When every resumption brings the coroutines closer to their end, draining the ready queue ends,
  with a result or a failed assertion.\<close>

theorem drain_terminates:
  assumes mem: "alloc_ok (ma_task mem)"
    and dec: "\<And>w h. \<not> co_done api w h \<Longrightarrow> \<mu> (fst (co_resume api w h)) < (\<mu> w :: nat)"
    and des: "\<And>w h. \<mu> (co_destroy api w h) \<le> \<mu> w"
    and "ready_apart {} rt hs"
  shows "\<exists>fuel r. run_turns api mem m fuel (Draining, w, rt) = Some r"
  using assms(4)
proof (induction "(\<mu> w, length hs + length (rt_conts rt))" arbitrary: w rt hs
    rule: wf_induct_rule [OF wf_lex_prod [OF wf_less_than wf_less_than]])
  case 1
  have d: "with_next_task (drain_task api mem m) = with_next_task (loop_task api mem m)"
    using drain_task_is_loop_task by (metis ext)
  show ?case
  proof (cases hs)
    case Nil
    then have "run_turns api mem m (Suc (Suc 0)) (Draining, w, rt) = Some (Inr (w, rt))"
      using queue_head [OF 1(2)] by (simp add: main_turn_def)
    then show ?thesis by blast
  next
    case (Cons h hs')
    then have a: "ready_apart {} rt (h # hs')" and ne: "tq_head (rt_ready rt) \<noteq> 0"
      using 1(2) queue_head [OF 1(2)] by simp_all
    show ?thesis
    proof (cases "with_next_task (loop_task api mem m) (w, rt)")
      case (Inl e)
      then have "run_turns api mem m (Suc 0) (Draining, w, rt) = Some (Inl e)"
        using ne by (simp add: main_turn_def d)
      then show ?thesis by blast
    next
      case (Inr s)
      obtain w' rt' where s: "s = (w', rt')" by fastforce
      from next_task_smaller [where \<mu> = \<mu>, OF mem a _ dec des, of m w w' rt'] Inr s obtain hs2 where
        n: "ready_apart {} rt' hs2" "\<mu> w' < \<mu> w \<or> \<mu> w' \<le> \<mu> w
          \<and> length hs2 + length (rt_conts rt') < length (h # hs') + length (rt_conts rt)" by auto
      have "((\<mu> w', length hs2 + length (rt_conts rt')), \<mu> w, length hs + length (rt_conts rt))
          \<in> less_than <*lex*> less_than"
        using n(2) Cons by auto
      from 1(1) [OF this n(1)] obtain fuel r where
        "run_turns api mem m fuel (Draining, w', rt') = Some r" by blast
      then have "run_turns api mem m (Suc fuel) (Draining, w, rt) = Some r"
        using Inr s ne by (simp add: main_turn_def d)
      then show ?thesis by blast
    qed
  qed
qed

definition countdown_api :: "nat coro_api" where
  "countdown_api = \<lparr>co_done = (\<lambda>w h. w = 0), co_resume = (\<lambda>w h. (w - 1, [Call_Spawn h])),
     co_destroy = (\<lambda>w h. w), co_promise = (\<lambda>w h. 0)\<rparr>"

lemma drain_terminates_witness:
  "\<exists>fuel r. run_turns countdown_api (memory_of guarded_fresh) 1 fuel
     (Draining, 3, enqueue_ready (memory_of guarded_fresh) 5 runtime_init) = Some r"
proof -
  have "settled {} (enqueue_ready (memory_of guarded_fresh) 5 runtime_init)"
    by (rule settled_init) (simp add: memory_of_def)
  then obtain hs where "ready_apart {} (enqueue_ready (memory_of guarded_fresh) 5 runtime_init) hs"
    by (auto simp: settled_def)
  from drain_terminates [where \<mu> = id and api = countdown_api, OF _ _ _ this] show ?thesis
    by (simp add: memory_of_def countdown_api_def)
qed

text \<open>With nothing ready, nothing pending and the main coroutine not done the loop turns forever: the
  state repeats.\<close>

lemma deadlock_spins:
  assumes "ready_apart {} rt []" "rt_running rt" "rt_io rt = []" "rt_pool rt = init_queue"
    and "\<not> co_done api w m"
    and "rt_step api mem perform m (Looping, w, rt) s"
  shows "s = (Looping, w, rt)"
  using assms(6)
proof (cases rule: rt_step.cases)
  case turn
  then show ?thesis
    using assms(1,2,5) by (auto simp: main_turn_def with_next_task_empty)
next
  case file_io
  then show ?thesis using assms(2,3) by (auto simp: file_io_step_def)
next
  case worker
  then show ?thesis using assms(4) by (auto simp: worker_step_def dequeue_task_def init_queue_def)
qed

end
