(* ===== verification/Spec2Isabelle.thy ===== *)
theory Spec2Isabelle
  imports Token_Strings Types_Correct Mangler Evaluator Const_Value_Correct
    Ownership_Correct Symbol_Table_Correct Type_Resolver_Correct Parser_Correct
    Parser_Depth Parser_Recovery Library_Correct
    Runtime_Files Overflow_Notes Event_Loop_Correct
begin

text \<open>
  A verification library of the Djinn compiler (the C++ sources; the paths below are under
  \<^verbatim>\<open>src/\<close>).

  \<^bold>\<open>The program.\<close> The scanner turns a source text into tokens, the parser turns tokens into syntax trees,
  the binder resolves names and types, checks ownership and reports through the diagnostics engine,
  the constant evaluator computes compile-time expressions by compiling them to bytecode and running
  a stack machine, and the generator emits LLVM code under mangled names.

  \<^bold>\<open>Theories and sources.\<close> Each component has a theory of definitions and, where it has more than a few
  lemmas, a theory of proofs with the suffix \<open>_Correct\<close>.

  \<^item> \<open>Djinn_Prelude\<close>: characters, decimal numbers, vectors and the invariant argument, a locale that
    the machine, the borrow checker and the symbol table instantiate.
  \<^item> \<open>Tokens\<close>, \<open>Lexer\<close>, \<open>Lexer_Correct\<close>: \<^verbatim>\<open>lexer/TokenType.h\<close>, \<^verbatim>\<open>lexer/Token.h\<close>, \<^verbatim>\<open>lexer/Lexer.h\<close> and
    \<^verbatim>\<open>lexer/Lexer.cpp\<close>. The object is a record, a member function a function of the record. Scanning is
    total, fails only on an exponent without digits, ends with the end-of-file token, stamps every
    token with its position and inverts writing. \<open>Token_Strings\<close> holds the printed forms of the token
    types at the head of \<^verbatim>\<open>parser/ast/Expression.h\<close>, which scan back.
  \<^item> \<open>Types\<close>, \<open>Types_Correct\<close>: \<^verbatim>\<open>parser/ast/Type.h\<close> and \<^verbatim>\<open>parser/ast/Generic.h\<close>. Equality compares
    everything but three marks, the printed form of a type that was made from a token reads back,
    generic parameters are substituted completely.
  \<^item> \<open>Mangler\<close>: \<^verbatim>\<open>generator/Mangler.h\<close>. Symbol names determine function names and, for plain parameters
    (generic arguments are not in a name), the parameter types; they demangle to the name.
  \<^item> \<open>Doubles\<close>, \<open>Const_Value\<close>, \<open>Const_Value_Correct\<close>: \<^verbatim>\<open>evaluator/ConstValue.h\<close> and the arithmetic helpers of
    \<^verbatim>\<open>evaluator/ConstEvaluator.cpp\<close>, at their machine widths. Signed arithmetic is exact up to the overflow
    mode as long as the 64-bit result exists; 128-bit arithmetic is that of two's complement; where the
    code overflows a signed 64-bit number the result is undefined, \<^const>\<open>None\<close>.
  \<^item> \<open>Bytecode\<close>, \<open>Bytecode_Compiler\<close>, \<open>Const_VM\<close>, \<open>Evaluator\<close>: \<^verbatim>\<open>evaluator/ConstEvaluator.h\<close> and
    \<^verbatim>\<open>evaluator/ConstEvaluator.cpp\<close>: the compiler, the machine and the interface. \<open>VM_Correct\<close>: every run ends
    and stays within the configured limits. \<open>Compiler_Correct\<close> and \<open>Evaluator\<close>: compiled code computes what
    a tree-walking evaluator computes, for expressions without calls, assignments and floats.
  \<^item> \<open>Diagnostics\<close>: \<^verbatim>\<open>diagnostics/Diagnostic.h\<close> and \<^verbatim>\<open>diagnostics/Diagnostic.cpp\<close>: source lines, duplicate suppression
    and counts, rendering.
  \<^item> \<open>Ownership\<close>, \<open>Ownership_Correct\<close>: \<^verbatim>\<open>binder/ownership\<close>. The tracker refines a machine of abstract places;
    checked operations keep the borrow discipline; leaving a scope ends its borrows.
  \<^item> \<open>Symbols\<close>, \<open>Symbol_Table\<close>, \<open>Symbol_Table_Correct\<close>: \<^verbatim>\<open>binder/Symbol.h\<close> and \<^verbatim>\<open>binder/SymbolTable.h\<close>. Symbols
    live in a store, scopes hold addresses. Lookup is lexical scoping; in a table the
    operations build every lookup is characterised and none goes wrong; unused symbols are reported
    exactly.
  \<^item> \<open>Ast\<close>: the expression and statement classes of \<^verbatim>\<open>parser/ast\<close>. \<open>Type_Resolver\<close>, \<open>Type_Resolver_Correct\<close>:
    \<^verbatim>\<open>binder/types/TypeResolver.cpp\<close>. Which literals the check rejects, for every width and mode; an
    accepted literal for a trapped or checked type of at most 64 bits is a value of the type.
  \<^item> \<open>Parser_State\<close>, \<open>Parser_Types\<close>, \<open>Parser_Declarations\<close>: the token stream of \<^verbatim>\<open>parser/Parser.cpp\<close>, scopes
    (\<^verbatim>\<open>parser/ast/Scope.h\<close>), recovery, types, and the declarations made of names and types.
    \<open>Parser_Types_Correct\<close>: weakest preconditions of the token operations, and that a type always parses
    or fails. \<open>Parser_Grammar\<close>: the round trip of written types, where \<^verbatim>\<open>>>\<close> closes two lists.
    \<open>Type_Words\<close>: the words taken for the beginning of a type. \<open>Parser_Correct\<close>: where recovery stops, and
    qualified names.
  \<^item> \<open>Parser_Macros\<close>, \<open>Parser_Expressions\<close>, \<open>Parser_Statements\<close>: macro declarations and expansion, every
    expression with the interpolation of strings, every statement. The parse functions call each other;
    each takes the others as a \<open>grammar\<close>, and \<open>grammar_at k\<close> ties the knot \<open>k\<close> levels deep.
  \<^item> \<open>Parser_Members\<close>, \<open>Parser_Structs\<close>, \<open>Parser_Program\<close>: attributes, parameters, contracts, methods,
    structs, interfaces, enums, \<^verbatim>\<open>impl\<close> blocks, functions, constants, namespaces, compile-time blocks, and
    the loop of \<^verbatim>\<open>parse\<close>. A declaration is emitted when it is complete, so what was read before an error stays.
  \<^item> \<open>Parser_Safe\<close>: a calculus in which a parse function is shown to stay within its tokens, to consume,
    and to leave the scopes as they were; its rules follow the combinators. \<open>Parser_Total\<close> applies it to
    expressions and statements, \<open>Parser_Program_Total\<close> to declarations. \<open>Parser_Depth\<close>: more depth changes
    nothing, so the depth is no limit of the model. \<open>Parser_Recovery\<close>: the loop of \<^verbatim>\<open>parse\<close> ends.
  \<^item> \<open>Json_Library\<close>: the functions of the JSON library as a record of parameters and what its documentation
    promises. \<open>Lib_Format\<close>, \<open>Lib_Symbols\<close>: \<^verbatim>\<open>lib/DjLibFormat.h\<close>, \<open>Lib_Writer\<close>: \<^verbatim>\<open>lib/DjLibWriter.cpp\<close>,
    \<open>Lib_Reader\<close>: \<^verbatim>\<open>lib/DjLibReader.cpp\<close> and the binder's use of it, \<open>Attribute_Targets\<close>: the two readings of
    an attribute's targets. \<open>Lib_Format_Correct\<close>: what is stored of a value is read back, and what is lost.
    \<open>Library_Correct\<close>: the file round trip, and that a library brings its symbols into another table as
    they were exported, through \<open>first_wins\<close>, a locale of definitions that never replace one.
  \<^item> \<open>Runtime_Text\<close>, \<open>Runtime_Files\<close>: \<^verbatim>\<open>runtime/djinn_runtime.c\<close>, the hash and comparison of strings, aligned
    allocation, console input, the listing of files with an allocator that may fail; beside them the type identifier of
    \<^verbatim>\<open>generator/expressions/TypeInfo.cpp\<close>, the low half of that hash, and \<^verbatim>\<open>binder/ErrorTypes.h\<close>.
    \<open>Shadow_Stack\<close>, \<open>Runtime_Report\<close>: the shadow call stack, the assignment history and the error reports,
    which never leave their buffer. \<open>Overflow_Notes\<close>: what a report says of an overflow against the
    arithmetic, and what it says for operands as the generator passes them.
  \<^item> \<open>Runtime_Queue\<close>, \<open>Event_Loop\<close>: the task queue as a linked list in a heap, which implements the locale
    \<open>fifo\<close>, and the event loop with its waiting set, continuations and file thread, as a relation of
    interleaved steps. Compiled coroutines, memory and the operating system are parameters.
    \<open>Event_Loop_Correct\<close>: when coroutines keep the protocol of the compiled code and memory lasts, no
    step loses one and the state between steps is consistent; draining ends, and pending file requests
    run newest first.

  This theory holds what spans components: from the text of a type to the type.

  \<^bold>\<open>How behaviour is rendered.\<close> Exceptions, failed assertions and what the code does outside the
  defined behaviour of C and C++ are values of the result types where the development meets them: reads
  outside a vector, indices, conversions and shifts out of range, signed 64-bit overflow in the
  evaluator, overflow of the counter of assignments, writes through the null pointer of a failed
  allocation in the file listing. Not rendered are exhaustion of
  memory in the C++ parts, the depth of the native stack, and overflow of counts that are lengths of
  lists or queues in memory. Fuel occurs in the parser and in the runtime. In the parser every loop consumes a token per
  round, the fuel is one more than the number of tokens, the depth of nesting is bounded by the tokens
  ahead, and \<open>parse_type_total\<close>, \<open>synchronize_stops\<close>, \<open>statement_parser_total\<close> and \<open>program_parser_total\<close>
  show that neither is used up. The last two exclude what can fail an assertion or never end: an
  interpolated string, an empty string literal as a name, an operator behind a half of \<^verbatim>\<open>>>\<close>, and, for
  programs, macros, whose expansion may be endless. In the runtime
  it bounds the nesting of directories (\<open>list_files_exact\<close>: a bound exists when there is no cycle) and
  the turns of the event loop (\<open>drain_terminates\<close>: enough turns drain the queue; the loop itself may
  spin for ever when the main coroutine never ends). The machine of the evaluator is a \<open>partial_function\<close>, and
  \<open>execute_terminates\<close> shows that it returns on every program. \<^verbatim>\<open>std::pow\<close> is a parameter of the bytecode
  compiler. Hash maps that the code iterates over are association lists in an arbitrary order.

  \<^bold>\<open>Not modelled.\<close> The traversal of the binder, printing of syntax trees (planned); the LLVM generator
  and the JIT, which call the LLVM libraries; the language server; configuration and driver, which
  are input and output; of the runtime the start and stop of its threads, sockets and
  their poller, terminal modes, the native stack trace and the Windows branches; of the library format, opening and writing the file, and the bitcode in it; the self-hosted compiler
  and the standard library, which are written in Djinn.
\<close>

section \<open>From text to type\<close>

definition lexeme_signature :: "lexeme \<times> string \<Rightarrow> signature" where
  "lexeme_signature p =
     (lexeme_type (fst p), if starts_type (lexeme_type (fst p)) then lexeme_value (fst p) else [])"

definition next_lexeme_type :: "(lexeme \<times> string) list \<Rightarrow> token_type" where
  "next_lexeme_type ls = (case ls of [] \<Rightarrow> T_END_OF_FILE | (l, ws) # _ \<Rightarrow> lexeme_type l)"

lemma set_commas: "set (commas xss) \<subseteq> insert (T_COMMA, []) (\<Union>xs\<in>set xss. set xs)"
  by (induction xss rule: commas.induct) auto

lemma spell_no_split:
  "v \<in> set (spell s) \<Longrightarrow> fst v \<noteq> T_GREATER_GREATER"
  "v \<in> set (spell_head h) \<Longrightarrow> fst v \<noteq> T_GREATER_GREATER"
proof (induction s and h)
  case (TH_Generic w ss)
  then show ?case using set_commas [of "map spell ss"] by fastforce
qed (auto split: if_splits)

lemma source_view_plain:
  assumes "\<forall>t\<in>set toks. t_type t \<noteq> T_GREATER_GREATER"
  shows "source_view toks = map signature_of toks" "split_safe toks R"
  using assms by (induction toks) auto

text \<open>C5: From the text of a type to the type, through the scanner and the parser. Take lexemes that spell a
  type in the grammar of types, followed by any lexemes of which the first is none of the four that
  continue a type (a less-than sign, a star, an opening bracket, a question mark), and write each of them
  followed by at least one blank, so that two closing brackets of nested generic arguments never run
  together. The text scans without error, and parse_type, started on the tokens, returns the type that
  is written and stops behind its last token. (Texts without the blanks are not covered: a shift
  operator made of two closing brackets can be read wrongly, as nested_generic_misparse shows.)\<close>

theorem source_type_roundtrip:
  assumes "well_written (ls @ follow)" "list_all is_space ws0"
    and "map lexeme_signature ls = spell s" "syntax_ok s" "ends_type (next_lexeme_type follow)"
  shows "\<exists>ts. tokenize (Lexer (ws0 @ written (ls @ follow)) fid) = Inr ts
     \<and> parse_type (new_parser ts) = P_Ok (type_of s) ((new_parser ts)\<lparr>ps_current := length ls\<rparr>)"
proof -
  obtain ts where ts: "tokenize (Lexer (ws0 @ written (ls @ follow)) fid) = Inr ts"
    "map (\<lambda>t. (t_type t, t_value t)) ts =
       map (\<lambda>(l, ws). (lexeme_type l, lexeme_value l)) (ls @ follow) @ [(T_END_OF_FILE, [])]"
    using tokenize_written [OF assms(1,2)] by blast
  from ts(2) [unfolded map_append append_assoc] obtain us R where ts_eq: "ts = us @ R"
    and us: "map (\<lambda>t. (t_type t, t_value t)) us = map (\<lambda>(l, ws). (lexeme_type l, lexeme_value l)) ls"
    and R: "map (\<lambda>t. (t_type t, t_value t)) R =
       map (\<lambda>(l, ws). (lexeme_type l, lexeme_value l)) follow @ [(T_END_OF_FILE, [])]"
    by (metis (no_types, lifting) map_eq_append_conv)
  have "map signature_of us = map lexeme_signature ls"
    using us by (induction us ls rule: list_induct2') (auto simp: signature_of_def lexeme_signature_def)
  then have sig: "map signature_of us = spell s" using assms(3) by simp
  have "\<forall>t\<in>set us. t_type t \<noteq> T_GREATER_GREATER"
  proof
    fix t assume "t \<in> set us"
    then have "signature_of t \<in> set (spell s)" using sig by (metis image_eqI list.set_map)
    then show "t_type t \<noteq> T_GREATER_GREATER" using spell_no_split(1) by (fastforce simp: signature_of_def)
  qed
  note plain = source_view_plain [OF this]
  have ne: "R \<noteq> []" and nxt: "ends_type (t_type (hd R))"
    using R assms(5) by (cases R; cases follow; auto simp: next_lexeme_type_def)+
  have "parse_type (new_parser ts) = P_Ok (type_of s) ((new_parser ts)\<lparr>ps_current := ps_current (new_parser ts) + length us\<rparr>)"
    using plain sig ne nxt assms(4) by (intro parse_type_spelled [of _ us R]) (simp_all add: new_parser_def ts_eq)
  moreover have "length us = length ls" using arg_cong [OF us, of length] by simp
  ultimately show ?thesis using ts(1) by (auto simp: new_parser_def)
qed

definition typed_lexemes :: "(lexeme \<times> string) list" where
  "typed_lexemes = [(Word ''Array'', '' ''), (Symbol ''<'' T_LESS, '' ''), (Word ''f32'', '' ''), (Symbol ''*'' T_STAR, '' ''),
     (Symbol ''>'' T_GREATER, '' ''), (Symbol ''?'' T_QUESTION, '' '')]"

definition typed_syntax :: type_syntax where
  "typed_syntax = TS (TH_Generic ''Array'' [TS (TH_Word ''f32'') 1 False False]) 0 False True"

lemma typed_premises:
  "well_written (typed_lexemes @ [(Word ''x'', '' '')])" "map lexeme_signature typed_lexemes = spell typed_syntax"
  "syntax_ok typed_syntax" "ends_type (next_lexeme_type [(Word ''x'', '' '')])"
  by code_simp+

theorem source_type_roundtrip_witness:
  "\<exists>ts. tokenize (Lexer ([] @ written (typed_lexemes @ [(Word ''x'', '' '')])) ''main'') = Inr ts
     \<and> parse_type (new_parser ts) = P_Ok (type_of typed_syntax) ((new_parser ts)\<lparr>ps_current := length typed_lexemes\<rparr>)"
  by (rule source_type_roundtrip) (simp_all add: typed_premises)

end
